(* ===== verification/Prelude.thy ===== *)
theory Prelude
  imports Main "HOL-Library.List_Lexorder" "HOL-Library.Char_ord"
begin

text \<open>
  Shared vocabulary of the development. The Go code reports a failure by returning an
  \<open>error\<close> beside its value; here every fallible operation returns a sum whose left
  component is the error. An operation that also changes the database takes the database
  as its last argument and returns it beside the value, so an \<open>Inl\<close> result carries no
  new database: this is the rollback of a failed transaction.
\<close>

named_theorems go_simps \<open>unfolding equations of small helpers\<close>
named_theorems res_simps \<open>equations of the result combinators\<close>

section \<open>Results\<close>

definition bindE :: "('e + 'a) \<Rightarrow> ('a \<Rightarrow> 'e + 'b) \<Rightarrow> 'e + 'b" where
  "bindE m f = (case m of Inl e \<Rightarrow> Inl e | Inr x \<Rightarrow> f x)"

text \<open>A guard that returns early with an error: \<open>if cond { return err }\<close>.\<close>

definition failIf :: "bool \<Rightarrow> 'e \<Rightarrow> ('e + 'a) \<Rightarrow> 'e + 'a" where
  "failIf c e m = (if c then Inl e else m)"

lemma bindE_simps [simp, res_simps]:
  "bindE (Inl e) f = Inl e"
  "bindE (Inr x) f = f x"
  by (simp_all add: bindE_def)

lemma failIf_simps [simp, res_simps]:
  "failIf True e m = Inl e"
  "failIf False e m = m"
  by (simp_all add: failIf_def)

lemma bindE_Inr_iff: "bindE m f = Inr y \<longleftrightarrow> (\<exists>x. m = Inr x \<and> f x = Inr y)"
  by (cases m) auto

lemma bindE_Inl_iff: "bindE m f = Inl e \<longleftrightarrow> m = Inl e \<or> (\<exists>x. m = Inr x \<and> f x = Inl e)"
  by (cases m) auto

lemma failIf_Inr_iff: "failIf c e m = Inr y \<longleftrightarrow> \<not> c \<and> m = Inr y"
  by (simp add: failIf_def)

lemma failIf_Inl_iff: "failIf c e m = Inl e' \<longleftrightarrow> (c \<and> e' = e) \<or> (\<not> c \<and> m = Inl e')"
  by (auto simp: failIf_def)

lemmas res_iffs = bindE_Inr_iff failIf_Inr_iff
lemmas res_err_iffs = bindE_Inl_iff failIf_Inl_iff

lemma bindE_assoc: "bindE (bindE m f) g = bindE m (\<lambda>x. bindE (f x) g)"
  by (cases m) auto

lemma bindE_cong [fundef_cong]:
  "m = m' \<Longrightarrow> (\<And>x. m' = Inr x \<Longrightarrow> f x = f' x) \<Longrightarrow> bindE m f = bindE m' f'"
  by (cases m') auto

text \<open>A loop that stops at the first error; its state is threaded through the iterations.\<close>

fun foldE :: "('a \<Rightarrow> 's \<Rightarrow> 'e + 's) \<Rightarrow> 'a list \<Rightarrow> 's \<Rightarrow> 'e + 's" where
  "foldE f [] s = Inr s"
| "foldE f (x # xs) s = bindE (f x s) (foldE f xs)"

text \<open>A loop without state that returns the first error of its body.\<close>

fun firstError :: "('a \<Rightarrow> 'e + unit) \<Rightarrow> 'a list \<Rightarrow> 'e + unit" where
  "firstError f [] = Inr ()"
| "firstError f (x # xs) = bindE (f x) (\<lambda>_. firstError f xs)"

lemma foldE_append: "foldE f (xs @ ys) s = bindE (foldE f xs s) (foldE f ys)"
  by (induction xs arbitrary: s) (auto simp: bindE_assoc intro!: bindE_cong)

lemma foldE_invariant:
  assumes "foldE f xs s = Inr t" "P s"
    and "\<And>x s t. x \<in> set xs \<Longrightarrow> P s \<Longrightarrow> f x s = Inr t \<Longrightarrow> P t"
  shows "P t"
  using assms
proof (induction xs arbitrary: s)
  case (Cons x xs)
  then obtain u where "f x s = Inr u" "foldE f xs u = Inr t" by (auto simp: bindE_Inr_iff)
  with Cons show ?case by (metis list.set_intros)
qed simp

lemma firstError_Inr_iff: "firstError f xs = Inr () \<longleftrightarrow> (\<forall>x \<in> set xs. f x = Inr ())"
  by (induction xs) (auto simp: bindE_Inr_iff)

lemma firstError_cong [fundef_cong]:
  "xs = ys \<Longrightarrow> (\<And>x. x \<in> set ys \<Longrightarrow> f x = g x) \<Longrightarrow> firstError f xs = firstError g ys"
  by (induction xs arbitrary: ys) (auto intro!: bindE_cong)

text \<open>Success of a check does not depend on the order in which a Go map is ranged over.\<close>

lemma firstError_order:
  "set xs = set ys \<Longrightarrow> (firstError f xs = Inr ()) = (firstError f ys = Inr ())"
  by (simp add: firstError_Inr_iff)

lemma foldE_cong [fundef_cong]:
  "xs = ys \<Longrightarrow> s = t \<Longrightarrow> (\<And>x u. x \<in> set ys \<Longrightarrow> f x u = g x u) \<Longrightarrow> foldE f xs s = foldE g ys t"
  by (induction xs arbitrary: ys s t) (auto intro!: bindE_cong)

section \<open>Optional values\<close>

text \<open>A nil pointer is \<open>None\<close>; \<open>orElse\<close> is the fallback of a nil pointer.\<close>

definition orElse :: "'a option \<Rightarrow> 'a \<Rightarrow> 'a" where
  "orElse p d = (case p of None \<Rightarrow> d | Some x \<Rightarrow> x)"

lemma orElse_simps [simp]: "orElse None d = d" "orElse (Some x) d = x"
  by (simp_all add: orElse_def)

section \<open>Lists\<close>

text \<open>Every element that satisfies a test is replaced by its image: an \<open>UPDATE\<close> of rows.\<close>

definition updateWhere :: "('a \<Rightarrow> bool) \<Rightarrow> ('a \<Rightarrow> 'a) \<Rightarrow> 'a list \<Rightarrow> 'a list" where
  "updateWhere p f xs = map (\<lambda>x. if p x then f x else x) xs"

lemma updateWhere_simps [simp]:
  "updateWhere p f [] = []"
  "updateWhere p f (x # xs) = (if p x then f x else x) # updateWhere p f xs"
  by (simp_all add: updateWhere_def)

lemma length_updateWhere [simp]: "length (updateWhere p f xs) = length xs"
  by (simp add: updateWhere_def)

lemma set_updateWhere: "set (updateWhere p f xs) = (\<lambda>x. if p x then f x else x) ` set xs"
  by (simp add: updateWhere_def)

lemma map_updateWhere:
  "(\<And>x. p x \<Longrightarrow> g (f x) = g x) \<Longrightarrow> map g (updateWhere p f xs) = map g xs"
  by (simp add: updateWhere_def)

lemma updateWhere_none: "(\<And>x. x \<in> set xs \<Longrightarrow> \<not> p x) \<Longrightarrow> updateWhere p f xs = xs"
  by (induction xs) auto

lemma find_updateWhere_other:
  "(\<And>x. p x \<Longrightarrow> \<not> q x \<and> \<not> q (f x)) \<Longrightarrow> find q (updateWhere p f xs) = find q xs"
  by (induction xs) auto

text \<open>An update that leaves a search key alone: the search finds the updated row.\<close>

lemma find_updateWhere:
  "(\<And>x. p x \<Longrightarrow> q (f x) = q x) \<Longrightarrow>
   find q (updateWhere p f xs) = map_option (\<lambda>x. if p x then f x else x) (find q xs)"
  by (induction xs) auto

lemma find_map_option_id:
  "(\<And>x. q x \<Longrightarrow> f x = x) \<Longrightarrow> map_option f (find q xs) = find q xs"
  by (induction xs) auto

lemma find_map_option_cong:
  "(\<And>x. q x \<Longrightarrow> f x = g x) \<Longrightarrow> map_option f (find q xs) = map_option g (find q xs)"
  by (induction xs) auto

lemma find_None: "find p xs = None \<longleftrightarrow> (\<forall>x \<in> set xs. \<not> p x)"
  by (auto simp: find_None_iff)

lemma find_append_other: "\<not> p y \<Longrightarrow> find p (xs @ [y]) = find p xs"
  by (induction xs) auto

lemma find_SomeD: "find p xs = Some x \<Longrightarrow> p x \<and> x \<in> set xs"
  by (auto simp: find_Some_iff)

lemma find_snoc: "(\<And>y. y \<in> set xs \<Longrightarrow> \<not> p y) \<Longrightarrow> p x \<Longrightarrow> find p (xs @ [x]) = Some x"
  by (induction xs) auto

lemma find_unique:
  assumes "distinct (map k xs)" "x \<in> set xs" "p x" "\<And>y. p y \<Longrightarrow> k y = k x"
  shows "find p xs = Some x"
  using assms
proof (induction xs)
  case (Cons y ys)
  show ?case
  proof (cases "p y")
    case True
    then have k: "k y = k x" by (rule Cons.prems(4))
    have "y = x"
    proof (rule ccontr)
      assume "y \<noteq> x"
      then have "x \<in> set ys" using Cons.prems(2) by simp
      then have "k y \<in> k ` set ys" using k by simp
      then show False using Cons.prems(1) by simp
    qed
    with True show ?thesis by simp
  next
    case False
    then have "x \<in> set ys" using Cons.prems(2,3) by auto
    have "distinct (map k ys)" using Cons.prems(1) by simp
    then have "find p ys = Some x" by (rule Cons.IH [OF _ \<open>x \<in> set ys\<close> Cons.prems(3,4)])
    with False show ?thesis by simp
  qed
qed simp

end
