(* ===== verification/GoText.thy ===== *)
theory GoText
  imports Prelude
begin

text \<open>
  The part of Go's \<open>strings\<close> and \<open>strconv\<close> packages the code uses. A Go string is a
  sequence of bytes, so it is a \<open>char list\<close> and \<open>length\<close> is \<open>len\<close>. White space is
  \<open>unicode.IsSpace\<close> on UTF-8 text; \<open>to_lower\<close> maps every rune whose lower case is an
  ASCII letter and leaves other runes alone, which is all a comparison with ASCII text sees.
\<close>

section \<open>Prefixes, suffixes, substrings\<close>

definition has_prefix :: "string \<Rightarrow> string \<Rightarrow> bool" where
  "has_prefix p s \<longleftrightarrow> take (length p) s = p"

definition has_suffix :: "string \<Rightarrow> string \<Rightarrow> bool" where
  "has_suffix p s \<longleftrightarrow> has_prefix (rev p) (rev s)"

definition trim_prefix :: "string \<Rightarrow> string \<Rightarrow> string" where
  "trim_prefix p s = (if has_prefix p s then drop (length p) s else s)"

fun contains_sub :: "string \<Rightarrow> string \<Rightarrow> bool" where
  "contains_sub [] p \<longleftrightarrow> p = []"
| "contains_sub (c # s) p \<longleftrightarrow> has_prefix p (c # s) \<or> contains_sub s p"

lemma has_prefix_append [simp]: "has_prefix p (p @ s)"
  by (simp add: has_prefix_def)

lemma has_prefix_iff: "has_prefix p s \<longleftrightarrow> (\<exists>t. s = p @ t)"
proof
  assume "has_prefix p s"
  then have "s = p @ drop (length p) s" by (metis append_take_drop_id has_prefix_def)
  then show "\<exists>t. s = p @ t" ..
qed auto

lemma has_suffix_iff: "has_suffix p s \<longleftrightarrow> (\<exists>t. s = t @ p)"
  unfolding has_suffix_def has_prefix_iff
  by (metis rev_append rev_rev_ident)

lemma contains_sub_iff: "contains_sub s p \<longleftrightarrow> (\<exists>u v. s = u @ p @ v)"
proof (induction s)
  case (Cons c s)
  then show ?case by (auto simp: has_prefix_iff Cons_eq_append_conv)
qed auto

lemma contains_sub_trans: "contains_sub s p \<Longrightarrow> contains_sub (a @ s @ b) p"
  by (auto simp: contains_sub_iff) (metis append.assoc)

section \<open>White space\<close>

definition space1 :: "char \<Rightarrow> bool" where
  "space1 c \<longleftrightarrow> c \<in> set [CHR 0x09, CHR 0x0A, CHR 0x0B, CHR 0x0C, CHR 0x0D, CHR '' '']"

definition space2 :: "char \<Rightarrow> char \<Rightarrow> bool" where
  "space2 a b \<longleftrightarrow> a = CHR 0xC2 \<and> (b = CHR 0x85 \<or> b = CHR 0xA0)"

definition space3 :: "char \<Rightarrow> char \<Rightarrow> char \<Rightarrow> bool" where
  "space3 a b c \<longleftrightarrow>
     (a = CHR 0xE1 \<and> b = CHR 0x9A \<and> c = CHR 0x80)
   \<or> (a = CHR 0xE2 \<and> b = CHR 0x80 \<and> (CHR 0x80 \<le> c \<and> c \<le> CHR 0x8A \<or> c = CHR 0xA8 \<or> c = CHR 0xA9 \<or> c = CHR 0xAF))
   \<or> (a = CHR 0xE2 \<and> b = CHR 0x81 \<and> c = CHR 0x9F)
   \<or> (a = CHR 0xE3 \<and> b = CHR 0x80 \<and> c = CHR 0x80)"

text \<open>Drop leading white space; the two-byte and three-byte tests are parameters, so that
  the same function drops trailing white space from a reversed string.\<close>

fun strip :: "(char \<Rightarrow> char \<Rightarrow> bool) \<Rightarrow> (char \<Rightarrow> char \<Rightarrow> char \<Rightarrow> bool) \<Rightarrow> string \<Rightarrow> string" where
  "strip p q [] = []"
| "strip p q [a] = (if space1 a then [] else [a])"
| "strip p q [a, b] = (if space1 a then strip p q [b] else if p a b then [] else [a, b])"
| "strip p q (a # b # c # s) =
     (if space1 a then strip p q (b # c # s)
      else if p a b then strip p q (c # s)
      else if q a b c then strip p q s
      else a # b # c # s)"

definition trim_left :: "string \<Rightarrow> string" where
  "trim_left s = strip space2 space3 s"

definition trim_right :: "string \<Rightarrow> string" where
  "trim_right s = rev (strip (\<lambda>b a. space2 a b) (\<lambda>c b a. space3 a b c) (rev s))"

definition trim_space :: "string \<Rightarrow> string" where
  "trim_space s = trim_right (trim_left s)"

lemma strip_idem [simp]: "strip p q (strip p q s) = strip p q s"
  by (induction p q s rule: strip.induct) auto

lemma strip_suffix: "\<exists>t. s = t @ strip p q s"
proof (induction p q s rule: strip.induct)
  case (4 p q a b c s)
  then show ?case by (auto simp: Cons_eq_append_conv)
qed (auto simp: Cons_eq_append_conv)


text \<open>What is left after dropping white space does not start with white space, and a shorter
  string does not start with white space either.\<close>

fun starts_space :: "(char \<Rightarrow> char \<Rightarrow> bool) \<Rightarrow> (char \<Rightarrow> char \<Rightarrow> char \<Rightarrow> bool) \<Rightarrow> string \<Rightarrow> bool" where
  "starts_space p q [] \<longleftrightarrow> False"
| "starts_space p q [a] \<longleftrightarrow> space1 a"
| "starts_space p q [a, b] \<longleftrightarrow> space1 a \<or> p a b"
| "starts_space p q (a # b # c # s) \<longleftrightarrow> space1 a \<or> p a b \<or> q a b c"

lemma starts_space_append: "starts_space p q s \<Longrightarrow> starts_space p q (s @ t)"
  by (induction p q s rule: starts_space.induct) (auto; cases t; cases "tl t"; auto)+

lemma strip_not_starts: "\<not> starts_space p q (strip p q s)"
  by (induction p q s rule: strip.induct) auto

lemma strip_id: "\<not> starts_space p q s \<Longrightarrow> strip p q s = s"
  by (induction p q s rule: strip.induct) auto

lemma trim_right_prefix: "\<exists>t. s = trim_right s @ t"
  unfolding trim_right_def
  by (metis rev_append rev_rev_ident strip_suffix)

lemma trim_left_trim_space [simp]: "trim_left (trim_space s) = trim_space s"
proof -
  obtain t where "trim_left s = trim_space s @ t"
    using trim_right_prefix [of "trim_left s"] by (auto simp: trim_space_def)
  then have "\<not> starts_space space2 space3 (trim_space s @ t)"
    using strip_not_starts [of space2 space3 s] by (simp add: trim_left_def)
  then show ?thesis
    by (auto simp: trim_left_def intro: strip_id dest: starts_space_append)
qed

lemma trim_right_idem [simp]: "trim_right (trim_right s) = trim_right s"
  by (simp add: trim_right_def)

lemma trim_space_idem [simp]: "trim_space (trim_space s) = trim_space s"
  by (subst trim_space_def) (simp, simp add: trim_space_def)

lemma trim_space_Nil [simp]: "trim_space [] = []"
  by (simp add: trim_space_def trim_left_def trim_right_def)

lemma length_trim_space: "length (trim_space s) \<le> length s"
proof -
  obtain t where "s = t @ trim_left s" using strip_suffix [of s space2 space3]
    by (auto simp: trim_left_def)
  moreover obtain u where "trim_left s = trim_space s @ u"
    using trim_right_prefix [of "trim_left s"] by (auto simp: trim_space_def)
  ultimately have "s = t @ trim_space s @ u" by simp
  then show ?thesis by (metis length_append le_add1 le_add2 le_trans)
qed

section \<open>Lower case\<close>

definition lower_char :: "char \<Rightarrow> char" where
  "lower_char c = (if CHR ''A'' \<le> c \<and> c \<le> CHR ''Z'' then char_of (of_char c + 32 :: nat) else c)"

text \<open>The only runes outside ASCII with an ASCII lower case are U+0130 and U+212A.\<close>

fun to_lower :: "string \<Rightarrow> string" where
  "to_lower [] = []"
| "to_lower [a] = [lower_char a]"
| "to_lower [a, b] = (if a = CHR 0xC4 \<and> b = CHR 0xB0 then ''i'' else [lower_char a, lower_char b])"
| "to_lower (a # b # c # s) =
     (if a = CHR 0xC4 \<and> b = CHR 0xB0 then CHR ''i'' # to_lower (c # s)
      else if a = CHR 0xE2 \<and> b = CHR 0x84 \<and> c = CHR 0xAA then CHR ''k'' # to_lower s
      else lower_char a # to_lower (b # c # s))"

definition equal_fold_ascii :: "string \<Rightarrow> string \<Rightarrow> bool" where
  "equal_fold_ascii s t \<longleftrightarrow> map lower_char s = map lower_char t"

section \<open>Splitting and replacing\<close>

fun split_on :: "char \<Rightarrow> string \<Rightarrow> string list" where
  "split_on d [] = [[]]"
| "split_on d (c # s) =
     (if c = d then [] # split_on d s
      else case split_on d s of [] \<Rightarrow> [[c]] | w # ws \<Rightarrow> (c # w) # ws)"

text \<open>\<open>strings.ReplaceAll\<close> with a two-character pattern, as the JSON pointer code uses it.\<close>

fun replace2 :: "char \<Rightarrow> char \<Rightarrow> string \<Rightarrow> string \<Rightarrow> string" where
  "replace2 x y r (a # b # s) = (if a = x \<and> b = y then r @ replace2 x y r s else a # replace2 x y r (b # s))"
| "replace2 x y r s = s"

definition remove_chars :: "char list \<Rightarrow> string \<Rightarrow> string" where
  "remove_chars cs s = filter (\<lambda>c. c \<notin> set cs) s"

lemma split_on_not_Nil [simp]: "split_on d s \<noteq> []"
  by (induction s) (auto split: list.splits)

lemma split_on_sep: "w \<in> set (split_on d s) \<Longrightarrow> d \<notin> set w"
  by (induction s arbitrary: w) (auto split: if_splits list.splits)

fun join_with :: "string \<Rightarrow> string list \<Rightarrow> string" where
  "join_with d [] = []"
| "join_with d [w] = w"
| "join_with d (w # v # ws) = w @ d @ join_with d (v # ws)"

lemma join_split_on: "join_with [d] (split_on d s) = s"
proof (induction s)
  case (Cons c s)
  then show ?case by (cases "split_on d s"; cases "tl (split_on d s)") auto
qed simp

lemma split_join:
  "ws \<noteq> [] \<Longrightarrow> \<forall>w \<in> set ws. d \<notin> set w \<Longrightarrow> split_on d (join_with [d] ws) = ws"
proof (induction "[d]" ws rule: join_with.induct)
  case (2 w)
  then show ?case by (induction w) auto
next
  case (3 w v ws)
  then have "split_on d (join_with [d] (v # ws)) = v # ws" by simp
  moreover have "d \<notin> set w" using 3 by simp
  ultimately show ?case by (induction w) auto
qed simp

section \<open>Decimal integers\<close>

definition digit_char :: "nat \<Rightarrow> char" where
  "digit_char n = char_of (48 + n)"

definition is_digit :: "char \<Rightarrow> bool" where
  "is_digit c \<longleftrightarrow> CHR ''0'' \<le> c \<and> c \<le> CHR ''9''"

definition digit_val :: "char \<Rightarrow> nat" where
  "digit_val c = of_char c - 48"

fun show_nat :: "nat \<Rightarrow> string" where
  "show_nat n = (if n < 10 then [digit_char n] else show_nat (n div 10) @ [digit_char (n mod 10)])"

declare show_nat.simps [simp del]

text \<open>\<open>strconv.Itoa\<close>.\<close>

definition itoa :: "int \<Rightarrow> string" where
  "itoa i = (if i < 0 then CHR ''-'' # show_nat (nat (- i)) else show_nat (nat i))"

definition digits_val :: "string \<Rightarrow> nat" where
  "digits_val s = foldl (\<lambda>n c. 10 * n + digit_val c) 0 s"

definition all_digits :: "string \<Rightarrow> bool" where
  "all_digits s \<longleftrightarrow> s \<noteq> [] \<and> list_all is_digit s"

text \<open>\<open>strconv.ParseInt(s, 10, 64)\<close>: the value and whether there is no error. A syntax error
  gives 0, a value out of range the nearest bound.\<close>

definition parse_int64 :: "string \<Rightarrow> int \<times> bool" where
  "parse_int64 s =
     (let (neg, ds) = (case s of c # r \<Rightarrow> if c = CHR ''-'' then (True, r) else if c = CHR ''+'' then (False, r) else (False, s)
                                | [] \<Rightarrow> (False, []))
      in if \<not> all_digits ds then (0, False)
         else let n = int (digits_val ds) in
           if neg then (if n > 2 ^ 63 then (- (2 ^ 63), False) else (- n, True))
           else (if n \<ge> 2 ^ 63 then (2 ^ 63 - 1, False) else (n, True)))"

lemma digit_char_simps [simp]:
  "n < 10 \<Longrightarrow> is_digit (digit_char n)" "n < 10 \<Longrightarrow> digit_val (digit_char n) = n"
  by (simp_all add: is_digit_def digit_char_def digit_val_def less_eq_char_def)

lemma show_nat_digits: "all_digits (show_nat n)"
proof (induction n rule: show_nat.induct)
  case (1 n)
  then show ?case by (subst show_nat.simps) (auto simp: all_digits_def)
qed

lemma digits_val_show_nat [simp]: "digits_val (show_nat n) = n"
proof (induction n rule: show_nat.induct)
  case (1 n)
  then show ?case by (subst show_nat.simps) (auto simp: digits_val_def)
qed

lemma show_nat_inject [simp]: "show_nat m = show_nat n \<longleftrightarrow> m = n"
  by (metis digits_val_show_nat)

lemma parse_itoa: "- (2 ^ 63) \<le> i \<Longrightarrow> i < 2 ^ 63 \<Longrightarrow> parse_int64 (itoa i) = (i, True)"
proof -
  assume bounds: "- (2 ^ 63) \<le> i" "i < 2 ^ 63"
  have hd: "show_nat n = c # r \<Longrightarrow> c \<noteq> CHR ''-'' \<and> c \<noteq> CHR ''+''" for n c r
    using show_nat_digits [of n] by (auto simp: all_digits_def is_digit_def less_eq_char_def)
  have ne: "show_nat n \<noteq> []" for n using show_nat_digits [of n] by (auto simp: all_digits_def)
  show ?thesis
  proof (cases "i < 0")
    case True
    then show ?thesis using bounds show_nat_digits [of "nat (- i)"]
      by (simp add: parse_int64_def itoa_def Let_def)
  next
    case False
    obtain c r where cr: "show_nat (nat i) = c # r" using ne [of "nat i"] by (cases "show_nat (nat i)") auto
    have "digits_val (c # r) = nat i" using cr by (metis digits_val_show_nat)
    then show ?thesis using False bounds show_nat_digits [of "nat i"] hd [OF cr] cr
      by (auto simp: parse_int64_def itoa_def Let_def)
  qed
qed

section \<open>Decimal numbers\<close>

text \<open>\<open>big.Rat.SetString\<close> on a JSON number literal: mantissa and decimal exponent, refused when the
  exponent is beyond a million and the mantissa is not 0.\<close>

definition parse_rat :: "string \<Rightarrow> (int \<times> int) option" where
  "parse_rat s =
     (let (neg, t) = (case s of c # r \<Rightarrow> if c = CHR ''-'' then (True, r) else (False, s) | [] \<Rightarrow> (False, []));
          mant = takeWhile (\<lambda>c. c \<noteq> CHR ''e'' \<and> c \<noteq> CHR ''E'') t;
          expo = drop (length mant) t;
          ip = takeWhile (\<lambda>c. c \<noteq> CHR ''.'') mant;
          fp = drop (Suc (length ip)) mant;
          (e, eok) = (if expo = [] then (0, True) else parse_int64 (tl expo))
      in if \<not> all_digits (ip @ fp) \<or> \<not> eok then None
         else let m = int (digits_val (ip @ fp)); x = e - int (length fp) in
           if m = 0 then Some (0, 0)
           else if \<bar>x\<bar> > 1000000 then None
           else Some (if neg then - m else m, x))"

text \<open>\<open>int(value)\<close> of a \<open>float64\<close> given by its literal, and whether the value is that integer. A value
  out of the range of 64 bits converts to the least integer, as on amd64.\<close>

definition float_int :: "string \<Rightarrow> int \<times> bool" where
  "float_int l = (case parse_rat l of
      None \<Rightarrow> (0, False)
    | Some (m, x) \<Rightarrow>
        let q = (if x \<ge> 0 then m * 10 ^ nat x else sgn m * (\<bar>m\<bar> div 10 ^ nat (- x)));
            exact = (x \<ge> 0 \<or> \<bar>m\<bar> mod 10 ^ nat (- x) = 0) in
        if q < - (2 ^ 63) \<or> q \<ge> 2 ^ 63 then (- (2 ^ 63), False) else (q, exact))"

lemma float_int_small: "float_int ''1'' = (1, True)" "float_int ''2'' = (2, True)" "float_int ''2.5'' = (2, False)"
  by code_simp+

end
