(* ===== verification/JsonValue.thy ===== *)
theory JsonValue
  imports GoText
begin

text \<open>
  The values of Go's \<open>any\<close> as the code meets them in JSON documents. A map with string keys, such as a
  \<open>map[string]any\<close>, is an association list with strictly increasing keys: the order in which \<open>json.Marshal\<close>
  writes a map, and one of the orders in which Go may range over it. A number is
  a \<open>json.Number\<close> (its literal), a \<open>float64\<close> (represented by the literal that
  \<open>json.Marshal\<close> prints for it) or a Go \<open>int\<close>. A \<open>json.RawMessage\<close> is the value it
  spells, with every number a literal.
\<close>

datatype json =
    JNull
  | JBool bool
  | JInt int
  | JFloat string
  | JNumber string
  | JStr string
  | JArr "json list"
  | JObj "(string \<times> json) list"

type_synonym jobj = "(string \<times> json) list"

section \<open>Maps\<close>

definition oget :: "(string \<times> 'v) list \<Rightarrow> string \<Rightarrow> 'v option" where
  "oget m k = map_of m k"

definition ohas :: "(string \<times> 'v) list \<Rightarrow> string \<Rightarrow> bool" where
  "ohas m k \<longleftrightarrow> map_of m k \<noteq> None"

fun oput :: "string \<Rightarrow> 'v \<Rightarrow> (string \<times> 'v) list \<Rightarrow> (string \<times> 'v) list" where
  "oput k v [] = [(k, v)]"
| "oput k v ((a, b) # m) =
     (if k = a then (k, v) # m else if k < a then (k, v) # (a, b) # m else (a, b) # oput k v m)"

definition odel :: "string \<Rightarrow> (string \<times> 'v) list \<Rightarrow> (string \<times> 'v) list" where
  "odel k m = filter (\<lambda>(a, b). a \<noteq> k) m"

definition owf :: "(string \<times> 'v) list \<Rightarrow> bool" where
  "owf m \<longleftrightarrow> sorted_wrt (<) (map fst m)"

lemma oget_Nil [simp]: "oget [] k = None"
  by (simp add: oget_def)

lemma oget_put: "oget (oput k v m) j = (if j = k then Some v else oget m j)"
  by (induction k v m rule: oput.induct) (auto simp: oget_def)

lemma oget_put_same [simp]: "oget (oput k v m) k = Some v"
  by (simp add: oget_put)

lemma oget_put_other [simp]: "j \<noteq> k \<Longrightarrow> oget (oput k v m) j = oget m j"
  by (simp add: oget_put)

lemma oget_del: "oget (odel k m) j = (if j = k then None else oget m j)"
  by (induction m) (auto simp: oget_def odel_def)

lemma oget_del_same [simp]: "oget (odel k m) k = None"
  by (simp add: oget_del)

lemma oget_del_other [simp]: "j \<noteq> k \<Longrightarrow> oget (odel k m) j = oget m j"
  by (simp add: oget_del)

lemma ohas_iff: "ohas m k \<longleftrightarrow> oget m k \<noteq> None"
  by (simp add: ohas_def oget_def)

lemma keys_oput: "fst ` set (oput k v m) = insert k (fst ` set m)"
  by (induction k v m rule: oput.induct) auto

lemma owf_Nil [simp]: "owf []"
  by (simp add: owf_def)

lemma owf_Cons: "owf ((k, v) # m) \<longleftrightarrow> (\<forall>j \<in> fst ` set m. k < j) \<and> owf m"
  by (auto simp: owf_def)

lemma owf_oput [simp]: "owf m \<Longrightarrow> owf (oput k v m)"
  by (induction k v m rule: oput.induct) (auto simp: owf_Cons keys_oput)

lemma owf_odel [simp]: "owf m \<Longrightarrow> owf (odel k m)"
  by (induction m) (auto simp: odel_def owf_Cons)

lemma owf_distinct: "owf m \<Longrightarrow> distinct (map fst m)"
  by (simp add: owf_def strict_sorted_iff)

lemma oget_in_set: "oget m k = Some v \<Longrightarrow> (k, v) \<in> set m"
  by (simp add: oget_def map_of_SomeD)

lemma in_set_oget: "owf m \<Longrightarrow> (k, v) \<in> set m \<Longrightarrow> oget m k = Some v"
  by (simp add: oget_def owf_distinct)

text \<open>Two well-formed maps with the same entries are the same list, so equality of the
  printed JSON is equality of the maps.\<close>

lemma owf_eqI:
  assumes "owf m" "owf m'" "\<And>k. oget m k = oget m' k"
  shows "m = m'"
proof -
  have "map_of m = map_of m'" using assms(3) by (auto simp: oget_def fun_eq_iff)
  moreover from assms have "distinct (map fst m)" "distinct (map fst m')"
    by (simp_all add: owf_distinct)
  ultimately have "set m = set m'" by (simp add: map_of_inject_set)
  moreover have "inj_on fst (set m)" using owf_distinct [OF assms(1)] by (simp add: distinct_map)
  ultimately show ?thesis
    using assms(1,2) unfolding owf_def strict_sorted_iff
    by (intro map_sorted_distinct_set_unique [where f = fst]) auto
qed

section \<open>Reading a value of type any\<close>

text \<open>\<open>value.(string)\<close>, \<open>value.(bool)\<close>, \<open>value.(map[string]any)\<close> and \<open>value.([]any)\<close>; an
  absent key reads as nil.\<close>

fun as_str :: "json option \<Rightarrow> string option" where
  "as_str (Some (JStr s)) = Some s"
| "as_str _ = None"

fun as_bool :: "json option \<Rightarrow> bool option" where
  "as_bool (Some (JBool b)) = Some b"
| "as_bool _ = None"

fun as_obj :: "json option \<Rightarrow> jobj option" where
  "as_obj (Some (JObj m)) = Some m"
| "as_obj _ = None"

fun as_arr :: "json option \<Rightarrow> json list option" where
  "as_arr (Some (JArr xs)) = Some xs"
| "as_arr _ = None"

text \<open>Comparison with nil: an absent key and an explicit null are both nil.\<close>

fun is_nil :: "json option \<Rightarrow> bool" where
  "is_nil None \<longleftrightarrow> True"
| "is_nil (Some JNull) \<longleftrightarrow> True"
| "is_nil _ \<longleftrightarrow> False"

text \<open>The trimmed string of a value, empty when it is not a string.\<close>

definition trimmed :: "json option \<Rightarrow> string" where
  "trimmed v = trim_space (orElse (as_str v) [])"

lemma as_str_iff: "as_str v = Some s \<longleftrightarrow> v = Some (JStr s)"
  by (cases v rule: as_str.cases) auto

lemma as_bool_iff: "as_bool v = Some b \<longleftrightarrow> v = Some (JBool b)"
  by (cases v rule: as_bool.cases) auto

lemma as_obj_iff: "as_obj v = Some m \<longleftrightarrow> v = Some (JObj m)"
  by (cases v rule: as_obj.cases) auto

lemma as_arr_iff: "as_arr v = Some xs \<longleftrightarrow> v = Some (JArr xs)"
  by (cases v rule: as_arr.cases) auto

lemmas any_iffs = as_str_iff as_bool_iff as_obj_iff as_arr_iff

lemma trimmed_trim [simp]: "trim_space (trimmed v) = trimmed v"
  by (simp add: trimmed_def)

lemma trimmed_simps [simp]:
  "trimmed None = []" "trimmed (Some JNull) = []" "trimmed (Some (JStr s)) = trim_space s"
  "trimmed (Some (JBool b)) = []"
  by (simp_all add: trimmed_def)

section \<open>Printing and parsing\<close>

text \<open>\<open>json.Marshal\<close> turns every number into its literal. \<open>json.Unmarshal\<close> into \<open>any\<close> turns a
  literal into the nearest \<open>float64\<close>; \<open>nf\<close> gives the literal \<open>json.Marshal\<close> prints for it. With
  \<open>UseNumber\<close> the literal is kept, so that decoding is the identity.\<close>

fun marshal :: "json \<Rightarrow> json" where
  "marshal (JInt i) = JNumber (itoa i)"
| "marshal (JFloat l) = JNumber l"
| "marshal (JArr xs) = JArr (map marshal xs)"
| "marshal (JObj m) = JObj (map (\<lambda>kv. (fst kv, marshal (snd kv))) m)"
| "marshal v = v"

fun unmarshal :: "(string \<Rightarrow> string) \<Rightarrow> json \<Rightarrow> json" where
  "unmarshal nf (JNumber l) = JFloat (nf l)"
| "unmarshal nf (JArr xs) = JArr (map (unmarshal nf) xs)"
| "unmarshal nf (JObj m) = JObj (map (\<lambda>kv. (fst kv, unmarshal nf (snd kv))) m)"
| "unmarshal nf v = v"

definition omarshal :: "jobj \<Rightarrow> jobj" where
  "omarshal m = map (\<lambda>kv. (fst kv, marshal (snd kv))) m"

definition ounmarshal :: "(string \<Rightarrow> string) \<Rightarrow> jobj \<Rightarrow> jobj" where
  "ounmarshal nf m = map (\<lambda>kv. (fst kv, unmarshal nf (snd kv))) m"

lemma marshal_JObj: "marshal (JObj m) = JObj (omarshal m)"
  by (simp add: omarshal_def)

lemma unmarshal_JObj: "unmarshal nf (JObj m) = JObj (ounmarshal nf m)"
  by (simp add: ounmarshal_def)

lemma oget_omarshal [simp]: "oget (omarshal m) k = map_option marshal (oget m k)"
  by (induction m) (auto simp: omarshal_def oget_def)

lemma oget_ounmarshal [simp]: "oget (ounmarshal nf m) k = map_option (unmarshal nf) (oget m k)"
  by (induction m) (auto simp: ounmarshal_def oget_def)

lemma owf_omarshal [simp]: "owf (omarshal m) = owf m"
  by (simp add: owf_def omarshal_def comp_def)

lemma owf_ounmarshal [simp]: "owf (ounmarshal nf m) = owf m"
  by (simp add: owf_def ounmarshal_def comp_def)

text \<open>Decoding and printing again renormalises every number literal and nothing else.\<close>

fun renorm :: "(string \<Rightarrow> string) \<Rightarrow> json \<Rightarrow> json" where
  "renorm nf (JNumber l) = JNumber (nf l)"
| "renorm nf (JInt i) = JNumber (itoa i)"
| "renorm nf (JFloat l) = JNumber l"
| "renorm nf (JArr xs) = JArr (map (renorm nf) xs)"
| "renorm nf (JObj m) = JObj (map (\<lambda>kv. (fst kv, renorm nf (snd kv))) m)"
| "renorm nf v = v"

lemma marshal_unmarshal: "marshal (unmarshal nf v) = renorm nf v"
  by (induction nf v rule: unmarshal.induct) auto

lemma as_str_marshal [simp]: "as_str (map_option marshal v) = as_str v"
  by (cases v rule: as_str.cases) auto

lemma as_bool_marshal [simp]: "as_bool (map_option marshal v) = as_bool v"
  by (cases v rule: as_bool.cases) auto

lemma as_str_unmarshal [simp]: "as_str (map_option (unmarshal nf) v) = as_str v"
  by (cases v rule: as_str.cases) auto

lemma as_bool_unmarshal [simp]: "as_bool (map_option (unmarshal nf) v) = as_bool v"
  by (cases v rule: as_bool.cases) auto

lemma trimmed_marshal [simp]: "trimmed (map_option marshal v) = trimmed v"
  by (simp add: trimmed_def)

lemma trimmed_unmarshal [simp]: "trimmed (map_option (unmarshal nf) v) = trimmed v"
  by (simp add: trimmed_def)

section \<open>A map as an interface\<close>

text \<open>What the code relies on when it edits a \<open>map[string]any\<close>: a written key reads back,
  other keys keep their value, a deleted key is absent.\<close>

locale string_map =
  fixes get :: "'m \<Rightarrow> string \<Rightarrow> 'v option"
    and put :: "string \<Rightarrow> 'v \<Rightarrow> 'm \<Rightarrow> 'm"
    and del :: "string \<Rightarrow> 'm \<Rightarrow> 'm"
  assumes get_put: "get (put k v m) j = (if j = k then Some v else get m j)"
    and get_del: "get (del k m) j = (if j = k then None else get m j)"
begin

lemma get_fold_del: "get (fold del ks m) j = (if j \<in> set ks then None else get m j)"
  by (induction ks arbitrary: m) (auto simp: get_del)

lemma get_fold_put:
  "distinct (map fst kvs) \<Longrightarrow>
   get (fold (\<lambda>(k, v). put k v) kvs m) j = (case map_of kvs j of Some v \<Rightarrow> Some v | None \<Rightarrow> get m j)"
proof (induction kvs arbitrary: m)
  case (Cons kv kvs)
  obtain k v where kv: "kv = (k, v)" by (cases kv)
  with Cons.prems have "map_of kvs k = None" by (auto simp: map_of_eq_None_iff)
  with Cons kv show ?case by (auto simp: get_put split: option.splits)
qed simp

lemma get_fold_put_default:
  assumes "distinct (map fst kvs)"
  shows "get (fold (\<lambda>(k, v) m. if get m k = None then put k v m else m) kvs m) j =
     (case get m j of Some v \<Rightarrow> Some v | None \<Rightarrow> map_of kvs j)"
  using assms
proof (induction kvs arbitrary: m)
  case (Cons kv kvs)
  obtain k v where kv: "kv = (k, v)" by (cases kv)
  with Cons.prems have "map_of kvs k = None" by (auto simp: map_of_eq_None_iff)
  with Cons kv show ?case by (auto simp: get_put split: option.splits)
qed (auto split: option.splits)

end

interpretation jmap: string_map oget oput odel
  by unfold_locales (simp_all add: oget_put oget_del)

lemma owf_fold_odel [simp]: "owf m \<Longrightarrow> owf (fold odel ks m)"
  by (induction ks arbitrary: m) auto

lemma owf_fold_oput [simp]: "owf m \<Longrightarrow> owf (fold (\<lambda>(k, v). oput k v) kvs m)"
  by (induction kvs arbitrary: m) auto

end
