(* ===== verification/AppErrors.thy ===== *)
theory AppErrors
  imports JsonValue
begin

text \<open>
  The error contract: \<open>internal/domain/errors\<close> (app_error.go, common.go, session.go), the
  repository sentinel of \<open>internal/usecase/ports/errors.go\<close> and the mappings of
  \<open>internal/usecase/shared/errors.go\<close>. An \<open>AppError\<close> carries its code, HTTP status, details
  and cause; its human-readable message, which no branch of the code reads, is left out.
\<close>

section \<open>Errors and their chain\<close>

datatype goerr =
    AppError (err_code: string) (err_status: int) (err_details: jobj) (err_cause: "goerr option")
  | RowNotFound                     \<comment> \<open>\<open>ports.ErrNotFound\<close>, compared by identity\<close>
  | Plain string                    \<comment> \<open>\<open>fmt.Errorf\<close> without a cause, a driver error\<close>
  | Wrapf string goerr              \<comment> \<open>\<open>fmt.Errorf\<close> with a wrapped cause\<close>

type_synonym 'a res = "goerr + 'a"

definition new_err :: "string \<Rightarrow> int \<Rightarrow> goerr" where
  "new_err code status = AppError code status [] None"

definition wrap_err :: "goerr \<Rightarrow> string \<Rightarrow> int \<Rightarrow> goerr" where
  "wrap_err cause code status = AppError code status [] (Some cause)"

definition ErrUnauthorized :: goerr where "ErrUnauthorized = new_err ''common.unauthorized'' 401"
definition ErrForbidden :: goerr where "ErrForbidden = new_err ''common.forbidden'' 403"
definition ErrInvalidInput :: goerr where "ErrInvalidInput = new_err ''common.invalid_input'' 400"
definition ErrNotFound :: goerr where "ErrNotFound = new_err ''common.not_found'' 404"
definition ErrConflict :: goerr where "ErrConflict = new_err ''common.conflict'' 409"
definition ErrInternal :: goerr where "ErrInternal = new_err ''common.internal'' 500"

definition InvalidInput :: "string \<Rightarrow> goerr" where
  "InvalidInput code = wrap_err ErrInvalidInput code 400"
definition Unauthorized :: "string \<Rightarrow> goerr" where
  "Unauthorized code = wrap_err ErrUnauthorized code 401"
definition Forbidden :: "string \<Rightarrow> goerr" where
  "Forbidden code = wrap_err ErrForbidden code 403"
definition NotFound :: "string \<Rightarrow> goerr" where
  "NotFound code = wrap_err ErrNotFound code 404"
definition Conflict :: "string \<Rightarrow> goerr" where
  "Conflict code = wrap_err ErrConflict code 409"
definition Internal :: "string \<Rightarrow> goerr" where
  "Internal code = wrap_err ErrInternal code 500"

definition ErrAuthUserIDRequired :: goerr where
  "ErrAuthUserIDRequired = InvalidInput ''session.auth_user_id_required''"

text \<open>\<open>errors.As\<close> with an \<open>*AppError\<close> target: the first \<open>AppError\<close> of the chain.\<close>

fun as_app :: "goerr \<Rightarrow> goerr option" where
  "as_app (AppError c s d k) = Some (AppError c s d k)"
| "as_app (Wrapf t e) = as_app e"
| "as_app RowNotFound = None"
| "as_app (Plain t) = None"

text \<open>\<open>(*AppError).Is\<close>: two application errors match when they have the same, non-empty code.\<close>

fun app_is :: "goerr \<Rightarrow> goerr \<Rightarrow> bool" where
  "app_is (AppError c s d k) (AppError c' s' d' k') \<longleftrightarrow> c \<noteq> [] \<and> c = c'"
| "app_is _ _ \<longleftrightarrow> False"

text \<open>\<open>errors.Is\<close>: the chain is searched for the target itself or for an error whose \<open>Is\<close>
  accepts it.\<close>

fun errors_is :: "goerr \<Rightarrow> goerr \<Rightarrow> bool" where
  "errors_is (AppError c s d k) t \<longleftrightarrow>
     app_is (AppError c s d k) t \<or> (case k of None \<Rightarrow> False | Some e \<Rightarrow> errors_is e t)"
| "errors_is RowNotFound t \<longleftrightarrow> t = RowNotFound"
| "errors_is (Plain x) t \<longleftrightarrow> False"
| "errors_is (Wrapf x e) t \<longleftrightarrow> errors_is e t"

text \<open>\<open>cloneDetails\<close> copies a map, and turns an empty one into nil; \<open>WithDetails\<close> puts the copy on
  a copy of the error, so the shared sentinel keeps its own details.\<close>

definition cloneDetails :: "jobj \<Rightarrow> jobj" where
  "cloneDetails d = fold (\<lambda>(k, v) m. oput k v m) d []"

definition WithDetails :: "goerr \<Rightarrow> jobj \<Rightarrow> goerr" where
  "WithDetails e details =
     (if details = [] then e
      else case as_app e of
        Some (AppError c s d k) \<Rightarrow> AppError c s (cloneDetails details) k
      | _ \<Rightarrow> AppError ''common.internal'' 500 (cloneDetails details) (Some e))"

text \<open>\<open>err.Error()\<close>.\<close>

fun err_text :: "goerr \<Rightarrow> string" where
  "err_text (AppError c s d k) = (case k of None \<Rightarrow> c | Some e \<Rightarrow> c @ '': '' @ err_text e)"
| "err_text RowNotFound = ''repository entity not found''"
| "err_text (Plain t) = t"
| "err_text (Wrapf t e) = t @ '': '' @ err_text e"

definition CodeOf :: "goerr \<Rightarrow> string" where
  "CodeOf e = (case as_app e of Some a \<Rightarrow> err_code a | None \<Rightarrow> ''common.internal'')"

definition HTTPStatusOf :: "goerr \<Rightarrow> int" where
  "HTTPStatusOf e = (case as_app e of
      Some a \<Rightarrow> if err_status a > 0 then err_status a else 500
    | None \<Rightarrow> 500)"

definition DetailsOf :: "goerr \<Rightarrow> jobj" where
  "DetailsOf e = (case as_app e of Some a \<Rightarrow> cloneDetails (err_details a) | None \<Rightarrow> [])"

lemmas err_ctors [go_simps] =
  new_err_def wrap_err_def ErrUnauthorized_def ErrForbidden_def ErrInvalidInput_def ErrNotFound_def
  ErrConflict_def ErrInternal_def InvalidInput_def Unauthorized_def Forbidden_def NotFound_def
  Conflict_def Internal_def

text \<open>Constructors are told apart by code and status; the bundle is for goals that compare them.\<close>

lemma CodeOf_ctors [simp]:
  "CodeOf (InvalidInput c) = c" "CodeOf (Unauthorized c) = c" "CodeOf (Forbidden c) = c"
  "CodeOf (NotFound c) = c" "CodeOf (Conflict c) = c" "CodeOf (Internal c) = c"
  by (simp_all add: CodeOf_def go_simps)

lemma HTTPStatusOf_ctors [simp]:
  "HTTPStatusOf (InvalidInput c) = 400" "HTTPStatusOf (Unauthorized c) = 401"
  "HTTPStatusOf (Forbidden c) = 403" "HTTPStatusOf (NotFound c) = 404"
  "HTTPStatusOf (Conflict c) = 409" "HTTPStatusOf (Internal c) = 500"
  by (simp_all add: HTTPStatusOf_def go_simps)

lemma as_app_AppError: "as_app e = Some a \<Longrightarrow> \<exists>c s d k. a = AppError c s d k"
  by (induction e) auto

lemma HTTPStatusOf_positive: "HTTPStatusOf e > 0"
  by (auto simp: HTTPStatusOf_def split: option.splits)

lemma oget_cloneDetails [simp]: "owf d \<Longrightarrow> oget (cloneDetails d) k = oget d k"
  unfolding cloneDetails_def
  by (subst jmap.get_fold_put) (auto simp: owf_distinct oget_def split: option.splits)

lemma owf_cloneDetails [simp]: "owf (cloneDetails d)"
  by (simp add: cloneDetails_def)

lemma cloneDetails_owf [simp]: "owf d \<Longrightarrow> cloneDetails d = d"
  by (rule owf_eqI) auto

lemma CodeOf_WithDetails: "as_app e \<noteq> None \<Longrightarrow> CodeOf (WithDetails e d) = CodeOf e"
  by (auto simp: CodeOf_def WithDetails_def dest: as_app_AppError split: goerr.splits option.splits)

lemma errors_is_WithDetails:
  "errors_is (WithDetails (AppError c s x k) d) t = errors_is (AppError c s x k) t"
  by (cases t) (auto simp: WithDetails_def)

section \<open>The mappings of the use-case layer\<close>

definition PreconditionRequired :: goerr where
  "PreconditionRequired = new_err ''precondition_required'' 428"

definition RevisionConflict :: goerr where
  "RevisionConflict = Conflict ''revision_conflict''"

definition MapNotFound :: "'a res \<Rightarrow> 'a res" where
  "MapNotFound r = (case r of
      Inl e \<Rightarrow> if errors_is e RowNotFound then Inl (NotFound ''not_found'') else Inl e
    | Inr v \<Rightarrow> Inr v)"

text \<open>The shape \<open>if errors.Is(err, ports.ErrNotFound) { return other }; if err != nil { return err }\<close>.\<close>

definition notFoundAs :: "goerr \<Rightarrow> 'a res \<Rightarrow> 'a res" where
  "notFoundAs other r = (case r of
      Inl e \<Rightarrow> if errors_is e RowNotFound then Inl other else Inl e
    | Inr v \<Rightarrow> Inr v)"

lemma notFoundAs_simps [simp]:
  "notFoundAs other (Inr v) = Inr v"
  "notFoundAs other (Inl RowNotFound) = Inl other"
  by (simp_all add: notFoundAs_def)

lemma notFoundAs_Inr_iff [simp]: "notFoundAs other r = Inr v \<longleftrightarrow> r = Inr v"
  by (cases r) (auto simp: notFoundAs_def)

lemma MapNotFound_notFoundAs: "MapNotFound r = notFoundAs (NotFound ''not_found'') r"
  by (simp add: MapNotFound_def notFoundAs_def)

text \<open>\<open>MapConflict\<close> reads the text of the error, as the code does.\<close>

definition conflict_of :: "goerr \<Rightarrow> goerr" where
  "conflict_of e =
     (let t = to_lower (err_text e) in
      if contains_sub t ''revision conflict'' then RevisionConflict
      else if contains_sub t ''duplicate'' \<or> contains_sub t ''unique constraint'' \<or> contains_sub t ''23505''
        then Conflict ''identity_conflict''
      else if contains_sub t ''relation target'' then InvalidInput ''relation_target_not_found''
      else e)"

definition MapConflict :: "'a res \<Rightarrow> 'a res" where
  "MapConflict r = (case r of Inl e \<Rightarrow> Inl (conflict_of e) | Inr v \<Rightarrow> Inr v)"

lemma Map_Inr [simp]: "MapConflict (Inr v) = Inr v" "MapNotFound (Inr v) = Inr v"
  by (simp_all add: MapConflict_def MapNotFound_def)

lemma MapConflict_Inr_iff [simp]: "MapConflict r = Inr v \<longleftrightarrow> r = Inr v"
  by (cases r) (auto simp: MapConflict_def)

lemma MapNotFound_Inr_iff [simp]: "MapNotFound r = Inr v \<longleftrightarrow> r = Inr v"
  by (cases r) (auto simp: MapNotFound_def)

lemma MapNotFound_RowNotFound [simp]: "MapNotFound (Inl RowNotFound) = Inl (NotFound ''not_found'')"
  by (simp add: MapNotFound_def)

lemma conflict_of_literals:
  "conflict_of (Plain ''revision conflict'') = RevisionConflict"
  "conflict_of (Plain ''duplicate key value violates unique constraint'') = Conflict ''identity_conflict''"
  by code_simp+

lemma conflict_of_RevisionConflict [simp]: "conflict_of RevisionConflict = RevisionConflict"
  by code_simp

text \<open>Mapping twice is mapping once: a mapped error is left alone by an outer mapping.\<close>

lemma conflict_of_idem: "conflict_of (conflict_of e) = conflict_of e"
proof -
  have a: "conflict_of (Conflict ''identity_conflict'') = Conflict ''identity_conflict''" by code_simp
  have b: "conflict_of (InvalidInput ''relation_target_not_found'') = InvalidInput ''relation_target_not_found''"
    by code_simp
  show ?thesis
  proof (cases "conflict_of e = e")
    case False
    then have "conflict_of e \<in> {RevisionConflict, Conflict ''identity_conflict'', InvalidInput ''relation_target_not_found''}"
      by (auto simp: conflict_of_def Let_def split: if_splits)
    with a b show ?thesis by auto
  qed simp
qed

end
