(* ===== verification/Entities.thy ===== *)
theory Entities
  imports AppErrors
begin

text \<open>
  The data of \<open>internal/domain/entities\<close> that the modelled components share: collection
  names, folders, users and actors, workspaces, documents, personal access tokens. Times are
  integers (instants), identifiers are strings, a nil pointer is \<open>None\<close>.
\<close>

type_synonym time = int
type_synonym id = string

section \<open>Collections and folders\<close>

definition CollectionActions :: string where "CollectionActions = ''actions''"
definition CollectionAuthProfiles :: string where "CollectionAuthProfiles = ''auth-profiles''"
definition CollectionComponents :: string where "CollectionComponents = ''components''"
definition CollectionCompositions :: string where "CollectionCompositions = ''compositions''"
definition CollectionComputations :: string where "CollectionComputations = ''computations''"
definition CollectionConfigurations :: string where "CollectionConfigurations = ''configurations''"
definition CollectionConverters :: string where "CollectionConverters = ''converters''"
definition CollectionDataViews :: string where "CollectionDataViews = ''data-views''"
definition CollectionFilters :: string where "CollectionFilters = ''filters''"
definition CollectionFacetDocuments :: string where "CollectionFacetDocuments = ''facet-documents''"
definition CollectionFacets :: string where "CollectionFacets = ''facets''"
definition CollectionFolders :: string where "CollectionFolders = ''folders''"
definition CollectionI18nBundles :: string where "CollectionI18nBundles = ''i18n-bundles''"
definition CollectionMocks :: string where "CollectionMocks = ''mocks''"
definition CollectionNavigations :: string where "CollectionNavigations = ''navigations''"
definition CollectionQueries :: string where "CollectionQueries = ''queries''"
definition CollectionStores :: string where "CollectionStores = ''stores''"
definition CollectionStreams :: string where "CollectionStreams = ''streams''"
definition CollectionSimulations :: string where "CollectionSimulations = ''simulations''"
definition CollectionStyles :: string where "CollectionStyles = ''styles''"
definition CollectionTypes :: string where "CollectionTypes = ''types''"
definition CollectionUpdates :: string where "CollectionUpdates = ''updates''"
definition CollectionVocabs :: string where "CollectionVocabs = ''vocabs''"

lemmas collection_defs [go_simps] =
  CollectionActions_def CollectionAuthProfiles_def CollectionComponents_def CollectionCompositions_def
  CollectionComputations_def CollectionConfigurations_def CollectionConverters_def CollectionDataViews_def
  CollectionFilters_def CollectionFacetDocuments_def CollectionFacets_def CollectionFolders_def
  CollectionI18nBundles_def CollectionMocks_def CollectionNavigations_def CollectionQueries_def
  CollectionStores_def CollectionStreams_def CollectionSimulations_def CollectionStyles_def
  CollectionTypes_def CollectionUpdates_def CollectionVocabs_def

definition FacetCollections :: "string list" where
  "FacetCollections = [CollectionFacets, CollectionFacetDocuments]"

definition DocumentCollections :: "string list" where
  "DocumentCollections =
     [CollectionFolders, CollectionTypes, CollectionQueries, CollectionDataViews,
      CollectionCompositions, CollectionStores, CollectionStreams, CollectionSimulations,
      CollectionUpdates, CollectionMocks, CollectionComponents, CollectionActions,
      CollectionFilters, CollectionConverters, CollectionComputations, CollectionVocabs,
      CollectionI18nBundles, CollectionAuthProfiles, CollectionNavigations, CollectionStyles,
      CollectionConfigurations]"

definition LegacyRootStreamsIdentity :: string where "LegacyRootStreamsIdentity = ''root-streams''"
definition FolderScopeCollection :: string where "FolderScopeCollection = ''collection''"
definition FolderScopeWorkspace :: string where "FolderScopeWorkspace = ''workspace''"
definition WorkspaceRootFolderIdentity :: string where
  "WorkspaceRootFolderIdentity = ''root-workspace-files''"

lemmas folder_const_defs [go_simps] =
  LegacyRootStreamsIdentity_def FolderScopeCollection_def FolderScopeWorkspace_def
  WorkspaceRootFolderIdentity_def

definition FolderEntityType :: "string \<Rightarrow> string" where
  "FolderEntityType collection = (if collection = ''streams'' then ''queries'' else collection)"

definition RootFolderIdentity :: "string \<Rightarrow> string" where
  "RootFolderIdentity collection = ''root-'' @ FolderEntityType collection"

lemma FolderEntityType_idem [simp]: "FolderEntityType (FolderEntityType c) = FolderEntityType c"
  by (simp add: FolderEntityType_def)

lemma RootFolderIdentity_FolderEntityType [simp]:
  "RootFolderIdentity (FolderEntityType c) = RootFolderIdentity c"
  by (simp add: RootFolderIdentity_def)

lemma RootFolderIdentity_eq_iff:
  "RootFolderIdentity c = RootFolderIdentity c' \<longleftrightarrow> FolderEntityType c = FolderEntityType c'"
  by (simp add: RootFolderIdentity_def)

section \<open>Users, actors, workspaces\<close>

definition ManagedBySystem :: string where "ManagedBySystem = ''system''"

record user =
  u_id :: id
  u_username :: string
  u_displayName :: string
  u_active :: bool

record actor =
  ac_id :: id
  ac_username :: string
  ac_displayName :: string

record current_actor =
  ca_user :: "user option"
  ca_platformAdmin :: bool

definition actor_of_id :: "id \<Rightarrow> actor" where
  "actor_of_id i = \<lparr>ac_id = i, ac_username = [], ac_displayName = []\<rparr>"

definition WorkspaceDocumentStructureFrontend :: string where
  "WorkspaceDocumentStructureFrontend = ''frontend''"
definition WorkspaceDocumentStructureCustom :: string where
  "WorkspaceDocumentStructureCustom = ''custom''"

record workspace =
  w_id :: id
  w_identity :: string
  w_displayName :: string
  w_description :: "string option"
  w_dataMode :: string
  w_documentStructure :: string
  w_startupComposition :: "string option"
  w_configuration :: json
  w_meta :: json
  w_active :: bool
  w_deletedAt :: "time option"
  w_headSequence :: int
  w_revision :: int
  w_createdBy :: actor
  w_updatedBy :: actor

definition IsWorkspaceDocumentStructure :: "string \<Rightarrow> bool" where
  "IsWorkspaceDocumentStructure v \<longleftrightarrow>
     v = WorkspaceDocumentStructureFrontend \<or> v = WorkspaceDocumentStructureCustom"

definition NormalizeWorkspaceDocumentStructure :: "string \<Rightarrow> string" where
  "NormalizeWorkspaceDocumentStructure v = (if v = [] then WorkspaceDocumentStructureFrontend else v)"

record workspace_access =
  wa_workspace :: workspace
  wa_role :: string
  wa_ownerRole :: string

section \<open>Documents\<close>

record document =
  d_id :: id
  d_workspaceID :: id
  d_type :: string
  d_identity :: string
  d_displayName :: string
  d_description :: "string option"
  d_folderIdentity :: "string option"
  d_workspaceFolderIdentity :: "string option"
  d_managedBy :: string
  d_managedByID :: "string option"
  d_meta :: json
  d_data :: jobj
  d_active :: bool
  d_deletedAt :: "time option"
  d_revision :: int
  d_createdBy :: actor
  d_updatedBy :: actor
  d_createdAt :: time
  d_updatedAt :: time

section \<open>Personal access tokens\<close>

definition AccessTokenSecretPrefix :: string where "AccessTokenSecretPrefix = ''endge_pat_''"
definition AccessTokenScopeRead :: string where "AccessTokenScopeRead = ''read''"
definition AccessTokenScopeWrite :: string where "AccessTokenScopeWrite = ''write''"
definition AccessTokenStatusActive :: string where "AccessTokenStatusActive = ''active''"
definition AccessTokenStatusExpired :: string where "AccessTokenStatusExpired = ''expired''"
definition AccessTokenStatusRevoked :: string where "AccessTokenStatusRevoked = ''revoked''"

lemmas token_const_defs [go_simps] =
  AccessTokenSecretPrefix_def AccessTokenScopeRead_def AccessTokenScopeWrite_def
  AccessTokenStatusActive_def AccessTokenStatusExpired_def AccessTokenStatusRevoked_def

record access_token =
  at_id :: id
  at_owner :: actor
  at_workspaceID :: id
  at_workspaceIdentity :: string
  at_name :: string
  at_description :: string
  at_scope :: string
  at_canCommit :: bool
  at_canDelete :: bool
  at_tokenPrefix :: string
  at_createdAt :: time
  at_expiresAt :: time
  at_lastUsedAt :: "time option"
  at_revokedAt :: "time option"
  at_revokedBy :: "id option"

definition token_Status :: "access_token \<Rightarrow> time \<Rightarrow> string" where
  "token_Status t now =
     (if at_revokedAt t \<noteq> None then AccessTokenStatusRevoked
      else if \<not> now < at_expiresAt t then AccessTokenStatusExpired
      else AccessTokenStatusActive)"

record principal =
  p_tokenID :: id
  p_userID :: id
  p_workspaceID :: id
  p_workspaceIdentity :: string
  p_scope :: string
  p_canCommit :: bool
  p_canDelete :: bool
  p_expiresAt :: time
  p_ownerPlatformAdmin :: bool

definition principal_CanWrite :: "principal \<Rightarrow> bool" where
  "principal_CanWrite p \<longleftrightarrow> p_scope p = AccessTokenScopeWrite"

definition CapWorkspaceRole :: "principal \<Rightarrow> string \<Rightarrow> string" where
  "CapWorkspaceRole p role =
     (if role = [] then []
      else if role = ''viewer'' then ''viewer''
      else if principal_CanWrite p then ''editor'' else ''viewer'')"

lemma CapWorkspaceRole_range: "CapWorkspaceRole p role \<in> {[], ''viewer'', ''editor''}"
  by (simp add: CapWorkspaceRole_def)

lemma CapWorkspaceRole_Nil [simp]: "CapWorkspaceRole p role = [] \<longleftrightarrow> role = []"
  by (simp add: CapWorkspaceRole_def)

lemma token_Status_active_iff:
  "token_Status t now = AccessTokenStatusActive \<longleftrightarrow> at_revokedAt t = None \<and> now < at_expiresAt t"
  by (simp add: token_Status_def go_simps)

lemma token_Status_cases:
  "token_Status t now \<in> {AccessTokenStatusActive, AccessTokenStatusExpired, AccessTokenStatusRevoked}"
  by (simp add: token_Status_def)

end
