(* ===== verification/Validation.thy ===== *)
theory Validation
  imports Entities
begin

text \<open>
  Input validation shared by the document use cases: \<open>internal/usecase/shared/validation.go\<close>.
  A Go map is ranged over in the order of its keys; \<open>firstError_order\<close> shows that acceptance does
  not depend on this choice, only the field an error names does.
\<close>

definition readOnlyFields :: "string list" where
  "readOnlyFields =
     [''id'', ''type'', ''revision'', ''author'', ''createdBy'', ''updatedBy'', ''createdAt'',
      ''updatedAt'', ''deletedAt'', ''created_by'', ''updated_by'']"

definition field_error :: "string \<Rightarrow> string \<Rightarrow> goerr" where
  "field_error code field = WithDetails (InvalidInput code) [(''field'', JStr field)]"

definition RejectReadOnly :: "jobj \<Rightarrow> unit res" where
  "RejectReadOnly input =
     firstError (\<lambda>field. failIf (ohas input field) (field_error ''read_only_field'' field) (Inr ()))
       readOnlyFields"

definition join_path :: "string \<Rightarrow> string \<Rightarrow> string" where
  "join_path left right = (if left = [] then right else left @ ''.'' @ right)"

definition index_path :: "string \<Rightarrow> nat \<Rightarrow> string" where
  "index_path path i = path @ ''['' @ show_nat i @ '']''"

section \<open>Secret material\<close>

definition validateCredentials :: "json \<Rightarrow> string \<Rightarrow> unit res" where
  "validateCredentials value path = (case value of
      JObj references \<Rightarrow>
        firstError (\<lambda>(name, v).
          failIf (trim_space name = [] \<or> as_str (Some v) = None \<or> trimmed (Some v) = [])
            (field_error ''credential_invalid'' (join_path path name)) (Inr ())) references
    | _ \<Rightarrow> Inl (field_error ''credentials_invalid'' path))"

definition normalized_key :: "string \<Rightarrow> string" where
  "normalized_key key = to_lower (remove_chars ''_-'' key)"

definition forbidden_key :: "string \<Rightarrow> bool" where
  "forbidden_key n \<longleftrightarrow>
     n = ''manualtoken'' \<or> contains_sub n ''password'' \<or> contains_sub n ''clientsecret''
     \<or> contains_sub n ''accesstoken'' \<or> contains_sub n ''refreshtoken'' \<or> n = ''bearertoken'' \<or> n = ''secret''"

lemma json_size_obj: "kv \<in> set m \<Longrightarrow> size (snd kv) < size (JObj m)"
  by (induction m) (auto split: prod.splits)

lemma json_size_arr: "x \<in> set xs \<Longrightarrow> size x < size (JArr xs)"
  by (induction xs) auto

function walk :: "json \<Rightarrow> string \<Rightarrow> unit res" where
  "walk (JObj m) path =
     firstError (\<lambda>kv.
       let key = fst kv; item = snd kv; n = normalized_key key; field = join_path path key in
       if n = ''credentials'' \<and> path = [] then validateCredentials item field
       else if n = ''credentials'' then Inl (field_error ''secret_field_forbidden'' field)
       else if n = ''persistrefreshtoken'' then
         failIf (as_bool (Some item) = None) (field_error ''auth_profile_refresh_persistence_invalid'' field) (Inr ())
       else if forbidden_key n then Inl (field_error ''secret_field_forbidden'' field)
       else walk item field) m"
| "walk (JArr xs) path =
     firstError (\<lambda>ix. walk (snd ix) (index_path path (fst ix))) (zip [0..<length xs] xs)"
| "walk JNull path = Inr ()"
| "walk (JBool b) path = Inr ()"
| "walk (JInt i) path = Inr ()"
| "walk (JFloat l) path = Inr ()"
| "walk (JNumber l) path = Inr ()"
| "walk (JStr s) path = Inr ()"
  by pat_completeness auto

termination
  by (relation "measure (\<lambda>(v, path). size v)")
     (use json_size_arr json_size_obj in \<open>auto simp del: json.size dest!: set_zip_rightD\<close>)

definition ValidateSecrets :: "json \<Rightarrow> unit res" where
  "ValidateSecrets value = walk value []"

text \<open>The objects of a document that lie outside the credentials.\<close>

inductive exposes :: "json \<Rightarrow> jobj \<Rightarrow> bool" where
  here: "exposes (JObj m) m"
| in_obj: "(k, x) \<in> set m \<Longrightarrow> normalized_key k \<noteq> ''credentials'' \<Longrightarrow> exposes x m' \<Longrightarrow> exposes (JObj m) m'"
| in_arr: "x \<in> set xs \<Longrightarrow> exposes x m' \<Longrightarrow> exposes (JArr xs) m'"

inductive_cases exposes_atom: "exposes (JBool b) m"

lemma walk_obj_item:
  assumes "walk (JObj m) path = Inr ()" "(k, x) \<in> set m"
  shows "\<not> forbidden_key (normalized_key k) \<or> normalized_key k = ''persistrefreshtoken''"
    "normalized_key k \<noteq> ''credentials'' \<Longrightarrow> \<exists>p. walk x p = Inr ()"
proof -
  have *: "forbidden_key ''credentials'' = False" by code_simp
  show "\<not> forbidden_key (normalized_key k) \<or> normalized_key k = ''persistrefreshtoken''"
    using assms * by (force simp: firstError_Inr_iff Let_def split: if_splits)
  show "\<exists>p. walk x p = Inr ()" if "normalized_key k \<noteq> ''credentials''"
  proof (cases "normalized_key k = ''persistrefreshtoken''")
    case True
    then obtain b where "x = JBool b"
      using assms by (fastforce simp: firstError_Inr_iff Let_def res_iffs as_bool_iff split: if_splits)
    then show ?thesis by auto
  next
    case False
    then have "walk x (join_path path k) = Inr ()"
      using assms that by (fastforce simp: firstError_Inr_iff Let_def split: if_splits)
    then show ?thesis ..
  qed
qed

lemma walk_exposes: "exposes v m \<Longrightarrow> walk v path = Inr () \<Longrightarrow> \<exists>p. walk (JObj m) p = Inr ()"
proof (induction arbitrary: path rule: exposes.induct)
  case (here m)
  then show ?case by blast
next
  case (in_obj k x m m')
  from walk_obj_item(2) [OF in_obj.prems in_obj.hyps(1,2)] in_obj.IH show ?case by blast
next
  case (in_arr x xs m')
  then obtain i where "i < length xs" "xs ! i = x" by (auto simp: in_set_conv_nth)
  then have "(i, x) \<in> set (zip [0..<length xs] xs)" by (auto simp: in_set_zip intro!: exI [of _ i])
  with in_arr.prems have "walk x (index_path path i) = Inr ()" by (force simp: firstError_Inr_iff)
  with in_arr.IH show ?case by blast
qed

text \<open>No object outside the credentials keeps a key that names a secret. (\<open>persistRefreshToken\<close> has
  such a name, and is a boolean.)\<close>

lemma secret_keys_rejected:
  assumes "ValidateSecrets v = Inr ()" "exposes v m" "(k, x) \<in> set m" "forbidden_key (normalized_key k)"
  shows "normalized_key k = ''persistrefreshtoken'' \<and> (\<exists>b. x = JBool b)"
proof -
  obtain p where w: "walk (JObj m) p = Inr ()"
    using walk_exposes [OF assms(2)] assms(1) by (auto simp: ValidateSecrets_def)
  from walk_obj_item(1) [OF w assms(3)] assms(4) have n: "normalized_key k = ''persistrefreshtoken''" by blast
  with w assms(3) have "\<exists>b. x = JBool b"
    by (fastforce simp: firstError_Inr_iff Let_def res_iffs as_bool_iff split: if_splits)
  with n show ?thesis ..
qed

section \<open>Authentication profiles\<close>

definition objectValue :: "json option \<Rightarrow> string \<Rightarrow> jobj res" where
  "objectValue value path =
     (if is_nil value then Inr []
      else case as_obj value of None \<Rightarrow> Inl (field_error ''object_expected'' path) | Some m \<Rightarrow> Inr m)"

definition requireExactKeys :: "jobj \<Rightarrow> string \<Rightarrow> string list \<Rightarrow> unit res" where
  "requireExactKeys value path keys =
     firstError (\<lambda>(key, v). failIf (key \<notin> set keys)
       (field_error ''auth_profile_field_unsupported'' (join_path path key)) (Inr ())) value"

definition validateStringArray :: "json option \<Rightarrow> string \<Rightarrow> bool \<Rightarrow> unit res" where
  "validateStringArray value path required = (case as_arr value of
      None \<Rightarrow> Inl (field_error ''string_array_invalid'' path)
    | Some items \<Rightarrow>
        failIf (required \<and> items = []) (field_error ''string_array_invalid'' path) (
        firstError (\<lambda>(i, item). failIf (trimmed (Some item) = [])
            (field_error ''string_array_invalid'' (index_path path i)) (Inr ()))
          (zip [0..<length items] items)))"

definition validateSession :: "json option \<Rightarrow> bool \<Rightarrow> unit res" where
  "validateSession value required =
     (if is_nil value then
        failIf required (InvalidInput ''auth_profile_session_required'') (Inr ())
      else
        failIf (\<not> required) (InvalidInput ''auth_profile_session_forbidden'') (
        bindE (objectValue value ''session'') (\<lambda>session.
        bindE (requireExactKeys session ''session'' [''storage'', ''persistRefreshToken'']) (\<lambda>_.
        failIf (trimmed (oget session ''storage'') \<notin> set [''memory'', ''sessionStorage'', ''localStorage''])
          (InvalidInput ''auth_profile_storage_invalid'') (
        failIf (as_bool (oget session ''persistRefreshToken'') = None)
          (InvalidInput ''auth_profile_refresh_persistence_invalid'') (Inr ()))))))"

definition authProfileKeys :: "string list" where
  "authProfileKeys =
     [''identity'', ''displayName'', ''description'', ''folderIdentity'', ''workspaceFolderIdentity'',
      ''managedBy'', ''managedById'', ''meta'', ''active'', ''adapterId'', ''config'', ''credentials'', ''session'']"

definition ValidateAuthProfile :: "jobj \<Rightarrow> unit res" where
  "ValidateAuthProfile input =
     bindE (requireExactKeys input [] authProfileKeys) (\<lambda>_.
     let adapterID = trimmed (oget input ''adapterId'') in
     failIf (adapterID = []) (InvalidInput ''auth_profile_adapter_required'') (
     bindE (objectValue (oget input ''config'') ''config'') (\<lambda>config.
     bindE (objectValue (oget input ''credentials'') ''credentials'') (\<lambda>credentials.
     let text = (\<lambda>k. trimmed (oget config k)); secret = (\<lambda>k. trimmed (oget credentials k)) in
     bindE (case validateCredentials (JObj credentials) ''credentials'' of
         Inl e \<Rightarrow> if length credentials > 0 then Inl e else Inr () | Inr _ \<Rightarrow> Inr ()) (\<lambda>_.
     if adapterID = ''oidc'' then
       bindE (requireExactKeys config ''config'' [''issuer'', ''clientId'', ''scopes'']) (\<lambda>_.
       failIf (text ''issuer'' = [] \<or> text ''clientId'' = []) (InvalidInput ''oidc_config_invalid'') (
       bindE (validateStringArray (oget config ''scopes'') ''config.scopes'' True) (\<lambda>_.
       failIf (credentials \<noteq> []) (InvalidInput ''oidc_credentials_forbidden'') (
       validateSession (oget input ''session'') True))))
     else if adapterID = ''oauth2-client-credentials'' then
       bindE (requireExactKeys config ''config'' [''tokenEndpoint'', ''clientId'', ''scopes'', ''clientAuthentication'']) (\<lambda>_.
       failIf (text ''tokenEndpoint'' = [] \<or> text ''clientId'' = [])
         (InvalidInput ''oauth2_client_credentials_config_invalid'') (
       bindE (validateStringArray (oget config ''scopes'') ''config.scopes'' False) (\<lambda>_.
       failIf (text ''clientAuthentication'' \<noteq> ''client_secret_basic''
           \<and> text ''clientAuthentication'' \<noteq> ''client_secret_post'')
         (InvalidInput ''oauth2_client_authentication_invalid'') (
       bindE (requireExactKeys credentials ''credentials'' [''clientSecret'']) (\<lambda>_.
       failIf (secret ''clientSecret'' = []) (InvalidInput ''oauth2_client_secret_required'') (
       validateSession (oget input ''session'') True))))))
     else if adapterID = ''oauth2-password'' then
       bindE (requireExactKeys config ''config'' [''tokenEndpoint'', ''clientId'', ''scopes'']) (\<lambda>_.
       failIf (text ''tokenEndpoint'' = [] \<or> text ''clientId'' = [])
         (InvalidInput ''oauth2_password_config_invalid'') (
       bindE (validateStringArray (oget config ''scopes'') ''config.scopes'' False) (\<lambda>_.
       bindE (requireExactKeys credentials ''credentials'' [''username'', ''password'']) (\<lambda>_.
       failIf (secret ''username'' = [] \<or> secret ''password'' = [])
         (InvalidInput ''oauth2_password_credentials_required'') (
       validateSession (oget input ''session'') True)))))
     else if adapterID = ''basic'' then
       failIf (config \<noteq> []) (InvalidInput ''basic_config_invalid'') (
       bindE (requireExactKeys credentials ''credentials'' [''username'', ''password'']) (\<lambda>_.
       failIf (secret ''username'' = [] \<or> secret ''password'' = []) (InvalidInput ''basic_credentials_required'') (
       validateSession (oget input ''session'') False)))
     else if adapterID = ''bearer'' then
       failIf (config \<noteq> []) (InvalidInput ''bearer_config_invalid'') (
       bindE (requireExactKeys credentials ''credentials'' [''token'']) (\<lambda>_.
       failIf (secret ''token'' = []) (InvalidInput ''bearer_token_required'') (
       validateSession (oget input ''session'') False)))
     else if \<not> is_nil (oget input ''session'') then validateSession (oget input ''session'') True
     else Inr ())))))"

text \<open>The same contract as a table: one row for each built-in adapter.\<close>

record adapter_row =
  ar_config :: "string list"
  ar_required :: "string list"
  ar_scopes :: "bool option"
  ar_methods :: "string list"
  ar_credentials :: "string list"
  ar_session :: bool

definition adapter_table :: "string \<Rightarrow> adapter_row option" where
  "adapter_table = map_of
    [(''oidc'', \<lparr>ar_config = [''issuer'', ''clientId'', ''scopes''], ar_required = [''issuer'', ''clientId''],
        ar_scopes = Some True, ar_methods = [], ar_credentials = [], ar_session = True\<rparr>),
     (''oauth2-client-credentials'', \<lparr>ar_config = [''tokenEndpoint'', ''clientId'', ''scopes'', ''clientAuthentication''],
        ar_required = [''tokenEndpoint'', ''clientId''], ar_scopes = Some False,
        ar_methods = [''client_secret_basic'', ''client_secret_post''], ar_credentials = [''clientSecret''], ar_session = True\<rparr>),
     (''oauth2-password'', \<lparr>ar_config = [''tokenEndpoint'', ''clientId'', ''scopes''],
        ar_required = [''tokenEndpoint'', ''clientId''], ar_scopes = Some False, ar_methods = [],
        ar_credentials = [''username'', ''password''], ar_session = True\<rparr>),
     (''basic'', \<lparr>ar_config = [], ar_required = [], ar_scopes = None, ar_methods = [],
        ar_credentials = [''username'', ''password''], ar_session = False\<rparr>),
     (''bearer'', \<lparr>ar_config = [], ar_required = [], ar_scopes = None, ar_methods = [],
        ar_credentials = [''token''], ar_session = False\<rparr>)]"

definition keys_of :: "jobj \<Rightarrow> string set" where
  "keys_of m = fst ` set m"

definition scopes_ok :: "bool \<Rightarrow> json option \<Rightarrow> bool" where
  "scopes_ok required v \<longleftrightarrow>
     (\<exists>items. v = Some (JArr items) \<and> (required \<longrightarrow> items \<noteq> [])
        \<and> (\<forall>x \<in> set items. \<exists>s. x = JStr s \<and> trim_space s \<noteq> []))"

definition session_ok :: "json option \<Rightarrow> bool" where
  "session_ok v \<longleftrightarrow>
     (\<exists>m b. v = Some (JObj m) \<and> keys_of m \<subseteq> {''storage'', ''persistRefreshToken''}
        \<and> trimmed (oget m ''storage'') \<in> {''memory'', ''sessionStorage'', ''localStorage''}
        \<and> oget m ''persistRefreshToken'' = Some (JBool b))"

definition named_strings :: "jobj \<Rightarrow> bool" where
  "named_strings m \<longleftrightarrow>
     (\<forall>(k, v) \<in> set m. trim_space k \<noteq> [] \<and> (\<exists>s. v = JStr s \<and> trim_space s \<noteq> []))"

definition row_ok :: "adapter_row \<Rightarrow> jobj \<Rightarrow> jobj \<Rightarrow> json option \<Rightarrow> bool" where
  "row_ok r config credentials session \<longleftrightarrow>
     keys_of config \<subseteq> set (ar_config r)
     \<and> (\<forall>k \<in> set (ar_required r). trimmed (oget config k) \<noteq> [])
     \<and> (case ar_scopes r of None \<Rightarrow> True | Some req \<Rightarrow> scopes_ok req (oget config ''scopes''))
     \<and> (ar_methods r \<noteq> [] \<longrightarrow> trimmed (oget config ''clientAuthentication'') \<in> set (ar_methods r))
     \<and> keys_of credentials \<subseteq> set (ar_credentials r)
     \<and> (\<forall>k \<in> set (ar_credentials r). trimmed (oget credentials k) \<noteq> [])
     \<and> (if ar_session r then session_ok session else is_nil session)"

definition auth_profile_ok :: "jobj \<Rightarrow> bool" where
  "auth_profile_ok input \<longleftrightarrow>
     keys_of input \<subseteq> set authProfileKeys \<and> trimmed (oget input ''adapterId'') \<noteq> []
     \<and> (\<exists>config credentials.
          objectValue (oget input ''config'') ''config'' = Inr config
        \<and> objectValue (oget input ''credentials'') ''credentials'' = Inr credentials
        \<and> named_strings credentials
        \<and> (case adapter_table (trimmed (oget input ''adapterId'')) of
             Some r \<Rightarrow> row_ok r config credentials (oget input ''session'')
           | None \<Rightarrow> is_nil (oget input ''session'') \<or> session_ok (oget input ''session'')))"

lemma requireExactKeys_Inr [simp]: "requireExactKeys m path keys = Inr () \<longleftrightarrow> keys_of m \<subseteq> set keys"
  by (auto simp: requireExactKeys_def firstError_Inr_iff failIf_Inr_iff keys_of_def)

lemma trimmed_nonempty: "trimmed (Some v) \<noteq> [] \<longleftrightarrow> (\<exists>s. v = JStr s \<and> trim_space s \<noteq> [])"
  by (cases v) (auto simp: trimmed_def)

lemma validateStringArray_Inr [simp]:
  "validateStringArray v path required = Inr () \<longleftrightarrow> scopes_ok required v"
proof (cases "as_arr v")
  case None
  then have "\<nexists>items. v = Some (JArr items)" by auto
  with None show ?thesis by (auto simp: validateStringArray_def scopes_ok_def)
next
  case (Some items)
  then have v: "v = Some (JArr items)" by (simp add: as_arr_iff)
  have "(\<forall>p \<in> set (zip [0..<length items] items). P (snd p)) \<longleftrightarrow> (\<forall>x \<in> set items. P x)" for P
    using map_snd_zip [of "[0..<length items]" items] by (metis (no_types, lifting) diff_zero image_iff length_upt list.set_map)
  then have "(\<forall>p \<in> set (zip [0..<length items] items). trimmed (Some (snd p)) \<noteq> [])
      \<longleftrightarrow> (\<forall>x \<in> set items. trimmed (Some x) \<noteq> [])" .
  with v show ?thesis
    by (simp add: validateStringArray_def scopes_ok_def failIf_Inr_iff firstError_Inr_iff case_prod_unfold
        trimmed_nonempty)
qed

lemma objectValue_Some: "\<not> is_nil v \<Longrightarrow> objectValue v path = Inr m \<longleftrightarrow> v = Some (JObj m)"
  by (auto simp: objectValue_def as_obj_iff split: option.splits)

lemma session_ok_not_nil: "session_ok v \<Longrightarrow> \<not> is_nil v"
  by (auto simp: session_ok_def)

lemma validateSession_Inr:
  "validateSession v required = Inr () \<longleftrightarrow> (if required then session_ok v else is_nil v)"
proof (cases "is_nil v")
  case True
  then show ?thesis using session_ok_not_nil [of v] by (auto simp: validateSession_def res_iffs)
next
  case False
  then show ?thesis
    by (auto simp: validateSession_def res_iffs objectValue_Some session_ok_def as_bool_iff)
qed

lemma validateCredentials_Inr: "validateCredentials (JObj m) path = Inr () \<longleftrightarrow> named_strings m"
  by (simp add: validateCredentials_def firstError_Inr_iff failIf_Inr_iff named_strings_def case_prod_unfold
      flip: trimmed_nonempty) (force simp: trimmed_def orElse_def split: option.splits)

lemma credentials_check:
  "(case validateCredentials (JObj m) p of Inl e \<Rightarrow> if length m > 0 then Inl e else Inr () | Inr _ \<Rightarrow> Inr ()) = Inr ()
    \<longleftrightarrow> named_strings m"
  using validateCredentials_Inr [of m p]
  by (cases m) (auto simp: named_strings_def split: sum.splits)

lemma keys_of_empty [simp]: "keys_of m = {} \<longleftrightarrow> m = []" "keys_of [] = {}"
  by (auto simp: keys_of_def)

lemma adapter_table_simps:
  "adapter_table ''oidc'' = Some \<lparr>ar_config = [''issuer'', ''clientId'', ''scopes''], ar_required = [''issuer'', ''clientId''],
        ar_scopes = Some True, ar_methods = [], ar_credentials = [], ar_session = True\<rparr>"
  "adapter_table ''oauth2-client-credentials'' = Some \<lparr>ar_config = [''tokenEndpoint'', ''clientId'', ''scopes'', ''clientAuthentication''],
        ar_required = [''tokenEndpoint'', ''clientId''], ar_scopes = Some False,
        ar_methods = [''client_secret_basic'', ''client_secret_post''], ar_credentials = [''clientSecret''], ar_session = True\<rparr>"
  "adapter_table ''oauth2-password'' = Some \<lparr>ar_config = [''tokenEndpoint'', ''clientId'', ''scopes''],
        ar_required = [''tokenEndpoint'', ''clientId''], ar_scopes = Some False, ar_methods = [],
        ar_credentials = [''username'', ''password''], ar_session = True\<rparr>"
  "adapter_table ''basic'' = Some \<lparr>ar_config = [], ar_required = [], ar_scopes = None, ar_methods = [],
        ar_credentials = [''username'', ''password''], ar_session = False\<rparr>"
  "adapter_table ''bearer'' = Some \<lparr>ar_config = [], ar_required = [], ar_scopes = None, ar_methods = [],
        ar_credentials = [''token''], ar_session = False\<rparr>"
  by (simp_all add: adapter_table_def)

lemma adapter_table_other:
  "a \<notin> {''oidc'', ''oauth2-client-credentials'', ''oauth2-password'', ''basic'', ''bearer''} \<Longrightarrow> adapter_table a = None"
  by (auto simp: adapter_table_def)

lemma ValidateAuthProfile_table: "ValidateAuthProfile input = Inr () \<longleftrightarrow> auth_profile_ok input"
proof -
  define a where "a = trimmed (oget input ''adapterId'')"
  consider "a = ''oidc''" | "a = ''oauth2-client-credentials''" | "a = ''oauth2-password''"
    | "a = ''basic''" | "a = ''bearer''"
    | "a \<notin> {''oidc'', ''oauth2-client-credentials'', ''oauth2-password'', ''basic'', ''bearer''}" by blast
  then show ?thesis
    by cases
      (auto simp: ValidateAuthProfile_def auth_profile_ok_def Let_def res_iffs credentials_check validateSession_Inr
        row_ok_def adapter_table_simps adapter_table_other simp flip: a_def)
qed

end
