(* ===== verification/ConfigurationDomain.thy ===== *)
theory ConfigurationDomain
  imports Entities
begin

text \<open>
  The storage rules of a workspace configuration: \<open>internal/domain/configuration\<close> (legacy.go,
  sfc_editing.go, values.go, workspace.go). The functions edit maps in place; here they return the
  edited value. A value is already decoded, so the raw-bytes branch of \<open>configurationObject\<close>
  does not occur.
\<close>

section \<open>Legacy server-sent events\<close>

definition configurationDocumentTypes :: "string list" where
  "configurationDocumentTypes = [''facet-documents'']"

definition RemoveLegacySSE :: "json \<Rightarrow> json" where
  "RemoveLegacySSE v = (case v of JObj configuration \<Rightarrow> JObj (odel ''sse'' configuration) | _ \<Rightarrow> v)"

definition remove_nested_sse :: "string \<Rightarrow> jobj \<Rightarrow> jobj" where
  "remove_nested_sse key configuration = (case as_obj (oget configuration key) of
      Some nested \<Rightarrow> oput key (JObj (odel ''sse'' nested)) configuration
    | None \<Rightarrow> configuration)"

definition RemoveLegacySSEFromDocument :: "string \<Rightarrow> jobj \<Rightarrow> jobj" where
  "RemoveLegacySSEFromDocument documentType values =
     (if documentType \<notin> set configurationDocumentTypes then values
      else case as_obj (oget values ''configuration'') of
        None \<Rightarrow> values
      | Some configuration \<Rightarrow>
          oput ''configuration''
            (JObj (fold remove_nested_sse [''patch'', ''value''] (odel ''sse'' configuration))) values)"

text \<open>\<open>RemoveLegacySSEFromDocumentData\<close>: data that is not an object is left alone.\<close>

definition RemoveLegacySSEFromDocumentData :: "(string \<Rightarrow> string) \<Rightarrow> string \<Rightarrow> json \<Rightarrow> json" where
  "RemoveLegacySSEFromDocumentData nf documentType raw = (case raw of
      JObj m \<Rightarrow> marshal (JObj (RemoveLegacySSEFromDocument documentType (ounmarshal nf m)))
    | _ \<Rightarrow> raw)"

section \<open>Defaults\<close>

definition configurationObject :: "json \<Rightarrow> jobj option" where
  "configurationObject v = (case v of JNull \<Rightarrow> Some [] | JObj m \<Rightarrow> Some m | _ \<Rightarrow> None)"

definition defaultSFCEditingConfiguration :: jobj where
  "defaultSFCEditingConfiguration =
     [(''cancelOn'', JArr
         [JObj [(''event'', JStr ''keydown''), (''key'', JArr [JStr ''Escape'']), (''prevent'', JBool True), (''stop'', JBool True)],
          JObj [(''event'', JStr ''focusout'')]]),
      (''commitOn'', JArr
         [JObj [(''event'', JStr ''keydown''), (''key'', JArr [JStr ''Enter'']), (''prevent'', JBool True)]])]"

text \<open>The loop that keeps existing keys and adds the missing ones.\<close>

definition add_defaults :: "jobj \<Rightarrow> jobj \<Rightarrow> jobj" where
  "add_defaults defaults m = fold (\<lambda>(k, v) m. if oget m k = None then oput k v m else m) defaults m"

definition EnsureSFCEditingDefaults :: "json \<Rightarrow> json" where
  "EnsureSFCEditingDefaults v = (case configurationObject v of
      None \<Rightarrow> v
    | Some configuration \<Rightarrow> (case as_obj (oget configuration ''sfcEditing'') of
          None \<Rightarrow> JObj (oput ''sfcEditing'' (JObj defaultSFCEditingConfiguration) configuration)
        | Some editing \<Rightarrow>
            JObj (oput ''sfcEditing'' (JObj (add_defaults defaultSFCEditingConfiguration editing)) configuration)))"

text \<open>UTF-8 bytes of the Cyrillic display names.\<close>

definition utf8_text :: "nat list \<Rightarrow> string" where
  "utf8_text bs = map char_of bs"

definition text_russian :: string where
  "text_russian = utf8_text [208,160,209,131,209,129,209,129,208,186,208,184,208,185]"
definition text_light :: string where
  "text_light = utf8_text [208,161,208,178,208,181,209,130,208,187,208,176,209,143]"
definition text_dark :: string where
  "text_dark = utf8_text [208,162,209,145,208,188,208,189,208,176,209,143]"
definition text_local_time :: string where
  "text_local_time = utf8_text [208,155,208,190,208,186,208,176,208,187,209,140,208,189,208,190,208,181,32,208,178,209,128,208,181,208,188,209,143]"

definition workspaceDefaults :: jobj where
  "workspaceDefaults =
     [(''vars'', JArr []),
      (''locales'', JArr
        [JObj [(''code'', JStr ''ru''), (''direction'', JStr ''ltr''), (''displayName'', JStr text_russian), (''shortLabel'', JStr ''RU'')],
         JObj [(''code'', JStr ''en''), (''direction'', JStr ''ltr''), (''displayName'', JStr ''English''), (''shortLabel'', JStr ''EN'')]]),
      (''defaultLocale'', JStr ''en''), (''fallbackLocale'', JStr ''en''),
      (''themes'', JArr
        [JObj [(''displayName'', JStr text_light), (''identity'', JStr ''light'')],
         JObj [(''displayName'', JStr text_dark), (''identity'', JStr ''dark'')]]),
      (''defaultTheme'', JStr ''dark''),
      (''timezones'', JArr
        [JObj [(''displayName'', JStr text_local_time), (''identity'', JStr ''local'')],
         JObj [(''displayName'', JStr ''UTC''), (''identity'', JStr ''UTC'')]]),
      (''defaultTimezone'', JStr ''local''), (''defaultAuthProfileIdentity'', JNull),
      (''sfcAdapterIds'', JArr [JStr ''vue-native'']), (''defaultSfcAdapterId'', JStr ''vue-native''),
      (''diagnostics'', JObj []), (''values'', JObj [])]"

definition EnsureWorkspaceDefaults :: "json \<Rightarrow> json" where
  "EnsureWorkspaceDefaults v = (case configurationObject v of
      None \<Rightarrow> v
    | Some configuration \<Rightarrow> EnsureSFCEditingDefaults (JObj (add_defaults workspaceDefaults configuration)))"

section \<open>Values\<close>

definition safeKey :: "string \<Rightarrow> bool" where
  "safeKey v \<longleftrightarrow> v \<noteq> [] \<and> v \<noteq> ''__proto__'' \<and> v \<noteq> ''prototype'' \<and> v \<noteq> ''constructor''"

definition ValidateValuesShape :: "json \<Rightarrow> unit res" where
  "ValidateValuesShape v = (case v of
      JObj configuration \<Rightarrow>
        if is_nil (oget configuration ''values'') then Inr ()
        else (case as_obj (oget configuration ''values'') of
            None \<Rightarrow> Inl (Plain ''configuration.values must be an object'')
          | Some vs \<Rightarrow> firstError (\<lambda>(identity, rawCategory).
              failIf (\<not> safeKey identity) (Plain ''configuration.values contains unsafe identity'') (
              case rawCategory of
                JObj category \<Rightarrow> firstError (\<lambda>(field, x).
                  failIf (\<not> safeKey field) (Plain ''configuration.values contains unsafe field'') (Inr ())) category
              | _ \<Rightarrow> Inl (Plain ''configuration.values must be an object''))) vs)
    | _ \<Rightarrow> Inl (Plain ''configuration must be an object''))"

section \<open>Laws\<close>

lemma owf_add_defaults [simp]: "owf m \<Longrightarrow> owf (add_defaults ds m)"
  unfolding add_defaults_def by (induction ds arbitrary: m) auto

lemma oget_add_defaults:
  "distinct (map fst ds) \<Longrightarrow>
   oget (add_defaults ds m) k = (case oget m k of Some v \<Rightarrow> Some v | None \<Rightarrow> map_of ds k)"
  unfolding add_defaults_def by (rule jmap.get_fold_put_default)

lemma add_defaults_id: "\<forall>kv \<in> set ds. oget m (fst kv) \<noteq> None \<Longrightarrow> add_defaults ds m = m"
  unfolding add_defaults_def by (induction ds) auto

lemma add_defaults_has: "(k, v) \<in> set ds \<Longrightarrow> oget (add_defaults ds m) k \<noteq> None"
proof (induction ds arbitrary: m)
  case (Cons d ds)
  have keep: "oget m k \<noteq> None \<Longrightarrow> oget (add_defaults ds m) k \<noteq> None" for m ds
    unfolding add_defaults_def by (induction ds arbitrary: m) (auto simp: oget_put)
  obtain a b where d: "d = (a, b)" by (cases d)
  have step: "add_defaults (d # ds) m = add_defaults ds (if oget m a = None then oput a b m else m)"
    by (simp add: add_defaults_def d)
  show ?case
  proof (cases "(k, v) = d")
    case True
    then have "oget (if oget m a = None then oput a b m else m) k \<noteq> None" using d by (auto simp: oget_put)
    then show ?thesis unfolding step by (rule keep)
  next
    case False
    with Cons have "(k, v) \<in> set ds" by auto
    then show ?thesis unfolding step by (rule Cons.IH)
  qed
qed simp

lemma add_defaults_idem [simp]: "add_defaults ds (add_defaults ds m) = add_defaults ds m"
  using add_defaults_has [of _ _ ds m] by (intro add_defaults_id) force

lemma oput_twice [simp]: "oput k v (oput k w m) = oput k v m"
  by (induction k w m rule: oput.induct) auto

lemma as_obj_simp [simp]: "as_obj (Some (JObj m)) = Some m"
  by simp

lemma defaults_complete: "add_defaults defaultSFCEditingConfiguration defaultSFCEditingConfiguration = defaultSFCEditingConfiguration"
  by code_simp

lemma configurationObject_JObj [simp]: "configurationObject (JObj m) = Some m"
  by (simp add: configurationObject_def)

lemma EnsureSFCEditingDefaults_idem:
  "EnsureSFCEditingDefaults (EnsureSFCEditingDefaults v) = EnsureSFCEditingDefaults v"
proof (cases "configurationObject v")
  case (Some m)
  then show ?thesis
    by (cases "as_obj (oget m ''sfcEditing'')") (simp_all add: EnsureSFCEditingDefaults_def defaults_complete)
qed (simp add: EnsureSFCEditingDefaults_def)

lemma EnsureSFCEditingDefaults_obj:
  "\<exists>editing. EnsureSFCEditingDefaults (JObj m) = JObj (oput ''sfcEditing'' (JObj editing) m)"
  by (auto simp: EnsureSFCEditingDefaults_def split: option.splits)

lemma workspaceDefaults_keys: "distinct (map fst workspaceDefaults)" "map_of workspaceDefaults ''sfcEditing'' = None"
  by code_simp+

text \<open>A default never replaces a key the workspace has, and afterwards every default key is there.\<close>

lemma EnsureWorkspaceDefaults_get:
  assumes "k \<noteq> ''sfcEditing''"
  shows "\<exists>m'. EnsureWorkspaceDefaults (JObj m) = JObj m'
     \<and> oget m' k = (case oget m k of Some v \<Rightarrow> Some v | None \<Rightarrow> map_of workspaceDefaults k)"
  using EnsureSFCEditingDefaults_obj [of "add_defaults workspaceDefaults m"] assms workspaceDefaults_keys
  by (auto simp: EnsureWorkspaceDefaults_def oget_add_defaults)

lemma RemoveLegacySSE_idem [simp]: "RemoveLegacySSE (RemoveLegacySSE v) = RemoveLegacySSE v"
  by (auto simp: RemoveLegacySSE_def odel_def split: json.splits)

lemma RemoveLegacySSEFromDocument_other [simp]:
  "kind \<noteq> ''facet-documents'' \<Longrightarrow> RemoveLegacySSEFromDocument kind m = m"
  by (simp add: RemoveLegacySSEFromDocument_def configurationDocumentTypes_def)

lemma owf_RemoveLegacySSEFromDocument [simp]: "owf m \<Longrightarrow> owf (RemoveLegacySSEFromDocument kind m)"
  by (auto simp: RemoveLegacySSEFromDocument_def split: option.splits)

text \<open>An accepted configuration keeps the keys that a JavaScript client could mistake for a prototype
  out of its values.\<close>

lemma ValidateValuesShape_Inr:
  assumes "ValidateValuesShape (JObj m) = Inr ()" "oget m ''values'' = Some (JObj vs)" "(i, c) \<in> set vs"
  shows "safeKey i \<and> (\<exists>fields. c = JObj fields \<and> (\<forall>(f, x) \<in> set fields. safeKey f))"
  using assms
  by (fastforce simp: ValidateValuesShape_def firstError_Inr_iff failIf_Inr_iff split: json.splits)

end
