(* ===== verification/DocContract.thy ===== *)
theory DocContract
  imports Validation ConfigurationDomain
begin

text \<open>
  The document contract: \<open>internal/usecase/documents/contract.go\<close> and input.go, with the pure part
  of folders.go. A request body is a map decoded with \<open>UseNumber\<close>; the data of a stored document is
  a map whose numbers are literals, and \<open>ounmarshal nf\<close> is the decoding of it without
  \<open>UseNumber\<close>. SHA-256 of the printed content is the argument \<open>sha\<close>.
\<close>

section \<open>Reading fields\<close>

definition stringField :: "jobj \<Rightarrow> string \<Rightarrow> string" where
  "stringField input key = trimmed (oget input key)"

definition optionalString :: "jobj \<Rightarrow> string \<Rightarrow> string option" where
  "optionalString input key =
     (case as_str (oget input key) of
        None \<Rightarrow> None
      | Some v \<Rightarrow> if trim_space v = [] then None else Some (trim_space v))"

definition defaultString :: "string \<Rightarrow> string \<Rightarrow> string" where
  "defaultString v fallback = (if v = [] then fallback else v)"

definition defaultBool :: "jobj \<Rightarrow> string \<Rightarrow> bool \<Rightarrow> bool" where
  "defaultBool input key fallback = orElse (as_bool (oget input key)) fallback"

definition isRoot :: "jobj \<Rightarrow> bool" where
  "isRoot input = orElse (as_bool (oget input ''isRoot'')) False"

definition jsonField :: "jobj \<Rightarrow> string \<Rightarrow> json \<Rightarrow> json" where
  "jsonField input key fallback = (case oget input key of None \<Rightarrow> fallback | Some v \<Rightarrow> marshal v)"

definition sourceVersion :: "jobj \<Rightarrow> int \<times> bool" where
  "sourceVersion input = (case oget input ''sourceVersion'' of
      Some (JFloat l) \<Rightarrow> float_int l
    | Some (JInt i) \<Rightarrow> (i, True)
    | Some (JNumber l) \<Rightarrow> parse_int64 l
    | _ \<Rightarrow> (0, False))"

section \<open>Validation\<close>

definition sourceVersionCollections :: "string list" where
  "sourceVersionCollections =
     [CollectionTypes, CollectionQueries, CollectionDataViews, CollectionCompositions, CollectionStores,
      CollectionStreams, CollectionSimulations, CollectionUpdates, CollectionFilters, CollectionComputations,
      CollectionVocabs, CollectionStyles, CollectionConfigurations]"

definition RequiresSourceVersion :: "string \<Rightarrow> bool" where
  "RequiresSourceVersion collection \<longleftrightarrow> collection \<in> set sourceVersionCollections"

definition validateCollection :: "string \<Rightarrow> unit res" where
  "validateCollection collection =
     (if collection \<in> set DocumentCollections then Inr ()
      else Inl (WithDetails (InvalidInput ''collection_unsupported'') [(''collection'', JStr collection)]))"

definition validateIdentity :: "string \<Rightarrow> unit res" where
  "validateIdentity v =
     (let n = length (trim_space v) in
      failIf (n = 0) (InvalidInput ''identity_required'') (
      failIf (n > 160) (InvalidInput ''identity_too_long'') (Inr ())))"

definition is_upper :: "char \<Rightarrow> bool" where "is_upper c \<longleftrightarrow> CHR ''A'' \<le> c \<and> c \<le> CHR ''Z''"
definition is_lower :: "char \<Rightarrow> bool" where "is_lower c \<longleftrightarrow> CHR ''a'' \<le> c \<and> c \<le> CHR ''z''"

text \<open>\<open>^[A-Z][A-Za-z0-9]*$\<close> and \<open>^#[0-9a-f]{6}$\<close>.\<close>

definition folderIconPattern :: "string \<Rightarrow> bool" where
  "folderIconPattern s = (case s of [] \<Rightarrow> False
     | c # r \<Rightarrow> is_upper c \<and> list_all (\<lambda>d. is_upper d \<or> is_lower d \<or> is_digit d) r)"

definition folderColorPattern :: "string \<Rightarrow> bool" where
  "folderColorPattern s = (case s of [] \<Rightarrow> False
     | c # r \<Rightarrow> c = CHR ''#'' \<and> length r = 6
         \<and> list_all (\<lambda>d. is_digit d \<or> (CHR ''a'' \<le> d \<and> d \<le> CHR ''f'')) r)"

definition maxSourceBytes :: int where "maxSourceBytes = 8 * 1024 * 1024"

text \<open>\<open>validateDocument\<close>, cut at the comments of the code: the fields every document has, the
  rules of one collection, the rules of a folder.\<close>

definition validateSource :: "string \<Rightarrow> jobj \<Rightarrow> unit res" where
  "validateSource kind input = (case oget input ''source'' of
      None \<Rightarrow> Inr ()
    | Some source \<Rightarrow> (case as_str (Some source) of
          None \<Rightarrow> Inl (InvalidInput ''source_invalid'')
        | Some v \<Rightarrow>
            failIf (int (length v) > maxSourceBytes) (InvalidInput ''source_too_large'') (
            failIf (kind \<in> set sourceVersionCollections \<and>
                (let (version, valid) = sourceVersion input in \<not> valid \<or> version \<le> 0))
              (InvalidInput ''source_version_invalid'') (Inr ()))))"

definition hasSource :: "jobj \<Rightarrow> bool" where
  "hasSource input \<longleftrightarrow> as_str (oget input ''source'') \<noteq> None"

definition validateKind :: "string \<Rightarrow> jobj \<Rightarrow> unit res" where
  "validateKind kind input =
     (let version = fst (sourceVersion input); hasVersion = snd (sourceVersion input) in
      failIf (kind = CollectionCompositions \<and>
          (let k = to_lower (trim_space (stringField input ''kind'')) in
           k \<noteq> [] \<and> k \<notin> set [''library'', ''query'', ''workspace'']))
        (InvalidInput ''composition_kind_invalid'') (
      failIf (kind = ''queries'' \<and> version \<noteq> 2) (InvalidInput ''query_source_version_invalid'') (
      failIf (kind = CollectionSimulations \<and> (\<not> hasSource input \<or> \<not> hasVersion \<or> version \<noteq> 1))
        (InvalidInput ''simulation_source_version_invalid'') (
      failIf (kind = CollectionConfigurations \<and> (\<not> hasSource input \<or> \<not> hasVersion \<or> version \<noteq> 1))
        (InvalidInput ''configuration_source_version_invalid'') (
      failIf (kind = CollectionConfigurations \<and> stringField input ''folderIdentity'' \<noteq> [])
        (InvalidInput ''configuration_folder_unsupported'') (
      failIf (kind = CollectionVocabs \<and> hasSource input \<noteq> hasVersion)
        (InvalidInput ''vocab_source_contract_invalid'') (
      failIf (kind = CollectionVocabs \<and> hasSource input \<and> trimmed (oget input ''source'') = [])
        (InvalidInput ''vocab_source_invalid'') (
      failIf (kind = CollectionVocabs \<and> hasVersion \<and> version \<noteq> 1)
        (InvalidInput ''vocab_source_version_invalid'') (
      failIf (kind = CollectionUpdates \<and> stringField input ''storeIdentity'' = [])
        (InvalidInput ''update_store_required'') (
      if kind = CollectionAuthProfiles then ValidateAuthProfile input else Inr ()))))))))))"

definition validateFolder :: "jobj \<Rightarrow> unit res" where
  "validateFolder input =
     (let scope = defaultString (stringField input ''scope'') FolderScopeCollection;
          entityType = stringField input ''entityType'';
          icon = stringField input ''icon''; color = stringField input ''color'' in
      bindE (if scope = FolderScopeCollection then
          failIf (entityType \<notin> set DocumentCollections \<or> entityType = CollectionFolders
              \<or> entityType = CollectionConfigurations)
            (InvalidInput ''folder_entity_type_invalid'') (Inr ())
        else if scope = FolderScopeWorkspace then
          failIf (entityType \<noteq> []) (InvalidInput ''folder_workspace_entity_type_invalid'') (Inr ())
        else Inl (InvalidInput ''folder_scope_invalid'')) (\<lambda>_.
      failIf (icon \<noteq> [] \<and> (length icon > 80 \<or> \<not> folderIconPattern icon)) (InvalidInput ''folder_icon_invalid'') (
      failIf (color \<noteq> [] \<and> \<not> folderColorPattern color) (InvalidInput ''folder_color_invalid'') (
      failIf (ohas input ''isSystem'') (InvalidInput ''folder_is_system_unsupported'') (
      failIf (isRoot input) (InvalidInput ''folder_root_field_read_only'') (Inr ()))))))"

definition validateDocument :: "string \<Rightarrow> jobj \<Rightarrow> unit res" where
  "validateDocument kind input =
     bindE (validateIdentity (stringField input ''identity'')) (\<lambda>_.
     failIf (stringField input ''displayName'' = []) (InvalidInput ''display_name_required'') (
     failIf (defaultString (stringField input ''managedBy'') ''user'' \<notin> set [''user'', ManagedBySystem, ''integration''])
       (InvalidInput ''managed_by_invalid'') (
     bindE (validateSource kind input) (\<lambda>_.
     bindE (validateKind kind input) (\<lambda>_.
     bindE (if kind = CollectionFolders then validateFolder input else Inr ()) (\<lambda>_.
     ValidateSecrets (JObj input)))))))"

section \<open>Input bodies\<close>

text \<open>\<open>decodeValues\<close>: a body that is not an object is refused.\<close>

definition decodeValues :: "json \<Rightarrow> jobj res" where
  "decodeValues payload = (case payload of
      JObj values \<Rightarrow> Inr values | _ \<Rightarrow> Inl (InvalidInput ''document_input_invalid''))"

definition NewCreateInputJSON :: "json \<Rightarrow> json res" where
  "NewCreateInputJSON payload = bindE (decodeValues payload) (\<lambda>_. Inr payload)"

definition NewPatchInputJSON :: "json \<Rightarrow> json res" where
  "NewPatchInputJSON payload = bindE (decodeValues payload) (\<lambda>_. Inr payload)"

section \<open>Documents from input\<close>

definition documentFields :: "string list" where
  "documentFields = readOnlyFields @
     [''identity'', ''displayName'', ''description'', ''folderIdentity'', ''workspaceFolderIdentity'',
      ''managedBy'', ''managedById'', ''meta'', ''active'']"

definition documentFromInput :: "string \<Rightarrow> id \<Rightarrow> jobj \<Rightarrow> id \<Rightarrow> id \<Rightarrow> document" where
  "documentFromInput kind workspaceID input actorID newid =
     \<lparr>d_id = newid, d_workspaceID = workspaceID, d_type = kind,
      d_identity = stringField input ''identity'', d_displayName = stringField input ''displayName'',
      d_description = optionalString input ''description'',
      d_folderIdentity = optionalString input ''folderIdentity'',
      d_workspaceFolderIdentity = optionalString input ''workspaceFolderIdentity'',
      d_managedBy = defaultString (stringField input ''managedBy'') ''user'',
      d_managedByID = optionalString input ''managedById'',
      d_meta = jsonField input ''meta'' (JObj []),
      d_data = omarshal (fold odel documentFields input),
      d_active = defaultBool input ''active'' True, d_deletedAt = None, d_revision = 1,
      d_createdBy = actor_of_id actorID, d_updatedBy = actor_of_id actorID,
      d_createdAt = 0, d_updatedAt = 0\<rparr>"

definition patch_data :: "jobj \<Rightarrow> jobj \<Rightarrow> jobj" where
  "patch_data patch data =
     fold (\<lambda>(k, v) m. oput k v m) (filter (\<lambda>(k, v). k \<notin> set documentFields) patch) data"

definition applyPatch :: "(string \<Rightarrow> string) \<Rightarrow> document \<Rightarrow> jobj \<Rightarrow> id \<Rightarrow> document" where
  "applyPatch nf d patch actorID =
     d\<lparr>d_identity := (case as_str (oget patch ''identity'') of Some v \<Rightarrow> trim_space v | None \<Rightarrow> d_identity d),
       d_displayName := (case as_str (oget patch ''displayName'') of Some v \<Rightarrow> v | None \<Rightarrow> d_displayName d),
       d_description := (if ohas patch ''description'' then optionalString patch ''description'' else d_description d),
       d_folderIdentity := (if ohas patch ''folderIdentity'' then optionalString patch ''folderIdentity''
                            else d_folderIdentity d),
       d_workspaceFolderIdentity := (if ohas patch ''workspaceFolderIdentity''
          then optionalString patch ''workspaceFolderIdentity'' else d_workspaceFolderIdentity d),
       d_managedBy := (case as_str (oget patch ''managedBy'') of Some v \<Rightarrow> v | None \<Rightarrow> d_managedBy d),
       d_managedByID := (if ohas patch ''managedById'' then optionalString patch ''managedById'' else d_managedByID d),
       d_meta := (case oget patch ''meta'' of Some v \<Rightarrow> marshal v | None \<Rightarrow> d_meta d),
       d_active := (case as_bool (oget patch ''active'') of Some b \<Rightarrow> b | None \<Rightarrow> d_active d),
       d_data := omarshal (patch_data patch (ounmarshal nf (d_data d))),
       d_updatedBy := actor_of_id actorID\<rparr>"

definition documentAsInput :: "(string \<Rightarrow> string) \<Rightarrow> document \<Rightarrow> jobj" where
  "documentAsInput nf d =
     oput ''managedBy'' (JStr (d_managedBy d)) (oput ''displayName'' (JStr (d_displayName d))
       (oput ''identity'' (JStr (d_identity d)) (ounmarshal nf (d_data d))))"

text \<open>The content that the no-op comparison hashes.\<close>

record doc_content =
  dc_identity :: string
  dc_displayName :: string
  dc_description :: "string option"
  dc_folderIdentity :: "string option"
  dc_workspaceFolderIdentity :: "string option"
  dc_managedBy :: string
  dc_managedByID :: "string option"
  dc_meta :: json
  dc_data :: jobj
  dc_active :: bool
  dc_deletedAt :: "time option"

definition content_of :: "document \<Rightarrow> doc_content" where
  "content_of d =
     \<lparr>dc_identity = d_identity d, dc_displayName = d_displayName d, dc_description = d_description d,
      dc_folderIdentity = d_folderIdentity d, dc_workspaceFolderIdentity = d_workspaceFolderIdentity d,
      dc_managedBy = d_managedBy d, dc_managedByID = d_managedByID d, dc_meta = d_meta d,
      dc_data = d_data d, dc_active = d_active d, dc_deletedAt = d_deletedAt d\<rparr>"

definition checksumContent :: "(doc_content \<Rightarrow> string) \<Rightarrow> document \<Rightarrow> string" where
  "checksumContent sha d = sha (content_of d)"

section \<open>Folder fields of an input\<close>

definition normalizeFolderInput :: "string \<Rightarrow> jobj \<Rightarrow> jobj" where
  "normalizeFolderInput kind input =
     (if kind = CollectionFolders then
        let scope = stringField input ''scope''; entityType = stringField input ''entityType'';
            a = (if scope \<noteq> [] then oput ''scope'' (JStr scope) input else input) in
        if entityType \<noteq> [] then oput ''entityType'' (JStr (FolderEntityType entityType)) a else a
      else input)"

definition ensureWorkspaceFolderInput :: "string \<Rightarrow> jobj \<Rightarrow> jobj" where
  "ensureWorkspaceFolderInput kind input =
     (if kind = CollectionFolders then input
      else if stringField input ''workspaceFolderIdentity'' = []
        then oput ''workspaceFolderIdentity'' (JStr WorkspaceRootFolderIdentity) input
      else input)"

definition validateFolderScopePatch :: "(string \<Rightarrow> string) \<Rightarrow> document \<Rightarrow> jobj \<Rightarrow> unit res" where
  "validateFolderScopePatch nf existing patch =
     (let data = ounmarshal nf (d_data existing);
          currentScope = defaultString (stringField data ''scope'') FolderScopeCollection;
          currentEntityType = FolderEntityType (stringField data ''entityType'') in
      failIf (ohas patch ''scope''
          \<and> defaultString (trimmed (oget patch ''scope'')) FolderScopeCollection \<noteq> currentScope)
        (Conflict ''folder_scope_immutable'') (
      failIf (ohas patch ''entityType''
          \<and> (if is_nil (oget patch ''entityType'') then [] else FolderEntityType (stringField patch ''entityType''))
              \<noteq> currentEntityType)
        (Conflict ''folder_entity_type_immutable'') (Inr ())))"

definition isSystemFolder :: "(string \<Rightarrow> string) \<Rightarrow> document \<Rightarrow> bool" where
  "isSystemFolder nf d \<longleftrightarrow> isRoot (ounmarshal nf (d_data d)) \<or> d_managedBy d = ManagedBySystem"

section \<open>Laws\<close>

lemma oget_fold_odel [simp]: "oget (fold odel ks m) j = (if j \<in> set ks then None else oget m j)"
  by (rule jmap.get_fold_del)

lemma map_of_filter_keys: "map_of (filter (\<lambda>(k, v). P k) m) k = (if P k then map_of m k else None)"
  by (induction m) auto

lemma oget_patch_data:
  assumes "owf patch"
  shows "oget (patch_data patch data) k =
     (if k \<notin> set documentFields \<and> ohas patch k then oget patch k else oget data k)"
proof -
  let ?kvs = "filter (\<lambda>(k, v). k \<notin> set documentFields) patch"
  have "distinct (map fst ?kvs)"
    using owf_distinct [OF assms] by (simp add: distinct_map_filter)
  then have "oget (patch_data patch data) k =
      (case map_of ?kvs k of Some v \<Rightarrow> Some v | None \<Rightarrow> oget data k)"
    unfolding patch_data_def by (rule jmap.get_fold_put)
  then show ?thesis
    by (auto simp: map_of_filter_keys ohas_def oget_def split: option.splits)
qed

lemma owf_patch_data [simp]: "owf data \<Longrightarrow> owf (patch_data patch data)"
  unfolding patch_data_def by (rule owf_fold_oput)

lemma applyPatch_fields [simp]:
  "d_id (applyPatch nf d p a) = d_id d" "d_workspaceID (applyPatch nf d p a) = d_workspaceID d"
  "d_type (applyPatch nf d p a) = d_type d" "d_revision (applyPatch nf d p a) = d_revision d"
  "d_deletedAt (applyPatch nf d p a) = d_deletedAt d" "d_createdBy (applyPatch nf d p a) = d_createdBy d"
  "d_updatedBy (applyPatch nf d p a) = actor_of_id a"
  by (simp_all add: applyPatch_def)

text \<open>A data field of a patched document is the patch's value, or the old one decoded and printed again.\<close>

lemma applyPatch_data:
  assumes "owf patch"
  shows "oget (d_data (applyPatch nf d patch a)) k =
    (if k \<notin> set documentFields \<and> ohas patch k then map_option marshal (oget patch k)
     else map_option (renorm nf) (oget (d_data d) k))"
  by (simp add: applyPatch_def oget_patch_data [OF assms] option.map_comp comp_def marshal_unmarshal)

lemma owf_applyPatch [simp]: "owf (d_data d) \<Longrightarrow> owf (d_data (applyPatch nf d p a))"
  by (simp add: applyPatch_def)

lemma applyPatch_keeps_fields_out:
  assumes "owf patch" "\<forall>k \<in> set documentFields. \<not> ohas (d_data d) k" "k \<in> set documentFields"
  shows "\<not> ohas (d_data (applyPatch nf d patch a)) k"
  using assms by (simp add: ohas_iff applyPatch_data)

lemma documentFromInput_data:
  "oget (d_data (documentFromInput kind ws input a i)) k =
     (if k \<in> set documentFields then None else map_option marshal (oget input k))"
  by (simp add: documentFromInput_def)

lemma documentFromInput_fields [simp]:
  "d_id (documentFromInput kind ws input a i) = i"
  "d_workspaceID (documentFromInput kind ws input a i) = ws"
  "d_type (documentFromInput kind ws input a i) = kind"
  "d_revision (documentFromInput kind ws input a i) = 1"
  "d_deletedAt (documentFromInput kind ws input a i) = None"
  "d_createdBy (documentFromInput kind ws input a i) = actor_of_id a"
  "d_updatedBy (documentFromInput kind ws input a i) = actor_of_id a"
  "d_identity (documentFromInput kind ws input a i) = stringField input ''identity''"
  by (simp_all add: documentFromInput_def)

text \<open>A value whose numbers survive a \<open>float64\<close> is unchanged by decoding and printing.\<close>

fun stable :: "(string \<Rightarrow> string) \<Rightarrow> json \<Rightarrow> bool" where
  "stable nf (JNumber l) \<longleftrightarrow> nf l = l"
| "stable nf (JInt i) \<longleftrightarrow> False"
| "stable nf (JFloat l) \<longleftrightarrow> False"
| "stable nf (JArr xs) \<longleftrightarrow> (\<forall>x \<in> set xs. stable nf x)"
| "stable nf (JObj m) \<longleftrightarrow> (\<forall>kv \<in> set m. stable nf (snd kv))"
| "stable nf v \<longleftrightarrow> True"

lemma renorm_stable: "stable nf v \<Longrightarrow> renorm nf v = v"
proof (induction nf v rule: stable.induct)
  case (5 nf m)
  have "map (\<lambda>kv. (fst kv, renorm nf (snd kv))) m = m"
    using 5 by (intro map_idI) (auto simp: prod_eq_iff)
  then show ?case by simp
qed (auto intro: map_idI)

lemma omarshal_stable: "\<forall>kv \<in> set m. stable nf (snd kv) \<Longrightarrow> omarshal (ounmarshal nf m) = m"
  unfolding omarshal_def ounmarshal_def
  by (simp add: comp_def marshal_unmarshal) (auto intro!: map_idI simp: renorm_stable)

text \<open>An empty patch changes no content, provided the numbers are stable.\<close>

lemma applyPatch_empty:
  assumes "\<forall>kv \<in> set (d_data d). stable nf (snd kv)"
  shows "content_of (applyPatch nf d [] a) = content_of d"
  by (simp add: applyPatch_def content_of_def patch_data_def ohas_def omarshal_stable [OF assms])

lemma validateDocument_Inr:
  "validateDocument kind input = Inr () \<longleftrightarrow>
     validateIdentity (stringField input ''identity'') = Inr () \<and> stringField input ''displayName'' \<noteq> []
     \<and> defaultString (stringField input ''managedBy'') ''user'' \<in> {''user'', ManagedBySystem, ''integration''}
     \<and> validateSource kind input = Inr () \<and> validateKind kind input = Inr ()
     \<and> (kind = CollectionFolders \<longrightarrow> validateFolder input = Inr ()) \<and> ValidateSecrets (JObj input) = Inr ()"
  by (auto simp: validateDocument_def res_iffs)

lemma validateIdentity_Inr:
  "validateIdentity v = Inr () \<longleftrightarrow> trim_space v \<noteq> [] \<and> length (trim_space v) \<le> 160"
  by (auto simp: validateIdentity_def failIf_Inr_iff Let_def)

lemma owf_normalizeFolderInput [simp]: "owf m \<Longrightarrow> owf (normalizeFolderInput kind m)"
  by (simp add: normalizeFolderInput_def Let_def)

lemma owf_ensureWorkspaceFolderInput [simp]: "owf m \<Longrightarrow> owf (ensureWorkspaceFolderInput kind m)"
  by (simp add: ensureWorkspaceFolderInput_def)

end
