(* ===== verification/AccessContext.thy ===== *)
theory AccessContext
  imports Entities
begin

text \<open>
  The request context and its policies: \<open>internal/usecase/shared/context.go\<close> and the workspace
  authorization of \<open>internal/usecase/workspaces/queries.go\<close>. The context values the middleware
  stores (current user, workspace access, personal token, mutation batch) are the fields of a
  record.
\<close>

section \<open>The request context\<close>

record ctx =
  cx_actor :: "current_actor option"
  cx_access :: "workspace_access option"
  cx_token :: "principal option"
  cx_batch :: "id option"
  cx_now :: time

text \<open>\<open>shared.Actor\<close> returns the user with the actor, since the callers read
  \<open>current.User.ID\<close> only after the nil check.\<close>

definition ctx_Actor :: "ctx \<Rightarrow> (current_actor \<times> user) res" where
  "ctx_Actor c = (case cx_actor c of
      None \<Rightarrow> Inl (Unauthorized ''auth.current_user_missing'')
    | Some a \<Rightarrow> (case ca_user a of
          None \<Rightarrow> Inl (Unauthorized ''auth.current_user_missing'')
        | Some u \<Rightarrow> Inr (a, u)))"

definition ctx_Access :: "ctx \<Rightarrow> workspace_access res" where
  "ctx_Access c = (case cx_access c of
      None \<Rightarrow> Inl (InvalidInput ''workspace_required'')
    | Some w \<Rightarrow> Inr w)"

definition CanWrite :: "string \<Rightarrow> bool" where
  "CanWrite role \<longleftrightarrow> role = ''editor'' \<or> role = ''admin'' \<or> role = ''platform_admin''"

definition CanAdmin :: "string \<Rightarrow> bool" where
  "CanAdmin role \<longleftrightarrow> role = ''admin'' \<or> role = ''platform_admin''"

definition WriteContext :: "ctx \<Rightarrow> ((current_actor \<times> user) \<times> workspace_access) res" where
  "WriteContext c =
     bindE (ctx_Actor c) (\<lambda>current.
     bindE (ctx_Access c) (\<lambda>scope.
     failIf (case cx_token c of Some t \<Rightarrow> \<not> principal_CanWrite t | None \<Rightarrow> False)
       (Forbidden ''access_token_scope_insufficient'') (
     failIf (\<not> CanWrite (wa_role scope)) (Forbidden ''workspace_editor_required'') (
     Inr (current, scope)))))"

definition AdminContext :: "ctx \<Rightarrow> ((current_actor \<times> user) \<times> workspace_access) res" where
  "AdminContext c =
     bindE (ctx_Actor c) (\<lambda>current.
     bindE (ctx_Access c) (\<lambda>scope.
     failIf (cx_token c \<noteq> None) (Forbidden ''access_token_admin_forbidden'') (
     failIf (\<not> CanAdmin (wa_role scope)) (Forbidden ''workspace_admin_required'') (
     Inr (current, scope)))))"

definition CommitContext :: "ctx \<Rightarrow> ((current_actor \<times> user) \<times> workspace_access) res" where
  "CommitContext c = (case cx_token c of
      None \<Rightarrow> AdminContext c
    | Some t \<Rightarrow>
        bindE (WriteContext c) (\<lambda>(current, scope).
        failIf (\<not> p_canCommit t) (Forbidden ''access_token_commit_forbidden'') (
        failIf (\<not> CanAdmin (wa_ownerRole scope)) (Forbidden ''access_token_owner_admin_required'') (
        Inr (current, scope)))))"

section \<open>Authorizing a workspace\<close>

text \<open>\<open>UseCase.Authorize\<close>, with the repository's \<open>GetWorkspace\<close> and \<open>WorkspaceRole\<close> as the
  arguments \<open>getw\<close> and \<open>role_of\<close>.\<close>

definition Authorize ::
    "(string \<Rightarrow> workspace res) \<Rightarrow> (id \<Rightarrow> id \<Rightarrow> bool \<Rightarrow> string res) \<Rightarrow> ctx \<Rightarrow> string \<Rightarrow> workspace_access res" where
  "Authorize getw role_of c identity =
     bindE (ctx_Actor c) (\<lambda>(current, u).
     bindE (notFoundAs (NotFound ''workspace_not_found'') (getw (trim_space identity))) (\<lambda>w.
     failIf (case cx_token c of Some t \<Rightarrow> w_id w \<noteq> p_workspaceID t | None \<Rightarrow> False)
       (Forbidden ''access_token_workspace_forbidden'') (
     bindE (role_of (w_id w) (u_id u)
         (case cx_token c of Some t \<Rightarrow> p_ownerPlatformAdmin t | None \<Rightarrow> ca_platformAdmin current)) (\<lambda>role.
     let ownerRole = (case cx_token c of Some t \<Rightarrow> role | None \<Rightarrow> []);
         role' = (case cx_token c of Some t \<Rightarrow> CapWorkspaceRole t role | None \<Rightarrow> role) in
     failIf (role' = []) (Forbidden ''workspace_forbidden'') (
     Inr \<lparr>wa_workspace = w, wa_role = role', wa_ownerRole = ownerRole\<rparr>)))))"

section \<open>Laws of the context policies\<close>

lemma WriteContext_Inr_iff:
  "WriteContext c = Inr (cu, scope) \<longleftrightarrow>
     ctx_Actor c = Inr cu \<and> ctx_Access c = Inr scope
     \<and> (\<forall>t. cx_token c = Some t \<longrightarrow> principal_CanWrite t) \<and> CanWrite (wa_role scope)"
  by (cases cu) (auto simp: WriteContext_def res_iffs split: option.splits)

lemma AdminContext_Inr_iff:
  "AdminContext c = Inr (cu, scope) \<longleftrightarrow>
     ctx_Actor c = Inr cu \<and> ctx_Access c = Inr scope \<and> cx_token c = None \<and> CanAdmin (wa_role scope)"
  by (cases cu) (auto simp: AdminContext_def res_iffs)

lemma CanAdmin_CanWrite: "CanAdmin role \<Longrightarrow> CanWrite role"
  by (auto simp: CanAdmin_def CanWrite_def)

lemma CommitContext_WriteContext:
  "CommitContext c = Inr (cu, scope) \<Longrightarrow> WriteContext c = Inr (cu, scope)"
  by (cases cu) (auto simp: CommitContext_def AdminContext_Inr_iff WriteContext_Inr_iff res_iffs CanAdmin_CanWrite
      split: option.splits prod.splits)

lemma CommitContext_Inr_iff:
  "CommitContext c = Inr (cu, scope) \<longleftrightarrow>
     WriteContext c = Inr (cu, scope) \<and>
     (case cx_token c of None \<Rightarrow> CanAdmin (wa_role scope)
      | Some t \<Rightarrow> p_canCommit t \<and> CanAdmin (wa_ownerRole scope))"
  by (cases cu) (auto simp: CommitContext_def AdminContext_Inr_iff WriteContext_Inr_iff res_iffs CanAdmin_CanWrite
      split: option.splits prod.splits)

lemma Authorize_Inr:
  assumes "Authorize getw role_of c identity = Inr acc"
  shows "\<exists>current u role. ctx_Actor c = Inr (current, u)
      \<and> getw (trim_space identity) = Inr (wa_workspace acc)
      \<and> role_of (w_id (wa_workspace acc)) (u_id u)
          (case cx_token c of Some t \<Rightarrow> p_ownerPlatformAdmin t | None \<Rightarrow> ca_platformAdmin current) = Inr role
      \<and> role \<noteq> []
      \<and> (case cx_token c of
           Some t \<Rightarrow> w_id (wa_workspace acc) = p_workspaceID t
             \<and> wa_role acc = CapWorkspaceRole t role \<and> wa_ownerRole acc = role
         | None \<Rightarrow> wa_role acc = role \<and> wa_ownerRole acc = [])"
  using assms
  by (auto simp: Authorize_def res_iffs Let_def split: option.splits if_splits)

end
