(* ===== verification/Database.thy ===== *)
theory Database
  imports DocContract AccessContext
begin

text \<open>
  The tables under the document use cases, after \<open>migrations/\<close>: one list of rows for the 21
  document tables (a row carries its kind, which names its table in \<open>documentTables\<close>), the two
  facet tables, workspaces, users, mutation batches and document revisions. A statement that breaks
  a constraint fails with a driver error. A use case runs in one transaction, so its
  error keeps the database unchanged.
\<close>

section \<open>Rows\<close>

record doc_row =
  dr_id :: id
  dr_ws :: id
  dr_kind :: string
  dr_identity :: string
  dr_name :: string
  dr_desc :: "string option"
  dr_folder :: "id option"              \<comment> \<open>\<open>folder_id\<close>, or \<open>parent_id\<close> of a folder\<close>
  dr_wfolder :: "id option"             \<comment> \<open>\<open>workspace_folder_id\<close>; a folder has none\<close>
  dr_relation :: "id option"            \<comment> \<open>\<open>store_id\<close> of an update, \<open>auth_profile_id\<close> of a vocab\<close>
  dr_scope :: string                    \<comment> \<open>folders only, as the next four\<close>
  dr_entityType :: "string option"
  dr_isRoot :: bool
  dr_icon :: "string option"
  dr_color :: "string option"
  dr_managedBy :: string
  dr_managedByID :: "string option"
  dr_meta :: json
  dr_data :: jobj
  dr_active :: bool
  dr_deletedAt :: "time option"
  dr_revision :: int
  dr_createdBy :: id
  dr_updatedBy :: id
  dr_createdAt :: time
  dr_updatedAt :: time

record facet_row =
  fr_id :: id
  fr_ws :: id
  fr_identity :: string
  fr_name :: string
  fr_icon :: string
  fr_color :: string
  fr_position :: int
  fr_meta :: json
  fr_active :: bool
  fr_deletedAt :: "time option"
  fr_revision :: int
  fr_createdBy :: id
  fr_updatedBy :: id
  fr_createdAt :: time
  fr_updatedAt :: time

record fdoc_row =
  fd_id :: id
  fd_ws :: id
  fd_facet :: id
  fd_identity :: string
  fd_name :: string
  fd_desc :: "string option"
  fd_configuration :: json
  fd_meta :: json
  fd_active :: bool
  fd_deletedAt :: "time option"
  fd_revision :: int
  fd_createdBy :: id
  fd_updatedBy :: id
  fd_createdAt :: time
  fd_updatedAt :: time

record ws_row =
  ws_value :: workspace
  ws_startup :: "id option"             \<comment> \<open>\<open>startup_composition_id\<close>\<close>

record batch_row =
  mb_id :: id
  mb_ws :: "id option"
  mb_kind :: string
  mb_actor :: id
  mb_token :: "id option"

text \<open>A snapshot is the printed entity; decoding it gives the entity back.\<close>

datatype snapshot =
    SnapDocument document
  | SnapWorkspace workspace
  | SnapOther json

record revision =
  rv_id :: id
  rv_ws :: string                       \<comment> \<open>empty for the NULL workspace of an integration\<close>
  rv_type :: string
  rv_docID :: id
  rv_docIdentity :: string
  rv_number :: int
  rv_seq :: "int option"
  rv_operation :: string
  rv_parent :: "id option"
  rv_restoredFrom :: "id option"
  rv_batch :: id
  rv_version :: int
  rv_snapshot :: snapshot
  rv_checksum :: string
  rv_createdBy :: id

record db =
  db_docs :: "doc_row list"
  db_facets :: "facet_row list"
  db_fdocs :: "fdoc_row list"
  db_workspaces :: "ws_row list"
  db_users :: "user list"
  db_batches :: "batch_row list"
  db_revisions :: "revision list"
  db_next :: nat                        \<comment> \<open>how many random identifiers were drawn\<close>

record facet_content =
  fc_identity :: string
  fc_displayName :: string
  fc_description :: "string option"
  fc_meta :: json
  fc_data :: jobj
  fc_active :: bool
  fc_deletedAt :: "time option"

text \<open>What the code takes from outside: the printed form of a \<open>float64\<close>, SHA-256 of the three
  contents it hashes, the random identifiers.\<close>

record env =
  e_nf :: "string \<Rightarrow> string"
  e_sha :: "doc_content \<Rightarrow> string"
  e_fsha :: "facet_content \<Rightarrow> string"
  e_ssha :: "snapshot \<Rightarrow> string"
  e_uuid :: "nat \<Rightarrow> id"

definition fresh :: "env \<Rightarrow> db \<Rightarrow> id \<times> db" where
  "fresh env s = (e_uuid env (db_next s), s\<lparr>db_next := Suc (db_next s)\<rparr>)"

definition unique_violation :: goerr where
  "unique_violation = Plain ''duplicate key value violates unique constraint''"
definition fk_violation :: goerr where
  "fk_violation = Plain ''insert or update violates foreign key constraint''"
definition check_violation :: goerr where
  "check_violation = Plain ''new row violates check constraint''"
definition no_rows :: goerr where
  "no_rows = Plain ''no rows in result set''"
definition revision_conflict_text :: goerr where
  "revision_conflict_text = Plain ''revision conflict''"

lemma db_err_not_found [simp]:
  "\<not> errors_is unique_violation RowNotFound" "\<not> errors_is fk_violation RowNotFound"
  "\<not> errors_is check_violation RowNotFound" "\<not> errors_is no_rows RowNotFound"
  "\<not> errors_is revision_conflict_text RowNotFound"
  by (simp_all add: unique_violation_def fk_violation_def check_violation_def no_rows_def revision_conflict_text_def)

lemma conflict_of_stale [simp]: "conflict_of revision_conflict_text = RevisionConflict"
  by (simp add: revision_conflict_text_def conflict_of_literals)

section \<open>Reading rows\<close>

definition db_user :: "db \<Rightarrow> id \<Rightarrow> user option" where
  "db_user s i = find (\<lambda>u. u_id u = i) (db_users s)"

definition actor_of :: "user \<Rightarrow> actor" where
  "actor_of u = \<lparr>ac_id = u_id u, ac_username = u_username u, ac_displayName = u_displayName u\<rparr>"

definition ws_of :: "db \<Rightarrow> id \<Rightarrow> ws_row option" where
  "ws_of s i = find (\<lambda>w. w_id (ws_value w) = i) (db_workspaces s)"

text \<open>The row of a kind with an identifier, within a workspace: a foreign key is followed this way.\<close>

definition row_by_id :: "db \<Rightarrow> string \<Rightarrow> id \<Rightarrow> id \<Rightarrow> doc_row option" where
  "row_by_id s kind ws i = find (\<lambda>r. dr_kind r = kind \<and> dr_ws r = ws \<and> dr_id r = i) (db_docs s)"

definition row_by_identity :: "db \<Rightarrow> string \<Rightarrow> id \<Rightarrow> string \<Rightarrow> doc_row option" where
  "row_by_identity s kind ws identity =
     find (\<lambda>r. dr_kind r = kind \<and> dr_ws r = ws \<and> dr_identity r = identity) (db_docs s)"

definition joined_identity :: "db \<Rightarrow> string \<Rightarrow> id \<Rightarrow> id option \<Rightarrow> string option" where
  "joined_identity s kind ws i = (case i of None \<Rightarrow> None
     | Some j \<Rightarrow> map_option dr_identity (row_by_id s kind ws j))"

definition opt_json :: "string option \<Rightarrow> json" where
  "opt_json v = (case v of None \<Rightarrow> JNull | Some t \<Rightarrow> JStr t)"

section \<open>Constraints\<close>

text \<open>A statement succeeds when the table it leaves satisfies the constraints of its columns. The unique
  keys of a document table are its identifier and, in a workspace, its identity (deleted rows
  included).\<close>

definition docs_unique :: "doc_row list \<Rightarrow> bool" where
  "docs_unique rows \<longleftrightarrow> distinct (map (\<lambda>r. (dr_kind r, dr_id r)) rows)
     \<and> distinct (map (\<lambda>r. (dr_kind r, dr_ws r, dr_identity r)) rows)"

definition folder_check :: "doc_row \<Rightarrow> bool" where
  "folder_check r \<longleftrightarrow> dr_kind r = CollectionFolders \<longrightarrow>
     (dr_scope r = FolderScopeCollection \<and> (case dr_entityType r of None \<Rightarrow> False | Some t \<Rightarrow> trim_space t \<noteq> []))
   \<or> (dr_scope r = FolderScopeWorkspace \<and> dr_entityType r = None)"

definition row_check :: "doc_row \<Rightarrow> bool" where
  "row_check r \<longleftrightarrow> folder_check r \<and> dr_managedBy r \<in> set [''user'', ''system'', ''integration'']
     \<and> 0 < dr_revision r \<and> (dr_kind r \<noteq> CollectionFolders \<longrightarrow> dr_wfolder r \<noteq> None)"

text \<open>The folder of a document exists in its workspace; the parent of a folder also has its scope
  (\<open>folders_workspace_parent_scope_fk\<close>).\<close>

definition folder_fk :: "doc_row list \<Rightarrow> doc_row \<Rightarrow> bool" where
  "folder_fk rows r \<longleftrightarrow> (case dr_folder r of None \<Rightarrow> True
     | Some p \<Rightarrow> \<exists>f \<in> set rows. dr_kind f = CollectionFolders \<and> dr_id f = p \<and> dr_ws f = dr_ws r
         \<and> (dr_kind r = CollectionFolders \<longrightarrow> dr_scope f = dr_scope r))"

definition points_to :: "doc_row list \<Rightarrow> string \<Rightarrow> id \<Rightarrow> id option \<Rightarrow> bool" where
  "points_to rows kind ws i \<longleftrightarrow> (case i of None \<Rightarrow> True
     | Some p \<Rightarrow> \<exists>f \<in> set rows. dr_kind f = kind \<and> dr_id f = p \<and> dr_ws f = ws)"

definition row_fk :: "db \<Rightarrow> doc_row list \<Rightarrow> doc_row \<Rightarrow> bool" where
  "row_fk s rows r \<longleftrightarrow> folder_fk rows r \<and> points_to rows CollectionFolders (dr_ws r) (dr_wfolder r)
     \<and> (dr_kind r = CollectionUpdates \<longrightarrow> points_to rows CollectionStores (dr_ws r) (dr_relation r))
     \<and> (dr_kind r = CollectionVocabs \<longrightarrow> points_to rows CollectionAuthProfiles (dr_ws r) (dr_relation r))
     \<and> ws_of s (dr_ws r) \<noteq> None \<and> db_user s (dr_createdBy r) \<noteq> None \<and> db_user s (dr_updatedBy r) \<noteq> None"

definition docs_ok :: "db \<Rightarrow> doc_row list \<Rightarrow> bool" where
  "docs_ok s rows \<longleftrightarrow> docs_unique rows \<and> (\<forall>r \<in> set rows. row_check r \<and> row_fk s rows r)"

definition commit_docs :: "doc_row list \<Rightarrow> db \<Rightarrow> db res" where
  "commit_docs rows s =
     failIf (\<not> docs_unique rows) unique_violation (
     failIf (\<exists>r \<in> set rows. \<not> row_check r) check_violation (
     failIf (\<exists>r \<in> set rows. \<not> row_fk s rows r) fk_violation (
     Inr (s\<lparr>db_docs := rows\<rparr>))))"

definition insert_doc_row :: "doc_row \<Rightarrow> db \<Rightarrow> db res" where
  "insert_doc_row r s = commit_docs (db_docs s @ [r]) s"

text \<open>An update of the rows a condition selects.\<close>

definition update_doc_rows :: "(doc_row \<Rightarrow> bool) \<Rightarrow> (doc_row \<Rightarrow> doc_row) \<Rightarrow> db \<Rightarrow> db res" where
  "update_doc_rows p f s = commit_docs (updateWhere p f (db_docs s)) s"

lemma commit_docs_Inr: "commit_docs rows s = Inr s' \<longleftrightarrow> docs_ok s rows \<and> s' = s\<lparr>db_docs := rows\<rparr>"
  by (auto simp: commit_docs_def docs_ok_def failIf_Inr_iff)

lemma insert_doc_row_Inr:
  "insert_doc_row r s = Inr s' \<longleftrightarrow> docs_ok s (db_docs s @ [r]) \<and> s' = s\<lparr>db_docs := db_docs s @ [r]\<rparr>"
  by (simp add: insert_doc_row_def commit_docs_Inr)

lemma update_doc_rows_Inr:
  "update_doc_rows p f s = Inr s' \<longleftrightarrow>
     docs_ok s (updateWhere p f (db_docs s)) \<and> s' = s\<lparr>db_docs := updateWhere p f (db_docs s)\<rparr>"
  by (simp add: update_doc_rows_def commit_docs_Inr)

lemma commit_docs_not_found: "commit_docs rows s = Inl e \<Longrightarrow> \<not> errors_is e RowNotFound"
  by (auto simp: commit_docs_def res_err_iffs)

section \<open>Workspaces\<close>

definition update_ws :: "id \<Rightarrow> (ws_row \<Rightarrow> ws_row) \<Rightarrow> db \<Rightarrow> db" where
  "update_ws i f s = s\<lparr>db_workspaces := updateWhere (\<lambda>w. w_id (ws_value w) = i) f (db_workspaces s)\<rparr>"

text \<open>\<open>getWorkspaceByID\<close>: the startup composition is joined, the actors are read.\<close>

definition getWorkspaceByID :: "id \<Rightarrow> db \<Rightarrow> workspace res" where
  "getWorkspaceByID i s = (case ws_of s i of
      None \<Rightarrow> Inl RowNotFound
    | Some w \<Rightarrow>
        (case (db_user s (ac_id (w_createdBy (ws_value w))), db_user s (ac_id (w_updatedBy (ws_value w)))) of
           (Some cu, Some uu) \<Rightarrow> Inr ((ws_value w)\<lparr>w_startupComposition :=
               joined_identity s CollectionCompositions i (ws_startup w),
               w_createdBy := actor_of cu, w_updatedBy := actor_of uu\<rparr>)
         | _ \<Rightarrow> Inl RowNotFound))"

text \<open>\<open>ClearStartupComposition\<close>: the workspace when it pointed to the composition.\<close>

definition ClearStartupComposition :: "id \<Rightarrow> id \<Rightarrow> id \<Rightarrow> db \<Rightarrow> (workspace option \<times> db) res" where
  "ClearStartupComposition ws composition actor s = (case ws_of s ws of
      None \<Rightarrow> Inr (None, s)
    | Some w \<Rightarrow>
        if ws_startup w \<noteq> Some composition then Inr (None, s)
        else let s' = update_ws ws (\<lambda>w. w\<lparr>ws_startup := None,
               ws_value := (ws_value w)\<lparr>w_updatedBy := actor_of_id actor, w_revision := w_revision (ws_value w) + 1\<rparr>\<rparr>) s in
          bindE (getWorkspaceByID ws s') (\<lambda>v. Inr (Some v, s')))"

definition head_of :: "db \<Rightarrow> id \<Rightarrow> int option" where
  "head_of s ws = map_option (\<lambda>w. w_headSequence (ws_value w)) (ws_of s ws)"

lemma ws_of_update_ws:
  assumes "\<And>w. w_id (ws_value (f w)) = w_id (ws_value w)"
  shows "ws_of (update_ws i f s) j = (if j = i then map_option f (ws_of s j) else ws_of s j)"
proof -
  have "ws_of (update_ws i f s) j
      = map_option (\<lambda>w. if w_id (ws_value w) = i then f w else w) (ws_of s j)"
    unfolding ws_of_def update_ws_def by (simp add: assms find_updateWhere)
  also have "\<dots> = (if j = i then map_option f (ws_of s j) else ws_of s j)"
    unfolding ws_of_def by (auto intro!: find_map_option_cong find_map_option_id)
  finally show ?thesis .
qed

end
