(* ===== verification/FacetStore.thy ===== *)
theory FacetStore
  imports Database
begin

text \<open>
  The facet tables: \<open>internal/repo/postgres/facets_repository.go\<close>. A facet keeps its position among
  the active facets of its workspace; a facet document lives inside one facet.
\<close>

section \<open>Statements\<close>

definition active_facets :: "facet_row list \<Rightarrow> facet_row list" where
  "active_facets rows = filter (\<lambda>r. fr_deletedAt r = None) rows"

definition facets_unique :: "facet_row list \<Rightarrow> bool" where
  "facets_unique rows \<longleftrightarrow> distinct (map fr_id rows) \<and> distinct (map (\<lambda>r. (fr_ws r, fr_identity r)) rows)
     \<and> distinct (map (\<lambda>r. (fr_ws r, fr_position r)) (active_facets rows))"

definition facet_row_ok :: "db \<Rightarrow> facet_row \<Rightarrow> bool" where
  "facet_row_ok s r \<longleftrightarrow> ws_of s (fr_ws r) \<noteq> None \<and> db_user s (fr_createdBy r) \<noteq> None \<and> db_user s (fr_updatedBy r) \<noteq> None"

definition facets_ok :: "db \<Rightarrow> facet_row list \<Rightarrow> bool" where
  "facets_ok s rows \<longleftrightarrow> facets_unique rows
     \<and> (\<forall>r \<in> set rows. 0 \<le> fr_position r \<and> 0 < fr_revision r \<and> facet_row_ok s r)"

definition commit_facets :: "facet_row list \<Rightarrow> db \<Rightarrow> db res" where
  "commit_facets rows s =
     failIf (\<not> facets_unique rows) unique_violation (
     failIf (\<exists>r \<in> set rows. fr_position r < 0 \<or> fr_revision r \<le> 0) check_violation (
     failIf (\<exists>r \<in> set rows. \<not> facet_row_ok s r) fk_violation (
     Inr (s\<lparr>db_facets := rows\<rparr>))))"

definition fdocs_unique :: "fdoc_row list \<Rightarrow> bool" where
  "fdocs_unique rows \<longleftrightarrow> distinct (map fd_id rows) \<and> distinct (map (\<lambda>r. (fd_facet r, fd_identity r)) rows)"

definition fdoc_row_ok :: "db \<Rightarrow> fdoc_row \<Rightarrow> bool" where
  "fdoc_row_ok s r \<longleftrightarrow> (\<exists>f \<in> set (db_facets s). fr_id f = fd_facet r \<and> fr_ws f = fd_ws r)
     \<and> ws_of s (fd_ws r) \<noteq> None \<and> db_user s (fd_createdBy r) \<noteq> None \<and> db_user s (fd_updatedBy r) \<noteq> None"

definition fdocs_ok :: "db \<Rightarrow> fdoc_row list \<Rightarrow> bool" where
  "fdocs_ok s rows \<longleftrightarrow> fdocs_unique rows \<and> (\<forall>r \<in> set rows. 0 < fd_revision r \<and> fdoc_row_ok s r)"

definition commit_fdocs :: "fdoc_row list \<Rightarrow> db \<Rightarrow> db res" where
  "commit_fdocs rows s =
     failIf (\<not> fdocs_unique rows) unique_violation (
     failIf (\<exists>r \<in> set rows. fd_revision r \<le> 0) check_violation (
     failIf (\<exists>r \<in> set rows. \<not> fdoc_row_ok s r) fk_violation (
     Inr (s\<lparr>db_fdocs := rows\<rparr>))))"

lemma commit_facets_Inr: "commit_facets rows s = Inr s' \<longleftrightarrow> facets_ok s rows \<and> s' = s\<lparr>db_facets := rows\<rparr>"
  by (auto simp: commit_facets_def facets_ok_def failIf_Inr_iff not_less not_le)

lemma commit_fdocs_Inr: "commit_fdocs rows s = Inr s' \<longleftrightarrow> fdocs_ok s rows \<and> s' = s\<lparr>db_fdocs := rows\<rparr>"
  by (auto simp: commit_fdocs_def fdocs_ok_def failIf_Inr_iff not_less not_le)

section \<open>Facets\<close>

definition documentCount :: "db \<Rightarrow> id \<Rightarrow> id \<Rightarrow> nat" where
  "documentCount s ws facet =
     length (filter (\<lambda>d. fd_ws d = ws \<and> fd_facet d = facet \<and> fd_deletedAt d = None) (db_fdocs s))"

definition scanFacet :: "db \<Rightarrow> facet_row \<Rightarrow> document res" where
  "scanFacet s r = (case (db_user s (fr_createdBy r), db_user s (fr_updatedBy r)) of
      (Some cu, Some uu) \<Rightarrow> Inr
        \<lparr>d_id = fr_id r, d_workspaceID = fr_ws r, d_type = CollectionFacets, d_identity = fr_identity r,
         d_displayName = fr_name r, d_description = None, d_folderIdentity = None,
         d_workspaceFolderIdentity = None, d_managedBy = ''user'', d_managedByID = None, d_meta = fr_meta r,
         d_data = omarshal
           [(''color'', JStr (fr_color r)), (''documentCount'', JInt (int (documentCount s (fr_ws r) (fr_id r)))),
            (''icon'', JStr (fr_icon r)), (''position'', JInt (fr_position r))],
         d_active = fr_active r, d_deletedAt = fr_deletedAt r, d_revision = fr_revision r,
         d_createdBy = actor_of cu, d_updatedBy = actor_of uu,
         d_createdAt = fr_createdAt r, d_updatedAt = fr_updatedAt r\<rparr>
    | _ \<Rightarrow> Inl RowNotFound)"

text \<open>The result rows of a query, in its order; the inner joins drop rows that do not scan.\<close>

definition scan_all :: "('r \<Rightarrow> 'a res) \<Rightarrow> 'r list \<Rightarrow> 'a list" where
  "scan_all f rows = concat (map (\<lambda>r. case f r of Inr d \<Rightarrow> [d] | Inl e \<Rightarrow> []) rows)"

text \<open>\<open>ORDER BY position, identity\<close>: two stable sorts, the less significant key first.\<close>

definition by_position :: "facet_row list \<Rightarrow> facet_row list" where
  "by_position rows = sort_key fr_position (sort_key fr_identity rows)"

definition ListFacets :: "id \<Rightarrow> bool \<Rightarrow> db \<Rightarrow> document list" where
  "ListFacets ws includeDeleted s =
     scan_all (scanFacet s)
       (sort_key (\<lambda>r. if fr_deletedAt r = None then 0 else 1 :: nat)
         (by_position (filter (\<lambda>r. fr_ws r = ws \<and> (includeDeleted \<or> fr_deletedAt r = None)) (db_facets s))))"

definition facet_by_identity :: "db \<Rightarrow> id \<Rightarrow> string \<Rightarrow> bool \<Rightarrow> facet_row option" where
  "facet_by_identity s ws identity includeDeleted =
     find (\<lambda>r. fr_ws r = ws \<and> fr_identity r = identity \<and> (includeDeleted \<or> fr_deletedAt r = None)) (db_facets s)"

definition GetFacet :: "id \<Rightarrow> string \<Rightarrow> bool \<Rightarrow> db \<Rightarrow> document res" where
  "GetFacet ws identity includeDeleted s = (case facet_by_identity s ws identity includeDeleted of
      None \<Rightarrow> Inl RowNotFound | Some r \<Rightarrow> scanFacet s r)"

definition intValue :: "json option \<Rightarrow> int" where
  "intValue v = (case v of
      Some (JFloat l) \<Rightarrow> fst (float_int l)
    | Some (JInt i) \<Rightarrow> i
    | Some (JNumber l) \<Rightarrow> fst (parse_int64 l)
    | _ \<Rightarrow> -1)"

text \<open>\<open>COALESCE(MAX(position),-1)+1\<close> over the active facets a condition selects.\<close>

definition next_position :: "(facet_row \<Rightarrow> bool) \<Rightarrow> db \<Rightarrow> int" where
  "next_position p s = fold max (map fr_position (filter p (active_facets (db_facets s)))) (-1) + 1"

definition InsertFacet :: "env \<Rightarrow> time \<Rightarrow> document \<Rightarrow> db \<Rightarrow> (document \<times> db) res" where
  "InsertFacet env now v s =
     (let data = ounmarshal (e_nf env) (d_data v);
          p0 = intValue (oget data ''position'');
          position = (if p0 < 0 then next_position (\<lambda>r. fr_ws r = d_workspaceID v) s else p0) in
      bindE (commit_facets (db_facets s @
         [\<lparr>fr_id = d_id v, fr_ws = d_workspaceID v, fr_identity = d_identity v, fr_name = d_displayName v,
           fr_icon = stringField data ''icon'', fr_color = stringField data ''color'', fr_position = position,
           fr_meta = d_meta v, fr_active = d_active v, fr_deletedAt = d_deletedAt v, fr_revision = d_revision v,
           fr_createdBy = ac_id (d_createdBy v), fr_updatedBy = ac_id (d_createdBy v),
           fr_createdAt = now, fr_updatedAt = now\<rparr>]) s) (\<lambda>s'.
      bindE (GetFacet (d_workspaceID v) (d_identity v) True s') (\<lambda>d. Inr (d, s'))))"

definition UpdateFacet :: "env \<Rightarrow> time \<Rightarrow> document \<Rightarrow> int \<Rightarrow> db \<Rightarrow> (document \<times> db) res" where
  "UpdateFacet env now v expected s =
     (let data = ounmarshal (e_nf env) (d_data v);
          hit = (\<lambda>r. fr_id r = d_id v \<and> fr_ws r = d_workspaceID v \<and> fr_revision r = expected) in
      case find hit (db_facets s) of
        None \<Rightarrow> Inl RowNotFound
      | Some current \<Rightarrow>
          failIf ((fr_identity current \<noteq> d_identity v \<or> (fr_deletedAt current = None \<and> d_deletedAt v \<noteq> None))
              \<and> documentCount s (d_workspaceID v) (d_id v) > 0)
            (Plain ''facet has active documents'') (
          let p0 = intValue (oget data ''position'');
              position = (if p0 < 0 then next_position (\<lambda>r. fr_ws r = d_workspaceID v \<and> fr_id r \<noteq> d_id v) s else p0) in
          bindE (commit_facets (updateWhere hit (\<lambda>r. r\<lparr>fr_identity := d_identity v, fr_name := d_displayName v,
             fr_icon := stringField data ''icon'', fr_color := stringField data ''color'', fr_position := position,
             fr_meta := d_meta v, fr_active := d_active v, fr_deletedAt := d_deletedAt v,
             fr_updatedBy := ac_id (d_updatedBy v), fr_updatedAt := now, fr_revision := fr_revision r + 1\<rparr>)
             (db_facets s)) s) (\<lambda>s'.
          bindE (GetFacet (d_workspaceID v) (d_identity v) True s') (\<lambda>d. Inr (d, s')))))"

section \<open>Reordering\<close>

record order_item =
  oi_identity :: string
  oi_expected :: int

definition set_mismatch :: goerr where
  "set_mismatch = Plain ''facet reorder set mismatch''"

text \<open>The validation loop; \<open>seen\<close> is the map of the code.\<close>

fun check_order :: "facet_row list \<Rightarrow> string list \<Rightarrow> order_item list \<Rightarrow> unit res" where
  "check_order current seen [] = Inr ()"
| "check_order current seen (item # items) =
     (case find (\<lambda>r. fr_identity r = oi_identity item) current of
        None \<Rightarrow> Inl set_mismatch
      | Some v \<Rightarrow>
          failIf (oi_identity item \<in> set seen) set_mismatch (
          failIf (fr_revision v \<noteq> oi_expected item) revision_conflict_text (
          check_order current (oi_identity item # seen) items)))"

text \<open>One iteration of the update loop: a facet that keeps its position keeps its revision.\<close>

definition reorder_step ::
    "time \<Rightarrow> id \<Rightarrow> id \<Rightarrow> facet_row list \<Rightarrow> nat \<times> order_item \<Rightarrow> document list \<times> db \<Rightarrow> (document list \<times> db) res" where
  "reorder_step now ws actor current pi st =
     (let position = int (fst pi); item = snd pi; changed = fst st; s = snd st in
      case find (\<lambda>r. fr_identity r = oi_identity item) current of
        None \<Rightarrow> Inl set_mismatch
      | Some v \<Rightarrow>
          let same = (fr_position v = position);
              hit = (\<lambda>r. fr_id r = fr_id v \<and> fr_ws r = ws \<and> (same \<or> fr_revision r = oi_expected item)) in
          failIf (find hit (db_facets s) = None) revision_conflict_text (
          bindE (commit_facets (updateWhere hit (\<lambda>r. if same then r\<lparr>fr_position := position\<rparr>
              else r\<lparr>fr_position := position, fr_updatedBy := actor, fr_updatedAt := now,
                     fr_revision := fr_revision r + 1\<rparr>) (db_facets s)) s) (\<lambda>s'.
          if same then Inr (changed, s')
          else bindE (GetFacet ws (oi_identity item) True s') (\<lambda>d. Inr (changed @ [d], s')))))"

definition reorder_offset :: int where "reorder_offset = 1000000"

definition ReorderFacets ::
    "time \<Rightarrow> id \<Rightarrow> order_item list \<Rightarrow> id \<Rightarrow> db \<Rightarrow> (document list \<times> db) res" where
  "ReorderFacets now ws order actor s =
     (let current = by_position (filter (\<lambda>r. fr_ws r = ws) (active_facets (db_facets s))) in
      failIf (length current \<noteq> length order) set_mismatch (
      bindE (check_order current [] order) (\<lambda>_.
      if current = [] then Inr ([], s)
      else bindE (commit_facets (updateWhere (\<lambda>r. fr_ws r = ws \<and> fr_deletedAt r = None)
               (\<lambda>r. r\<lparr>fr_position := fr_position r + reorder_offset\<rparr>) (db_facets s)) s) (\<lambda>s'.
        foldE (reorder_step now ws actor current) (zip [0..<length order] order) ([], s')))))"

definition CountActiveFacetDocuments :: "id \<Rightarrow> string \<Rightarrow> db \<Rightarrow> nat" where
  "CountActiveFacetDocuments ws facetIdentity s =
     length (filter (\<lambda>d. fd_ws d = ws \<and> fd_deletedAt d = None
        \<and> (\<exists>f \<in> set (db_facets s). fr_id f = fd_facet d \<and> fr_ws f = fd_ws d \<and> fr_identity f = facetIdentity))
       (db_fdocs s))"

section \<open>Facet documents\<close>

definition facet_of :: "db \<Rightarrow> fdoc_row \<Rightarrow> facet_row option" where
  "facet_of s d = find (\<lambda>f. fr_id f = fd_facet d \<and> fr_ws f = fd_ws d) (db_facets s)"

definition scanFacetDocument :: "db \<Rightarrow> fdoc_row \<Rightarrow> document res" where
  "scanFacetDocument s r = (case (facet_of s r, db_user s (fd_createdBy r), db_user s (fd_updatedBy r)) of
      (Some f, Some cu, Some uu) \<Rightarrow> Inr
        \<lparr>d_id = fd_id r, d_workspaceID = fd_ws r, d_type = CollectionFacetDocuments, d_identity = fd_identity r,
         d_displayName = fd_name r, d_description = fd_desc r, d_folderIdentity = None,
         d_workspaceFolderIdentity = None, d_managedBy = ''user'', d_managedByID = None, d_meta = fd_meta r,
         d_data = [(''configuration'', fd_configuration r), (''facetIdentity'', JStr (fr_identity f))],
         d_active = fd_active r, d_deletedAt = fd_deletedAt r, d_revision = fd_revision r,
         d_createdBy = actor_of cu, d_updatedBy = actor_of uu,
         d_createdAt = fd_createdAt r, d_updatedAt = fd_updatedAt r\<rparr>
    | _ \<Rightarrow> Inl RowNotFound)"

record document_filter =
  f_includeDeleted :: bool
  f_folder :: "string option"
  f_active :: "bool option"
  f_limit :: int
  f_offset :: int

definition page_of :: "int \<Rightarrow> int \<Rightarrow> 'a list \<Rightarrow> 'a list" where
  "page_of limit offset xs = take (nat limit) (drop (nat offset) xs)"

definition facet_identity_of :: "db \<Rightarrow> fdoc_row \<Rightarrow> string option" where
  "facet_identity_of s d = map_option fr_identity (facet_of s d)"

definition ListFacetDocuments :: "id \<Rightarrow> string \<Rightarrow> document_filter \<Rightarrow> db \<Rightarrow> document list" where
  "ListFacetDocuments ws facetIdentity f s =
     (let rows = sort_key fd_identity (filter (\<lambda>d. fd_ws d = ws \<and> facet_identity_of s d = Some facetIdentity
            \<and> (f_includeDeleted f \<or> fd_deletedAt d = None)
            \<and> (case f_active f of None \<Rightarrow> True | Some b \<Rightarrow> fd_active d = b)) (db_fdocs s)) in
      scan_all (scanFacetDocument s)
        (if f_limit f > 0 then page_of (f_limit f) (f_offset f) rows else rows))"

definition listAllFacetDocuments :: "id \<Rightarrow> bool \<Rightarrow> db \<Rightarrow> document list" where
  "listAllFacetDocuments ws includeDeleted s =
     scan_all (scanFacetDocument s)
       (sort_key (\<lambda>d. case facet_of s d of Some f \<Rightarrow> fr_position f | None \<Rightarrow> 0)
         (sort_key (\<lambda>d. case facet_of s d of Some f \<Rightarrow> fr_identity f | None \<Rightarrow> [])
           (sort_key fd_identity
             (filter (\<lambda>d. fd_ws d = ws \<and> (includeDeleted \<or> fd_deletedAt d = None)) (db_fdocs s)))))"

definition GetFacetDocument :: "id \<Rightarrow> string \<Rightarrow> string \<Rightarrow> bool \<Rightarrow> db \<Rightarrow> document res" where
  "GetFacetDocument ws facetIdentity identity includeDeleted s =
     (case find (\<lambda>d. fd_ws d = ws \<and> facet_identity_of s d = Some facetIdentity \<and> fd_identity d = identity
          \<and> (includeDeleted \<or> fd_deletedAt d = None)) (db_fdocs s) of
        None \<Rightarrow> Inl RowNotFound | Some r \<Rightarrow> scanFacetDocument s r)"

definition facetIdentityFromDocument :: "document \<Rightarrow> string" where
  "facetIdentityFromDocument d = stringField (d_data d) ''facetIdentity''"

definition configurationFromFacetDocument :: "document \<Rightarrow> json" where
  "configurationFromFacetDocument d = (case oget (d_data d) ''configuration'' of
      Some raw \<Rightarrow> raw
    | None \<Rightarrow> JObj [(''mode'', JStr ''inherit''), (''patch'', JObj [])])"

text \<open>The parent of a deleted document may be deleted itself.\<close>

definition parentFacet :: "document \<Rightarrow> db \<Rightarrow> facet_row res" where
  "parentFacet v s =
     (case facet_by_identity s (d_workspaceID v) (facetIdentityFromDocument v) (d_deletedAt v \<noteq> None) of
        None \<Rightarrow> Inl RowNotFound | Some f \<Rightarrow> Inr f)"

definition InsertFacetDocument :: "time \<Rightarrow> document \<Rightarrow> db \<Rightarrow> (document \<times> db) res" where
  "InsertFacetDocument now v s =
     bindE (parentFacet v s) (\<lambda>f.
     bindE (commit_fdocs (db_fdocs s @
        [\<lparr>fd_id = d_id v, fd_ws = d_workspaceID v, fd_facet = fr_id f, fd_identity = d_identity v,
          fd_name = d_displayName v, fd_desc = d_description v,
          fd_configuration = configurationFromFacetDocument v, fd_meta = d_meta v, fd_active = d_active v,
          fd_deletedAt = d_deletedAt v, fd_revision = d_revision v, fd_createdBy = ac_id (d_createdBy v),
          fd_updatedBy = ac_id (d_createdBy v), fd_createdAt = now, fd_updatedAt = now\<rparr>]) s) (\<lambda>s'.
     bindE (GetFacetDocument (d_workspaceID v) (facetIdentityFromDocument v) (d_identity v) True s') (\<lambda>d.
     Inr (d, s'))))"

definition UpdateFacetDocument :: "time \<Rightarrow> document \<Rightarrow> int \<Rightarrow> db \<Rightarrow> (document \<times> db) res" where
  "UpdateFacetDocument now v expected s =
     (let hit = (\<lambda>r. fd_id r = d_id v \<and> fd_ws r = d_workspaceID v \<and> fd_revision r = expected) in
      bindE (parentFacet v s) (\<lambda>f.
      bindE (commit_fdocs (updateWhere hit (\<lambda>r. r\<lparr>fd_facet := fr_id f, fd_identity := d_identity v,
          fd_name := d_displayName v, fd_desc := d_description v,
          fd_configuration := configurationFromFacetDocument v, fd_meta := d_meta v, fd_active := d_active v,
          fd_deletedAt := d_deletedAt v, fd_updatedBy := ac_id (d_updatedBy v), fd_updatedAt := now,
          fd_revision := fd_revision r + 1\<rparr>) (db_fdocs s)) s) (\<lambda>s'.
      failIf (find hit (db_fdocs s) = None) revision_conflict_text (
      bindE (GetFacetDocument (d_workspaceID v) (facetIdentityFromDocument v) (d_identity v) True s') (\<lambda>d.
      Inr (d, s'))))))"

end
