(* ===== verification/Versioned.thy ===== *)
theory Versioned
  imports Prelude
begin

text \<open>
  The contract of a store with optimistic locking, which the document, facet and build-profile
  repositories share: a write names the revision it was made from, succeeds on that revision only, and
  moves it to the next one.
\<close>

text \<open>Writers run one after another; a failed write changes nothing. The number of successful writes
  is counted.\<close>

fun run_writes :: "('v \<Rightarrow> int \<Rightarrow> 's \<Rightarrow> 's option) \<Rightarrow> ('v \<times> int) list \<Rightarrow> 's \<Rightarrow> nat \<times> 's" where
  "run_writes wr [] s = (0, s)"
| "run_writes wr ((v, e) # ws) s =
     (case wr v e s of
        None \<Rightarrow> run_writes wr ws s
      | Some t \<Rightarrow> (let (n, u) = run_writes wr ws t in (Suc n, u)))"

locale versioned_store =
  fixes key :: "'v \<Rightarrow> 'k"
    and rev :: "'k \<Rightarrow> 's \<Rightarrow> int option"
    and good :: "'s \<Rightarrow> bool"
    and wr :: "'v \<Rightarrow> int \<Rightarrow> 's \<Rightarrow> 's option"
  assumes write_expected: "good s \<Longrightarrow> wr v e s = Some t \<Longrightarrow> rev (key v) s = Some e"
    and write_bumps: "good s \<Longrightarrow> wr v e s = Some t \<Longrightarrow> rev k t = (if k = key v then Some (e + 1) else rev k s)"
    and write_good: "good s \<Longrightarrow> wr v e s = Some t \<Longrightarrow> good t"
begin

lemma no_lost_update:
  assumes "good s" "wr v e s = Some t" "key v' = key v"
  shows "wr v' e t = None"
proof (cases "wr v' e t")
  case (Some u)
  have "rev (key v) t = Some (e + 1)" using write_bumps [OF assms(1,2)] by simp
  moreover have "rev (key v') t = Some e" using write_expected [OF write_good [OF assms(1,2)] Some] .
  ultimately show ?thesis using assms(3) by simp
qed

lemma run_good: "good s \<Longrightarrow> good (snd (run_writes wr ws s))"
proof (induction ws arbitrary: s)
  case (Cons w ws)
  obtain v e where w: "w = (v, e)" by (cases w)
  with Cons show ?case by (auto split: option.splits prod.splits dest: write_good) (metis snd_conv write_good)
qed simp

lemma run_monotone:
  "good s \<Longrightarrow> rev k s = Some n \<Longrightarrow> \<exists>m. rev k (snd (run_writes wr ws s)) = Some m \<and> n \<le> m"
proof (induction ws arbitrary: s n)
  case (Cons w ws)
  obtain v e where w: "w = (v, e)" by (cases w)
  show ?case
  proof (cases "wr v e s")
    case None
    with Cons w show ?thesis by simp
  next
    case (Some t)
    obtain n' where n': "rev k t = Some n'" "n \<le> n'"
      using write_bumps [OF Cons.prems(1) Some, of k] write_expected [OF Cons.prems(1) Some] Cons.prems(2)
      by (auto split: if_splits)
    obtain m where "rev k (snd (run_writes wr ws t)) = Some m" "n' \<le> m"
      using Cons.IH [OF write_good [OF Cons.prems(1) Some] n'(1)] by blast
    then show ?thesis using Some w n'(2) by (auto split: prod.splits)
  qed
qed simp

text \<open>Of the writers that start from the same revision of the same entity, at most one succeeds.\<close>

lemma run_stale:
  "good s \<Longrightarrow> \<forall>(v, e') \<in> set ws. key v = k \<and> e' = e \<Longrightarrow> rev k s \<noteq> Some e \<Longrightarrow>
   run_writes wr ws s = (0, s)"
proof (induction ws)
  case (Cons w ws)
  obtain v e' where w: "w = (v, e')" by (cases w)
  have "wr v e' s = None"
    using write_expected [of s v e'] Cons.prems w by (cases "wr v e' s") auto
  with Cons w show ?case by simp
qed simp

lemma at_most_one_winner:
  "good s \<Longrightarrow> \<forall>(v, e') \<in> set ws. key v = k \<and> e' = e \<Longrightarrow> fst (run_writes wr ws s) \<le> 1"
proof (induction ws)
  case (Cons w ws)
  obtain v e' where w: "w = (v, e')" by (cases w)
  show ?case
  proof (cases "wr v e' s")
    case None
    with Cons w show ?thesis by simp
  next
    case (Some t)
    have "rev k t \<noteq> Some e" using write_bumps [of s v e' t k] Cons.prems w Some by simp
    then have "run_writes wr ws t = (0, t)"
      using write_good [of s v e' t] Cons.prems w Some by (intro run_stale) auto
    then show ?thesis using Some w by simp
  qed
qed simp

end

end
