(* ===== verification/Store.thy ===== *)
theory Store
  imports FacetStore Versioned
begin

text \<open>
  The document repository: \<open>internal/repo/postgres/documents_repository.go\<close> and
  document_repository.go, over the tables of Database. A query joins the folders, the related
  document and the two actors; an inner join drops a row it finds no partner for.
\<close>

section \<open>Reading documents\<close>

definition tableFor :: "string \<Rightarrow> unit res" where
  "tableFor kind = (if kind \<in> set DocumentCollections then Inr () else Inl (Plain ''unsupported document type''))"

text \<open>The data column of \<open>documentSelect\<close>; \<open>None\<close> when the inner join on the store fails.\<close>

definition data_column :: "db \<Rightarrow> doc_row \<Rightarrow> jobj option" where
  "data_column s r =
     (if dr_kind r = CollectionFolders then Some
        [(''color'', opt_json (dr_color r)), (''entityType'', opt_json (dr_entityType r)),
         (''icon'', opt_json (dr_icon r)), (''isRoot'', JBool (dr_isRoot r)),
         (''parentIdentity'', opt_json (joined_identity s CollectionFolders (dr_ws r) (dr_folder r))),
         (''scope'', JStr (dr_scope r))]
      else if dr_kind r = CollectionUpdates then
        (case joined_identity s CollectionStores (dr_ws r) (dr_relation r) of
           None \<Rightarrow> None
         | Some i \<Rightarrow> Some (oput ''storeIdentity'' (JStr i) (odel ''storeIdentity'' (dr_data r))))
      else if dr_kind r = CollectionVocabs then
        Some (oput ''authProfileIdentity'' (opt_json (joined_identity s CollectionAuthProfiles (dr_ws r) (dr_relation r)))
          (odel ''authProfileIdentity'' (dr_data r)))
      else Some (dr_data r))"

text \<open>The workspace folder joins on its scope; a folder has none.\<close>

definition workspace_folder_of :: "db \<Rightarrow> doc_row \<Rightarrow> string option" where
  "workspace_folder_of s r = (case dr_wfolder r of None \<Rightarrow> None
     | Some i \<Rightarrow> (case row_by_id s CollectionFolders (dr_ws r) i of
         Some f \<Rightarrow> if dr_scope f = FolderScopeWorkspace then Some (dr_identity f) else None
       | None \<Rightarrow> None))"

definition document_of :: "doc_row \<Rightarrow> string option \<Rightarrow> string option \<Rightarrow> jobj \<Rightarrow> user \<Rightarrow> user \<Rightarrow> document" where
  "document_of r folder wfolder data cu uu =
     \<lparr>d_id = dr_id r, d_workspaceID = dr_ws r, d_type = dr_kind r, d_identity = dr_identity r,
      d_displayName = dr_name r, d_description = dr_desc r, d_folderIdentity = folder,
      d_workspaceFolderIdentity = wfolder, d_managedBy = dr_managedBy r, d_managedByID = dr_managedByID r,
      d_meta = dr_meta r, d_data = data, d_active = dr_active r, d_deletedAt = dr_deletedAt r,
      d_revision = dr_revision r, d_createdBy = actor_of cu, d_updatedBy = actor_of uu,
      d_createdAt = dr_createdAt r, d_updatedAt = dr_updatedAt r\<rparr>"

definition scanDocument :: "db \<Rightarrow> doc_row \<Rightarrow> document res" where
  "scanDocument s r =
     (let folder = joined_identity s CollectionFolders (dr_ws r) (dr_folder r);
          wfolder = (if dr_kind r = CollectionFolders then None else workspace_folder_of s r) in
      if dr_kind r \<noteq> CollectionFolders \<and> wfolder = None then Inl RowNotFound
      else case (data_column s r, db_user s (dr_createdBy r), db_user s (dr_updatedBy r)) of
        (Some data, Some cu, Some uu) \<Rightarrow> Inr (document_of r folder wfolder data cu uu)
      | _ \<Rightarrow> Inl RowNotFound)"

text \<open>\<open>splitFacetDocumentIdentity\<close>: at the first slash.\<close>

definition splitFacetDocumentIdentity :: "string \<Rightarrow> (string \<times> string) option" where
  "splitFacetDocumentIdentity v =
     (let left = takeWhile (\<lambda>c. c \<noteq> CHR ''/'') v; right = drop (Suc (length left)) v in
      if CHR ''/'' \<notin> set v \<or> trim_space left = [] \<or> trim_space right = [] then None
      else Some (trim_space left, trim_space right))"

definition GetDocument :: "id \<Rightarrow> string \<Rightarrow> string \<Rightarrow> bool \<Rightarrow> db \<Rightarrow> document res" where
  "GetDocument ws kind identity includeDeleted s =
     (if kind = CollectionFacets then GetFacet ws identity includeDeleted s
      else if kind = CollectionFacetDocuments then
        (case splitFacetDocumentIdentity identity of
           None \<Rightarrow> Inl RowNotFound
         | Some (facet, document) \<Rightarrow> GetFacetDocument ws facet document includeDeleted s)
      else bindE (tableFor kind) (\<lambda>_.
        case row_by_identity s kind ws identity of
          None \<Rightarrow> Inl RowNotFound
        | Some r \<Rightarrow> if \<not> includeDeleted \<and> dr_deletedAt r \<noteq> None then Inl RowNotFound else scanDocument s r))"

definition filterSpecialDocuments :: "document list \<Rightarrow> document_filter \<Rightarrow> document list" where
  "filterSpecialDocuments vs f =
     (let filtered = filter (\<lambda>v. case f_active f of None \<Rightarrow> True | Some b \<Rightarrow> d_active v = b) vs;
          start = (if f_offset f < 0 then 0 else f_offset f);
          n = int (length filtered) in
      if start \<ge> n then []
      else let e = (if f_limit f > 0 \<and> start + f_limit f < n then start + f_limit f else n) in
        take (nat (e - start)) (drop (nat start) filtered))"

definition ListDocuments :: "id \<Rightarrow> string \<Rightarrow> document_filter \<Rightarrow> db \<Rightarrow> document list res" where
  "ListDocuments ws kind f s =
     (if kind = CollectionFacets then
        Inr (filterSpecialDocuments (ListFacets ws (f_includeDeleted f) s) f)
      else if kind = CollectionFacetDocuments then
        Inr (filterSpecialDocuments (listAllFacetDocuments ws (f_includeDeleted f) s) f)
      else bindE (tableFor kind) (\<lambda>_.
        Inr (page_of (f_limit f) (f_offset f) (scan_all (scanDocument s) (sort_key dr_identity
          (filter (\<lambda>r. dr_kind r = kind \<and> dr_ws r = ws
             \<and> (f_includeDeleted f \<or> dr_deletedAt r = None)
             \<and> (case f_folder f of None \<Rightarrow> True
                | Some i \<Rightarrow> joined_identity s CollectionFolders ws (dr_folder r) = Some i)
             \<and> (case f_active f of None \<Rightarrow> True | Some b \<Rightarrow> dr_active r = b)) (db_docs s)))))))"

definition listAllDocuments :: "id \<Rightarrow> string \<Rightarrow> bool \<Rightarrow> db \<Rightarrow> document list res" where
  "listAllDocuments ws kind includeDeleted s =
     (if kind = CollectionFacets then Inr (ListFacets ws includeDeleted s)
      else if kind = CollectionFacetDocuments then Inr (listAllFacetDocuments ws includeDeleted s)
      else bindE (tableFor kind) (\<lambda>_.
        Inr (scan_all (scanDocument s) (sort_key dr_identity
          (filter (\<lambda>r. dr_kind r = kind \<and> dr_ws r = ws \<and> (includeDeleted \<or> dr_deletedAt r = None))
            (db_docs s))))))"

text \<open>An archived document: type, identity, name, description, deletion time, revision.\<close>

record archived =
  ar_type :: string
  ar_identity :: string
  ar_name :: string
  ar_desc :: "string option"
  ar_deletedAt :: time
  ar_revision :: int

definition ListArchivedDocuments :: "id \<Rightarrow> int \<Rightarrow> int \<Rightarrow> db \<Rightarrow> archived list" where
  "ListArchivedDocuments ws limit offset s =
     page_of limit offset
       (sort_key (\<lambda>a. - ar_deletedAt a) (sort_key ar_type (sort_key ar_identity
         (concat (map (\<lambda>r. case dr_deletedAt r of
             None \<Rightarrow> []
           | Some t \<Rightarrow> if dr_ws r = ws \<and> dr_kind r \<in> set DocumentCollections \<and> dr_kind r \<noteq> CollectionFolders
               then [\<lparr>ar_type = dr_kind r, ar_identity = dr_identity r, ar_name = dr_name r,
                      ar_desc = dr_desc r, ar_deletedAt = t, ar_revision = dr_revision r\<rparr>] else [])
           (db_docs s))))))"

section \<open>Folders\<close>

definition ResolveFolder :: "id \<Rightarrow> string \<Rightarrow> string \<Rightarrow> db \<Rightarrow> id option res" where
  "ResolveFolder ws identity entityType s =
     (if trim_space identity = [] then Inr None
      else case find (\<lambda>r. dr_kind r = CollectionFolders \<and> dr_ws r = ws \<and> dr_identity r = identity
             \<and> dr_deletedAt r = None
             \<and> (if trim_space entityType = [] then dr_scope r = FolderScopeWorkspace \<and> dr_entityType r = None
                else dr_scope r = FolderScopeCollection \<and> dr_entityType r = Some entityType)) (db_docs s) of
        None \<Rightarrow> Inl RowNotFound
      | Some r \<Rightarrow> Inr (Some (dr_id r)))"

definition resolveDocumentWorkspaceFolderID :: "document \<Rightarrow> db \<Rightarrow> id option res" where
  "resolveDocumentWorkspaceFolderID d s =
     (if d_type d \<in> set [CollectionFolders, CollectionFacets, CollectionFacetDocuments] then Inr None
      else let given = trim_space (orElse (d_workspaceFolderIdentity d) []);
               identity = (if given \<noteq> [] then given else WorkspaceRootFolderIdentity) in
        ResolveFolder (d_workspaceID d) identity [] s)"

text \<open>The parent of a folder, as the database has it.\<close>

definition parent_of :: "db \<Rightarrow> id \<Rightarrow> id \<Rightarrow> id option" where
  "parent_of s ws i = (case row_by_id s CollectionFolders ws i of None \<Rightarrow> None | Some r \<Rightarrow> dr_folder r)"

text \<open>The recursive query of \<open>FolderWouldCycle\<close> walks the ancestors of \<open>i\<close>. \<open>UNION ALL\<close> does not
  remove duplicates, so the query ends on an acyclic table only; the fuel is more than the number of
  rows, and \<open>ancestors_complete\<close> (theory FolderTree) shows that it finds every ancestor.\<close>

fun ancestors :: "nat \<Rightarrow> db \<Rightarrow> id \<Rightarrow> id \<Rightarrow> id list" where
  "ancestors 0 s ws i = []"
| "ancestors (Suc n) s ws i =
     (case row_by_id s CollectionFolders ws i of
        None \<Rightarrow> []
      | Some r \<Rightarrow> i # (case dr_folder r of None \<Rightarrow> [] | Some p \<Rightarrow> ancestors n s ws p))"

definition FolderWouldCycle :: "id \<Rightarrow> id \<Rightarrow> id \<Rightarrow> db \<Rightarrow> bool" where
  "FolderWouldCycle ws folderID parentID s =
     (folderID \<in> set (ancestors (Suc (length (db_docs s))) s ws parentID))"

section \<open>Relations\<close>

definition relation_missing :: goerr where
  "relation_missing = Plain ''relation target not found''"

definition resolveActiveDocumentID :: "id \<Rightarrow> string \<Rightarrow> string \<Rightarrow> db \<Rightarrow> id res" where
  "resolveActiveDocumentID ws kind identity s = (case row_by_identity s kind ws identity of
      Some r \<Rightarrow> if dr_deletedAt r = None then Inr (dr_id r) else Inl relation_missing
    | None \<Rightarrow> Inl relation_missing)"

text \<open>\<open>resolveUpdatedDocumentRelation\<close>: a relation that keeps its target may point to a deleted one.\<close>

definition resolveUpdatedDocumentRelation :: "id \<Rightarrow> string \<Rightarrow> id \<Rightarrow> string \<Rightarrow> string \<Rightarrow> db \<Rightarrow> id res" where
  "resolveUpdatedDocumentRelation ws sourceKind sourceID targetKind identity s =
     (let current = (case row_by_id s sourceKind ws sourceID of None \<Rightarrow> None
            | Some r \<Rightarrow> (case dr_relation r of None \<Rightarrow> None | Some t \<Rightarrow> row_by_id s targetKind ws t)) in
      case current of
        Some t \<Rightarrow> if dr_identity t = identity then Inr (dr_id t) else resolveActiveDocumentID ws targetKind identity s
      | None \<Rightarrow> resolveActiveDocumentID ws targetKind identity s)"

definition relationData :: "env \<Rightarrow> jobj \<Rightarrow> string \<Rightarrow> jobj \<times> string" where
  "relationData env raw field =
     (let data = ounmarshal (e_nf env) raw in (omarshal (odel field data), stringField data field))"

definition nullableStringValue :: "jobj \<Rightarrow> string \<Rightarrow> string option" where
  "nullableStringValue data k = (if stringField data k = [] then None else Some (stringField data k))"

text \<open>The relation a row of the kind stores, and its data without the relation's identity;
  \<open>resolve\<close> finds the target.\<close>

definition relation_columns ::
    "env \<Rightarrow> string \<Rightarrow> jobj \<Rightarrow> (string \<Rightarrow> string \<Rightarrow> id res) \<Rightarrow> (jobj \<times> id option) res" where
  "relation_columns env kind data resolve =
     (if kind = CollectionUpdates then
        let (rest, i) = relationData env data ''storeIdentity'' in
        bindE (resolve CollectionStores i) (\<lambda>t. Inr (rest, Some t))
      else if kind = CollectionVocabs then
        let (rest, i) = relationData env data ''authProfileIdentity'' in
        if i = [] then Inr (rest, None)
        else bindE (resolve CollectionAuthProfiles i) (\<lambda>t. Inr (rest, Some t))
      else Inr (data, None))"

section \<open>Writing documents\<close>

text \<open>The columns both statements write; a folder's data is spread over its own columns.\<close>

definition written :: "env \<Rightarrow> document \<Rightarrow> id option \<Rightarrow> id option \<Rightarrow> jobj \<Rightarrow> id option \<Rightarrow> doc_row \<Rightarrow> doc_row" where
  "written env v folderID wfolderID data relation r =
     (let folderData = ounmarshal (e_nf env) (d_data v); isFolder = (d_type v = CollectionFolders) in
      r\<lparr>dr_identity := d_identity v, dr_name := d_displayName v, dr_desc := d_description v,
        dr_folder := folderID, dr_wfolder := wfolderID, dr_relation := relation,
        dr_scope := (if isFolder then defaultString (stringField folderData ''scope'') FolderScopeCollection else []),
        dr_entityType := (if isFolder then nullableStringValue folderData ''entityType'' else None),
        dr_isRoot := (isFolder \<and> isRoot folderData),
        dr_icon := (if isFolder then nullableStringValue folderData ''icon'' else None),
        dr_color := (if isFolder then nullableStringValue folderData ''color'' else None),
        dr_managedBy := d_managedBy v, dr_managedByID := d_managedByID v, dr_meta := d_meta v,
        dr_data := (if isFolder then [] else data), dr_active := d_active v, dr_deletedAt := d_deletedAt v\<rparr>)"

definition new_row :: "document \<Rightarrow> time \<Rightarrow> doc_row" where
  "new_row v now =
     \<lparr>dr_id = d_id v, dr_ws = d_workspaceID v, dr_kind = d_type v, dr_identity = [], dr_name = [],
      dr_desc = None, dr_folder = None, dr_wfolder = None, dr_relation = None, dr_scope = [],
      dr_entityType = None, dr_isRoot = False, dr_icon = None, dr_color = None, dr_managedBy = [],
      dr_managedByID = None, dr_meta = JNull, dr_data = [], dr_active = False, dr_deletedAt = None,
      dr_revision = d_revision v, dr_createdBy = ac_id (d_createdBy v), dr_updatedBy = ac_id (d_createdBy v),
      dr_createdAt = now, dr_updatedAt = now\<rparr>"

definition InsertDocument :: "env \<Rightarrow> time \<Rightarrow> document \<Rightarrow> id option \<Rightarrow> db \<Rightarrow> (document \<times> db) res" where
  "InsertDocument env now v folderID s =
     (if d_type v = CollectionFacets then InsertFacet env now v s
      else if d_type v = CollectionFacetDocuments then InsertFacetDocument now v s
      else
      bindE (tableFor (d_type v)) (\<lambda>_.
      bindE (resolveDocumentWorkspaceFolderID v s) (\<lambda>wfolderID.
      bindE (relation_columns env (d_type v) (d_data v)
          (\<lambda>kind i. resolveActiveDocumentID (d_workspaceID v) kind i s)) (\<lambda>(data, relation).
      bindE (insert_doc_row (written env v folderID wfolderID data relation (new_row v now)) s) (\<lambda>s'.
      bindE (GetDocument (d_workspaceID v) (d_type v) (d_identity v) True s') (\<lambda>d. Inr (d, s')))))))"

text \<open>The row an update addresses: by identifier, workspace and the expected revision.\<close>

definition addressed :: "document \<Rightarrow> int \<Rightarrow> doc_row \<Rightarrow> bool" where
  "addressed v expected r \<longleftrightarrow> dr_kind r = d_type v \<and> dr_id r = d_id v \<and> dr_ws r = d_workspaceID v
     \<and> dr_revision r = expected"

definition touched :: "id \<Rightarrow> time \<Rightarrow> doc_row \<Rightarrow> doc_row" where
  "touched actor now r =
     r\<lparr>dr_updatedBy := actor, dr_updatedAt := now, dr_revision := dr_revision r + 1\<rparr>"

definition UpdateDocument ::
    "env \<Rightarrow> time \<Rightarrow> document \<Rightarrow> int \<Rightarrow> id option \<Rightarrow> db \<Rightarrow> (document \<times> db) res" where
  "UpdateDocument env now v expected folderID s =
     (if d_type v = CollectionFacets then UpdateFacet env now v expected s
      else if d_type v = CollectionFacetDocuments then UpdateFacetDocument now v expected s
      else
      bindE (tableFor (d_type v)) (\<lambda>_.
      bindE (resolveDocumentWorkspaceFolderID v s) (\<lambda>wfolderID.
      bindE (relation_columns env (d_type v) (d_data v)
          (\<lambda>kind i. resolveUpdatedDocumentRelation (d_workspaceID v) (d_type v) (d_id v) kind i s)) (\<lambda>(data, relation).
      bindE (update_doc_rows (addressed v expected)
          (\<lambda>r. touched (ac_id (d_updatedBy v)) now (written env v folderID wfolderID data relation r)) s) (\<lambda>s'.
      failIf (find (addressed v expected) (db_docs s) = None) revision_conflict_text (
      bindE (GetDocument (d_workspaceID v) (d_type v) (d_identity v) True s') (\<lambda>d. Inr (d, s'))))))))"

text \<open>The repository of one collection: configurations take no folder.\<close>

definition documentFolderID :: "string \<Rightarrow> id option \<Rightarrow> id option" where
  "documentFolderID collection folderID = (if collection = CollectionConfigurations then None else folderID)"

definition UpdateDocumentWorkspaceFolder ::
    "time \<Rightarrow> id \<Rightarrow> string \<Rightarrow> string \<Rightarrow> id \<Rightarrow> id \<Rightarrow> int \<Rightarrow> db \<Rightarrow> (document \<times> db) res" where
  "UpdateDocumentWorkspaceFolder now ws kind identity wfolderID actor expected s =
     (let hit = (\<lambda>r. dr_kind r = kind \<and> dr_ws r = ws \<and> dr_identity r = identity \<and> dr_revision r = expected) in
      failIf (kind \<in> set [CollectionFolders, CollectionFacets, CollectionFacetDocuments])
        (Plain ''workspace folder placement is unsupported'') (
      bindE (tableFor kind) (\<lambda>_.
      bindE (update_doc_rows hit (\<lambda>r. touched actor now (r\<lparr>dr_wfolder := Some wfolderID\<rparr>)) s) (\<lambda>s'.
      failIf (find hit (db_docs s) = None) revision_conflict_text (
      bindE (GetDocument ws kind identity True s') (\<lambda>d. Inr (d, s')))))))"

text \<open>\<open>MoveFolderContents\<close>: one statement per table, in the order of the collections, then the moved
  documents are read back.\<close>

definition inside :: "string \<Rightarrow> string \<Rightarrow> id \<Rightarrow> id \<Rightarrow> doc_row \<Rightarrow> bool" where
  "inside folderScope kind ws folderID r \<longleftrightarrow>
     dr_kind r = kind \<and> dr_ws r = ws \<and> dr_deletedAt r = None
     \<and> (if kind \<noteq> CollectionFolders \<and> folderScope = FolderScopeWorkspace
        then dr_wfolder r = Some folderID else dr_folder r = Some folderID)"

definition moved_to :: "string \<Rightarrow> id option \<Rightarrow> id \<Rightarrow> time \<Rightarrow> doc_row \<Rightarrow> doc_row" where
  "moved_to folderScope parentID actor now r =
     touched actor now (if dr_kind r \<noteq> CollectionFolders \<and> folderScope = FolderScopeWorkspace
       then r\<lparr>dr_wfolder := parentID\<rparr> else r\<lparr>dr_folder := parentID\<rparr>)"

definition move_table ::
    "string \<Rightarrow> id \<Rightarrow> id \<Rightarrow> id option \<Rightarrow> id \<Rightarrow> time \<Rightarrow> string \<Rightarrow> (string \<times> string) list \<times> db
     \<Rightarrow> ((string \<times> string) list \<times> db) res" where
  "move_table folderScope ws folderID parentID actor now kind st =
     (let moved = map (\<lambda>r. (kind, dr_identity r)) (filter (inside folderScope kind ws folderID) (db_docs (snd st))) in
      bindE (update_doc_rows (inside folderScope kind ws folderID) (moved_to folderScope parentID actor now) (snd st))
        (\<lambda>s'. Inr (fst st @ moved, s')))"

definition MoveFolderContents ::
    "time \<Rightarrow> id \<Rightarrow> id \<Rightarrow> id option \<Rightarrow> id \<Rightarrow> db \<Rightarrow> (document list \<times> db) res" where
  "MoveFolderContents now ws folderID parentID actor s =
     (case row_by_id s CollectionFolders ws folderID of
        None \<Rightarrow> Inl RowNotFound
      | Some f \<Rightarrow>
          bindE (foldE (move_table (dr_scope f) ws folderID parentID actor now) DocumentCollections ([], s)) (\<lambda>(moved, s').
          bindE (foldE (\<lambda>(kind, identity) acc.
              bindE (GetDocument ws kind identity True s') (\<lambda>d. Inr (acc @ [d]))) moved []) (\<lambda>ds. Inr (ds, s'))))"

section \<open>Laws\<close>

lemma row_by_identity_unique:
  assumes "docs_unique (db_docs s)" "r \<in> set (db_docs s)"
  shows "row_by_identity s (dr_kind r) (dr_ws r) (dr_identity r) = Some r"
  unfolding row_by_identity_def
  by (rule find_unique [where k = "\<lambda>r. (dr_kind r, dr_ws r, dr_identity r)"])
     (use assms in \<open>auto simp: docs_unique_def\<close>)

lemma row_by_id_unique:
  assumes "docs_unique (db_docs s)" "r \<in> set (db_docs s)"
  shows "row_by_id s (dr_kind r) (dr_ws r) (dr_id r) = Some r"
  unfolding row_by_id_def
  by (rule find_unique [where k = "\<lambda>r. (dr_kind r, dr_id r)"]) (use assms in \<open>auto simp: docs_unique_def\<close>)

lemma docs_unique_id:
  assumes "docs_unique rows" "r \<in> set rows" "q \<in> set rows" "dr_kind r = dr_kind q" "dr_id r = dr_id q"
  shows "r = q"
  using assms by (auto simp: docs_unique_def distinct_map inj_on_def)

lemma scanDocument_fields:
  assumes "scanDocument s r = Inr d"
  shows "d_id d = dr_id r" "d_workspaceID d = dr_ws r" "d_type d = dr_kind r" "d_identity d = dr_identity r"
    "d_displayName d = dr_name r" "d_revision d = dr_revision r" "d_deletedAt d = dr_deletedAt r"
    "d_active d = dr_active r" "d_description d = dr_desc r" "d_managedBy d = dr_managedBy r"
    "d_managedByID d = dr_managedByID r" "d_meta d = dr_meta r" "ac_id (d_updatedBy d) = dr_updatedBy r"
    "data_column s r = Some (d_data d)" "d_folderIdentity d = joined_identity s CollectionFolders (dr_ws r) (dr_folder r)"
    "d_workspaceFolderIdentity d = (if dr_kind r = CollectionFolders then None else workspace_folder_of s r)"
    "d_createdAt d = dr_createdAt r"
  using assms
  by (auto simp: scanDocument_def document_of_def actor_of_def db_user_def Let_def
      split: if_splits option.splits dest: find_SomeD)

lemmas scanDocument_simps [dest] = scanDocument_fields

lemma not_facet_kind: "kind \<in> set DocumentCollections \<Longrightarrow> kind \<noteq> CollectionFacets \<and> kind \<noteq> CollectionFacetDocuments"
  by (auto simp: DocumentCollections_def collection_defs)

lemma GetDocument_Inr:
  assumes "GetDocument ws kind identity incl s = Inr d" "kind \<in> set DocumentCollections"
  obtains r where "row_by_identity s kind ws identity = Some r" "scanDocument s r = Inr d"
    "r \<in> set (db_docs s)" "dr_kind r = kind" "dr_ws r = ws" "dr_identity r = identity"
    "incl \<or> dr_deletedAt r = None"
proof -
  obtain r where r: "row_by_identity s kind ws identity = Some r" "scanDocument s r = Inr d"
      "incl \<or> dr_deletedAt r = None"
    using assms not_facet_kind [OF assms(2)]
    by (auto simp: GetDocument_def tableFor_def split: option.splits if_splits)
  moreover from r(1) have "r \<in> set (db_docs s)" "dr_kind r = kind" "dr_ws r = ws" "dr_identity r = identity"
    by (auto simp: row_by_identity_def dest: find_SomeD)
  ultimately show ?thesis using that by blast
qed

lemma written_keeps [simp]:
  "dr_id (written env v f wfo data rel r) = dr_id r" "dr_ws (written env v f wfo data rel r) = dr_ws r"
  "dr_kind (written env v f wfo data rel r) = dr_kind r" "dr_revision (written env v f wfo data rel r) = dr_revision r"
  "dr_identity (written env v f wfo data rel r) = d_identity v" "dr_folder (written env v f wfo data rel r) = f"
  "dr_deletedAt (written env v f wfo data rel r) = d_deletedAt v" "dr_active (written env v f wfo data rel r) = d_active v"
  "dr_name (written env v f wfo data rel r) = d_displayName v" "dr_createdBy (written env v f wfo data rel r) = dr_createdBy r"
  "dr_wfolder (written env v f wfo data rel r) = wfo" "dr_relation (written env v f wfo data rel r) = rel"
  "dr_createdAt (written env v f wfo data rel r) = dr_createdAt r"
  by (simp_all add: written_def Let_def)

lemma touched_keeps [simp]:
  "dr_id (touched a now r) = dr_id r" "dr_ws (touched a now r) = dr_ws r" "dr_kind (touched a now r) = dr_kind r"
  "dr_identity (touched a now r) = dr_identity r" "dr_revision (touched a now r) = dr_revision r + 1"
  "dr_folder (touched a now r) = dr_folder r" "dr_deletedAt (touched a now r) = dr_deletedAt r"
  "dr_active (touched a now r) = dr_active r" "dr_name (touched a now r) = dr_name r"
  "dr_createdBy (touched a now r) = dr_createdBy r" "dr_wfolder (touched a now r) = dr_wfolder r"
  "dr_relation (touched a now r) = dr_relation r" "dr_data (touched a now r) = dr_data r"
  "dr_scope (touched a now r) = dr_scope r" "dr_entityType (touched a now r) = dr_entityType r"
  "dr_updatedBy (touched a now r) = a" "dr_createdAt (touched a now r) = dr_createdAt r"
  by (simp_all add: touched_def)

text \<open>A successful update rewrites one row, the one with the expected revision, and reads it back.\<close>

lemma UpdateDocument_Inr:
  assumes "UpdateDocument env now v expected folderID s = Inr (d, t)" "d_type v \<in> set DocumentCollections"
  obtains r wfo data rel where
    "r \<in> set (db_docs s)" "addressed v expected r"
    "resolveDocumentWorkspaceFolderID v s = Inr wfo"
    "relation_columns env (d_type v) (d_data v)
       (\<lambda>kind i. resolveUpdatedDocumentRelation (d_workspaceID v) (d_type v) (d_id v) kind i s) = Inr (data, rel)"
    "t = s\<lparr>db_docs := updateWhere (addressed v expected)
        (\<lambda>r. touched (ac_id (d_updatedBy v)) now (written env v folderID wfo data rel r)) (db_docs s)\<rparr>"
    "docs_ok s (db_docs t)"
    "scanDocument t (touched (ac_id (d_updatedBy v)) now (written env v folderID wfo data rel r)) = Inr d"
    "touched (ac_id (d_updatedBy v)) now (written env v folderID wfo data rel r) \<in> set (db_docs t)"
proof -
  note nf = not_facet_kind [OF assms(2)]
  let ?res = "\<lambda>kind i. resolveUpdatedDocumentRelation (d_workspaceID v) (d_type v) (d_id v) kind i s"
  from assms(1) nf obtain wfo cols where wfo: "resolveDocumentWorkspaceFolderID v s = Inr wfo"
    and cols: "relation_columns env (d_type v) (d_data v) ?res = Inr cols"
    by (auto simp: UpdateDocument_def bindE_Inr_iff)
  obtain data rel where dr: "cols = (data, rel)" by (cases cols)
  let ?f = "\<lambda>r. touched (ac_id (d_updatedBy v)) now (written env v folderID wfo data rel r)"
  let ?p = "addressed v expected"
  from assms(1) nf wfo cols dr obtain t' where up: "update_doc_rows ?p ?f s = Inr t'"
    and hit: "find ?p (db_docs s) \<noteq> None"
    and get: "GetDocument (d_workspaceID v) (d_type v) (d_identity v) True t' = Inr d" and t': "t' = t"
    by (auto simp: UpdateDocument_def bindE_Inr_iff failIf_Inr_iff)
  from up have t: "t = s\<lparr>db_docs := updateWhere ?p ?f (db_docs s)\<rparr>" and ok: "docs_ok s (db_docs t)"
    using t' by (auto simp: update_doc_rows_Inr)
  from hit obtain r where "find ?p (db_docs s) = Some r" by auto
  then have r: "r \<in> set (db_docs s)" "?p r" by (auto dest: find_SomeD)
  then have mem: "?f r \<in> set (db_docs t)" using t by (force simp: set_updateWhere)
  have "docs_unique (db_docs t)" using ok by (simp add: docs_ok_def)
  from row_by_identity_unique [OF this mem] r(2)
  have "row_by_identity t (d_type v) (d_workspaceID v) (d_identity v) = Some (?f r)"
    by (simp add: addressed_def)
  with get t' assms(2) nf have "scanDocument t (?f r) = Inr d"
    by (auto simp: GetDocument_def tableFor_def)
  with that [OF r wfo _ t ok _ mem] cols dr show ?thesis by simp
qed

section \<open>Optimistic locking\<close>

definition doc_key :: "document \<Rightarrow> string \<times> id \<times> id" where
  "doc_key v = (d_type v, d_workspaceID v, d_id v)"

definition doc_rev :: "string \<times> id \<times> id \<Rightarrow> db \<Rightarrow> int option" where
  "doc_rev k s = map_option dr_revision (row_by_id s (fst k) (fst (snd k)) (snd (snd k)))"

definition doc_good :: "db \<Rightarrow> bool" where
  "doc_good s \<longleftrightarrow> docs_ok s (db_docs s)"

text \<open>The write of the document repository, for the kinds it stores in the document tables.\<close>

definition doc_write :: "env \<Rightarrow> time \<Rightarrow> document \<times> id option \<Rightarrow> int \<Rightarrow> db \<Rightarrow> db option" where
  "doc_write env now vf e s =
     (if d_type (fst vf) \<in> set DocumentCollections then
        (case UpdateDocument env now (fst vf) e (snd vf) s of Inr (d, t) \<Rightarrow> Some t | Inl _ \<Rightarrow> None)
      else None)"

lemma docs_ok_cong:
  "db_users t = db_users s \<Longrightarrow> (\<And>i. (ws_of t i = None) = (ws_of s i = None)) \<Longrightarrow> docs_ok t rows = docs_ok s rows"
  by (simp add: docs_ok_def row_fk_def db_user_def)

lemma doc_good_db_docs [simp]: "doc_good (s\<lparr>db_docs := rows\<rparr>) \<longleftrightarrow> docs_ok s rows"
  unfolding doc_good_def by (simp, rule docs_ok_cong) (simp_all add: ws_of_def)

lemma doc_rev_update:
  assumes ok: "doc_good s" and r: "r \<in> set (db_docs s)" and p: "addressed v e r"
    and f: "\<And>x. dr_id (f x) = dr_id x \<and> dr_ws (f x) = dr_ws x \<and> dr_kind (f x) = dr_kind x
      \<and> dr_revision (f x) = dr_revision x + 1"
  shows "doc_rev (doc_key v) s = Some e"
    "doc_rev k (s\<lparr>db_docs := updateWhere (addressed v e) f (db_docs s)\<rparr>) =
       (if k = doc_key v then Some (e + 1) else doc_rev k s)"
proof -
  have u: "docs_unique (db_docs s)" using ok by (simp add: doc_good_def docs_ok_def)
  have get: "row_by_id s (d_type v) (d_workspaceID v) (d_id v) = Some r"
    using row_by_id_unique [OF u r] p by (simp add: addressed_def)
  then show "doc_rev (doc_key v) s = Some e" using p by (simp add: doc_rev_def doc_key_def addressed_def)
  have find: "row_by_id (s\<lparr>db_docs := updateWhere (addressed v e) f (db_docs s)\<rparr>) kind ws i
      = map_option (\<lambda>x. if addressed v e x then f x else x) (row_by_id s kind ws i)" for kind ws i
    unfolding row_by_id_def using f by (simp add: find_updateWhere)
  show "doc_rev k (s\<lparr>db_docs := updateWhere (addressed v e) f (db_docs s)\<rparr>) =
       (if k = doc_key v then Some (e + 1) else doc_rev k s)"
  proof (cases "k = doc_key v")
    case True
    then show ?thesis using get p f by (simp add: doc_rev_def doc_key_def find addressed_def)
  next
    case False
    have "map_option (\<lambda>x. if addressed v e x then f x else x) (row_by_id s (fst k) (fst (snd k)) (snd (snd k)))
        = row_by_id s (fst k) (fst (snd k)) (snd (snd k))"
      using False unfolding row_by_id_def
      by (intro find_map_option_id) (auto simp: addressed_def doc_key_def prod_eq_iff)
    then show ?thesis using False by (simp add: doc_rev_def find)
  qed
qed

interpretation docs: versioned_store "\<lambda>vf. doc_key (fst vf)" doc_rev doc_good "doc_write env now" for env now
proof unfold_locales
  fix s t :: db and vf :: "document \<times> id option" and e :: int and k
  assume good: "doc_good s" and w: "doc_write env now vf e s = Some t"
  obtain v f where vf: "vf = (v, f)" by (cases vf)
  from w vf obtain d where up: "UpdateDocument env now v e f s = Inr (d, t)" and ty: "d_type v \<in> set DocumentCollections"
    by (auto simp: doc_write_def split: if_splits sum.splits)
  from UpdateDocument_Inr [OF up ty] obtain r wfo data rel where
    r: "r \<in> set (db_docs s)" "addressed v e r" and
    t: "t = s\<lparr>db_docs := updateWhere (addressed v e)
        (\<lambda>r. touched (ac_id (d_updatedBy v)) now (written env v f wfo data rel r)) (db_docs s)\<rparr>" and
    ok: "docs_ok s (db_docs t)" by metis
  note rv = doc_rev_update [OF good r, of "\<lambda>r. touched (ac_id (d_updatedBy v)) now (written env v f wfo data rel r)"]
  show "doc_rev (doc_key (fst vf)) s = Some e" using rv(1) vf by simp
  show "doc_rev k t = (if k = doc_key (fst vf) then Some (e + 1) else doc_rev k s)"
    using rv(2) vf t by simp
  show "doc_good t" using ok t by simp
qed

end
