(* ===== verification/History.thy ===== *)
theory History
  imports Store
begin

text \<open>
  The revision log: \<open>internal/usecase/history/recorder.go\<close> over
  \<open>internal/repo/postgres/revisions_repository.go\<close>. The batch in the context is the field
  \<open>cx_batch\<close>; the personal token of the request marks the batches it creates.
\<close>

section \<open>The repository\<close>

definition NextWorkspaceSequence :: "id \<Rightarrow> db \<Rightarrow> (int \<times> db) res" where
  "NextWorkspaceSequence ws s = (case head_of s ws of
      None \<Rightarrow> Inl no_rows
    | Some n \<Rightarrow> Inr (n + 1, update_ws ws (\<lambda>w. w\<lparr>ws_value := (ws_value w)\<lparr>w_headSequence := n + 1\<rparr>\<rparr>) s))"

definition CreateMutationBatch :: "env \<Rightarrow> ctx \<Rightarrow> id option \<Rightarrow> string \<Rightarrow> id \<Rightarrow> db \<Rightarrow> (id \<times> db) res" where
  "CreateMutationBatch env c ws kind actor s =
     (let (i, s') = fresh env s in
      failIf (\<exists>b \<in> set (db_batches s). mb_id b = i) unique_violation (
      failIf (db_user s actor = None \<or> (case ws of None \<Rightarrow> False | Some w \<Rightarrow> ws_of s w = None)) fk_violation (
      Inr (i, s'\<lparr>db_batches := db_batches s @
        [\<lparr>mb_id = i, mb_ws = ws, mb_kind = kind, mb_actor = actor, mb_token = map_option p_tokenID (cx_token c)\<rparr>]\<rparr>))))"

text \<open>\<open>r.workspace_id IS NOT DISTINCT FROM $1\<close>: the empty string stands for NULL.\<close>

definition revisions_of :: "db \<Rightarrow> string \<Rightarrow> string \<Rightarrow> id \<Rightarrow> revision list" where
  "revisions_of s ws kind docID =
     filter (\<lambda>r. rv_ws r = ws \<and> rv_type r = kind \<and> rv_docID r = docID) (db_revisions s)"

definition newest_first :: "revision list \<Rightarrow> revision list" where
  "newest_first rs = sort_key (\<lambda>r. - rv_number r) rs"

definition LatestRevision :: "string \<Rightarrow> string \<Rightarrow> id \<Rightarrow> db \<Rightarrow> revision res" where
  "LatestRevision ws kind docID s = (case newest_first (revisions_of s ws kind docID) of
      [] \<Rightarrow> Inl RowNotFound | r # rs \<Rightarrow> Inr r)"

definition operations :: "string list" where
  "operations = [''create'', ''update'', ''delete'', ''restore'', ''squash'']"

text \<open>The unique keys hold within a workspace; NULL workspaces never clash.\<close>

definition revision_clash :: "revision \<Rightarrow> revision \<Rightarrow> bool" where
  "revision_clash a b \<longleftrightarrow> rv_id a = rv_id b
     \<or> (rv_ws a \<noteq> [] \<and> rv_ws a = rv_ws b
        \<and> ((rv_type a = rv_type b \<and> rv_docID a = rv_docID b \<and> rv_number a = rv_number b)
           \<or> (rv_seq a \<noteq> None \<and> rv_seq a = rv_seq b)))"

definition InsertRevision :: "revision \<Rightarrow> db \<Rightarrow> (revision \<times> db) res" where
  "InsertRevision v s =
     failIf (\<exists>q \<in> set (db_revisions s). revision_clash q v) unique_violation (
     failIf (rv_number v \<le> 0 \<or> rv_operation v \<notin> set operations) check_violation (
     failIf (db_user s (rv_createdBy v) = None \<or> (\<forall>b \<in> set (db_batches s). mb_id b \<noteq> rv_batch v)) fk_violation (
     Inr (v, s\<lparr>db_revisions := db_revisions s @ [v]\<rparr>))))"

text \<open>The revision lists of the facet use cases.\<close>

definition ListFacetRevisions :: "id \<Rightarrow> string \<Rightarrow> db \<Rightarrow> revision list res" where
  "ListFacetRevisions ws identity s =
     bindE (GetFacet ws identity True s) (\<lambda>d. Inr (newest_first (revisions_of s ws CollectionFacets (d_id d))))"

definition getRevisionByDocumentID :: "id \<Rightarrow> string \<Rightarrow> id \<Rightarrow> id \<Rightarrow> db \<Rightarrow> revision res" where
  "getRevisionByDocumentID ws kind docID revisionID s =
     (case find (\<lambda>r. rv_id r = revisionID) (revisions_of s ws kind docID) of
        None \<Rightarrow> Inl RowNotFound | Some r \<Rightarrow> Inr r)"

definition GetFacetRevision :: "id \<Rightarrow> string \<Rightarrow> id \<Rightarrow> db \<Rightarrow> revision res" where
  "GetFacetRevision ws identity revisionID s =
     bindE (GetFacet ws identity True s) (\<lambda>d. getRevisionByDocumentID ws CollectionFacets (d_id d) revisionID s)"

definition ListFacetDocumentRevisions :: "id \<Rightarrow> string \<Rightarrow> string \<Rightarrow> db \<Rightarrow> revision list res" where
  "ListFacetDocumentRevisions ws facet identity s =
     bindE (GetFacetDocument ws facet identity True s) (\<lambda>d.
     Inr (newest_first (revisions_of s ws CollectionFacetDocuments (d_id d))))"

definition GetFacetDocumentRevision :: "id \<Rightarrow> string \<Rightarrow> string \<Rightarrow> id \<Rightarrow> db \<Rightarrow> revision res" where
  "GetFacetDocumentRevision ws facet identity revisionID s =
     bindE (GetFacetDocument ws facet identity True s) (\<lambda>d.
     getRevisionByDocumentID ws CollectionFacetDocuments (d_id d) revisionID s)"

definition GetRevision :: "id \<Rightarrow> string \<Rightarrow> string \<Rightarrow> id \<Rightarrow> db \<Rightarrow> revision res" where
  "GetRevision ws kind identity revisionID s =
     bindE (GetDocument ws kind identity True s) (\<lambda>d. getRevisionByDocumentID ws kind (d_id d) revisionID s)"

record revision_page =
  rp_items :: "revision list"
  rp_total :: nat

definition ListRevisions :: "id \<Rightarrow> string \<Rightarrow> string \<Rightarrow> int \<Rightarrow> int \<Rightarrow> db \<Rightarrow> revision_page res" where
  "ListRevisions ws kind identity limit offset s =
     bindE (GetDocument ws kind identity True s) (\<lambda>d.
     let rs = newest_first (revisions_of s ws kind (d_id d)) in
     Inr \<lparr>rp_items = (if limit > 0 then page_of limit offset rs else drop (nat offset) rs),
          rp_total = length rs\<rparr>)"

section \<open>The recorder\<close>

definition SnapshotVersion :: int where "SnapshotVersion = 1"

definition BeginBatch :: "env \<Rightarrow> ctx \<Rightarrow> id option \<Rightarrow> string \<Rightarrow> id \<Rightarrow> db \<Rightarrow> (ctx \<times> db) res" where
  "BeginBatch env c ws operation actor s =
     bindE (CreateMutationBatch env c ws operation actor s) (\<lambda>(i, s'). Inr (c\<lparr>cx_batch := Some i\<rparr>, s'))"

definition recorder_batch :: "env \<Rightarrow> ctx \<Rightarrow> id option \<Rightarrow> string \<Rightarrow> id \<Rightarrow> db \<Rightarrow> (id \<times> db) res" where
  "recorder_batch env c ws operation actor s =
     (case cx_batch c of
        Some i \<Rightarrow> if i \<noteq> [] then Inr (i, s) else CreateMutationBatch env c ws operation actor s
      | None \<Rightarrow> CreateMutationBatch env c ws operation actor s)"

definition recorder_parent :: "string \<Rightarrow> string \<Rightarrow> id \<Rightarrow> db \<Rightarrow> id option res" where
  "recorder_parent ws kind docID s = (case LatestRevision ws kind docID s of
      Inr r \<Rightarrow> Inr (Some (rv_id r))
    | Inl e \<Rightarrow> if errors_is e RowNotFound then Inr None else Inl e)"

definition RecordDocument ::
    "env \<Rightarrow> ctx \<Rightarrow> document \<Rightarrow> string \<Rightarrow> id option \<Rightarrow> db \<Rightarrow> (revision \<times> db) res" where
  "RecordDocument env c d operation restoredFrom s =
     bindE (NextWorkspaceSequence (d_workspaceID d) s) (\<lambda>(seq, s1).
     bindE (recorder_batch env c (Some (d_workspaceID d)) operation (ac_id (d_updatedBy d)) s1) (\<lambda>(batch, s2).
     bindE (recorder_parent (d_workspaceID d) (d_type d) (d_id d) s2) (\<lambda>parent.
     let (i, s3) = fresh env s2 in
     InsertRevision
       \<lparr>rv_id = i, rv_ws = d_workspaceID d, rv_type = d_type d, rv_docID = d_id d,
        rv_docIdentity = d_identity d, rv_number = d_revision d, rv_seq = Some seq, rv_operation = operation,
        rv_parent = parent, rv_restoredFrom = restoredFrom, rv_batch = batch, rv_version = SnapshotVersion,
        rv_snapshot = SnapDocument d, rv_checksum = e_ssha env (SnapDocument d),
        rv_createdBy = ac_id (d_updatedBy d)\<rparr> s3)))"

definition RecordWorkspace :: "env \<Rightarrow> ctx \<Rightarrow> workspace \<Rightarrow> string \<Rightarrow> db \<Rightarrow> db res" where
  "RecordWorkspace env c w operation s =
     bindE (NextWorkspaceSequence (w_id w) s) (\<lambda>(seq, s1).
     bindE (recorder_batch env c (Some (w_id w)) operation (ac_id (w_updatedBy w)) s1) (\<lambda>(batch, s2).
     bindE (recorder_parent (w_id w) ''workspaces'' (w_id w) s2) (\<lambda>parent.
     let (i, s3) = fresh env s2 in
     bindE (InsertRevision
       \<lparr>rv_id = i, rv_ws = w_id w, rv_type = ''workspaces'', rv_docID = w_id w,
        rv_docIdentity = w_identity w, rv_number = w_revision w, rv_seq = Some seq, rv_operation = operation,
        rv_parent = parent, rv_restoredFrom = None, rv_batch = batch, rv_version = SnapshotVersion,
        rv_snapshot = SnapWorkspace w, rv_checksum = e_ssha env (SnapWorkspace w),
        rv_createdBy = ac_id (w_updatedBy w)\<rparr> s3) (\<lambda>(r, s4). Inr s4))))"

text \<open>An integration is global: no workspace and no sequence. Its snapshot is any JSON value.\<close>

record integration =
  in_id :: id
  in_identity :: string
  in_revision :: int
  in_updatedBy :: actor
  in_value :: json

definition RecordIntegration ::
    "env \<Rightarrow> ctx \<Rightarrow> integration \<Rightarrow> string \<Rightarrow> id option \<Rightarrow> db \<Rightarrow> db res" where
  "RecordIntegration env c v operation restoredFrom s =
     bindE (recorder_batch env c None operation (ac_id (in_updatedBy v)) s) (\<lambda>(batch, s2).
     bindE (recorder_parent [] ''integrations'' (in_id v) s2) (\<lambda>parent.
     let (i, s3) = fresh env s2 in
     bindE (InsertRevision
       \<lparr>rv_id = i, rv_ws = [], rv_type = ''integrations'', rv_docID = in_id v,
        rv_docIdentity = in_identity v, rv_number = in_revision v, rv_seq = None, rv_operation = operation,
        rv_parent = parent, rv_restoredFrom = restoredFrom, rv_batch = batch, rv_version = SnapshotVersion,
        rv_snapshot = SnapOther (in_value v), rv_checksum = e_ssha env (SnapOther (in_value v)),
        rv_createdBy = ac_id (in_updatedBy v)\<rparr> s3) (\<lambda>(r, s4). Inr s4)))"

section \<open>Laws\<close>

lemma sort_key_hd:
  assumes "sort_key f xs = y # ys"
  shows "y \<in> set xs" "\<And>x. x \<in> set xs \<Longrightarrow> f y \<le> f x"
proof -
  have st: "set (y # ys) = set xs" using assms by (metis set_sort)
  then show "y \<in> set xs" by auto
  have "sorted (map f (y # ys))" using assms by (metis sorted_sort_key)
  then have "\<forall>x \<in> set ys. f y \<le> f x" by simp
  moreover fix x assume "x \<in> set xs"
  ultimately show "f y \<le> f x" using st by (metis order_refl set_ConsD)
qed

lemma LatestRevision_Inr:
  "LatestRevision ws kind i s = Inr r \<Longrightarrow>
     r \<in> set (revisions_of s ws kind i) \<and> (\<forall>q \<in> set (revisions_of s ws kind i). rv_number q \<le> rv_number r)"
  by (auto simp: LatestRevision_def newest_first_def split: list.splits dest: sort_key_hd)

lemma LatestRevision_Inl: "LatestRevision ws kind i s = Inl e \<longleftrightarrow> e = RowNotFound \<and> revisions_of s ws kind i = []"
  by (auto simp: LatestRevision_def newest_first_def split: list.splits)
     (metis length_sort list.size(3) length_0_conv)+

lemma recorder_parent_total: "\<exists>p. recorder_parent ws kind i s = Inr p"
proof (cases "LatestRevision ws kind i s")
  case (Inl e)
  then have "e = RowNotFound" using LatestRevision_Inl by blast
  with Inl show ?thesis by (simp add: recorder_parent_def)
qed (simp add: recorder_parent_def)

lemma recorder_parent_spec:
  "recorder_parent ws kind i s = Inr p \<Longrightarrow>
     (case p of None \<Rightarrow> revisions_of s ws kind i = []
      | Some q \<Rightarrow> \<exists>r \<in> set (revisions_of s ws kind i). rv_id r = q
          \<and> (\<forall>x \<in> set (revisions_of s ws kind i). rv_number x \<le> rv_number r))"
  by (auto simp: recorder_parent_def LatestRevision_Inl split: sum.splits dest!: LatestRevision_Inr)

lemma fresh_fields [simp]:
  "fst (fresh env s) = e_uuid env (db_next s)"
  "db_docs (snd (fresh env s)) = db_docs s" "db_facets (snd (fresh env s)) = db_facets s"
  "db_fdocs (snd (fresh env s)) = db_fdocs s" "db_workspaces (snd (fresh env s)) = db_workspaces s"
  "db_users (snd (fresh env s)) = db_users s" "db_batches (snd (fresh env s)) = db_batches s"
  "db_revisions (snd (fresh env s)) = db_revisions s"
  by (simp_all add: fresh_def)

text \<open>What a step of the recorder leaves alone.\<close>

definition same_data :: "db \<Rightarrow> db \<Rightarrow> bool" where
  "same_data s t \<longleftrightarrow> db_docs t = db_docs s \<and> db_facets t = db_facets s \<and> db_fdocs t = db_fdocs s
     \<and> db_users t = db_users s"

lemma same_data_refl [simp]: "same_data s s" by (simp add: same_data_def)
lemma same_data_trans: "same_data s t \<Longrightarrow> same_data t u \<Longrightarrow> same_data s u" by (simp add: same_data_def)

lemma NextWorkspaceSequence_Inr:
  assumes "NextWorkspaceSequence ws s = Inr (n, t)"
  shows "head_of s ws = Some (n - 1)" "head_of t j = (if j = ws then Some n else head_of s j)"
    "same_data s t" "db_revisions t = db_revisions s" "db_batches t = db_batches s"
proof -
  obtain w where w: "ws_of s ws = Some w" "n = w_headSequence (ws_value w) + 1"
    and t: "t = update_ws ws (\<lambda>w. w\<lparr>ws_value := (ws_value w)\<lparr>w_headSequence := n\<rparr>\<rparr>) s"
    using assms by (auto simp: NextWorkspaceSequence_def head_of_def split: option.splits)
  show "head_of s ws = Some (n - 1)" using w by (simp add: head_of_def)
  have "ws_of t j = (if j = ws then map_option (\<lambda>w. w\<lparr>ws_value := (ws_value w)\<lparr>w_headSequence := n\<rparr>\<rparr>) (ws_of s j)
      else ws_of s j)"
    unfolding t by (rule ws_of_update_ws) simp
  then show "head_of t j = (if j = ws then Some n else head_of s j)" using w by (simp add: head_of_def)
  show "same_data s t" "db_revisions t = db_revisions s" "db_batches t = db_batches s"
    by (simp_all add: t same_data_def update_ws_def)
qed

lemma recorder_batch_Inr:
  assumes "recorder_batch env c ws op actor s = Inr (i, t)"
  shows "same_data s t" "db_revisions t = db_revisions s" "db_workspaces t = db_workspaces s"
    "(case cx_batch c of Some b \<Rightarrow> b \<noteq> [] \<longrightarrow> i = b | None \<Rightarrow> True)"
  using assms
  by (auto simp: recorder_batch_def CreateMutationBatch_def fresh_def res_iffs same_data_def
      split: option.splits if_splits)

lemma head_of_cong: "db_workspaces t = db_workspaces s \<Longrightarrow> head_of t ws = head_of s ws"
  by (simp add: head_of_def ws_of_def)

text \<open>The two recorders of a workspace entity as one step. It appends one revision, which carries the next
  sequence of the workspace, the number of the entity, and the latest earlier revision as its parent.\<close>

definition append_revision ::
    "env \<Rightarrow> ctx \<Rightarrow> id \<Rightarrow> string \<Rightarrow> id \<Rightarrow> string \<Rightarrow> int \<Rightarrow> string \<Rightarrow> id option \<Rightarrow> snapshot \<Rightarrow> id \<Rightarrow> db \<Rightarrow> (revision \<times> db) res" where
  "append_revision env c ws kind docID identity number operation restoredFrom snap actor s =
     bindE (NextWorkspaceSequence ws s) (\<lambda>(seq, s1).
     bindE (recorder_batch env c (Some ws) operation actor s1) (\<lambda>(batch, s2).
     bindE (recorder_parent ws kind docID s2) (\<lambda>parent.
     let (i, s3) = fresh env s2 in
     InsertRevision
       \<lparr>rv_id = i, rv_ws = ws, rv_type = kind, rv_docID = docID, rv_docIdentity = identity, rv_number = number,
        rv_seq = Some seq, rv_operation = operation, rv_parent = parent, rv_restoredFrom = restoredFrom,
        rv_batch = batch, rv_version = SnapshotVersion, rv_snapshot = snap, rv_checksum = e_ssha env snap,
        rv_createdBy = actor\<rparr> s3)))"

lemma RecordDocument_append:
  "RecordDocument env c d op from s =
     append_revision env c (d_workspaceID d) (d_type d) (d_id d) (d_identity d) (d_revision d) op from
       (SnapDocument d) (ac_id (d_updatedBy d)) s"
  by (simp add: RecordDocument_def append_revision_def)

lemma RecordWorkspace_append:
  "RecordWorkspace env c w op s =
     bindE (append_revision env c (w_id w) ''workspaces'' (w_id w) (w_identity w) (w_revision w) op None
       (SnapWorkspace w) (ac_id (w_updatedBy w)) s) (\<lambda>(r, t). Inr t)"
  by (simp add: RecordWorkspace_def append_revision_def fresh_def bindE_def split: sum.splits prod.splits)

definition revision_matches :: "revision \<Rightarrow> env \<Rightarrow> id \<Rightarrow> string \<Rightarrow> id \<Rightarrow> string \<Rightarrow> int \<Rightarrow> string \<Rightarrow> id option \<Rightarrow> snapshot \<Rightarrow> id \<Rightarrow> bool" where
  "revision_matches r env ws kind docID identity number op from snap actor \<longleftrightarrow>
     rv_ws r = ws \<and> rv_type r = kind \<and> rv_docID r = docID \<and> rv_docIdentity r = identity \<and> rv_number r = number
     \<and> rv_operation r = op \<and> rv_restoredFrom r = from \<and> rv_snapshot r = snap \<and> rv_checksum r = e_ssha env snap
     \<and> rv_createdBy r = actor"

lemma append_revision_Inr:
  assumes "append_revision env c ws kind docID identity number op from snap actor s = Inr (r, t)"
  shows "same_data s t" "db_revisions t = db_revisions s @ [r]"
    "\<exists>n. head_of s ws = Some (n - 1) \<and> rv_seq r = Some n"
    "head_of t j = (if j = ws then rv_seq r else head_of s j)"
    "revision_matches r env ws kind docID identity number op from snap actor"
    "recorder_parent ws kind docID s = Inr (rv_parent r)"
    "\<forall>q \<in> set (db_revisions s). \<not> revision_clash q r"
    "(ws_of t j = None) = (ws_of s j = None)"
proof -
  from assms obtain seq s1 batch s2 parent where
    a: "NextWorkspaceSequence ws s = Inr (seq, s1)"
    and b: "recorder_batch env c (Some ws) op actor s1 = Inr (batch, s2)"
    and p: "recorder_parent ws kind docID s2 = Inr parent"
    by (auto simp: append_revision_def res_iffs)
  note na = NextWorkspaceSequence_Inr [OF a] and nb = recorder_batch_Inr [OF b]
  let ?r = "\<lparr>rv_id = e_uuid env (db_next s2), rv_ws = ws, rv_type = kind, rv_docID = docID,
        rv_docIdentity = identity, rv_number = number, rv_seq = Some seq, rv_operation = op,
        rv_parent = parent, rv_restoredFrom = from, rv_batch = batch, rv_version = SnapshotVersion,
        rv_snapshot = snap, rv_checksum = e_ssha env snap, rv_createdBy = actor\<rparr>"
  have ins: "InsertRevision ?r (snd (fresh env s2)) = Inr (r, t)"
    using assms a b p by (simp add: append_revision_def fresh_def)
  then have r: "r = ?r" and t: "t = (snd (fresh env s2))\<lparr>db_revisions := db_revisions s @ [r]\<rparr>"
    and cl: "\<forall>q \<in> set (db_revisions s). \<not> revision_clash q r"
    using na nb by (auto simp: InsertRevision_def failIf_Inr_iff)
  have rv: "revisions_of s2 = revisions_of s"
    using na nb by (simp add: revisions_of_def fun_eq_iff)
  have sd: "same_data s s2" using na(3) nb(1) by (rule same_data_trans)
  then show "same_data s t" by (simp add: t same_data_def fresh_def)
  show "db_revisions t = db_revisions s @ [r]" by (simp add: t)
  have "head_of t j = head_of s1 j" using nb(3) by (intro head_of_cong) (simp add: t fresh_def)
  then show "head_of t j = (if j = ws then rv_seq r else head_of s j)" using na(2) by (simp add: r)
  show "\<exists>n. head_of s ws = Some (n - 1) \<and> rv_seq r = Some n" using na(1) by (auto simp: r)
  show "recorder_parent ws kind docID s = Inr (rv_parent r)"
    using p rv by (simp add: r recorder_parent_def LatestRevision_def)
  show "\<forall>q \<in> set (db_revisions s). \<not> revision_clash q r" by (rule cl)
  show "revision_matches r env ws kind docID identity number op from snap actor"
    by (simp add: r revision_matches_def)
  have h: "(head_of u k = None) = (ws_of u k = None)" for u k by (simp add: head_of_def)
  show "(ws_of t j = None) = (ws_of s j = None)"
    using \<open>head_of t j = head_of s1 j\<close> na(1) na(2) [of j] by (simp flip: h)
qed

end
