(* ===== verification/Lifecycle.thy ===== *)
theory Lifecycle
  imports History
begin

text \<open>
  The life of a document: \<open>internal/usecase/documents\<close> (commands.go, queries.go, folders.go). Every
  command checks the context and the expected revision, writes the row and records the revision
  in one transaction; the transaction's error goes through \<open>MapConflict\<close>.
\<close>

section \<open>Folders of a document\<close>

text \<open>The folder lookup of an input and of a stored document end the same way.\<close>

definition folder_parent_identity :: "jobj \<Rightarrow> string \<Rightarrow> string" where
  "folder_parent_identity data entityType =
     (let scope = defaultString (stringField data ''scope'') FolderScopeCollection;
          parent = stringField data ''parentIdentity'' in
      if parent = [] \<and> \<not> isRoot data then
        (if scope = FolderScopeWorkspace then WorkspaceRootFolderIdentity else RootFolderIdentity entityType)
      else parent)"

definition resolveFolder :: "workspace_access \<Rightarrow> string \<Rightarrow> jobj \<Rightarrow> db \<Rightarrow> id option res" where
  "resolveFolder scope kind input s =
     (let ws = w_id (wa_workspace scope) in
      if kind = CollectionConfigurations then Inr None
      else if kind = CollectionFolders then
        let entityType = FolderEntityType (stringField input ''entityType'') in
        ResolveFolder ws (folder_parent_identity input entityType) entityType s
      else
        let given = stringField input ''folderIdentity'';
            identity = (if given = [] then RootFolderIdentity kind else given) in
        ResolveFolder ws identity (FolderEntityType kind) s)"

definition resolveDocumentWorkspaceFolder :: "workspace_access \<Rightarrow> document \<Rightarrow> db \<Rightarrow> unit res" where
  "resolveDocumentWorkspaceFolder scope d s =
     (if d_type d = CollectionFolders then Inr ()
      else let given = trim_space (orElse (d_workspaceFolderIdentity d) []);
               identity = (if given \<noteq> [] then given else WorkspaceRootFolderIdentity) in
        bindE (ResolveFolder (w_id (wa_workspace scope)) identity [] s) (\<lambda>_. Inr ()))"

definition resolveDocumentFolder :: "env \<Rightarrow> workspace_access \<Rightarrow> document \<Rightarrow> db \<Rightarrow> id option res" where
  "resolveDocumentFolder env scope d s =
     (let ws = w_id (wa_workspace scope) in
      if d_type d = CollectionConfigurations then Inr None
      else if d_type d = CollectionFolders then
        let data = ounmarshal (e_nf env) (d_data d);
            entityType = FolderEntityType (stringField data ''entityType'') in
        ResolveFolder ws (folder_parent_identity data entityType) entityType s
      else
        let given = orElse (d_folderIdentity d) [];
            identity = (if given = [] then RootFolderIdentity (d_type d) else given) in
        ResolveFolder ws identity (FolderEntityType (d_type d)) s)"

text \<open>A folder that is gone is replaced by the root; the document returns changed.\<close>

definition resolveRestoreFolders :: "env \<Rightarrow> workspace_access \<Rightarrow> document \<Rightarrow> db \<Rightarrow> (id option \<times> document) res" where
  "resolveRestoreFolders env scope d s =
     bindE (case resolveDocumentFolder env scope d s of
         Inr i \<Rightarrow> Inr (i, d)
       | Inl e \<Rightarrow>
           if errors_is e RowNotFound then
             let d' = d\<lparr>d_folderIdentity := None\<rparr> in
             bindE (resolveDocumentFolder env scope d' s) (\<lambda>i. Inr (i, d'))
           else Inl e) (\<lambda>(folderID, d1).
     case resolveDocumentWorkspaceFolder scope d1 s of
       Inr _ \<Rightarrow> Inr (folderID, d1)
     | Inl e \<Rightarrow>
         if errors_is e RowNotFound then
           let d2 = d1\<lparr>d_workspaceFolderIdentity := None\<rparr> in
           bindE (resolveDocumentWorkspaceFolder scope d2 s) (\<lambda>_. Inr (folderID, d2))
         else Inl e)"

section \<open>Commands\<close>

text \<open>The repository of one collection (document_repository.go).\<close>

definition repo_Get :: "string \<Rightarrow> id \<Rightarrow> string \<Rightarrow> bool \<Rightarrow> db \<Rightarrow> document res" where
  "repo_Get collection ws identity includeDeleted s = GetDocument ws collection identity includeDeleted s"

definition repo_Insert :: "env \<Rightarrow> time \<Rightarrow> string \<Rightarrow> document \<Rightarrow> id option \<Rightarrow> db \<Rightarrow> (document \<times> db) res" where
  "repo_Insert env now collection v folderID s =
     InsertDocument env now v (documentFolderID collection folderID) s"

definition repo_Update ::
    "env \<Rightarrow> time \<Rightarrow> string \<Rightarrow> document \<Rightarrow> int \<Rightarrow> id option \<Rightarrow> db \<Rightarrow> (document \<times> db) res" where
  "repo_Update env now collection v expected folderID s =
     UpdateDocument env now v expected (documentFolderID collection folderID) s"

definition doc_Create :: "env \<Rightarrow> ctx \<Rightarrow> string \<Rightarrow> json \<Rightarrow> db \<Rightarrow> (document \<times> db) res" where
  "doc_Create env c collection payload s =
     bindE (decodeValues payload) (\<lambda>values0.
     bindE (WriteContext c) (\<lambda>((current, u), scope).
     bindE (validateCollection collection) (\<lambda>_.
     bindE (RejectReadOnly values0) (\<lambda>_.
     let values = ensureWorkspaceFolderInput collection
           (normalizeFolderInput collection (RemoveLegacySSEFromDocument collection values0)) in
     bindE (validateDocument collection values) (\<lambda>_.
     let (newid, s1) = fresh env s;
         document = documentFromInput collection (w_id (wa_workspace scope)) values (u_id u) newid in
     bindE (resolveFolder scope collection values s1) (\<lambda>folderID.
     bindE (resolveDocumentWorkspaceFolder scope document s1) (\<lambda>_.
     MapConflict (
       bindE (repo_Insert env (cx_now c) collection document folderID s1) (\<lambda>(created, s2).
       bindE (RecordDocument env c created ''create'' None s2) (\<lambda>(_, s3).
       bindE (repo_Get collection (w_id (wa_workspace scope)) (d_identity created) True s3) (\<lambda>d.
       Inr (d, s3))))))))))))"

text \<open>The guards every command on an existing document starts with.\<close>

definition existing_document ::
    "ctx \<Rightarrow> string \<Rightarrow> string \<Rightarrow> int \<Rightarrow> id \<Rightarrow> db \<Rightarrow> document res" where
  "existing_document c collection identity expected ws s =
     bindE (MapNotFound (repo_Get collection ws identity True s)) (\<lambda>existing.
     failIf (d_revision existing \<noteq> expected) RevisionConflict (Inr existing))"

definition check_parent :: "string \<Rightarrow> document \<Rightarrow> id option \<Rightarrow> id \<Rightarrow> db \<Rightarrow> unit res" where
  "check_parent collection existing folderID ws s =
     (if collection = CollectionFolders then
        (case folderID of
           None \<Rightarrow> Inr ()
         | Some f \<Rightarrow>
             failIf (f = d_id existing) (InvalidInput ''folder_self_parent'') (
             failIf (FolderWouldCycle ws (d_id existing) f s) (InvalidInput ''folder_cycle'') (Inr ())))
      else Inr ())"

definition doc_Patch ::
    "env \<Rightarrow> ctx \<Rightarrow> string \<Rightarrow> string \<Rightarrow> json \<Rightarrow> int \<Rightarrow> db \<Rightarrow> (document \<times> db) res" where
  "doc_Patch env c collection identity payload expected s =
     bindE (decodeValues payload) (\<lambda>patch0.
     bindE (WriteContext c) (\<lambda>((current, u), scope).
     let ws = w_id (wa_workspace scope) in
     failIf (expected \<le> 0) PreconditionRequired (
     bindE (RejectReadOnly patch0) (\<lambda>_.
     let patch = normalizeFolderInput collection (RemoveLegacySSEFromDocument collection patch0) in
     bindE (existing_document c collection identity expected ws s) (\<lambda>existing.
     failIf (collection = CollectionFolders \<and> isSystemFolder (e_nf env) existing)
       (Conflict ''system_folder_immutable'') (
     bindE (if collection = CollectionFolders then validateFolderScopePatch (e_nf env) existing patch else Inr ()) (\<lambda>_.
     let next = applyPatch (e_nf env) existing patch (u_id u) in
     bindE (validateDocument collection (documentAsInput (e_nf env) next)) (\<lambda>_.
     if checksumContent (e_sha env) existing = checksumContent (e_sha env) next then Inr (existing, s)
     else
     bindE (resolveDocumentFolder env scope next s) (\<lambda>folderID.
     bindE (resolveDocumentWorkspaceFolder scope next s) (\<lambda>_.
     bindE (check_parent collection existing folderID ws s) (\<lambda>_.
     MapConflict (
       bindE (repo_Update env (cx_now c) collection next expected folderID s) (\<lambda>(updated, s1).
       bindE (RecordDocument env c updated ''update'' None s1) (\<lambda>(_, s2).
       Inr (updated, s2)))))))))))))))"

text \<open>Deleting a folder first moves its contents to its parent, in a batch of the deletion.\<close>

definition move_folder_out ::
    "env \<Rightarrow> ctx \<Rightarrow> id \<Rightarrow> id \<Rightarrow> id option \<Rightarrow> id \<Rightarrow> db \<Rightarrow> (ctx \<times> db) res" where
  "move_folder_out env c ws folder parentID actor s =
     bindE (BeginBatch env c (Some ws) ''delete'' actor s) (\<lambda>(c1, s1).
     bindE (MoveFolderContents (cx_now c) ws folder parentID actor s1) (\<lambda>(moved, s2).
     bindE (foldE (\<lambda>d st. bindE (RecordDocument env c1 d ''update'' None st) (\<lambda>(_, st'). Inr st')) moved s2) (\<lambda>s3.
     Inr (c1, s3))))"

definition clear_startup :: "env \<Rightarrow> ctx \<Rightarrow> id \<Rightarrow> id \<Rightarrow> id \<Rightarrow> db \<Rightarrow> db res" where
  "clear_startup env c ws composition actor s =
     bindE (ClearStartupComposition ws composition actor s) (\<lambda>(cleared, s1).
     case cleared of None \<Rightarrow> Inr s1 | Some w \<Rightarrow> RecordWorkspace env c w ''update'' s1)"

definition doc_Delete :: "env \<Rightarrow> ctx \<Rightarrow> string \<Rightarrow> string \<Rightarrow> int \<Rightarrow> db \<Rightarrow> (document \<times> db) res" where
  "doc_Delete env c collection identity expected s =
     bindE (WriteContext c) (\<lambda>((current, u), scope).
     let ws = w_id (wa_workspace scope) in
     failIf (expected \<le> 0) PreconditionRequired (
     bindE (existing_document c collection identity expected ws s) (\<lambda>existing.
     if d_deletedAt existing \<noteq> None then Inr (existing, s)
     else
     failIf (collection = CollectionFolders \<and> isSystemFolder (e_nf env) existing)
       (Conflict ''system_folder_immutable'') (
     let next = existing\<lparr>d_deletedAt := Some (cx_now c), d_active := False, d_updatedBy := actor_of_id (u_id u)\<rparr> in
     bindE (resolveDocumentFolder env scope next s) (\<lambda>folderID.
     MapConflict (
       bindE (if collection = CollectionFolders
              then move_folder_out env c ws (d_id existing) folderID (u_id u) s else Inr (c, s)) (\<lambda>(c1, s1).
       bindE (repo_Update env (cx_now c) collection next expected folderID s1) (\<lambda>(updated, s2).
       bindE (if collection = CollectionCompositions
              then clear_startup env c1 ws (d_id existing) (u_id u) s2 else Inr s2) (\<lambda>s3.
       bindE (RecordDocument env c1 updated ''delete'' None s3) (\<lambda>(_, s4).
       Inr (updated, s4)))))))))))"

definition doc_Restore :: "env \<Rightarrow> ctx \<Rightarrow> string \<Rightarrow> string \<Rightarrow> int \<Rightarrow> db \<Rightarrow> (document \<times> db) res" where
  "doc_Restore env c collection identity expected s =
     bindE (WriteContext c) (\<lambda>((current, u), scope).
     let ws = w_id (wa_workspace scope) in
     failIf (expected \<le> 0) PreconditionRequired (
     bindE (existing_document c collection identity expected ws s) (\<lambda>existing.
     if d_deletedAt existing = None then Inr (existing, s)
     else
     let next0 = existing\<lparr>d_deletedAt := None, d_active := True, d_updatedBy := actor_of_id (u_id u)\<rparr>;
         next = (if collection = CollectionFolders then
             next0\<lparr>d_data := omarshal (odel ''parentIdentity'' (ounmarshal (e_nf env) (d_data next0))),
                   d_folderIdentity := None\<rparr>
           else next0) in
     bindE (resolveRestoreFolders env scope next s) (\<lambda>(folderID, next').
     MapConflict (
       bindE (repo_Update env (cx_now c) collection next' expected folderID s) (\<lambda>(updated, s1).
       bindE (RecordDocument env c updated ''restore'' None s1) (\<lambda>(_, s2).
       Inr (updated, s2))))))))"

section \<open>Queries\<close>

definition clamp_limit :: "int \<Rightarrow> int \<Rightarrow> int" where
  "clamp_limit maximum limit = (if limit \<le> 0 \<or> limit > maximum then 100 else limit)"

definition doc_List :: "ctx \<Rightarrow> string \<Rightarrow> document_filter \<Rightarrow> db \<Rightarrow> document list res" where
  "doc_List c collection f s =
     bindE (ctx_Access c) (\<lambda>scope.
     bindE (validateCollection collection) (\<lambda>_.
     ListDocuments (w_id (wa_workspace scope)) collection (f\<lparr>f_limit := clamp_limit 1000 (f_limit f)\<rparr>) s))"

definition doc_Get :: "ctx \<Rightarrow> string \<Rightarrow> string \<Rightarrow> bool \<Rightarrow> db \<Rightarrow> document res" where
  "doc_Get c collection identity includeDeleted s =
     bindE (ctx_Access c) (\<lambda>scope.
     bindE (validateCollection collection) (\<lambda>_.
     MapNotFound (repo_Get collection (w_id (wa_workspace scope)) identity includeDeleted s)))"

record archive_page =
  ap_items :: "archived list"
  ap_next :: "int option"

definition ListArchive :: "ctx \<Rightarrow> int \<Rightarrow> int \<Rightarrow> db \<Rightarrow> archive_page res" where
  "ListArchive c limit0 offset0 s =
     bindE (ctx_Access c) (\<lambda>scope.
     let limit = clamp_limit 200 limit0; offset = (if offset0 < 0 then 0 else offset0);
         items = ListArchivedDocuments (w_id (wa_workspace scope)) (limit + 1) offset s in
     Inr (if int (length items) > limit
          then \<lparr>ap_items = take (nat limit) items, ap_next = Some (offset + limit)\<rparr>
          else \<lparr>ap_items = items, ap_next = None\<rparr>))"

end
