(* ===== verification/Facets.thy ===== *)
theory Facets
  imports Lifecycle
begin

text \<open>
  The facet use cases: \<open>internal/usecase/facets/usecase.go\<close>. A facet classifies documents; its facet
  documents contribute configuration. Both live outside the generic document lifecycle, with their
  own tables, but share the revision log. A Go \<open>map[string]any\<close> that may be nil is an option.
\<close>

section \<open>Inputs\<close>

record facet_create =
  fci_identity :: string
  fci_displayName :: string
  fci_icon :: string
  fci_color :: string
  fci_meta :: "jobj option"

record facet_patch =
  fpi_identity :: "string option"
  fpi_displayName :: "string option"
  fpi_icon :: "string option"
  fpi_color :: "string option"
  fpi_meta :: "jobj option option"

record fdoc_create =
  dci_identity :: string
  dci_displayName :: string
  dci_description :: "string option"
  dci_configuration :: "jobj option"
  dci_meta :: "jobj option"
  dci_active :: "bool option"

record fdoc_patch =
  dpi_identity :: "string option"
  dpi_displayName :: "string option"
  dpi_description :: "string option"
  dpi_configuration :: "jobj option option"
  dpi_meta :: "jobj option option"
  dpi_active :: "bool option"

text \<open>\<open>mustJSON\<close> of a map: a nil map prints as null.\<close>

definition map_value :: "jobj option \<Rightarrow> json" where
  "map_value m = (case m of None \<Rightarrow> JNull | Some x \<Rightarrow> JObj x)"

definition normalizeFacetCreate :: "facet_create \<Rightarrow> facet_create" where
  "normalizeFacetCreate input =
     input\<lparr>fci_identity := trim_space (fci_identity input), fci_displayName := trim_space (fci_displayName input),
       fci_icon := trim_space (fci_icon input), fci_color := trim_space (fci_color input),
       fci_meta := Some (orElse (fci_meta input) [])\<rparr>"

definition inherit_configuration :: jobj where
  "inherit_configuration = [(''mode'', JStr ''inherit''), (''patch'', JObj [])]"

definition normalizeFacetDocumentCreate :: "fdoc_create \<Rightarrow> fdoc_create" where
  "normalizeFacetDocumentCreate input =
     input\<lparr>dci_identity := trim_space (dci_identity input), dci_displayName := trim_space (dci_displayName input),
       dci_configuration := Some (orElse (dci_configuration input) inherit_configuration),
       dci_meta := Some (orElse (dci_meta input) [])\<rparr>"

definition normalizeOptional :: "string option \<Rightarrow> string option" where
  "normalizeOptional v = (case v of None \<Rightarrow> None
     | Some x \<Rightarrow> (let t = trim_space x in if t = [] then None else Some t))"

text \<open>\<open>dataMap\<close> of a raw value: whatever is not an object leaves an empty map.\<close>

definition rawObject :: "(string \<Rightarrow> string) \<Rightarrow> json \<Rightarrow> jobj" where
  "rawObject nf raw = (case raw of JObj m \<Rightarrow> ounmarshal nf m | _ \<Rightarrow> [])"

definition dataMap :: "(string \<Rightarrow> string) \<Rightarrow> jobj \<Rightarrow> jobj" where
  "dataMap nf raw = ounmarshal nf raw"

section \<open>Validation\<close>

definition validateFacetIdentity :: "string \<Rightarrow> unit res" where
  "validateFacetIdentity v =
     (let n = length (trim_space v) in
      failIf (n = 0) (InvalidInput ''identity_required'') (
      failIf (n > 160) (InvalidInput ''identity_too_long'') (Inr ())))"

definition iconTokenPattern :: "string \<Rightarrow> bool" where
  "iconTokenPattern s = (case s of [] \<Rightarrow> False
     | c # r \<Rightarrow> is_upper c \<and> list_all (\<lambda>d. is_upper d \<or> is_lower d \<or> is_digit d) r)"

definition is_hex :: "char \<Rightarrow> bool" where
  "is_hex c \<longleftrightarrow> is_digit c \<or> (CHR ''a'' \<le> c \<and> c \<le> CHR ''f'')"

definition colorPattern :: "string \<Rightarrow> bool" where
  "colorPattern s = (case s of [] \<Rightarrow> False | c # r \<Rightarrow> c = CHR ''#'' \<and> length r = 6 \<and> list_all is_hex r)"

definition validateFacet :: "string \<Rightarrow> string \<Rightarrow> string \<Rightarrow> string \<Rightarrow> jobj \<Rightarrow> unit res" where
  "validateFacet identity displayName icon color meta =
     bindE (validateFacetIdentity identity) (\<lambda>_.
     failIf (displayName = [] \<or> length displayName > 255) (InvalidInput ''display_name_invalid'') (
     failIf (length icon > 80 \<or> \<not> iconTokenPattern icon) (InvalidInput ''facet_icon_invalid'') (
     failIf (\<not> colorPattern color) (InvalidInput ''facet_color_invalid'') (
     ValidateSecrets (JObj meta)))))"

definition facet_configuration_invalid :: goerr where
  "facet_configuration_invalid = InvalidInput ''facet_configuration_invalid''"

definition validate_contribution :: "jobj \<Rightarrow> unit res" where
  "validate_contribution configuration =
     (let mode = orElse (as_str (oget configuration ''mode'')) [] in
      if mode = ''inherit'' then
        failIf (as_obj (oget configuration ''patch'') = None) facet_configuration_invalid (Inr ())
      else if mode = ''replace'' then
        (case as_obj (oget configuration ''value'') of
           None \<Rightarrow> Inl facet_configuration_invalid
         | Some m \<Rightarrow> failIf (ValidateValuesShape (JObj m) \<noteq> Inr ()) facet_configuration_invalid (Inr ()))
      else Inl facet_configuration_invalid)"

definition validateFacetDocument :: "string \<Rightarrow> string \<Rightarrow> jobj \<Rightarrow> jobj \<Rightarrow> unit res" where
  "validateFacetDocument identity displayName configuration meta =
     bindE (validateFacetIdentity identity) (\<lambda>_.
     failIf (displayName = [] \<or> length displayName > 255) (InvalidInput ''display_name_invalid'') (
     bindE (validate_contribution configuration) (\<lambda>_.
     bindE (ValidateSecrets (JObj configuration)) (\<lambda>_.
     ValidateSecrets (JObj meta)))))"

text \<open>The content that the no-op comparison hashes.\<close>

definition facet_content_of :: "document \<Rightarrow> facet_content" where
  "facet_content_of d =
     \<lparr>fc_identity = d_identity d, fc_displayName = d_displayName d, fc_description = d_description d,
      fc_meta = d_meta d, fc_data = d_data d, fc_active = d_active d, fc_deletedAt = d_deletedAt d\<rparr>"

definition checksumDocument :: "env \<Rightarrow> document \<Rightarrow> string" where
  "checksumDocument env d = e_fsha env (facet_content_of d)"

section \<open>Facets\<close>

definition facet_List :: "ctx \<Rightarrow> bool \<Rightarrow> db \<Rightarrow> document list res" where
  "facet_List c includeDeleted s =
     bindE (ctx_Access c) (\<lambda>scope. Inr (ListFacets (w_id (wa_workspace scope)) includeDeleted s))"

definition facet_Get :: "ctx \<Rightarrow> string \<Rightarrow> bool \<Rightarrow> db \<Rightarrow> document res" where
  "facet_Get c identity includeDeleted s =
     bindE (ctx_Access c) (\<lambda>scope.
     MapNotFound (GetFacet (w_id (wa_workspace scope)) (trim_space identity) includeDeleted s))"

text \<open>The transaction of every change: write the row, then log what was written.\<close>

definition write_facet :: "env \<Rightarrow> ctx \<Rightarrow> document \<Rightarrow> int \<Rightarrow> string \<Rightarrow> id option \<Rightarrow> db \<Rightarrow> (document \<times> db) res" where
  "write_facet env c v expected operation from s =
     MapConflict (
       bindE (UpdateFacet env (cx_now c) v expected s) (\<lambda>(updated, s1).
       bindE (RecordDocument env c updated operation from s1) (\<lambda>(_, s2).
       Inr (updated, s2))))"

definition new_facet :: "id \<Rightarrow> id \<Rightarrow> id \<Rightarrow> facet_create \<Rightarrow> document" where
  "new_facet i ws actor input =
     \<lparr>d_id = i, d_workspaceID = ws, d_type = CollectionFacets, d_identity = fci_identity input,
      d_displayName = fci_displayName input, d_description = None, d_folderIdentity = None,
      d_workspaceFolderIdentity = None, d_managedBy = ''user'', d_managedByID = None,
      d_meta = marshal (map_value (fci_meta input)),
      d_data = omarshal [(''color'', JStr (fci_color input)), (''icon'', JStr (fci_icon input)), (''position'', JInt (-1))],
      d_active = True, d_deletedAt = None, d_revision = 1,
      d_createdBy = actor_of_id actor, d_updatedBy = actor_of_id actor, d_createdAt = 0, d_updatedAt = 0\<rparr>"

definition facet_Create :: "env \<Rightarrow> ctx \<Rightarrow> facet_create \<Rightarrow> db \<Rightarrow> (document \<times> db) res" where
  "facet_Create env c input0 s =
     bindE (WriteContext c) (\<lambda>((current, u), scope).
     let input = normalizeFacetCreate input0 in
     bindE (validateFacet (fci_identity input) (fci_displayName input) (fci_icon input) (fci_color input)
         (orElse (fci_meta input) [])) (\<lambda>_.
     let (newid, s1) = fresh env s in
     MapConflict (
       bindE (InsertFacet env (cx_now c) (new_facet newid (w_id (wa_workspace scope)) (u_id u) input) s1) (\<lambda>(created, s2).
       bindE (RecordDocument env c created ''create'' None s2) (\<lambda>(_, s3).
       Inr (created, s3))))))"

text \<open>The guards every command on an existing facet starts with.\<close>

definition existing_facet :: "id \<Rightarrow> string \<Rightarrow> int \<Rightarrow> db \<Rightarrow> document res" where
  "existing_facet ws identity expected s =
     failIf (expected \<le> 0) PreconditionRequired (
     bindE (MapNotFound (GetFacet ws (trim_space identity) True s)) (\<lambda>existing.
     failIf (d_revision existing \<noteq> expected) RevisionConflict (Inr existing)))"

definition documents_inside :: "string \<Rightarrow> nat \<Rightarrow> goerr" where
  "documents_inside code n = WithDetails (Conflict code) [(''documentCount'', JInt (int n))]"

definition put_opt :: "string \<Rightarrow> string option \<Rightarrow> jobj \<Rightarrow> jobj" where
  "put_opt k v m = (case v of None \<Rightarrow> m | Some t \<Rightarrow> oput k (JStr (trim_space t)) m)"

definition facet_Patch :: "env \<Rightarrow> ctx \<Rightarrow> string \<Rightarrow> facet_patch \<Rightarrow> int \<Rightarrow> db \<Rightarrow> (document \<times> db) res" where
  "facet_Patch env c identity input expected s =
     bindE (WriteContext c) (\<lambda>((current, u), scope).
     let ws = w_id (wa_workspace scope) in
     bindE (existing_facet ws identity expected s) (\<lambda>existing.
     let data = put_opt ''color'' (fpi_color input) (put_opt ''icon'' (fpi_icon input) (dataMap (e_nf env) (d_data existing)));
         next = existing\<lparr>d_identity := (case fpi_identity input of None \<Rightarrow> d_identity existing | Some x \<Rightarrow> trim_space x),
           d_displayName := (case fpi_displayName input of None \<Rightarrow> d_displayName existing | Some x \<Rightarrow> trim_space x),
           d_meta := (case fpi_meta input of None \<Rightarrow> d_meta existing | Some x \<Rightarrow> marshal (map_value x))\<rparr>;
         count = CountActiveFacetDocuments ws (d_identity existing) s in
     failIf (d_identity next \<noteq> d_identity existing \<and> count > 0) (documents_inside ''facet_identity_locked'' count) (
     bindE (validateFacet (d_identity next) (d_displayName next) (trimmed (oget data ''icon''))
         (trimmed (oget data ''color'')) (rawObject (e_nf env) (d_meta next))) (\<lambda>_.
     let next' = next\<lparr>d_data := omarshal (odel ''documentCount'' data), d_updatedBy := actor_of_id (u_id u)\<rparr> in
     if checksumDocument env existing = checksumDocument env next' then Inr (existing, s)
     else write_facet env c next' expected ''update'' None s))))"

definition facet_Delete :: "env \<Rightarrow> ctx \<Rightarrow> string \<Rightarrow> int \<Rightarrow> db \<Rightarrow> (document \<times> db) res" where
  "facet_Delete env c identity expected s =
     bindE (WriteContext c) (\<lambda>((current, u), scope).
     let ws = w_id (wa_workspace scope) in
     bindE (existing_facet ws identity expected s) (\<lambda>existing.
     if d_deletedAt existing \<noteq> None then Inr (existing, s)
     else
     let count = CountActiveFacetDocuments ws (d_identity existing) s in
     failIf (count > 0) (documents_inside ''facet_not_empty'' count) (
     write_facet env c
       (existing\<lparr>d_deletedAt := Some (cx_now c), d_active := False, d_updatedBy := actor_of_id (u_id u)\<rparr>)
       expected ''delete'' None s)))"

definition facet_Restore :: "env \<Rightarrow> ctx \<Rightarrow> string \<Rightarrow> int \<Rightarrow> db \<Rightarrow> (document \<times> db) res" where
  "facet_Restore env c identity expected s =
     bindE (WriteContext c) (\<lambda>((current, u), scope).
     bindE (existing_facet (w_id (wa_workspace scope)) identity expected s) (\<lambda>existing.
     if d_deletedAt existing = None then Inr (existing, s)
     else
     let data = odel ''documentCount'' (oput ''position'' (JInt (-1)) (dataMap (e_nf env) (d_data existing))) in
     write_facet env c
       (existing\<lparr>d_data := omarshal data, d_deletedAt := None, d_active := True, d_updatedBy := actor_of_id (u_id u)\<rparr>)
       expected ''restore'' None s))"

text \<open>The validation loop of \<open>Reorder\<close>: it trims the identities in place.\<close>

fun trim_order :: "string list \<Rightarrow> order_item list \<Rightarrow> order_item list res" where
  "trim_order seen [] = Inr []"
| "trim_order seen (item # items) =
     (let i = trim_space (oi_identity item) in
      bindE (validateFacetIdentity i) (\<lambda>_.
      failIf (oi_expected item \<le> 0) PreconditionRequired (
      failIf (i \<in> set seen) (InvalidInput ''facet_reorder_duplicate'') (
      bindE (trim_order (i # seen) items) (\<lambda>rest.
      Inr (item\<lparr>oi_identity := i\<rparr> # rest))))))"

definition reorder_error :: "'a res \<Rightarrow> 'a res" where
  "reorder_error r = (case r of
      Inl e \<Rightarrow> if contains_sub (to_lower (err_text e)) ''set mismatch''
              then Inl (Conflict ''facet_reorder_set_mismatch'') else MapConflict r
    | Inr v \<Rightarrow> Inr v)"

definition record_update :: "env \<Rightarrow> ctx \<Rightarrow> document \<Rightarrow> db \<Rightarrow> db res" where
  "record_update env c d s = bindE (RecordDocument env c d ''update'' None s) (\<lambda>(_, s'). Inr s')"

definition facet_Reorder :: "env \<Rightarrow> ctx \<Rightarrow> order_item list \<Rightarrow> db \<Rightarrow> (document list \<times> db) res" where
  "facet_Reorder env c order s =
     bindE (WriteContext c) (\<lambda>((current, u), scope).
     let ws = w_id (wa_workspace scope) in
     failIf (length order > 1000) (InvalidInput ''facet_reorder_too_large'') (
     bindE (trim_order [] order) (\<lambda>items.
     reorder_error (
       bindE (ReorderFacets (cx_now c) ws items (u_id u) s) (\<lambda>(changed, s1).
       bindE (if changed = [] then Inr (c, s1) else BeginBatch env c (Some ws) ''update'' (u_id u) s1) (\<lambda>(c1, s2).
       bindE (foldE (record_update env c1) changed s2) (\<lambda>s3.
       Inr (ListFacets ws False s3, s3))))))))"

section \<open>Facet documents\<close>

definition fdoc_List :: "ctx \<Rightarrow> string \<Rightarrow> document_filter \<Rightarrow> db \<Rightarrow> document list res" where
  "fdoc_List c facetIdentity f s =
     bindE (ctx_Access c) (\<lambda>scope.
     let ws = w_id (wa_workspace scope) in
     bindE (MapNotFound (GetFacet ws (trim_space facetIdentity) True s)) (\<lambda>_.
     Inr (ListFacetDocuments ws (trim_space facetIdentity) (f\<lparr>f_limit := clamp_limit 500 (f_limit f)\<rparr>) s)))"

definition fdoc_Get :: "ctx \<Rightarrow> string \<Rightarrow> string \<Rightarrow> bool \<Rightarrow> db \<Rightarrow> document res" where
  "fdoc_Get c facetIdentity identity includeDeleted s =
     bindE (ctx_Access c) (\<lambda>scope.
     MapNotFound (GetFacetDocument (w_id (wa_workspace scope)) (trim_space facetIdentity) (trim_space identity)
       includeDeleted s))"

definition write_fdoc :: "env \<Rightarrow> ctx \<Rightarrow> document \<Rightarrow> int \<Rightarrow> string \<Rightarrow> id option \<Rightarrow> db \<Rightarrow> (document \<times> db) res" where
  "write_fdoc env c v expected operation from s =
     MapConflict (
       bindE (UpdateFacetDocument (cx_now c) v expected s) (\<lambda>(updated, s1).
       bindE (RecordDocument env c updated operation from s1) (\<lambda>(_, s2).
       Inr (updated, s2))))"

definition new_fdoc :: "id \<Rightarrow> id \<Rightarrow> id \<Rightarrow> string \<Rightarrow> fdoc_create \<Rightarrow> document" where
  "new_fdoc i ws actor facetIdentity input =
     \<lparr>d_id = i, d_workspaceID = ws, d_type = CollectionFacetDocuments, d_identity = dci_identity input,
      d_displayName = dci_displayName input, d_description = normalizeOptional (dci_description input),
      d_folderIdentity = None, d_workspaceFolderIdentity = None, d_managedBy = ''user'', d_managedByID = None,
      d_meta = marshal (map_value (dci_meta input)),
      d_data = omarshal [(''configuration'', map_value (dci_configuration input)), (''facetIdentity'', JStr facetIdentity)],
      d_active = orElse (dci_active input) True, d_deletedAt = None, d_revision = 1,
      d_createdBy = actor_of_id actor, d_updatedBy = actor_of_id actor, d_createdAt = 0, d_updatedAt = 0\<rparr>"

definition fdoc_Create :: "env \<Rightarrow> ctx \<Rightarrow> string \<Rightarrow> fdoc_create \<Rightarrow> db \<Rightarrow> (document \<times> db) res" where
  "fdoc_Create env c facetIdentity0 input0 s =
     bindE (WriteContext c) (\<lambda>((current, u), scope).
     let ws = w_id (wa_workspace scope); facetIdentity = trim_space facetIdentity0 in
     bindE (MapNotFound (GetFacet ws facetIdentity False s)) (\<lambda>_.
     let input = normalizeFacetDocumentCreate input0 in
     bindE (validateFacetDocument (dci_identity input) (dci_displayName input)
         (orElse (dci_configuration input) []) (orElse (dci_meta input) [])) (\<lambda>_.
     let (newid, s1) = fresh env s in
     MapConflict (
       bindE (InsertFacetDocument (cx_now c) (new_fdoc newid ws (u_id u) facetIdentity input) s1) (\<lambda>(created, s2).
       bindE (RecordDocument env c created ''create'' None s2) (\<lambda>(_, s3).
       Inr (created, s3)))))))"

definition existing_fdoc :: "id \<Rightarrow> string \<Rightarrow> string \<Rightarrow> int \<Rightarrow> db \<Rightarrow> document res" where
  "existing_fdoc ws facetIdentity identity expected s =
     bindE (MapNotFound (GetFacetDocument ws facetIdentity identity True s)) (\<lambda>existing.
     failIf (d_revision existing \<noteq> expected) RevisionConflict (Inr existing))"

text \<open>\<open>configuration, _ := data["configuration"].(map[string]any)\<close>: another value reads as nil.\<close>

definition configuration_of :: "jobj \<Rightarrow> jobj" where
  "configuration_of data = orElse (as_obj (oget data ''configuration'')) []"

definition patched_fdoc :: "(string \<Rightarrow> string) \<Rightarrow> document \<Rightarrow> fdoc_patch \<Rightarrow> document \<times> jobj" where
  "patched_fdoc nf existing input =
     (existing\<lparr>
        d_identity := (case dpi_identity input of None \<Rightarrow> d_identity existing | Some x \<Rightarrow> trim_space x),
        d_displayName := (case dpi_displayName input of None \<Rightarrow> d_displayName existing | Some x \<Rightarrow> trim_space x),
        d_description := (case dpi_description input of None \<Rightarrow> d_description existing
          | Some x \<Rightarrow> normalizeOptional (Some x)),
        d_meta := (case dpi_meta input of None \<Rightarrow> d_meta existing | Some x \<Rightarrow> marshal (map_value x)),
        d_active := (case dpi_active input of None \<Rightarrow> d_active existing | Some b \<Rightarrow> b)\<rparr>,
      let data = dataMap nf (d_data existing) in
      case dpi_configuration input of None \<Rightarrow> data | Some x \<Rightarrow> oput ''configuration'' (map_value x) data)"

definition fdoc_Patch ::
    "env \<Rightarrow> ctx \<Rightarrow> string \<Rightarrow> string \<Rightarrow> fdoc_patch \<Rightarrow> int \<Rightarrow> db \<Rightarrow> (document \<times> db) res" where
  "fdoc_Patch env c facetIdentity0 identity0 input expected s =
     bindE (WriteContext c) (\<lambda>((current, u), scope).
     failIf (expected \<le> 0) PreconditionRequired (
     let ws = w_id (wa_workspace scope); facetIdentity = trim_space facetIdentity0; identity = trim_space identity0 in
     bindE (MapNotFound (GetFacet ws facetIdentity False s)) (\<lambda>_.
     bindE (existing_fdoc ws facetIdentity identity expected s) (\<lambda>existing.
     let (next, data) = patched_fdoc (e_nf env) existing input in
     bindE (validateFacetDocument (d_identity next) (d_displayName next) (configuration_of data)
         (rawObject (e_nf env) (d_meta next))) (\<lambda>_.
     let next' = next\<lparr>d_data := omarshal data, d_updatedBy := actor_of_id (u_id u)\<rparr> in
     if checksumDocument env existing = checksumDocument env next' then Inr (existing, s)
     else write_fdoc env c next' expected ''update'' None s)))))"

definition fdoc_Delete :: "env \<Rightarrow> ctx \<Rightarrow> string \<Rightarrow> string \<Rightarrow> int \<Rightarrow> db \<Rightarrow> (document \<times> db) res" where
  "fdoc_Delete env c facetIdentity identity expected s =
     bindE (WriteContext c) (\<lambda>((current, u), scope).
     failIf (expected \<le> 0) PreconditionRequired (
     bindE (existing_fdoc (w_id (wa_workspace scope)) (trim_space facetIdentity) (trim_space identity) expected s) (\<lambda>existing.
     if d_deletedAt existing \<noteq> None then Inr (existing, s)
     else write_fdoc env c
       (existing\<lparr>d_deletedAt := Some (cx_now c), d_active := False, d_updatedBy := actor_of_id (u_id u)\<rparr>)
       expected ''delete'' None s)))"

definition facet_deleted :: goerr where
  "facet_deleted = Conflict ''facet_deleted''"

text \<open>Any failure to read the facet counts as a deleted facet.\<close>

definition live_facet :: "id \<Rightarrow> string \<Rightarrow> db \<Rightarrow> unit res" where
  "live_facet ws facetIdentity s = failIf (isl (GetFacet ws facetIdentity False s)) facet_deleted (Inr ())"

definition fdoc_Restore :: "env \<Rightarrow> ctx \<Rightarrow> string \<Rightarrow> string \<Rightarrow> int \<Rightarrow> db \<Rightarrow> (document \<times> db) res" where
  "fdoc_Restore env c facetIdentity0 identity0 expected s =
     bindE (WriteContext c) (\<lambda>((current, u), scope).
     failIf (expected \<le> 0) PreconditionRequired (
     let ws = w_id (wa_workspace scope); facetIdentity = trim_space facetIdentity0; identity = trim_space identity0 in
     bindE (live_facet ws facetIdentity s) (\<lambda>_.
     bindE (existing_fdoc ws facetIdentity identity expected s) (\<lambda>existing.
     if d_deletedAt existing = None then Inr (existing, s)
     else write_fdoc env c
       (existing\<lparr>d_deletedAt := None, d_active := True, d_updatedBy := actor_of_id (u_id u)\<rparr>)
       expected ''restore'' None s))))"

section \<open>Revisions\<close>

definition facet_ListRevisions :: "ctx \<Rightarrow> string \<Rightarrow> db \<Rightarrow> revision list res" where
  "facet_ListRevisions c identity s =
     bindE (ctx_Access c) (\<lambda>scope.
     MapNotFound (ListFacetRevisions (w_id (wa_workspace scope)) (trim_space identity) s))"

definition facet_GetRevision :: "ctx \<Rightarrow> string \<Rightarrow> id \<Rightarrow> db \<Rightarrow> revision res" where
  "facet_GetRevision c identity revisionID s =
     bindE (ctx_Access c) (\<lambda>scope.
     MapNotFound (GetFacetRevision (w_id (wa_workspace scope)) (trim_space identity) revisionID s))"

definition fdoc_ListRevisions :: "ctx \<Rightarrow> string \<Rightarrow> string \<Rightarrow> db \<Rightarrow> revision list res" where
  "fdoc_ListRevisions c facetIdentity identity s =
     bindE (ctx_Access c) (\<lambda>scope.
     MapNotFound (ListFacetDocumentRevisions (w_id (wa_workspace scope)) (trim_space facetIdentity) (trim_space identity) s))"

definition fdoc_GetRevision :: "ctx \<Rightarrow> string \<Rightarrow> string \<Rightarrow> id \<Rightarrow> db \<Rightarrow> revision res" where
  "fdoc_GetRevision c facetIdentity identity revisionID s =
     bindE (ctx_Access c) (\<lambda>scope.
     MapNotFound (GetFacetDocumentRevision (w_id (wa_workspace scope)) (trim_space facetIdentity) (trim_space identity)
       revisionID s))"

text \<open>Decoding a snapshot as a document. The log of facets and facet documents holds documents only, so
  the other snapshots, which never occur there, are taken as undecodable.\<close>

definition snapshot_document :: "revision \<Rightarrow> document res" where
  "snapshot_document r = (case rv_snapshot r of
      SnapDocument d \<Rightarrow> Inr d
    | _ \<Rightarrow> Inl (Internal ''revision_snapshot_invalid''))"

definition facet_RestoreRevision :: "env \<Rightarrow> ctx \<Rightarrow> string \<Rightarrow> id \<Rightarrow> int \<Rightarrow> db \<Rightarrow> (document \<times> db) res" where
  "facet_RestoreRevision env c identity revisionID expected s =
     bindE (WriteContext c) (\<lambda>((current, u), scope).
     let ws = w_id (wa_workspace scope) in
     bindE (existing_facet ws identity expected s) (\<lambda>existing.
     bindE (MapNotFound (GetFacetRevision ws (trim_space identity) revisionID s)) (\<lambda>revision.
     bindE (snapshot_document revision) (\<lambda>snapshot.
     let data = odel ''documentCount'' (dataMap (e_nf env) (d_data snapshot));
         target = snapshot\<lparr>d_id := d_id existing, d_workspaceID := d_workspaceID existing, d_type := CollectionFacets,
           d_revision := d_revision existing, d_updatedBy := actor_of_id (u_id u), d_data := omarshal data\<rparr> in
     bindE (validateFacet (d_identity target) (d_displayName target) (trimmed (oget data ''icon''))
         (trimmed (oget data ''color'')) (rawObject (e_nf env) (d_meta target))) (\<lambda>_.
     write_facet env c target expected ''restore'' (Some (rv_id revision)) s)))))"

definition fdoc_RestoreRevision ::
    "env \<Rightarrow> ctx \<Rightarrow> string \<Rightarrow> string \<Rightarrow> id \<Rightarrow> int \<Rightarrow> db \<Rightarrow> (document \<times> db) res" where
  "fdoc_RestoreRevision env c facetIdentity0 identity0 revisionID expected s =
     bindE (WriteContext c) (\<lambda>((current, u), scope).
     failIf (expected \<le> 0) PreconditionRequired (
     let ws = w_id (wa_workspace scope); facetIdentity = trim_space facetIdentity0; identity = trim_space identity0 in
     bindE (live_facet ws facetIdentity s) (\<lambda>_.
     bindE (existing_fdoc ws facetIdentity identity expected s) (\<lambda>existing.
     bindE (MapNotFound (GetFacetDocumentRevision ws facetIdentity identity revisionID s)) (\<lambda>revision.
     bindE (snapshot_document revision) (\<lambda>snapshot.
     let data = oput ''facetIdentity'' (JStr facetIdentity) (dataMap (e_nf env) (d_data snapshot));
         target = snapshot\<lparr>d_id := d_id existing, d_workspaceID := d_workspaceID existing,
           d_type := CollectionFacetDocuments, d_revision := d_revision existing,
           d_updatedBy := actor_of_id (u_id u), d_data := omarshal data\<rparr> in
     bindE (validateFacetDocument (d_identity target) (d_displayName target) (configuration_of data)
         (rawObject (e_nf env) (d_meta target))) (\<lambda>_.
     write_fdoc env c target expected ''restore'' (Some (rv_id revision)) s)))))))"

end
