(* ===== verification/LogLaws.thy ===== *)
theory LogLaws
  imports Lifecycle
begin

text \<open>
  The invariant that the document commands keep between the document tables and the revision log: the
  tables satisfy their constraints, the log of a document holds exactly the revisions 1, 2, ... up to the
  revision of its row, and the sequence numbers of a workspace strictly increase up to its head. Inside a
  transaction some rows are ahead of the log; \<open>pending\<close> is the set of their keys.
\<close>

type_synonym entity_key = "string \<times> id \<times> id"

definition row_key :: "doc_row \<Rightarrow> entity_key" where
  "row_key r = (dr_kind r, dr_ws r, dr_id r)"

definition logged :: "db \<Rightarrow> entity_key \<Rightarrow> int list" where
  "logged s k = map rv_number (revisions_of s (fst (snd k)) (fst k) (snd (snd k)))"

definition numbers_expected :: "db \<Rightarrow> entity_key set \<Rightarrow> entity_key \<Rightarrow> int list" where
  "numbers_expected s pending k = (case doc_rev k s of
      None \<Rightarrow> [] | Some n \<Rightarrow> [1..n - (if k \<in> pending then 1 else 0)])"

definition log_complete :: "entity_key set \<Rightarrow> db \<Rightarrow> bool" where
  "log_complete pending s \<longleftrightarrow>
     (\<forall>k. fst k \<in> set DocumentCollections \<longrightarrow> logged s k = numbers_expected s pending k)"

definition sequences :: "db \<Rightarrow> id \<Rightarrow> int list" where
  "sequences s ws = concat (map (\<lambda>r. if rv_ws r = ws then (case rv_seq r of None \<Rightarrow> [] | Some n \<Rightarrow> [n]) else [])
     (db_revisions s))"

definition log_ordered :: "db \<Rightarrow> bool" where
  "log_ordered s \<longleftrightarrow> (\<forall>ws h. head_of s ws = Some h \<longrightarrow>
     sorted_wrt (<) (sequences s ws) \<and> (\<forall>n \<in> set (sequences s ws). n \<le> h))"

definition log_inv :: "entity_key set \<Rightarrow> db \<Rightarrow> bool" where
  "log_inv pending s \<longleftrightarrow> doc_good s \<and> log_complete pending s \<and> log_ordered s"

lemma log_completeD: "log_complete pending s \<Longrightarrow> fst k \<in> set DocumentCollections \<Longrightarrow> logged s k = numbers_expected s pending k"
  unfolding log_complete_def by blast

lemma log_inv_cong_parts:
  assumes "log_inv pending s" "doc_good t" "\<And>k. logged t k = logged s k"
    "\<And>k. numbers_expected t pending' k = numbers_expected s pending k"
    "\<And>ws. head_of t ws = head_of s ws" "\<And>ws. sequences t ws = sequences s ws"
  shows "log_inv pending' t"
  using assms unfolding log_inv_def log_complete_def log_ordered_def by simp

section \<open>Appending a revision\<close>

lemma doc_good_rows:
  "doc_good s \<Longrightarrow> docs_unique (db_docs s)"
  "doc_good s \<Longrightarrow> r \<in> set (db_docs s) \<Longrightarrow> row_check r \<and> row_fk s (db_docs s) r"
  by (auto simp: doc_good_def docs_ok_def)

lemma doc_good_same:
  assumes "same_data s t" "\<And>i. (ws_of t i = None) = (ws_of s i = None)"
  shows "doc_good t = doc_good s"
  using docs_ok_cong [of t s "db_docs s"] assms by (simp add: doc_good_def same_data_def)

lemma row_by_id_same: "same_data s t \<Longrightarrow> row_by_id t = row_by_id s"
  by (simp add: same_data_def row_by_id_def fun_eq_iff)

lemma doc_rev_same: "same_data s t \<Longrightarrow> doc_rev k t = doc_rev k s"
  by (simp add: doc_rev_def row_by_id_same)

lemma doc_rev_row:
  "doc_good s \<Longrightarrow> r \<in> set (db_docs s) \<Longrightarrow> doc_rev (row_key r) s = Some (dr_revision r)"
  using row_by_id_unique [of s r] doc_good_rows(1) [of s] by (simp add: doc_rev_def row_key_def)

lemma doc_rev_positive: "doc_good s \<Longrightarrow> doc_rev k s = Some n \<Longrightarrow> 0 < n"
  by (auto simp: doc_rev_def row_by_id_def row_check_def dest!: find_SomeD doc_good_rows(2))

lemma append_log_ordered:
  assumes "append_revision env c ws kind i ident n op from snap actor s = Inr (r, t)" "log_ordered s"
  shows "log_ordered t"
  unfolding log_ordered_def
proof (intro allI impI)
  fix j h assume h: "head_of t j = Some h"
  note ap = append_revision_Inr [OF assms(1)]
  have rv: "rv_ws r = ws" using ap(5) by (simp add: revision_matches_def)
  obtain q where q: "head_of s ws = Some (q - 1)" "rv_seq r = Some q" using ap(3) by blast
  have sq: "sequences t j = sequences s j @ (if ws = j then [q] else [])"
    using ap(2) rv q by (simp add: sequences_def)
  show "sorted_wrt (<) (sequences t j) \<and> (\<forall>n \<in> set (sequences t j). n \<le> h)"
  proof (cases "j = ws")
    case True
    have hq: "h = q" using h ap(4) True q by simp
    have "sorted_wrt (<) (sequences s j)" "\<forall>n \<in> set (sequences s j). n \<le> q - 1"
      using assms(2) q(1) True unfolding log_ordered_def by blast+
    moreover from this(2) True have "\<forall>n \<in> set (sequences s ws). n < q" by force
    ultimately show ?thesis using sq True hq by (auto simp: sorted_wrt_append)
  next
    case False
    then show ?thesis using assms(2) h ap(4) sq by (simp add: log_ordered_def)
  qed
qed

lemma logged_append:
  assumes "db_revisions t = db_revisions s @ [r]"
  shows "logged t k = logged s k @
    (if (rv_type r, rv_ws r, rv_docID r) = k then [rv_number r] else [])"
  using assms by (cases k) (auto simp: logged_def revisions_of_def)

lemma append_log_inv:
  assumes ap: "append_revision env c ws kind i ident n op from snap actor s = Inr (r, t)"
    and inv: "log_inv pending s"
    and key: "kind \<in> set DocumentCollections \<Longrightarrow> (kind, ws, i) \<in> pending \<and> doc_rev (kind, ws, i) s = Some n"
  shows "log_inv (pending - {(kind, ws, i)}) t"
proof -
  note a = append_revision_Inr [OF ap]
  let ?k = "(kind, ws, i)"
  have good: "doc_good t" using inv doc_good_same [OF a(1,8)] by (simp add: log_inv_def)
  have r: "(rv_type r, rv_ws r, rv_docID r) = ?k" "rv_number r = n" using a(5) by (simp_all add: revision_matches_def)
  have "log_complete (pending - {?k}) t"
    unfolding log_complete_def
  proof (intro allI impI)
    fix k :: entity_key assume kd: "fst k \<in> set DocumentCollections"
    have lg: "logged s k = numbers_expected s pending k" using inv kd by (simp add: log_inv_def log_completeD)
    show "logged t k = numbers_expected t (pending - {?k}) k"
    proof (cases "k = ?k")
      case True
      with key kd have rev: "?k \<in> pending" "doc_rev ?k s = Some n" by auto
      have "0 < n" using doc_rev_positive [OF _ rev(2)] inv by (simp add: log_inv_def)
      moreover have "logged t k = [1..n - 1] @ [n]"
        using logged_append [OF a(2), of k] r True lg rev by (simp add: numbers_expected_def)
      ultimately show ?thesis using True rev a(1)
        by (simp add: numbers_expected_def doc_rev_same upto_rec2)
    next
      case False
      then have "logged t k = logged s k" using logged_append [OF a(2), of k] r by simp
      then show ?thesis using lg False a(1) by (simp add: numbers_expected_def doc_rev_same)
    qed
  qed
  with good append_log_ordered [OF ap] inv show ?thesis by (simp add: log_inv_def)
qed

section \<open>Changing rows\<close>

lemma log_inv_cong:
  assumes "log_inv pending s" "db_docs t = db_docs s" "db_users t = db_users s"
    "db_workspaces t = db_workspaces s" "db_revisions t = db_revisions s"
  shows "log_inv pending t"
proof -
  have eq: "row_by_id t = row_by_id s" "ws_of t = ws_of s" "sequences t = sequences s" "logged t = logged s"
    using assms by (simp_all add: row_by_id_def ws_of_def sequences_def logged_def revisions_of_def fun_eq_iff)
  have "docs_ok t (db_docs s) = docs_ok s (db_docs s)"
    by (rule docs_ok_cong) (use assms eq in simp_all)
  then have "doc_good t" using assms by (simp add: doc_good_def log_inv_def)
  then show ?thesis using eq
    by (intro log_inv_cong_parts [OF assms(1)]) (simp_all add: numbers_expected_def doc_rev_def head_of_def)
qed

lemma doc_rev_update_rows:
  assumes "\<And>x. row_key (f x) = row_key x" "\<And>x. dr_revision (f x) = dr_revision x + 1"
  shows "doc_rev k (s\<lparr>db_docs := updateWhere p f (db_docs s)\<rparr>) =
     map_option (\<lambda>x. if p x then dr_revision x + 1 else dr_revision x) (row_by_id s (fst k) (fst (snd k)) (snd (snd k)))"
proof -
  have "dr_kind (f x) = dr_kind x" "dr_ws (f x) = dr_ws x" "dr_id (f x) = dr_id x" for x
    using assms(1) [of x] by (simp_all add: row_key_def)
  then have "row_by_id (s\<lparr>db_docs := updateWhere p f (db_docs s)\<rparr>) kind ws i
      = map_option (\<lambda>x. if p x then f x else x) (row_by_id s kind ws i)" for kind ws i
    unfolding row_by_id_def by (simp add: find_updateWhere)
  then have "doc_rev k (s\<lparr>db_docs := updateWhere p f (db_docs s)\<rparr>) =
      map_option (\<lambda>x. dr_revision (if p x then f x else x)) (row_by_id s (fst k) (fst (snd k)) (snd (snd k)))"
    by (simp add: doc_rev_def option.map_comp comp_def)
  also have "(\<lambda>x. dr_revision (if p x then f x else x)) = (\<lambda>x. if p x then dr_revision x + 1 else dr_revision x)"
    using assms(2) by auto
  finally show ?thesis .
qed

text \<open>Rewritten rows get one revision ahead of the log.\<close>

lemma update_rows_log_inv:
  assumes inv: "log_inv pending s"
    and t: "t = s\<lparr>db_docs := updateWhere p f (db_docs s)\<rparr>" and ok: "docs_ok s (db_docs t)"
    and f: "\<And>x. row_key (f x) = row_key x" "\<And>x. dr_revision (f x) = dr_revision x + 1"
    and new: "\<And>r. r \<in> set (db_docs s) \<Longrightarrow> p r \<Longrightarrow> row_key r \<notin> pending"
  shows "log_inv (pending \<union> row_key ` {r \<in> set (db_docs s). p r}) t"
proof -
  let ?P = "pending \<union> row_key ` {r \<in> set (db_docs s). p r}"
  have g: "doc_good s" using inv by (simp add: log_inv_def)
  have good: "doc_good t" using ok t by simp
  have lg: "logged t k = logged s k" and hd: "head_of t ws = head_of s ws" and sq: "sequences t ws = sequences s ws" for k ws
    by (simp_all add: t logged_def revisions_of_def head_of_def ws_of_def sequences_def)
  have "numbers_expected t ?P k = numbers_expected s pending k" for k
  proof (cases "row_by_id s (fst k) (fst (snd k)) (snd (snd k))")
    case None
    then show ?thesis unfolding numbers_expected_def t doc_rev_update_rows [OF f] by (simp add: doc_rev_def)
  next
    case (Some r)
    then have r: "r \<in> set (db_docs s)" "row_key r = k"
      by (auto simp: row_by_id_def row_key_def dest!: find_SomeD)
    have u: "q = r" if "q \<in> set (db_docs s)" "row_key q = k" for q
      by (rule docs_unique_id [OF doc_good_rows(1) [OF g] _ r(1)]) (use that r(2) in \<open>auto simp: row_key_def\<close>)
    have mem: "k \<in> ?P \<longleftrightarrow> k \<in> pending \<or> p r" using r u by blast
    have "doc_rev k t = Some (if p r then dr_revision r + 1 else dr_revision r)"
      unfolding t doc_rev_update_rows [OF f] by (simp add: Some)
    moreover have "doc_rev k s = Some (dr_revision r)" by (simp add: doc_rev_def Some)
    ultimately show ?thesis using new [OF r(1)] r(2) mem by (auto simp: numbers_expected_def)
  qed
  then show ?thesis using log_inv_cong_parts [OF inv good lg _ hd sq] by blast
qed

lemma insert_row_log_inv:
  assumes inv: "log_inv {} s" and t: "t = s\<lparr>db_docs := db_docs s @ [r]\<rparr>" and ok: "docs_ok s (db_docs t)"
    and rev: "dr_revision r = 1"
  shows "log_inv {row_key r} t"
proof -
  have good: "doc_good t" using ok t by simp
  have u: "docs_unique (db_docs s @ [r])" using ok t by (simp add: docs_ok_def)
  have lg: "logged t k = logged s k" and hd: "head_of t ws = head_of s ws" and sq: "sequences t ws = sequences s ws" for k ws
    by (simp_all add: t logged_def revisions_of_def head_of_def ws_of_def sequences_def)
  have "numbers_expected t {row_key r} k = numbers_expected s {} k" for k
  proof (cases "k = row_key r")
    case True
    have "(dr_kind r, dr_id r) \<notin> (\<lambda>r. (dr_kind r, dr_id r)) ` set (db_docs s)"
      using u by (simp add: docs_unique_def)
    then have "doc_rev k s = None"
      using True by (auto simp: doc_rev_def row_by_id_def row_key_def find_None_iff image_iff)
    moreover have "doc_rev k t = Some 1" using doc_rev_row [OF good, of r] True rev t by simp
    ultimately show ?thesis using True by (simp add: numbers_expected_def)
  next
    case False
    then have "row_by_id t (fst k) (fst (snd k)) (snd (snd k)) = row_by_id s (fst k) (fst (snd k)) (snd (snd k))"
      unfolding row_by_id_def t by (cases k) (auto simp: row_key_def intro!: find_append_other)
    then show ?thesis using False by (simp add: numbers_expected_def doc_rev_def)
  qed
  then show ?thesis using log_inv_cong_parts [OF inv good lg _ hd sq] by blast
qed

end
