(* ===== verification/FacetLaws.thy ===== *)
theory FacetLaws
  imports Facets LogLaws Versioned
begin

text \<open>
  What the facet commands keep: the constraints of the two facet tables, the rule that a live facet document
  never lies in a deleted facet, and a complete revision log for facets and for facet documents. The last
  point is stated once, in a locale over a table with a revision column, and interpreted for both tables.
\<close>

section \<open>A table whose changes are logged\<close>

text \<open>\<open>pending\<close> holds the keys of the rows that the running transaction has changed but not yet logged.\<close>

definition log_matches :: "string \<Rightarrow> (db \<Rightarrow> id \<times> id \<Rightarrow> int option) \<Rightarrow> (id \<times> id) set \<Rightarrow> db \<Rightarrow> bool" where
  "log_matches kind ver pending s \<longleftrightarrow> (\<forall>k. logged s (kind, k) =
     (case ver s k of None \<Rightarrow> [] | Some n \<Rightarrow> [1..n - (if k \<in> pending then 1 else 0)]))"

lemma log_matchesD: "log_matches kind ver P s \<Longrightarrow>
    logged s (kind, k) = (case ver s k of None \<Rightarrow> [] | Some n \<Rightarrow> [1..n - (if k \<in> P then 1 else 0)])"
  unfolding log_matches_def by (rule spec)

definition ent_key :: "document \<Rightarrow> id \<times> id" where
  "ent_key d = (d_workspaceID d, d_id d)"

locale logged_table =
  fixes kind :: string and ver :: "db \<Rightarrow> id \<times> id \<Rightarrow> int option"
  assumes ver_same: "same_data s t \<Longrightarrow> ver t k = ver s k"
begin

lemma unrelated:
  assumes "log_matches kind ver P s" "db_revisions t = db_revisions s" "\<And>k. ver t k = ver s k"
  shows "log_matches kind ver P t"
  using assms by (simp add: log_matches_def logged_def revisions_of_def)

lemma written:
  assumes "log_matches kind ver P s" "db_revisions t = db_revisions s"
    and "\<And>k. ver t k = (if k = key then Some (n + 1) else ver s k)"
    and "ver s key = Some n \<or> (ver s key = None \<and> n = 0)" "key \<notin> P"
  shows "log_matches kind ver (insert key P) t"
  unfolding log_matches_def
proof
  fix k
  have "logged t (kind, k) = logged s (kind, k)" using assms(2) by (simp add: logged_def revisions_of_def)
  also have "\<dots> = (case ver s k of None \<Rightarrow> [] | Some n \<Rightarrow> [1..n - (if k \<in> P then 1 else 0)])"
    by (rule log_matchesD [OF assms(1)])
  finally show "logged t (kind, k) = (case ver t k of None \<Rightarrow> [] | Some n \<Rightarrow> [1..n - (if k \<in> insert key P then 1 else 0)])"
    using assms(3) [of k] assms(4,5) by auto
qed

text \<open>Several rows move on by one revision each.\<close>

lemma written_many:
  assumes "log_matches kind ver {} s" "db_revisions t = db_revisions s"
    and "\<And>k. ver t k = (if k \<in> K then map_option (\<lambda>n. n + 1) (ver s k) else ver s k)"
  shows "log_matches kind ver K t"
  unfolding log_matches_def
proof
  fix k
  have "logged t (kind, k) = logged s (kind, k)" using assms(2) by (simp add: logged_def revisions_of_def)
  also have "\<dots> = (case ver s k of None \<Rightarrow> [] | Some n \<Rightarrow> [1..n])"
    using log_matchesD [OF assms(1), of k] by (cases "ver s k") simp_all
  finally show "logged t (kind, k) = (case ver t k of None \<Rightarrow> [] | Some n \<Rightarrow> [1..n - (if k \<in> K then 1 else 0)])"
    using assms(3) [of k] by (cases "ver s k") auto
qed

lemma recorded:
  assumes rec: "RecordDocument env c d op from s = Inr (r, t)" and m: "log_matches kind ver P s"
    and d: "d_type d = kind" "ent_key d \<in> P" "ver s (ent_key d) = Some (d_revision d)" "0 < d_revision d"
  shows "log_matches kind ver (P - {ent_key d}) t"
  unfolding log_matches_def
proof
  fix k
  note a = append_revision_Inr [OF rec [unfolded RecordDocument_append]]
  have r: "(rv_type r, rv_ws r, rv_docID r) = (kind, ent_key d)" "rv_number r = d_revision d"
    using a(5) d(1) by (simp_all add: revision_matches_def ent_key_def)
  have lg: "logged t (kind, k) = logged s (kind, k) @ (if k = ent_key d then [d_revision d] else [])"
    using logged_append [OF a(2), of "(kind, k)"] r by auto
  show "logged t (kind, k) = (case ver t k of None \<Rightarrow> [] | Some n \<Rightarrow> [1..n - (if k \<in> P - {ent_key d} then 1 else 0)])"
  proof (cases "k = ent_key d")
    case True
    then show ?thesis using log_matchesD [OF m, of k] d(2-4) lg ver_same [OF a(1), of k] by (simp add: upto_rec2)
  next
    case False
    then show ?thesis using log_matchesD [OF m, of k] lg ver_same [OF a(1), of k] by simp
  qed
qed

lemma recorded_other:
  assumes rec: "RecordDocument env c d op from s = Inr (r, t)" and m: "log_matches kind ver P s" and d: "d_type d \<noteq> kind"
  shows "log_matches kind ver P t"
  unfolding log_matches_def
proof
  fix k
  note a = append_revision_Inr [OF rec [unfolded RecordDocument_append]]
  have "rv_type r \<noteq> kind" using a(5) d by (simp add: revision_matches_def)
  then have "logged t (kind, k) = logged s (kind, k)" using logged_append [OF a(2), of "(kind, k)"] by auto
  then show "logged t (kind, k) = (case ver t k of None \<Rightarrow> [] | Some n \<Rightarrow> [1..n - (if k \<in> P then 1 else 0)])"
    using log_matchesD [OF m, of k] ver_same [OF a(1), of k] by simp
qed

end

definition facet_rev :: "db \<Rightarrow> id \<times> id \<Rightarrow> int option" where
  "facet_rev s k = map_option fr_revision (find (\<lambda>f. fr_ws f = fst k \<and> fr_id f = snd k) (db_facets s))"

definition fdoc_rev :: "db \<Rightarrow> id \<times> id \<Rightarrow> int option" where
  "fdoc_rev s k = map_option fd_revision (find (\<lambda>f. fd_ws f = fst k \<and> fd_id f = snd k) (db_fdocs s))"

interpretation facet_log: logged_table CollectionFacets facet_rev
  by unfold_locales (simp add: facet_rev_def same_data_def)

interpretation fdoc_log: logged_table CollectionFacetDocuments fdoc_rev
  by unfold_locales (simp add: fdoc_rev_def same_data_def)

section \<open>The invariant\<close>

definition docs_in_live_facets :: "db \<Rightarrow> bool" where
  "docs_in_live_facets s \<longleftrightarrow> (\<forall>d \<in> set (db_fdocs s). fd_deletedAt d = None \<longrightarrow>
     (\<exists>f \<in> set (db_facets s). fr_id f = fd_facet d \<and> fr_ws f = fd_ws d \<and> fr_deletedAt f = None))"

definition facet_good :: "db \<Rightarrow> bool" where
  "facet_good s \<longleftrightarrow> facets_ok s (db_facets s) \<and> fdocs_ok s (db_fdocs s) \<and> docs_in_live_facets s"

definition facet_inv :: "(id \<times> id) set \<Rightarrow> (id \<times> id) set \<Rightarrow> db \<Rightarrow> bool" where
  "facet_inv PF PD s \<longleftrightarrow> facet_good s \<and> log_matches CollectionFacets facet_rev PF s
     \<and> log_matches CollectionFacetDocuments fdoc_rev PD s"

lemma facet_kinds [simp]:
  "CollectionFacets \<noteq> CollectionFacetDocuments" "CollectionFacetDocuments \<noteq> CollectionFacets"
  by (simp_all add: CollectionFacets_def CollectionFacetDocuments_def)

lemma facet_kinds_apart [simp]:
  "CollectionFacets \<notin> set DocumentCollections" "CollectionFacetDocuments \<notin> set DocumentCollections"
  using not_facet_kind by blast+

lemma facet_unique_row:
  assumes "facets_ok s rows" "f \<in> set rows"
  shows "find (\<lambda>g. fr_ws g = fr_ws f \<and> fr_id g = fr_id f) rows = Some f"
    "find (\<lambda>g. fr_ws g = fr_ws f \<and> fr_identity g = fr_identity f) rows = Some f"
    "find (\<lambda>g. fr_id g = fr_id f \<and> fr_ws g = fr_ws f) rows = Some f"
proof -
  have u: "distinct (map fr_id rows)" "distinct (map (\<lambda>r. (fr_ws r, fr_identity r)) rows)"
    using assms(1) by (simp_all add: facets_ok_def facets_unique_def)
  show "find (\<lambda>g. fr_ws g = fr_ws f \<and> fr_id g = fr_id f) rows = Some f" by (rule find_unique [OF u(1) assms(2)]) auto
  show "find (\<lambda>g. fr_ws g = fr_ws f \<and> fr_identity g = fr_identity f) rows = Some f" by (rule find_unique [OF u(2) assms(2)]) auto
  show "find (\<lambda>g. fr_id g = fr_id f \<and> fr_ws g = fr_ws f) rows = Some f" by (rule find_unique [OF u(1) assms(2)]) auto
qed

lemma facet_identity_inj:
  assumes "facets_ok s rows" "f \<in> set rows" "g \<in> set rows" "fr_ws f = fr_ws g" "fr_identity f = fr_identity g"
  shows "f = g"
  using assms by (auto simp: facets_ok_def facets_unique_def distinct_map dest: inj_onD)

lemma facet_id_inj:
  "facets_ok s rows \<Longrightarrow> f \<in> set rows \<Longrightarrow> g \<in> set rows \<Longrightarrow> fr_id f = fr_id g \<Longrightarrow> f = g"
  by (auto simp: facets_ok_def facets_unique_def distinct_map dest: inj_onD)

lemma facet_rev_row: "facets_ok s (db_facets s) \<Longrightarrow> f \<in> set (db_facets s) \<Longrightarrow> facet_rev s (fr_ws f, fr_id f) = Some (fr_revision f)"
  by (simp add: facet_rev_def facet_unique_row(1))

lemma fdoc_rev_row: "fdocs_ok s (db_fdocs s) \<Longrightarrow> f \<in> set (db_fdocs s) \<Longrightarrow> fdoc_rev s (fd_ws f, fd_id f) = Some (fd_revision f)"
  unfolding fdoc_rev_def
  by (subst find_unique [where k = fd_id and x = f]) (auto simp: fdocs_ok_def fdocs_unique_def)

lemma scanFacet_Inr:
  "scanFacet s r = Inr d \<Longrightarrow> d_id d = fr_id r \<and> d_workspaceID d = fr_ws r \<and> d_type d = CollectionFacets
     \<and> d_identity d = fr_identity r \<and> d_revision d = fr_revision r \<and> d_deletedAt d = fr_deletedAt r
     \<and> d_active d = fr_active r \<and> d_displayName d = fr_name r \<and> ac_id (d_updatedBy d) = fr_updatedBy r"
  by (auto simp: scanFacet_def actor_of_def db_user_def split: option.splits dest!: find_SomeD)

lemma scanFacetDocument_Inr:
  "scanFacetDocument s r = Inr d \<Longrightarrow> d_id d = fd_id r \<and> d_workspaceID d = fd_ws r \<and> d_type d = CollectionFacetDocuments
     \<and> d_identity d = fd_identity r \<and> d_revision d = fd_revision r \<and> d_deletedAt d = fd_deletedAt r
     \<and> d_active d = fd_active r \<and> ac_id (d_updatedBy d) = fd_updatedBy r
     \<and> (\<exists>f. facet_of s r = Some f \<and> oget (d_data d) ''facetIdentity'' = Some (JStr (fr_identity f)))"
  by (auto simp: scanFacetDocument_def actor_of_def db_user_def oget_def split: option.splits dest!: find_SomeD)

lemma GetFacet_Inr:
  assumes "GetFacet ws identity del s = Inr d"
  obtains f where "f \<in> set (db_facets s)" "fr_ws f = ws" "fr_identity f = identity" "del \<or> fr_deletedAt f = None"
    "scanFacet s f = Inr d"
  using assms that by (auto simp: GetFacet_def facet_by_identity_def split: option.splits dest!: find_SomeD)

lemma GetFacetDocument_Inr:
  assumes "GetFacetDocument ws facet identity del s = Inr d"
  obtains f where "f \<in> set (db_fdocs s)" "fd_ws f = ws" "facet_identity_of s f = Some facet" "fd_identity f = identity"
    "del \<or> fd_deletedAt f = None" "scanFacetDocument s f = Inr d"
  using assms that by (auto simp: GetFacetDocument_def split: option.splits dest!: find_SomeD)

lemma facet_ok_cong:
  assumes "db_users t = db_users s" "\<And>i. (ws_of t i = None) = (ws_of s i = None)"
  shows "facets_ok t rows = facets_ok s rows"
    "db_facets t = db_facets s \<Longrightarrow> fdocs_ok t drows = fdocs_ok s drows"
  using assms by (simp_all add: facets_ok_def facet_row_ok_def fdocs_ok_def fdoc_row_ok_def db_user_def)

lemma facet_good_same:
  assumes "same_data s t" "\<And>i. (ws_of t i = None) = (ws_of s i = None)"
  shows "facet_good t = facet_good s"
  using assms facet_ok_cong [of t s] by (simp add: facet_good_def same_data_def docs_in_live_facets_def)

lemma documentCount_0:
  "documentCount s ws i = 0 \<longleftrightarrow> (\<forall>d \<in> set (db_fdocs s). fd_ws d = ws \<and> fd_facet d = i \<longrightarrow> fd_deletedAt d \<noteq> None)"
  by (auto simp: documentCount_def filter_empty_conv)

section \<open>Logging\<close>

lemma record_facet:
  assumes rec: "RecordDocument env c d op from s = Inr (r, t)" and inv: "facet_inv PF PD s"
    and d: "d_type d = CollectionFacets" "ent_key d \<in> PF" "facet_rev s (ent_key d) = Some (d_revision d)"
  shows "facet_inv (PF - {ent_key d}) PD t"
proof -
  note a = append_revision_Inr [OF rec [unfolded RecordDocument_append]]
  have "0 < d_revision d" using inv d(3)
    by (auto simp: facet_inv_def facet_good_def facets_ok_def facet_rev_def dest!: find_SomeD)
  then show ?thesis
    using inv facet_good_same [OF a(1,8)] facet_log.recorded [OF rec _ d] fdoc_log.recorded_other [OF rec] d(1)
    by (simp add: facet_inv_def)
qed

lemma record_fdoc:
  assumes rec: "RecordDocument env c d op from s = Inr (r, t)" and inv: "facet_inv PF PD s"
    and d: "d_type d = CollectionFacetDocuments" "ent_key d \<in> PD" "fdoc_rev s (ent_key d) = Some (d_revision d)"
  shows "facet_inv PF (PD - {ent_key d}) t"
proof -
  note a = append_revision_Inr [OF rec [unfolded RecordDocument_append]]
  have "0 < d_revision d" using inv d(3)
    by (auto simp: facet_inv_def facet_good_def fdocs_ok_def fdoc_rev_def dest!: find_SomeD)
  then show ?thesis
    using inv facet_good_same [OF a(1,8)] fdoc_log.recorded [OF rec _ d] facet_log.recorded_other [OF rec] d(1)
    by (simp add: facet_inv_def)
qed

text \<open>The recorder leaves the document tables alone, so the documents keep their own invariant.\<close>

lemma record_facet_docs:
  assumes "RecordDocument env c d op from s = Inr (r, t)" "d_type d \<notin> set DocumentCollections" "log_inv {} s"
  shows "log_inv {} t"
  using append_log_inv [OF assms(1) [unfolded RecordDocument_append] assms(3)] assms(2) by simp


section \<open>Changing the facet table\<close>

lemma facets_update_good:
  assumes good: "facet_good s" and t: "t = s\<lparr>db_facets := updateWhere p f (db_facets s)\<rparr>"
    and ok: "facets_ok s (db_facets t)"
    and f: "\<And>r. fr_id (f r) = fr_id r \<and> fr_ws (f r) = fr_ws r"
    and live: "\<And>r. r \<in> set (db_facets s) \<Longrightarrow> p r \<Longrightarrow> fr_deletedAt r = None \<Longrightarrow>
       fr_deletedAt (f r) = None \<or> documentCount s (fr_ws r) (fr_id r) = 0"
  shows "facet_good t"
proof -
  have inside: "\<exists>g \<in> set (db_facets t). fr_id g = fr_id r \<and> fr_ws g = fr_ws r" if "r \<in> set (db_facets s)" for r
    by (rule bexI [of _ "if p r then f r else r"]) (use that f in \<open>simp_all add: t set_updateWhere\<close>)
  have "fdocs_ok t (db_fdocs t)"
    using good inside
    by (auto simp: facet_good_def fdocs_ok_def fdoc_row_ok_def t db_user_def ws_of_def dest!: bspec) metis+
  moreover have "docs_in_live_facets t"
    unfolding docs_in_live_facets_def
  proof (intro ballI impI)
    fix d assume d: "d \<in> set (db_fdocs t)" "fd_deletedAt d = None"
    then obtain r where r: "r \<in> set (db_facets s)" "fr_id r = fd_facet d" "fr_ws r = fd_ws d" "fr_deletedAt r = None"
      using good by (auto simp: facet_good_def docs_in_live_facets_def t)
    have "documentCount s (fr_ws r) (fr_id r) \<noteq> 0" using d r by (auto simp: documentCount_0 t)
    then have "p r \<Longrightarrow> fr_deletedAt (f r) = None" using live [OF r(1) _ r(4)] by auto
    then show "\<exists>g \<in> set (db_facets t). fr_id g = fd_facet d \<and> fr_ws g = fd_ws d \<and> fr_deletedAt g = None"
      by (intro bexI [of _ "if p r then f r else r"]) (use r f in \<open>simp_all add: t set_updateWhere\<close>)
  qed
  ultimately show ?thesis using ok facet_ok_cong(1) [of t s] by (simp add: facet_good_def t ws_of_def)
qed

definition facet_hit :: "document \<Rightarrow> int \<Rightarrow> facet_row \<Rightarrow> bool" where
  "facet_hit v e r \<longleftrightarrow> fr_id r = d_id v \<and> fr_ws r = d_workspaceID v \<and> fr_revision r = e"

definition facet_written :: "document \<Rightarrow> time \<Rightarrow> jobj \<Rightarrow> int \<Rightarrow> facet_row \<Rightarrow> facet_row" where
  "facet_written v now data position r = r\<lparr>fr_identity := d_identity v, fr_name := d_displayName v,
     fr_icon := stringField data ''icon'', fr_color := stringField data ''color'', fr_position := position,
     fr_meta := d_meta v, fr_active := d_active v, fr_deletedAt := d_deletedAt v,
     fr_updatedBy := ac_id (d_updatedBy v), fr_updatedAt := now, fr_revision := fr_revision r + 1\<rparr>"

lemma facet_written_keeps [simp]:
  "fr_id (facet_written v now data p r) = fr_id r" "fr_ws (facet_written v now data p r) = fr_ws r"
  "fr_revision (facet_written v now data p r) = fr_revision r + 1"
  "fr_deletedAt (facet_written v now data p r) = d_deletedAt v"
  "fr_identity (facet_written v now data p r) = d_identity v"
  "fr_active (facet_written v now data p r) = d_active v"
  by (simp_all add: facet_written_def)

lemma UpdateFacet_Inr:
  assumes "UpdateFacet env now v e s = Inr (d, t)"
  obtains cur data p where "cur \<in> set (db_facets s)" "facet_hit v e cur"
    "fr_identity cur \<noteq> d_identity v \<or> (fr_deletedAt cur = None \<and> d_deletedAt v \<noteq> None) \<Longrightarrow>
       documentCount s (d_workspaceID v) (d_id v) = 0"
    "t = s\<lparr>db_facets := updateWhere (facet_hit v e) (facet_written v now data p) (db_facets s)\<rparr>"
    "facets_ok s (db_facets t)" "GetFacet (d_workspaceID v) (d_identity v) True t = Inr d"
proof -
  have h: "(\<lambda>r. fr_id r = d_id v \<and> fr_ws r = d_workspaceID v \<and> fr_revision r = e) = facet_hit v e"
    by (simp add: facet_hit_def fun_eq_iff)
  from assms obtain cur where cur: "find (facet_hit v e) (db_facets s) = Some cur"
    by (auto simp: UpdateFacet_def h Let_def split: option.splits)
  define data where "data = ounmarshal (e_nf env) (d_data v)"
  define p where "p = (if intValue (oget data ''position'') < 0
     then next_position (\<lambda>r. fr_ws r = d_workspaceID v \<and> fr_id r \<noteq> d_id v) s else intValue (oget data ''position''))"
  have "facet_written v now data p = (\<lambda>r. r\<lparr>fr_identity := d_identity v, fr_name := d_displayName v,
     fr_icon := stringField data ''icon'', fr_color := stringField data ''color'', fr_position := p,
     fr_meta := d_meta v, fr_active := d_active v, fr_deletedAt := d_deletedAt v,
     fr_updatedBy := ac_id (d_updatedBy v), fr_updatedAt := now, fr_revision := fr_revision r + 1\<rparr>)"
    by (simp add: facet_written_def fun_eq_iff)
  then have "\<not> ((fr_identity cur \<noteq> d_identity v \<or> (fr_deletedAt cur = None \<and> d_deletedAt v \<noteq> None))
       \<and> documentCount s (d_workspaceID v) (d_id v) > 0)
    \<and> (\<exists>t'. commit_facets (updateWhere (facet_hit v e) (facet_written v now data p) (db_facets s)) s = Inr t'
       \<and> GetFacet (d_workspaceID v) (d_identity v) True t' = Inr d \<and> t = t')"
    using assms cur
    by (simp add: UpdateFacet_def h Let_def res_iffs data_def [symmetric] p_def [symmetric])
  then show ?thesis using find_SomeD [OF cur] by (intro that [of cur data p]) (auto simp: commit_facets_Inr)
qed

lemma facet_rev_updated:
  assumes "t = s\<lparr>db_facets := updateWhere p f (db_facets s)\<rparr>" "\<And>r. fr_id (f r) = fr_id r \<and> fr_ws (f r) = fr_ws r"
  shows "facet_rev t k = map_option (\<lambda>r. fr_revision (if p r then f r else r))
    (find (\<lambda>g. fr_ws g = fst k \<and> fr_id g = snd k) (db_facets s))"
  using assms by (simp add: facet_rev_def find_updateWhere option.map_comp comp_def)

text \<open>One update of one facet.\<close>

lemma UpdateFacet_step:
  assumes up: "UpdateFacet env now v e s = Inr (d, t)" and inv: "facet_inv PF PD s" and new: "ent_key v \<notin> PF"
  shows "facet_inv (insert (ent_key v) PF) PD t"
    "d_type d = CollectionFacets" "ent_key d = ent_key v" "d_revision d = e + 1"
    "facet_rev s (ent_key v) = Some e" "facet_rev t (ent_key v) = Some (e + 1)"
    "facet_rev t k = (if k = ent_key v then Some (e + 1) else facet_rev s k)"
    "d_identity d = d_identity v" "d_deletedAt d = d_deletedAt v" "d_active d = d_active v"
    "db_revisions t = db_revisions s" "db_docs t = db_docs s" "db_users t = db_users s"
    "db_workspaces t = db_workspaces s" "db_fdocs t = db_fdocs s"
proof -
  obtain cur data p where cur: "cur \<in> set (db_facets s)" "facet_hit v e cur"
    and empty: "fr_identity cur \<noteq> d_identity v \<or> (fr_deletedAt cur = None \<and> d_deletedAt v \<noteq> None) \<Longrightarrow>
       documentCount s (d_workspaceID v) (d_id v) = 0"
    and t: "t = s\<lparr>db_facets := updateWhere (facet_hit v e) (facet_written v now data p) (db_facets s)\<rparr>"
    and ok: "facets_ok s (db_facets t)" and get: "GetFacet (d_workspaceID v) (d_identity v) True t = Inr d"
    by (rule UpdateFacet_Inr [OF up]) blast
  have oks: "facets_ok s (db_facets s)" using inv by (simp add: facet_inv_def facet_good_def)
  have key: "ent_key v = (fr_ws cur, fr_id cur)" and ver: "fr_revision cur = e"
    using cur(2) by (simp_all add: ent_key_def facet_hit_def)
  have only: "r = cur" if "r \<in> set (db_facets s)" "facet_hit v e r" for r
    using facet_unique_row(1) [OF oks that(1)] facet_unique_row(1) [OF oks cur(1)] that(2) cur(2) by (simp add: facet_hit_def)
  let ?new = "facet_written v now data p cur"
  have mem: "?new \<in> set (db_facets t)" using cur by (auto simp: t set_updateWhere intro!: image_eqI [of _ _ cur])
  have "facet_by_identity t (d_workspaceID v) (d_identity v) True = Some ?new"
    using facet_unique_row(2) [OF ok mem] cur(2) by (simp add: facet_by_identity_def facet_hit_def)
  then have "scanFacet t ?new = Inr d" using get by (simp add: GetFacet_def)
  note sc = scanFacet_Inr [OF this]
  show d: "d_type d = CollectionFacets" "ent_key d = ent_key v" "d_revision d = e + 1"
    "d_identity d = d_identity v" "d_deletedAt d = d_deletedAt v" "d_active d = d_active v"
    using sc key ver by (simp_all add: ent_key_def)
  show s: "facet_rev s (ent_key v) = Some e" using facet_rev_row [OF oks cur(1)] key ver by simp
  have fin: "find (\<lambda>g. fr_ws g = fst k \<and> fr_id g = snd k) (db_facets s) = Some r \<Longrightarrow>
      facet_hit v e r \<longleftrightarrow> k = ent_key v" for k r
  proof -
    assume f: "find (\<lambda>g. fr_ws g = fst k \<and> fr_id g = snd k) (db_facets s) = Some r"
    show "facet_hit v e r \<longleftrightarrow> k = ent_key v"
    proof
      show "facet_hit v e r \<Longrightarrow> k = ent_key v"
        using find_SomeD [OF f] by (auto simp: facet_hit_def ent_key_def intro: prod_eqI)
      assume "k = ent_key v"
      then have "r = cur" using f key facet_unique_row(1) [OF oks cur(1)] by simp
      then show "facet_hit v e r" using cur(2) by simp
    qed
  qed
  show r: "facet_rev t k = (if k = ent_key v then Some (e + 1) else facet_rev s k)" for k
  proof (cases "find (\<lambda>g. fr_ws g = fst k \<and> fr_id g = snd k) (db_facets s)")
    case None
    then have "facet_rev s k = None" "facet_rev t k = None" using facet_rev_updated [OF t, of k] by (simp_all add: facet_rev_def)
    with s show ?thesis by auto
  next
    case (Some r)
    then have "facet_rev s k = Some (fr_revision r)" by (simp add: facet_rev_def)
    moreover have "facet_rev t k = Some (if facet_hit v e r then fr_revision r + 1 else fr_revision r)"
      using facet_rev_updated [OF t, of k] Some by simp
    ultimately show ?thesis using fin [OF Some] by (cases "k = ent_key v") (simp_all add: facet_hit_def)
  qed
  then show "facet_rev t (ent_key v) = Some (e + 1)" by simp
  show "db_revisions t = db_revisions s" "db_docs t = db_docs s" "db_users t = db_users s"
    "db_workspaces t = db_workspaces s" "db_fdocs t = db_fdocs s" by (simp_all add: t)
  have live: "fr_deletedAt (facet_written v now data p r) = None \<or> documentCount s (fr_ws r) (fr_id r) = 0"
    if "r \<in> set (db_facets s)" "facet_hit v e r" "fr_deletedAt r = None" for r
    using only [OF that(1,2)] that(3) empty cur(2) by (cases "d_deletedAt v = None") (simp_all add: facet_hit_def)
  have "facet_good t"
    by (rule facets_update_good [OF _ t ok]) (use inv live in \<open>simp_all add: facet_inv_def\<close>)
  moreover have "log_matches CollectionFacets facet_rev (insert (ent_key v) PF) t"
    by (rule facet_log.written [OF _ _ r])
       (use inv s new in \<open>simp_all add: facet_inv_def t\<close>)
  moreover have "log_matches CollectionFacetDocuments fdoc_rev PD t"
    by (rule fdoc_log.unrelated) (use inv in \<open>auto simp: facet_inv_def t fdoc_rev_def\<close>)
  ultimately show "facet_inv (insert (ent_key v) PF) PD t" by (simp add: facet_inv_def)
qed


lemma InsertFacet_step:
  assumes ins: "InsertFacet env now v s = Inr (d, t)" and inv: "facet_inv PF PD s"
    and v: "ent_key v \<notin> PF" "d_revision v = 1" "d_deletedAt v = None"
  shows "facet_inv (insert (ent_key v) PF) PD t"
    "d_type d = CollectionFacets" "ent_key d = ent_key v" "d_revision d = 1"
    "facet_rev t (ent_key v) = Some 1" "d_identity d = d_identity v" "d_deletedAt d = None"
    "db_revisions t = db_revisions s" "db_docs t = db_docs s" "db_users t = db_users s"
    "db_workspaces t = db_workspaces s" "db_fdocs t = db_fdocs s"
proof -
  let ?row = "\<lambda>data p. \<lparr>fr_id = d_id v, fr_ws = d_workspaceID v, fr_identity = d_identity v, fr_name = d_displayName v,
           fr_icon = stringField data ''icon'', fr_color = stringField data ''color'', fr_position = p,
           fr_meta = d_meta v, fr_active = d_active v, fr_deletedAt = d_deletedAt v, fr_revision = d_revision v,
           fr_createdBy = ac_id (d_createdBy v), fr_updatedBy = ac_id (d_createdBy v),
           fr_createdAt = now, fr_updatedAt = now\<rparr>"
  from ins obtain data p where t0: "t = s\<lparr>db_facets := db_facets s @ [?row data p]\<rparr>" "facets_ok s (db_facets t)"
      "GetFacet (d_workspaceID v) (d_identity v) True t = Inr d"
    unfolding InsertFacet_def Let_def res_iffs commit_facets_Inr by auto
  define r where "r = ?row data p"
  with t0 v have r: "fr_id r = d_id v" "fr_ws r = d_workspaceID v" "fr_identity r = d_identity v"
      "fr_revision r = 1" "fr_deletedAt r = None"
    and t: "t = s\<lparr>db_facets := db_facets s @ [r]\<rparr>" and ok: "facets_ok s (db_facets t)"
    and get: "GetFacet (d_workspaceID v) (d_identity v) True t = Inr d"
    by simp_all
  have mem: "r \<in> set (db_facets t)" by (simp add: t)
  have "facet_by_identity t (d_workspaceID v) (d_identity v) True = Some r"
    using facet_unique_row(2) [OF ok mem] r by (simp add: facet_by_identity_def)
  then have "scanFacet t r = Inr d" using get by (simp add: GetFacet_def)
  note sc = scanFacet_Inr [OF this]
  show "d_type d = CollectionFacets" "ent_key d = ent_key v" "d_revision d = 1" "d_identity d = d_identity v"
    "d_deletedAt d = None" using sc r by (simp_all add: ent_key_def)
  have fresh: "fr_id f \<noteq> fr_id r" if "f \<in> set (db_facets s)" for f
    using ok imageI [OF that, of fr_id] by (auto simp: facets_ok_def facets_unique_def t)
  have old: "facet_rev s (ent_key v) = None"
    using fresh r by (auto simp: facet_rev_def ent_key_def find_None_iff)
  have ver: "facet_rev t k = (if k = ent_key v then Some (0 + 1) else facet_rev s k)" for k
  proof (cases "k = ent_key v")
    case True
    then show ?thesis using facet_unique_row(1) [OF ok mem] r by (simp add: facet_rev_def ent_key_def)
  next
    case False
    then have "\<not> (fr_ws r = fst k \<and> fr_id r = snd k)" using r by (auto simp: ent_key_def prod_eq_iff)
    then show ?thesis using False by (simp add: facet_rev_def t find_append_other)
  qed
  then show "facet_rev t (ent_key v) = Some 1" by simp
  show "db_revisions t = db_revisions s" "db_docs t = db_docs s" "db_users t = db_users s"
    "db_workspaces t = db_workspaces s" "db_fdocs t = db_fdocs s" by (simp_all add: t)
  have "facet_good t"
    using inv ok facet_ok_cong(1) [of t s]
    by (auto simp: facet_inv_def facet_good_def docs_in_live_facets_def fdocs_ok_def fdoc_row_ok_def t ws_of_def db_user_def)
  moreover have "log_matches CollectionFacets facet_rev (insert (ent_key v) PF) t"
    by (rule facet_log.written [OF _ _ ver]) (use inv old v in \<open>simp_all add: facet_inv_def t\<close>)
  moreover have "log_matches CollectionFacetDocuments fdoc_rev PD t"
    by (rule fdoc_log.unrelated) (use inv in \<open>auto simp: facet_inv_def t fdoc_rev_def\<close>)
  ultimately show "facet_inv (insert (ent_key v) PF) PD t" by (simp add: facet_inv_def)
qed

section \<open>Changing the table of facet documents\<close>

lemma parentFacet_Inr:
  assumes "parentFacet v s = Inr f"
  shows "f \<in> set (db_facets s)" "fr_ws f = d_workspaceID v" "fr_identity f = facetIdentityFromDocument v"
    "d_deletedAt v = None \<Longrightarrow> fr_deletedAt f = None"
  using assms by (auto simp: parentFacet_def facet_by_identity_def split: option.splits dest!: find_SomeD)

lemma fdoc_unique_row:
  assumes "fdocs_ok s rows" "f \<in> set rows"
  shows "find (\<lambda>g. fd_ws g = fd_ws f \<and> fd_id g = fd_id f) rows = Some f"
    "g \<in> set rows \<Longrightarrow> fd_facet g = fd_facet f \<Longrightarrow> fd_identity g = fd_identity f \<Longrightarrow> g = f"
proof -
  have u: "distinct (map fd_id rows)" "distinct (map (\<lambda>r. (fd_facet r, fd_identity r)) rows)"
    using assms(1) by (simp_all add: fdocs_ok_def fdocs_unique_def)
  show "find (\<lambda>g. fd_ws g = fd_ws f \<and> fd_id g = fd_id f) rows = Some f" by (rule find_unique [OF u(1) assms(2)]) auto
  show "g \<in> set rows \<Longrightarrow> fd_facet g = fd_facet f \<Longrightarrow> fd_identity g = fd_identity f \<Longrightarrow> g = f"
    using u(2) assms(2) by (auto simp: distinct_map dest: inj_onD)
qed

text \<open>The document that a write reads back by the identities of its facet and itself is the written row.\<close>

lemma read_back_fdoc:
  assumes good: "facets_ok s (db_facets s)" "fdocs_ok s (db_fdocs s)"
    and r: "r \<in> set (db_fdocs s)" and f: "f \<in> set (db_facets s)" "fr_ws f = fd_ws r" "fr_id f = fd_facet r"
    and get: "GetFacetDocument (fd_ws r) (fr_identity f) (fd_identity r) True s = Inr d"
  shows "scanFacetDocument s r = Inr d"
proof -
  obtain q where q: "q \<in> set (db_fdocs s)" "fd_ws q = fd_ws r" "facet_identity_of s q = Some (fr_identity f)"
    "fd_identity q = fd_identity r" "scanFacetDocument s q = Inr d"
    by (rule GetFacetDocument_Inr [OF get]) blast
  then obtain g where g: "g \<in> set (db_facets s)" "fr_id g = fd_facet q" "fr_ws g = fd_ws q" "fr_identity g = fr_identity f"
    by (auto simp: facet_identity_of_def facet_of_def dest!: find_SomeD)
  have "g = f" using facet_unique_row(2) [OF good(1) g(1)] facet_unique_row(2) [OF good(1) f(1)] g(3,4) f(2) q(2) by simp
  then have "q = r" using fdoc_unique_row(2) [OF good(2) r q(1)] g(2) f(3) q(4) by simp
  with q(5) show ?thesis by simp
qed

definition fdoc_hit :: "document \<Rightarrow> int \<Rightarrow> fdoc_row \<Rightarrow> bool" where
  "fdoc_hit v e r \<longleftrightarrow> fd_id r = d_id v \<and> fd_ws r = d_workspaceID v \<and> fd_revision r = e"

definition fdoc_written :: "document \<Rightarrow> time \<Rightarrow> id \<Rightarrow> fdoc_row \<Rightarrow> fdoc_row" where
  "fdoc_written v now facet r = r\<lparr>fd_facet := facet, fd_identity := d_identity v,
     fd_name := d_displayName v, fd_desc := d_description v,
     fd_configuration := configurationFromFacetDocument v, fd_meta := d_meta v, fd_active := d_active v,
     fd_deletedAt := d_deletedAt v, fd_updatedBy := ac_id (d_updatedBy v), fd_updatedAt := now,
     fd_revision := fd_revision r + 1\<rparr>"

lemma fdoc_written_keeps [simp]:
  "fd_id (fdoc_written v now f r) = fd_id r" "fd_ws (fdoc_written v now f r) = fd_ws r"
  "fd_facet (fdoc_written v now f r) = f" "fd_identity (fdoc_written v now f r) = d_identity v"
  "fd_revision (fdoc_written v now f r) = fd_revision r + 1" "fd_deletedAt (fdoc_written v now f r) = d_deletedAt v"
  "fd_active (fdoc_written v now f r) = d_active v"
  by (simp_all add: fdoc_written_def)

lemma UpdateFacetDocument_Inr:
  assumes "UpdateFacetDocument now v e s = Inr (d, t)"
  obtains f cur where "parentFacet v s = Inr f" "cur \<in> set (db_fdocs s)" "fdoc_hit v e cur"
    "t = s\<lparr>db_fdocs := updateWhere (fdoc_hit v e) (fdoc_written v now (fr_id f)) (db_fdocs s)\<rparr>"
    "fdocs_ok s (db_fdocs t)"
    "GetFacetDocument (d_workspaceID v) (facetIdentityFromDocument v) (d_identity v) True t = Inr d"
proof -
  have h: "(\<lambda>r. fd_id r = d_id v \<and> fd_ws r = d_workspaceID v \<and> fd_revision r = e) = fdoc_hit v e"
    by (simp add: fdoc_hit_def fun_eq_iff)
  have w: "(\<lambda>r. r\<lparr>fd_facet := i, fd_identity := d_identity v,
     fd_name := d_displayName v, fd_desc := d_description v,
     fd_configuration := configurationFromFacetDocument v, fd_meta := d_meta v, fd_active := d_active v,
     fd_deletedAt := d_deletedAt v, fd_updatedBy := ac_id (d_updatedBy v), fd_updatedAt := now,
     fd_revision := fd_revision r + 1\<rparr>) = fdoc_written v now i" for i
    by (simp add: fdoc_written_def fun_eq_iff)
  from assms obtain f where f: "parentFacet v s = Inr f"
    and c: "commit_fdocs (updateWhere (fdoc_hit v e) (fdoc_written v now (fr_id f)) (db_fdocs s)) s = Inr t"
    and hit: "find (fdoc_hit v e) (db_fdocs s) \<noteq> None"
    and get: "GetFacetDocument (d_workspaceID v) (facetIdentityFromDocument v) (d_identity v) True t = Inr d"
    unfolding UpdateFacetDocument_def h w Let_def res_iffs by blast
  from hit obtain cur where "find (fdoc_hit v e) (db_fdocs s) = Some cur" by blast
  from that [OF f _ _ _ _ get] find_SomeD [OF this] c show ?thesis by (auto simp: commit_fdocs_Inr)
qed


text \<open>A changed or new document keeps the tables good when it lies in a facet of its workspace, and in a live one
  unless it is deleted.\<close>

lemma fdocs_update_good:
  assumes good: "facet_good s" and t: "t = s\<lparr>db_fdocs := rows\<rparr>" and ok: "fdocs_ok s rows"
    and live: "\<And>r. r \<in> set rows \<Longrightarrow> r \<in> set (db_fdocs s) \<or> (fd_deletedAt r = None \<longrightarrow>
       (\<exists>f \<in> set (db_facets s). fr_id f = fd_facet r \<and> fr_ws f = fd_ws r \<and> fr_deletedAt f = None))"
  shows "facet_good t"
proof -
  have "docs_in_live_facets t"
    unfolding docs_in_live_facets_def
  proof (intro ballI impI)
    fix d assume d: "d \<in> set (db_fdocs t)" "fd_deletedAt d = None"
    then show "\<exists>f \<in> set (db_facets t). fr_id f = fd_facet d \<and> fr_ws f = fd_ws d \<and> fr_deletedAt f = None"
      using live [of d] good by (auto simp: t facet_good_def docs_in_live_facets_def)
  qed
  then show ?thesis using good ok by (simp add: facet_good_def facets_ok_def facet_row_ok_def fdocs_ok_def fdoc_row_ok_def
      t ws_of_def db_user_def)
qed

lemma UpdateFacetDocument_step:
  assumes up: "UpdateFacetDocument now v e s = Inr (d, t)" and inv: "facet_inv PF PD s" and new: "ent_key v \<notin> PD"
  shows "facet_inv PF (insert (ent_key v) PD) t"
    "d_type d = CollectionFacetDocuments" "ent_key d = ent_key v" "d_revision d = e + 1"
    "fdoc_rev t (ent_key v) = Some (e + 1)"
    "d_identity d = d_identity v" "d_deletedAt d = d_deletedAt v" "d_active d = d_active v"
    "db_revisions t = db_revisions s" "db_docs t = db_docs s" "db_users t = db_users s"
    "db_workspaces t = db_workspaces s"
proof -
  obtain f cur where f: "parentFacet v s = Inr f" and cur: "cur \<in> set (db_fdocs s)" "fdoc_hit v e cur"
    and t: "t = s\<lparr>db_fdocs := updateWhere (fdoc_hit v e) (fdoc_written v now (fr_id f)) (db_fdocs s)\<rparr>"
    and ok: "fdocs_ok s (db_fdocs t)"
    and get: "GetFacetDocument (d_workspaceID v) (facetIdentityFromDocument v) (d_identity v) True t = Inr d"
    by (rule UpdateFacetDocument_Inr [OF up]) blast
  note pf = parentFacet_Inr [OF f]
  have good: "facet_good s" using inv by (simp add: facet_inv_def)
  have oks: "fdocs_ok s (db_fdocs s)" using good by (simp add: facet_good_def)
  have key: "ent_key v = (fd_ws cur, fd_id cur)" and ver: "fd_revision cur = e"
    using cur(2) by (simp_all add: ent_key_def fdoc_hit_def)
  have only: "r = cur" if "r \<in> set (db_fdocs s)" "fdoc_hit v e r" for r
    using fdoc_unique_row(1) [OF oks that(1)] fdoc_unique_row(1) [OF oks cur(1)] that(2) cur(2) by (simp add: fdoc_hit_def)
  let ?new = "fdoc_written v now (fr_id f) cur"
  have mem: "?new \<in> set (db_fdocs t)" using cur by (auto simp: t set_updateWhere intro!: image_eqI [of _ _ cur])
  have "facet_good t"
  proof (rule fdocs_update_good [OF good, of t "updateWhere (fdoc_hit v e) (fdoc_written v now (fr_id f)) (db_fdocs s)"])
    fix r assume "r \<in> set (updateWhere (fdoc_hit v e) (fdoc_written v now (fr_id f)) (db_fdocs s))"
    then show "r \<in> set (db_fdocs s) \<or> (fd_deletedAt r = None \<longrightarrow>
       (\<exists>f \<in> set (db_facets s). fr_id f = fd_facet r \<and> fr_ws f = fd_ws r \<and> fr_deletedAt f = None))"
      using pf by (auto simp: set_updateWhere fdoc_hit_def)
  qed (use t ok in simp_all)
  have "scanFacetDocument t ?new = Inr d"
    using get pf cur(2) \<open>facet_good t\<close>
    by (intro read_back_fdoc [OF _ _ mem, of f]) (simp_all add: facet_good_def fdoc_hit_def t)
  note sc = scanFacetDocument_Inr [OF this]
  show "d_type d = CollectionFacetDocuments" "ent_key d = ent_key v" "d_revision d = e + 1"
    "d_identity d = d_identity v" "d_deletedAt d = d_deletedAt v" "d_active d = d_active v"
    using sc key ver by (simp_all add: ent_key_def)
  have s: "fdoc_rev s (ent_key v) = Some e" using fdoc_rev_row [OF oks cur(1)] key ver by simp
  have r: "fdoc_rev t k = (if k = ent_key v then Some (e + 1) else fdoc_rev s k)" for k
  proof (cases "find (\<lambda>g. fd_ws g = fst k \<and> fd_id g = snd k) (db_fdocs s)")
    case None
    then have "fdoc_rev s k = None" "fdoc_rev t k = None" by (simp_all add: fdoc_rev_def t find_updateWhere)
    with s show ?thesis by auto
  next
    case (Some r)
    have "fdoc_hit v e r \<longleftrightarrow> k = ent_key v"
    proof
      show "fdoc_hit v e r \<Longrightarrow> k = ent_key v"
        using find_SomeD [OF Some] by (auto simp: fdoc_hit_def ent_key_def intro: prod_eqI)
      assume "k = ent_key v"
      then have "r = cur" using Some key fdoc_unique_row(1) [OF oks cur(1)] by simp
      then show "fdoc_hit v e r" using cur(2) by simp
    qed
    moreover have "fdoc_rev s k = Some (fd_revision r)" using Some by (simp add: fdoc_rev_def)
    moreover have "fdoc_rev t k = Some (if fdoc_hit v e r then fd_revision r + 1 else fd_revision r)"
      using Some by (simp add: fdoc_rev_def t find_updateWhere)
    ultimately show ?thesis by (cases "k = ent_key v") (simp_all add: fdoc_hit_def)
  qed
  then show "fdoc_rev t (ent_key v) = Some (e + 1)" by simp
  show "db_revisions t = db_revisions s" "db_docs t = db_docs s" "db_users t = db_users s"
    "db_workspaces t = db_workspaces s" by (simp_all add: t)
  have "log_matches CollectionFacetDocuments fdoc_rev (insert (ent_key v) PD) t"
    by (rule fdoc_log.written [OF _ _ r]) (use inv s new in \<open>simp_all add: facet_inv_def t\<close>)
  moreover have "log_matches CollectionFacets facet_rev PF t"
    by (rule facet_log.unrelated) (use inv in \<open>auto simp: facet_inv_def t facet_rev_def\<close>)
  ultimately show "facet_inv PF (insert (ent_key v) PD) t" using \<open>facet_good t\<close> by (simp add: facet_inv_def)
qed

lemma InsertFacetDocument_step:
  assumes ins: "InsertFacetDocument now v s = Inr (d, t)" and inv: "facet_inv PF PD s"
    and v: "ent_key v \<notin> PD" "d_revision v = 1"
  shows "facet_inv PF (insert (ent_key v) PD) t"
    "d_type d = CollectionFacetDocuments" "ent_key d = ent_key v" "d_revision d = 1" "fdoc_rev t (ent_key v) = Some 1"
    "db_revisions t = db_revisions s" "db_docs t = db_docs s" "db_users t = db_users s" "db_workspaces t = db_workspaces s"
proof -
  let ?row = "\<lambda>i. \<lparr>fd_id = d_id v, fd_ws = d_workspaceID v, fd_facet = i, fd_identity = d_identity v,
          fd_name = d_displayName v, fd_desc = d_description v,
          fd_configuration = configurationFromFacetDocument v, fd_meta = d_meta v, fd_active = d_active v,
          fd_deletedAt = d_deletedAt v, fd_revision = d_revision v, fd_createdBy = ac_id (d_createdBy v),
          fd_updatedBy = ac_id (d_createdBy v), fd_createdAt = now, fd_updatedAt = now\<rparr>"
  from ins obtain f where f: "parentFacet v s = Inr f"
    and t0: "t = s\<lparr>db_fdocs := db_fdocs s @ [?row (fr_id f)]\<rparr>" "fdocs_ok s (db_fdocs t)"
    and get: "GetFacetDocument (d_workspaceID v) (facetIdentityFromDocument v) (d_identity v) True t = Inr d"
    unfolding InsertFacetDocument_def Let_def res_iffs commit_fdocs_Inr by auto
  define r where "r = ?row (fr_id f)"
  with t0 v have r: "fd_id r = d_id v" "fd_ws r = d_workspaceID v" "fd_facet r = fr_id f" "fd_identity r = d_identity v"
      "fd_revision r = 1" "fd_deletedAt r = d_deletedAt v"
    and t: "t = s\<lparr>db_fdocs := db_fdocs s @ [r]\<rparr>" and ok: "fdocs_ok s (db_fdocs t)"
    by simp_all
  note pf = parentFacet_Inr [OF f]
  have good: "facet_good s" using inv by (simp add: facet_inv_def)
  have mem: "r \<in> set (db_fdocs t)" by (simp add: t)
  have "facet_good t"
    by (rule fdocs_update_good [OF good t]) (use pf r ok in \<open>auto simp: t\<close>)
  have "scanFacetDocument t r = Inr d"
    using get pf r \<open>facet_good t\<close> by (intro read_back_fdoc [OF _ _ mem, of f]) (simp_all add: facet_good_def t)
  note sc = scanFacetDocument_Inr [OF this]
  show "d_type d = CollectionFacetDocuments" "ent_key d = ent_key v" "d_revision d = 1"
    using sc r by (simp_all add: ent_key_def)
  have fresh: "fd_id g \<noteq> fd_id r" if "g \<in> set (db_fdocs s)" for g
    using ok imageI [OF that, of fd_id] by (auto simp: fdocs_ok_def fdocs_unique_def t)
  have old: "fdoc_rev s (ent_key v) = None" using fresh r by (auto simp: fdoc_rev_def ent_key_def find_None_iff)
  have ver: "fdoc_rev t k = (if k = ent_key v then Some (0 + 1) else fdoc_rev s k)" for k
  proof (cases "k = ent_key v")
    case True
    have "find (\<lambda>g. fd_ws g = fd_ws r \<and> fd_id g = fd_id r) (db_fdocs t) = Some r" by (rule fdoc_unique_row(1) [OF ok mem])
    then show ?thesis using True r by (simp add: fdoc_rev_def ent_key_def)
  next
    case False
    then have "\<not> (fd_ws r = fst k \<and> fd_id r = snd k)" using r by (auto simp: ent_key_def prod_eq_iff)
    then show ?thesis using False by (simp add: fdoc_rev_def t find_append_other)
  qed
  then show "fdoc_rev t (ent_key v) = Some 1" by simp
  show "db_revisions t = db_revisions s" "db_docs t = db_docs s" "db_users t = db_users s"
    "db_workspaces t = db_workspaces s" by (simp_all add: t)
  have "log_matches CollectionFacetDocuments fdoc_rev (insert (ent_key v) PD) t"
    by (rule fdoc_log.written [OF _ _ ver]) (use inv old v in \<open>simp_all add: facet_inv_def t\<close>)
  moreover have "log_matches CollectionFacets facet_rev PF t"
    by (rule facet_log.unrelated) (use inv in \<open>auto simp: facet_inv_def t facet_rev_def\<close>)
  ultimately show "facet_inv PF (insert (ent_key v) PD) t" using \<open>facet_good t\<close> by (simp add: facet_inv_def)
qed

end
