(* ===== verification/FacetOrder.thy ===== *)
theory FacetOrder
  imports FacetLaws
begin

text \<open>
  Reordering facets. \<open>ReorderFacets\<close> moves every live facet of the workspace out of the way and then writes the
  positions one by one; its effect on the table is the one-pass specification \<open>reordered\<close>: the facet with the
  i-th identity of the request gets position i, and its revision moves on exactly when its position changes.
\<close>

section \<open>The specification\<close>

fun index_in :: "order_item list \<Rightarrow> string \<Rightarrow> nat" where
  "index_in [] x = 0"
| "index_in (item # items) x = (if oi_identity item = x then 0 else Suc (index_in items x))"

definition put_at :: "time \<Rightarrow> id \<Rightarrow> nat \<Rightarrow> facet_row \<Rightarrow> facet_row" where
  "put_at now actor i r =
     (if fr_position r = int i then r
      else r\<lparr>fr_position := int i, fr_updatedBy := actor, fr_updatedAt := now, fr_revision := fr_revision r + 1\<rparr>)"

definition live_in :: "id \<Rightarrow> facet_row \<Rightarrow> bool" where
  "live_in ws r \<longleftrightarrow> fr_ws r = ws \<and> fr_deletedAt r = None"

definition reordered :: "time \<Rightarrow> id \<Rightarrow> id \<Rightarrow> order_item list \<Rightarrow> facet_row \<Rightarrow> facet_row" where
  "reordered now ws actor order r = (if live_in ws r then put_at now actor (index_in order (fr_identity r)) r else r)"

lemma index_in_nth:
  "distinct (map oi_identity items) \<Longrightarrow> i < length items \<Longrightarrow> index_in items (oi_identity (items ! i)) = i"
proof (induction items arbitrary: i)
  case (Cons a items)
  show ?case
  proof (cases i)
    case (Suc j)
    then have "items ! j \<in> set items" using Cons.prems(2) by simp
    then have "oi_identity a \<noteq> oi_identity (items ! j)" using Cons.prems(1) by auto
    then show ?thesis using Cons Suc by simp
  qed simp
qed simp

lemma index_in_less: "x \<in> oi_identity ` set items \<longleftrightarrow> index_in items x < length items"
  by (induction items) auto

lemma nth_index_in: "index_in items x < length items \<Longrightarrow> oi_identity (items ! index_in items x) = x"
  by (induction items) auto

text \<open>A loop over the indexed elements of a list.\<close>

lemma foldE_indexed:
  assumes "foldE f (zip [0..<length xs] xs) s = Inr t" "P 0 s"
    and step: "\<And>i s t. i < length xs \<Longrightarrow> P i s \<Longrightarrow> f (i, xs ! i) s = Inr t \<Longrightarrow> P (Suc i) t"
  shows "P (length xs) t"
proof -
  have "P (k + length ys) t" if "foldE f (zip [k..<k + length ys] ys) s = Inr t" "P k s" "ys = drop k xs" "k + length ys = length xs" for k ys s
    using that
  proof (induction ys arbitrary: k s)
    case (Cons y ys)
    have k: "k < length xs" using Cons.prems(4) by simp
    from Cons_nth_drop_Suc [OF this] Cons.prems(3) have y: "xs ! k = y" "drop (Suc k) xs = ys"
      by (metis list.inject)+
    have "[k..<k + length (y # ys)] = k # [Suc k..<Suc k + length ys]" 
      using upt_conv_Cons [of k "k + length (y # ys)"] by (simp del: upt_Suc)
    then obtain u where u: "f (k, y) s = Inr u" "foldE f (zip [Suc k..<Suc k + length ys] ys) u = Inr t"
      using Cons.prems(1) by (auto simp: bindE_Inr_iff)
    have "P (Suc k) u" using step [OF k Cons.prems(2)] u(1) y by simp
    from Cons.IH [OF u(2) this] y Cons.prems(4) show ?case by simp
  qed simp
  from this [of 0 xs s] assms(1,2) show ?thesis by simp
qed

section \<open>The validation loop\<close>

lemma check_order_Inr:
  "check_order current seen items = Inr () \<Longrightarrow>
    (\<forall>item \<in> set items. \<exists>r. find (\<lambda>r. fr_identity r = oi_identity item) current = Some r \<and> fr_revision r = oi_expected item)
    \<and> distinct (map oi_identity items) \<and> set seen \<inter> oi_identity ` set items = {}"
proof (induction items arbitrary: seen)
  case (Cons item items)
  from Cons.prems obtain r where r: "find (\<lambda>r. fr_identity r = oi_identity item) current = Some r"
    "fr_revision r = oi_expected item" "oi_identity item \<notin> set seen"
    and rest: "check_order current (oi_identity item # seen) items = Inr ()"
    by (auto simp: failIf_Inr_iff split: option.splits)
  from Cons.IH [OF rest] r show ?case by auto
qed simp

text \<open>The live facets of the workspace and the items of a request that passed the check.\<close>

lemma order_covers:
  assumes u: "distinct (map fr_identity current)" and len: "length current = length items"
    and chk: "check_order current [] items = Inr ()" and r: "r \<in> set current"
  shows "index_in items (fr_identity r) < length items"
proof -
  note c = check_order_Inr [OF chk]
  have "oi_identity ` set items \<subseteq> fr_identity ` set current" using c by (force dest: find_SomeD)
  moreover have "card (oi_identity ` set items) = card (fr_identity ` set current)"
    using c u len by (metis distinct_card length_map set_map)
  ultimately have "oi_identity ` set items = fr_identity ` set current" by (intro card_subset_eq) simp_all
  then show ?thesis using r by (simp flip: index_in_less)
qed


section \<open>The update loop\<close>

definition staged :: "time \<Rightarrow> id \<Rightarrow> id \<Rightarrow> order_item list \<Rightarrow> nat \<Rightarrow> facet_row \<Rightarrow> facet_row" where
  "staged now ws actor items i r =
     (if \<not> live_in ws r then r
      else if index_in items (fr_identity r) < i then put_at now actor (index_in items (fr_identity r)) r
      else r\<lparr>fr_position := fr_position r + reorder_offset\<rparr>)"

text \<open>The row is among the first \<open>i\<close> of the request and changes its position.\<close>

definition moved_row :: "id \<Rightarrow> order_item list \<Rightarrow> nat \<Rightarrow> facet_row \<Rightarrow> bool" where
  "moved_row ws items i r \<longleftrightarrow> live_in ws r \<and> index_in items (fr_identity r) < i
     \<and> fr_position r \<noteq> int (index_in items (fr_identity r))"

definition changed_ok :: "db \<Rightarrow> id \<Rightarrow> order_item list \<Rightarrow> nat \<Rightarrow> document list \<Rightarrow> bool" where
  "changed_ok s ws items i changed \<longleftrightarrow> distinct (map ent_key changed)
     \<and> (\<forall>d \<in> set changed. d_type d = CollectionFacets \<and> (\<exists>r \<in> set (db_facets s). moved_row ws items i r
          \<and> ent_key d = (ws, fr_id r) \<and> d_revision d = fr_revision r + 1))
     \<and> (\<forall>r \<in> set (db_facets s). moved_row ws items i r \<longrightarrow> (ws, fr_id r) \<in> ent_key ` set changed)"

lemma put_at_keeps [simp]:
  "fr_id (put_at now a i r) = fr_id r" "fr_ws (put_at now a i r) = fr_ws r" "fr_identity (put_at now a i r) = fr_identity r"
  "fr_deletedAt (put_at now a i r) = fr_deletedAt r" "fr_position (put_at now a i r) = int i"
  "fr_revision (put_at now a i r) = (if fr_position r = int i then fr_revision r else fr_revision r + 1)"
  "live_in ws (put_at now a i r) = live_in ws r"
  by (simp_all add: put_at_def live_in_def)

lemma staged_keeps [simp]:
  "fr_id (staged now ws a items i r) = fr_id r" "fr_ws (staged now ws a items i r) = fr_ws r"
  "fr_identity (staged now ws a items i r) = fr_identity r" "fr_deletedAt (staged now ws a items i r) = fr_deletedAt r"
  by (simp_all add: staged_def)

lemma same_position: "fr_position r = p \<Longrightarrow> r\<lparr>fr_position := p\<rparr> = r"
  by (cases r) simp

text \<open>One iteration turns the rows of stage \<open>i\<close> into the rows of stage \<open>i + 1\<close>.\<close>

definition order_hit :: "id \<Rightarrow> facet_row \<Rightarrow> nat \<Rightarrow> order_item \<Rightarrow> facet_row \<Rightarrow> bool" where
  "order_hit ws v i item r \<longleftrightarrow> fr_id r = fr_id v \<and> fr_ws r = ws \<and> (fr_position v = int i \<or> fr_revision r = oi_expected item)"

definition order_write :: "time \<Rightarrow> id \<Rightarrow> facet_row \<Rightarrow> nat \<Rightarrow> facet_row \<Rightarrow> facet_row" where
  "order_write now actor v i r =
     (if fr_position v = int i then r\<lparr>fr_position := int i\<rparr>
      else r\<lparr>fr_position := int i, fr_updatedBy := actor, fr_updatedAt := now, fr_revision := fr_revision r + 1\<rparr>)"

lemma stage_next:
  assumes ok: "facets_ok s0 rows" and dist: "distinct (map oi_identity items)" and i: "i < length items"
    and v: "v \<in> set rows" "live_in ws v" "fr_identity v = oi_identity (items ! i)" "fr_revision v = oi_expected (items ! i)"
  shows "updateWhere (order_hit ws v i (items ! i)) (order_write now actor v i) (map (staged now ws actor items i) rows)
      = map (staged now ws actor items (Suc i)) rows"
    "\<And>r. r \<in> set rows \<Longrightarrow> moved_row ws items (Suc i) r \<longleftrightarrow> moved_row ws items i r \<or> (r = v \<and> fr_position v \<noteq> int i)"
    "index_in items (fr_identity v) = i"
proof -
  have ws: "fr_ws v = ws" using v(2) by (simp add: live_in_def)
  show idx: "index_in items (fr_identity v) = i" using v(3) index_in_nth [OF dist i] by simp
  have by_index: "r = v" if "r \<in> set rows" "live_in ws r" "index_in items (fr_identity r) = i" for r
  proof -
    have "fr_identity r = fr_identity v" using that(3) i v(3) nth_index_in [of items "fr_identity r"] by simp
    moreover have "fr_ws r = fr_ws v" using that(2) ws by (simp add: live_in_def)
    ultimately show ?thesis by (intro facet_identity_inj [OF ok that(1) v(1)])
  qed
  have stage_v: "staged now ws actor items i v = v\<lparr>fr_position := fr_position v + reorder_offset\<rparr>"
    "staged now ws actor items (Suc i) v = put_at now actor i v"
    using v(2) idx by (simp_all add: staged_def)
  show "updateWhere (order_hit ws v i (items ! i)) (order_write now actor v i) (map (staged now ws actor items i) rows)
      = map (staged now ws actor items (Suc i)) rows"
    unfolding updateWhere_def map_map comp_def
  proof (rule map_cong [OF refl])
    fix r assume r: "r \<in> set rows"
    show "(if order_hit ws v i (items ! i) (staged now ws actor items i r)
        then order_write now actor v i (staged now ws actor items i r)
        else staged now ws actor items i r) = staged now ws actor items (Suc i) r"
    proof (cases "r = v")
      case True
      then show ?thesis using stage_v ws v(4) by (simp add: put_at_def same_position order_hit_def order_write_def)
    next
      case False
      then have "fr_id r \<noteq> fr_id v" "\<not> (live_in ws r \<and> index_in items (fr_identity r) = i)"
        using facet_id_inj [OF ok r v(1)] by_index [OF r] by blast+
      then show ?thesis by (auto simp: staged_def less_Suc_eq order_hit_def)
    qed
  qed
  show "moved_row ws items (Suc i) r \<longleftrightarrow> moved_row ws items i r \<or> (r = v \<and> fr_position v \<noteq> int i)"
    if "r \<in> set rows" for r
    using by_index [OF that] idx v(2) by (auto simp: moved_row_def less_Suc_eq)
qed

lemma order_fun:
  "(\<lambda>r. fr_id r = fr_id v \<and> fr_ws r = ws \<and> (fr_position v = int i \<or> fr_revision r = oi_expected item)) = order_hit ws v i item"
  "(\<lambda>r. if fr_position v = int i then r\<lparr>fr_position := int i\<rparr>
      else r\<lparr>fr_position := int i, fr_updatedBy := actor, fr_updatedAt := now, fr_revision := fr_revision r + 1\<rparr>)
    = order_write now actor v i"
  by (simp_all add: fun_eq_iff order_hit_def order_write_def)

lemma reorder_step_Inr:
  assumes "reorder_step now ws actor current (i, item) (changed, u) = Inr (changed', u')"
  obtains v where "find (\<lambda>r. fr_identity r = oi_identity item) current = Some v"
    "u' = u\<lparr>db_facets := updateWhere (order_hit ws v i item) (order_write now actor v i) (db_facets u)\<rparr>"
    "facets_ok u (db_facets u')"
    "if fr_position v = int i then changed' = changed
     else \<exists>d. GetFacet ws (oi_identity item) True u' = Inr d \<and> changed' = changed @ [d]"
proof -
  from assms obtain v where v: "find (\<lambda>r. fr_identity r = oi_identity item) current = Some v"
    by (auto simp: reorder_step_def Let_def split: option.splits)
  show thesis
    using assms v
    by (intro that [OF v]) (auto simp: reorder_step_def Let_def order_fun res_iffs commit_facets_Inr split: if_splits)
qed

lemma reorder_loop_step:
  assumes ok: "facets_ok s (db_facets s)" and dist: "distinct (map oi_identity items)" and i: "i < length items"
    and cur: "\<And>r. r \<in> set current \<longleftrightarrow> r \<in> set (db_facets s) \<and> live_in ws r"
    and ver: "\<And>item r. item \<in> set items \<Longrightarrow> find (\<lambda>r. fr_identity r = oi_identity item) current = Some r \<Longrightarrow> fr_revision r = oi_expected item"
    and u: "u = s\<lparr>db_facets := map (staged now ws actor items i) (db_facets s)\<rparr>" and ch: "changed_ok s ws items i changed"
    and st: "reorder_step now ws actor current (i, items ! i) (changed, u) = Inr (changed', u')"
  shows "u' = s\<lparr>db_facets := map (staged now ws actor items (Suc i)) (db_facets s)\<rparr> \<and> changed_ok s ws items (Suc i) changed'"
proof -
  let ?item = "items ! i"
  obtain v where v: "find (\<lambda>r. fr_identity r = oi_identity ?item) current = Some v"
    and u': "u' = u\<lparr>db_facets := updateWhere (order_hit ws v i ?item) (order_write now actor v i) (db_facets u)\<rparr>"
    and oku: "facets_ok u (db_facets u')"
    and out: "if fr_position v = int i then changed' = changed
     else \<exists>d. GetFacet ws (oi_identity ?item) True u' = Inr d \<and> changed' = changed @ [d]"
    by (rule reorder_step_Inr [OF st])
  have vr: "v \<in> set (db_facets s)" "live_in ws v" "fr_identity v = oi_identity ?item"
    using find_SomeD [OF v] cur by auto
  have ws: "fr_ws v = ws" using vr(2) by (simp add: live_in_def)
  note nx = stage_next [OF ok dist i vr ver [OF nth_mem [OF i] v]]
  have rows: "u' = s\<lparr>db_facets := map (staged now ws actor items (Suc i)) (db_facets s)\<rparr>"
    unfolding u' u by (simp add: nx(1))
  note mv = nx(2) and idx = nx(3)
  have not_v: "\<not> moved_row ws items i v" using idx by (simp add: moved_row_def)
  have stage_v: "staged now ws actor items (Suc i) v = put_at now actor i v" using vr(2) idx by (simp add: staged_def)
  have "changed_ok s ws items (Suc i) changed'"
  proof (cases "fr_position v = int i")
    case True
    then have "moved_row ws items (Suc i) r = moved_row ws items i r" if "r \<in> set (db_facets s)" for r using mv [OF that] by simp
    then show ?thesis using ch out True by (simp add: changed_ok_def)
  next
    case False
    then obtain d where get: "GetFacet ws (oi_identity ?item) True u' = Inr d" and c: "changed' = changed @ [d]"
      using out by auto
    have mem: "put_at now actor i v \<in> set (db_facets u')" using vr(1) stage_v by (auto simp: rows intro!: image_eqI [of _ _ v])
    have "facet_by_identity u' ws (oi_identity ?item) True = Some (put_at now actor i v)"
      using facet_unique_row(2) [OF oku mem] vr ws by (simp add: facet_by_identity_def)
    then have "scanFacet u' (put_at now actor i v) = Inr d" using get by (simp add: GetFacet_def)
    note sc = scanFacet_Inr [OF this]
    have d: "d_type d = CollectionFacets" "ent_key d = (ws, fr_id v)" "d_revision d = fr_revision v + 1"
      using sc ws False by (simp_all add: ent_key_def)
    have "ent_key d \<notin> ent_key ` set changed"
    proof
      assume "ent_key d \<in> ent_key ` set changed"
      then obtain x where "x \<in> set changed" "ent_key x = (ws, fr_id v)" using d(2) by auto
      with ch obtain r where "r \<in> set (db_facets s)" "moved_row ws items i r" "fr_id r = fr_id v"
        by (auto simp: changed_ok_def)
      with facet_id_inj [OF ok _ vr(1)] not_v show False by blast
    qed
    moreover have "moved_row ws items i r \<Longrightarrow> moved_row ws items (Suc i) r" for r by (simp add: moved_row_def)
    ultimately show ?thesis
      unfolding changed_ok_def c
    proof (intro conjI ballI impI)
      assume new: "ent_key d \<notin> ent_key ` set changed"
        and mono: "\<And>r. moved_row ws items i r \<Longrightarrow> moved_row ws items (Suc i) r"
      show "distinct (map ent_key (changed @ [d]))" using ch new by (simp add: changed_ok_def)
      fix x assume "x \<in> set (changed @ [d])"
      then consider "x \<in> set changed" | "x = d" by auto
      then show "d_type x = CollectionFacets" "\<exists>r \<in> set (db_facets s). moved_row ws items (Suc i) r
          \<and> ent_key x = (ws, fr_id r) \<and> d_revision x = fr_revision r + 1"
        using ch mono d vr(1) mv [OF vr(1)] False by (cases; fastforce simp: changed_ok_def)+
    next
      fix r assume "r \<in> set (db_facets s)" "moved_row ws items (Suc i) r"
      then show "(ws, fr_id r) \<in> ent_key ` set (changed @ [d])"
        using mv [of r] ch d(2) by (auto simp: changed_ok_def)
    qed
  qed
  with rows show ?thesis by simp
qed


section \<open>The whole reorder\<close>

lemma find_map_same_key:
  "(\<And>x. x \<in> set xs \<Longrightarrow> p (f x) = p x) \<Longrightarrow> find p (map f xs) = map_option f (find p xs)"
  by (induction xs) auto

lemma ReorderFacets_rows:
  assumes ro: "ReorderFacets now ws items actor s = Inr (changed, t)" and ok: "facets_ok s (db_facets s)"
  shows "t = s\<lparr>db_facets := map (reordered now ws actor items) (db_facets s)\<rparr>"
    "changed_ok s ws items (length items) changed" "distinct (map oi_identity items)"
    "\<And>r. r \<in> set (db_facets s) \<Longrightarrow> live_in ws r \<Longrightarrow> index_in items (fr_identity r) < length items"
    "length (filter (live_in ws) (db_facets s)) = length items" "facets_ok t (db_facets t)"
proof -
  let ?cur = "by_position (filter (\<lambda>r. fr_ws r = ws) (active_facets (db_facets s)))"
  have live: "filter (\<lambda>r. fr_ws r = ws) (active_facets (db_facets s)) = filter (live_in ws) (db_facets s)"
    by (simp add: active_facets_def live_in_def [abs_def] conj_commute)
  have cur: "r \<in> set ?cur \<longleftrightarrow> r \<in> set (db_facets s) \<and> live_in ws r" for r by (simp add: live by_position_def)
  have lens: "length ?cur = length (filter (live_in ws) (db_facets s))" by (simp add: live by_position_def)
  from ro have len: "length ?cur = length items" and chk: "check_order ?cur [] items = Inr ()"
    unfolding ReorderFacets_def Let_def by (simp_all add: res_iffs)
  note co = check_order_Inr [OF chk]
  have inj: "inj_on fr_identity (set ?cur)"
    using cur facet_identity_inj [OF ok] by (intro inj_onI) (auto simp: live_in_def)
  have "distinct (db_facets s)" using ok by (auto simp: facets_ok_def facets_unique_def distinct_map)
  then have dist: "distinct (map fr_identity ?cur)" using inj by (simp add: distinct_map by_position_def active_facets_def)
  show d: "distinct (map oi_identity items)" using co by simp
  show idx: "index_in items (fr_identity r) < length items" if "r \<in> set (db_facets s)" "live_in ws r" for r
    using order_covers [OF dist len chk] cur that by blast
  show "length (filter (live_in ws) (db_facets s)) = length items" using len lens by simp
  have ver: "\<And>item r. item \<in> set items \<Longrightarrow> find (\<lambda>r. fr_identity r = oi_identity item) ?cur = Some r \<Longrightarrow> fr_revision r = oi_expected item"
    using co by fastforce
  have fin: "staged now ws actor items (length items) r = reordered now ws actor items r" if "r \<in> set (db_facets s)" for r
    using idx [OF that] by (simp add: staged_def reordered_def)
  have "t = s\<lparr>db_facets := map (staged now ws actor items (length items)) (db_facets s)\<rparr>
    \<and> changed_ok s ws items (length items) changed \<and> facets_ok t (db_facets t)"
  proof (cases "?cur = []")
    case True
    then have "items = []" "filter (live_in ws) (db_facets s) = []" using len lens by simp_all
    moreover from this have "\<not> live_in ws r" if "r \<in> set (db_facets s)" for r using that by (simp add: filter_empty_conv)
    moreover have "changed = [] \<and> t = s" using ro True unfolding ReorderFacets_def Let_def by (simp add: res_iffs)
    ultimately show ?thesis using ok
      by (simp add: changed_ok_def moved_row_def staged_def map_idI)
  next
    case False
    let ?s1 = "s\<lparr>db_facets := map (staged now ws actor items 0) (db_facets s)\<rparr>"
    have shift: "updateWhere (\<lambda>r. fr_ws r = ws \<and> fr_deletedAt r = None) (\<lambda>r. r\<lparr>fr_position := fr_position r + reorder_offset\<rparr>) (db_facets s)
      = map (staged now ws actor items 0) (db_facets s)"
      by (simp add: updateWhere_def staged_def [abs_def] live_in_def)
    from ro False have c: "facets_ok s (db_facets ?s1)"
      and loop: "foldE (reorder_step now ws actor ?cur) (zip [0..<length items] items) ([], ?s1) = Inr (changed, t)"
      unfolding ReorderFacets_def Let_def shift by (auto simp: res_iffs commit_facets_Inr)
    let ?P = "\<lambda>i (st :: document list \<times> db). snd st = s\<lparr>db_facets := map (staged now ws actor items i) (db_facets s)\<rparr>
       \<and> changed_ok s ws items i (fst st) \<and> facets_ok (snd st) (db_facets (snd st))"
    have "?P (length items) (changed, t)"
    proof (rule foldE_indexed [OF loop, of ?P])
      show "?P 0 ([], ?s1)" using c facet_ok_cong(1) [of ?s1 s] by (simp add: changed_ok_def moved_row_def ws_of_def)
      fix i and st st' :: "document list \<times> db"
      assume i: "i < length items" and P: "?P i st" and step: "reorder_step now ws actor ?cur (i, items ! i) st = Inr st'"
      obtain ch u ch' u' where st: "st = (ch, u)" "st' = (ch', u')" by (cases st; cases st')
      have "u' = s\<lparr>db_facets := map (staged now ws actor items (Suc i)) (db_facets s)\<rparr> \<and> changed_ok s ws items (Suc i) ch'"
        by (rule reorder_loop_step [OF ok d i cur ver]) (use P step st in auto)
      moreover have "facets_ok u (db_facets u')"
        by (rule reorder_step_Inr [OF step [unfolded st]]) blast
      moreover from this have "facets_ok u' (db_facets u')"
        using facet_ok_cong(1) [of u' u] P st calculation(1) by (simp add: ws_of_def)
      ultimately show "?P (Suc i) st'" using st by simp
    qed
    then show ?thesis unfolding fst_conv snd_conv .
  qed
  moreover have "map (staged now ws actor items (length items)) (db_facets s) = map (reordered now ws actor items) (db_facets s)"
    by (rule map_cong [OF refl fin])
  ultimately show "t = s\<lparr>db_facets := map (reordered now ws actor items) (db_facets s)\<rparr>"
    "changed_ok s ws items (length items) changed" "facets_ok t (db_facets t)" by metis+
qed

text \<open>The listing after a reorder: the requested order.\<close>

lemma scan_all_facets:
  assumes "\<And>r. r \<in> set rows \<Longrightarrow> facet_row_ok s r"
  shows "map d_identity (scan_all (scanFacet s) rows) = map fr_identity rows"
  using assms
proof (induction rows)
  case (Cons r rows)
  then have "facet_row_ok s r" by simp
  then obtain d where d: "scanFacet s r = Inr d" by (auto simp: scanFacet_def facet_row_ok_def)
  with Cons scanFacet_Inr [OF d] show ?case by (simp add: scan_all_def)
qed (simp add: scan_all_def)

lemma reordered_keeps [simp]:
  "fr_id (reordered now ws a items r) = fr_id r" "fr_ws (reordered now ws a items r) = fr_ws r"
  "fr_identity (reordered now ws a items r) = fr_identity r" "fr_deletedAt (reordered now ws a items r) = fr_deletedAt r"
  "live_in w (reordered now ws a items r) = live_in w r"
  by (simp_all add: reordered_def live_in_def)

lemma ReorderFacets_listing:
  assumes ro: "ReorderFacets now ws items actor s = Inr (changed, t)" and ok: "facets_ok s (db_facets s)"
  shows "map d_identity (ListFacets ws False t) = map oi_identity items"
proof -
  note rr = ReorderFacets_rows [OF ro ok]
  let ?rows = "filter (\<lambda>r. fr_ws r = ws \<and> (False \<or> fr_deletedAt r = None)) (db_facets t)"
  let ?L = "by_position ?rows"
  have rows: "?rows = map (reordered now ws actor items) (filter (live_in ws) (db_facets s))"
  proof -
    have "(\<lambda>r. fr_ws r = ws \<and> (False \<or> fr_deletedAt r = None)) = live_in ws" by (simp add: live_in_def fun_eq_iff)
    then show ?thesis by (simp add: rr(1) filter_map comp_def)
  qed
  have L: "set ?L = reordered now ws actor items ` {r \<in> set (db_facets s). live_in ws r}"
    by (simp only: by_position_def set_sort rows) auto
  have pos: "fr_position x = int (index_in items (fr_identity x)) \<and> index_in items (fr_identity x) < length items" if "x \<in> set ?L" for x
    using that unfolding L using rr(4) by (auto simp: reordered_def)
  have dpos: "distinct (map fr_position ?L)"
  proof -
    have "inj_on fr_position (set ?L)"
    proof (rule inj_onI)
      fix x y assume xy: "x \<in> set ?L" "y \<in> set ?L" "fr_position x = fr_position y"
      then have "index_in items (fr_identity x) = index_in items (fr_identity y)" using pos by simp
      then have "fr_identity x = fr_identity y" using nth_index_in [of items "fr_identity x"] nth_index_in [of items "fr_identity y"] pos xy by simp
      moreover have "x \<in> set (db_facets t)" "y \<in> set (db_facets t)" "fr_ws x = ws" "fr_ws y = ws"
        using xy(1,2) by (simp_all add: by_position_def)
      ultimately show "x = y" by (intro facet_identity_inj [OF rr(6)]) simp_all
    qed
    moreover have "distinct ?L"
      using rr(6) by (auto simp: by_position_def facets_ok_def facets_unique_def distinct_map)
    ultimately show ?thesis by (simp add: distinct_map)
  qed
  have "length ?L = length items" using rr(5) by (simp only: by_position_def length_sort rows length_map)
  then have "card (set (map fr_position ?L)) = length items" using distinct_card [OF dpos] by simp
  moreover have "set (map fr_position ?L) \<subseteq> int ` {0..<length items}" using pos by auto
  moreover have "card (int ` {0..<length items}) = length items" by (simp add: card_image)
  ultimately have "set (map fr_position ?L) = int ` {0..<length items}" by (intro card_subset_eq) simp_all
  moreover have "sorted (map fr_position ?L)" by (simp add: by_position_def)
  ultimately have "map fr_position ?L = map int [0..<length items]"
    using dpos by (intro sorted_distinct_set_unique) (auto simp: distinct_map sorted_iff_nth_mono)
  then have "map (\<lambda>p. oi_identity (items ! nat p)) (map fr_position ?L) = map (\<lambda>i. oi_identity (items ! i)) [0..<length items]"
    by simp
  moreover have "map (\<lambda>p. oi_identity (items ! nat p)) (map fr_position ?L) = map fr_identity ?L"
    using pos by (simp add: nth_index_in)
  moreover have "map (\<lambda>i. oi_identity (items ! i)) [0..<length items] = map oi_identity items"
    by (simp add: map_nth flip: map_map [unfolded comp_def, of _ "(!) items"])
  ultimately have ids: "map fr_identity ?L = map oi_identity items" by simp
  have live: "sort_key (\<lambda>r. if fr_deletedAt r = None then 0 else 1 :: nat) ?L = ?L"
  proof (rule sort_key_id_if_sorted)
    have "map (\<lambda>r. if fr_deletedAt r = None then 0 else 1 :: nat) ?L = map (\<lambda>_. 0) ?L"
      by (rule map_cong [OF refl]) (simp add: by_position_def)
    then show "sorted (map (\<lambda>r. if fr_deletedAt r = None then 0 else 1 :: nat) ?L)"
      by (simp only: map_replicate_const sorted_replicate)
  qed
  have "map d_identity (ListFacets ws False t) = map fr_identity ?L"
    unfolding ListFacets_def live using rr(6) by (subst scan_all_facets) (auto simp: by_position_def facets_ok_def)
  with ids show ?thesis by simp
qed


section \<open>A correct request is never refused\<close>

text \<open>The offset keeps the unique positions apart while the rows are moved one by one.\<close>

lemma facet_position_inj:
  "facets_ok s rows \<Longrightarrow> r \<in> set (active_facets rows) \<Longrightarrow> q \<in> set (active_facets rows) \<Longrightarrow> fr_ws r = fr_ws q
   \<Longrightarrow> fr_position r = fr_position q \<Longrightarrow> r = q"
  by (simp add: facets_ok_def facets_unique_def distinct_map inj_on_def)

lemma staged_ok:
  assumes ok: "facets_ok s rows" and n: "int (length items) \<le> reorder_offset" and actor: "db_user s actor \<noteq> None"
    and idx: "\<And>r. r \<in> set rows \<Longrightarrow> live_in ws r \<Longrightarrow> index_in items (fr_identity r) < length items"
  shows "facets_ok s (map (staged now ws actor items i) rows)"
proof -
  let ?S = "staged now ws actor items i"
  have old: "r \<in> set rows \<Longrightarrow> 0 \<le> fr_position r \<and> 0 < fr_revision r \<and> facet_row_ok s r" for r
    using ok by (simp add: facets_ok_def)
  have act: "active_facets (map ?S rows) = map ?S (active_facets rows)"
    by (simp add: active_facets_def filter_map comp_def)
  have pos: "fr_position (?S r) = (if \<not> live_in ws r then fr_position r
      else if index_in items (fr_identity r) < i then int (index_in items (fr_identity r)) else fr_position r + reorder_offset)" for r
    by (simp add: staged_def)
  have "inj_on (\<lambda>r. (fr_ws (?S r), fr_position (?S r))) (set (active_facets rows))"
  proof (rule inj_onI)
    fix r q assume m: "r \<in> set (active_facets rows)" "q \<in> set (active_facets rows)"
      and e: "(fr_ws (?S r), fr_position (?S r)) = (fr_ws (?S q), fr_position (?S q))"
    have mem: "r \<in> set rows" "q \<in> set rows" "fr_deletedAt r = None" "fr_deletedAt q = None"
      using m by (simp_all add: active_facets_def)
    have w: "fr_ws r = fr_ws q" "live_in ws r = live_in ws q" using e mem by (simp_all add: live_in_def)
    have same_pos: "r = q" if "fr_position r = fr_position q"
      by (rule facet_position_inj [OF ok m w(1) that])
    show "r = q"
    proof (cases "live_in ws r")
      case True
      then have l: "live_in ws q" using w(2) by simp
      have b: "index_in items (fr_identity r) < length items" "index_in items (fr_identity q) < length items"
        using idx mem True l by simp_all
      have "index_in items (fr_identity r) = index_in items (fr_identity q) \<or> fr_position r = fr_position q"
        using e True l b n old [OF mem(1)] old [OF mem(2)] by (auto simp: pos split: if_splits)
      then show ?thesis
      proof
        assume "index_in items (fr_identity r) = index_in items (fr_identity q)"
        then have "fr_identity r = fr_identity q" using nth_index_in [OF b(1)] nth_index_in [OF b(2)] by metis
        then show ?thesis by (rule facet_identity_inj [OF ok mem(1,2) w(1)])
      qed (rule same_pos)
    next
      case False
      then show ?thesis using e w(2) same_pos by (simp add: pos)
    qed
  qed
  moreover have "distinct (active_facets rows)" using ok by (auto simp: facets_ok_def facets_unique_def distinct_map)
  ultimately have "distinct (map (\<lambda>r. (fr_ws r, fr_position r)) (active_facets (map ?S rows)))"
    unfolding act map_map comp_def by (simp add: distinct_map)
  then have "facets_unique (map ?S rows)"
    using ok by (simp add: facets_ok_def facets_unique_def comp_def)
  moreover have "0 \<le> fr_position (?S r) \<and> 0 < fr_revision (?S r) \<and> facet_row_ok s (?S r)" if "r \<in> set rows" for r
    using old [OF that] actor by (auto simp: pos reorder_offset_def) (auto simp: staged_def put_at_def facet_row_ok_def)
  ultimately show ?thesis by (simp add: facets_ok_def)
qed

lemma check_order_ok:
  assumes "\<And>item. item \<in> set items \<Longrightarrow> \<exists>r. find (\<lambda>r. fr_identity r = oi_identity item) current = Some r \<and> fr_revision r = oi_expected item"
    "distinct (map oi_identity items)" "set seen \<inter> oi_identity ` set items = {}"
  shows "check_order current seen items = Inr ()"
  using assms
proof (induction items arbitrary: seen)
  case (Cons item items)
  obtain r where r: "find (\<lambda>r. fr_identity r = oi_identity item) current = Some r" "fr_revision r = oi_expected item"
    using Cons.prems(1) by auto
  have "check_order current (oi_identity item # seen) items = Inr ()"
    by (rule Cons.IH) (use Cons.prems in auto)
  with r Cons.prems(3) show ?case by auto
qed simp

lemma foldE_indexed_ok:
  assumes "P 0 s" "\<And>i s. i < length xs \<Longrightarrow> P i s \<Longrightarrow> \<exists>t. f (i, xs ! i) s = Inr t \<and> P (Suc i) t"
  shows "\<exists>t. foldE f (zip [0..<length xs] xs) s = Inr t"
proof -
  have "\<exists>t. foldE f (zip [k..<k + length ys] ys) s = Inr t" if "P k s" "ys = drop k xs" "k + length ys = length xs" for k ys s
    using that
  proof (induction ys arbitrary: k s)
    case (Cons y ys)
    have k: "k < length xs" using Cons.prems(3) by simp
    from Cons_nth_drop_Suc [OF this] Cons.prems(2) have y: "xs ! k = y" "drop (Suc k) xs = ys"
      by (metis list.inject)+
    have u: "[k..<k + length (y # ys)] = k # [Suc k..<Suc k + length ys]"
      using upt_conv_Cons [of k "k + length (y # ys)"] by (simp del: upt_Suc)
    obtain t where t: "f (k, y) s = Inr t" "P (Suc k) t" using assms(2) [OF k Cons.prems(1)] y by auto
    have "\<exists>v. foldE f (zip [Suc k..<Suc k + length ys] ys) t = Inr v"
      by (rule Cons.IH [OF t(2)]) (use y Cons.prems(3) in simp_all)
    with t(1) show ?case unfolding u by simp
  qed simp
  from this [of 0 s xs] assms(1) show ?thesis by simp
qed

lemma GetFacet_row:
  assumes "facets_ok s (db_facets s)" "r \<in> set (db_facets s)"
  shows "\<exists>d. GetFacet (fr_ws r) (fr_identity r) True s = Inr d"
  using facet_unique_row(2) [OF assms] assms
  by (auto simp: GetFacet_def facet_by_identity_def scanFacet_def facets_ok_def facet_row_ok_def split: option.splits)

lemma ReorderFacets_ok:
  assumes ok: "facets_ok s (db_facets s)" and n: "int (length items) \<le> reorder_offset" and actor: "db_user s actor \<noteq> None"
    and dist: "distinct (map oi_identity items)"
    and exact: "(\<lambda>i. (oi_identity i, oi_expected i)) ` set items
      = (\<lambda>r. (fr_identity r, fr_revision r)) ` {r \<in> set (db_facets s). live_in ws r}"
  shows "\<exists>changed t. ReorderFacets now ws items actor s = Inr (changed, t)"
proof -
  let ?cur = "by_position (filter (\<lambda>r. fr_ws r = ws) (active_facets (db_facets s)))"
  have live: "filter (\<lambda>r. fr_ws r = ws) (active_facets (db_facets s)) = filter (live_in ws) (db_facets s)"
    by (simp add: active_facets_def live_in_def [abs_def] conj_commute)
  have cur: "r \<in> set ?cur \<longleftrightarrow> r \<in> set (db_facets s) \<and> live_in ws r" for r by (simp add: live by_position_def)
  have inj: "inj_on fr_identity (set ?cur)"
    using cur facet_identity_inj [OF ok] by (intro inj_onI) (auto simp: live_in_def)
  have "distinct (db_facets s)" using ok by (auto simp: facets_ok_def facets_unique_def distinct_map)
  then have dcur: "distinct (map fr_identity ?cur)" using inj by (simp add: distinct_map by_position_def active_facets_def)
  have "oi_identity ` set items = fst ` ((\<lambda>i. (oi_identity i, oi_expected i)) ` set items)" by (simp add: image_image)
  also have "\<dots> = fr_identity ` set ?cur" unfolding exact using cur by (auto simp: image_image)
  finally have ids: "oi_identity ` set items = fr_identity ` set ?cur" .
  then have len: "length ?cur = length items" using dcur dist by (metis distinct_card length_map set_map)
  have found: "\<exists>r. find (\<lambda>r. fr_identity r = oi_identity item) ?cur = Some r \<and> fr_revision r = oi_expected item"
    if "item \<in> set items" for item
  proof -
    have "(oi_identity item, oi_expected item) \<in> (\<lambda>r. (fr_identity r, fr_revision r)) ` {r \<in> set (db_facets s). live_in ws r}"
      using that unfolding exact [symmetric] by blast
    then obtain r where r: "r \<in> set ?cur" "fr_identity r = oi_identity item" "fr_revision r = oi_expected item" using cur by auto
    have "find (\<lambda>x. fr_identity x = oi_identity item) ?cur = Some r"
      by (rule find_unique [OF dcur r(1)]) (simp_all add: r(2))
    with r(3) show ?thesis by blast
  qed
  have chk: "check_order ?cur [] items = Inr ()" by (rule check_order_ok) (use found dist in simp_all)
  have idx: "index_in items (fr_identity r) < length items" if "r \<in> set (db_facets s)" "live_in ws r" for r
    using order_covers [OF dcur len chk] cur that by blast
  note stok = staged_ok [OF ok n actor idx]
  show ?thesis
  proof (cases "?cur = []")
    case True
    then show ?thesis unfolding ReorderFacets_def Let_def using len chk by simp
  next
    case False
    let ?s1 = "s\<lparr>db_facets := map (staged now ws actor items 0) (db_facets s)\<rparr>"
    have shift: "updateWhere (\<lambda>r. fr_ws r = ws \<and> fr_deletedAt r = None) (\<lambda>r. r\<lparr>fr_position := fr_position r + reorder_offset\<rparr>) (db_facets s)
      = map (staged now ws actor items 0) (db_facets s)"
      by (simp add: updateWhere_def staged_def [abs_def] live_in_def)
    let ?P = "\<lambda>i (st :: document list \<times> db). snd st = s\<lparr>db_facets := map (staged now ws actor items i) (db_facets s)\<rparr>"
    have "\<exists>st. foldE (reorder_step now ws actor ?cur) (zip [0..<length items] items) ([], ?s1) = Inr st"
    proof (rule foldE_indexed_ok [where P = ?P])
      fix i and st :: "document list \<times> db" assume i: "i < length items" and P: "?P i st"
      obtain changed u where st: "st = (changed, u)" by (cases st)
      obtain v where v: "find (\<lambda>r. fr_identity r = oi_identity (items ! i)) ?cur = Some v" "fr_revision v = oi_expected (items ! i)"
        using found [OF nth_mem [OF i]] by blast
      have vr: "v \<in> set (db_facets s)" "live_in ws v" "fr_identity v = oi_identity (items ! i)"
        using find_SomeD [OF v(1)] cur by auto
      note nx = stage_next [OF ok dist i vr v(2)]
      define u' where "u' = s\<lparr>db_facets := map (staged now ws actor items (Suc i)) (db_facets s)\<rparr>"
      have u: "u = s\<lparr>db_facets := map (staged now ws actor items i) (db_facets s)\<rparr>" using P st by simp
      have up: "updateWhere (order_hit ws v i (items ! i)) (order_write now actor v i) (db_facets u)
          = map (staged now ws actor items (Suc i)) (db_facets s)"
        by (simp add: u nx(1))
      have uu: "u\<lparr>db_facets := map (staged now ws actor items (Suc i)) (db_facets s)\<rparr> = u'" by (simp add: u'_def u)
      have ok': "facets_ok u (map (staged now ws actor items (Suc i)) (db_facets s))"
        using stok [where now = now and i = "Suc i"] facet_ok_cong(1) [of u s] by (simp add: u ws_of_def)
      have oku': "facets_ok u' (db_facets u')" using stok [where now = now and i = "Suc i"] facet_ok_cong(1) [of u' s] by (simp add: u'_def ws_of_def)
      have com: "commit_facets (map (staged now ws actor items (Suc i)) (db_facets s)) u = Inr u'"
        using ok' uu by (simp add: commit_facets_Inr)
      have hit: "find (order_hit ws v i (items ! i)) (db_facets u) \<noteq> None"
      proof -
        have "staged now ws actor items i v \<in> set (db_facets u)" using vr(1) by (simp add: u)
        moreover have "order_hit ws v i (items ! i) (staged now ws actor items i v)"
          using vr(2) v(2) nx(3) by (simp add: order_hit_def live_in_def) (simp add: staged_def live_in_def)
        ultimately show ?thesis unfolding find_None by blast
      qed
      have "\<exists>d. GetFacet ws (oi_identity (items ! i)) True u' = Inr d"
      proof -
        have "staged now ws actor items (Suc i) v \<in> set (db_facets u')" using vr(1) by (simp add: u'_def)
        from GetFacet_row [OF oku' this] show ?thesis using vr(2,3) by (simp add: live_in_def)
      qed
      then have "\<exists>t. reorder_step now ws actor ?cur (i, items ! i) st = Inr t \<and> snd t = u'"
        unfolding st reorder_step_def Let_def fst_conv snd_conv v(1) option.case order_fun up
        using hit com by (auto simp: failIf_def)
      then show "\<exists>t. reorder_step now ws actor ?cur (i, items ! i) st = Inr t \<and> ?P (Suc i) t" unfolding u'_def .
    qed simp
    then obtain ch t where "foldE (reorder_step now ws actor ?cur) (zip [0..<length items] items) ([], ?s1) = Inr (ch, t)"
      by (auto simp del: upt_Suc)
    moreover have "commit_facets (map (staged now ws actor items 0) (db_facets s)) s = Inr ?s1"
      using stok [where now = now and i = 0] by (simp add: commit_facets_Inr)
    ultimately show ?thesis unfolding ReorderFacets_def Let_def shift using len chk False by simp
  qed
qed

end
