(* ===== verification/LifecycleLaws.thy ===== *)
theory LifecycleLaws
  imports LogLaws
begin

text \<open>
  What the document commands guarantee: the revision they return, the log entry they write, and the
  invariant \<open>log_inv {}\<close> from any state that has it.
\<close>

section \<open>Single steps\<close>

lemma scan_key:
  assumes "scanDocument s r = Inr d" "r \<in> set (db_docs t)" "doc_good t"
  shows "doc_key d = row_key r" "doc_rev (doc_key d) t = Some (d_revision d)"
  using scanDocument_fields [OF assms(1)] doc_rev_row [OF assms(3,2)]
  by (simp_all add: doc_key_def row_key_def)

lemma record_step:
  assumes "RecordDocument env c d op from s = Inr (r, t)" "log_inv pending s"
    "d_type d \<in> set DocumentCollections \<Longrightarrow> doc_key d \<in> pending"
    "d_type d \<in> set DocumentCollections \<Longrightarrow> doc_rev (doc_key d) s = Some (d_revision d)"
  shows "log_inv (pending - {doc_key d}) t"
  using append_log_inv [OF assms(1) [unfolded RecordDocument_append] assms(2)] assms(3,4)
  by (simp add: doc_key_def)

lemma record_same_data: "RecordDocument env c d op from s = Inr (r, t) \<Longrightarrow> same_data s t"
  unfolding RecordDocument_append by (rule append_revision_Inr(1))

lemma update_step:
  assumes up: "UpdateDocument env now v e f s = Inr (d, t)" and ty: "d_type v \<in> set DocumentCollections"
    and inv: "log_inv pending s" and new: "doc_key v \<notin> pending"
  shows "log_inv (insert (doc_key v) pending) t" "doc_key d = doc_key v"
    "doc_rev (doc_key d) t = Some (d_revision d)" "d_revision d = e + 1" "d_identity d = d_identity v"
    "d_deletedAt d = d_deletedAt v" "d_active d = d_active v" "ac_id (d_updatedBy d) = ac_id (d_updatedBy v)"
    "d_displayName d = d_displayName v"
proof -
  from UpdateDocument_Inr [OF up ty] obtain r wfo data rel where
    r: "r \<in> set (db_docs s)" "addressed v e r" and
    t: "t = s\<lparr>db_docs := updateWhere (addressed v e)
        (\<lambda>r. touched (ac_id (d_updatedBy v)) now (written env v f wfo data rel r)) (db_docs s)\<rparr>" and
    ok: "docs_ok s (db_docs t)" and
    sc: "scanDocument t (touched (ac_id (d_updatedBy v)) now (written env v f wfo data rel r)) = Inr d" and
    mem: "touched (ac_id (d_updatedBy v)) now (written env v f wfo data rel r) \<in> set (db_docs t)" by metis
  have key: "addressed v e q \<Longrightarrow> row_key q = doc_key v" for q
    by (simp add: addressed_def row_key_def doc_key_def)
  then have K: "row_key ` {r \<in> set (db_docs s). addressed v e r} = {doc_key v}" using r by force
  have "log_inv (pending \<union> row_key ` {r \<in> set (db_docs s). addressed v e r}) t"
    by (rule update_rows_log_inv [OF inv t ok]) (use key new in \<open>simp_all add: row_key_def\<close>)
  then show inv': "log_inv (insert (doc_key v) pending) t" by (simp add: K)
  then have good: "doc_good t" by (simp add: log_inv_def)
  note sf = scanDocument_fields [OF sc]
  show "doc_key d = doc_key v" using scan_key(1) [OF sc mem good] key [OF r(2)] by (simp add: row_key_def)
  show "doc_rev (doc_key d) t = Some (d_revision d)" by (rule scan_key(2) [OF sc mem good])
  show "d_revision d = e + 1" "d_identity d = d_identity v" "d_deletedAt d = d_deletedAt v"
    "d_active d = d_active v" "ac_id (d_updatedBy d) = ac_id (d_updatedBy v)" "d_displayName d = d_displayName v"
    using sf r(2) by (simp_all add: addressed_def)
qed

text \<open>A single rewritten document that is recorded leaves nothing pending.\<close>

lemma update_record_step:
  assumes up: "UpdateDocument env now v e f s = Inr (d, t)" and ty: "d_type v \<in> set DocumentCollections"
    and inv: "log_inv {} s" and rec: "RecordDocument env c d op from t = Inr (r, u)"
  shows "log_inv {} u"
proof -
  note us = update_step [OF up ty inv]
  have "log_inv ({doc_key v} - {doc_key d}) u"
    by (rule record_step [OF rec]) (use us in simp_all)
  then show ?thesis using us(2) by simp
qed

lemma InsertDocument_Inr:
  assumes "InsertDocument env now v folderID s = Inr (d, t)" "d_type v \<in> set DocumentCollections"
  obtains wfo data rel where
    "t = s\<lparr>db_docs := db_docs s @ [written env v folderID wfo data rel (new_row v now)]\<rparr>"
    "docs_ok s (db_docs t)"
    "scanDocument t (written env v folderID wfo data rel (new_row v now)) = Inr d"
proof -
  note nf = not_facet_kind [OF assms(2)]
  let ?res = "\<lambda>kind i. resolveActiveDocumentID (d_workspaceID v) kind i s"
  from assms(1) nf obtain wfo cols where wfo: "resolveDocumentWorkspaceFolderID v s = Inr wfo"
    and cols: "relation_columns env (d_type v) (d_data v) ?res = Inr cols"
    by (auto simp: InsertDocument_def bindE_Inr_iff)
  obtain data rel where dr: "cols = (data, rel)" by (cases cols)
  let ?r = "written env v folderID wfo data rel (new_row v now)"
  from assms(1) nf wfo cols dr obtain t' where ins: "insert_doc_row ?r s = Inr t'"
    and get: "GetDocument (d_workspaceID v) (d_type v) (d_identity v) True t' = Inr d" and t': "t' = t"
    by (auto simp: InsertDocument_def bindE_Inr_iff)
  have t: "t = s\<lparr>db_docs := db_docs s @ [?r]\<rparr>" and ok: "docs_ok s (db_docs t)"
    using ins t' by (auto simp: insert_doc_row_Inr)
  have "row_by_identity t (d_type v) (d_workspaceID v) (d_identity v) = Some ?r"
    using row_by_identity_unique [of t ?r] ok t by (simp add: docs_ok_def new_row_def)
  then have "scanDocument t ?r = Inr d" using get t' nf by (simp add: GetDocument_def bindE_Inr_iff)
  from that [OF t ok this] show ?thesis .
qed

lemma insert_step:
  assumes ins: "InsertDocument env now v f s = Inr (d, t)" and ty: "d_type v \<in> set DocumentCollections"
    and inv: "log_inv {} s" and rev: "d_revision v = 1"
  shows "log_inv {doc_key d} t" "doc_rev (doc_key d) t = Some (d_revision d)" "doc_key d = doc_key v"
    "d_revision d = 1" "d_identity d = d_identity v"
proof -
  from InsertDocument_Inr [OF ins ty] obtain wfo data rel where
    t: "t = s\<lparr>db_docs := db_docs s @ [written env v f wfo data rel (new_row v now)]\<rparr>" and
    ok: "docs_ok s (db_docs t)" and sc: "scanDocument t (written env v f wfo data rel (new_row v now)) = Inr d"
    by metis
  let ?r = "written env v f wfo data rel (new_row v now)"
  have mem: "?r \<in> set (db_docs t)" by (simp add: t)
  have "log_inv {row_key ?r} t" by (rule insert_row_log_inv [OF inv t ok]) (simp add: new_row_def rev)
  moreover from this have good: "doc_good t" by (simp add: log_inv_def)
  ultimately show "log_inv {doc_key d} t" using scan_key(1) [OF sc mem] by simp
  show "doc_rev (doc_key d) t = Some (d_revision d)" by (rule scan_key(2) [OF sc mem good])
  show "doc_key d = doc_key v" using scan_key(1) [OF sc mem good] by (simp add: row_key_def doc_key_def new_row_def)
  show "d_revision d = 1" "d_identity d = d_identity v"
    using scanDocument_fields [OF sc] by (simp_all add: new_row_def rev)
qed

section \<open>Moving the contents of a folder\<close>

lemma move_table_Inr:
  assumes "move_table fs ws fid pid actor now kind (m, s) = Inr (m', t)"
  shows "m' = m @ map (\<lambda>r. (kind, dr_identity r)) (filter (inside fs kind ws fid) (db_docs s))"
    "t = s\<lparr>db_docs := updateWhere (inside fs kind ws fid) (moved_to fs pid actor now) (db_docs s)\<rparr>"
    "docs_ok s (db_docs t)"
  using assms by (auto simp: move_table_def bindE_Inr_iff update_doc_rows_Inr)

lemma moved_to_keeps [simp]:
  "dr_id (moved_to fs p a now r) = dr_id r" "dr_ws (moved_to fs p a now r) = dr_ws r"
  "dr_kind (moved_to fs p a now r) = dr_kind r" "dr_identity (moved_to fs p a now r) = dr_identity r"
  "dr_revision (moved_to fs p a now r) = dr_revision r + 1" "dr_deletedAt (moved_to fs p a now r) = dr_deletedAt r"
  by (simp_all add: moved_to_def)

definition row_names :: "db \<Rightarrow> (entity_key \<times> string) list" where
  "row_names s = map (\<lambda>r. (row_key r, dr_identity r)) (db_docs s)"

definition contents :: "string \<Rightarrow> id \<Rightarrow> id \<Rightarrow> string \<Rightarrow> db \<Rightarrow> doc_row list" where
  "contents fs ws fid kind s = filter (inside fs kind ws fid) (db_docs s)"

lemma filter_updateWhere_other:
  "(\<And>x. p x \<Longrightarrow> \<not> q x \<and> \<not> q (f x)) \<Longrightarrow> filter q (updateWhere p f xs) = filter q xs"
  by (induction xs) auto

lemma contents_other:
  "kind' \<noteq> kind \<Longrightarrow>
   contents fs ws fid kind' (s\<lparr>db_docs := updateWhere (inside fs kind ws fid) (moved_to fs pid actor now) (db_docs s)\<rparr>)
     = contents fs ws fid kind' s"
  unfolding contents_def by simp (rule filter_updateWhere_other, auto simp: inside_def)

lemma move_tables:
  assumes "foldE (move_table fs ws fid pid actor now) ks (m, s) = Inr (m', t)"
    and "distinct ks" "log_inv pending s" "\<forall>k \<in> pending. fst k \<notin> set ks"
  shows "m' = m @ concat (map (\<lambda>kind. map (\<lambda>r. (kind, dr_identity r)) (contents fs ws fid kind s)) ks)"
    "log_inv (pending \<union> (\<Union>kind \<in> set ks. row_key ` set (contents fs ws fid kind s))) t"
    "row_names t = row_names s"
  using assms
proof (induction ks arbitrary: m s pending)
  case (Cons kind ks)
  {
    case 1
    from 1(1) obtain m1 s1 where step: "move_table fs ws fid pid actor now kind (m, s) = Inr (m1, s1)"
      and rest: "foldE (move_table fs ws fid pid actor now) ks (m1, s1) = Inr (m', t)"
      by (auto simp: bindE_Inr_iff)
    note mt = move_table_Inr [OF step]
    have inv1: "log_inv (pending \<union> row_key ` {r \<in> set (db_docs s). inside fs kind ws fid r}) s1"
      by (rule update_rows_log_inv [OF 1(3) mt(2,3)]) (use 1(4) in \<open>auto simp: row_key_def inside_def\<close>)
    then have inv1': "log_inv (pending \<union> row_key ` set (contents fs ws fid kind s)) s1"
      by (simp add: contents_def)
    have fresh: "\<forall>k \<in> pending \<union> row_key ` set (contents fs ws fid kind s). fst k \<notin> set ks"
      using 1(2,4) by (auto simp: contents_def inside_def row_key_def)
    have other: "contents fs ws fid kind' s1 = contents fs ws fid kind' s" if "kind' \<in> set ks" for kind'
      using 1(2) that unfolding mt(2) by (intro contents_other) auto
    have d: "distinct ks" using 1(2) by simp
    note IH = Cons.IH [OF rest d inv1' fresh]
    show "m' = m @ concat (map (\<lambda>kind. map (\<lambda>r. (kind, dr_identity r)) (contents fs ws fid kind s)) (kind # ks))"
      using IH(1) mt(1) other by (simp add: contents_def cong: map_cong)
    show "log_inv (pending \<union> (\<Union>kind \<in> set (kind # ks). row_key ` set (contents fs ws fid kind s))) t"
      using IH(2) other by (simp add: Un_assoc)
    have "row_names s1 = row_names s"
      unfolding row_names_def mt(2) by simp (rule map_updateWhere, simp add: row_key_def)
    then show "row_names t = row_names s" using IH(3) by simp
  }
qed simp_all

text \<open>All the rows inside a folder, in the order in which they are moved.\<close>

definition all_contents :: "string \<Rightarrow> id \<Rightarrow> id \<Rightarrow> db \<Rightarrow> doc_row list" where
  "all_contents fs ws fid s = concat (map (\<lambda>kind. contents fs ws fid kind s) DocumentCollections)"

lemma contents_mem:
  "r \<in> set (contents fs ws fid kind s) \<longleftrightarrow> r \<in> set (db_docs s) \<and> inside fs kind ws fid r"
  by (auto simp: contents_def)

lemma contents_kind: "r \<in> set (contents fs ws fid kind s) \<Longrightarrow> dr_kind r = kind \<and> dr_ws r = ws"
  by (simp add: contents_mem inside_def)

lemma all_contents_mem:
  "r \<in> set (all_contents fs ws fid s) \<longleftrightarrow>
     r \<in> set (db_docs s) \<and> dr_kind r \<in> set DocumentCollections \<and> inside fs (dr_kind r) ws fid r"
  by (auto simp: all_contents_def contents_mem inside_def)

lemma DocumentCollections_distinct: "distinct DocumentCollections"
  by code_simp

lemma all_contents_names:
  "concat (map (\<lambda>kind. map (\<lambda>r. (kind, dr_identity r)) (contents fs ws fid kind s)) DocumentCollections)
    = map (\<lambda>r. (dr_kind r, dr_identity r)) (all_contents fs ws fid s)"
proof -
  have "map (\<lambda>r. (kind, dr_identity r)) (contents fs ws fid kind s)
      = map (\<lambda>r. (dr_kind r, dr_identity r)) (contents fs ws fid kind s)" for kind
    by (rule map_cong) (auto dest: contents_kind)
  then show ?thesis by (simp only: all_contents_def map_concat map_map comp_def)
qed

lemma all_contents_distinct:
  assumes "docs_unique (db_docs s)"
  shows "distinct (map row_key (all_contents fs ws fid s))"
proof -
  have d: "distinct (map row_key (db_docs s))"
  proof -
    have "distinct (map (\<lambda>(a, b, c). (a, c)) (map row_key (db_docs s)))"
      using assms by (simp add: docs_unique_def row_key_def comp_def)
    then show ?thesis unfolding distinct_map by blast
  qed
  then have one: "distinct (map row_key (contents fs ws fid kind s))" for kind
    by (simp add: contents_def distinct_map_filter)
  have "distinct (map row_key (concat (map (\<lambda>kind. contents fs ws fid kind s) ks)))" if "distinct ks" for ks
    using that
  proof (induction ks)
    case (Cons k ks)
    have "fst ` row_key ` set (contents fs ws fid k s) \<subseteq> {k}"
      "fst ` row_key ` set (concat (map (\<lambda>kind. contents fs ws fid kind s) ks)) \<subseteq> set ks"
      by (auto simp: row_key_def dest: contents_kind)
    then have disj: "row_key ` set (contents fs ws fid k s) \<inter> row_key ` set (concat (map (\<lambda>kind. contents fs ws fid kind s) ks)) = {}"
      using Cons.prems by fastforce
    have "distinct (map row_key (concat (map (\<lambda>kind. contents fs ws fid kind s) ks)))"
      by (rule Cons.IH) (use Cons.prems in simp)
    with one [of k] disj show ?case
      by (simp only: list.map concat.simps map_append distinct_append set_map simp_thms)
  qed simp
  then show ?thesis unfolding all_contents_def using DocumentCollections_distinct by blast
qed

lemma read_back:
  "foldE (\<lambda>(kind, identity) acc. bindE (get kind identity) (\<lambda>d. Inr (acc @ [d]))) moved acc = Inr ds \<Longrightarrow>
   \<exists>new. ds = acc @ new \<and> list_all2 (\<lambda>(kind, identity) d. get kind identity = Inr d) moved new"
proof (induction moved arbitrary: acc)
  case (Cons m moved)
  obtain kind identity where m: "m = (kind, identity)" by (cases m)
  with Cons.prems obtain d where d: "get kind identity = Inr d"
      "foldE (\<lambda>(kind, identity) acc. bindE (get kind identity) (\<lambda>d. Inr (acc @ [d]))) moved (acc @ [d]) = Inr ds"
    by (auto simp: bindE_Inr_iff)
  from Cons.IH [OF d(2)] obtain new where "ds = (acc @ [d]) @ new"
      "list_all2 (\<lambda>(kind, identity) d. get kind identity = Inr d) moved new" by blast
  with d(1) m show ?case by (intro exI [of _ "d # new"]) simp
qed simp

lemma list_all2_images:
  assumes "list_all2 P rs ds" "\<And>r d. r \<in> set rs \<Longrightarrow> P r d \<Longrightarrow> f d = g r \<and> Q d"
  shows "map f ds = map g rs \<and> (\<forall>d \<in> set ds. Q d)"
  using assms by (induction rule: list_all2_induct) auto

lemma MoveFolderContents_Inr:
  assumes mv: "MoveFolderContents now ws fid pid actor s = Inr (ds, t)" and inv: "log_inv {} s"
  obtains f where "row_by_id s CollectionFolders ws fid = Some f"
    "log_inv (set (map doc_key ds)) t"
    "map doc_key ds = map row_key (all_contents (dr_scope f) ws fid s)"
    "\<forall>d \<in> set ds. d_type d \<in> set DocumentCollections \<and> doc_rev (doc_key d) t = Some (d_revision d)"
    "row_names t = row_names s" "distinct (map doc_key ds)"
proof -
  from mv obtain f m where f: "row_by_id s CollectionFolders ws fid = Some f"
    and mt: "foldE (move_table (dr_scope f) ws fid pid actor now) DocumentCollections ([], s) = Inr (m, t)"
    and rb: "foldE (\<lambda>(kind, identity) acc. bindE (GetDocument ws kind identity True t) (\<lambda>d. Inr (acc @ [d]))) m [] = Inr ds"
    by (auto simp: MoveFolderContents_def res_iffs split: option.splits)
  let ?R = "all_contents (dr_scope f) ws fid s"
  note mts = move_tables [OF mt DocumentCollections_distinct inv]
  have m: "m = map (\<lambda>r. (dr_kind r, dr_identity r)) ?R" using mts(1) all_contents_names by simp
  have K: "(\<Union>kind \<in> set DocumentCollections. row_key ` set (contents (dr_scope f) ws fid kind s)) = row_key ` set ?R"
    by (auto simp: all_contents_def)
  have inv_t: "log_inv (row_key ` set ?R) t" using mts(2) K by simp
  have names: "row_names t = row_names s" using mts(3) by simp
  have us: "docs_unique (db_docs s)" using inv by (simp add: log_inv_def doc_good_rows)
  have gt: "doc_good t" using inv_t by (simp add: log_inv_def)
  have read: "doc_key d = row_key r \<and> d_type d \<in> set DocumentCollections \<and> doc_rev (doc_key d) t = Some (d_revision d)"
    if r: "r \<in> set ?R" and g: "GetDocument ws (dr_kind r) (dr_identity r) True t = Inr d" for r d
  proof -
    have rk: "r \<in> set (db_docs s)" "dr_kind r \<in> set DocumentCollections" "dr_ws r = ws"
      using r by (auto simp: all_contents_mem inside_def)
    from GetDocument_Inr [OF g rk(2)] obtain q where q: "scanDocument t q = Inr d" "q \<in> set (db_docs t)"
        "dr_kind q = dr_kind r" "dr_ws q = ws" "dr_identity q = dr_identity r" by metis
    have "(row_key q, dr_identity q) \<in> set (row_names s)" using q(2) names [symmetric] by (auto simp: row_names_def)
    then obtain r' where r': "r' \<in> set (db_docs s)" "row_key r' = row_key q" "dr_identity r' = dr_identity q"
      by (auto simp: row_names_def)
    have "r' = r" using us r' rk q unfolding docs_unique_def distinct_map inj_on_def row_key_def by force
    then show ?thesis using scan_key [OF q(1,2) gt] r' scanDocument_fields(3) [OF q(1)] q(3) rk(2) by simp
  qed
  from read_back [OF rb] have all2: "list_all2 (\<lambda>(kind, identity) d. GetDocument ws kind identity True t = Inr d) m ds"
    by simp
  have "map doc_key ds = map row_key ?R \<and> (\<forall>d \<in> set ds. d_type d \<in> set DocumentCollections \<and> doc_rev (doc_key d) t = Some (d_revision d))"
    by (rule list_all2_images [OF all2 [unfolded m list_all2_map1]])
       (simp only: prod.case, rule read)
  with that [OF f] inv_t names all_contents_distinct [OF us] show ?thesis by (metis (no_types, lifting) list.set_map)
qed

section \<open>Batches of revisions\<close>

definition record_each :: "env \<Rightarrow> ctx \<Rightarrow> document list \<Rightarrow> db \<Rightarrow> db res" where
  "record_each env c ds s =
     foldE (\<lambda>d st. bindE (RecordDocument env c d ''update'' None st) (\<lambda>(_, st'). Inr st')) ds s"

lemma record_each_inv:
  assumes "record_each env c ds s = Inr t" "log_inv pending s" "distinct (map doc_key ds)"
    "set (map doc_key ds) \<subseteq> pending"
    "\<forall>d \<in> set ds. doc_rev (doc_key d) s = Some (d_revision d)"
  shows "log_inv (pending - set (map doc_key ds)) t" "same_data s t"
  using assms
proof (induction ds arbitrary: s pending)
  case (Cons d ds)
  {
    case 1
    from 1(1) obtain r s1 where rec: "RecordDocument env c d ''update'' None s = Inr (r, s1)"
      and rest: "record_each env c ds s1 = Inr t"
      by (auto simp: record_each_def bindE_Inr_iff)
    have inv1: "log_inv (pending - {doc_key d}) s1"
      by (rule record_step [OF rec 1(2)]) (use 1 in auto)
    have sd: "same_data s s1" by (rule record_same_data [OF rec])
    have rest': "distinct (map doc_key ds)" "set (map doc_key ds) \<subseteq> pending - {doc_key d}"
      "\<forall>d \<in> set ds. doc_rev (doc_key d) s1 = Some (d_revision d)"
      using 1 doc_rev_same [OF sd] by auto
    note IH = Cons.IH [OF rest inv1 rest']
    show "log_inv (pending - set (map doc_key (d # ds))) t"
    proof -
      have "pending - {doc_key d} - set (map doc_key ds) = pending - set (map doc_key (d # ds))" by auto
      with IH(1) show ?thesis by metis
    qed
    show "same_data s t" by (rule same_data_trans [OF sd IH(2)])
  }
qed (simp_all add: record_each_def)

lemma BeginBatch_Inr:
  assumes "BeginBatch env c ws op actor s = Inr (c1, t)"
  shows "same_data s t" "db_workspaces t = db_workspaces s" "db_revisions t = db_revisions s"
    "cx_now c1 = cx_now c" "cx_batch c1 = Some (e_uuid env (db_next s))" "cx_token c1 = cx_token c"
  using assms by (auto simp: BeginBatch_def CreateMutationBatch_def fresh_def res_iffs same_data_def)

lemma BeginBatch_log_inv:
  assumes "BeginBatch env c ws op actor s = Inr (c1, t)" "log_inv pending s"
  shows "log_inv pending t"
  by (rule log_inv_cong [OF assms(2)]) (use BeginBatch_Inr [OF assms(1)] in \<open>simp_all add: same_data_def\<close>)

lemma log_inv_fresh: "log_inv pending s \<Longrightarrow> log_inv pending (snd (fresh env s))"
  by (erule log_inv_cong) simp_all

lemma move_folder_out_inv:
  assumes "move_folder_out env c ws folder pid actor s = Inr (c1, t)" "log_inv {} s"
  shows "log_inv {} t" "cx_now c1 = cx_now c"
proof -
  from assms(1) obtain s1 ds s2 where b: "BeginBatch env c (Some ws) ''delete'' actor s = Inr (c1, s1)"
    and m: "MoveFolderContents (cx_now c) ws folder pid actor s1 = Inr (ds, s2)"
    and r: "record_each env c1 ds s2 = Inr t"
    by (auto simp: move_folder_out_def record_each_def res_iffs)
  have i1: "log_inv {} s1" using BeginBatch_log_inv [OF b assms(2)] .
  from MoveFolderContents_Inr [OF m i1] have
    "log_inv (set (map doc_key ds)) s2" "distinct (map doc_key ds)"
    "\<forall>d \<in> set ds. doc_rev (doc_key d) s2 = Some (d_revision d)" by metis+
  from record_each_inv(1) [OF r this(1,2) order_refl this(3)] show "log_inv {} t" by simp
  show "cx_now c1 = cx_now c" using BeginBatch_Inr(4) [OF b] .
qed

lemma clear_startup_inv:
  assumes "clear_startup env c ws composition actor s = Inr t" "log_inv pending s"
    "\<forall>k \<in> pending. fst k \<in> set DocumentCollections"
  shows "log_inv pending t" "same_data s t"
proof -
  from assms(1) obtain v s1 where cl: "ClearStartupComposition ws composition actor s = Inr (v, s1)"
    and rest: "(case v of None \<Rightarrow> Inr s1 | Some w \<Rightarrow> RecordWorkspace env c w ''update'' s1) = Inr t"
    by (auto simp: clear_startup_def res_iffs)
  have s1: "same_data s s1 \<and> log_inv pending s1"
  proof (cases "s1 = s")
    case False
    then obtain f where s1: "s1 = update_ws ws f s"
      and f: "\<And>w. w_id (ws_value (f w)) = w_id (ws_value w)"
        "\<And>w. w_headSequence (ws_value (f w)) = w_headSequence (ws_value w)"
      using cl by (auto simp: ClearStartupComposition_def Let_def res_iffs split: option.splits if_splits)
    have ws: "ws_of s1 i = (if i = ws then map_option f (ws_of s i) else ws_of s i)" for i
      unfolding s1 by (rule ws_of_update_ws [OF f(1)])
    then have hd: "head_of s1 i = head_of s i" for i
      using f(2) by (simp add: head_of_def option.map_comp comp_def)
    have sd: "same_data s s1" by (simp add: s1 update_ws_def same_data_def)
    have good: "doc_good s1" using doc_good_same [OF sd] ws assms(2) by (simp add: log_inv_def)
    have "log_inv pending s1"
      by (rule log_inv_cong_parts [OF assms(2) good _ _ hd])
         (simp_all add: s1 update_ws_def logged_def revisions_of_def numbers_expected_def doc_rev_def row_by_id_def
           sequences_def)
    with sd show ?thesis by simp
  qed (simp add: assms(2))
  have "log_inv pending t \<and> same_data s1 t"
  proof (cases v)
    case None
    with rest s1 show ?thesis by simp
  next
    case (Some w)
    with rest obtain r where ap: "append_revision env c (w_id w) ''workspaces'' (w_id w) (w_identity w) (w_revision w)
        ''update'' None (SnapWorkspace w) (ac_id (w_updatedBy w)) s1 = Inr (r, t)"
      by (auto simp: RecordWorkspace_append res_iffs)
    have no: "''workspaces'' \<notin> set DocumentCollections" by code_simp
    have "log_inv (pending - {(''workspaces'', w_id w, w_id w)}) t"
      by (rule append_log_inv [OF ap]) (use s1 no in auto)
    moreover have "pending - {(''workspaces'', w_id w, w_id w)} = pending" using assms(3) no by force
    ultimately show ?thesis using append_revision_Inr(1) [OF ap] by simp
  qed
  with s1 show "log_inv pending t" "same_data s t" by (auto intro: same_data_trans)
qed

section \<open>The commands keep the invariant\<close>

lemma validateCollection_Inr: "validateCollection c = Inr () \<longleftrightarrow> c \<in> set DocumentCollections"
  by (simp add: validateCollection_def)

lemma doc_Create_Inr:
  assumes "doc_Create env c collection payload s = Inr (d, t)"
  obtains values0 vals cu u scope folderID created s2 r where
    "payload = JObj values0" "RejectReadOnly values0 = Inr ()" "WriteContext c = Inr ((cu, u), scope)"
    "collection \<in> set DocumentCollections"
    "vals = ensureWorkspaceFolderInput collection
       (normalizeFolderInput collection (RemoveLegacySSEFromDocument collection values0))"
    "validateDocument collection vals = Inr ()"
    "resolveFolder scope collection vals (snd (fresh env s)) = Inr folderID"
    "InsertDocument env (cx_now c) (documentFromInput collection (w_id (wa_workspace scope)) vals (u_id u) (e_uuid env (db_next s)))
       (documentFolderID collection folderID) (snd (fresh env s)) = Inr (created, s2)"
    "RecordDocument env c created ''create'' None s2 = Inr (r, t)"
    "GetDocument (w_id (wa_workspace scope)) collection (d_identity created) True t = Inr d"
proof -
  obtain i s1 where f: "fresh env s = (i, s1)" by (cases "fresh env s")
  then have i: "i = e_uuid env (db_next s)" "s1 = snd (fresh env s)" by (simp_all add: fresh_def)
  show ?thesis
    using assms that
    unfolding doc_Create_def Let_def f prod.case
    by (auto simp: i res_iffs repo_Insert_def repo_Get_def validateCollection_Inr decodeValues_def split: json.splits)
qed

lemma doc_Create_inv:
  assumes "doc_Create env c collection payload s = Inr (d, t)" "log_inv {} s"
  shows "log_inv {} t"
proof -
  from doc_Create_Inr [OF assms(1)] obtain v f created s2 r where
    ins: "InsertDocument env (cx_now c) v f (snd (fresh env s)) = Inr (created, s2)"
    and v: "d_type v \<in> set DocumentCollections" "d_revision v = 1"
    and rec: "RecordDocument env c created ''create'' None s2 = Inr (r, t)"
    by (metis documentFromInput_fields(3,4))
  note ist = insert_step [OF ins v(1) log_inv_fresh [OF assms(2)] v(2)]
  have "log_inv ({doc_key created} - {doc_key created}) t"
    by (rule record_step [OF rec]) (use ist in simp_all)
  then show ?thesis by simp
qed

lemma existing_document_Inr:
  "existing_document c collection identity expected ws s = Inr d \<longleftrightarrow>
     GetDocument ws collection identity True s = Inr d \<and> d_revision d = expected"
  by (auto simp: existing_document_def repo_Get_def res_iffs)

lemma doc_Patch_Inr:
  assumes "doc_Patch env c collection identity payload e s = Inr (d, t)"
  obtains patch0 patch cu u scope existing nxt where
    "payload = JObj patch0" "RejectReadOnly patch0 = Inr ()" "WriteContext c = Inr ((cu, u), scope)" "0 < e"
    "patch = normalizeFolderInput collection (RemoveLegacySSEFromDocument collection patch0)"
    "GetDocument (w_id (wa_workspace scope)) collection identity True s = Inr existing" "d_revision existing = e"
    "collection = CollectionFolders \<Longrightarrow> \<not> isSystemFolder (e_nf env) existing"
    "collection = CollectionFolders \<Longrightarrow> validateFolderScopePatch (e_nf env) existing patch = Inr ()"
    "nxt = applyPatch (e_nf env) existing patch (u_id u)"
    "validateDocument collection (documentAsInput (e_nf env) nxt) = Inr ()"
    "(checksumContent (e_sha env) existing = checksumContent (e_sha env) nxt \<and> d = existing \<and> t = s) \<or>
     (checksumContent (e_sha env) existing \<noteq> checksumContent (e_sha env) nxt \<and>
      (\<exists>folderID r s1. resolveDocumentFolder env scope nxt s = Inr folderID
        \<and> check_parent collection existing folderID (w_id (wa_workspace scope)) s = Inr ()
        \<and> UpdateDocument env (cx_now c) nxt e (documentFolderID collection folderID) s = Inr (d, s1)
        \<and> RecordDocument env c d ''update'' None s1 = Inr (r, t)))"
proof -
  from assms obtain patch0 cu u scope existing where
    1: "payload = JObj patch0" "RejectReadOnly patch0 = Inr ()" "WriteContext c = Inr ((cu, u), scope)" "0 < e"
      "GetDocument (w_id (wa_workspace scope)) collection identity True s = Inr existing" "d_revision existing = e"
    and rest: "doc_Patch env c collection identity payload e s = Inr (d, t)"
    by (auto simp: doc_Patch_def Let_def res_iffs decodeValues_def existing_document_Inr split: json.splits)
  let ?patch = "normalizeFolderInput collection (RemoveLegacySSEFromDocument collection patch0)"
  let ?nxt = "applyPatch (e_nf env) existing ?patch (u_id u)"
  from rest 1 have 2: "collection = CollectionFolders \<Longrightarrow> \<not> isSystemFolder (e_nf env) existing"
    by (auto simp: doc_Patch_def Let_def res_iffs decodeValues_def existing_document_Inr)
  from rest 1 have 3: "collection = CollectionFolders \<Longrightarrow> validateFolderScopePatch (e_nf env) existing ?patch = Inr ()"
    by (auto simp: doc_Patch_def Let_def res_iffs decodeValues_def existing_document_Inr)
  from rest 1 have 4: "validateDocument collection (documentAsInput (e_nf env) ?nxt) = Inr ()"
    by (auto simp: doc_Patch_def Let_def res_iffs decodeValues_def existing_document_Inr)
  from rest 1 have "(checksumContent (e_sha env) existing = checksumContent (e_sha env) ?nxt \<and> d = existing \<and> t = s) \<or>
     (checksumContent (e_sha env) existing \<noteq> checksumContent (e_sha env) ?nxt \<and>
      (\<exists>folderID r s1. resolveDocumentFolder env scope ?nxt s = Inr folderID
        \<and> check_parent collection existing folderID (w_id (wa_workspace scope)) s = Inr ()
        \<and> UpdateDocument env (cx_now c) ?nxt e (documentFolderID collection folderID) s = Inr (d, s1)
        \<and> RecordDocument env c d ''update'' None s1 = Inr (r, t)))"
    by (auto simp: doc_Patch_def Let_def res_iffs decodeValues_def existing_document_Inr repo_Update_def
        split: if_splits)
  with that [OF 1(1-4) refl 1(5,6) 2 3 refl 4] show ?thesis by blast
qed

lemma doc_Delete_Inr:
  assumes "doc_Delete env c collection identity e s = Inr (d, t)"
  obtains cu u scope existing nxt where
    "WriteContext c = Inr ((cu, u), scope)" "0 < e"
    "GetDocument (w_id (wa_workspace scope)) collection identity True s = Inr existing" "d_revision existing = e"
    "nxt = existing\<lparr>d_deletedAt := Some (cx_now c), d_active := False, d_updatedBy := actor_of_id (u_id u)\<rparr>"
    "(d_deletedAt existing \<noteq> None \<and> d = existing \<and> t = s) \<or>
     (d_deletedAt existing = None \<and> (collection = CollectionFolders \<longrightarrow> \<not> isSystemFolder (e_nf env) existing) \<and>
      (\<exists>folderID c1 s1 s2 s3 r. resolveDocumentFolder env scope nxt s = Inr folderID
        \<and> (if collection = CollectionFolders
           then move_folder_out env c (w_id (wa_workspace scope)) (d_id existing) folderID (u_id u) s = Inr (c1, s1)
           else c1 = c \<and> s1 = s)
        \<and> UpdateDocument env (cx_now c) nxt e (documentFolderID collection folderID) s1 = Inr (d, s2)
        \<and> (if collection = CollectionCompositions
           then clear_startup env c1 (w_id (wa_workspace scope)) (d_id existing) (u_id u) s2 = Inr s3 else s3 = s2)
        \<and> RecordDocument env c1 d ''delete'' None s3 = Inr (r, t)))"
proof -
  from assms obtain cu u scope existing where
    1: "WriteContext c = Inr ((cu, u), scope)" "0 < e"
      "GetDocument (w_id (wa_workspace scope)) collection identity True s = Inr existing" "d_revision existing = e"
    and rest: "doc_Delete env c collection identity e s = Inr (d, t)"
    by (auto simp: doc_Delete_def Let_def res_iffs existing_document_Inr)
  let ?nxt = "existing\<lparr>d_deletedAt := Some (cx_now c), d_active := False, d_updatedBy := actor_of_id (u_id u)\<rparr>"
  have "(d_deletedAt existing \<noteq> None \<and> d = existing \<and> t = s) \<or>
     (d_deletedAt existing = None \<and> (collection = CollectionFolders \<longrightarrow> \<not> isSystemFolder (e_nf env) existing) \<and>
      (\<exists>folderID c1 s1 s2 s3 r. resolveDocumentFolder env scope ?nxt s = Inr folderID
        \<and> (if collection = CollectionFolders
           then move_folder_out env c (w_id (wa_workspace scope)) (d_id existing) folderID (u_id u) s = Inr (c1, s1)
           else c1 = c \<and> s1 = s)
        \<and> UpdateDocument env (cx_now c) ?nxt e (documentFolderID collection folderID) s1 = Inr (d, s2)
        \<and> (if collection = CollectionCompositions
           then clear_startup env c1 (w_id (wa_workspace scope)) (d_id existing) (u_id u) s2 = Inr s3 else s3 = s2)
        \<and> RecordDocument env c1 d ''delete'' None s3 = Inr (r, t)))"
  proof (cases "d_deletedAt existing = None")
    case True
    with rest 1 show ?thesis
      unfolding doc_Delete_def Let_def
      by (auto simp only: res_iffs existing_document_Inr repo_Update_def MapConflict_Inr_iff bindE_simps prod.case
          simp_thms if_True if_False option.distinct split: if_splits) blast+
  next
    case False
    with rest 1 show ?thesis
      by (auto simp: doc_Delete_def Let_def res_iffs existing_document_Inr)
  qed
  with that [OF 1 refl] show ?thesis by blast
qed

text \<open>The document a restore writes: a folder loses its parent.\<close>

definition restored :: "env \<Rightarrow> string \<Rightarrow> document \<Rightarrow> id \<Rightarrow> document" where
  "restored env collection existing actor =
     (let nxt = existing\<lparr>d_deletedAt := None, d_active := True, d_updatedBy := actor_of_id actor\<rparr> in
      if collection = CollectionFolders then
        nxt\<lparr>d_data := omarshal (odel ''parentIdentity'' (ounmarshal (e_nf env) (d_data nxt))), d_folderIdentity := None\<rparr>
      else nxt)"

lemma restored_fields [simp]:
  "doc_key (restored env collection d a) = doc_key d" "d_type (restored env collection d a) = d_type d"
  "d_deletedAt (restored env collection d a) = None" "d_active (restored env collection d a) = True"
  "d_updatedBy (restored env collection d a) = actor_of_id a" "d_identity (restored env collection d a) = d_identity d"
  by (simp_all add: restored_def Let_def doc_key_def)

lemma resolveRestoreFolders_fields:
  assumes "resolveRestoreFolders env scope d s = Inr (f, d')"
  shows "doc_key d' = doc_key d \<and> d_type d' = d_type d \<and> d_deletedAt d' = d_deletedAt d \<and> d_active d' = d_active d
    \<and> d_updatedBy d' = d_updatedBy d \<and> d_identity d' = d_identity d \<and> d_data d' = d_data d \<and> d_displayName d' = d_displayName d"
proof -
  let ?second = "\<lambda>(folderID, d1). case resolveDocumentWorkspaceFolder scope d1 s of
       Inr _ \<Rightarrow> Inr (folderID, d1)
     | Inl e \<Rightarrow>
         if errors_is e RowNotFound then
           let d2 = d1\<lparr>d_workspaceFolderIdentity := None\<rparr> in
           bindE (resolveDocumentWorkspaceFolder scope d2 s) (\<lambda>_. Inr (folderID, d2))
         else Inl e"
  obtain p where p: "(case resolveDocumentFolder env scope d s of
         Inr i \<Rightarrow> Inr (i, d)
       | Inl e \<Rightarrow>
           if errors_is e RowNotFound then
             let d' = d\<lparr>d_folderIdentity := None\<rparr> in
             bindE (resolveDocumentFolder env scope d' s) (\<lambda>i. Inr (i, d'))
           else Inl e) = Inr p" "?second p = Inr (f, d')"
    using assms unfolding resolveRestoreFolders_def bindE_Inr_iff by blast
  from p(1) have "snd p = d \<or> snd p = d\<lparr>d_folderIdentity := None\<rparr>"
    by (auto simp: bindE_Inr_iff Let_def split: sum.splits if_splits)
  moreover from p(2) have "d' = snd p \<or> d' = (snd p)\<lparr>d_workspaceFolderIdentity := None\<rparr>"
    by (auto simp: bindE_Inr_iff Let_def split: sum.splits if_splits prod.splits)
  ultimately show ?thesis by (auto simp: doc_key_def)
qed

lemma doc_Restore_Inr:
  assumes "doc_Restore env c collection identity e s = Inr (d, t)"
  obtains cu u scope existing where
    "WriteContext c = Inr ((cu, u), scope)" "0 < e"
    "GetDocument (w_id (wa_workspace scope)) collection identity True s = Inr existing" "d_revision existing = e"
    "(d_deletedAt existing = None \<and> d = existing \<and> t = s) \<or>
     (d_deletedAt existing \<noteq> None \<and>
      (\<exists>folderID nxt s1 r. resolveRestoreFolders env scope (restored env collection existing (u_id u)) s = Inr (folderID, nxt)
        \<and> UpdateDocument env (cx_now c) nxt e (documentFolderID collection folderID) s = Inr (d, s1)
        \<and> RecordDocument env c d ''restore'' None s1 = Inr (r, t)))"
proof -
  from assms obtain cu u scope existing where
    1: "WriteContext c = Inr ((cu, u), scope)" "0 < e"
      "GetDocument (w_id (wa_workspace scope)) collection identity True s = Inr existing" "d_revision existing = e"
    and rest: "doc_Restore env c collection identity e s = Inr (d, t)"
    by (auto simp: doc_Restore_def Let_def res_iffs existing_document_Inr)
  have "(d_deletedAt existing = None \<and> d = existing \<and> t = s) \<or>
     (d_deletedAt existing \<noteq> None \<and>
      (\<exists>folderID nxt s1 r. resolveRestoreFolders env scope (restored env collection existing (u_id u)) s = Inr (folderID, nxt)
        \<and> UpdateDocument env (cx_now c) nxt e (documentFolderID collection folderID) s = Inr (d, s1)
        \<and> RecordDocument env c d ''restore'' None s1 = Inr (r, t)))"
  proof (cases "d_deletedAt existing = None")
    case True
    with rest 1 show ?thesis by (auto simp: doc_Restore_def Let_def res_iffs existing_document_Inr)
  next
    case False
    with rest 1 show ?thesis
      by (auto simp: doc_Restore_def restored_def Let_def res_iffs existing_document_Inr repo_Update_def split: if_splits)
  qed
  with that [OF 1] show ?thesis by blast
qed

lemma GetDocument_fields:
  assumes "GetDocument ws kind identity incl s = Inr d" "kind \<in> set DocumentCollections"
  shows "d_type d = kind" "d_workspaceID d = ws" "d_identity d = identity"
  by (use GetDocument_Inr [OF assms] scanDocument_fields in metis)+

lemma doc_Patch_inv:
  assumes "doc_Patch env c collection identity payload e s = Inr (d, t)" "log_inv {} s"
    "collection \<in> set DocumentCollections"
  shows "log_inv {} t"
proof (rule doc_Patch_Inr [OF assms(1)], goal_cases)
  case (1 patch0 patch cu u scope existing nxt)
  then have alt: "t = s \<or> (\<exists>f r s1. UpdateDocument env (cx_now c) nxt e f s = Inr (d, s1)
        \<and> RecordDocument env c d ''update'' None s1 = Inr (r, t))" by blast
  have "d_type nxt \<in> set DocumentCollections" using GetDocument_fields(1) [OF 1(6) assms(3)] assms(3) 1(10) by simp
  with alt assms(2) show ?thesis by (auto dest: update_record_step)
qed

lemma doc_Restore_inv:
  assumes "doc_Restore env c collection identity e s = Inr (d, t)" "log_inv {} s"
    "collection \<in> set DocumentCollections"
  shows "log_inv {} t"
proof (rule doc_Restore_Inr [OF assms(1)], goal_cases)
  case (1 cu u scope existing)
  then have alt: "t = s \<or> (\<exists>f f' nxt r s1. resolveRestoreFolders env scope (restored env collection existing (u_id u)) s = Inr (f, nxt)
        \<and> UpdateDocument env (cx_now c) nxt e f' s = Inr (d, s1)
        \<and> RecordDocument env c d ''restore'' None s1 = Inr (r, t))" by blast
  have ty: "d_type existing \<in> set DocumentCollections" using GetDocument_fields(1) [OF 1(3) assms(3)] assms(3) by simp
  from alt show ?thesis
  proof
    assume "\<exists>f f' nxt r s1. resolveRestoreFolders env scope (restored env collection existing (u_id u)) s = Inr (f, nxt)
        \<and> UpdateDocument env (cx_now c) nxt e f' s = Inr (d, s1)
        \<and> RecordDocument env c d ''restore'' None s1 = Inr (r, t)"
    then obtain f f' nxt r s1 where rf: "resolveRestoreFolders env scope (restored env collection existing (u_id u)) s = Inr (f, nxt)"
      and up: "UpdateDocument env (cx_now c) nxt e f' s = Inr (d, s1)"
      and rec: "RecordDocument env c d ''restore'' None s1 = Inr (r, t)" by blast
    have "d_type nxt \<in> set DocumentCollections" using resolveRestoreFolders_fields [OF rf] ty by simp
    from update_record_step [OF up this assms(2) rec] show ?thesis .
  qed (use assms(2) in simp)
qed

lemma doc_Delete_inv:
  assumes "doc_Delete env c collection identity e s = Inr (d, t)" "log_inv {} s"
    "collection \<in> set DocumentCollections"
  shows "log_inv {} t"
proof (rule doc_Delete_Inr [OF assms(1)], goal_cases)
  case (1 cu u scope existing nxt)
  then have alt: "t = s \<or> (\<exists>folderID c1 s1 s2 s3 r.
          (if collection = CollectionFolders
           then move_folder_out env c (w_id (wa_workspace scope)) (d_id existing) folderID (u_id u) s = Inr (c1, s1)
           else c1 = c \<and> s1 = s)
        \<and> UpdateDocument env (cx_now c) nxt e (documentFolderID collection folderID) s1 = Inr (d, s2)
        \<and> (if collection = CollectionCompositions
           then clear_startup env c1 (w_id (wa_workspace scope)) (d_id existing) (u_id u) s2 = Inr s3 else s3 = s2)
        \<and> RecordDocument env c1 d ''delete'' None s3 = Inr (r, t))" by blast
  have ty: "d_type nxt \<in> set DocumentCollections" using GetDocument_fields(1) [OF 1(3) assms(3)] assms(3) 1(5) by simp
  from alt show ?thesis
  proof (elim disjE exE conjE)
    fix folderID c1 s1 s2 s3 r
    assume mv: "if collection = CollectionFolders
           then move_folder_out env c (w_id (wa_workspace scope)) (d_id existing) folderID (u_id u) s = Inr (c1, s1)
           else c1 = c \<and> s1 = s"
      and up: "UpdateDocument env (cx_now c) nxt e (documentFolderID collection folderID) s1 = Inr (d, s2)"
      and cl: "if collection = CollectionCompositions
           then clear_startup env c1 (w_id (wa_workspace scope)) (d_id existing) (u_id u) s2 = Inr s3 else s3 = s2"
      and rec: "RecordDocument env c1 d ''delete'' None s3 = Inr (r, t)"
    have i1: "log_inv {} s1" using mv assms(2) move_folder_out_inv(1) by (auto split: if_splits)
    note us = update_step [OF up ty i1]
    have i2: "log_inv {doc_key nxt} s2" using us(1) by simp
    have i3: "log_inv {doc_key nxt} s3 \<and> same_data s2 s3"
      using cl i2 clear_startup_inv [OF _ i2] ty by (auto simp: doc_key_def split: if_splits)
    then have "log_inv ({doc_key nxt} - {doc_key d}) t"
      by (intro record_step [OF rec]) (use us in \<open>auto simp: doc_rev_same\<close>)
    then show ?thesis using us(2) by simp
  qed (use assms(2) in simp)
qed

end
