(* ===== verification/FolderTree.thy ===== *)
theory FolderTree
  imports LifecycleLaws
begin

text \<open>
  The folder tree: the ancestor walk of \<open>FolderWouldCycle\<close> is complete, and the commands that choose a
  parent keep the parent relation of every workspace acyclic.
\<close>

section \<open>The parent relation\<close>

definition up_rel :: "doc_row list \<Rightarrow> id \<Rightarrow> (id \<times> id) set" where
  "up_rel rows ws = {(dr_id r, p) |r p. r \<in> set rows \<and> dr_kind r = CollectionFolders \<and> dr_ws r = ws \<and> dr_folder r = Some p}"

definition folders_acyclic :: "db \<Rightarrow> bool" where
  "folders_acyclic s \<longleftrightarrow> (\<forall>ws. acyclic (up_rel (db_docs s) ws))"

lemma up_rel_card: "finite (up_rel rows ws)" "card (up_rel rows ws) \<le> length rows"
proof -
  have sub: "up_rel rows ws \<subseteq> (\<lambda>r. (dr_id r, the (dr_folder r))) ` set rows"
    by (force simp: up_rel_def)
  then show "finite (up_rel rows ws)" by (rule finite_subset) simp
  have "card (up_rel rows ws) \<le> card ((\<lambda>r. (dr_id r, the (dr_folder r))) ` set rows)"
    by (rule card_mono [OF _ sub]) simp
  also have "\<dots> \<le> card (set rows)" by (rule card_image_le) simp
  also have "\<dots> \<le> length rows" by (rule card_length)
  finally show "card (up_rel rows ws) \<le> length rows" .
qed

lemma ancestors_relpow:
  assumes "docs_unique (db_docs s)" "(a, b) \<in> up_rel (db_docs s) ws ^^ k" "k \<le> n"
    "row_by_id s CollectionFolders ws b \<noteq> None"
  shows "b \<in> set (ancestors (Suc n) s ws a)"
  using assms(2,3)
proof (induction k arbitrary: a n)
  case 0
  then show ?case using assms(4) by (auto split: option.splits)
next
  case (Suc k)
  from relpow_Suc_D2 [OF Suc.prems(1)] obtain a' where
    st: "(a, a') \<in> up_rel (db_docs s) ws" "(a', b) \<in> up_rel (db_docs s) ws ^^ k" by blast
  from st(1) obtain r where r: "r \<in> set (db_docs s)" "dr_id r = a" "dr_kind r = CollectionFolders" "dr_ws r = ws"
      "dr_folder r = Some a'"
    by (auto simp: up_rel_def)
  have "row_by_id s CollectionFolders ws a = Some r"
    using row_by_id_unique [OF assms(1) r(1)] r by simp
  moreover obtain m where "n = Suc m" "k \<le> m" using Suc.prems(2) by (cases n) auto
  ultimately show ?case using Suc.IH [OF st(2)] r(5) by simp
qed

lemma ancestors_complete:
  assumes "docs_unique (db_docs s)" "(a, b) \<in> (up_rel (db_docs s) ws)\<^sup>*"
    "row_by_id s CollectionFolders ws b \<noteq> None"
  shows "FolderWouldCycle ws b a s"
proof -
  have "(up_rel (db_docs s) ws)\<^sup>* = (\<Union>n \<in> {n. n \<le> card (up_rel (db_docs s) ws)}. up_rel (db_docs s) ws ^^ n)"
    by (rule rtrancl_finite_eq_relpow [OF up_rel_card(1)])
  with assms(2) obtain k where k: "k \<le> card (up_rel (db_docs s) ws)" "(a, b) \<in> up_rel (db_docs s) ws ^^ k"
    by auto
  have "k \<le> length (db_docs s)" using k(1) up_rel_card(2) by (rule le_trans)
  with k(2) show ?thesis unfolding FolderWouldCycle_def
    by (intro ancestors_relpow [OF assms(1) _ _ assms(3)]) auto
qed

text \<open>Conversely, the query only finds ancestors, so its answer is exact.\<close>

lemma ancestors_sound: "b \<in> set (ancestors n s ws a) \<Longrightarrow> (a, b) \<in> (up_rel (db_docs s) ws)\<^sup>* \<and> row_by_id s CollectionFolders ws b \<noteq> None"
proof (induction n arbitrary: a)
  case (Suc n)
  obtain r where r: "row_by_id s CollectionFolders ws a = Some r"
    using Suc.prems by (cases "row_by_id s CollectionFolders ws a") simp_all
  have row: "r \<in> set (db_docs s)" "dr_kind r = CollectionFolders" "dr_ws r = ws" "dr_id r = a"
    using r by (auto simp: row_by_id_def dest: find_SomeD)
  show ?case
  proof (cases "b = a")
    case False
    with Suc.prems r obtain p where p: "dr_folder r = Some p" "b \<in> set (ancestors n s ws p)"
      by (cases "dr_folder r") simp_all
    have "(a, p) \<in> up_rel (db_docs s) ws" using row p(1) unfolding up_rel_def by blast
    with Suc.IH [OF p(2)] show ?thesis by (auto intro: converse_rtrancl_into_rtrancl)
  qed (use r in simp)
qed simp

lemma FolderWouldCycle_iff:
  "docs_unique (db_docs s) \<Longrightarrow>
   FolderWouldCycle ws f p s \<longleftrightarrow> (p, f) \<in> (up_rel (db_docs s) ws)\<^sup>* \<and> row_by_id s CollectionFolders ws f \<noteq> None"
  using ancestors_complete ancestors_sound unfolding FolderWouldCycle_def by blast

section \<open>Commands\<close>

text \<open>A rewritten row changes the relation at its own identifier only.\<close>

lemma up_rel_update:
  assumes "\<And>r. r \<in> set rows \<Longrightarrow> p r \<Longrightarrow> dr_kind (f r) = dr_kind r \<and> dr_ws (f r) = dr_ws r \<and> dr_id (f r) = dr_id r
      \<and> (dr_kind r = CollectionFolders \<longrightarrow> dr_ws r = w \<and> dr_id r = x \<and> dr_folder (f r) = q)"
  shows "up_rel (updateWhere p f rows) ws \<subseteq>
    up_rel rows ws \<union> (if ws = w then (case q of None \<Rightarrow> {} | Some y \<Rightarrow> {(x, y)}) else {})"
proof
  fix ab assume "ab \<in> up_rel (updateWhere p f rows) ws"
  then obtain r where r: "r \<in> set rows" and
    ab: "dr_kind (if p r then f r else r) = CollectionFolders" "dr_ws (if p r then f r else r) = ws"
      "fst ab = dr_id (if p r then f r else r)" "dr_folder (if p r then f r else r) = Some (snd ab)"
    by (auto simp: up_rel_def set_updateWhere)
  show "ab \<in> up_rel rows ws \<union> (if ws = w then (case q of None \<Rightarrow> {} | Some y \<Rightarrow> {(x, y)}) else {})"
  proof (cases "p r")
    case True
    with assms [OF r True] ab show ?thesis by (cases ab) auto
  next
    case False
    with ab r have "ab \<in> up_rel rows ws" unfolding up_rel_def by (cases ab) auto
    then show ?thesis ..
  qed
qed

lemma acyclic_up_rel_update:
  assumes ac: "\<And>ws. acyclic (up_rel rows ws)"
    and sub: "\<And>ws. up_rel rows' ws \<subseteq> up_rel rows ws \<union> (if ws = w then (case q of None \<Rightarrow> {} | Some y \<Rightarrow> {(x, y)}) else {})"
    and no: "\<And>y. q = Some y \<Longrightarrow> (y, x) \<notin> (up_rel rows w)\<^sup>*"
  shows "acyclic (up_rel rows' ws)"
proof (cases "ws = w \<and> q \<noteq> None")
  case True
  then obtain y where y: "q = Some y" by auto
  have "up_rel rows' ws \<subseteq> insert (x, y) (up_rel rows ws)" using sub [of ws] True y by auto
  moreover have "acyclic (insert (x, y) (up_rel rows ws))"
    using ac no [OF y] True by (simp add: acyclic_insert)
  ultimately show ?thesis by (rule acyclic_subset [rotated])
next
  case False
  then have "up_rel rows' ws \<subseteq> up_rel rows ws" using sub [of ws] by (auto split: if_splits option.splits)
  then show ?thesis by (rule acyclic_subset [OF ac])
qed

lemma UpdateDocument_acyclic:
  assumes up: "UpdateDocument env now v e f s = Inr (d, t)" and ty: "d_type v \<in> set DocumentCollections"
    and ac: "folders_acyclic s"
    and no: "\<And>y. d_type v = CollectionFolders \<Longrightarrow> f = Some y \<Longrightarrow> (y, d_id v) \<notin> (up_rel (db_docs s) (d_workspaceID v))\<^sup>*"
  shows "folders_acyclic t"
proof -
  from UpdateDocument_Inr [OF up ty] obtain wfo data rel where
    t: "t = s\<lparr>db_docs := updateWhere (addressed v e)
        (\<lambda>r. touched (ac_id (d_updatedBy v)) now (written env v f wfo data rel r)) (db_docs s)\<rparr>" by metis
  let ?q = "if d_type v = CollectionFolders then f else None"
  have rows: "db_docs t = updateWhere (addressed v e)
        (\<lambda>r. touched (ac_id (d_updatedBy v)) now (written env v f wfo data rel r)) (db_docs s)" by (simp add: t)
  have sub: "up_rel (db_docs t) ws \<subseteq> up_rel (db_docs s) ws \<union>
      (if ws = d_workspaceID v then (case ?q of None \<Rightarrow> {} | Some y \<Rightarrow> {(d_id v, y)}) else {})" for ws
    unfolding rows by (rule up_rel_update) (auto simp: addressed_def)
  have ac': "acyclic (up_rel (db_docs s) ws)" for ws using ac by (simp add: folders_acyclic_def)
  have "acyclic (up_rel (db_docs t) ws)" for ws
    by (rule acyclic_up_rel_update [OF ac' sub]) (use no in \<open>auto split: if_splits\<close>)
  then show ?thesis by (simp add: folders_acyclic_def)
qed

lemma folders_acyclic_same: "same_data s t \<Longrightarrow> folders_acyclic t = folders_acyclic s"
  by (simp add: folders_acyclic_def same_data_def)

lemma doc_Patch_acyclic:
  assumes "doc_Patch env c collection identity payload e s = Inr (d, t)"
    "collection \<in> set DocumentCollections" "doc_good s" "folders_acyclic s"
  shows "folders_acyclic t"
proof (rule doc_Patch_Inr [OF assms(1)], goal_cases)
  case (1 patch0 patch cu u scope existing nxt)
  let ?ws = "w_id (wa_workspace scope)"
  note gf = GetDocument_fields [OF 1(6) assms(2)]
  from 1(12) show ?case
  proof (elim disjE exE conjE)
    fix folderID r s1
    assume chk: "check_parent collection existing folderID ?ws s = Inr ()"
      and up: "UpdateDocument env (cx_now c) nxt e (documentFolderID collection folderID) s = Inr (d, s1)"
      and rec: "RecordDocument env c d ''update'' None s1 = Inr (r, t)"
    have nx: "d_type nxt = collection" "d_id nxt = d_id existing" "d_workspaceID nxt = ?ws" using gf 1(10) by simp_all
    have un: "docs_unique (db_docs s)" using assms(3) by (rule doc_good_rows)
    have "folders_acyclic s1"
    proof (rule UpdateDocument_acyclic [OF up _ assms(4)])
      show "d_type nxt \<in> set DocumentCollections" using nx assms(2) by simp
      fix y assume k: "d_type nxt = CollectionFolders" and y: "documentFolderID collection folderID = Some y"
      then have y': "folderID = Some y" by (simp add: documentFolderID_def split: if_splits)
      from GetDocument_Inr [OF 1(6) assms(2)] obtain q where q: "scanDocument s q = Inr existing" "q \<in> set (db_docs s)"
          "dr_kind q = collection" "dr_ws q = ?ws" by metis
      have "row_by_id s CollectionFolders ?ws (d_id existing) \<noteq> None"
        using row_by_id_unique [OF un q(2)] q nx k scanDocument_fields(1) [OF q(1)] by simp
      then show "(y, d_id nxt) \<notin> (up_rel (db_docs s) (d_workspaceID nxt))\<^sup>*"
        using ancestors_complete [OF un, of y "d_id existing" ?ws] chk y' k nx
        by (auto simp: check_parent_def failIf_Inr_iff)
    qed
    then show ?case using folders_acyclic_same [OF record_same_data [OF rec]] by simp
  qed (use assms(4) in simp)
qed

text \<open>A new folder is nobody's parent yet.\<close>

lemma resolveFolder_existing:
  assumes "resolveFolder scope CollectionFolders input s = Inr (Some p)"
  shows "\<exists>r \<in> set (db_docs s). dr_kind r = CollectionFolders \<and> dr_id r = p \<and> dr_deletedAt r = None"
  using assms
  by (auto simp: resolveFolder_def ResolveFolder_def Let_def collection_defs split: if_splits option.splits dest!: find_SomeD)

lemma insert_row_acyclic:
  assumes ok: "docs_ok s' (rows @ [r])" and good: "docs_ok s rows" and ac: "\<And>ws. acyclic (up_rel rows ws)"
    and par: "\<And>p. dr_kind r = CollectionFolders \<Longrightarrow> dr_folder r = Some p \<Longrightarrow>
      \<exists>q \<in> set rows. dr_kind q = CollectionFolders \<and> dr_id q = p"
  shows "acyclic (up_rel (rows @ [r]) ws)"
proof -
  let ?q = "if dr_kind r = CollectionFolders then dr_folder r else None"
  have "(dr_kind r, dr_id r) \<notin> (\<lambda>r. (dr_kind r, dr_id r)) ` set rows"
    using ok by (simp add: docs_ok_def docs_unique_def)
  then have new: "q \<in> set rows \<Longrightarrow> dr_kind q = CollectionFolders \<Longrightarrow> dr_kind r = CollectionFolders \<Longrightarrow> dr_id q \<noteq> dr_id r" for q
    by (force simp: image_iff)
  have sub: "up_rel (rows @ [r]) j \<subseteq> up_rel rows j \<union>
      (if j = dr_ws r then (case ?q of None \<Rightarrow> {} | Some y \<Rightarrow> {(dr_id r, y)}) else {})" for j
    by (auto simp: up_rel_def)
  show ?thesis
  proof (rule acyclic_up_rel_update [OF ac sub])
    fix y assume y: "?q = Some y"
    then have k: "dr_kind r = CollectionFolders" "dr_folder r = Some y" by (auto split: if_splits)
    from par [OF k] new [OF _ _ k(1)] have ne: "y \<noteq> dr_id r" by blast
    show "(y, dr_id r) \<notin> (up_rel rows (dr_ws r))\<^sup>*"
    proof
      assume "(y, dr_id r) \<in> (up_rel rows (dr_ws r))\<^sup>*"
      with ne obtain z where "(z, dr_id r) \<in> up_rel rows (dr_ws r)" by (metis rtranclE)
      then obtain a where a: "a \<in> set rows" "dr_kind a = CollectionFolders" "dr_folder a = Some (dr_id r)"
        by (auto simp: up_rel_def)
      then have "folder_fk rows a" using good by (simp add: docs_ok_def row_fk_def)
      with a(3) obtain b where "b \<in> set rows" "dr_kind b = CollectionFolders" "dr_id b = dr_id r"
        by (auto simp: folder_fk_def)
      with new [OF _ _ k(1)] show False by blast
    qed
  qed
qed

lemma doc_Create_acyclic:
  assumes "doc_Create env c collection payload s = Inr (d, t)" "doc_good s" "folders_acyclic s"
  shows "folders_acyclic t"
proof -
  let ?s1 = "snd (fresh env s)"
  obtain vals scope v folderID created s2 r where
    rf: "resolveFolder scope collection vals ?s1 = Inr folderID" and
    v: "d_type v = collection" "d_type v \<in> set DocumentCollections" and
    ins: "InsertDocument env (cx_now c) v (documentFolderID collection folderID) ?s1 = Inr (created, s2)" and
    rec: "RecordDocument env c created ''create'' None s2 = Inr (r, t)"
  proof (rule doc_Create_Inr [OF assms(1)], goal_cases)
    case (1 values0 vals cu u scope folderID created s2 r)
    then show ?case by (intro 1(1) [OF 1(8) _ _ 1(9,10)]) simp_all
  qed
  have good1: "docs_ok ?s1 (db_docs s)"
    using assms(2) docs_ok_cong [of ?s1 s "db_docs s"] by (simp add: doc_good_def ws_of_def)
  from InsertDocument_Inr [OF ins v(2)] obtain wfo data rel where
    s2: "s2 = ?s1\<lparr>db_docs := db_docs ?s1 @ [written env v (documentFolderID collection folderID) wfo data rel (new_row v (cx_now c))]\<rparr>"
    and ok: "docs_ok ?s1 (db_docs s2)" by metis
  let ?r = "written env v (documentFolderID collection folderID) wfo data rel (new_row v (cx_now c))"
  have rows: "db_docs s2 = db_docs s @ [?r]" using s2 by simp
  have ac: "acyclic (up_rel (db_docs s) ws)" for ws using assms(3) by (simp add: folders_acyclic_def)
  have "acyclic (up_rel (db_docs s2) ws)" for ws
    unfolding rows
  proof (rule insert_row_acyclic [OF ok [unfolded rows] good1 ac])
    fix p assume k: "dr_kind ?r = CollectionFolders" "dr_folder ?r = Some p"
    then have "collection = CollectionFolders" using v(1) by (simp add: new_row_def)
    moreover from k(2) have "folderID = Some p" by (simp add: documentFolderID_def split: if_splits)
    ultimately show "\<exists>q \<in> set (db_docs s). dr_kind q = CollectionFolders \<and> dr_id q = p"
      using resolveFolder_existing [of scope vals ?s1 p] rf by auto
  qed
  then have "folders_acyclic s2" by (simp add: folders_acyclic_def)
  then show ?thesis using folders_acyclic_same [OF record_same_data [OF rec]] by simp
qed

end
