(* ===== verification/DocMove.thy ===== *)
theory DocMove
  imports FolderTree
begin

text \<open>
  Moving many documents at once: \<open>internal/usecase/documents/move.go\<close>. All documents are checked
  before the first is written, the changed ones are written in one mutation batch, and the transaction
  keeps all or none.
\<close>

definition maxMoveDocuments :: nat where "maxMoveDocuments = 500"

record move_item =
  mi_collection :: string
  mi_identity :: string
  mi_expected :: int

record move_input =
  mv_documents :: "move_item list"
  mv_folder :: string
  mv_placement :: string

record moved_document =
  md_collection :: string
  md_document :: document

record move_result =
  mr_documents :: "moved_document list"
  mr_moved :: nat

definition move_key :: "move_item \<Rightarrow> string" where
  "move_key item = mi_collection item @ '':'' @ mi_identity item"

definition trim_item :: "move_item \<Rightarrow> move_item" where
  "trim_item item = item\<lparr>mi_collection := trim_space (mi_collection item), mi_identity := trim_space (mi_identity item)\<rparr>"

text \<open>The validation loop; the accumulator is the trimmed items so far, whose keys are the \<open>seen\<close> map.\<close>

definition check_move_item :: "move_item \<Rightarrow> move_item list \<Rightarrow> move_item list res" where
  "check_move_item item0 seen =
     (let item = trim_item item0 in
      bindE (validateCollection (mi_collection item)) (\<lambda>_.
      failIf (mi_collection item = CollectionFolders) (InvalidInput ''folder_move_unsupported'') (
      bindE (validateIdentity (mi_identity item)) (\<lambda>_.
      failIf (mi_expected item \<le> 0) (InvalidInput ''expected_revision_invalid'') (
      failIf (move_key item \<in> set (map move_key seen))
        (WithDetails (InvalidInput ''move_document_duplicate'') [(''document'', JStr (move_key item))]) (
      Inr (seen @ [item])))))))"

definition item_details :: "move_item \<Rightarrow> jobj" where
  "item_details item = [(''collection'', JStr (mi_collection item)), (''identity'', JStr (mi_identity item))]"

definition placed :: "string \<Rightarrow> string \<Rightarrow> id \<Rightarrow> document \<Rightarrow> document" where
  "placed placement folderIdentity actor d =
     (if placement = ''workspace'' then d\<lparr>d_workspaceFolderIdentity := Some folderIdentity\<rparr>
      else d\<lparr>d_folderIdentity := Some folderIdentity\<rparr>)\<lparr>d_updatedBy := actor_of_id actor\<rparr>"

text \<open>One iteration of the preparing loop: the stored document, and the document to write with its
  folder when the move changes it.\<close>

type_synonym prepared = "move_item \<times> document \<times> (document \<times> id option) option"

definition prepare_move ::
    "env \<Rightarrow> workspace_access \<Rightarrow> string \<Rightarrow> string \<Rightarrow> id \<Rightarrow> db \<Rightarrow> move_item \<Rightarrow> prepared list \<Rightarrow> prepared list res" where
  "prepare_move env scope placement folderIdentity actor s item acc =
     bindE (MapNotFound (GetDocument (w_id (wa_workspace scope)) (mi_collection item) (mi_identity item) True s)) (\<lambda>existing.
     failIf (d_revision existing \<noteq> mi_expected item) (WithDetails RevisionConflict (item_details item)) (
     failIf (d_deletedAt existing \<noteq> None)
       (WithDetails (InvalidInput ''move_document_deleted'') (item_details item)) (
     let nxt = placed placement folderIdentity actor existing in
     bindE (resolveDocumentFolder env scope nxt s) (\<lambda>folderID.
     bindE (resolveDocumentWorkspaceFolder scope nxt s) (\<lambda>_.
     Inr (acc @ [(item, existing,
       if checksumContent (e_sha env) existing = checksumContent (e_sha env) nxt then None
       else Some (nxt, folderID))]))))))"

text \<open>One iteration of the writing loop. An unchanged document keeps its place in the result.\<close>

definition write_move :: "env \<Rightarrow> ctx \<Rightarrow> prepared \<Rightarrow> move_result \<times> db \<Rightarrow> (move_result \<times> db) res" where
  "write_move env c p st =
     (let (item, existing, change) = p; (result, s) = st in
      case change of
        None \<Rightarrow> Inr (result\<lparr>mr_documents := mr_documents result @
            [\<lparr>md_collection = mi_collection item, md_document = existing\<rparr>]\<rparr>, s)
      | Some (nxt, folderID) \<Rightarrow>
          bindE (UpdateDocument env (cx_now c) nxt (d_revision nxt) folderID s) (\<lambda>(updated, s1).
          bindE (RecordDocument env c updated ''update'' None s1) (\<lambda>(_, s2).
          Inr (\<lparr>mr_documents = mr_documents result @ [\<lparr>md_collection = mi_collection item, md_document = updated\<rparr>],
                mr_moved = Suc (mr_moved result)\<rparr>, s2))))"

definition unchanged :: "prepared \<Rightarrow> bool" where
  "unchanged p \<longleftrightarrow> snd (snd p) = None"

definition MoveDocuments :: "env \<Rightarrow> ctx \<Rightarrow> move_input \<Rightarrow> db \<Rightarrow> (move_result \<times> db) res" where
  "MoveDocuments env c input s =
     bindE (WriteContext c) (\<lambda>((current, u), scope).
     let folderIdentity = trim_space (mv_folder input); placement = trim_space (mv_placement input) in
     failIf (folderIdentity = []) (InvalidInput ''folder_identity_required'') (
     failIf (length folderIdentity > 160) (InvalidInput ''folder_identity_too_long'') (
     failIf (placement \<noteq> ''frontend'' \<and> placement \<noteq> ''workspace'') (InvalidInput ''folder_placement_invalid'') (
     failIf (mv_documents input = [] \<or> length (mv_documents input) > maxMoveDocuments)
       (InvalidInput ''move_documents_count_invalid'') (
     bindE (foldE check_move_item (mv_documents input) []) (\<lambda>items.
     MapConflict (
       bindE (foldE (prepare_move env scope placement folderIdentity (u_id u) s) items []) (\<lambda>ps.
       if list_all unchanged ps
       then Inr (\<lparr>mr_documents = map (\<lambda>p. \<lparr>md_collection = mi_collection (fst p), md_document = fst (snd p)\<rparr>) ps,
                  mr_moved = 0\<rparr>, s)
       else
         bindE (BeginBatch env c (Some (w_id (wa_workspace scope))) ''move'' (u_id u) s) (\<lambda>(c1, s1).
         foldE (write_move env c1) ps (\<lparr>mr_documents = [], mr_moved = 0\<rparr>, s1))))))))))"

section \<open>Laws\<close>

lemma check_move_item_Inr:
  assumes "check_move_item i seen = Inr acc"
  shows "acc = seen @ [trim_item i]" "mi_collection (trim_item i) \<in> set DocumentCollections"
    "mi_collection (trim_item i) \<noteq> CollectionFolders" "0 < mi_expected i" "move_key (trim_item i) \<notin> set (map move_key seen)"
  using assms by (simp_all add: check_move_item_def res_iffs Let_def validateCollection_Inr trim_item_def)

lemma check_items:
  assumes "foldE check_move_item items seen = Inr out"
  shows "out = seen @ map trim_item items
    \<and> (\<forall>i \<in> set items. mi_collection (trim_item i) \<in> set DocumentCollections
          \<and> mi_collection (trim_item i) \<noteq> CollectionFolders \<and> 0 < mi_expected i)
    \<and> (distinct (map move_key seen) \<longrightarrow> distinct (map move_key out))"
  using assms
proof (induction items arbitrary: seen)
  case (Cons i items)
  from Cons.prems obtain acc where step: "check_move_item i seen = Inr acc" and rest: "foldE check_move_item items acc = Inr out"
    by (simp add: bindE_Inr_iff) blast
  note c = check_move_item_Inr [OF step]
  note ih = Cons.IH [OF rest]
  have "distinct (map move_key seen) \<longrightarrow> distinct (map move_key acc)" unfolding c(1) using c(5) by simp
  with ih have "distinct (map move_key seen) \<longrightarrow> distinct (map move_key out)" by blast
  moreover have "out = seen @ map trim_item (i # items)" using ih c(1) by simp
  moreover have "\<forall>i \<in> set (i # items). mi_collection (trim_item i) \<in> set DocumentCollections
          \<and> mi_collection (trim_item i) \<noteq> CollectionFolders \<and> 0 < mi_expected i" using ih c(2-4) by simp
  ultimately show ?case by blast
qed simp

text \<open>What preparing found for an item.\<close>

definition prepared_ok :: "env \<Rightarrow> workspace_access \<Rightarrow> string \<Rightarrow> string \<Rightarrow> id \<Rightarrow> db \<Rightarrow> move_item \<Rightarrow> prepared \<Rightarrow> bool" where
  "prepared_ok env scope placement folder actor s item p \<longleftrightarrow>
     (let (i, existing, change) = p; nxt = placed placement folder actor existing in
      i = item \<and> GetDocument (w_id (wa_workspace scope)) (mi_collection item) (mi_identity item) True s = Inr existing
      \<and> d_revision existing = mi_expected item \<and> d_deletedAt existing = None
      \<and> (\<exists>folderID. resolveDocumentFolder env scope nxt s = Inr folderID
          \<and> change = (if checksumContent (e_sha env) existing = checksumContent (e_sha env) nxt then None else Some (nxt, folderID))))"

lemma prepare_all:
  assumes "foldE (prepare_move env scope placement folder actor s) items acc = Inr ps"
  shows "\<exists>new. ps = acc @ new \<and> list_all2 (prepared_ok env scope placement folder actor s) items new"
  using assms
proof (induction items arbitrary: acc)
  case (Cons i items)
  from Cons.prems obtain acc1 where step: "prepare_move env scope placement folder actor s i acc = Inr acc1"
    and rest1: "foldE (prepare_move env scope placement folder actor s) items acc1 = Inr ps"
    by (simp add: bindE_Inr_iff) blast
  from step obtain existing folderID where
    e: "GetDocument (w_id (wa_workspace scope)) (mi_collection i) (mi_identity i) True s = Inr existing"
      "d_revision existing = mi_expected i" "d_deletedAt existing = None"
      "resolveDocumentFolder env scope (placed placement folder actor existing) s = Inr folderID"
    and acc1: "acc1 = acc @ [(i, existing, if checksumContent (e_sha env) existing = checksumContent (e_sha env) (placed placement folder actor existing)
            then None else Some (placed placement folder actor existing, folderID))]"
    unfolding prepare_move_def by (simp add: res_iffs Let_def del: not_None_eq) blast
  note rest = rest1 [unfolded acc1]
  from Cons.IH [OF rest] obtain new where
    "ps = (acc @ [(i, existing, if checksumContent (e_sha env) existing = checksumContent (e_sha env) (placed placement folder actor existing)
            then None else Some (placed placement folder actor existing, folderID))]) @ new"
    "list_all2 (prepared_ok env scope placement folder actor s) items new" by blast
  moreover have "prepared_ok env scope placement folder actor s i (i, existing, if checksumContent (e_sha env) existing
        = checksumContent (e_sha env) (placed placement folder actor existing)
      then None else Some (placed placement folder actor existing, folderID))"
    using e by (simp add: prepared_ok_def Let_def)
  ultimately show ?case
    by (metis append.assoc append_Cons append_Nil list.rel_intros(2))
qed simp

lemma placed_fields [simp]:
  "d_revision (placed p f a d) = d_revision d" "doc_key (placed p f a d) = doc_key d" "d_type (placed p f a d) = d_type d"
  "d_identity (placed p f a d) = d_identity d" "d_deletedAt (placed p f a d) = d_deletedAt d"
  "d_updatedBy (placed p f a d) = actor_of_id a" "d_active (placed p f a d) = d_active d"
  by (simp_all add: placed_def doc_key_def)

text \<open>What a prepared item becomes in the result.\<close>

definition moved_ok :: "prepared \<Rightarrow> moved_document \<Rightarrow> bool" where
  "moved_ok p m \<longleftrightarrow> md_collection m = mi_collection (fst p)
     \<and> (case snd (snd p) of
          None \<Rightarrow> md_document m = fst (snd p)
        | Some (nxt, f) \<Rightarrow> d_revision (md_document m) = d_revision nxt + 1 \<and> doc_key (md_document m) = doc_key nxt
            \<and> d_identity (md_document m) = d_identity nxt)"

lemma write_move_None [simp]:
  "write_move env c (item, existing, None) (res, s) = Inr (res\<lparr>mr_documents := mr_documents res @
      [\<lparr>md_collection = mi_collection item, md_document = existing\<rparr>]\<rparr>, s)"
  by (simp add: write_move_def)

lemma write_all:
  assumes "foldE (write_move env c) ps (res, s) = Inr (res', t)" "log_inv {} s"
    "\<forall>p \<in> set ps. \<forall>nxt f. snd (snd p) = Some (nxt, f) \<longrightarrow> d_type nxt \<in> set DocumentCollections"
  shows "log_inv {} t \<and> (\<exists>new. mr_documents res' = mr_documents res @ new \<and> list_all2 moved_ok ps new)
    \<and> mr_moved res' = mr_moved res + length (filter (\<lambda>p. \<not> unchanged p) ps)"
  using assms
proof (induction ps arbitrary: res s)
  case (Cons p ps)
  obtain item existing change where p: "p = (item, existing, change)" by (cases p)
  note a = Cons.prems
  have step: "\<exists>res1 s1 m. foldE (write_move env c) ps (res1, s1) = Inr (res', t) \<and> log_inv {} s1
      \<and> mr_documents res1 = mr_documents res @ [m] \<and> moved_ok p m
      \<and> mr_moved res1 = mr_moved res + (if unchanged p then 0 else 1)"
    proof (cases change)
      case None
      with a p have "foldE (write_move env c) ps (res\<lparr>mr_documents := mr_documents res @
          [\<lparr>md_collection = mi_collection item, md_document = existing\<rparr>]\<rparr>, s) = Inr (res', t)"
        by simp
      with a(2) p None show ?thesis
        by (intro exI [of _ "res\<lparr>mr_documents := mr_documents res @ [\<lparr>md_collection = mi_collection item, md_document = existing\<rparr>]\<rparr>"]
              exI [of _ s] exI [of _ "\<lparr>md_collection = mi_collection item, md_document = existing\<rparr>"])
           (simp add: moved_ok_def unchanged_def)
    next
      case (Some nf)
      obtain nxt f where nf: "nf = (nxt, f)" by (cases nf)
      from a(1) obtain st1 where w1: "write_move env c p (res, s) = Inr st1"
        and w2: "foldE (write_move env c) ps st1 = Inr (res', t)" by (simp add: bindE_Inr_iff) blast
      from w1 Some nf p obtain updated s1 r s2 where
        up: "UpdateDocument env (cx_now c) nxt (d_revision nxt) f s = Inr (updated, s1)"
        and rec: "RecordDocument env c updated ''update'' None s1 = Inr (r, s2)"
        and st1: "st1 = (\<lparr>mr_documents = mr_documents res @ [\<lparr>md_collection = mi_collection item, md_document = updated\<rparr>],
                mr_moved = Suc (mr_moved res)\<rparr>, s2)"
        by (auto simp: write_move_def res_iffs)
      note rest = w2 [unfolded st1]
      have ty: "d_type nxt \<in> set DocumentCollections" using a(3) Some nf p by simp
      note us = update_step [OF up ty a(2)]
      have "log_inv {} s2" by (rule update_record_step [OF up ty a(2) rec])
      with rest us Some nf p show ?thesis
        by (intro exI [of _ "\<lparr>mr_documents = mr_documents res @ [\<lparr>md_collection = mi_collection item, md_document = updated\<rparr>],
                mr_moved = Suc (mr_moved res)\<rparr>"] exI [of _ s2] exI [of _ "\<lparr>md_collection = mi_collection item, md_document = updated\<rparr>"])
           (auto simp: moved_ok_def unchanged_def)
    qed
  from step obtain res1 s1 m where st: "foldE (write_move env c) ps (res1, s1) = Inr (res', t)" "log_inv {} s1"
      "mr_documents res1 = mr_documents res @ [m]" "moved_ok p m" "mr_moved res1 = mr_moved res + (if unchanged p then 0 else 1)"
    by blast
  from a(3) have "\<forall>p \<in> set ps. \<forall>nxt f. snd (snd p) = Some (nxt, f) \<longrightarrow> d_type nxt \<in> set DocumentCollections" by auto
  from Cons.IH [OF st(1,2) this] st obtain new where "log_inv {} t" "mr_documents res' = mr_documents res @ m # new"
    "list_all2 moved_ok (p # ps) (m # new)" "mr_moved res' = mr_moved res1 + length (filter (\<lambda>p. \<not> unchanged p) ps)"
    by auto
  with st(5) show ?case by (intro conjI exI [of _ "m # new"]) simp_all
qed simp

text \<open>The whole command: the result has one entry for each item, in order; the counter is the number of
  entries that were written; an item that changed is one revision ahead of the one it expected.\<close>

lemma MoveDocuments_parts:
  assumes mv: "MoveDocuments env c input s = Inr (res, t)"
  obtains cu u scope ps where "WriteContext c = Inr ((cu, u), scope)"
    "list_all2 (prepared_ok env scope (trim_space (mv_placement input)) (trim_space (mv_folder input)) (u_id u) s)
       (map trim_item (mv_documents input)) ps"
    "\<forall>p \<in> set ps. \<forall>nxt f. snd (snd p) = Some (nxt, f) \<longrightarrow> d_type nxt \<in> set DocumentCollections"
    "if list_all unchanged ps
     then t = s \<and> res = \<lparr>mr_documents = map (\<lambda>p. \<lparr>md_collection = mi_collection (fst p), md_document = fst (snd p)\<rparr>) ps, mr_moved = 0\<rparr>
     else \<exists>c1 s1. BeginBatch env c (Some (w_id (wa_workspace scope))) ''move'' (u_id u) s = Inr (c1, s1)
        \<and> foldE (write_move env c1) ps (\<lparr>mr_documents = [], mr_moved = 0\<rparr>, s1) = Inr (res, t)"
proof -
  let ?pl = "trim_space (mv_placement input)" and ?fo = "trim_space (mv_folder input)"
  from mv obtain cu u scope items ps where w: "WriteContext c = Inr ((cu, u), scope)"
    and ci: "foldE check_move_item (mv_documents input) [] = Inr items"
    and pr: "foldE (prepare_move env scope ?pl ?fo (u_id u) s) items [] = Inr ps"
    and rest: "(if list_all unchanged ps
       then Inr (\<lparr>mr_documents = map (\<lambda>p. \<lparr>md_collection = mi_collection (fst p), md_document = fst (snd p)\<rparr>) ps, mr_moved = 0\<rparr>, s)
       else bindE (BeginBatch env c (Some (w_id (wa_workspace scope))) ''move'' (u_id u) s) (\<lambda>(c1, s1).
         foldE (write_move env c1) ps (\<lparr>mr_documents = [], mr_moved = 0\<rparr>, s1))) = Inr (res, t)"
    by (auto simp: MoveDocuments_def res_iffs Let_def)
  note ck = check_items [OF ci, simplified]
  from prepare_all [OF pr] have al: "list_all2 (prepared_ok env scope ?pl ?fo (u_id u) s) (map trim_item (mv_documents input)) ps"
    using ck by simp
  have ty: "\<forall>p \<in> set ps. \<forall>nxt f. snd (snd p) = Some (nxt, f) \<longrightarrow> d_type nxt \<in> set DocumentCollections"
  proof (intro ballI allI impI)
    fix p nxt f assume p: "p \<in> set ps" "snd (snd p) = Some (nxt, f)"
    from p(1) al obtain i where i: "i \<in> set (map trim_item (mv_documents input))"
        "prepared_ok env scope ?pl ?fo (u_id u) s i p"
      unfolding list_all2_conv_all_nth by (metis in_set_conv_nth length_map nth_map)
    have "mi_collection i \<in> set DocumentCollections" using i(1) ck by auto
    then show "d_type nxt \<in> set DocumentCollections"
      using i(2) p(2) GetDocument_fields(1) by (auto simp: prepared_ok_def Let_def split: prod.splits if_splits)
  qed
  show thesis by (rule that [OF w al ty]) (use rest in \<open>auto simp: bindE_Inr_iff split: if_splits\<close>)
qed

lemma MoveDocuments_Inr:
  assumes mv: "MoveDocuments env c input s = Inr (res, t)" and inv: "log_inv {} s"
  shows "log_inv {} t"
    "\<exists>scope u ps. WriteContext c = Inr (u, scope)
      \<and> list_all2 (prepared_ok env scope (trim_space (mv_placement input)) (trim_space (mv_folder input)) (u_id (snd u)) s)
          (map trim_item (mv_documents input)) ps
      \<and> list_all2 moved_ok ps (mr_documents res)
      \<and> mr_moved res = length (filter (\<lambda>p. \<not> unchanged p) ps)
      \<and> (mr_moved res = 0 \<longrightarrow> t = s)"
proof -
  obtain cu u scope ps where w: "WriteContext c = Inr ((cu, u), scope)"
    and al: "list_all2 (prepared_ok env scope (trim_space (mv_placement input)) (trim_space (mv_folder input)) (u_id u) s)
       (map trim_item (mv_documents input)) ps"
    and ty: "\<forall>p \<in> set ps. \<forall>nxt f. snd (snd p) = Some (nxt, f) \<longrightarrow> d_type nxt \<in> set DocumentCollections"
    and out: "if list_all unchanged ps
     then t = s \<and> res = \<lparr>mr_documents = map (\<lambda>p. \<lparr>md_collection = mi_collection (fst p), md_document = fst (snd p)\<rparr>) ps, mr_moved = 0\<rparr>
     else \<exists>c1 s1. BeginBatch env c (Some (w_id (wa_workspace scope))) ''move'' (u_id u) s = Inr (c1, s1)
        \<and> foldE (write_move env c1) ps (\<lparr>mr_documents = [], mr_moved = 0\<rparr>, s1) = Inr (res, t)"
    by (rule MoveDocuments_parts [OF mv])
  have "log_inv {} t \<and> list_all2 moved_ok ps (mr_documents res) \<and> mr_moved res = length (filter (\<lambda>p. \<not> unchanged p) ps)
    \<and> (mr_moved res = 0 \<longrightarrow> t = s)"
  proof (cases "list_all unchanged ps")
    case True
    with out have r: "t = s" "res = \<lparr>mr_documents = map (\<lambda>p. \<lparr>md_collection = mi_collection (fst p), md_document = fst (snd p)\<rparr>) ps, mr_moved = 0\<rparr>"
      by simp_all
    have "list_all2 moved_ok ps (mr_documents res)" using True r(2)
      by (simp add: list_all2_conv_all_nth list_all_length unchanged_def moved_ok_def)
    moreover have "filter (\<lambda>p. \<not> unchanged p) ps = []" using True by (auto simp: list_all_iff filter_empty_conv)
    ultimately show ?thesis using inv r by simp
  next
    case False
    with out obtain c1 s1 where b: "BeginBatch env c (Some (w_id (wa_workspace scope))) ''move'' (u_id u) s = Inr (c1, s1)"
      and wr: "foldE (write_move env c1) ps (\<lparr>mr_documents = [], mr_moved = 0\<rparr>, s1) = Inr (res, t)"
      by auto
    note wa = write_all [OF wr BeginBatch_log_inv [OF b inv] ty]
    have "filter (\<lambda>p. \<not> unchanged p) ps \<noteq> []" using False by (auto simp: list_all_iff filter_empty_conv)
    then show ?thesis using wa by simp
  qed
  with w al show "log_inv {} t"
    and "\<exists>scope u ps. WriteContext c = Inr (u, scope)
      \<and> list_all2 (prepared_ok env scope (trim_space (mv_placement input)) (trim_space (mv_folder input)) (u_id (snd u)) s)
          (map trim_item (mv_documents input)) ps
      \<and> list_all2 moved_ok ps (mr_documents res)
      \<and> mr_moved res = length (filter (\<lambda>p. \<not> unchanged p) ps)
      \<and> (mr_moved res = 0 \<longrightarrow> t = s)"
    by (simp, intro exI [of _ scope] exI [of _ "(cu, u)"] exI [of _ ps], simp)
qed

end
