(* ===== verification/Commands.thy ===== *)
theory Commands
  imports DocMove
begin

text \<open>
  The document commands as one state machine. A step is a command that a request got through; a command
  that fails leaves the database as it was, since its transaction is rolled back. Whatever the requests
  are and in whatever order they are served, the states they reach keep the history invariant. Every
  use case of \<open>internal/usecase\<close> that delegates to the lifecycle names one collection of
  \<open>DocumentCollections\<close>.
\<close>

inductive doc_step :: "env \<Rightarrow> db \<Rightarrow> db \<Rightarrow> bool" for env where
  create: "doc_Create env c collection payload s = Inr (d, t) \<Longrightarrow> doc_step env s t"
| patch: "collection \<in> set DocumentCollections \<Longrightarrow>
    doc_Patch env c collection identity payload e s = Inr (d, t) \<Longrightarrow> doc_step env s t"
| delete: "collection \<in> set DocumentCollections \<Longrightarrow>
    doc_Delete env c collection identity e s = Inr (d, t) \<Longrightarrow> doc_step env s t"
| restore: "collection \<in> set DocumentCollections \<Longrightarrow>
    doc_Restore env c collection identity e s = Inr (d, t) \<Longrightarrow> doc_step env s t"
| move: "MoveDocuments env c input s = Inr (r, t) \<Longrightarrow> doc_step env s t"

inductive reached :: "env \<Rightarrow> db \<Rightarrow> db \<Rightarrow> bool" for env s0 where
  start: "reached env s0 s0"
| step: "reached env s0 s \<Longrightarrow> doc_step env s t \<Longrightarrow> reached env s0 t"

lemma doc_step_inv: "doc_step env s t \<Longrightarrow> log_inv {} s \<Longrightarrow> log_inv {} t"
  by (induction rule: doc_step.induct)
     (auto intro: doc_Create_inv doc_Patch_inv doc_Delete_inv doc_Restore_inv MoveDocuments_Inr(1))

lemma reached_inv: "reached env s0 s \<Longrightarrow> log_inv {} s0 \<Longrightarrow> log_inv {} s"
  by (induction rule: reached.induct) (auto dest: doc_step_inv)

text \<open>What the invariant says of one row and of one workspace.\<close>

lemma log_inv_row:
  assumes "log_inv {} s" "r \<in> set (db_docs s)" "dr_kind r \<in> set DocumentCollections"
  shows "map rv_number (revisions_of s (dr_ws r) (dr_kind r) (dr_id r)) = [1..dr_revision r]"
proof -
  have good: "doc_good s" and lc: "log_complete {} s" using assms(1) by (simp_all add: log_inv_def)
  have "logged s (row_key r) = numbers_expected s {} (row_key r)"
    by (intro log_completeD [OF lc]) (simp add: row_key_def assms(3))
  then show ?thesis
    using doc_rev_row [OF good assms(2)] by (simp add: logged_def numbers_expected_def row_key_def)
qed

text \<open>What one successful command leaves behind: the revision it returns and the entry it logs.\<close>

lemma RecordDocument_last:
  assumes "RecordDocument env c d op from s = Inr (r, t)"
  shows "db_revisions t = db_revisions s @ [r]" "rv_number r = d_revision d" "rv_operation r = op"
    "rv_snapshot r = SnapDocument d" "rv_docID r = d_id d" "rv_type r = d_type d" "rv_ws r = d_workspaceID d"
  using append_revision_Inr(2,5) [OF assms [unfolded RecordDocument_append]]
  by (simp_all add: revision_matches_def)

lemma UpdateDocument_revisions:
  "UpdateDocument env now v e f s = Inr (d, t) \<Longrightarrow> d_type v \<in> set DocumentCollections \<Longrightarrow>
     db_revisions t = db_revisions s"
  by (erule UpdateDocument_Inr) simp_all

definition logs_one :: "string \<Rightarrow> document \<Rightarrow> db \<Rightarrow> db \<Rightarrow> bool" where
  "logs_one op d s t \<longleftrightarrow> (\<exists>r. db_revisions t = db_revisions s @ [r] \<and> rv_number r = d_revision d
     \<and> rv_operation r = op \<and> rv_snapshot r = SnapDocument d)"

lemma doc_Patch_outcome:
  assumes "doc_Patch env c collection identity payload e s = Inr (d, t)" "log_inv {} s"
    "collection \<in> set DocumentCollections"
  shows "(t = s \<and> d_revision d = e) \<or> (d_revision d = e + 1 \<and> logs_one ''update'' d s t)"
proof (rule doc_Patch_Inr [OF assms(1)], goal_cases)
  case (1 patch0 patch cu u scope existing nxt)
  have ty: "d_type nxt \<in> set DocumentCollections" using GetDocument_fields(1) [OF 1(6) assms(3)] assms(3) 1(10) by simp
  from 1(12) show ?case
  proof (elim disjE conjE exE)
    fix folderID r s1
    assume up: "UpdateDocument env (cx_now c) nxt e (documentFolderID collection folderID) s = Inr (d, s1)"
      and rec: "RecordDocument env c d ''update'' None s1 = Inr (r, t)"
    show ?thesis using update_step(4) [OF up ty assms(2)] RecordDocument_last [OF rec] UpdateDocument_revisions [OF up ty]
      by (simp add: logs_one_def)
  qed (use 1(7) in simp)
qed

lemma doc_Restore_outcome:
  assumes "doc_Restore env c collection identity e s = Inr (d, t)" "log_inv {} s"
    "collection \<in> set DocumentCollections"
  shows "d_deletedAt d = None \<and> ((t = s \<and> d_revision d = e) \<or>
     (d_active d \<and> d_revision d = e + 1 \<and> logs_one ''restore'' d s t))"
proof (rule doc_Restore_Inr [OF assms(1)], goal_cases)
  case (1 cu u scope existing)
  have ty: "d_type existing \<in> set DocumentCollections" using GetDocument_fields(1) [OF 1(3) assms(3)] assms(3) by simp
  from 1(5) show ?case
  proof (elim disjE conjE exE)
    fix folderID nxt s1 r
    assume rf: "resolveRestoreFolders env scope (restored env collection existing (u_id u)) s = Inr (folderID, nxt)"
      and up: "UpdateDocument env (cx_now c) nxt e (documentFolderID collection folderID) s = Inr (d, s1)"
      and rec: "RecordDocument env c d ''restore'' None s1 = Inr (r, t)"
    have n: "d_type nxt \<in> set DocumentCollections" "d_deletedAt nxt = None" "d_active nxt"
      using resolveRestoreFolders_fields [OF rf] ty by simp_all
    show ?thesis using update_step(4,6,7) [OF up n(1) assms(2)] n RecordDocument_last [OF rec] UpdateDocument_revisions [OF up n(1)]
      by (simp add: logs_one_def)
  qed (use 1(4) in simp)
qed

lemma doc_Delete_outcome:
  assumes "doc_Delete env c collection identity e s = Inr (d, t)" "log_inv {} s"
    "collection \<in> set DocumentCollections"
  shows "d_deletedAt d \<noteq> None \<and> ((t = s \<and> d_revision d = e) \<or>
     (d_deletedAt d = Some (cx_now c) \<and> \<not> d_active d \<and> d_revision d = e + 1
      \<and> (\<exists>r. last (db_revisions t) = r \<and> rv_number r = e + 1 \<and> rv_operation r = ''delete'' \<and> rv_snapshot r = SnapDocument d)))"
proof (rule doc_Delete_Inr [OF assms(1)], goal_cases)
  case (1 cu u scope existing nxt)
  have ty: "d_type nxt \<in> set DocumentCollections" using GetDocument_fields(1) [OF 1(3) assms(3)] assms(3) 1(5) by simp
  from 1(6) show ?case
  proof (elim disjE conjE exE)
    fix folderID c1 s1 s2 s3 r
    assume mv: "if collection = CollectionFolders
           then move_folder_out env c (w_id (wa_workspace scope)) (d_id existing) folderID (u_id u) s = Inr (c1, s1)
           else c1 = c \<and> s1 = s"
      and up: "UpdateDocument env (cx_now c) nxt e (documentFolderID collection folderID) s1 = Inr (d, s2)"
      and rec: "RecordDocument env c1 d ''delete'' None s3 = Inr (r, t)"
    have i1: "log_inv {} s1" using mv assms(2) move_folder_out_inv(1) by (auto split: if_splits)
    show ?thesis using update_step(4,6,7) [OF up ty i1] 1(5) RecordDocument_last [OF rec] by simp
  qed (use 1(4) in simp)
qed

end
