(* ===== verification/FacetCommands.thy ===== *)
theory FacetCommands
  imports FacetOrder Commands
begin

text \<open>
  The facet commands as a state machine. Each command keeps the invariant of the facet tables and the invariant of
  the documents; what a command returns is what it logged. The two facet repositories satisfy the contract of a
  store with optimistic locking.
\<close>

section \<open>Transactions\<close>

lemma RecordDocument_frame:
  assumes "RecordDocument env c d op from s = Inr (r, t)"
  shows "same_data s t" "facet_rev t k = facet_rev s k" "fdoc_rev t k = fdoc_rev s k"
  using record_same_data [OF assms] by (simp_all add: facet_rev_def fdoc_rev_def same_data_def)

lemma docs_inv_cong:
  "log_inv {} s \<Longrightarrow> db_docs t = db_docs s \<Longrightarrow> db_users t = db_users s \<Longrightarrow> db_workspaces t = db_workspaces s
   \<Longrightarrow> db_revisions t = db_revisions s \<Longrightarrow> log_inv {} t"
  by (rule log_inv_cong)

definition service_inv :: "db \<Rightarrow> bool" where
  "service_inv s \<longleftrightarrow> log_inv {} s \<and> facet_inv {} {} s"

lemma write_facet_Inr:
  assumes w: "write_facet env c v e op from s = Inr (d, t)" and inv: "service_inv s"
  shows "service_inv t" "d_revision d = e + 1" "logs_one op d s t" "ent_key d = ent_key v" "d_type d = CollectionFacets"
    "d_identity d = d_identity v" "d_deletedAt d = d_deletedAt v" "d_active d = d_active v"
    "facet_rev t (ent_key d) = Some (e + 1)" "facet_rev s (ent_key v) = Some e"
proof -
  from w obtain s1 r where up: "UpdateFacet env (cx_now c) v e s = Inr (d, s1)"
    and rec: "RecordDocument env c d op from s1 = Inr (r, t)"
    by (auto simp: write_facet_def res_iffs)
  have fi: "facet_inv {} {} s" and li: "log_inv {} s" using inv by (simp_all add: service_inv_def)
  note us = UpdateFacet_step [OF up fi, simplified]
  show d: "d_revision d = e + 1" "ent_key d = ent_key v" "d_type d = CollectionFacets"
    "d_identity d = d_identity v" "d_deletedAt d = d_deletedAt v" "d_active d = d_active v"
    using us by simp_all
  have "facet_inv ({ent_key v} - {ent_key d}) {} t" by (rule record_facet [OF rec us(1)]) (use us in simp_all)
  moreover have "log_inv {} t"
    by (rule record_facet_docs [OF rec _ docs_inv_cong [OF li]]) (use us in simp_all)
  ultimately show "service_inv t" using d by (simp add: service_inv_def)
  show "logs_one op d s t" using RecordDocument_last [OF rec] us by (simp add: logs_one_def)
  show "facet_rev t (ent_key d) = Some (e + 1)" using RecordDocument_frame(2) [OF rec] us by simp
  show "facet_rev s (ent_key v) = Some e" using us by simp
qed

lemma write_fdoc_Inr:
  assumes w: "write_fdoc env c v e op from s = Inr (d, t)" and inv: "service_inv s"
  shows "service_inv t" "d_revision d = e + 1" "logs_one op d s t" "ent_key d = ent_key v"
    "d_type d = CollectionFacetDocuments" "d_identity d = d_identity v" "d_deletedAt d = d_deletedAt v"
    "d_active d = d_active v"
proof -
  from w obtain s1 r where up: "UpdateFacetDocument (cx_now c) v e s = Inr (d, s1)"
    and rec: "RecordDocument env c d op from s1 = Inr (r, t)"
    by (auto simp: write_fdoc_def res_iffs)
  have fi: "facet_inv {} {} s" and li: "log_inv {} s" using inv by (simp_all add: service_inv_def)
  note us = UpdateFacetDocument_step [OF up fi, simplified]
  show d: "d_revision d = e + 1" "ent_key d = ent_key v" "d_type d = CollectionFacetDocuments"
    "d_identity d = d_identity v" "d_deletedAt d = d_deletedAt v" "d_active d = d_active v"
    using us by simp_all
  have "facet_inv {} ({ent_key v} - {ent_key d}) t" by (rule record_fdoc [OF rec us(1)]) (use us in simp_all)
  moreover have "log_inv {} t"
    by (rule record_facet_docs [OF rec _ docs_inv_cong [OF li]]) (use us in simp_all)
  ultimately show "service_inv t" using d by (simp add: service_inv_def)
  show "logs_one op d s t" using RecordDocument_last [OF rec] us by (simp add: logs_one_def)
qed

lemma service_inv_fresh: "service_inv s \<Longrightarrow> service_inv (snd (fresh env s))"
proof -
  assume i: "service_inv s"
  have sd: "same_data s (snd (fresh env s))" by (simp add: same_data_def)
  have "facet_good (snd (fresh env s)) = facet_good s" by (rule facet_good_same [OF sd]) (simp add: fresh_def ws_of_def)
  then have "facet_inv {} {} (snd (fresh env s))"
    using i facet_log.unrelated [of "{}" s "snd (fresh env s)"] fdoc_log.unrelated [of "{}" s "snd (fresh env s)"]
    by (simp add: service_inv_def facet_inv_def facet_rev_def fdoc_rev_def)
  then show ?thesis using i by (simp add: service_inv_def log_inv_fresh)
qed

section \<open>Facet commands\<close>

lemma existing_facet_Inr:
  "existing_facet ws identity e s = Inr d \<longleftrightarrow> 0 < e \<and> GetFacet ws (trim_space identity) True s = Inr d \<and> d_revision d = e"
  by (auto simp: existing_facet_def res_iffs)

lemma facet_Create_Inr:
  assumes cr: "facet_Create env c input s = Inr (d, t)" and inv: "service_inv s"
  shows "service_inv t" "d_revision d = 1" "logs_one ''create'' d s t" "d_deletedAt d = None"
    "d_identity d = trim_space (fci_identity input)"
proof -
  obtain i s1 where f: "fresh env s = (i, s1)" by (cases "fresh env s")
  then have s1: "s1 = snd (fresh env s)" by simp
  let ?in = "normalizeFacetCreate input"
  from cr f obtain u :: user and scope :: workspace_access and s2 r where
    ins: "InsertFacet env (cx_now c) (new_facet i (w_id (wa_workspace scope)) (u_id u) ?in) s1 = Inr (d, s2)"
    and rec: "RecordDocument env c d ''create'' None s2 = Inr (r, t)"
    by (auto simp: facet_Create_def res_iffs Let_def)
  have i1: "service_inv s1" unfolding s1 by (rule service_inv_fresh [OF inv])
  then have fi: "facet_inv {} {} s1" and li: "log_inv {} s1" by (simp_all add: service_inv_def)
  have v: "d_revision (new_facet i (w_id (wa_workspace scope)) (u_id u) ?in) = 1"
    "d_deletedAt (new_facet i (w_id (wa_workspace scope)) (u_id u) ?in) = None"
    "d_identity (new_facet i (w_id (wa_workspace scope)) (u_id u) ?in) = trim_space (fci_identity input)"
    by (simp_all add: new_facet_def normalizeFacetCreate_def)
  note us = InsertFacet_step [OF ins fi _ v(1,2), simplified v, simplified]
  show "d_revision d = 1" "d_deletedAt d = None" "d_identity d = trim_space (fci_identity input)" using us by simp_all
  have "facet_inv {} {} t" using record_facet [OF rec us(1)] us by simp
  moreover have "log_inv {} t"
    by (rule record_facet_docs [OF rec _ docs_inv_cong [OF li]]) (use us in simp_all)
  ultimately show "service_inv t" by (simp add: service_inv_def)
  show "logs_one ''create'' d s t" using RecordDocument_last [OF rec] us s1 by (simp add: logs_one_def)
qed

text \<open>The data a facet is read with always counts its documents; the data a patch writes never does. The two contents
  differ, so a patch is a change even when it names nothing.\<close>

lemma facet_Patch_Inr:
  assumes p: "facet_Patch env c identity input e s = Inr (d, t)" and inv: "service_inv s"
  shows "service_inv t" "(t = s \<and> d_revision d = e) \<or> (d_revision d = e + 1 \<and> logs_one ''update'' d s t)"
    "(\<And>x y. e_fsha env x = e_fsha env y \<Longrightarrow> ohas (fc_data x) ''documentCount'' = ohas (fc_data y) ''documentCount'')
      \<Longrightarrow> d_revision d = e + 1 \<and> logs_one ''update'' d s t"
proof -
  from p obtain cu and u :: user and scope :: workspace_access and existing where w: "WriteContext c = Inr ((cu, u), scope)"
    and ex0: "existing_facet (w_id (wa_workspace scope)) identity e s = Inr existing"
    by (auto simp: facet_Patch_def Let_def bindE_Inr_iff)
  let ?data = "put_opt ''color'' (fpi_color input) (put_opt ''icon'' (fpi_icon input) (dataMap (e_nf env) (d_data existing)))"
  define nxt where "nxt = existing\<lparr>d_identity := (case fpi_identity input of None \<Rightarrow> d_identity existing | Some x \<Rightarrow> trim_space x),
           d_displayName := (case fpi_displayName input of None \<Rightarrow> d_displayName existing | Some x \<Rightarrow> trim_space x),
           d_meta := (case fpi_meta input of None \<Rightarrow> d_meta existing | Some x \<Rightarrow> marshal (map_value x)),
           d_data := omarshal (odel ''documentCount'' ?data), d_updatedBy := actor_of_id (u_id u)\<rparr>"
  have nx: "d_data nxt = omarshal (odel ''documentCount'' ?data)" by (simp add: nxt_def)
  have out: "if checksumDocument env existing = checksumDocument env nxt then d = existing \<and> t = s
       else write_facet env c nxt e ''update'' None s = Inr (d, t)"
    using p [unfolded facet_Patch_def Let_def] w ex0 by (auto simp: res_iffs nxt_def split: if_splits)
  have ex: "GetFacet (w_id (wa_workspace scope)) (trim_space identity) True s = Inr existing" "d_revision existing = e"
    using ex0 by (simp_all add: existing_facet_Inr)
  show "service_inv t" "(t = s \<and> d_revision d = e) \<or> (d_revision d = e + 1 \<and> logs_one ''update'' d s t)"
    using out write_facet_Inr [OF _ inv] inv ex(2) by (auto split: if_splits)
  obtain f where "scanFacet s f = Inr existing" using GetFacet_Inr [OF ex(1)] by metis
  then have "oget (d_data existing) ''documentCount'' \<noteq> None"
    by (auto simp: scanFacet_def split: option.splits) (simp_all add: oget_def)
  then have "ohas (d_data existing) ''documentCount'' \<noteq> ohas (d_data nxt) ''documentCount''" by (simp add: ohas_iff nx)
  then show "d_revision d = e + 1 \<and> logs_one ''update'' d s t"
    if "\<And>x y. e_fsha env x = e_fsha env y \<Longrightarrow> ohas (fc_data x) ''documentCount'' = ohas (fc_data y) ''documentCount''"
    using that [of "facet_content_of existing" "facet_content_of nxt"] out write_facet_Inr(2,3) [OF _ inv]
    by (auto simp: checksumDocument_def facet_content_of_def split: if_splits)
qed

lemma facet_Delete_Inr:
  assumes p: "facet_Delete env c identity e s = Inr (d, t)" and inv: "service_inv s"
  shows "service_inv t" "d_deletedAt d \<noteq> None"
    "(t = s \<and> d_revision d = e) \<or> (d_revision d = e + 1 \<and> \<not> d_active d \<and> logs_one ''delete'' d s t)"
proof -
  from p obtain cu and u :: user and scope :: workspace_access and existing where w: "WriteContext c = Inr ((cu, u), scope)"
    and ex: "existing_facet (w_id (wa_workspace scope)) identity e s = Inr existing"
    by (auto simp: facet_Delete_def Let_def bindE_Inr_iff)
  define nxt where "nxt = existing\<lparr>d_deletedAt := Some (cx_now c), d_active := False, d_updatedBy := actor_of_id (u_id u)\<rparr>"
  have nx: "d_deletedAt nxt = Some (cx_now c)" "\<not> d_active nxt" by (simp_all add: nxt_def)
  have out: "(d_deletedAt existing \<noteq> None \<and> d = existing \<and> t = s) \<or> write_facet env c nxt e ''delete'' None s = Inr (d, t)"
    using p [unfolded facet_Delete_def Let_def] w ex by (auto simp: res_iffs nxt_def split: if_splits)
  show "service_inv t" "d_deletedAt d \<noteq> None"
    "(t = s \<and> d_revision d = e) \<or> (d_revision d = e + 1 \<and> \<not> d_active d \<and> logs_one ''delete'' d s t)"
    using out write_facet_Inr [OF _ inv, of env c nxt e "''delete''" None d t] nx inv ex by (auto simp: existing_facet_Inr)
qed

lemma facet_Restore_Inr:
  assumes p: "facet_Restore env c identity e s = Inr (d, t)" and inv: "service_inv s"
  shows "service_inv t" "d_deletedAt d = None"
    "(t = s \<and> d_revision d = e) \<or> (d_revision d = e + 1 \<and> d_active d \<and> logs_one ''restore'' d s t)"
proof -
  from p obtain cu and u :: user and scope :: workspace_access and existing where w: "WriteContext c = Inr ((cu, u), scope)"
    and ex: "existing_facet (w_id (wa_workspace scope)) identity e s = Inr existing"
    by (auto simp: facet_Restore_def Let_def bindE_Inr_iff)
  let ?data = "odel ''documentCount'' (oput ''position'' (JInt (-1)) (dataMap (e_nf env) (d_data existing)))"
  define nxt where "nxt = existing\<lparr>d_data := omarshal ?data, d_deletedAt := None, d_active := True, d_updatedBy := actor_of_id (u_id u)\<rparr>"
  have nx: "d_deletedAt nxt = None" "d_active nxt" by (simp_all add: nxt_def)
  have out: "(d_deletedAt existing = None \<and> d = existing \<and> t = s) \<or> write_facet env c nxt e ''restore'' None s = Inr (d, t)"
    using p [unfolded facet_Restore_def Let_def] w ex by (auto simp: res_iffs nxt_def split: if_splits)
  show "service_inv t" "d_deletedAt d = None"
    "(t = s \<and> d_revision d = e) \<or> (d_revision d = e + 1 \<and> d_active d \<and> logs_one ''restore'' d s t)"
    using out write_facet_Inr [OF _ inv, of env c nxt e "''restore''" None d t] nx inv ex by (auto simp: existing_facet_Inr)
qed

lemma facet_RestoreRevision_Inr:
  assumes p: "facet_RestoreRevision env c identity rid e s = Inr (d, t)" and inv: "service_inv s"
  shows "service_inv t" "d_revision d = e + 1" "logs_one ''restore'' d s t"
proof -
  from p obtain v op r where "write_facet env c v e ''restore'' r s = Inr (d, t)"
    unfolding facet_RestoreRevision_def Let_def by (auto simp: res_iffs)
  from write_facet_Inr [OF this inv] show "service_inv t" "d_revision d = e + 1" "logs_one ''restore'' d s t" by simp_all
qed

section \<open>Reordering\<close>

lemma record_changed:
  assumes "foldE (record_update env c) ds s = Inr t" "facet_inv (ent_key ` set ds) PD s" "log_inv {} s"
    "distinct (map ent_key ds)" "\<forall>d \<in> set ds. d_type d = CollectionFacets \<and> facet_rev s (ent_key d) = Some (d_revision d)"
  shows "facet_inv {} PD t \<and> log_inv {} t \<and> same_data s t
    \<and> (\<exists>rs. db_revisions t = db_revisions s @ rs \<and> map rv_snapshot rs = map SnapDocument ds)"
  using assms
proof (induction ds arbitrary: s)
  case (Cons d ds)
  from Cons.prems(1) obtain r s1 where rec: "RecordDocument env c d ''update'' None s = Inr (r, s1)"
    and rest: "foldE (record_update env c) ds s1 = Inr t"
    by (auto simp: record_update_def [of env c d] bindE_Inr_iff)
  note fr = RecordDocument_frame [OF rec] and la = RecordDocument_last [OF rec]
  have "facet_inv (ent_key ` set (d # ds) - {ent_key d}) PD s1"
    by (rule record_facet [OF rec Cons.prems(2)]) (use Cons.prems(5) in auto)
  moreover have "ent_key ` set (d # ds) - {ent_key d} = ent_key ` set ds" using Cons.prems(4) by auto
  ultimately have i: "facet_inv (ent_key ` set ds) PD s1" by simp
  have l: "log_inv {} s1" by (rule record_facet_docs [OF rec _ Cons.prems(3)]) (use Cons.prems(5) in simp)
  have "facet_inv {} PD t \<and> log_inv {} t \<and> same_data s1 t
    \<and> (\<exists>rs. db_revisions t = db_revisions s1 @ rs \<and> map rv_snapshot rs = map SnapDocument ds)"
    by (rule Cons.IH [OF rest i l]) (use Cons.prems(4,5) fr(2) in auto)
  then show ?case using same_data_trans [OF fr(1)] la by auto
qed simp

lemma ReorderFacets_inv:
  assumes ro: "ReorderFacets now ws items actor s = Inr (changed, t)" and inv: "service_inv s"
  shows "facet_inv (ent_key ` set changed) {} t" "log_inv {} t" "distinct (map ent_key changed)"
    "\<forall>d \<in> set changed. d_type d = CollectionFacets \<and> facet_rev t (ent_key d) = Some (d_revision d)"
proof -
  have good: "facet_good s" and ok: "facets_ok s (db_facets s)" using inv by (simp_all add: service_inv_def facet_inv_def facet_good_def)
  note rr = ReorderFacets_rows [OF ro ok] and ch = ReorderFacets_rows(2) [OF ro ok, unfolded changed_ok_def]
  show "distinct (map ent_key changed)" using ch by simp
  have mv: "moved_row ws items (length items) r \<longleftrightarrow> live_in ws r \<and> (fr_ws r, fr_id r) \<in> ent_key ` set changed"
    if r: "r \<in> set (db_facets s)" for r
  proof
    show "moved_row ws items (length items) r \<Longrightarrow> live_in ws r \<and> (fr_ws r, fr_id r) \<in> ent_key ` set changed"
      using ch r by (auto simp: moved_row_def live_in_def)
    assume "live_in ws r \<and> (fr_ws r, fr_id r) \<in> ent_key ` set changed"
    then obtain q where q: "q \<in> set (db_facets s)" "moved_row ws items (length items) q" "fr_id q = fr_id r"
      using ch by fastforce
    then have "q = r" using facet_id_inj [OF ok q(1) r] by simp
    with q(2) show "moved_row ws items (length items) r" by simp
  qed
  have keyed: "\<exists>q \<in> set (db_facets s). live_in ws q \<and> k = (fr_ws q, fr_id q)" if "k \<in> ent_key ` set changed" for k
    using that ch by (fastforce simp: moved_row_def live_in_def)
  have ver: "facet_rev t k = (if k \<in> ent_key ` set changed then map_option (\<lambda>n. n + 1) (facet_rev s k) else facet_rev s k)" for k
  proof (cases "find (\<lambda>g. fr_ws g = fst k \<and> fr_id g = snd k) (db_facets s)")
    case None
    then show ?thesis by (simp add: facet_rev_def rr(1) find_map_same_key)
  next
    case (Some r)
    note r = find_SomeD [OF Some]
    then have k: "k = (fr_ws r, fr_id r)" by (simp add: prod_eq_iff)
    have live: "live_in ws r" if kk: "k \<in> ent_key ` set changed"
    proof -
      obtain q where q: "q \<in> set (db_facets s)" "live_in ws q" "fr_id q = fr_id r" using keyed [OF kk] k by auto
      have "q = r" by (rule facet_id_inj [OF ok q(1) conjunct2 [OF find_SomeD [OF Some]] q(3)])
      with q(2) show ?thesis by simp
    qed
    have "fr_revision (reordered now ws actor items r) = (if k \<in> ent_key ` set changed then fr_revision r + 1 else fr_revision r)"
    proof (cases "k \<in> ent_key ` set changed")
      case True
      with mv [OF conjunct2 [OF r]] live k have "moved_row ws items (length items) r" by simp
      then show ?thesis using True by (simp add: reordered_def moved_row_def)
    next
      case False
      with mv [OF conjunct2 [OF r]] k have nm: "\<not> moved_row ws items (length items) r" by simp
      show ?thesis
      proof (cases "live_in ws r")
        case True
        then have "fr_position r = int (index_in items (fr_identity r))"
          using nm rr(4) [OF conjunct2 [OF r] True] by (simp add: moved_row_def)
        then show ?thesis using False by (simp add: reordered_def)
      qed (use False in \<open>simp add: reordered_def\<close>)
    qed
    then show ?thesis using Some by (simp add: facet_rev_def rr(1) find_map_same_key)
  qed
  show "\<forall>d \<in> set changed. d_type d = CollectionFacets \<and> facet_rev t (ent_key d) = Some (d_revision d)"
  proof
    fix d assume d: "d \<in> set changed"
    then obtain r where r: "r \<in> set (db_facets s)" "moved_row ws items (length items) r" "ent_key d = (ws, fr_id r)"
      "d_revision d = fr_revision r + 1" "d_type d = CollectionFacets" using ch by blast
    then have "facet_rev s (ent_key d) = Some (fr_revision r)"
      using facet_rev_row [OF ok r(1)] by (simp add: moved_row_def live_in_def)
    moreover have "ent_key d \<in> ent_key ` set changed" using d by simp
    ultimately show "d_type d = CollectionFacets \<and> facet_rev t (ent_key d) = Some (d_revision d)" using ver [of "ent_key d"] r by simp
  qed
  have t': "t = s\<lparr>db_facets := updateWhere (\<lambda>_. True) (reordered now ws actor items) (db_facets s)\<rparr>"
    by (simp add: rr(1) updateWhere_def)
  have "facets_ok s (db_facets t)" using rr(6) facet_ok_cong(1) [of t s] by (simp add: rr(1) ws_of_def)
  then have "facet_good t" by (rule facets_update_good [OF good t']) simp_all
  moreover have "log_matches CollectionFacets facet_rev (ent_key ` set changed) t"
    by (rule facet_log.written_many [OF _ _ ver]) (use inv in \<open>simp_all add: service_inv_def facet_inv_def rr(1)\<close>)
  moreover have "log_matches CollectionFacetDocuments fdoc_rev {} t"
    by (rule fdoc_log.unrelated) (use inv in \<open>auto simp: service_inv_def facet_inv_def rr(1) fdoc_rev_def\<close>)
  ultimately show "facet_inv (ent_key ` set changed) {} t" by (simp add: facet_inv_def)
  show "log_inv {} t" by (rule docs_inv_cong [of s]) (use inv in \<open>simp_all add: service_inv_def rr(1)\<close>)
qed


lemma trim_order_Inr:
  "trim_order seen items = Inr out \<Longrightarrow> map oi_identity out = map (\<lambda>i. trim_space (oi_identity i)) items
     \<and> map oi_expected out = map oi_expected items"
  by (induction items arbitrary: seen out) (auto simp: Let_def res_iffs)

lemma reorder_error_Inr [simp]: "reorder_error r = Inr v \<longleftrightarrow> r = Inr v"
  by (cases r) (auto simp: reorder_error_def split: if_splits)

lemma facet_Reorder_Inr:
  assumes p: "facet_Reorder env c order s = Inr (ds, t)" and inv: "service_inv s"
  shows "service_inv t" "map d_identity ds = map (\<lambda>i. trim_space (oi_identity i)) order"
    "\<exists>ws u items. map oi_identity items = map (\<lambda>i. trim_space (oi_identity i)) order
       \<and> db_facets t = map (reordered (cx_now c) ws u items) (db_facets s)"
proof -
  from p obtain cu and u :: user and scope :: workspace_access and items changed s1 c1 s2 where
    tr: "trim_order [] order = Inr items"
    and ro: "ReorderFacets (cx_now c) (w_id (wa_workspace scope)) items (u_id u) s = Inr (changed, s1)"
    and b: "(if changed = [] then Inr (c, s1) else BeginBatch env c (Some (w_id (wa_workspace scope))) ''update'' (u_id u) s1) = Inr (c1, s2)"
    and rec: "foldE (record_update env c1) changed s2 = Inr t"
    and ds: "ds = ListFacets (w_id (wa_workspace scope)) False t"
    unfolding facet_Reorder_def Let_def by (auto simp: res_iffs)
  let ?ws = "w_id (wa_workspace scope)"
  note ri = ReorderFacets_inv [OF ro inv]
  have ok: "facets_ok s (db_facets s)" using inv by (simp add: service_inv_def facet_inv_def facet_good_def)
  have b2: "same_data s1 s2 \<and> db_revisions s2 = db_revisions s1 \<and> db_workspaces s2 = db_workspaces s1"
    using b BeginBatch_Inr [of env c "Some ?ws" "''update''" "u_id u" s1 c1 s2] by (auto split: if_splits)
  have ver2: "facet_rev s2 k = facet_rev s1 k" "fdoc_rev s2 k = fdoc_rev s1 k" for k
    using b2 by (simp_all add: facet_rev_def fdoc_rev_def same_data_def)
  have "facet_good s2" using ri(1) facet_good_same [of s1 s2] b2 by (simp add: facet_inv_def ws_of_def)
  then have i2: "facet_inv (ent_key ` set changed) {} s2"
    using ri(1) b2 ver2 facet_log.unrelated [of _ s1 s2] fdoc_log.unrelated [of _ s1 s2] by (simp add: facet_inv_def)
  have l2: "log_inv {} s2" by (rule docs_inv_cong [OF ri(2)]) (use b2 in \<open>simp_all add: same_data_def\<close>)
  have rc: "facet_inv {} {} t \<and> log_inv {} t \<and> same_data s2 t"
    using record_changed [OF rec i2 l2 ri(3)] ri(4) ver2(1) by simp
  then show "service_inv t" by (simp add: service_inv_def)
  have sd: "same_data s1 t" using b2 rc same_data_trans by blast
  have eqs: "db_user t = db_user s1" "documentCount t = documentCount s1"
    using sd by (simp_all add: db_user_def documentCount_def same_data_def fun_eq_iff)
  have "scanFacet t = scanFacet s1" unfolding scanFacet_def [abs_def] eqs by (rule refl)
  then have "ListFacets ?ws False t = ListFacets ?ws False s1" using sd by (simp add: ListFacets_def same_data_def)
  then show "map d_identity ds = map (\<lambda>i. trim_space (oi_identity i)) order"
    using ReorderFacets_listing [OF ro ok] trim_order_Inr [OF tr] ds by simp
  have "db_facets t = db_facets s1" using sd by (simp add: same_data_def)
  then have "db_facets t = map (reordered (cx_now c) ?ws (u_id u) items) (db_facets s)"
    using ReorderFacets_rows(1) [OF ro ok] by simp
  then show "\<exists>ws u items. map oi_identity items = map (\<lambda>i. trim_space (oi_identity i)) order
       \<and> db_facets t = map (reordered (cx_now c) ws u items) (db_facets s)"
    using trim_order_Inr [OF tr] by blast
qed

section \<open>Facet document commands\<close>

lemma fdoc_Create_Inr:
  assumes cr: "fdoc_Create env c facet input s = Inr (d, t)" and inv: "service_inv s"
  shows "service_inv t" "d_revision d = 1" "logs_one ''create'' d s t"
proof -
  obtain i s1 where f: "fresh env s = (i, s1)" by (cases "fresh env s")
  then have s1: "s1 = snd (fresh env s)" by simp
  from cr f obtain v s2 r where
    ins: "InsertFacetDocument (cx_now c) v s1 = Inr (d, s2)" and v: "d_revision v = 1"
    and rec: "RecordDocument env c d ''create'' None s2 = Inr (r, t)"
    unfolding fdoc_Create_def Let_def by (auto simp: res_iffs) (simp add: new_fdoc_def)
  have i1: "service_inv s1" unfolding s1 by (rule service_inv_fresh [OF inv])
  then have fi: "facet_inv {} {} s1" and li: "log_inv {} s1" by (simp_all add: service_inv_def)
  note us = InsertFacetDocument_step [OF ins fi _ v, simplified]
  show "d_revision d = 1" using us by simp
  have "facet_inv {} {} t" using record_fdoc [OF rec us(1)] us by simp
  moreover have "log_inv {} t"
    by (rule record_facet_docs [OF rec _ docs_inv_cong [OF li]]) (use us in simp_all)
  ultimately show "service_inv t" by (simp add: service_inv_def)
  show "logs_one ''create'' d s t" using RecordDocument_last [OF rec] us s1 by (simp add: logs_one_def)
qed

lemma existing_fdoc_Inr:
  "existing_fdoc ws facet identity e s = Inr d \<longleftrightarrow> GetFacetDocument ws facet identity True s = Inr d \<and> d_revision d = e"
  by (auto simp: existing_fdoc_def res_iffs)

text \<open>Every change of an existing facet document either leaves the database alone or is one logged write.\<close>

lemma fdoc_outcome:
  assumes out: "(d_revision d = e \<and> t = s) \<or> (\<exists>v from. write_fdoc env c v e op from s = Inr (d, t))"
    and inv: "service_inv s"
  shows "service_inv t" "(t = s \<and> d_revision d = e) \<or> (d_revision d = e + 1 \<and> logs_one op d s t)"
proof -
  have "service_inv t \<and> ((t = s \<and> d_revision d = e) \<or> (d_revision d = e + 1 \<and> logs_one op d s t))"
    using out
  proof (elim disjE exE conjE)
    fix v src assume "write_fdoc env c v e op src s = Inr (d, t)"
    from write_fdoc_Inr(1-3) [OF this inv] show ?thesis by simp
  qed (use inv in simp)
  then show "service_inv t" "(t = s \<and> d_revision d = e) \<or> (d_revision d = e + 1 \<and> logs_one op d s t)" by simp_all
qed

lemma fdoc_Patch_cases:
  assumes "fdoc_Patch env c facet identity input e s = Inr (d, t)"
  shows "(d_revision d = e \<and> t = s) \<or> (\<exists>v from. write_fdoc env c v e ''update'' from s = Inr (d, t))"
  using assms unfolding fdoc_Patch_def Let_def
  by (auto simp: res_iffs existing_fdoc_Inr case_prod_beta split: if_splits)

lemma fdoc_Delete_cases:
  assumes "fdoc_Delete env c facet identity e s = Inr (d, t)"
  shows "(d_revision d = e \<and> t = s) \<or> (\<exists>v from. write_fdoc env c v e ''delete'' from s = Inr (d, t))"
  using assms unfolding fdoc_Delete_def by (auto simp: res_iffs existing_fdoc_Inr split: if_splits)

lemma fdoc_Restore_cases:
  assumes "fdoc_Restore env c facet identity e s = Inr (d, t)"
  shows "(d_revision d = e \<and> t = s) \<or> (\<exists>v from. write_fdoc env c v e ''restore'' from s = Inr (d, t))"
  using assms unfolding fdoc_Restore_def Let_def by (auto simp: res_iffs existing_fdoc_Inr split: if_splits)

lemma fdoc_RestoreRevision_cases:
  assumes "fdoc_RestoreRevision env c facet identity rid e s = Inr (d, t)"
  shows "\<exists>v from. write_fdoc env c v e ''restore'' from s = Inr (d, t)"
  using assms unfolding fdoc_RestoreRevision_def Let_def by (auto simp: res_iffs)

end
