(* ===== verification/Service.thy ===== *)
theory Service
  imports FacetCommands
begin

text \<open>
  All commands of the workspace data as one state machine: the document commands and the facet commands share the
  revision log and the sequence of the workspace. Whatever the requests are and in whatever order they are served,
  both invariants hold. The facet part of the state is a frame for the document commands.
\<close>

section \<open>What the document commands leave alone\<close>

definition doc_frame :: "db \<Rightarrow> db \<Rightarrow> bool" where
  "doc_frame s t \<longleftrightarrow> db_facets t = db_facets s \<and> db_fdocs t = db_fdocs s \<and> db_users t = db_users s
     \<and> (\<forall>i. (ws_of t i = None) = (ws_of s i = None))
     \<and> (\<forall>k. logged t (CollectionFacets, k) = logged s (CollectionFacets, k)
          \<and> logged t (CollectionFacetDocuments, k) = logged s (CollectionFacetDocuments, k))"

lemma doc_frame_refl [simp]: "doc_frame s s"
  by (simp add: doc_frame_def)

lemma doc_frame_trans: "doc_frame s t \<Longrightarrow> doc_frame t u \<Longrightarrow> doc_frame s u"
  by (simp add: doc_frame_def)

lemma doc_frame_tables:
  assumes "db_facets t = db_facets s" "db_fdocs t = db_fdocs s" "db_users t = db_users s"
    "\<And>i. (ws_of t i = None) = (ws_of s i = None)" "db_revisions t = db_revisions s"
  shows "doc_frame s t"
  using assms by (simp add: doc_frame_def logged_def revisions_of_def)

lemma doc_frame_docs [simp]: "doc_frame s (s\<lparr>db_docs := rows\<rparr>)"
  by (rule doc_frame_tables) (simp_all add: ws_of_def)

lemma doc_frame_fresh [simp]: "doc_frame s (snd (fresh env s))"
  by (rule doc_frame_tables) (simp_all add: ws_of_def)

lemma doc_frame_inv:
  assumes "doc_frame s t" "facet_inv {} {} s"
  shows "facet_inv {} {} t"
proof -
  have ver: "facet_rev t k = facet_rev s k" "fdoc_rev t k = fdoc_rev s k" for k
    using assms(1) by (simp_all add: doc_frame_def facet_rev_def fdoc_rev_def)
  have "facet_good t" using assms facet_ok_cong [of t s]
    by (simp add: doc_frame_def facet_inv_def facet_good_def docs_in_live_facets_def)
  then show ?thesis using assms ver by (simp add: facet_inv_def log_matches_def doc_frame_def)
qed

lemma append_frame:
  assumes "append_revision env c ws kind i ident n op from snap actor s = Inr (r, t)"
    "kind \<noteq> CollectionFacets" "kind \<noteq> CollectionFacetDocuments"
  shows "doc_frame s t"
proof -
  note a = append_revision_Inr [OF assms(1)]
  have "rv_type r = kind" using a(5) by (simp add: revision_matches_def)
  then have "logged t (CollectionFacets, k) = logged s (CollectionFacets, k)"
    "logged t (CollectionFacetDocuments, k) = logged s (CollectionFacetDocuments, k)" for k
    using logged_append [OF a(2)] assms(2,3) by auto
  then show ?thesis using a(1,8) by (simp add: doc_frame_def same_data_def)
qed

lemma record_frame:
  "RecordDocument env c d op from s = Inr (r, t) \<Longrightarrow> d_type d \<in> set DocumentCollections \<Longrightarrow> doc_frame s t"
  unfolding RecordDocument_append by (erule append_frame) (use not_facet_kind in auto)

lemma record_workspace_frame: "RecordWorkspace env c w op s = Inr t \<Longrightarrow> doc_frame s t"
  unfolding RecordWorkspace_append
  by (auto simp: res_iffs CollectionFacets_def CollectionFacetDocuments_def intro: append_frame)

lemma batch_frame: "BeginBatch env c ws op actor s = Inr (c1, t) \<Longrightarrow> doc_frame s t"
  using BeginBatch_Inr [of env c ws op actor s c1 t] by (intro doc_frame_tables) (auto simp: same_data_def ws_of_def)

lemma UpdateDocument_frame:
  assumes "UpdateDocument env now v e f s = Inr (d, t)" "d_type v \<in> set DocumentCollections"
  shows "doc_frame s t" "d_type d = d_type v"
proof -
  obtain r wfo data rel where a: "addressed v e r"
    and t: "t = s\<lparr>db_docs := updateWhere (addressed v e)
        (\<lambda>r. touched (ac_id (d_updatedBy v)) now (written env v f wfo data rel r)) (db_docs s)\<rparr>"
    and sc: "scanDocument t (touched (ac_id (d_updatedBy v)) now (written env v f wfo data rel r)) = Inr d"
    using UpdateDocument_Inr [OF assms] by metis
  show "doc_frame s t" unfolding t by simp
  show "d_type d = d_type v" using scanDocument_fields(3) [OF sc] a by (simp add: addressed_def)
qed

lemma InsertDocument_frame:
  assumes "InsertDocument env now v f s = Inr (d, t)" "d_type v \<in> set DocumentCollections"
  shows "doc_frame s t" "d_type d = d_type v"
proof -
  obtain wfo data rel where t: "t = s\<lparr>db_docs := db_docs s @ [written env v f wfo data rel (new_row v now)]\<rparr>"
    and sc: "scanDocument t (written env v f wfo data rel (new_row v now)) = Inr d"
    using InsertDocument_Inr [OF assms] by metis
  show "doc_frame s t" unfolding t by simp
  show "d_type d = d_type v" using scanDocument_fields(3) [OF sc] by (simp add: new_row_def)
qed

lemma update_record_frame:
  assumes "UpdateDocument env now v e f s = Inr (d, s1)" "d_type v \<in> set DocumentCollections"
    "RecordDocument env c d op from s1 = Inr (r, t)"
  shows "doc_frame s t"
  using UpdateDocument_frame [OF assms(1,2)] record_frame [OF assms(3)] assms(2) by (auto intro: doc_frame_trans)

lemma MoveFolderContents_frame:
  assumes "MoveFolderContents now ws fid pid actor s = Inr (ds, t)"
  shows "doc_frame s t"
proof -
  from assms obtain f :: doc_row and m where "foldE (move_table (dr_scope f) ws fid pid actor now) DocumentCollections ([], s) = Inr (m, t)"
    by (auto simp: MoveFolderContents_def res_iffs split: option.splits)
  then have "doc_frame s (snd (m, t))"
  proof (rule foldE_invariant [where P = "\<lambda>st. doc_frame s (snd st)"])
    fix kind and st st' :: "(string \<times> string) list \<times> db"
    assume "doc_frame s (snd st)" "move_table (dr_scope f) ws fid pid actor now kind st = Inr st'"
    moreover obtain m0 s0 m1 s1 where "st = (m0, s0)" "st' = (m1, s1)" by (cases st; cases st')
    ultimately show "doc_frame s (snd st')"
      using move_table_Inr(2) [of "dr_scope f" ws fid pid actor now kind m0 s0 m1 s1] doc_frame_trans [OF _ doc_frame_docs]
      by simp
  qed simp
  then show ?thesis by simp
qed

lemma record_each_frame:
  assumes "record_each env c ds s = Inr t" "\<forall>d \<in> set ds. d_type d \<in> set DocumentCollections"
  shows "doc_frame s t"
  using assms(1) unfolding record_each_def
proof (rule foldE_invariant [where P = "doc_frame s"])
  fix d s1 s2 assume "d \<in> set ds" "doc_frame s s1" "bindE (RecordDocument env c d ''update'' None s1) (\<lambda>(_, st'). Inr st') = Inr s2"
  then show "doc_frame s s2" using assms(2) record_frame [of env c d "''update''" None s1] by (auto simp: bindE_Inr_iff intro: doc_frame_trans)
qed simp

lemma move_folder_out_frame:
  assumes "move_folder_out env c ws folder pid actor s = Inr (c1, t)" "log_inv {} s"
  shows "doc_frame s t"
proof -
  from assms(1) obtain s1 ds s2 where b: "BeginBatch env c (Some ws) ''delete'' actor s = Inr (c1, s1)"
    and m: "MoveFolderContents (cx_now c) ws folder pid actor s1 = Inr (ds, s2)"
    and r: "record_each env c1 ds s2 = Inr t"
    by (auto simp: move_folder_out_def record_each_def res_iffs)
  have "\<forall>d \<in> set ds. d_type d \<in> set DocumentCollections"
    by (rule MoveFolderContents_Inr [OF m BeginBatch_log_inv [OF b assms(2)]]) blast
  from record_each_frame [OF r this] MoveFolderContents_frame [OF m] batch_frame [OF b]
  show ?thesis by (blast intro: doc_frame_trans)
qed

lemma clear_startup_frame:
  assumes "clear_startup env c ws composition actor s = Inr t"
  shows "doc_frame s t"
proof -
  from assms obtain v s1 where cl: "ClearStartupComposition ws composition actor s = Inr (v, s1)"
    and rest: "(case v of None \<Rightarrow> Inr s1 | Some w \<Rightarrow> RecordWorkspace env c w ''update'' s1) = Inr t"
    by (auto simp: clear_startup_def res_iffs)
  have "doc_frame s s1"
  proof (cases "s1 = s")
    case False
    then obtain f where s1: "s1 = update_ws ws f s" and f: "\<And>w. w_id (ws_value (f w)) = w_id (ws_value w)"
      using cl by (auto simp: ClearStartupComposition_def Let_def res_iffs split: option.splits if_splits)
    show ?thesis unfolding s1
      by (rule doc_frame_tables) (simp_all add: ws_of_update_ws [OF f], simp_all add: update_ws_def)
  qed simp
  moreover have "doc_frame s1 t" using rest record_workspace_frame by (auto split: option.splits)
  ultimately show ?thesis by (rule doc_frame_trans)
qed

lemma write_moves_frame:
  assumes "foldE (write_move env c) ps (res, s) = Inr (res', t)"
    "\<forall>p \<in> set ps. \<forall>nxt f. snd (snd p) = Some (nxt, f) \<longrightarrow> d_type nxt \<in> set DocumentCollections"
  shows "doc_frame s t"
proof -
  have "doc_frame s (snd (res', t))"
    using assms(1)
  proof (rule foldE_invariant [where P = "\<lambda>st. doc_frame s (snd st)"])
    fix p and st st' :: "move_result \<times> db"
    assume p: "p \<in> set ps" and fr: "doc_frame s (snd st)" and step: "write_move env c p st = Inr st'"
    obtain item existing change where pe: "p = (item, existing, change)" by (cases p)
    obtain r0 s0 where st: "st = (r0, s0)" by (cases st)
    show "doc_frame s (snd st')"
    proof (cases change)
      case None
      then show ?thesis using step fr pe st by auto
    next
      case (Some nf)
      obtain nxt f where nf: "nf = (nxt, f)" by (cases nf)
      from step Some nf pe st obtain updated s1 r s2 where
        up: "UpdateDocument env (cx_now c) nxt (d_revision nxt) f s0 = Inr (updated, s1)"
        and rec: "RecordDocument env c updated ''update'' None s1 = Inr (r, s2)" and st': "snd st' = s2"
        by (auto simp: write_move_def res_iffs)
      have "d_type nxt \<in> set DocumentCollections" using assms(2) p pe Some nf by simp
      from update_record_frame [OF up this rec] show ?thesis using fr st st' by (auto intro: doc_frame_trans)
    qed
  qed simp
  then show ?thesis by simp
qed

section \<open>The state machine\<close>

lemma doc_step_frame:
  assumes "doc_step env s t" "log_inv {} s"
  shows "doc_frame s t"
  using assms
proof cases
  case (create c collection payload d)
  from doc_Create_Inr [OF create] obtain v f created s2 r where
    ins: "InsertDocument env (cx_now c) v f (snd (fresh env s)) = Inr (created, s2)"
    and v: "d_type v \<in> set DocumentCollections" and rec: "RecordDocument env c created ''create'' None s2 = Inr (r, t)"
    by (metis documentFromInput_fields(3))
  have "doc_frame s s2" using InsertDocument_frame(1) [OF ins v] by (rule doc_frame_trans [OF doc_frame_fresh])
  moreover have "doc_frame s2 t" by (rule record_frame [OF rec]) (simp add: InsertDocument_frame(2) [OF ins v] v)
  ultimately show ?thesis by (rule doc_frame_trans)
next
  case (patch collection c identity payload e d)
  show ?thesis
  proof (rule doc_Patch_Inr [OF patch(2)], goal_cases)
    case (1 patch0 patch' cu u scope existing nxt)
    have "d_type nxt \<in> set DocumentCollections" using GetDocument_fields(1) [OF 1(6) patch(1)] patch(1) 1(10) by simp
    then show ?case using 1(12) update_record_frame by auto
  qed
next
  case (delete collection c identity e d)
  show ?thesis
  proof (rule doc_Delete_Inr [OF delete(2)], goal_cases)
    case (1 cu u scope existing nxt)
    have ty: "d_type nxt \<in> set DocumentCollections" using GetDocument_fields(1) [OF 1(3) delete(1)] delete(1) 1(5) by simp
    from 1(6) show ?case
    proof (elim disjE conjE exE)
      fix folderID c1 s1 s2 s3 r
      assume mv: "if collection = CollectionFolders
           then move_folder_out env c (w_id (wa_workspace scope)) (d_id existing) folderID (u_id u) s = Inr (c1, s1)
           else c1 = c \<and> s1 = s"
        and up: "UpdateDocument env (cx_now c) nxt e (documentFolderID collection folderID) s1 = Inr (d, s2)"
        and cl: "if collection = CollectionCompositions
           then clear_startup env c1 (w_id (wa_workspace scope)) (d_id existing) (u_id u) s2 = Inr s3 else s3 = s2"
        and rec: "RecordDocument env c1 d ''delete'' None s3 = Inr (r, t)"
      have "doc_frame s s1" using mv move_folder_out_frame [OF _ assms(2)] by (auto split: if_splits)
      moreover note UpdateDocument_frame(1) [OF up ty]
      moreover have "doc_frame s2 s3" using cl clear_startup_frame by (auto split: if_splits)
      moreover have "doc_frame s3 t" by (rule record_frame [OF rec]) (simp add: UpdateDocument_frame(2) [OF up ty] ty)
      ultimately show ?thesis by (blast intro: doc_frame_trans)
    qed simp
  qed
next
  case (restore collection c identity e d)
  show ?thesis
  proof (rule doc_Restore_Inr [OF restore(2)], goal_cases)
    case (1 cu u scope existing)
    have ty: "d_type existing \<in> set DocumentCollections" using GetDocument_fields(1) [OF 1(3) restore(1)] restore(1) by simp
    from 1(5) show ?case
    proof (elim disjE conjE exE)
      fix folderID nxt s1 r
      assume rf: "resolveRestoreFolders env scope (restored env collection existing (u_id u)) s = Inr (folderID, nxt)"
        and up: "UpdateDocument env (cx_now c) nxt e (documentFolderID collection folderID) s = Inr (d, s1)"
        and rec: "RecordDocument env c d ''restore'' None s1 = Inr (r, t)"
      have "d_type nxt \<in> set DocumentCollections" using resolveRestoreFolders_fields [OF rf] ty by simp
      from update_record_frame [OF up this rec] show ?thesis .
    qed simp
  qed
next
  case (move c input r)
  show ?thesis
  proof (rule MoveDocuments_parts [OF move], goal_cases)
    case (1 cu u scope ps)
    show ?case
    proof (cases "list_all unchanged ps")
      case False
      with 1(4) obtain c1 s1 where b: "BeginBatch env c (Some (w_id (wa_workspace scope))) ''move'' (u_id u) s = Inr (c1, s1)"
        and wr: "foldE (write_move env c1) ps (\<lparr>mr_documents = [], mr_moved = 0\<rparr>, s1) = Inr (r, t)" by auto
      from write_moves_frame [OF wr 1(3)] show ?thesis by (rule doc_frame_trans [OF batch_frame [OF b]])
    qed (use 1(4) in simp)
  qed
qed

inductive service_step :: "env \<Rightarrow> db \<Rightarrow> db \<Rightarrow> bool" for env where
  document: "doc_step env s t \<Longrightarrow> service_step env s t"
| facet_create: "facet_Create env c input s = Inr (d, t) \<Longrightarrow> service_step env s t"
| facet_patch: "facet_Patch env c identity p e s = Inr (d, t) \<Longrightarrow> service_step env s t"
| facet_delete: "facet_Delete env c identity e s = Inr (d, t) \<Longrightarrow> service_step env s t"
| facet_restore: "facet_Restore env c identity e s = Inr (d, t) \<Longrightarrow> service_step env s t"
| facet_reorder: "facet_Reorder env c order s = Inr (ds, t) \<Longrightarrow> service_step env s t"
| facet_restore_revision: "facet_RestoreRevision env c identity rid e s = Inr (d, t) \<Longrightarrow> service_step env s t"
| fdoc_create: "fdoc_Create env c facet input' s = Inr (d, t) \<Longrightarrow> service_step env s t"
| fdoc_patch: "fdoc_Patch env c facet identity p' e s = Inr (d, t) \<Longrightarrow> service_step env s t"
| fdoc_delete: "fdoc_Delete env c facet identity e s = Inr (d, t) \<Longrightarrow> service_step env s t"
| fdoc_restore: "fdoc_Restore env c facet identity e s = Inr (d, t) \<Longrightarrow> service_step env s t"
| fdoc_restore_revision: "fdoc_RestoreRevision env c facet identity rid e s = Inr (d, t) \<Longrightarrow> service_step env s t"

inductive served :: "env \<Rightarrow> db \<Rightarrow> db \<Rightarrow> bool" for env s0 where
  start: "served env s0 s0"
| step: "served env s0 s \<Longrightarrow> service_step env s t \<Longrightarrow> served env s0 t"

inductive_cases served_elim: "served env s0 s"

lemmas fdoc_changes = fdoc_outcome(1) [OF fdoc_Patch_cases] fdoc_outcome(1) [OF fdoc_Delete_cases]
  fdoc_outcome(1) [OF fdoc_Restore_cases] fdoc_outcome(1) [OF disjI2, OF fdoc_RestoreRevision_cases]

lemmas facet_changes = facet_Create_Inr(1) facet_Patch_Inr(1) facet_Delete_Inr(1) facet_Restore_Inr(1)
  facet_Reorder_Inr(1) facet_RestoreRevision_Inr(1) fdoc_Create_Inr(1)

lemma service_step_inv: "service_step env s t \<Longrightarrow> service_inv s \<Longrightarrow> service_inv t"
proof (induction rule: service_step.induct)
  case (document s t)
  then show ?case using doc_step_inv doc_frame_inv [OF doc_step_frame] by (auto simp: service_inv_def)
qed (blast intro: facet_changes fdoc_changes)+

lemma served_inv: "served env s0 s \<Longrightarrow> service_inv s0 \<Longrightarrow> service_inv s"
  by (induction rule: served.induct) (auto dest: service_step_inv)

text \<open>What the invariant says.\<close>

lemma service_inv_facet:
  assumes "service_inv s" "f \<in> set (db_facets s)"
  shows "map rv_number (revisions_of s (fr_ws f) CollectionFacets (fr_id f)) = [1..fr_revision f]"
proof -
  have "facets_ok s (db_facets s)" and m: "log_matches CollectionFacets facet_rev {} s"
    using assms(1) by (simp_all add: service_inv_def facet_inv_def facet_good_def)
  from facet_rev_row [OF this(1) assms(2)] log_matchesD [OF m, of "(fr_ws f, fr_id f)"] show ?thesis
    by (simp add: logged_def)
qed

lemma service_inv_fdoc:
  assumes "service_inv s" "d \<in> set (db_fdocs s)"
  shows "map rv_number (revisions_of s (fd_ws d) CollectionFacetDocuments (fd_id d)) = [1..fd_revision d]"
proof -
  have "fdocs_ok s (db_fdocs s)" and m: "log_matches CollectionFacetDocuments fdoc_rev {} s"
    using assms(1) by (simp_all add: service_inv_def facet_inv_def facet_good_def)
  from fdoc_rev_row [OF this(1) assms(2)] log_matchesD [OF m, of "(fd_ws d, fd_id d)"] show ?thesis
    by (simp add: logged_def)
qed

end
