(* ===== verification/AccessTokens.thy ===== *)
theory AccessTokens
  imports AccessContext
begin

text \<open>
  Personal access tokens: \<open>internal/usecase/access_tokens\<close> (usecase.go, secret.go) over the
  table of \<open>internal/repo/postgres/access_tokens_repository.go\<close>. The clock, the SHA-256
  function, the random bytes and \<open>uuid.Parse\<close> are arguments; durations are nanoseconds.
\<close>

section \<open>Secrets\<close>

definition displayPrefixChars :: nat where "displayPrefixChars = 8"
definition encodedSecretChars :: nat where "encodedSecretChars = 43"
definition secretBytes :: nat where "secretBytes = 32"

definition b64_alphabet :: string where
  "b64_alphabet = ''ABCDEFGHIJKLMNOPQRSTUVWXYZabcdefghijklmnopqrstuvwxyz0123456789-_''"

definition b64_char :: "nat \<Rightarrow> char" where
  "b64_char n = b64_alphabet ! n"

text \<open>\<open>base64.RawURLEncoding.EncodeToString\<close>: six bits a character, no padding.\<close>

fun b64_encode :: "nat list \<Rightarrow> string" where
  "b64_encode [] = []"
| "b64_encode [a] = [b64_char (a div 4), b64_char (a mod 4 * 16)]"
| "b64_encode [a, b] = [b64_char (a div 4), b64_char (a mod 4 * 16 + b div 16), b64_char (b mod 16 * 4)]"
| "b64_encode (a # b # c # r) =
     b64_char (a div 4) # b64_char (a mod 4 * 16 + b div 16)
     # b64_char (b mod 16 * 4 + c div 64) # b64_char (c mod 64) # b64_encode r"

text \<open>\<open>DecodeString\<close> accepts a text when, newlines apart, it is over the alphabet and does not end
  in a lone character.\<close>

definition b64_decodable :: "string \<Rightarrow> bool" where
  "b64_decodable s =
     (let t = remove_chars [CHR 0x0D, CHR 0x0A] s in
      list_all (\<lambda>c. c \<in> set b64_alphabet) t \<and> length t mod 4 \<noteq> 1)"

definition IsAccessTokenSecret :: "string \<Rightarrow> bool" where
  "IsAccessTokenSecret v = has_prefix AccessTokenSecretPrefix v"

definition validSecretFormat :: "string \<Rightarrow> bool" where
  "validSecretFormat v =
     (if \<not> IsAccessTokenSecret v then False
      else let body = trim_prefix AccessTokenSecretPrefix v in
        if length body \<noteq> encodedSecretChars then False else b64_decodable body)"

text \<open>\<open>generateSecret\<close> on the random bytes it reads: secret, display prefix, hash.\<close>

definition generateSecret :: "(string \<Rightarrow> string) \<Rightarrow> nat list \<Rightarrow> string \<times> string \<times> string" where
  "generateSecret sha random =
     (let body = b64_encode random; secret = AccessTokenSecretPrefix @ body in
      (secret, AccessTokenSecretPrefix @ take displayPrefixChars body, sha secret))"

section \<open>The table\<close>

record tok_row =
  tk_id :: id
  tk_user :: id
  tk_workspace :: id
  tk_name :: string
  tk_description :: string
  tk_scope :: string
  tk_canCommit :: bool
  tk_canDelete :: bool
  tk_prefix :: string
  tk_hash :: string
  tk_createdAt :: time
  tk_expiresAt :: time
  tk_lastUsedAt :: "time option"
  tk_revokedAt :: "time option"
  tk_revokedBy :: "id option"

text \<open>The token table with the two tables its queries join: users, and the identity of each
  workspace.\<close>

record tok_db =
  tdb_rows :: "tok_row list"
  tdb_users :: "user list"
  tdb_workspaces :: "(id \<times> string) list"

definition find_user :: "tok_db \<Rightarrow> id \<Rightarrow> user option" where
  "find_user db i = find (\<lambda>u. u_id u = i) (tdb_users db)"

text \<open>\<open>scanAccessToken\<close> over the joined row: the inner joins drop a row whose owner or workspace
  is gone.\<close>

definition scanAccessToken :: "tok_db \<Rightarrow> tok_row \<Rightarrow> access_token res" where
  "scanAccessToken db r =
     (case (find_user db (tk_user r), map_of (tdb_workspaces db) (tk_workspace r)) of
        (Some u, Some wi) \<Rightarrow> Inr
          \<lparr>at_id = tk_id r,
           at_owner = \<lparr>ac_id = u_id u, ac_username = u_username u, ac_displayName = u_displayName u\<rparr>,
           at_workspaceID = tk_workspace r, at_workspaceIdentity = wi, at_name = tk_name r,
           at_description = tk_description r, at_scope = tk_scope r, at_canCommit = tk_canCommit r,
           at_canDelete = tk_canDelete r, at_tokenPrefix = tk_prefix r, at_createdAt = tk_createdAt r,
           at_expiresAt = tk_expiresAt r, at_lastUsedAt = tk_lastUsedAt r, at_revokedAt = tk_revokedAt r,
           at_revokedBy = tk_revokedBy r\<rparr>
      | _ \<Rightarrow> Inl RowNotFound)"

record create_token_input =
  cti_user :: id
  cti_workspace :: id
  cti_name :: string
  cti_description :: string
  cti_scope :: string
  cti_canCommit :: bool
  cti_canDelete :: bool
  cti_prefix :: string
  cti_hash :: string
  cti_expiresAt :: time

definition row_of_input :: "id \<Rightarrow> time \<Rightarrow> create_token_input \<Rightarrow> tok_row" where
  "row_of_input i now x =
     \<lparr>tk_id = i, tk_user = cti_user x, tk_workspace = cti_workspace x, tk_name = cti_name x,
      tk_description = cti_description x, tk_scope = cti_scope x, tk_canCommit = cti_canCommit x,
      tk_canDelete = cti_canDelete x, tk_prefix = cti_prefix x, tk_hash = cti_hash x,
      tk_createdAt = now, tk_expiresAt = cti_expiresAt x, tk_lastUsedAt = None,
      tk_revokedAt = None, tk_revokedBy = None\<rparr>"

definition GetAccessToken :: "(string \<Rightarrow> bool) \<Rightarrow> id \<Rightarrow> tok_db \<Rightarrow> access_token res" where
  "GetAccessToken is_uuid i db =
     (if \<not> is_uuid i then Inl RowNotFound
      else case find (\<lambda>r. tk_id r = i) (tdb_rows db) of
        None \<Rightarrow> Inl RowNotFound | Some r \<Rightarrow> scanAccessToken db r)"

text \<open>The insert with the table's constraints: the primary key, the unique secret hash, an expiry
  after the creation, no flag without the write scope.\<close>

definition CreateAccessToken ::
    "(string \<Rightarrow> bool) \<Rightarrow> id \<Rightarrow> time \<Rightarrow> create_token_input \<Rightarrow> tok_db \<Rightarrow> (access_token \<times> tok_db) res" where
  "CreateAccessToken is_uuid i now x db =
     failIf (\<exists>r \<in> set (tdb_rows db). tk_hash r = cti_hash x \<or> tk_id r = i)
       (Plain ''duplicate key value violates unique constraint'') (
     failIf (cti_expiresAt x \<le> now \<or> (cti_scope x \<noteq> ''write'' \<and> (cti_canCommit x \<or> cti_canDelete x)))
       (Plain ''new row violates check constraint'') (
     let db' = db\<lparr>tdb_rows := tdb_rows db @ [row_of_input i now x]\<rparr> in
     bindE (GetAccessToken is_uuid i db') (\<lambda>t. Inr (t, db'))))"

definition ListAccessTokens :: "id option \<Rightarrow> tok_db \<Rightarrow> access_token list" where
  "ListAccessTokens user db =
     concat (map (\<lambda>r. case scanAccessToken db r of Inr t \<Rightarrow> [t] | Inl _ \<Rightarrow> [])
       (sort_key (\<lambda>r. - tk_createdAt r)
         (filter (\<lambda>r. case user of None \<Rightarrow> True | Some u \<Rightarrow> tk_user r = u) (tdb_rows db))))"

record credential =
  cr_token :: access_token
  cr_hash :: string
  cr_owner :: user

definition FindAccessTokenCredential :: "string \<Rightarrow> tok_db \<Rightarrow> credential res" where
  "FindAccessTokenCredential h db =
     (case find (\<lambda>r. tk_hash r = h) (tdb_rows db) of
        None \<Rightarrow> Inl RowNotFound
      | Some r \<Rightarrow> bindE (scanAccessToken db r) (\<lambda>t.
          case find_user db (tk_user r) of
            None \<Rightarrow> Inl RowNotFound
          | Some u \<Rightarrow> Inr \<lparr>cr_token = t, cr_hash = tk_hash r, cr_owner = u\<rparr>))"

text \<open>\<open>COALESCE\<close> keeps the first revocation.\<close>

definition RevokeAccessToken :: "id \<Rightarrow> id \<Rightarrow> time \<Rightarrow> tok_db \<Rightarrow> tok_db res" where
  "RevokeAccessToken i actor now db =
     failIf (\<not> (\<exists>r \<in> set (tdb_rows db). tk_id r = i)) RowNotFound (
     Inr (db\<lparr>tdb_rows := updateWhere (\<lambda>r. tk_id r = i)
       (\<lambda>r. r\<lparr>tk_revokedAt := Some (orElse (tk_revokedAt r) now),
              tk_revokedBy := Some (orElse (tk_revokedBy r) actor)\<rparr>) (tdb_rows db)\<rparr>))"

definition TouchAccessToken :: "id \<Rightarrow> time \<Rightarrow> time \<Rightarrow> tok_db \<Rightarrow> tok_db" where
  "TouchAccessToken i interval now db =
     db\<lparr>tdb_rows := updateWhere
       (\<lambda>r. tk_id r = i \<and> (case tk_lastUsedAt r of None \<Rightarrow> True | Some l \<Rightarrow> l < now - interval))
       (\<lambda>r. r\<lparr>tk_lastUsedAt := Some now\<rparr>) (tdb_rows db)\<rparr>"

section \<open>The use case\<close>

definition second_ns :: time where "second_ns = 1000000000"
definition LastUsedInterval :: time where "LastUsedInterval = 60 * second_ns"
definition minimumLifetime :: time where "minimumLifetime = 60 * second_ns"
definition maxNameRunes :: nat where "maxNameRunes = 120"
definition maxDescription :: nat where "maxDescription = 1000"

text \<open>\<open>utf8.RuneCountInString\<close> on UTF-8 text: every byte that is not a continuation byte.\<close>

definition rune_count :: "string \<Rightarrow> nat" where
  "rune_count s = length (filter (\<lambda>c. \<not> (CHR 0x80 \<le> c \<and> c \<le> CHR 0xBF)) s)"

record token_input =
  ti_workspace :: string
  ti_name :: string
  ti_description :: string
  ti_scope :: string
  ti_canCommit :: bool
  ti_canDelete :: bool
  ti_expiresAt :: "time option"  \<comment> \<open>\<open>None\<close> is the zero \<open>time.Time\<close>\<close>

definition sessionActor :: "ctx \<Rightarrow> (current_actor \<times> user) res" where
  "sessionActor c =
     failIf (cx_token c \<noteq> None) (Forbidden ''access_token_management_forbidden'') (ctx_Actor c)"

text \<open>The result is the normalized input and its expiry, which is set from then on.\<close>

definition validateCreate :: "time \<Rightarrow> time \<Rightarrow> token_input \<Rightarrow> (token_input \<times> time) res" where
  "validateCreate maxTTL now input =
     (let name = trim_space (ti_name input);
          description = trim_space (ti_description input);
          scope0 = trim_space (ti_scope input);
          scope = (if scope0 = [] then AccessTokenScopeRead else scope0);
          x = input\<lparr>ti_name := name, ti_description := description, ti_scope := scope\<rparr> in
      failIf (trim_space (ti_workspace x) = []) (InvalidInput ''workspace_required'') (
      failIf (name = [] \<or> rune_count name > maxNameRunes) (InvalidInput ''access_token_name_invalid'') (
      failIf (rune_count description > maxDescription) (InvalidInput ''access_token_description_invalid'') (
      failIf (scope \<noteq> AccessTokenScopeRead \<and> scope \<noteq> AccessTokenScopeWrite)
        (InvalidInput ''access_token_scope_invalid'') (
      failIf ((ti_canCommit x \<or> ti_canDelete x) \<and> scope \<noteq> AccessTokenScopeWrite)
        (InvalidInput ''access_token_flags_require_write'') (
      case ti_expiresAt x of
        None \<Rightarrow> Inl (InvalidInput ''access_token_expiry_required'')
      | Some e \<Rightarrow>
          failIf (e < now + minimumLifetime) (InvalidInput ''access_token_expiry_invalid'') (
          failIf (e > now + maxTTL)
            (WithDetails (InvalidInput ''access_token_expiry_too_long'')
              [(''maxTtlSeconds'', JInt (maxTTL div second_ns))]) (
          Inr (x, e)))))))))"

record tok_env =
  te_maxTTL :: time
  te_now :: time
  te_sha :: "string \<Rightarrow> string"
  te_is_uuid :: "string \<Rightarrow> bool"
  te_getw :: "string \<Rightarrow> workspace res"
  te_role :: "id \<Rightarrow> id \<Rightarrow> bool \<Rightarrow> string res"

text \<open>\<open>UseCase.Create\<close>, with the identifier and the random bytes it draws.\<close>

definition token_Create ::
    "tok_env \<Rightarrow> ctx \<Rightarrow> token_input \<Rightarrow> id \<Rightarrow> nat list \<Rightarrow> tok_db \<Rightarrow> ((access_token \<times> string) \<times> tok_db) res" where
  "token_Create env c input newid random db =
     bindE (sessionActor c) (\<lambda>(current, u).
     bindE (validateCreate (te_maxTTL env) (te_now env) input) (\<lambda>(x, expiry).
     bindE (notFoundAs (NotFound ''workspace_not_found'') (te_getw env (trim_space (ti_workspace x)))) (\<lambda>w.
     bindE (te_role env (w_id w) (u_id u) (ca_platformAdmin current)) (\<lambda>role.
     failIf (role = []) (Forbidden ''workspace_forbidden'') (
     failIf (ti_scope x = AccessTokenScopeWrite \<and> \<not> CanWrite role)
       (Forbidden ''access_token_scope_exceeds_role'') (
     failIf (ti_canCommit x \<and> \<not> CanAdmin role) (Forbidden ''access_token_owner_admin_required'') (
     let (secret, prefix, h) = generateSecret (te_sha env) random in
     bindE (CreateAccessToken (te_is_uuid env) newid (te_now env)
         \<lparr>cti_user = u_id u, cti_workspace = w_id w, cti_name = ti_name x,
          cti_description = ti_description x, cti_scope = ti_scope x, cti_canCommit = ti_canCommit x,
          cti_canDelete = ti_canDelete x, cti_prefix = prefix, cti_hash = h, cti_expiresAt = expiry\<rparr> db)
       (\<lambda>(t, db'). Inr ((t, secret), db')))))))))"

definition token_List :: "ctx \<Rightarrow> bool \<Rightarrow> tok_db \<Rightarrow> access_token list res" where
  "token_List c all db =
     bindE (sessionActor c) (\<lambda>(current, u).
     if all then
       failIf (\<not> ca_platformAdmin current) (Forbidden ''platform_admin_required'')
         (Inr (ListAccessTokens None db))
     else Inr (ListAccessTokens (Some (u_id u)) db))"

definition token_Revoke :: "tok_env \<Rightarrow> ctx \<Rightarrow> id \<Rightarrow> tok_db \<Rightarrow> tok_db res" where
  "token_Revoke env c i db =
     bindE (sessionActor c) (\<lambda>(current, u).
     bindE (notFoundAs (NotFound ''access_token_not_found'') (GetAccessToken (te_is_uuid env) (trim_space i) db)) (\<lambda>t.
     failIf (ac_id (at_owner t) \<noteq> u_id u \<and> \<not> ca_platformAdmin current)
       (NotFound ''access_token_not_found'') (
     RevokeAccessToken (at_id t) (u_id u) (te_now env) db)))"

definition invalidToken :: goerr where
  "invalidToken = Unauthorized ''access_token_invalid''"

definition principal_of :: "access_token \<Rightarrow> user \<Rightarrow> principal" where
  "principal_of t owner =
     \<lparr>p_tokenID = at_id t, p_userID = u_id owner, p_workspaceID = at_workspaceID t,
      p_workspaceIdentity = at_workspaceIdentity t, p_scope = at_scope t, p_canCommit = at_canCommit t,
      p_canDelete = at_canDelete t, p_expiresAt = at_expiresAt t, p_ownerPlatformAdmin = False\<rparr>"

definition Authenticate :: "tok_env \<Rightarrow> string \<Rightarrow> tok_db \<Rightarrow> ((principal \<times> user) \<times> tok_db) res" where
  "Authenticate env secret db =
     failIf (\<not> validSecretFormat secret) invalidToken (
     let h = te_sha env secret in
     bindE (notFoundAs invalidToken (FindAccessTokenCredential h db)) (\<lambda>cr.
     failIf (cr_hash cr \<noteq> h) invalidToken (
     let now = te_now env; t = cr_token cr; status = token_Status t now in
     if status = AccessTokenStatusRevoked then Inl (Unauthorized ''access_token_revoked'')
     else if status = AccessTokenStatusExpired then Inl (Unauthorized ''access_token_expired'')
     else
       let db' = (case at_lastUsedAt t of
                    None \<Rightarrow> TouchAccessToken (at_id t) LastUsedInterval now db
                  | Some l \<Rightarrow> if now - l \<ge> LastUsedInterval
                      then TouchAccessToken (at_id t) LastUsedInterval now db else db)
       in Inr ((principal_of t (cr_owner cr), cr_owner cr), db'))))"

section \<open>Secrets are well formed\<close>

lemma length_b64_alphabet: "length b64_alphabet = 64"
  by (simp add: b64_alphabet_def)

lemma b64_char_alphabet: "n < 64 \<Longrightarrow> b64_char n \<in> set b64_alphabet"
  by (simp add: b64_char_def length_b64_alphabet)

lemma b64_encode_alphabet: "\<forall>b \<in> set bs. b < 256 \<Longrightarrow> set (b64_encode bs) \<subseteq> set b64_alphabet"
proof (induction bs rule: b64_encode.induct)
  case (4 a b c r)
  then have "a < 256" "b < 256" "c < 256" by simp_all
  then show ?case using 4 by (auto intro!: b64_char_alphabet)
qed (auto intro!: b64_char_alphabet)

lemma length_b64_encode: "length (b64_encode bs) = (length bs * 4 + 2) div 3"
  by (induction bs rule: b64_encode.induct) auto

lemma remove_chars_id: "set s \<inter> set cs = {} \<Longrightarrow> remove_chars cs s = s"
  unfolding remove_chars_def by (rule filter_True) auto

lemma b64_alphabet_no_newline: "set b64_alphabet \<inter> set [CHR 0x0D, CHR 0x0A] = {}"
  by (simp add: b64_alphabet_def)

lemma b64_encode_decodable:
  assumes "\<forall>b \<in> set bs. b < 256" "(length bs * 4 + 2) div 3 mod 4 \<noteq> 1"
  shows "b64_decodable (b64_encode bs)"
proof -
  have sub: "set (b64_encode bs) \<subseteq> set b64_alphabet" by (rule b64_encode_alphabet [OF assms(1)])
  then have "remove_chars [CHR 0x0D, CHR 0x0A] (b64_encode bs) = b64_encode bs"
    using b64_alphabet_no_newline by (intro remove_chars_id) auto
  then show ?thesis using sub assms(2)
    by (auto simp: b64_decodable_def Let_def list_all_iff length_b64_encode)
qed

lemma generateSecret_valid:
  assumes "length random = secretBytes" "\<forall>b \<in> set random. b < 256"
  shows "validSecretFormat (fst (generateSecret sha random))"
  using assms b64_encode_decodable [of random]
  by (simp add: validSecretFormat_def generateSecret_def IsAccessTokenSecret_def Let_def
      trim_prefix_def length_b64_encode secretBytes_def encodedSecretChars_def)

lemma generateSecret_parts:
  "generateSecret sha random = (secret, prefix, h) \<Longrightarrow>
     h = sha secret \<and> has_prefix prefix secret \<and> IsAccessTokenSecret secret"
  by (auto simp: generateSecret_def Let_def IsAccessTokenSecret_def has_prefix_iff)
     (metis append_take_drop_id)

section \<open>The table invariant\<close>

definition tok_inv :: "tok_db \<Rightarrow> bool" where
  "tok_inv db \<longleftrightarrow>
     distinct (map tk_id (tdb_rows db)) \<and> distinct (map tk_hash (tdb_rows db))
     \<and> (\<forall>r \<in> set (tdb_rows db).
          (tk_canCommit r \<or> tk_canDelete r \<longrightarrow> tk_scope r = ''write'')
        \<and> tk_createdAt r < tk_expiresAt r
        \<and> (tk_revokedAt r = None \<longleftrightarrow> tk_revokedBy r = None))"

lemma CreateAccessToken_Inr:
  assumes "CreateAccessToken is_uuid i now x db = Inr (t, db')"
  shows "tdb_rows db' = tdb_rows db @ [row_of_input i now x]
    \<and> tdb_users db' = tdb_users db \<and> tdb_workspaces db' = tdb_workspaces db
    \<and> is_uuid i \<and> scanAccessToken db' (row_of_input i now x) = Inr t
    \<and> (\<forall>r \<in> set (tdb_rows db). tk_hash r \<noteq> cti_hash x \<and> tk_id r \<noteq> i)
    \<and> now < cti_expiresAt x \<and> (cti_canCommit x \<or> cti_canDelete x \<longrightarrow> cti_scope x = ''write'')"
proof -
  have fresh: "\<forall>r \<in> set (tdb_rows db). tk_hash r \<noteq> cti_hash x \<and> tk_id r \<noteq> i"
    using assms by (auto simp: CreateAccessToken_def res_iffs Let_def)
  have id: "tk_id (row_of_input i now x) = i" by (simp add: row_of_input_def)
  have "find (\<lambda>r. tk_id r = i) (tdb_rows db @ [row_of_input i now x]) = Some (row_of_input i now x)"
    using fresh id by (intro find_snoc) auto
  then show ?thesis using assms fresh
    by (auto simp: CreateAccessToken_def GetAccessToken_def res_iffs Let_def split: if_splits)
qed

lemma CreateAccessToken_inv:
  "tok_inv db \<Longrightarrow> CreateAccessToken is_uuid i now x db = Inr (t, db') \<Longrightarrow> tok_inv db'"
  by (drule CreateAccessToken_Inr) (fastforce simp: tok_inv_def row_of_input_def)

lemma RevokeAccessToken_inv:
  "tok_inv db \<Longrightarrow> RevokeAccessToken i actor now db = Inr db' \<Longrightarrow> tok_inv db'"
  by (auto simp: tok_inv_def RevokeAccessToken_def res_iffs map_updateWhere set_updateWhere)

lemma TouchAccessToken_inv: "tok_inv db \<Longrightarrow> tok_inv (TouchAccessToken i d now db)"
  by (auto simp: tok_inv_def TouchAccessToken_def map_updateWhere set_updateWhere)

lemma token_Create_Inr:
  assumes "token_Create env c input i rnd db = Inr ((t, secret), db')"
  shows "\<exists>current u x expiry w role prefix.
      cx_token c = None \<and> ctx_Actor c = Inr (current, u)
    \<and> validateCreate (te_maxTTL env) (te_now env) input = Inr (x, expiry)
    \<and> te_getw env (trim_space (ti_workspace x)) = Inr w
    \<and> te_role env (w_id w) (u_id u) (ca_platformAdmin current) = Inr role \<and> role \<noteq> []
    \<and> (ti_scope x = AccessTokenScopeWrite \<longrightarrow> CanWrite role) \<and> (ti_canCommit x \<longrightarrow> CanAdmin role)
    \<and> generateSecret (te_sha env) rnd = (secret, prefix, te_sha env secret)
    \<and> CreateAccessToken (te_is_uuid env) i (te_now env)
         \<lparr>cti_user = u_id u, cti_workspace = w_id w, cti_name = ti_name x,
          cti_description = ti_description x, cti_scope = ti_scope x, cti_canCommit = ti_canCommit x,
          cti_canDelete = ti_canDelete x, cti_prefix = prefix, cti_hash = te_sha env secret,
          cti_expiresAt = expiry\<rparr> db = Inr (t, db')"
proof -
  obtain sec pre h where g: "generateSecret (te_sha env) rnd = (sec, pre, h)"
    by (cases "generateSecret (te_sha env) rnd") auto
  then have "h = te_sha env sec" using generateSecret_parts by blast
  with g assms show ?thesis
    by (simp add: token_Create_def sessionActor_def res_iffs Let_def split: if_splits)
       blast
qed

lemma token_Create_inv:
  "tok_inv db \<Longrightarrow> token_Create env c input i rnd db = Inr (r, db') \<Longrightarrow> tok_inv db'"
  by (cases r) (auto dest!: token_Create_Inr dest: CreateAccessToken_inv)

lemma token_Revoke_inv: "tok_inv db \<Longrightarrow> token_Revoke env c i db = Inr db' \<Longrightarrow> tok_inv db'"
  by (auto simp: token_Revoke_def res_iffs split: prod.splits dest: RevokeAccessToken_inv)

lemma Authenticate_inv: "tok_inv db \<Longrightarrow> Authenticate env s db = Inr (r, db') \<Longrightarrow> tok_inv db'"
  by (auto simp: Authenticate_def res_iffs Let_def TouchAccessToken_inv split: if_splits option.splits)

text \<open>The operations as one interface: every step keeps the table invariant.\<close>

datatype tok_op =
    OpCreate ctx token_input id "nat list"
  | OpRevoke ctx id
  | OpAuthenticate string

fun tok_step :: "tok_env \<Rightarrow> tok_op \<Rightarrow> tok_db \<Rightarrow> tok_db" where
  "tok_step env (OpCreate c x i rnd) db = (case token_Create env c x i rnd db of Inr (r, d) \<Rightarrow> d | Inl e \<Rightarrow> db)"
| "tok_step env (OpRevoke c i) db = (case token_Revoke env c i db of Inr d \<Rightarrow> d | Inl e \<Rightarrow> db)"
| "tok_step env (OpAuthenticate s) db = (case Authenticate env s db of Inr (r, d) \<Rightarrow> d | Inl e \<Rightarrow> db)"

lemma tok_step_inv: "tok_inv db \<Longrightarrow> tok_inv (tok_step env op db)"
  by (cases op) (auto split: sum.splits dest: token_Create_inv token_Revoke_inv Authenticate_inv)

lemma tok_run_inv: "tok_inv db \<Longrightarrow> tok_inv (fold (\<lambda>(env, op). tok_step env op) ops db)"
  by (induction ops arbitrary: db) (auto simp: tok_step_inv)

section \<open>Authentication\<close>

lemma scan_fields:
  "scanAccessToken db r = Inr t \<Longrightarrow>
     (\<exists>u wi. find_user db (tk_user r) = Some u \<and> u_id u = tk_user r \<and> ac_id (at_owner t) = tk_user r
        \<and> map_of (tdb_workspaces db) (tk_workspace r) = Some wi \<and> at_workspaceIdentity t = wi)
     \<and> at_id t = tk_id r \<and> at_workspaceID t = tk_workspace r \<and> at_scope t = tk_scope r
     \<and> at_canCommit t = tk_canCommit r \<and> at_canDelete t = tk_canDelete r
     \<and> at_expiresAt t = tk_expiresAt r \<and> at_revokedAt t = tk_revokedAt r
     \<and> at_lastUsedAt t = tk_lastUsedAt r"
  by (auto simp: scanAccessToken_def find_user_def split: option.splits dest: find_SomeD)

text \<open>An accepted secret names one row, which is neither revoked nor expired.\<close>

lemma Authenticate_Inr:
  assumes "Authenticate env secret db = Inr ((p, u), db')"
  shows "\<exists>r \<in> set (tdb_rows db). tk_hash r = te_sha env secret \<and> tk_revokedAt r = None
     \<and> te_now env < tk_expiresAt r \<and> p_tokenID p = tk_id r \<and> p_userID p = tk_user r \<and> u_id u = tk_user r
     \<and> p_workspaceID p = tk_workspace r \<and> p_scope p = tk_scope r
     \<and> p_canCommit p = tk_canCommit r \<and> p_canDelete p = tk_canDelete r \<and> \<not> p_ownerPlatformAdmin p"
proof -
  from assms obtain cr where cr: "FindAccessTokenCredential (te_sha env secret) db = Inr cr"
    unfolding Authenticate_def Let_def failIf_Inr_iff bindE_Inr_iff notFoundAs_Inr_iff by blast
  have ne: "token_Status (cr_token cr) (te_now env) \<noteq> AccessTokenStatusRevoked"
      "token_Status (cr_token cr) (te_now env) \<noteq> AccessTokenStatusExpired"
    and pu: "p = principal_of (cr_token cr) (cr_owner cr)" "u = cr_owner cr"
    using assms by (auto simp add: Authenticate_def cr Let_def failIf_def split: if_splits)
  have st: "token_Status (cr_token cr) (te_now env) = AccessTokenStatusActive"
    using ne token_Status_cases [of "cr_token cr" "te_now env"] by auto
  from cr obtain r where r: "find (\<lambda>r. tk_hash r = te_sha env secret) (tdb_rows db) = Some r"
    and sc: "scanAccessToken db r = Inr (cr_token cr)" and ow: "find_user db (tk_user r) = Some (cr_owner cr)"
    by (auto simp: FindAccessTokenCredential_def res_iffs split: option.splits)
  from r have "r \<in> set (tdb_rows db)" "tk_hash r = te_sha env secret" by (auto dest: find_SomeD)
  moreover have "u_id (cr_owner cr) = tk_user r" using ow by (auto simp: find_user_def dest: find_SomeD)
  ultimately show ?thesis using scan_fields [OF sc] st pu
    by (intro bexI [of _ r]) (auto simp: token_Status_active_iff principal_of_def)
qed

text \<open>Conversely, a live row of a known owner and workspace authenticates.\<close>

lemma Authenticate_live:
  assumes "tok_inv db" "validSecretFormat secret" "r \<in> set (tdb_rows db)" "tk_hash r = te_sha env secret"
    "tk_revokedAt r = None" "te_now env < tk_expiresAt r" "scanAccessToken db r = Inr t"
  shows "\<exists>u db'. Authenticate env secret db = Inr ((principal_of t u, u), db')
      \<and> find_user db (tk_user r) = Some u"
proof -
  have "find (\<lambda>r. tk_hash r = te_sha env secret) (tdb_rows db) = Some r"
    by (rule find_unique [where k = tk_hash]) (use assms in \<open>auto simp: tok_inv_def\<close>)
  moreover obtain u where "find_user db (tk_user r) = Some u" using scan_fields [OF assms(7)] by blast
  moreover have "token_Status t (te_now env) = AccessTokenStatusActive"
    using scan_fields [OF assms(7)] assms by (simp add: token_Status_active_iff)
  ultimately show ?thesis using assms
    by (auto simp: Authenticate_def FindAccessTokenCredential_def Let_def go_simps)
qed

lemma Authenticate_revoked:
  assumes "tok_inv db" "validSecretFormat secret" "r \<in> set (tdb_rows db)" "tk_hash r = te_sha env secret"
    "tk_revokedAt r \<noteq> None" "scanAccessToken db r = Inr t"
  shows "Authenticate env secret db = Inl (Unauthorized ''access_token_revoked'')"
proof -
  have "find (\<lambda>r. tk_hash r = te_sha env secret) (tdb_rows db) = Some r"
    by (rule find_unique [where k = tk_hash]) (use assms in \<open>auto simp: tok_inv_def\<close>)
  moreover obtain u where "find_user db (tk_user r) = Some u" using scan_fields [OF assms(6)] by blast
  moreover have "token_Status t (te_now env) = AccessTokenStatusRevoked"
    using scan_fields [OF assms(6)] assms by (simp add: token_Status_def)
  ultimately show ?thesis using assms
    by (auto simp: Authenticate_def FindAccessTokenCredential_def Let_def)
qed

end
