(* ===== verification/TokenRoutes.thy ===== *)
theory TokenRoutes
  imports AccessTokens
begin

text \<open>
  The route policy of personal tokens and the identity they give a request:
  \<open>internal/api/http/middleware/access_token.go\<close> and the token branch of
  \<open>internal/api/http/middleware/current_user.go\<close>. A request is its method and raw path.
\<close>

section \<open>Paths\<close>

text \<open>\<open>path.Clean\<close> on a rooted path: empty and \<open>.\<close> elements are dropped, \<open>..\<close> drops the element
  before it and nothing at the root. The elements are kept in reverse.\<close>

fun clean_step :: "string list \<Rightarrow> string \<Rightarrow> string list" where
  "clean_step acc w =
     (if w = [] \<or> w = ''.'' then acc else if w = ''..'' then tl acc else w # acc)"

definition path_elements :: "string \<Rightarrow> string list" where
  "path_elements s = rev (foldl clean_step [] (split_on (CHR ''/'') s))"

definition path_clean :: "string \<Rightarrow> string" where
  "path_clean s = CHR ''/'' # join_with ''/'' (path_elements s)"

definition normalizeRoutePath :: "string \<Rightarrow> string \<Rightarrow> string" where
  "normalizeRoutePath rawPath apiPrefix = trim_prefix apiPrefix (path_clean (CHR ''/'' # to_lower rawPath))"

fun trim_slashes_rev :: "string \<Rightarrow> string" where
  "trim_slashes_rev (c # s) = (if c = CHR ''/'' then trim_slashes_rev s else c # s)"
| "trim_slashes_rev [] = []"

definition api_prefix :: "string \<Rightarrow> string" where
  "api_prefix basePath = to_lower (rev (trim_slashes_rev (rev basePath))) @ ''/api''"

section \<open>The policy\<close>

definition accessTokenDeniedPrefixes :: "string list" where
  "accessTokenDeniedPrefixes =
     [''/v1/access-tokens'', ''/v1/access-grants'', ''/v1/service-users'', ''/v1/workspaces'',
      ''/v1/ai'', ''/v1/backend-connections'', ''/v1/integrations'', ''/v1/bridge'',
      ''/v1/domain/import'', ''/v1/domain/backups'']"

definition isCommitRoute :: "string \<Rightarrow> bool" where
  "isCommitRoute route =
     (if has_suffix ''/plan'' route then False
      else if route = ''/v1/commits'' \<or> route = ''/v1/releases'' \<or> route = ''/v1/releases/from-build'' then True
      else if has_prefix ''/v1/commits/'' route \<and> has_suffix ''/restore'' route then True
      else has_prefix ''/v1/releases/'' route \<and> has_suffix ''/restore'' route)"

definition isReleaseArtifactRoute :: "string \<Rightarrow> bool" where
  "isReleaseArtifactRoute route =
     (if \<not> has_prefix ''/v1/releases/'' route then False
      else has_suffix ''/bundle'' route \<or> has_suffix ''/export'' route)"

definition in_section :: "string \<Rightarrow> string \<Rightarrow> bool" where
  "in_section prefix route \<longleftrightarrow> route = prefix \<or> has_prefix (prefix @ ''/'') route"

definition accessTokenRouteError :: "principal \<Rightarrow> string \<Rightarrow> string \<Rightarrow> unit res" where
  "accessTokenRouteError token method route =
     bindE (firstError (\<lambda>prefix.
         if in_section prefix route then
           (if prefix = ''/v1/access-tokens'' then Inl (Forbidden ''access_token_management_forbidden'')
            else Inl (Forbidden ''access_token_route_forbidden''))
         else Inr ()) accessTokenDeniedPrefixes) (\<lambda>_.
     failIf (isReleaseArtifactRoute route) (Forbidden ''access_token_route_forbidden'') (
     failIf (method = ''DELETE'' \<and> \<not> p_canDelete token) (Forbidden ''access_token_delete_forbidden'') (
     failIf (method = ''POST'' \<and> isCommitRoute route \<and> \<not> p_canCommit token)
       (Forbidden ''access_token_commit_forbidden'') (Inr ()))))"

definition full_principal :: principal where
  "full_principal =
     \<lparr>p_tokenID = [], p_userID = [], p_workspaceID = [], p_workspaceIdentity = [],
      p_scope = AccessTokenScopeWrite, p_canCommit = True, p_canDelete = True,
      p_expiresAt = 0, p_ownerPlatformAdmin = False\<rparr>"

definition AccessTokenAllowsRoute :: "string \<Rightarrow> string \<Rightarrow> bool" where
  "AccessTokenAllowsRoute method route =
     (accessTokenRouteError full_principal method (normalizeRoutePath route []) = Inr ())"

text \<open>\<open>AccessTokenPolicy\<close>: a request without a token passes.\<close>

definition AccessTokenPolicy :: "string \<Rightarrow> ctx \<Rightarrow> string \<Rightarrow> string \<Rightarrow> unit res" where
  "AccessTokenPolicy basePath c method rawPath =
     (case cx_token c of
        None \<Rightarrow> Inr ()
      | Some t \<Rightarrow> accessTokenRouteError t method (normalizeRoutePath rawPath (api_prefix basePath)))"

section \<open>The identity of a token request\<close>

text \<open>\<open>bearerAccessToken\<close>: the secret of an Authorization header and whether it is a token.\<close>

definition bearerAccessToken :: "string \<Rightarrow> string \<times> bool" where
  "bearerAccessToken header =
     (if length header < 7 \<or> \<not> equal_fold_ascii (take 7 header) ''bearer '' then ([], False)
      else let v = trim_space (drop 7 header) in (v, IsAccessTokenSecret v))"

text \<open>\<open>resolveAccessTokenActor\<close> on the owner that \<open>authenticateAccessToken\<close> stored: the platform role
  of the owner goes into the token only, never into the actor.\<close>

definition resolveAccessTokenActor :: "(id \<Rightarrow> bool res) \<Rightarrow> principal \<Rightarrow> user \<Rightarrow> time \<Rightarrow> ctx res" where
  "resolveAccessTokenActor isPlatformAdmin token owner now =
     failIf (\<not> u_active owner) (new_err ''user_inactive'' 403) (
     bindE (isPlatformAdmin (u_id owner)) (\<lambda>platformAdmin.
     Inr \<lparr>cx_actor = Some \<lparr>ca_user = Some owner, ca_platformAdmin = False\<rparr>,
          cx_access = None,
          cx_token = Some (token\<lparr>p_ownerPlatformAdmin := platformAdmin\<rparr>),
          cx_batch = None, cx_now = now\<rparr>))"

text \<open>The token path of a request to a workspace route: header, authentication, current user,
  route policy, workspace authorization.\<close>

definition token_request ::
    "tok_env \<Rightarrow> (id \<Rightarrow> bool res) \<Rightarrow> string \<Rightarrow> string \<Rightarrow> string \<Rightarrow> string \<Rightarrow> string \<Rightarrow> tok_db \<Rightarrow> (ctx \<times> tok_db) res" where
  "token_request env isPlatformAdmin basePath header method rawPath workspaceIdentity db =
     (let (secret, isToken) = bearerAccessToken (trim_space header) in
      failIf (\<not> isToken) (new_err ''unauthorized'' 401) (
      bindE (Authenticate env secret db) (\<lambda>((p, owner), db').
      bindE (resolveAccessTokenActor isPlatformAdmin p owner (te_now env)) (\<lambda>c.
      bindE (AccessTokenPolicy basePath c method rawPath) (\<lambda>_.
      bindE (Authorize (te_getw env) (te_role env) c workspaceIdentity) (\<lambda>acc.
      Inr (c\<lparr>cx_access := Some acc\<rparr>, db')))))))"

section \<open>Laws\<close>

lemma accessTokenRouteError_Inr_iff:
  "accessTokenRouteError token method route = Inr () \<longleftrightarrow>
     (\<forall>prefix \<in> set accessTokenDeniedPrefixes. \<not> in_section prefix route)
     \<and> \<not> isReleaseArtifactRoute route
     \<and> (method = ''DELETE'' \<longrightarrow> p_canDelete token)
     \<and> (method = ''POST'' \<and> isCommitRoute route \<longrightarrow> p_canCommit token)"
proof -
  have "firstError (\<lambda>prefix. if in_section prefix route then
          (if prefix = ''/v1/access-tokens'' then Inl (Forbidden ''access_token_management_forbidden'')
           else Inl (Forbidden ''access_token_route_forbidden''))
        else Inr ()) accessTokenDeniedPrefixes = Inr ()
      \<longleftrightarrow> (\<forall>prefix \<in> set accessTokenDeniedPrefixes. \<not> in_section prefix route)"
    by (simp add: firstError_Inr_iff) metis
  then show ?thesis by (simp add: accessTokenRouteError_def res_iffs imp_conjL) argo
qed

lemma foldl_clean_trailing: "foldl clean_step acc (ws @ [[]]) = foldl clean_step acc ws"
  by simp

lemma split_on_append_sep: "split_on d (s @ d # t) = split_on d s @ split_on d t"
  by (induction s) (auto split: list.splits)

lemma path_clean_trailing_slash: "path_clean (s @ ''/'') = path_clean s"
  by (simp add: path_clean_def path_elements_def split_on_append_sep)

lemma path_clean_double_slash: "path_clean (s @ ''//'' @ t) = path_clean (s @ ''/'' @ t)"
proof -
  have "split_on (CHR ''/'') (s @ ''//'' @ t) = split_on (CHR ''/'') s @ [] # split_on (CHR ''/'') t"
    using split_on_append_sep [of "CHR ''/''" s "CHR ''/'' # t"] by simp
  moreover have "split_on (CHR ''/'') (s @ ''/'' @ t) = split_on (CHR ''/'') s @ split_on (CHR ''/'') t"
    using split_on_append_sep [of "CHR ''/''" s t] by simp
  ultimately show ?thesis by (simp add: path_clean_def path_elements_def)
qed

text \<open>The elements of a cleaned path are its real names: cleaning is idempotent.\<close>

definition clean_name :: "string \<Rightarrow> bool" where
  "clean_name w \<longleftrightarrow> w \<noteq> [] \<and> w \<noteq> ''.'' \<and> w \<noteq> ''..'' \<and> CHR ''/'' \<notin> set w"

lemma foldl_clean_names:
  "\<forall>w \<in> set acc. clean_name w \<Longrightarrow> \<forall>w \<in> set ws. CHR ''/'' \<notin> set w \<Longrightarrow>
   \<forall>w \<in> set (foldl clean_step acc ws). clean_name w"
proof (induction ws arbitrary: acc)
  case (Cons w ws)
  have "\<forall>v \<in> set (clean_step acc w). clean_name v"
    using Cons.prems by (cases acc) (auto simp: clean_name_def)
  then show ?case using Cons by simp
qed simp

lemma path_elements_clean: "w \<in> set (path_elements s) \<Longrightarrow> clean_name w"
  using foldl_clean_names [of "[]" "split_on (CHR ''/'') s"]
  by (auto simp: path_elements_def dest: split_on_sep)

lemma foldl_clean_id: "\<forall>w \<in> set ws. clean_name w \<Longrightarrow> foldl clean_step acc ws = rev ws @ acc"
  by (induction ws arbitrary: acc) (auto simp: clean_name_def)

lemma path_clean_idem: "path_clean (path_clean s) = path_clean s"
proof (cases "path_elements s = []")
  case True
  then show ?thesis by (simp add: path_clean_def path_elements_def)
next
  case False
  have "split_on (CHR ''/'') (join_with ''/'' (path_elements s)) = path_elements s"
    using False by (intro split_join) (auto dest: path_elements_clean simp: clean_name_def)
  then have sp: "split_on (CHR ''/'') (path_clean s) = [] # path_elements s"
    by (simp add: path_clean_def)
  have "path_elements (path_clean s) = rev (foldl clean_step [] ([] # path_elements s))"
    by (subst path_elements_def) (simp only: sp)
  also have "\<dots> = path_elements s"
    using foldl_clean_id [of "path_elements s" "[]"] path_elements_clean [of _ s] by simp
  finally have "path_elements (path_clean s) = path_elements s" .
  then show ?thesis by (simp add: path_clean_def)
qed

lemma AccessTokenPolicy_token:
  "cx_token c = Some t \<Longrightarrow> AccessTokenPolicy basePath c method rawPath = Inr () \<Longrightarrow>
   accessTokenRouteError t method (normalizeRoutePath rawPath (api_prefix basePath)) = Inr ()"
  by (simp add: AccessTokenPolicy_def)

lemma token_request_Inr:
  assumes "token_request env isPA basePath header method rawPath wid db = Inr (c, db')"
  shows "\<exists>secret p u acc c0 pa. Authenticate env secret db = Inr ((p, u), db') \<and> u_active u
     \<and> isPA (u_id u) = Inr pa
     \<and> cx_actor c = Some \<lparr>ca_user = Some u, ca_platformAdmin = False\<rparr>
     \<and> cx_token c = Some (p\<lparr>p_ownerPlatformAdmin := pa\<rparr>) \<and> cx_access c = Some acc
     \<and> Authorize (te_getw env) (te_role env) c0 wid = Inr acc
     \<and> cx_actor c0 = cx_actor c \<and> cx_token c0 = cx_token c
     \<and> AccessTokenPolicy basePath c method rawPath = Inr ()"
proof -
  obtain secret isToken where b: "bearerAccessToken (trim_space header) = (secret, isToken)"
    by (cases "bearerAccessToken (trim_space header)") auto
  from assms obtain p u db2 c0 acc where
    a: "Authenticate env secret db = Inr ((p, u), db2)"
    and r: "resolveAccessTokenActor isPA p u (te_now env) = Inr c0"
    and pol: "AccessTokenPolicy basePath c0 method rawPath = Inr ()"
    and au: "Authorize (te_getw env) (te_role env) c0 wid = Inr acc"
    and c: "c = c0\<lparr>cx_access := Some acc\<rparr>" "db2 = db'"
    by (auto simp: token_request_def b Let_def res_iffs)
  from r obtain pa where "u_active u" "isPA (u_id u) = Inr pa"
    and c0: "cx_actor c0 = Some \<lparr>ca_user = Some u, ca_platformAdmin = False\<rparr>"
      "cx_token c0 = Some (p\<lparr>p_ownerPlatformAdmin := pa\<rparr>)"
    by (auto simp: resolveAccessTokenActor_def res_iffs)
  moreover have "AccessTokenPolicy basePath c method rawPath = Inr ()"
    using pol c by (simp add: AccessTokenPolicy_def)
  ultimately show ?thesis using a au c
    by (intro exI [of _ secret] exI [of _ p] exI [of _ u] exI [of _ acc] exI [of _ c0] exI [of _ pa]) simp
qed

end
