(* ===== verification/TokenLaws.thy ===== *)
theory TokenLaws
  imports TokenRoutes
begin

text \<open>
  Laws that join the operations of personal tokens: an issued secret authenticates until it expires, a
  revocation is permanent, the recorded bounds of an issued token, and the rights a token request ends with.
\<close>

lemma token_roundtrip_law:
  assumes inv: "tok_inv db" and cr: "token_Create env c input i rnd db = Inr ((t, secret), db')"
    and rnd: "length rnd = secretBytes" "\<forall>b \<in> set rnd. b < 256"
    and later: "te_sha env' = te_sha env" "te_now env' < at_expiresAt t"
  shows "\<exists>u db''. Authenticate env' secret db' = Inr ((principal_of t u, u), db'')
     \<and> (\<exists>a v. ctx_Actor c = Inr (a, v) \<and> u_id u = u_id v)"
proof -
  from token_Create_Inr [OF cr] obtain current v and x :: token_input and expiry and w :: workspace and prefix where
    act: "ctx_Actor c = Inr (current, v)" and gen: "generateSecret (te_sha env) rnd = (secret, prefix, te_sha env secret)"
    and ins: "CreateAccessToken (te_is_uuid env) i (te_now env)
         \<lparr>cti_user = u_id v, cti_workspace = w_id w, cti_name = ti_name x,
          cti_description = ti_description x, cti_scope = ti_scope x, cti_canCommit = ti_canCommit x,
          cti_canDelete = ti_canDelete x, cti_prefix = prefix, cti_hash = te_sha env secret,
          cti_expiresAt = expiry\<rparr> db = Inr (t, db')" (is "CreateAccessToken _ _ _ ?x _ = _")
    by (elim exE conjE) (rule that)
  let ?r = "row_of_input i (te_now env) ?x"
  note ci = CreateAccessToken_Inr [OF ins]
  have valid: "validSecretFormat secret" using generateSecret_valid [OF rnd, of "te_sha env"] gen by simp
  have sc: "scanAccessToken db' ?r = Inr t" using ci by simp
  have "\<exists>u db''. Authenticate env' secret db' = Inr ((principal_of t u, u), db'') \<and> find_user db' (tk_user ?r) = Some u"
  proof (rule Authenticate_live [OF CreateAccessToken_inv [OF inv ins] valid _ _ _ _ sc])
    show "?r \<in> set (tdb_rows db')" using ci by simp
    show "tk_hash ?r = te_sha env' secret" "tk_revokedAt ?r = None" using later by (simp_all add: row_of_input_def)
    show "te_now env' < tk_expiresAt ?r" using later(2) scan_fields [OF sc] by simp
  qed
  then obtain u db'' where a: "Authenticate env' secret db' = Inr ((principal_of t u, u), db'')"
    and f: "find_user db' (tk_user ?r) = Some u" by blast
  have "u_id u = u_id v" using f by (auto simp: find_user_def row_of_input_def dest: find_SomeD)
  with a act show ?thesis by blast
qed

section \<open>Revocation is permanent\<close>

text \<open>What every operation keeps of a revoked row.\<close>

definition revoked_row :: "tok_db \<Rightarrow> id \<Rightarrow> string \<Rightarrow> bool" where
  "revoked_row db i h \<longleftrightarrow> (\<exists>r \<in> set (tdb_rows db). tk_id r = i \<and> tk_hash r = h \<and> tk_revokedAt r \<noteq> None
     \<and> \<not> isl (scanAccessToken db r))"

lemma scan_isl_cong:
  "tk_user r' = tk_user r \<Longrightarrow> tk_workspace r' = tk_workspace r \<Longrightarrow> tdb_users db' = tdb_users db \<Longrightarrow>
   tdb_workspaces db' = tdb_workspaces db \<Longrightarrow> isl (scanAccessToken db' r') = isl (scanAccessToken db r)"
  by (simp add: scanAccessToken_def find_user_def split: option.splits)

lemma revoked_row_update:
  assumes "revoked_row db i h"
    and f: "\<And>r. tk_id (f r) = tk_id r \<and> tk_hash (f r) = tk_hash r \<and> tk_user (f r) = tk_user r
      \<and> tk_workspace (f r) = tk_workspace r \<and> (tk_revokedAt r \<noteq> None \<longrightarrow> tk_revokedAt (f r) \<noteq> None)"
  shows "revoked_row (db\<lparr>tdb_rows := updateWhere p f (tdb_rows db)\<rparr>) i h"
proof -
  from assms(1) obtain r where r: "r \<in> set (tdb_rows db)" "tk_id r = i" "tk_hash r = h" "tk_revokedAt r \<noteq> None"
    "\<not> isl (scanAccessToken db r)" by (auto simp: revoked_row_def)
  let ?db = "db\<lparr>tdb_rows := updateWhere p f (tdb_rows db)\<rparr>" and ?r = "if p r then f r else r"
  have "?r \<in> set (tdb_rows ?db)" using r(1) by (auto simp: set_updateWhere)
  moreover have "isl (scanAccessToken ?db ?r) = isl (scanAccessToken db r)"
    using f [of r] by (intro scan_isl_cong) simp_all
  moreover have "tk_id ?r = i" "tk_hash ?r = h" "tk_revokedAt ?r \<noteq> None" using r f [of r] by auto
  ultimately show ?thesis using r(5) unfolding revoked_row_def by blast
qed

lemma TouchAccessToken_revoked: "revoked_row db i h \<Longrightarrow> revoked_row (TouchAccessToken j d now db) i h"
  unfolding TouchAccessToken_def by (erule revoked_row_update) simp

lemma RevokeAccessToken_revoked:
  "revoked_row db i h \<Longrightarrow> RevokeAccessToken j a now db = Inr db' \<Longrightarrow> revoked_row db' i h"
  by (auto simp: RevokeAccessToken_def failIf_Inr_iff intro!: revoked_row_update)

lemma CreateAccessToken_revoked:
  assumes "revoked_row db i h" "CreateAccessToken is_uuid j now x db = Inr (t, db')"
  shows "revoked_row db' i h"
proof -
  note ci = CreateAccessToken_Inr [OF assms(2)]
  from assms(1) obtain r where r: "r \<in> set (tdb_rows db)" "tk_id r = i" "tk_hash r = h" "tk_revokedAt r \<noteq> None"
    "\<not> isl (scanAccessToken db r)" by (auto simp: revoked_row_def)
  have "isl (scanAccessToken db' r) = isl (scanAccessToken db r)" using ci by (intro scan_isl_cong) simp_all
  with r ci show ?thesis unfolding revoked_row_def by auto
qed

lemma tok_step_revoked: "revoked_row db i h \<Longrightarrow> revoked_row (tok_step env op db) i h"
proof (induction env op db rule: tok_step.induct)
  case (1 env c x j rnd db)
  then show ?case
    by (cases "token_Create env c x j rnd db")
       (auto simp: dest!: token_Create_Inr dest: CreateAccessToken_revoked split: prod.splits)
next
  case (2 env c j db)
  then show ?case
    by (cases "token_Revoke env c j db") (auto simp: token_Revoke_def res_iffs dest: RevokeAccessToken_revoked)
next
  case (3 env s db)
  have "db' = db \<or> (\<exists>k d n. db' = TouchAccessToken k d n db)" if "Authenticate env s db = Inr (r, db')" for r db'
    using that by (auto simp: Authenticate_def res_iffs Let_def split: if_splits option.splits)
  then show ?case using 3 TouchAccessToken_revoked
    by (cases "Authenticate env s db") (auto split: prod.splits)
qed

lemma tok_run_revoked: "revoked_row db i h \<Longrightarrow> revoked_row (fold (\<lambda>(env, op). tok_step env op) ops db) i h"
  by (induction ops arbitrary: db) (auto simp: tok_step_revoked split: prod.splits)

lemma revoked_row_refused:
  assumes "tok_inv db" "revoked_row db i (te_sha env secret)" "validSecretFormat secret"
  shows "Authenticate env secret db = Inl (Unauthorized ''access_token_revoked'')"
proof -
  from assms(2) obtain r where r: "r \<in> set (tdb_rows db)" "tk_hash r = te_sha env secret" "tk_revokedAt r \<noteq> None"
    "\<not> isl (scanAccessToken db r)" by (auto simp: revoked_row_def)
  obtain t where "scanAccessToken db r = Inr t" using r(4) by (cases "scanAccessToken db r") auto
  with Authenticate_revoked [OF assms(1,3) r(1-3)] show ?thesis .
qed

lemma token_Revoke_revoked:
  assumes "tok_inv db" "token_Revoke env c i db = Inr db'" "q \<in> set (tdb_rows db)" "tk_id q = trim_space i"
  shows "revoked_row db' (trim_space i) (tk_hash q)"
proof -
  from assms(2) obtain v :: user and t where get: "GetAccessToken (te_is_uuid env) (trim_space i) db = Inr t"
    and rv: "RevokeAccessToken (at_id t) (u_id v) (te_now env) db = Inr db'"
    unfolding token_Revoke_def by (simp add: res_iffs split: prod.splits) blast
  from get obtain r where r: "find (\<lambda>r. tk_id r = trim_space i) (tdb_rows db) = Some r" "scanAccessToken db r = Inr t"
    by (auto simp: GetAccessToken_def split: if_splits option.splits)
  have "find (\<lambda>r. tk_id r = trim_space i) (tdb_rows db) = Some q"
    by (rule find_unique [where k = tk_id]) (use assms in \<open>auto simp: tok_inv_def\<close>)
  with r have sc: "scanAccessToken db q = Inr t" by simp
  let ?f = "\<lambda>r. r\<lparr>tk_revokedAt := Some (orElse (tk_revokedAt r) (te_now env)),
    tk_revokedBy := Some (orElse (tk_revokedBy r) (u_id v))\<rparr>"
  have "at_id t = trim_space i" using scan_fields [OF sc] assms(4) by simp
  with rv have db': "db' = db\<lparr>tdb_rows := updateWhere (\<lambda>r. tk_id r = trim_space i) ?f (tdb_rows db)\<rparr>"
    by (simp add: RevokeAccessToken_def failIf_Inr_iff)
  have "?f q \<in> set (tdb_rows db')" using assms(3,4) by (force simp: db' set_updateWhere)
  moreover have "isl (scanAccessToken db' (?f q)) = isl (scanAccessToken db q)"
    by (rule scan_isl_cong) (simp_all add: db')
  ultimately show ?thesis using sc assms(4) unfolding revoked_row_def by (intro bexI [of _ "?f q"]) simp_all
qed

lemma revoked_forever:
  assumes "tok_inv db" "token_Revoke env c i db = Inr db'" "q \<in> set (tdb_rows db)" "tk_id q = trim_space i"
    "te_sha env' secret = tk_hash q" "validSecretFormat secret"
  shows "Authenticate env' secret (fold (\<lambda>(env, op). tok_step env op) ops db') = Inl (Unauthorized ''access_token_revoked'')"
proof (rule revoked_row_refused [OF _ _ assms(6)])
  show "tok_inv (fold (\<lambda>(env, op). tok_step env op) ops db')"
    by (rule tok_run_inv) (rule token_Revoke_inv [OF assms(1,2)])
  show "revoked_row (fold (\<lambda>(env, op). tok_step env op) ops db') (trim_space i) (te_sha env' secret)"
    unfolding assms(5) by (rule tok_run_revoked) (rule token_Revoke_revoked [OF assms(1-4)])
qed

section \<open>Spelling of routes\<close>

lemma lower_char_code: "(of_char (lower_char c) :: nat) = (if 65 \<le> (of_char c :: nat) \<and> (of_char c :: nat) \<le> 90 then of_char c + 32 else of_char c)"
  by (simp add: lower_char_def less_eq_char_def)

lemma lower_char_idem: "lower_char (lower_char c) = lower_char c"
proof -
  have "(of_char (lower_char (lower_char c)) :: nat) = of_char (lower_char c)"
    unfolding lower_char_code [of "lower_char c"] unfolding lower_char_code by simp
  then show ?thesis by simp
qed

lemma lower_char_eq:
  assumes "(of_char x :: nat) < 65 \<or> 122 < (of_char x :: nat)"
  shows "lower_char c = x \<longleftrightarrow> c = x"
proof -
  have "(of_char (lower_char c) :: nat) = of_char x \<longleftrightarrow> (of_char c :: nat) = of_char x"
    unfolding lower_char_code using assms by auto
  then show ?thesis by simp
qed

lemma lower_char_high [simp]:
  "lower_char c = CHR 0xC4 \<longleftrightarrow> c = CHR 0xC4" "lower_char c = CHR 0xB0 \<longleftrightarrow> c = CHR 0xB0"
  "lower_char c = CHR 0xE2 \<longleftrightarrow> c = CHR 0xE2" "lower_char c = CHR 0x84 \<longleftrightarrow> c = CHR 0x84"
  "lower_char c = CHR 0xAA \<longleftrightarrow> c = CHR 0xAA" "lower_char (CHR ''/'') = CHR ''/''"
  by (subst lower_char_eq; simp)+

lemma to_lower_lower_char: "to_lower (map lower_char p) = to_lower p"
  by (induction p rule: to_lower.induct) (simp_all add: lower_char_idem)

lemma to_lower_slash0: "to_lower (CHR ''/'' # q) = CHR ''/'' # to_lower q"
  by (cases q rule: to_lower.cases) simp_all

lemma to_lower_slash1: "to_lower (a # CHR ''/'' # q) = lower_char a # CHR ''/'' # to_lower q"
  by (cases q) (simp_all add: to_lower_slash0)

lemma to_lower_slash: "to_lower (p @ CHR ''/'' # q) = to_lower p @ CHR ''/'' # to_lower q"
  by (induction p rule: to_lower.induct) (simp_all add: to_lower_slash0 to_lower_slash1)

lemma split_on_no: "d \<notin> set w \<Longrightarrow> split_on d w = [w]"
  by (induction w) auto

section \<open>Rights of a token request\<close>

text \<open>A request that comes through a token never carries more than the token and its owner allow.\<close>

lemma token_request_rights:
  assumes "token_request env isPA basePath header method rawPath wid db = Inr (c, db')"
  shows "AdminContext c \<noteq> Inr x"
    "WriteContext c = Inr y \<Longrightarrow> (\<exists>p. cx_token c = Some p \<and> p_scope p = AccessTokenScopeWrite)"
    "CommitContext c = Inr z \<Longrightarrow> (\<exists>p acc. cx_token c = Some p \<and> cx_access c = Some acc \<and> p_canCommit p \<and> CanAdmin (wa_ownerRole acc))"
    "\<exists>p acc. cx_token c = Some p \<and> cx_access c = Some acc \<and> w_id (wa_workspace acc) = p_workspaceID p
       \<and> wa_role acc \<in> {''viewer'', ''editor''}"
proof -
  from token_request_Inr [OF assms] obtain p u acc c0 pa where
    tk: "cx_token c = Some (p\<lparr>p_ownerPlatformAdmin := pa\<rparr>)" and ac: "cx_access c = Some acc"
    and au: "Authorize (te_getw env) (te_role env) c0 wid = Inr acc" "cx_token c0 = cx_token c" by blast
  show "AdminContext c \<noteq> Inr x" using tk by (cases x) (auto simp: AdminContext_Inr_iff)
  show "WriteContext c = Inr y \<Longrightarrow> (\<exists>p. cx_token c = Some p \<and> p_scope p = AccessTokenScopeWrite)"
    using tk by (cases y) (auto simp: WriteContext_Inr_iff principal_CanWrite_def)
  show "CommitContext c = Inr z \<Longrightarrow> (\<exists>p acc. cx_token c = Some p \<and> cx_access c = Some acc \<and> p_canCommit p \<and> CanAdmin (wa_ownerRole acc))"
    using tk ac by (cases z) (auto simp: CommitContext_Inr_iff WriteContext_Inr_iff ctx_Access_def)
  show "\<exists>p acc. cx_token c = Some p \<and> cx_access c = Some acc \<and> w_id (wa_workspace acc) = p_workspaceID p
       \<and> wa_role acc \<in> {''viewer'', ''editor''}"
    using Authorize_Inr [OF au(1)] tk ac au(2) by (auto simp: CapWorkspaceRole_def split: if_splits)
qed

end
