(* ===== verification/AccessPolicy.thy ===== *)
theory AccessPolicy
  imports AccessContext
begin

text \<open>
  The external access policy of \<open>internal/domain/access/policy.go\<close>: JSON pointers into
  the verified claims, rule matching, and the mapping of the matching rules to one grant per scope.
  A nil policy (local management) is \<open>None\<close>.
\<close>

section \<open>Data\<close>

record grant =
  g_scope :: string
  g_workspace :: string
  g_role :: string

record rule =
  r_path :: "string list"
  r_equals :: "json option"
  r_contains :: "string option"
  r_grant :: grant

record policy =
  pol_provider :: string
  pol_name :: string
  pol_version :: string
  pol_rules :: "rule list"

definition NewPolicy :: "string \<Rightarrow> string \<Rightarrow> string \<Rightarrow> rule list \<Rightarrow> policy" where
  "NewPolicy provider name version rules =
     \<lparr>pol_provider = provider, pol_name = name, pol_version = version, pol_rules = rules\<rparr>"

definition External :: "policy option \<Rightarrow> bool" where
  "External p \<longleftrightarrow> p \<noteq> None"

definition Provider :: "policy option \<Rightarrow> string" where
  "Provider p = (case p of None \<Rightarrow> [] | Some q \<Rightarrow> pol_provider q)"

definition policy_Version :: "policy option \<Rightarrow> string" where
  "policy_Version p = (case p of None \<Rightarrow> [] | Some q \<Rightarrow> pol_version q)"

definition Management :: "policy option \<Rightarrow> string \<times> string" where
  "Management p = (case p of None \<Rightarrow> (''local'', []) | Some q \<Rightarrow> (''external'', pol_name q))"

definition RequireLocal :: "policy option \<Rightarrow> unit res" where
  "RequireLocal p = (if p \<noteq> None then Inl (Forbidden ''access_managed_externally'') else Inr ())"

section \<open>Pointers\<close>

text \<open>\<open>pointerValue\<close>: \<open>None\<close> stands for the results with a false second component, among them a
  null at the end of the path.\<close>

fun pointerValue :: "json \<Rightarrow> string list \<Rightarrow> json option" where
  "pointerValue v [] = (if v = JNull then None else Some v)"
| "pointerValue v (segment # path) = (case v of
      JObj m \<Rightarrow> (case oget m segment of None \<Rightarrow> None | Some x \<Rightarrow> pointerValue x path)
    | JArr xs \<Rightarrow> (let (index, ok) = parse_int64 segment in
        if \<not> ok \<or> index < 0 \<or> index \<ge> int (length xs) \<or> itoa index \<noteq> segment then None
        else pointerValue (xs ! nat index) path)
    | _ \<Rightarrow> None)"

text \<open>The escape check of \<open>ParsePointer\<close>: every tilde is followed by 0 or 1.\<close>

fun valid_escapes :: "string \<Rightarrow> bool" where
  "valid_escapes [] \<longleftrightarrow> True"
| "valid_escapes [c] \<longleftrightarrow> c \<noteq> CHR 0x7E"
| "valid_escapes (c # d # s) \<longleftrightarrow>
     (if c = CHR 0x7E then (d = CHR ''0'' \<or> d = CHR ''1'') \<and> valid_escapes s else valid_escapes (d # s))"

definition unescape :: "string \<Rightarrow> string" where
  "unescape part = replace2 (CHR 0x7E) (CHR ''0'') [CHR 0x7E] (replace2 (CHR 0x7E) (CHR ''1'') ''/'' part)"

definition ParsePointer :: "string \<Rightarrow> string list option" where
  "ParsePointer path =
     (if \<not> has_prefix ''/'' path then None
      else let parts = split_on (CHR ''/'') (tl path) in
        if list_all valid_escapes parts then Some (map unescape parts) else None)"

section \<open>Numbers\<close>

definition equalNumbers :: "string \<Rightarrow> string \<Rightarrow> bool" where
  "equalNumbers left right =
     (case (parse_rat left, parse_rat right) of
        (Some (a, x), Some (b, y)) \<Rightarrow>
          if x \<le> y then a = b * 10 ^ nat (y - x) else a * 10 ^ nat (x - y) = b
      | _ \<Rightarrow> False)"

section \<open>Rules\<close>

fun contains_item :: "string \<Rightarrow> json list \<Rightarrow> bool option" where
  "contains_item t [] = Some False"
| "contains_item t (JStr s # xs) = map_option (\<lambda>found. s = t \<or> found) (contains_item t xs)"
| "contains_item t (x # xs) = None"

definition rule_matches :: "json \<Rightarrow> rule \<Rightarrow> bool" where
  "rule_matches value r = (case r_contains r of
      Some t \<Rightarrow> (case value of
          JArr xs \<Rightarrow> (case contains_item t xs of Some b \<Rightarrow> b | None \<Rightarrow> False)
        | _ \<Rightarrow> False)
    | None \<Rightarrow> (case r_equals r of
          Some (JBool e) \<Rightarrow> value = JBool e
        | Some (JStr e) \<Rightarrow> value = JStr e
        | Some (JNumber e) \<Rightarrow> (case value of JNumber a \<Rightarrow> equalNumbers a e | _ \<Rightarrow> False)
        | _ \<Rightarrow> False))"

definition role_rank :: "string \<Rightarrow> nat" where
  "role_rank role = (if role = ''admin'' then 3 else if role = ''editor'' then 2
     else if role = ''viewer'' then 1 else 0)"

definition grant_key :: "grant \<Rightarrow> string" where
  "grant_key g = g_scope g @ ''/'' @ g_workspace g"

definition rule_applies :: "jobj \<Rightarrow> rule \<Rightarrow> bool" where
  "rule_applies claims r = (case pointerValue (JObj claims) (r_path r) of
      None \<Rightarrow> False | Some value \<Rightarrow> rule_matches value r)"

definition map_step :: "jobj \<Rightarrow> rule \<Rightarrow> (string \<times> grant) list \<Rightarrow> (string \<times> grant) list" where
  "map_step claims r grants =
     (if \<not> rule_applies claims r then grants
      else let key = grant_key (r_grant r) in
        case oget grants key of
          None \<Rightarrow> oput key (r_grant r) grants
        | Some previous \<Rightarrow>
            if role_rank (g_role (r_grant r)) > role_rank (g_role previous)
            then oput key (r_grant r) grants else grants)"

text \<open>\<open>Policy.Map\<close>: the grants in the order of their keys.\<close>

definition policy_Map :: "policy option \<Rightarrow> jobj \<Rightarrow> grant list" where
  "policy_Map p claims = (case p of
      None \<Rightarrow> []
    | Some q \<Rightarrow> map snd (fold (map_step claims) (pol_rules q) []))"

section \<open>Pointers round-trip\<close>

text \<open>The escaping of RFC 6901 that \<open>ParsePointer\<close> undoes.\<close>

fun escape :: "string \<Rightarrow> string" where
  "escape [] = []"
| "escape (c # s) =
     (if c = CHR 0x7E then CHR 0x7E # CHR ''0'' # escape s
      else if c = CHR ''/'' then CHR 0x7E # CHR ''1'' # escape s
      else c # escape s)"

fun half_escape :: "string \<Rightarrow> string" where
  "half_escape [] = []"
| "half_escape (c # s) = (if c = CHR 0x7E then CHR 0x7E # CHR ''0'' # half_escape s else c # half_escape s)"

lemma replace2_Cons_other: "c \<noteq> x \<Longrightarrow> replace2 x y r (c # s) = c # replace2 x y r s"
  by (cases s) auto

lemma replace2_escape: "replace2 (CHR 0x7E) (CHR ''1'') ''/'' (escape s) = half_escape s"
  by (induction s) (auto simp: replace2_Cons_other)

lemma replace2_half_escape: "replace2 (CHR 0x7E) (CHR ''0'') [CHR 0x7E] (half_escape s) = s"
  by (induction s) (auto simp: replace2_Cons_other)

lemma unescape_escape [simp]: "unescape (escape s) = s"
  by (simp add: unescape_def replace2_escape replace2_half_escape)

lemma valid_escapes_Cons_other: "c \<noteq> CHR 0x7E \<Longrightarrow> valid_escapes (c # s) = valid_escapes s"
  by (cases s) auto

lemma valid_escapes_escape [simp]: "valid_escapes (escape s)"
  by (induction s) (auto simp: valid_escapes_Cons_other)

lemma escape_no_slash: "CHR ''/'' \<notin> set (escape s)"
  by (induction s) auto

section \<open>The mapping keeps the strongest role of every scope\<close>

definition best_for :: "jobj \<Rightarrow> rule list \<Rightarrow> string \<Rightarrow> grant option" where
  "best_for claims rules key =
     foldl (\<lambda>best r. if rule_applies claims r \<and> grant_key (r_grant r) = key
         \<and> (case best of None \<Rightarrow> True | Some g \<Rightarrow> role_rank (g_role (r_grant r)) > role_rank (g_role g))
       then Some (r_grant r) else best) None rules"

lemma map_step_owf: "owf grants \<Longrightarrow> owf (map_step claims r grants)"
  by (auto simp: map_step_def Let_def split: option.splits)

lemma map_fold_owf: "owf grants \<Longrightarrow> owf (fold (map_step claims) rules grants)"
  by (induction rules arbitrary: grants) (auto simp: map_step_owf)

lemma map_step_get:
  "oget (map_step claims r grants) key =
     (if rule_applies claims r \<and> grant_key (r_grant r) = key
         \<and> (case oget grants key of None \<Rightarrow> True | Some g \<Rightarrow> role_rank (g_role (r_grant r)) > role_rank (g_role g))
      then Some (r_grant r) else oget grants key)"
  by (auto simp: map_step_def Let_def oget_put split: option.splits)

lemma map_fold_get:
  "oget (fold (map_step claims) rules grants) key =
     foldl (\<lambda>best r. if rule_applies claims r \<and> grant_key (r_grant r) = key
         \<and> (case best of None \<Rightarrow> True | Some g \<Rightarrow> role_rank (g_role (r_grant r)) > role_rank (g_role g))
       then Some (r_grant r) else best) (oget grants key) rules"
  by (induction rules arbitrary: grants) (simp_all only: fold.simps foldl.simps comp_apply map_step_get, simp)

lemma map_fold_best: "oget (fold (map_step claims) rules []) key = best_for claims rules key"
  by (simp add: map_fold_get best_for_def)

text \<open>The chosen grant comes from an applicable rule and no applicable rule of the same key is
  stronger.\<close>

lemma best_for_spec:
  "(case best_for claims rules key of
      None \<Rightarrow> (\<forall>r \<in> set rules. rule_applies claims r \<longrightarrow> grant_key (r_grant r) \<noteq> key)
    | Some g \<Rightarrow> grant_key g = key
        \<and> (\<exists>r \<in> set rules. rule_applies claims r \<and> r_grant r = g)
        \<and> (\<forall>r \<in> set rules. rule_applies claims r \<and> grant_key (r_grant r) = key
             \<longrightarrow> role_rank (g_role (r_grant r)) \<le> role_rank (g_role g)))"
proof (induction rules rule: rev_induct)
  case Nil
  then show ?case by (simp add: best_for_def)
next
  case (snoc r rules)
  have step: "best_for claims (rules @ [r]) key =
     (if rule_applies claims r \<and> grant_key (r_grant r) = key
         \<and> (case best_for claims rules key of None \<Rightarrow> True | Some g \<Rightarrow> role_rank (g_role (r_grant r)) > role_rank (g_role g))
      then Some (r_grant r) else best_for claims rules key)"
    by (simp add: best_for_def)
  show ?case
  proof (cases "best_for claims rules key")
    case None
    with snoc step show ?thesis by auto
  next
    case (Some g)
    with snoc step show ?thesis by (auto simp: not_less)
  qed
qed

lemma policy_Map_mem:
  "g \<in> set (policy_Map (Some q) claims) \<longleftrightarrow> best_for claims (pol_rules q) (grant_key g) = Some g"
proof -
  let ?gs = "fold (map_step claims) (pol_rules q) []"
  have wf: "owf ?gs" by (rule map_fold_owf) simp
  have key: "(k, h) \<in> set ?gs \<longleftrightarrow> best_for claims (pol_rules q) k = Some h" for k h
    using in_set_oget [OF wf, of k h] oget_in_set [of ?gs k h] by (auto simp: map_fold_best)
  have own: "best_for claims (pol_rules q) k = Some h \<Longrightarrow> grant_key h = k" for k h
    using best_for_spec [where claims = claims and rules = "pol_rules q" and key = k] by auto
  show ?thesis
  proof
    assume "g \<in> set (policy_Map (Some q) claims)"
    then obtain k where "(k, g) \<in> set ?gs" by (auto simp: policy_Map_def)
    with key own show "best_for claims (pol_rules q) (grant_key g) = Some g" by metis
  next
    assume "best_for claims (pol_rules q) (grant_key g) = Some g"
    then have "(grant_key g, g) \<in> set ?gs" by (simp add: key)
    then show "g \<in> set (policy_Map (Some q) claims)" by (force simp: policy_Map_def)
  qed
qed

lemma policy_Map_keys: "map grant_key (policy_Map (Some q) claims) = map fst (fold (map_step claims) (pol_rules q) [])"
proof -
  let ?gs = "fold (map_step claims) (pol_rules q) []"
  have wf: "owf ?gs" by (rule map_fold_owf) simp
  have "grant_key h = k" if "(k, h) \<in> set ?gs" for k h
    using in_set_oget [OF wf that] best_for_spec [where claims = claims and rules = "pol_rules q" and key = k] by (simp add: map_fold_best)
  then show ?thesis by (auto simp: policy_Map_def)
qed

lemma policy_Map_sorted: "sorted_wrt (<) (map grant_key (policy_Map (Some q) claims))"
  using map_fold_owf [of "[]" claims "pol_rules q"] by (simp add: policy_Map_keys owf_def)

section \<open>Numeric comparison\<close>

lemma equalNumbers_sym: "equalNumbers a b = equalNumbers b a"
  by (auto simp: equalNumbers_def split: option.splits)

lemma equalNumbers_refl: "parse_rat a \<noteq> None \<Longrightarrow> equalNumbers a a"
  by (auto simp: equalNumbers_def)

end
