(* ===== verification/Sample.thy ===== *)
theory Sample
  imports Service TokenLaws AccessPolicy
begin

text \<open>
  A concrete workspace with its root folders and their first revisions, on which the properties of the
  root theory are applied: one user, who is an administrator, and the two folders a document of the
  collection \<open>types\<close> lies in.
\<close>

definition sample_user :: user where
  "sample_user = \<lparr>u_id = ''u1'', u_username = ''ann'', u_displayName = ''Ann'', u_active = True\<rparr>"

definition sample_workspace :: workspace where
  "sample_workspace =
     \<lparr>w_id = ''w1'', w_identity = ''demo'', w_displayName = ''Demo'', w_description = None,
      w_dataMode = ''live'', w_documentStructure = ''frontend'', w_startupComposition = None,
      w_configuration = JObj [], w_meta = JObj [], w_active = True, w_deletedAt = None,
      w_headSequence = 2, w_revision = 1, w_createdBy = actor_of sample_user, w_updatedBy = actor_of sample_user\<rparr>"

definition sample_folder :: "id \<Rightarrow> string \<Rightarrow> string \<Rightarrow> string option \<Rightarrow> doc_row" where
  "sample_folder i identity scope entityType =
     \<lparr>dr_id = i, dr_ws = ''w1'', dr_kind = CollectionFolders, dr_identity = identity, dr_name = identity,
      dr_desc = None, dr_folder = None, dr_wfolder = None, dr_relation = None, dr_scope = scope,
      dr_entityType = entityType, dr_isRoot = True, dr_icon = None, dr_color = None,
      dr_managedBy = ''system'', dr_managedByID = None, dr_meta = JObj [], dr_data = [], dr_active = True,
      dr_deletedAt = None, dr_revision = 1, dr_createdBy = ''u1'', dr_updatedBy = ''u1'',
      dr_createdAt = 10, dr_updatedAt = 10\<rparr>"

definition sample_revision :: "id \<Rightarrow> id \<Rightarrow> int \<Rightarrow> revision" where
  "sample_revision i doc n =
     \<lparr>rv_id = i, rv_ws = ''w1'', rv_type = CollectionFolders, rv_docID = doc, rv_docIdentity = doc,
      rv_number = 1, rv_seq = Some n, rv_operation = ''create'', rv_parent = None, rv_restoredFrom = None,
      rv_batch = ''b0'', rv_version = 1, rv_snapshot = SnapOther JNull, rv_checksum = [], rv_createdBy = ''u1''\<rparr>"

definition sample_db :: db where
  "sample_db =
     \<lparr>db_docs = [sample_folder ''f1'' WorkspaceRootFolderIdentity FolderScopeWorkspace None,
                 sample_folder ''f2'' ''root-types'' FolderScopeCollection (Some CollectionTypes)],
      db_facets = [], db_fdocs = [],
      db_workspaces = [\<lparr>ws_value = sample_workspace, ws_startup = None\<rparr>], db_users = [sample_user],
      db_batches = [\<lparr>mb_id = ''b0'', mb_ws = Some ''w1'', mb_kind = ''create'', mb_actor = ''u1'', mb_token = None\<rparr>],
      db_revisions = [sample_revision ''r1'' ''f1'' 1, sample_revision ''r2'' ''f2'' 2], db_next = 0\<rparr>"

definition sample_env :: env where
  "sample_env =
     \<lparr>e_nf = id, e_sha = (\<lambda>c. dc_displayName c @ CHR ''/'' # dc_identity c @ orElse (dc_workspaceFolderIdentity c) []),
      e_fsha = fc_displayName, e_ssha = (\<lambda>_. ''x''), e_uuid = (\<lambda>n. replicate (Suc n) (CHR ''i''))\<rparr>"

definition sample_ctx :: ctx where
  "sample_ctx =
     \<lparr>cx_actor = Some \<lparr>ca_user = Some sample_user, ca_platformAdmin = False\<rparr>,
      cx_access = Some \<lparr>wa_workspace = sample_workspace, wa_role = ''admin'', wa_ownerRole = []\<rparr>,
      cx_token = None, cx_batch = None, cx_now = 50\<rparr>"

definition sample_body :: json where
  "sample_body = JObj [(''displayName'', JStr ''Point''), (''identity'', JStr ''point''),
     (''source'', JStr ''type Point''), (''sourceVersion'', JNumber ''1'')]"

lemmas sample_defs = sample_db_def sample_folder_def sample_revision_def sample_workspace_def sample_user_def

lemma sample_log: "log_complete {} sample_db"
  unfolding log_complete_def logged_def numbers_expected_def revisions_of_def doc_rev_def row_by_id_def
  by (auto simp: sample_defs collection_defs)

lemma sample_good: "doc_good sample_db"
  by code_simp

lemma sample_log_inv: "log_inv {} sample_db"
proof -
  have h: "head_of sample_db ws = (if ws = ''w1'' then Some 2 else None)" for ws
    by (simp add: head_of_def ws_of_def sample_db_def sample_workspace_def)
  have q: "sequences sample_db ''w1'' = [1, 2]"
    by (simp add: sequences_def sample_db_def sample_revision_def)
  have "log_ordered sample_db" using h q by (simp add: log_ordered_def)
  with sample_log sample_good show ?thesis by (simp add: log_inv_def)
qed

text \<open>The document of the body is created, moved between states and read back.\<close>

definition sample_created :: "(document \<times> db) res" where
  "sample_created = doc_Create sample_env sample_ctx CollectionTypes sample_body sample_db"

definition sample_after :: db where
  "sample_after = snd (projr sample_created)"

lemma sample_created_ok: "\<not> isl sample_created"
  by code_simp

lemma sample_created_Inr: "sample_created = Inr (fst (projr sample_created), sample_after)"
  using sample_created_ok by (cases sample_created) (simp_all add: sample_after_def)

lemmas sample_create = sample_created_Inr [unfolded sample_created_def]

lemma sample_after_inv: "log_inv {} sample_after"
  by (rule doc_Create_inv [OF sample_create sample_log_inv])

definition sample_point :: "doc_row option" where
  "sample_point = row_by_identity sample_after CollectionTypes ''w1'' ''point''"

lemma sample_point_row: "case sample_point of None \<Rightarrow> False | Some r \<Rightarrow> dr_revision r = 1 \<and> dr_kind r = CollectionTypes"
  by code_simp

text \<open>Personal tokens of the same user.\<close>

definition sample_tok_env :: "int \<Rightarrow> tok_env" where
  "sample_tok_env now =
     \<lparr>te_maxTTL = 2592000 * second_ns, te_now = now * second_ns, te_sha = rev, te_is_uuid = (\<lambda>_. True),
      te_getw = (\<lambda>i. if i = ''demo'' then Inr sample_workspace else Inl RowNotFound),
      te_role = (\<lambda>_ _ _. Inr ''admin'')\<rparr>"

definition sample_tokens :: tok_db where
  "sample_tokens = \<lparr>tdb_rows = [], tdb_users = [sample_user], tdb_workspaces = [(''w1'', ''demo'')]\<rparr>"

definition sample_token_input :: token_input where
  "sample_token_input =
     \<lparr>ti_workspace = ''demo'', ti_name = '' agent'', ti_description = [], ti_scope = ''write'',
      ti_canCommit = True, ti_canDelete = False, ti_expiresAt = Some (5000 * second_ns)\<rparr>"

definition sample_random :: "nat list" where
  "sample_random = replicate secretBytes 7"

definition sample_issued :: "((access_token \<times> string) \<times> tok_db) res" where
  "sample_issued = token_Create (sample_tok_env 1000) sample_ctx sample_token_input ''t1'' sample_random sample_tokens"

lemma sample_issued_ok: "case sample_issued of Inl e \<Rightarrow> False
  | Inr ((t, s), db) \<Rightarrow> at_expiresAt t = 5000 * second_ns \<and> validSecretFormat s \<and> map tk_id (tdb_rows db) = [''t1'']
      \<and> map tk_hash (tdb_rows db) = [rev s]"
  by code_simp

lemma sample_tokens_inv: "tok_inv sample_tokens"
  by (simp add: tok_inv_def sample_tokens_def)

lemma types_served: "CollectionTypes \<in> set DocumentCollections"
  by (simp add: DocumentCollections_def)

definition sample_access :: workspace_access where
  "sample_access = \<lparr>wa_workspace = sample_workspace, wa_role = ''admin'', wa_ownerRole = []\<rparr>"

lemma sample_write: "WriteContext sample_ctx = Inr ((\<lparr>ca_user = Some sample_user, ca_platformAdmin = False\<rparr>, sample_user), sample_access)"
  by code_simp

lemma inr_some: "\<not> isl r \<Longrightarrow> \<exists>d t. r = Inr (d, t)"
  by (cases r) auto


text \<open>Two facets, and a document in the first one.\<close>

definition sample_fenv :: env where
  "sample_fenv = sample_env\<lparr>e_fsha := (\<lambda>c. (if ohas (fc_data c) ''documentCount'' then CHR ''y'' else CHR ''n'') # fc_displayName c)\<rparr>"

definition sample_facet :: "string \<Rightarrow> facet_create" where
  "sample_facet i = \<lparr>fci_identity = i, fci_displayName = i, fci_icon = ''Flag'', fci_color = ''#00ff00'', fci_meta = None\<rparr>"

definition sample_fdoc :: fdoc_create where
  "sample_fdoc = \<lparr>dci_identity = ''prod'', dci_displayName = ''Prod'', dci_description = None, dci_configuration = None,
     dci_meta = None, dci_active = None\<rparr>"

definition sample_facet1 :: "(document \<times> db) res" where
  "sample_facet1 = facet_Create sample_fenv sample_ctx (sample_facet ''stage'') sample_db"

definition sample_facet2 :: "(document \<times> db) res" where
  "sample_facet2 = facet_Create sample_fenv sample_ctx (sample_facet ''team'') (snd (projr sample_facet1))"

definition sample_fdoc1 :: "(document \<times> db) res" where
  "sample_fdoc1 = fdoc_Create sample_fenv sample_ctx ''stage'' sample_fdoc (snd (projr sample_facet2))"

definition sample_facets :: db where
  "sample_facets = snd (projr sample_fdoc1)"

lemma sample_facets_ok: "\<not> isl sample_facet1" "\<not> isl sample_facet2" "\<not> isl sample_fdoc1"
  by code_simp+

lemma inr_projr: "\<not> isl r \<Longrightarrow> r = Inr (fst (projr r), snd (projr r))"
  by (cases r) auto

lemma sample_served: "served sample_fenv sample_db sample_facets"
proof -
  have 1: "facet_Create sample_fenv sample_ctx (sample_facet ''stage'') sample_db = Inr (fst (projr sample_facet1), snd (projr sample_facet1))"
    using inr_projr [OF sample_facets_ok(1)] by (simp only: sample_facet1_def)
  have 2: "facet_Create sample_fenv sample_ctx (sample_facet ''team'') (snd (projr sample_facet1)) = Inr (fst (projr sample_facet2), snd (projr sample_facet2))"
    using inr_projr [OF sample_facets_ok(2)] by (simp only: sample_facet2_def)
  have 3: "fdoc_Create sample_fenv sample_ctx ''stage'' sample_fdoc (snd (projr sample_facet2)) = Inr (fst (projr sample_fdoc1), sample_facets)"
    using inr_projr [OF sample_facets_ok(3)] by (simp only: sample_fdoc1_def sample_facets_def)
  show ?thesis
    by (rule served.step [OF served.step [OF served.step [OF served.start facet_create [OF 1]] facet_create [OF 2]] fdoc_create [OF 3]])
qed

lemma sample_service_inv: "service_inv sample_db"
proof -
  have "facet_good sample_db"
    by (simp add: facet_good_def facets_ok_def fdocs_ok_def facets_unique_def fdocs_unique_def active_facets_def
        docs_in_live_facets_def sample_db_def)
  moreover have "log_matches CollectionFacets facet_rev {} sample_db" "log_matches CollectionFacetDocuments fdoc_rev {} sample_db"
    unfolding log_matches_def logged_def revisions_of_def facet_rev_def fdoc_rev_def
    by (auto simp: sample_defs collection_defs)
  ultimately show ?thesis using sample_log_inv by (simp add: service_inv_def facet_inv_def)
qed

lemmas sample_facets_inv = served_inv [OF sample_served sample_service_inv]

end
