(* ===== verification/JsonScan.thy ===== *)
theory JsonScan
  imports Prelude
begin

text \<open>
  The test \<open>json.Valid\<close> of Go's \<open>encoding/json\<close>, which the code uses on raw message bytes: the state
  machine of the scanner, one transition a byte, with the stack of open objects and arrays. The test does
  not look at the UTF-8 encoding of strings, and it refuses more than 10000 nested values.
\<close>

datatype frame = ParseObjectKey | ParseObjectValue | ParseArrayValue

datatype scan_state =
    BeginValue | BeginValueOrEmpty | BeginString | BeginStringOrEmpty | EndValue | EndTop
  | InString | InStringEsc | InStringEscU nat
  | Neg | Digits1 | Digits0 | Dot | Dot0 | Exp | ExpSign | Exp0
  | InLiteral string

type_synonym scanner = "scan_state \<times> frame list"

definition maxNestingDepth :: nat where "maxNestingDepth = 10000"

definition json_space :: "char \<Rightarrow> bool" where
  "json_space c \<longleftrightarrow> c \<in> set [CHR '' '', CHR 0x09, CHR 0x0A, CHR 0x0D]"

definition dec_digit :: "char \<Rightarrow> bool" where
  "dec_digit c \<longleftrightarrow> CHR ''0'' \<le> c \<and> c \<le> CHR ''9''"

definition hex_digit :: "char \<Rightarrow> bool" where
  "hex_digit c \<longleftrightarrow> dec_digit c \<or> CHR ''a'' \<le> c \<and> c \<le> CHR ''f'' \<or> CHR ''A'' \<le> c \<and> c \<le> CHR ''F''"

text \<open>A new object or array, a closed one, and the state after a complete value.\<close>

definition push_frame :: "frame \<Rightarrow> scan_state \<Rightarrow> frame list \<Rightarrow> scanner option" where
  "push_frame f s st = (if Suc (length st) \<le> maxNestingDepth then Some (s, f # st) else None)"

definition pop_frame :: "frame list \<Rightarrow> scanner" where
  "pop_frame st = (let r = tl st in (if r = [] then EndTop else EndValue, r))"

definition scan_end :: "frame list \<Rightarrow> char \<Rightarrow> scanner option" where
  "scan_end st c = (case st of
      [] \<Rightarrow> if json_space c then Some (EndTop, []) else None
    | f # r \<Rightarrow>
        if json_space c then Some (EndValue, st)
        else (case f of
            ParseObjectKey \<Rightarrow> if c = CHR '':'' then Some (BeginValue, ParseObjectValue # r) else None
          | ParseObjectValue \<Rightarrow>
              if c = CHR '','' then Some (BeginString, ParseObjectKey # r)
              else if c = CHR ''}'' then Some (pop_frame st) else None
          | ParseArrayValue \<Rightarrow>
              if c = CHR '','' then Some (BeginValue, st)
              else if c = CHR '']'' then Some (pop_frame st) else None))"

definition scan_begin_string :: "frame list \<Rightarrow> char \<Rightarrow> scanner option" where
  "scan_begin_string st c =
     (if json_space c then Some (BeginString, st)
      else if c = CHR 0x22 then Some (InString, st) else None)"

definition scan_begin :: "frame list \<Rightarrow> char \<Rightarrow> scanner option" where
  "scan_begin st c =
     (if json_space c then Some (BeginValue, st)
      else if c = CHR ''{'' then push_frame ParseObjectKey BeginStringOrEmpty st
      else if c = CHR ''['' then push_frame ParseArrayValue BeginValueOrEmpty st
      else if c = CHR 0x22 then Some (InString, st)
      else if c = CHR ''-'' then Some (Neg, st)
      else if c = CHR ''0'' then Some (Digits0, st)
      else if dec_digit c then Some (Digits1, st)
      else if c = CHR ''t'' then Some (InLiteral ''rue'', st)
      else if c = CHR ''f'' then Some (InLiteral ''alse'', st)
      else if c = CHR ''n'' then Some (InLiteral ''ull'', st)
      else None)"

definition scan_after_int :: "frame list \<Rightarrow> char \<Rightarrow> scanner option" where
  "scan_after_int st c =
     (if c = CHR ''.'' then Some (Dot, st)
      else if c = CHR ''e'' \<or> c = CHR ''E'' then Some (Exp, st)
      else scan_end st c)"

definition scan_exp_digit :: "frame list \<Rightarrow> char \<Rightarrow> scanner option" where
  "scan_exp_digit st c = (if dec_digit c then Some (Exp0, st) else None)"

text \<open>One byte.\<close>

fun scan_step :: "scanner \<Rightarrow> char \<Rightarrow> scanner option" where
  "scan_step (BeginValue, st) c = scan_begin st c"
| "scan_step (BeginValueOrEmpty, st) c =
     (if json_space c then Some (BeginValueOrEmpty, st)
      else if c = CHR '']'' then scan_end st c else scan_begin st c)"
| "scan_step (BeginString, st) c = scan_begin_string st c"
| "scan_step (BeginStringOrEmpty, st) c =
     (if json_space c then Some (BeginStringOrEmpty, st)
      else if c = CHR ''}'' then scan_end (ParseObjectValue # tl st) c
      else scan_begin_string st c)"
| "scan_step (EndValue, st) c = scan_end st c"
| "scan_step (EndTop, st) c = (if json_space c then Some (EndTop, st) else None)"
| "scan_step (InString, st) c =
     (if c = CHR 0x22 then Some (EndValue, st)
      else if c = CHR 0x5C then Some (InStringEsc, st)
      else if c < CHR 0x20 then None
      else Some (InString, st))"
| "scan_step (InStringEsc, st) c =
     (if c \<in> set [CHR ''b'', CHR ''f'', CHR ''n'', CHR ''r'', CHR ''t'', CHR 0x5C, CHR ''/'', CHR 0x22]
      then Some (InString, st)
      else if c = CHR ''u'' then Some (InStringEscU 3, st) else None)"
| "scan_step (InStringEscU n, st) c =
     (if hex_digit c then Some (case n of 0 \<Rightarrow> InString | Suc k \<Rightarrow> InStringEscU k, st) else None)"
| "scan_step (Neg, st) c =
     (if c = CHR ''0'' then Some (Digits0, st) else if dec_digit c then Some (Digits1, st) else None)"
| "scan_step (Digits1, st) c = (if dec_digit c then Some (Digits1, st) else scan_after_int st c)"
| "scan_step (Digits0, st) c = scan_after_int st c"
| "scan_step (Dot, st) c = (if dec_digit c then Some (Dot0, st) else None)"
| "scan_step (Dot0, st) c =
     (if dec_digit c then Some (Dot0, st)
      else if c = CHR ''e'' \<or> c = CHR ''E'' then Some (Exp, st) else scan_end st c)"
| "scan_step (Exp, st) c =
     (if c = CHR ''+'' \<or> c = CHR ''-'' then Some (ExpSign, st) else scan_exp_digit st c)"
| "scan_step (ExpSign, st) c = scan_exp_digit st c"
| "scan_step (Exp0, st) c = (if dec_digit c then Some (Exp0, st) else scan_end st c)"
| "scan_step (InLiteral w, st) c =
     (case w of
        [] \<Rightarrow> None
      | a # r \<Rightarrow> if c = a then Some (if r = [] then EndValue else InLiteral r, st) else None)"

fun scan_bytes :: "string \<Rightarrow> scanner \<Rightarrow> scanner option" where
  "scan_bytes [] s = Some s"
| "scan_bytes (c # cs) s = (case scan_step s c of None \<Rightarrow> None | Some s' \<Rightarrow> scan_bytes cs s')"

text \<open>At the end of the input one more space closes a number; the value must then be complete.\<close>

definition json_valid :: "string \<Rightarrow> bool" where
  "json_valid data = (case scan_bytes (data @ '' '') (BeginValue, []) of
      Some (EndTop, _) \<Rightarrow> True
    | _ \<Rightarrow> False)"

lemma json_valid_examples:
  "json_valid ''{}''" "json_valid ''[1,-2.5e+3,true,null]''" "\<not> json_valid ''[1,]''" "\<not> json_valid ''01''" "\<not> json_valid []"
  by (code_simp)+

lemma json_valid_nonempty: "json_valid d \<Longrightarrow> d \<noteq> []"
  by (cases d) (auto simp: json_valid_def json_space_def scan_begin_def)

end
