(* ===== verification/Bridge.thy ===== *)
theory Bridge
  imports AccessTokens JsonScan
begin

text \<open>
  The debugging bridge: \<open>internal/usecase/bridge/usecase.go\<close> with \<open>entities/bridge.go\<close>. The use case
  owns three maps (participants, sessions, pending commands) under one lock; it sends messages through a
  delivery whose answer is a parameter, and every call of the delivery is recorded in \<open>br_out\<close>. A
  critical section is one function on the state. The clock, the random session identifier, the repositories
  and the order in which Go ranges over a map are the fields of \<open>bridge_env\<close>; one critical section reads
  one instant. \<open>pt_ref\<close> is the address of a participant, which \<open>Check\<close> compares.
\<close>

section \<open>Data\<close>

definition requestTTL :: time where "requestTTL = 45 * second_ns"
definition sessionTTL :: time where "sessionTTL = 30 * 60 * second_ns"
definition maxEventBytes :: nat where "maxEventBytes = 1048576"
definition maxInspectionBytes :: nat where "maxInspectionBytes = 15728640"
definition maxCommandBytes :: nat where "maxCommandBytes = 65536"

text \<open>The data of a message: bytes taken from a received message, or what \<open>json.Marshal\<close> prints for a
  value of the server.\<close>

datatype payload = Raw string | Marshalled json

record bridge_message =
  bm_type :: string
  bm_id :: string
  bm_sessionID :: string
  bm_targetID :: string
  bm_identity :: string
  bm_expectedHash :: string
  bm_accepted :: bool
  bm_data :: payload
  bm_error :: string

definition empty_message :: bridge_message where
  "empty_message = \<lparr>bm_type = [], bm_id = [], bm_sessionID = [], bm_targetID = [], bm_identity = [],
     bm_expectedHash = [], bm_accepted = False, bm_data = Raw [], bm_error = []\<rparr>"

record bridge_hello =
  bh_allWorkspaces :: bool
  bh_protocol :: int
  bh_workspaceIdentity :: string
  bh_label :: string
  bh_debug :: bool

text \<open>A zero \<open>time.Time\<close> is \<open>None\<close>.\<close>

record bridge_principal =
  bp_userID :: id
  bp_sessionID :: string
  bp_expiresAt :: "time option"

record bridge_session =
  bs_sessionID :: string
  bs_clientID :: id
  bs_configuratorID :: id

record ws_grant =
  wg_role :: string
  wg_displayName :: string

record participant =
  pt_ref :: nat
  pt_allWorkspaces :: bool
  pt_workspaces :: "(string \<times> ws_grant) list"
  pt_id :: id
  pt_role :: string
  pt_workspace :: string
  pt_label :: string
  pt_workspaceDisplayName :: string
  pt_principal :: bridge_principal
  pt_actor :: actor
  pt_debug :: bool
  pt_accessRole :: string
  pt_lastRequest :: "time option"

record session = bridge_session +
  se_workspace :: string
  se_requestID :: string
  se_active :: bool
  se_deadline :: time

record pending_command =
  pc_sessionID :: string
  pc_requestID :: string
  pc_deadline :: time

datatype delivery = Sent id bridge_message bool | Closed id

record bridge =
  br_debugEnabled :: bool
  br_peers :: "(id \<times> participant) list"
  br_sessions :: "(string \<times> session) list"
  br_commands :: "(string \<times> pending_command) list"
  br_out :: "delivery list"
  br_allocs :: nat

definition NewUseCase :: "bool \<Rightarrow> bridge" where
  "NewUseCase debugEnabled = \<lparr>br_debugEnabled = debugEnabled, br_peers = [], br_sessions = [],
     br_commands = [], br_out = [], br_allocs = 0\<rparr>"

record bridge_env =
  be_now :: time
  be_uuid :: string
  be_order :: "string list \<Rightarrow> string list"
  be_send :: "delivery list \<Rightarrow> id \<Rightarrow> bridge_message \<Rightarrow> bool"
  be_BridgeUser :: "id \<Rightarrow> string \<Rightarrow> actor res"
  be_IsPlatformAdmin :: "id \<Rightarrow> bool res"
  be_ListWorkspaces :: "id \<Rightarrow> bool \<Rightarrow> workspace list res"
  be_GetWorkspace :: "string \<Rightarrow> workspace option res"
  be_WorkspaceRole :: "id \<Rightarrow> id \<Rightarrow> bool \<Rightarrow> string res"

text \<open>A loop over a Go map visits the keys the map had at its start, in some order.\<close>

definition loop_keys :: "bridge_env \<Rightarrow> (string \<times> 'v) list \<Rightarrow> string list" where
  "loop_keys env m = be_order env (map fst m)"

definition order_ok :: "bridge_env \<Rightarrow> bool" where
  "order_ok env \<longleftrightarrow> (\<forall>ks. set (be_order env ks) = set ks)"

section \<open>Sending\<close>

definition deliver :: "bridge_env \<Rightarrow> id \<Rightarrow> bridge_message \<Rightarrow> bridge \<Rightarrow> bool \<times> bridge" where
  "deliver env i m st =
     (let ok = be_send env (br_out st) i m in (ok, st\<lparr>br_out := br_out st @ [Sent i m ok]\<rparr>))"

definition close_peer :: "id \<Rightarrow> bridge \<Rightarrow> bridge" where
  "close_peer i st = st\<lparr>br_out := br_out st @ [Closed i]\<rparr>"

definition send_kind :: "bridge_env \<Rightarrow> id \<Rightarrow> string \<Rightarrow> json \<Rightarrow> bridge \<Rightarrow> bridge" where
  "send_kind env i kind data st = snd (deliver env i (empty_message\<lparr>bm_type := kind, bm_data := Marshalled data\<rparr>) st)"

definition send_result :: "bridge_env \<Rightarrow> id \<Rightarrow> string \<Rightarrow> json \<Rightarrow> string \<Rightarrow> bridge \<Rightarrow> bridge" where
  "send_result env i requestID data reason st =
     snd (deliver env i (empty_message\<lparr>bm_type := ''result'', bm_id := requestID, bm_data := Marshalled data,
       bm_error := reason\<rparr>) st)"

text \<open>The JSON object of a session.\<close>

definition session_json :: "session \<Rightarrow> json" where
  "session_json s = JObj [(''clientId'', JStr (bs_clientID s)), (''configuratorId'', JStr (bs_configuratorID s)),
     (''sessionId'', JStr (bs_sessionID s))]"

section \<open>Access\<close>

text \<open>\<open>canDebug\<close> reads the map of grants, where a missing key has the empty role.\<close>

definition grant_role :: "participant \<Rightarrow> string \<Rightarrow> string" where
  "grant_role p w = (case oget (pt_workspaces p) w of None \<Rightarrow> [] | Some g \<Rightarrow> wg_role g)"

definition grant_name :: "participant \<Rightarrow> string \<Rightarrow> string" where
  "grant_name p w = (case oget (pt_workspaces p) w of None \<Rightarrow> [] | Some g \<Rightarrow> wg_displayName g)"

definition canDebug :: "participant \<Rightarrow> string \<Rightarrow> bool" where
  "canDebug p w \<longleftrightarrow> pt_debug p \<and> pt_role p = ''configurator'' \<and> CanWrite (grant_role p w)"

definition replace_err :: "string \<Rightarrow> 'a res \<Rightarrow> 'a res" where
  "replace_err msg m = (case m of Inl _ \<Rightarrow> Inl (Plain msg) | Inr x \<Rightarrow> Inr x)"

definition time_after :: "time option \<Rightarrow> time \<Rightarrow> bool" where
  "time_after t now = (case t of None \<Rightarrow> False | Some x \<Rightarrow> now < x)"

definition grant_step ::
    "bridge_env \<Rightarrow> actor \<Rightarrow> bool \<Rightarrow> workspace \<Rightarrow> (string \<times> ws_grant) list \<Rightarrow> (string \<times> ws_grant) list res" where
  "grant_step env who platform w permissions =
     (if \<not> w_active w \<or> w_deletedAt w \<noteq> None then Inr permissions
      else bindE (replace_err ''Workspace access check failed'' (be_WorkspaceRole env (w_id w) (ac_id who) platform)) (\<lambda>role.
        if role = ''viewer'' \<or> CanWrite role then
          let g = \<lparr>wg_role = role, wg_displayName = w_displayName w\<rparr>
          in Inr (oput (w_id w) g (oput (w_identity w) g permissions))
        else Inr permissions))"

definition candidates :: "bridge_env \<Rightarrow> actor \<Rightarrow> bool \<Rightarrow> participant \<Rightarrow> workspace list res" where
  "candidates env who platform p =
     (if pt_allWorkspaces p
      then replace_err ''Workspace access check failed'' (be_ListWorkspaces env (ac_id who) platform)
      else (case be_GetWorkspace env (pt_workspace p) of
          Inr (Some w) \<Rightarrow> if w_active w then Inr [w] else Inl (Plain ''Workspace is not available'')
        | _ \<Rightarrow> Inl (Plain ''Workspace is not available'')))"

type_synonym projection = "actor \<times> string \<times> string \<times> (string \<times> ws_grant) list"

definition authorize :: "bridge_env \<Rightarrow> participant \<Rightarrow> projection res" where
  "authorize env p =
     failIf (bp_userID (pt_principal p) = [] \<or> \<not> time_after (bp_expiresAt (pt_principal p)) (be_now env))
       (Plain ''Authentication expired'') (
     bindE (replace_err ''Authentication is not valid''
       (be_BridgeUser env (bp_userID (pt_principal p)) (bp_sessionID (pt_principal p)))) (\<lambda>who.
     bindE (replace_err ''Access check failed'' (be_IsPlatformAdmin env (ac_id who))) (\<lambda>platform.
     bindE (candidates env who platform p) (\<lambda>ws.
     bindE (foldE (grant_step env who platform) ws []) (\<lambda>permissions.
     let selected = (case oget permissions (pt_workspace p) of
           None \<Rightarrow> \<lparr>wg_role = [], wg_displayName = []\<rparr> | Some g \<Rightarrow> g) in
     failIf (\<not> pt_allWorkspaces p \<and> wg_role selected = []) (Plain ''Workspace access denied'') (
     Inr (who, wg_role selected, wg_displayName selected, permissions)))))))"

section \<open>Presence\<close>

record bridge_client =
  bc_workspaceIdentity :: string
  bc_workspaceDisplayName :: string
  bc_instanceID :: id
  bc_label :: string

definition configurator_json :: "participant \<Rightarrow> json" where
  "configurator_json p = JObj [(''displayName'', JStr (ac_displayName (pt_actor p))), (''instanceId'', JStr (pt_id p)),
     (''label'', JStr (pt_label p)), (''userId'', JStr (ac_id (pt_actor p))),
     (''workspaceDisplayName'', JStr (pt_workspaceDisplayName p))]"

definition client_json :: "bridge_client \<Rightarrow> json" where
  "client_json c = JObj [(''instanceId'', JStr (bc_instanceID c)), (''label'', JStr (bc_label c)),
     (''workspaceDisplayName'', JStr (bc_workspaceDisplayName c)), (''workspaceIdentity'', JStr (bc_workspaceIdentity c))]"

definition peer_list :: "bridge_env \<Rightarrow> bridge \<Rightarrow> participant list" where
  "peer_list env st = map (\<lambda>k. the (oget (br_peers st) k)) (loop_keys env (br_peers st))"

definition configurators :: "bridge_env \<Rightarrow> bridge \<Rightarrow> participant list" where
  "configurators env st = sort_key pt_id (filter (\<lambda>p. pt_role p = ''configurator'') (peer_list env st))"

definition clients :: "bridge_env \<Rightarrow> bridge \<Rightarrow> bridge_client list" where
  "clients env st = sort_key bc_instanceID
     (map (\<lambda>p. \<lparr>bc_workspaceIdentity = pt_workspace p, bc_workspaceDisplayName = [],
        bc_instanceID = pt_id p, bc_label = pt_label p\<rparr>)
       (filter (\<lambda>p. pt_role p \<noteq> ''configurator'' \<and> pt_debug p) (peer_list env st)))"

definition visible_clients :: "participant \<Rightarrow> bridge_client list \<Rightarrow> bridge_client list" where
  "visible_clients p cs =
     map (\<lambda>c. c\<lparr>bc_workspaceDisplayName := grant_name p (bc_workspaceIdentity c)\<rparr>)
       (filter (\<lambda>c. canDebug p (bc_workspaceIdentity c)) cs)"

definition broadcast_to ::
    "bridge_env \<Rightarrow> string \<Rightarrow> participant list \<Rightarrow> bridge_client list \<Rightarrow> participant \<Rightarrow> bridge \<Rightarrow> bridge" where
  "broadcast_to env workspace cfgs cs p st =
     (if pt_role p \<noteq> ''configurator'' then st
      else let st1 = send_kind env (pt_id p) ''configurators'' (JArr (map configurator_json cfgs)) st in
        if \<not> pt_allWorkspaces p \<and> pt_workspace p \<noteq> workspace then st1
        else send_kind env (pt_id p) ''clients'' (JArr (map client_json (visible_clients p cs))) st1)"

definition broadcast :: "bridge_env \<Rightarrow> string \<Rightarrow> bridge \<Rightarrow> bridge" where
  "broadcast env workspace st =
     fold (broadcast_to env workspace (configurators env st) (clients env st)) (peer_list env st) st"

section \<open>Ending sessions\<close>

definition drop_command :: "bridge_env \<Rightarrow> id \<Rightarrow> string \<Rightarrow> string \<Rightarrow> string \<Rightarrow> bridge \<Rightarrow> bridge" where
  "drop_command env configuratorID sid reason cid st = (case oget (br_commands st) cid of
      None \<Rightarrow> st
    | Some c \<Rightarrow>
        if pc_sessionID c = sid
        then (send_result env configuratorID (pc_requestID c) JNull reason st)\<lparr>br_commands := odel cid (br_commands st)\<rparr>
        else st)"

definition end_session :: "bridge_env \<Rightarrow> string \<Rightarrow> string \<Rightarrow> bridge \<Rightarrow> bridge" where
  "end_session env sid reason st = (case oget (br_sessions st) sid of
      None \<Rightarrow> st
    | Some s \<Rightarrow>
        let st1 = st\<lparr>br_sessions := odel sid (br_sessions st)\<rparr>;
            st2 = (if \<not> se_active s then send_result env (bs_configuratorID s) (se_requestID s) JNull reason st1 else st1);
            st3 = fold (drop_command env (bs_configuratorID s) sid reason) (loop_keys env (br_commands st2)) st2;
            m = empty_message\<lparr>bm_type := ''sessionEnded'', bm_sessionID := sid\<rparr>;
            st4 = snd (deliver env (bs_clientID s) m st3)
        in snd (deliver env (bs_configuratorID s) m st4))"

text \<open>The bodies of the loops over the sessions: end the visited session when a test holds.\<close>

definition end_if :: "bridge_env \<Rightarrow> (session \<Rightarrow> bool) \<Rightarrow> string \<Rightarrow> string \<Rightarrow> bridge \<Rightarrow> bridge" where
  "end_if env test reason sid st = (case oget (br_sessions st) sid of
      None \<Rightarrow> st
    | Some s \<Rightarrow> if test s then end_session env sid reason st else st)"

definition end_all :: "bridge_env \<Rightarrow> (session \<Rightarrow> bool) \<Rightarrow> string \<Rightarrow> bridge \<Rightarrow> bridge" where
  "end_all env test reason st = fold (end_if env test reason) (loop_keys env (br_sessions st)) st"

definition expire_command :: "bridge_env \<Rightarrow> string \<Rightarrow> bridge \<Rightarrow> bridge" where
  "expire_command env cid st = (case oget (br_commands st) cid of
      None \<Rightarrow> st
    | Some c \<Rightarrow>
        if \<not> be_now env < pc_deadline c then
          let st1 = (case oget (br_sessions st) (pc_sessionID c) of
                None \<Rightarrow> st
              | Some s \<Rightarrow> send_result env (bs_configuratorID s) (pc_requestID c) JNull ''Client command timed out'' st)
          in st1\<lparr>br_commands := odel cid (br_commands st1)\<rparr>
        else st)"

definition expire :: "bridge_env \<Rightarrow> bridge \<Rightarrow> bridge" where
  "expire env st =
     (let st1 = end_all env (\<lambda>s. \<not> be_now env < se_deadline s) ''Session expired'' st
      in fold (expire_command env) (loop_keys env (br_commands st1)) st1)"

section \<open>Joining and checking\<close>

text \<open>The part of \<open>Join\<close> before the lock: validation of the greeting and the first authorization.\<close>

definition Join_candidate ::
    "bridge_env \<Rightarrow> bool \<Rightarrow> id \<Rightarrow> string \<Rightarrow> bridge_principal \<Rightarrow> bridge_hello \<Rightarrow> participant res" where
  "Join_candidate env debugEnabled i role bpr hello =
     failIf (bh_protocol hello \<noteq> 1
         \<or> (length (bh_workspaceIdentity hello) = 0
              \<and> \<not> (role = ''configurator'' \<and> bh_debug hello \<and> bh_allWorkspaces hello))
         \<or> length (bh_workspaceIdentity hello) > 160 \<or> length (bh_label hello) > 160
         \<or> (role \<noteq> ''client'' \<and> role \<noteq> ''configurator''))
       (Plain ''Invalid bridge registration'') (
     failIf (bh_allWorkspaces hello \<and> (role \<noteq> ''configurator'' \<or> \<not> bh_debug hello))
       (Plain ''Invalid discovery scope'') (
     failIf (role = ''client'' \<and> (\<not> debugEnabled \<or> \<not> bh_debug hello)) (Plain ''Client debug is disabled'') (
     let p = \<lparr>pt_ref = 0, pt_allWorkspaces = bh_allWorkspaces hello, pt_workspaces = [], pt_id = i, pt_role = role,
           pt_workspace = bh_workspaceIdentity hello, pt_label = bh_label hello, pt_workspaceDisplayName = [],
           pt_principal = bpr, pt_actor = \<lparr>ac_id = [], ac_username = [], ac_displayName = []\<rparr>,
           pt_debug = (bh_debug hello \<and> debugEnabled), pt_accessRole = [], pt_lastRequest = None\<rparr> in
     if role = ''configurator'' then
       let p1 = (if bp_expiresAt (pt_principal p) = None
             then p\<lparr>pt_principal := (pt_principal p)\<lparr>bp_expiresAt := Some (be_now env + sessionTTL)\<rparr>\<rparr> else p) in
       bindE (authorize env p1) (\<lambda>(who, accessRole, workspaceName, workspaces).
       Inr (p1\<lparr>pt_actor := who, pt_accessRole := accessRole, pt_workspaceDisplayName := workspaceName,
         pt_workspaces := workspaces\<rparr>))
     else Inr p)))"

definition same_room :: "participant \<Rightarrow> participant \<Rightarrow> bool" where
  "same_room p other \<longleftrightarrow> pt_role other = pt_role p
     \<and> ((\<not> pt_allWorkspaces p \<and> pt_workspace other = pt_workspace p)
       \<or> (pt_allWorkspaces p \<and> bp_userID (pt_principal other) = bp_userID (pt_principal p)))"

definition room_count :: "participant \<Rightarrow> bridge \<Rightarrow> nat" where
  "room_count p st = length (filter (same_room p) (map snd (br_peers st)))"

text \<open>The part under the lock. The stored participant gets a fresh address.\<close>

definition Join_register :: "bridge_env \<Rightarrow> participant \<Rightarrow> bridge \<Rightarrow> unit res \<times> bridge" where
  "Join_register env p st =
     (if oget (br_peers st) (pt_id p) \<noteq> None then (Inl (Plain ''Already registered''), st)
      else if room_count p st \<ge> 64 then (Inl (Plain ''Workspace connection limit reached''), st)
      else
        let st1 = st\<lparr>br_peers := oput (pt_id p) (p\<lparr>pt_ref := br_allocs st\<rparr>) (br_peers st), br_allocs := br_allocs st + 1\<rparr>;
            st2 = send_kind env (pt_id p) ''welcome'' (JObj [(''instanceId'', JStr (pt_id p)), (''protocol'', JInt 1)]) st1
        in (Inr (), broadcast env (pt_workspace p) st2))"

definition Join :: "bridge_env \<Rightarrow> id \<Rightarrow> string \<Rightarrow> bridge_principal \<Rightarrow> bridge_hello \<Rightarrow> bridge \<Rightarrow> unit res \<times> bridge" where
  "Join env i role bpr hello st = (case Join_candidate env (br_debugEnabled st) i role bpr hello of
      Inl e \<Rightarrow> (Inl e, st)
    | Inr p \<Rightarrow> Join_register env p st)"

text \<open>The second critical section of \<open>Check\<close>: \<open>ref\<close> is the address read in the first one, and the
  projection was computed without the lock.\<close>

definition Check_commit :: "bridge_env \<Rightarrow> id \<Rightarrow> nat \<Rightarrow> projection \<Rightarrow> bridge \<Rightarrow> bool \<times> bridge" where
  "Check_commit env i ref a st = (case oget (br_peers st) i of
      None \<Rightarrow> (False, st)
    | Some p \<Rightarrow>
        if pt_ref p \<noteq> ref then (False, st)
        else
          let (who, role, workspaceName, workspaces) = a;
              changed = (pt_accessRole p \<noteq> role \<or> pt_actor p \<noteq> who \<or> pt_workspaceDisplayName p \<noteq> workspaceName
                \<or> pt_workspaces p \<noteq> workspaces);
              p1 = p\<lparr>pt_actor := who, pt_accessRole := role, pt_workspaceDisplayName := workspaceName,
                pt_workspaces := workspaces\<rparr>;
              st1 = st\<lparr>br_peers := oput i p1 (br_peers st)\<rparr>;
              st2 = end_all env (\<lambda>s. bs_configuratorID s = i \<and> \<not> canDebug p1 (se_workspace s)) ''Debug access revoked'' st1
          in (True, if changed then broadcast env (pt_workspace p1) st2 else st2))"

definition Check :: "bridge_env \<Rightarrow> id \<Rightarrow> bridge \<Rightarrow> bool \<times> bridge" where
  "Check env i st = (case oget (br_peers st) i of
      None \<Rightarrow> (False, st)
    | Some p \<Rightarrow>
        if pt_role p = ''client'' then (True, st)
        else (case authorize env p of
            Inl _ \<Rightarrow> (False, st)
          | Inr a \<Rightarrow> Check_commit env i (pt_ref p) a st))"

section \<open>Leaving and sweeping\<close>

definition Leave :: "bridge_env \<Rightarrow> id \<Rightarrow> bridge \<Rightarrow> bridge" where
  "Leave env i st = (case oget (br_peers st) i of
      None \<Rightarrow> st
    | Some p \<Rightarrow>
        let st1 = st\<lparr>br_peers := odel i (br_peers st)\<rparr>;
            st2 = end_all env (\<lambda>s. bs_clientID s = i \<or> bs_configuratorID s = i) ''Connection closed'' st1
        in broadcast env (pt_workspace p) st2)"

definition Sweep :: "bridge_env \<Rightarrow> bridge \<Rightarrow> bridge" where
  "Sweep env st = expire env st"

section \<open>Messages\<close>

definition requestSession :: "bridge_env \<Rightarrow> id \<Rightarrow> participant \<Rightarrow> bridge_message \<Rightarrow> bridge \<Rightarrow> unit res \<times> bridge" where
  "requestSession env i p m st =
     (if \<not> pt_debug p \<or> pt_role p \<noteq> ''configurator'' \<or> bm_id m = [] then (Inl (Plain ''Debug access denied''), st)
      else case oget (br_peers st) (bm_targetID m) of
        None \<Rightarrow> (Inl (Plain ''Client is not available''), st)
      | Some target \<Rightarrow>
          if pt_role target \<noteq> ''client'' \<or> \<not> pt_debug target \<or> \<not> canDebug p (pt_workspace target)
          then (Inl (Plain ''Client is not available''), st)
          else if (case pt_lastRequest p of None \<Rightarrow> False | Some t \<Rightarrow> be_now env - t < 5 * second_ns)
          then (Inl (Plain ''Please wait before requesting another session''), st)
          else if list_ex (\<lambda>s. bs_clientID s = pt_id target) (map snd (br_sessions st))
          then (Inl (Plain ''Client is busy''), st)
          else
            let s = \<lparr>bs_sessionID = be_uuid env, bs_clientID = pt_id target, bs_configuratorID = pt_id p,
                  se_workspace = pt_workspace target, se_requestID = bm_id m, se_active = False,
                  se_deadline = be_now env + requestTTL\<rparr>;
                st1 = st\<lparr>br_peers := oput i (p\<lparr>pt_lastRequest := Some (be_now env)\<rparr>) (br_peers st),
                  br_sessions := oput (bs_sessionID s) s (br_sessions st)\<rparr>
            in (Inr (), send_kind env (pt_id target) ''sessionRequested''
                 (JObj [(''displayName'', JStr (ac_displayName (pt_actor p))),
                    (''expiresAt'', JInt (se_deadline s div 1000000)), (''sessionId'', JStr (bs_sessionID s)),
                    (''workspaceIdentity'', JStr (pt_workspace target))]) st1))"

definition acceptSession :: "bridge_env \<Rightarrow> participant \<Rightarrow> bridge_message \<Rightarrow> bridge \<Rightarrow> unit res \<times> bridge" where
  "acceptSession env p m st = (case oget (br_sessions st) (bm_sessionID m) of
      None \<Rightarrow> (Inl (Plain ''Session request is not pending''), st)
    | Some s \<Rightarrow>
        if se_active s \<or> bs_clientID s \<noteq> pt_id p \<or> pt_role p \<noteq> ''client''
        then (Inl (Plain ''Session request is not pending''), st)
        else if \<not> bm_accepted m
        then (Inr (), end_session env (bs_sessionID s) ''Client declined the connection'' st)
        else
          let s1 = s\<lparr>se_active := True, se_deadline := be_now env + sessionTTL\<rparr>;
              st1 = st\<lparr>br_sessions := oput (bm_sessionID m) s1 (br_sessions st)\<rparr>;
              st2 = send_kind env (bs_clientID s) ''sessionStarted'' (session_json s1) st1
          in (Inr (), send_result env (bs_configuratorID s) (se_requestID s) (session_json s1) [] st2))"

definition endSession :: "bridge_env \<Rightarrow> id \<Rightarrow> bridge_message \<Rightarrow> bridge \<Rightarrow> unit res \<times> bridge" where
  "endSession env i m st = (case oget (br_sessions st) (bm_sessionID m) of
      None \<Rightarrow> (Inl (Plain ''Session is not available''), st)
    | Some s \<Rightarrow>
        if bs_clientID s \<noteq> i \<and> bs_configuratorID s \<noteq> i then (Inl (Plain ''Session is not available''), st)
        else (Inr (), send_result env i (bm_id m) JNull [] (end_session env (bm_sessionID m) ''Session ended'' st)))"

text \<open>The pattern \<open>^[a-f0-9]{64}$\<close>.\<close>

definition hashPattern :: "string \<Rightarrow> bool" where
  "hashPattern h \<longleftrightarrow> length h = 64
     \<and> list_all (\<lambda>c. CHR ''a'' \<le> c \<and> c \<le> CHR ''f'' \<or> CHR ''0'' \<le> c \<and> c \<le> CHR ''9'') h"

text \<open>A received message carries raw bytes; \<open>len(m.Data) == 0 || len(m.Data) > limit || !json.Valid(m.Data)\<close>.\<close>

definition bad_payload :: "nat \<Rightarrow> payload \<Rightarrow> bool" where
  "bad_payload limit d = (case d of
      Raw b \<Rightarrow> length b = 0 \<or> length b > limit \<or> \<not> json_valid b
    | Marshalled _ \<Rightarrow> False)"

definition pending_count :: "string \<Rightarrow> bridge \<Rightarrow> nat" where
  "pending_count sid st = length (filter (\<lambda>c. pc_sessionID c = sid) (map snd (br_commands st)))"

definition requestCommand :: "bridge_env \<Rightarrow> participant \<Rightarrow> bridge_message \<Rightarrow> bridge \<Rightarrow> unit res \<times> bridge" where
  "requestCommand env p m st = (case oget (br_sessions st) (bm_sessionID m) of
      None \<Rightarrow> (Inl (Plain ''Debug session is not available''), st)
    | Some s \<Rightarrow>
        if \<not> pt_debug p \<or> \<not> canDebug p (se_workspace s) \<or> \<not> se_active s \<or> bs_configuratorID s \<noteq> pt_id p \<or> bm_id m = []
        then (Inl (Plain ''Debug session is not available''), st)
        else if bm_type m = ''runSimulation'' \<and> (trim_space (bm_identity m) = [] \<or> \<not> hashPattern (bm_expectedHash m))
        then (Inl (Plain ''Simulation identity and SHA-256 are required''), st)
        else if (bm_type m = ''executeCommand'' \<or> bm_type m = ''setInspectionOptions'') \<and> bad_payload maxCommandBytes (bm_data m)
        then (Inl (Plain ''Invalid command payload''), st)
        else if pending_count (bs_sessionID s) st \<ge> 8 then (Inl (Plain ''Pending command limit reached''), st)
        else
          let st1 = st\<lparr>br_commands := oput (be_uuid env)
                \<lparr>pc_sessionID = bs_sessionID s, pc_requestID = bm_id m, pc_deadline = be_now env + requestTTL\<rparr> (br_commands st)\<rparr>;
              m1 = m\<lparr>bm_id := be_uuid env,
                bm_data := (if bm_type m \<noteq> ''executeCommand'' \<and> bm_type m \<noteq> ''setInspectionOptions''
                    \<and> bm_type m \<noteq> ''refreshInspection'' then Raw [] else bm_data m),
                bm_error := []\<rparr>;
              (ok, st2) = deliver env (bs_clientID s) m1 st1
          in (Inr (), if \<not> ok then end_session env (bs_sessionID s) ''Client is unavailable'' st2 else st2))"

definition forwardClientEvent :: "bridge_env \<Rightarrow> participant \<Rightarrow> bridge_message \<Rightarrow> bridge \<Rightarrow> unit res \<times> bridge" where
  "forwardClientEvent env p m st = (case oget (br_sessions st) (bm_sessionID m) of
      None \<Rightarrow> (Inl (Plain ''Event session is not available''), st)
    | Some s \<Rightarrow>
        if pt_role p \<noteq> ''client'' \<or> \<not> pt_debug p \<or> \<not> se_active s \<or> bs_clientID s \<noteq> pt_id p
        then (Inl (Plain ''Event session is not available''), st)
        else if bad_payload (if bm_type m = ''inspectionSnapshot'' \<or> bm_type m = ''inspectionChunk''
            then maxInspectionBytes else maxEventBytes) (bm_data m)
        then (Inl (Plain ''Invalid event payload''), st)
        else
          let (ok, st1) = deliver env (bs_configuratorID s)
                (empty_message\<lparr>bm_type := bm_type m, bm_sessionID := bs_sessionID s, bm_data := bm_data m\<rparr>) st
          in (Inr (), if \<not> ok then end_session env (bs_sessionID s) ''Configurator is unavailable'' st1 else st1))"

definition commandResult :: "bridge_env \<Rightarrow> id \<Rightarrow> bridge_message \<Rightarrow> bridge \<Rightarrow> unit res \<times> bridge" where
  "commandResult env i m st = (case (oget (br_sessions st) (bm_sessionID m), oget (br_commands st) (bm_id m)) of
      (Some s, Some pending) \<Rightarrow>
        if \<not> se_active s \<or> bs_clientID s \<noteq> i \<or> pc_sessionID pending \<noteq> bs_sessionID s
        then (Inl (Plain ''Command is not pending''), st)
        else (Inr (), snd (deliver env (bs_configuratorID s)
          (empty_message\<lparr>bm_type := ''result'', bm_id := pc_requestID pending, bm_data := bm_data m, bm_error := bm_error m\<rparr>)
          (st\<lparr>br_commands := odel (bm_id m) (br_commands st)\<rparr>)))
    | _ \<Rightarrow> (Inl (Plain ''Command is not pending''), st))"

section \<open>Handling a message\<close>

definition command_types :: "string list" where
  "command_types = [''getSnapshot'', ''startContextSync'', ''executeCommand'', ''runSimulation'', ''refreshInspection'',
     ''setInspectionOptions'']"

definition event_types :: "string list" where
  "event_types = [''clientEvent'', ''inspectionSnapshot'', ''inspectionChunk'']"

text \<open>The last critical section of \<open>Handle\<close>.\<close>

definition Handle_dispatch :: "bridge_env \<Rightarrow> id \<Rightarrow> bridge_message \<Rightarrow> bridge \<Rightarrow> unit res \<times> bridge" where
  "Handle_dispatch env i m st = (case oget (br_peers st) i of
      None \<Rightarrow> (Inl (Plain ''Connection is not registered''), st)
    | Some p \<Rightarrow>
        let st1 = expire env st in
        if bm_type m = ''requestSession'' then requestSession env i p m st1
        else if bm_type m = ''acceptSession'' then acceptSession env p m st1
        else if bm_type m = ''endSession'' then endSession env i m st1
        else if bm_type m \<in> set command_types then requestCommand env p m st1
        else if bm_type m \<in> set event_types then forwardClientEvent env p m st1
        else if bm_type m = ''commandResult'' then commandResult env i m st1
        else (Inl (Plain ''Unsupported bridge operation''), st1))"

text \<open>A late response of a client re-checks the identity that controls the session.\<close>

definition recheck_controller :: "bridge_env \<Rightarrow> bridge_message \<Rightarrow> bridge \<Rightarrow> bridge" where
  "recheck_controller env m st =
     (if bm_type m \<in> set ([''acceptSession'', ''commandResult''] @ event_types) then
        let controller = (case oget (br_sessions st) (bm_sessionID m) of None \<Rightarrow> [] | Some s \<Rightarrow> bs_configuratorID s) in
        if controller = [] then st
        else let (ok, st1) = Check env controller st in
          if ok then st1 else close_peer controller (Leave env controller st1)
      else st)"

definition Handle :: "bridge_env \<Rightarrow> id \<Rightarrow> bridge_message \<Rightarrow> bridge \<Rightarrow> unit res \<times> bridge" where
  "Handle env i m st =
     (if length (bm_id m) > 80 \<or> length (bm_sessionID m) > 80 \<or> length (bm_targetID m) > 80
         \<or> length (bm_identity m) > 160 \<or> length (bm_error m) > 512
      then (Inl (Plain ''Invalid bridge message''), st)
      else let (ok, st1) = Check env i st in
        if \<not> ok then (Inl (Plain ''Authorization expired''), st1)
        else Handle_dispatch env i m (recheck_controller env m st1))"

end
