(* ===== verification/BridgeLaws.thy ===== *)
theory BridgeLaws
  imports Bridge
begin

text \<open>
  The laws of the bridge's registry. The loops over a Go map that remove visited entries share one contract
  (locale \<open>map_loop\<close>), which is interpreted on every such loop. \<open>bridge_inv\<close> is the invariant of the registry;
  each critical section of theory Bridge keeps it.
\<close>

section \<open>Loops that remove entries\<close>

lemma odel_absent [simp]: "oget m k = None \<Longrightarrow> odel k m = m"
  unfolding odel_def by (rule filter_True) (auto simp: oget_def map_of_eq_None_iff rev_image_eqI)

lemma filter_entry:
  assumes "distinct (map fst m)" "oget m k = Some v"
  shows "filter (\<lambda>(j, x). \<not> (j = k \<and> P x)) m = (if P v then odel k m else m)"
proof -
  have "\<And>x. (k, x) \<in> set m \<Longrightarrow> x = v"
    using assms by (auto simp: oget_def)
  then show ?thesis unfolding odel_def by (auto intro!: filter_cong simp: filter_id_conv)
qed

lemma oget_filter:
  "distinct (map fst m) \<Longrightarrow>
   oget (filter (\<lambda>(k, v). P k v) m) k = (case oget m k of Some v \<Rightarrow> if P k v then Some v else None | None \<Rightarrow> None)"
proof (induction m)
  case (Cons x m)
  obtain j v where x: "x = (j, v)" by (cases x)
  have "j \<notin> fst ` set m" using Cons.prems x by auto
  then have "oget m j = None" by (simp add: oget_def map_of_eq_None_iff)
  then show ?case using Cons x by (auto simp: oget_def split: option.splits)
qed simp

lemma owf_filter: "owf m \<Longrightarrow> owf (filter P m)"
  by (induction m) (auto simp: owf_Cons)

locale map_loop =
  fixes the_map :: "'s \<Rightarrow> (string \<times> 'v) list"
    and body :: "string \<Rightarrow> 's \<Rightarrow> 's"
    and gone :: "'v \<Rightarrow> bool"
  assumes body_map: "the_map (body k s) =
    (case oget (the_map s) k of None \<Rightarrow> the_map s | Some v \<Rightarrow> if gone v then odel k (the_map s) else the_map s)"
begin

lemma body_filter:
  assumes "distinct (map fst (the_map s))"
  shows "the_map (body k s) = filter (\<lambda>(j, v). \<not> (j = k \<and> gone v)) (the_map s)"
proof (cases "oget (the_map s) k")
  case None
  then have "\<And>v. (k, v) \<notin> set (the_map s)" by (force simp: oget_def map_of_eq_None_iff)
  then have "filter (\<lambda>(j, v). \<not> (j = k \<and> gone v)) (the_map s) = the_map s" by (auto simp: filter_id_conv)
  with None show ?thesis by (simp add: body_map)
next
  case (Some v)
  then show ?thesis unfolding filter_entry [OF assms Some] body_map by simp
qed

lemma loop_visited:
  "distinct (map fst (the_map s)) \<Longrightarrow>
   the_map (fold body ks s) = filter (\<lambda>(j, v). \<not> (j \<in> set ks \<and> gone v)) (the_map s)"
proof (induction ks arbitrary: s)
  case Nil
  have "filter (\<lambda>(j, v). True) (the_map s) = the_map s" by (simp add: case_prod_beta)
  then show ?case by simp
next
  case (Cons k ks)
  have d: "distinct (map fst (the_map (body k s)))"
    unfolding body_filter [OF Cons.prems] using Cons.prems by (simp add: distinct_map_filter)
  have "the_map (fold body (k # ks) s)
      = filter (\<lambda>(j, v). \<not> (j \<in> set ks \<and> gone v)) (filter (\<lambda>(j, v). \<not> (j = k \<and> gone v)) (the_map s))"
    using Cons.IH [OF d] body_filter [OF Cons.prems] by simp
  also have "\<dots> = filter (\<lambda>(j, v). \<not> (j \<in> set (k # ks) \<and> gone v)) (the_map s)"
    by (auto intro!: filter_cong)
  finally show ?case .
qed

text \<open>When every key is visited, exactly the entries that fail the test remain.\<close>

lemma loop_all:
  assumes "owf (the_map s)" "set (map fst (the_map s)) \<subseteq> set ks"
  shows "the_map (fold body ks s) = filter (\<lambda>(j, v). \<not> gone v) (the_map s)"
proof -
  have "distinct (map fst (the_map s))" using assms(1) by (rule owf_distinct)
  from loop_visited [OF this] show ?thesis
    using assms(2) by (auto intro!: filter_cong)
qed

end

text \<open>A loop whose body leaves an observation of the state alone.\<close>

locale framed_loop = map_loop the_map body gone
  for the_map :: "'s \<Rightarrow> (string \<times> 'v) list" and body :: "string \<Rightarrow> 's \<Rightarrow> 's" and gone :: "'v \<Rightarrow> bool" +
  fixes view :: "'s \<Rightarrow> 'w"
  assumes body_view: "view (body k s) = view s"
begin

lemma loop_view: "view (fold body ks s) = view s"
  by (induction ks arbitrary: s) (simp_all add: body_view)

end

section \<open>What sending leaves alone\<close>

definition core :: "bridge \<Rightarrow> bool \<times> (id \<times> participant) list \<times> (string \<times> session) list \<times> (string \<times> pending_command) list \<times> nat" where
  "core st = (br_debugEnabled st, br_peers st, br_sessions st, br_commands st, br_allocs st)"

lemma core_deliver [simp]: "core (snd (deliver env i m st)) = core st"
  by (simp add: core_def deliver_def Let_def)

lemma core_send_kind [simp]: "core (send_kind env i k d st) = core st"
  by (simp add: send_kind_def)

lemma core_send_result [simp]: "core (send_result env i q d r st) = core st"
  by (simp add: send_result_def)

lemma core_close_peer [simp]: "core (close_peer i st) = core st"
  by (simp add: core_def close_peer_def)

lemma core_broadcast_to [simp]: "core (broadcast_to env w cfgs cs p st) = core st"
  by (simp add: broadcast_to_def Let_def)

lemma core_fold_broadcast: "core (fold (broadcast_to env w cfgs cs) ps st) = core st"
  by (induction ps arbitrary: st) simp_all

lemma core_broadcast [simp]: "core (broadcast env w st) = core st"
  by (simp add: broadcast_def core_fold_broadcast)

lemma coreD:
  assumes "core st = core st'"
  shows "br_debugEnabled st = br_debugEnabled st'" "br_peers st = br_peers st'" "br_sessions st = br_sessions st'"
    "br_commands st = br_commands st'" "br_allocs st = br_allocs st'"
  using assms by (simp_all add: core_def)

lemmas send_fields [simp] =
  coreD [OF core_deliver] coreD [OF core_send_kind] coreD [OF core_send_result] coreD [OF core_close_peer]
  coreD [OF core_broadcast]

section \<open>Ending sessions\<close>

definition frame_of :: "bridge \<Rightarrow> bool \<times> (id \<times> participant) list \<times> nat" where
  "frame_of st = (br_debugEnabled st, br_peers st, br_allocs st)"

lemma frame_ofD:
  assumes "frame_of st = frame_of st'"
  shows "br_debugEnabled st = br_debugEnabled st'" "br_peers st = br_peers st'" "br_allocs st = br_allocs st'"
  using assms by (simp_all add: frame_of_def)

interpretation drops: framed_loop br_commands "drop_command env c sid r" "\<lambda>x. pc_sessionID x = sid"
    "\<lambda>st. (br_sessions st, frame_of st)" for env c sid r
  by unfold_locales (auto simp: drop_command_def frame_of_def split: option.splits)

lemma loop_keys_all: "order_ok env \<Longrightarrow> set (map fst m) \<subseteq> set (loop_keys env m)"
  by (simp add: order_ok_def loop_keys_def)

lemma end_session_sessions [simp]: "br_sessions (end_session env sid r st) = odel sid (br_sessions st)"
  using drops.loop_view by (auto simp: end_session_def Let_def split: option.splits)

lemma end_session_frame [simp]: "frame_of (end_session env sid r st) = frame_of st"
proof -
  have [simp]: "frame_of (snd (deliver env i m st)) = frame_of st" "frame_of (send_result env i q d r st) = frame_of st"
    for i m q d r st by (simp_all add: frame_of_def)
  have "frame_of (fold (drop_command env c sid r) ks st) = frame_of st" for c ks st
    using drops.loop_view [of env c sid r ks st] by simp
  then show ?thesis
    by (auto simp: end_session_def Let_def frame_of_def split: option.splits)
qed

lemma end_session_commands:
  assumes "order_ok env" "owf (br_commands st)"
  shows "br_commands (end_session env sid r st) =
    (if oget (br_sessions st) sid = None then br_commands st
     else filter (\<lambda>(k, c). pc_sessionID c \<noteq> sid) (br_commands st))"
proof -
  have "br_commands (fold (drop_command env c sid r) (loop_keys env (br_commands s)) s)
      = filter (\<lambda>(k, x). \<not> pc_sessionID x = sid) (br_commands s)" if "owf (br_commands s)" for c s
    by (rule drops.loop_all [OF that loop_keys_all [OF assms(1)]])
  with assms(2) show ?thesis by (auto simp: end_session_def Let_def split: option.splits)
qed

interpretation ends: framed_loop br_sessions "end_if env test r" test frame_of for env test r
  by unfold_locales (auto simp: end_if_def split: option.splits)

lemma end_all_sessions:
  "order_ok env \<Longrightarrow> owf (br_sessions st) \<Longrightarrow>
   br_sessions (end_all env test r st) = filter (\<lambda>(k, s). \<not> test s) (br_sessions st)"
  unfolding end_all_def by (rule ends.loop_all [OF _ loop_keys_all])

lemma end_all_frame [simp]: "frame_of (end_all env test r st) = frame_of st"
  unfolding end_all_def by (rule ends.loop_view)

text \<open>The commands that survive a loop belong to no ended session.\<close>

definition hit :: "(session \<Rightarrow> bool) \<Rightarrow> string list \<Rightarrow> (string \<times> session) list \<Rightarrow> string \<Rightarrow> bool" where
  "hit test ks m sid \<longleftrightarrow> sid \<in> set ks \<and> (case oget m sid of None \<Rightarrow> False | Some s \<Rightarrow> test s)"

lemma end_if_commands:
  assumes "order_ok env" "owf (br_commands st)"
  shows "br_commands (end_if env test r sid st) =
    filter (\<lambda>(k, c). \<not> hit test [sid] (br_sessions st) (pc_sessionID c)) (br_commands st)"
  using end_session_commands [OF assms]
  by (auto simp: end_if_def hit_def filter_id_conv split: option.splits intro!: filter_cong)

lemma ended_loop_commands:
  assumes "order_ok env"
  shows "owf (br_commands st) \<Longrightarrow> owf (br_sessions st) \<Longrightarrow>
    br_commands (fold (end_if env test r) ks st) =
    filter (\<lambda>(k, c). \<not> hit test ks (br_sessions st) (pc_sessionID c)) (br_commands st)"
proof (induction ks arbitrary: st)
  case Nil
  have "filter (\<lambda>(k, c). True) (br_commands st) = br_commands st" by (simp add: case_prod_beta)
  then show ?case by (simp add: hit_def)
next
  case (Cons sid ks)
  let ?st = "end_if env test r sid st"
  have c: "br_commands ?st = filter (\<lambda>(k, c). \<not> hit test [sid] (br_sessions st) (pc_sessionID c)) (br_commands st)"
    by (rule end_if_commands [OF assms Cons.prems(1)])
  have s: "br_sessions ?st = filter (\<lambda>(k, s). \<not> (k = sid \<and> test s)) (br_sessions st)"
    by (rule ends.body_filter [OF owf_distinct [OF Cons.prems(2)]])
  have "br_commands (fold (end_if env test r) ks ?st)
      = filter (\<lambda>(k, c). \<not> hit test ks (br_sessions ?st) (pc_sessionID c)) (br_commands ?st)"
    by (rule Cons.IH) (simp_all add: c s owf_filter Cons.prems)
  moreover have "hit test (sid # ks) (br_sessions st) x
      \<longleftrightarrow> hit test [sid] (br_sessions st) x \<or> hit test ks (br_sessions ?st) x" for x
    unfolding s hit_def oget_filter [OF owf_distinct [OF Cons.prems(2)]]
    by (auto split: option.splits)
  ultimately show ?case by (auto simp: c intro!: filter_cong)
qed

lemma end_all_commands:
  assumes "order_ok env" "owf (br_commands st)" "owf (br_sessions st)"
  shows "br_commands (end_all env test r st) =
    filter (\<lambda>(k, c). \<not> (case oget (br_sessions st) (pc_sessionID c) of None \<Rightarrow> False | Some s \<Rightarrow> test s)) (br_commands st)"
proof -
  have "hit test (loop_keys env (br_sessions st)) (br_sessions st) x
      \<longleftrightarrow> (case oget (br_sessions st) x of None \<Rightarrow> False | Some s \<Rightarrow> test s)" for x
    using loop_keys_all [OF assms(1), of "br_sessions st"]
    by (auto simp: hit_def dest!: oget_in_set split: option.splits)
  then show ?thesis unfolding end_all_def ended_loop_commands [OF assms] by simp
qed

interpretation timeouts: framed_loop br_commands "expire_command env" "\<lambda>c. \<not> be_now env < pc_deadline c"
    "\<lambda>st. (br_sessions st, frame_of st)" for env
  by unfold_locales (auto simp: expire_command_def frame_of_def Let_def split: option.splits)

lemma expire_sessions:
  assumes "order_ok env" "owf (br_sessions st)"
  shows "br_sessions (expire env st) = filter (\<lambda>(k, s). be_now env < se_deadline s) (br_sessions st)"
  using timeouts.loop_view end_all_sessions [OF assms] by (simp add: expire_def Let_def)

lemma expire_frame [simp]: "frame_of (expire env st) = frame_of st"
  using timeouts.loop_view [of env "loop_keys env (br_commands x)" x for x] by (auto simp: expire_def Let_def)

lemma expire_commands:
  assumes "order_ok env" "owf (br_commands st)" "owf (br_sessions st)"
  shows "br_commands (expire env st) =
    filter (\<lambda>(k, c). be_now env < pc_deadline c
      \<and> (case oget (br_sessions st) (pc_sessionID c) of None \<Rightarrow> True | Some s \<Rightarrow> be_now env < se_deadline s)) (br_commands st)"
proof -
  let ?st = "end_all env (\<lambda>s. \<not> be_now env < se_deadline s) ''Session expired'' st"
  have "owf (br_commands ?st)" by (simp add: end_all_commands [OF assms] owf_filter assms(2))
  then have "br_commands (expire env st) = filter (\<lambda>(k, c). \<not> \<not> be_now env < pc_deadline c) (br_commands ?st)"
    unfolding expire_def Let_def by (rule timeouts.loop_all [OF _ loop_keys_all [OF assms(1)]])
  then show ?thesis
    by (auto simp: end_all_commands [OF assms] intro!: filter_cong split: option.splits)
qed

end
