(* ===== verification/BridgeInv.thy ===== *)
theory BridgeInv
  imports BridgeLaws
begin

text \<open>
  The invariant of the bridge's registry, and that every critical section keeps it: sessions connect a
  registered client with a registered configurator that may write to the client's workspace, a client has
  at most one session, a pending command belongs to an accepted session, and the limits hold.
\<close>

section \<open>The invariant\<close>

definition peer_ok :: "bool \<Rightarrow> nat \<Rightarrow> id \<Rightarrow> participant \<Rightarrow> bool" where
  "peer_ok debugEnabled allocs i p \<longleftrightarrow> pt_id p = i
     \<and> (pt_role p = ''client'' \<or> pt_role p = ''configurator'')
     \<and> (pt_role p = ''client'' \<longrightarrow> pt_debug p) \<and> (pt_debug p \<longrightarrow> debugEnabled) \<and> pt_ref p < allocs"

definition endpoints_ok :: "(id \<times> participant) list \<Rightarrow> string \<Rightarrow> session \<Rightarrow> bool" where
  "endpoints_ok peers sid s \<longleftrightarrow> bs_sessionID s = sid
     \<and> (case oget peers (bs_clientID s) of None \<Rightarrow> False
        | Some c \<Rightarrow> pt_role c = ''client'' \<and> pt_workspace c = se_workspace s)
     \<and> (case oget peers (bs_configuratorID s) of None \<Rightarrow> False | Some p \<Rightarrow> canDebug p (se_workspace s))"

definition command_ok :: "(string \<times> session) list \<Rightarrow> pending_command \<Rightarrow> bool" where
  "command_ok sessions c \<longleftrightarrow> (case oget sessions (pc_sessionID c) of None \<Rightarrow> False | Some s \<Rightarrow> se_active s)"

text \<open>The participants of one role in a workspace, and the discovering ones of one user.\<close>

definition in_room :: "string \<Rightarrow> string \<Rightarrow> participant \<Rightarrow> bool" where
  "in_room role w p \<longleftrightarrow> pt_role p = role \<and> \<not> pt_allWorkspaces p \<and> pt_workspace p = w"

definition in_discovery :: "string \<Rightarrow> id \<Rightarrow> participant \<Rightarrow> bool" where
  "in_discovery role u p \<longleftrightarrow> pt_role p = role \<and> pt_allWorkspaces p \<and> bp_userID (pt_principal p) = u"

definition count_peers :: "(participant \<Rightarrow> bool) \<Rightarrow> (id \<times> participant) list \<Rightarrow> nat" where
  "count_peers P peers = length (filter P (map snd peers))"

definition room_ok :: "(id \<times> participant) list \<Rightarrow> bool" where
  "room_ok peers \<longleftrightarrow> (\<forall>role w. count_peers (in_room role w) peers \<le> 64)
     \<and> (\<forall>role u. count_peers (in_discovery role u) peers \<le> 64)"

definition one_session :: "(string \<times> session) list \<Rightarrow> bool" where
  "one_session sessions \<longleftrightarrow> distinct (map (\<lambda>(_, s). bs_clientID s) sessions)"

definition peers_inv :: "bridge \<Rightarrow> bool" where
  "peers_inv st \<longleftrightarrow> owf (br_peers st) \<and> room_ok (br_peers st)
     \<and> (\<forall>(i, p) \<in> set (br_peers st). peer_ok (br_debugEnabled st) (br_allocs st) i p)"

definition bridge_inv :: "bridge \<Rightarrow> bool" where
  "bridge_inv st \<longleftrightarrow> peers_inv st \<and> owf (br_sessions st) \<and> owf (br_commands st)
     \<and> (\<forall>(sid, s) \<in> set (br_sessions st). endpoints_ok (br_peers st) sid s)
     \<and> one_session (br_sessions st)
     \<and> (\<forall>(cid, c) \<in> set (br_commands st). command_ok (br_sessions st) c)
     \<and> (\<forall>sid. pending_count sid st \<le> 8)"

lemma bridge_invD:
  assumes "bridge_inv st"
  shows "peers_inv st" "owf (br_peers st)" "owf (br_sessions st)" "owf (br_commands st)" "one_session (br_sessions st)"
    "\<And>sid. pending_count sid st \<le> 8"
    "oget (br_peers st) i = Some p \<Longrightarrow> peer_ok (br_debugEnabled st) (br_allocs st) i p"
    "oget (br_sessions st) sid = Some s \<Longrightarrow> endpoints_ok (br_peers st) sid s"
    "oget (br_commands st) cid = Some c \<Longrightarrow> command_ok (br_sessions st) c"
  using assms by (auto simp: bridge_inv_def peers_inv_def dest!: oget_in_set)

lemma bridge_inv_core: "core st = core st' \<Longrightarrow> bridge_inv st = bridge_inv st'"
  by (simp add: bridge_inv_def peers_inv_def pending_count_def core_def)

lemma bridge_inv_sends [simp]:
  "bridge_inv (snd (deliver env i m st)) = bridge_inv st"
  "bridge_inv (send_kind env i k d st) = bridge_inv st"
  "bridge_inv (send_result env i q d r st) = bridge_inv st"
  "bridge_inv (close_peer i st) = bridge_inv st"
  "bridge_inv (broadcast env w st) = bridge_inv st"
  by (rule bridge_inv_core, simp)+

lemma bridge_inv_NewUseCase: "bridge_inv (NewUseCase d)"
  by (simp add: bridge_inv_def peers_inv_def NewUseCase_def room_ok_def count_peers_def one_session_def pending_count_def)

section \<open>Counting entries of a map\<close>

lemma count_oput_new:
  "oget m k = None \<Longrightarrow>
   length (filter P (map snd (oput k v m))) = (if P v then 1 else 0) + length (filter P (map snd m))"
  by (induction k v m rule: oput.induct) (auto simp: oget_def split: if_splits)

lemma count_oput_same:
  "owf m \<Longrightarrow> oget m k = Some v0 \<Longrightarrow> P v = P v0 \<Longrightarrow>
   length (filter P (map snd (oput k v m))) = length (filter P (map snd m))"
proof (induction k v m rule: oput.induct)
  case (2 k v a b m)
  have "k < a \<Longrightarrow> False" if "k \<noteq> a"
  proof -
    assume "k < a"
    have "(k, v0) \<in> set m" using 2(3) that oget_in_set [OF 2(3)] by auto
    then have "a < k" using 2(2) by (force simp: owf_Cons)
    with \<open>k < a\<close> show False by simp
  qed
  with 2 show ?case by (auto simp: oget_def owf_Cons split: if_splits)
qed simp

lemma count_filter_le:
  "length (filter P (map snd (filter Q m))) \<le> length (filter P (map snd m))"
  by (induction m) auto

lemma set_oput: "owf m \<Longrightarrow> (j, x) \<in> set (oput k v m) \<Longrightarrow> (j = k \<and> x = v) \<or> (j \<noteq> k \<and> (j, x) \<in> set m)"
  by (metis in_set_oget oget_in_set oget_put option.inject owf_oput)

lemma distinct_map_oput:
  assumes "owf m" "oget m k = None" "distinct (map f m)" "f (k, v) \<notin> f ` set m"
  shows "distinct (map f (oput k v m))"
  using assms
proof (induction k v m rule: oput.induct)
  case (2 k v a b m)
  have "f (a, b) \<noteq> f (k, v)" "f (a, b) \<notin> f ` set m" using 2(4,5) by auto
  moreover have "f ` set (oput k v m) \<subseteq> insert (f (k, v)) (f ` set m)"
    using 2(2) by (auto simp: owf_Cons dest: set_oput)
  ultimately have "f (a, b) \<notin> f ` set (oput k v m)" by auto
  with 2 show ?case by (auto simp: oget_def owf_Cons split: if_splits)
qed simp

lemma distinct_map_oput_same:
  assumes "owf m" "oget m k = Some v0" "f (k, v) = f (k, v0)"
  shows "map f (oput k v m) = map f m"
  using assms
proof (induction k v m rule: oput.induct)
  case (2 k v a b m)
  have "k < a \<Longrightarrow> False" if "k \<noteq> a"
  proof -
    assume "k < a"
    have "(k, v0) \<in> set m" using that oget_in_set [OF 2(3)] by auto
    then have "a < k" using 2(2) by (force simp: owf_Cons)
    with \<open>k < a\<close> show False by simp
  qed
  with 2 show ?case by (auto simp: oget_def owf_Cons split: if_splits)
qed simp

section \<open>Removing sessions and commands\<close>

text \<open>The common shape of every operation that ends sessions: some sessions and some commands disappear,
  a surviving command keeps its session, and the surviving sessions are right for the new participants.\<close>

lemma bridge_inv_shrink:
  assumes inv: "bridge_inv st" and peers: "peers_inv st'"
    and ses: "br_sessions st' = filter (\<lambda>(k, s). P k s) (br_sessions st)"
    and com: "br_commands st' = filter (\<lambda>(k, c). Q k c) (br_commands st)"
    and ok: "\<And>k s. oget (br_sessions st) k = Some s \<Longrightarrow> P k s \<Longrightarrow> endpoints_ok (br_peers st') k s"
    and keep: "\<And>k c s. oget (br_commands st) k = Some c \<Longrightarrow> Q k c \<Longrightarrow>
      oget (br_sessions st) (pc_sessionID c) = Some s \<Longrightarrow> P (pc_sessionID c) s"
  shows "bridge_inv st'"
  unfolding bridge_inv_def
proof (intro conjI ballI allI, safe)
  note D = bridge_invD [OF inv]
  show "peers_inv st'" by (rule peers)
  show "owf (br_sessions st')" "owf (br_commands st')" using D(3,4) by (simp_all add: ses com owf_filter)
  show "endpoints_ok (br_peers st') k s" if "(k, s) \<in> set (br_sessions st')" for k s
    using that ok D(3) by (auto simp: ses in_set_oget)
  show "one_session (br_sessions st')"
    using D(5) by (simp add: one_session_def ses distinct_map_filter)
  show "command_ok (br_sessions st') c" if "(k, c) \<in> set (br_commands st')" for k c
  proof -
    from that have q: "Q k c" and kc: "oget (br_commands st) k = Some c" using D(4) by (auto simp: com in_set_oget)
    from D(9) [OF kc] obtain s where s: "oget (br_sessions st) (pc_sessionID c) = Some s" "se_active s"
      by (auto simp: command_ok_def split: option.splits)
    then show ?thesis using keep [OF kc q s(1)]
      by (simp add: command_ok_def ses oget_filter [OF owf_distinct [OF D(3)]])
  qed
  show "pending_count sid st' \<le> 8" for sid
    using D(6) [of sid] count_filter_le [of _ _ "br_commands st"] unfolding pending_count_def com
    by (rule le_trans [rotated])
qed

lemma peers_inv_frame: "frame_of st = frame_of st' \<Longrightarrow> peers_inv st = peers_inv st'"
  by (simp add: peers_inv_def frame_of_def)

lemma odel_as_filter: "odel k m = filter (\<lambda>(j, v). j \<noteq> k) m"
  by (simp add: odel_def)

lemma bridge_inv_end_session:
  assumes "order_ok env" "bridge_inv st"
  shows "bridge_inv (end_session env sid r st)"
proof (cases "oget (br_sessions st) sid")
  case None
  then show ?thesis using assms(2) by (simp add: end_session_def)
next
  case (Some s)
  note D = bridge_invD [OF assms(2)]
  show ?thesis
  proof (rule bridge_inv_shrink [OF assms(2)])
    show "peers_inv (end_session env sid r st)"
      using D(1) peers_inv_frame [OF end_session_frame] by simp
    show "br_sessions (end_session env sid r st) = filter (\<lambda>(k, s). k \<noteq> sid) (br_sessions st)"
      by (simp add: odel_as_filter)
    show "br_commands (end_session env sid r st) = filter (\<lambda>(k, c). pc_sessionID c \<noteq> sid) (br_commands st)"
      using Some by (simp add: end_session_commands [OF assms(1) D(4)])
  qed (use D(8) frame_ofD(2) [OF end_session_frame] in auto)
qed

lemma bridge_inv_end_all:
  assumes "order_ok env" "bridge_inv st"
  shows "bridge_inv (end_all env test r st)"
proof (rule bridge_inv_shrink [OF assms(2)])
  note D = bridge_invD [OF assms(2)]
  show "peers_inv (end_all env test r st)" using D(1) peers_inv_frame [OF end_all_frame] by simp
  show "br_sessions (end_all env test r st) = filter (\<lambda>(k, s). \<not> test s) (br_sessions st)"
    by (rule end_all_sessions [OF assms(1) D(3)])
  show "br_commands (end_all env test r st) =
    filter (\<lambda>(k, c). \<not> (case oget (br_sessions st) (pc_sessionID c) of None \<Rightarrow> False | Some s \<Rightarrow> test s)) (br_commands st)"
    by (rule end_all_commands [OF assms(1) D(4,3)])
qed (use bridge_invD(8) [OF assms(2)] frame_ofD(2) [OF end_all_frame] in auto)

lemma bridge_inv_expire:
  assumes "order_ok env" "bridge_inv st"
  shows "bridge_inv (expire env st)"
proof (rule bridge_inv_shrink [OF assms(2)])
  note D = bridge_invD [OF assms(2)]
  show "peers_inv (expire env st)" using D(1) peers_inv_frame [OF expire_frame] by simp
  show "br_sessions (expire env st) = filter (\<lambda>(k, s). be_now env < se_deadline s) (br_sessions st)"
    by (rule expire_sessions [OF assms(1) D(3)])
  show "br_commands (expire env st) = filter (\<lambda>(k, c). be_now env < pc_deadline c
      \<and> (case oget (br_sessions st) (pc_sessionID c) of None \<Rightarrow> True | Some s \<Rightarrow> be_now env < se_deadline s)) (br_commands st)"
    by (rule expire_commands [OF assms(1) D(4,3)])
qed (use bridge_invD(8) [OF assms(2)] frame_ofD(2) [OF expire_frame] in auto)

lemma bridge_inv_drop_command:
  assumes "bridge_inv st"
  shows "bridge_inv (st\<lparr>br_commands := odel cid (br_commands st)\<rparr>)"
proof (rule bridge_inv_shrink [OF assms])
  show "peers_inv (st\<lparr>br_commands := odel cid (br_commands st)\<rparr>)"
    using bridge_invD(1) [OF assms] by (simp add: peers_inv_def)
  show "br_sessions (st\<lparr>br_commands := odel cid (br_commands st)\<rparr>) = filter (\<lambda>(k, s). True) (br_sessions st)"
    by (simp add: case_prod_beta)
  show "br_commands (st\<lparr>br_commands := odel cid (br_commands st)\<rparr>) = filter (\<lambda>(k, c). k \<noteq> cid) (br_commands st)"
    by (simp add: odel_as_filter)
qed (use bridge_invD(8) [OF assms] in auto)

section \<open>Participants\<close>

lemma Join_candidate_Inr:
  assumes "Join_candidate env d i role bpr hello = Inr p"
  shows "pt_id p = i" "pt_role p = role" "pt_role p = ''client'' \<or> pt_role p = ''configurator''"
    "pt_role p = ''client'' \<Longrightarrow> pt_debug p" "pt_debug p \<Longrightarrow> d"
    "pt_workspace p = bh_workspaceIdentity hello" "length (pt_workspace p) \<le> 160"
    "pt_allWorkspaces p \<Longrightarrow> pt_role p = ''configurator''"
  using assms by (auto simp: Join_candidate_def res_iffs Let_def split: if_splits prod.splits)

lemma canDebug_cong:
  "pt_debug p = pt_debug q \<Longrightarrow> pt_role p = pt_role q \<Longrightarrow> pt_workspaces p = pt_workspaces q \<Longrightarrow> canDebug p w = canDebug q w"
  by (simp add: canDebug_def grant_role_def)

lemma in_room_le: "count_peers (in_room (pt_role p) (pt_workspace p)) peers \<le> count_peers (same_room p) peers"
  if "\<not> pt_allWorkspaces p" for p peers
  using that unfolding count_peers_def
  by (induction peers) (auto simp: in_room_def same_room_def)

lemma in_discovery_le:
  "count_peers (in_discovery (pt_role p) (bp_userID (pt_principal p))) peers \<le> count_peers (same_room p) peers"
  if "pt_allWorkspaces p" for p peers
  using that unfolding count_peers_def
  by (induction peers) (auto simp: in_discovery_def same_room_def)

text \<open>A participant that is admitted leaves every room within its limit.\<close>

lemma room_ok_join:
  assumes "room_ok peers" "oget peers i = None" "count_peers (same_room p) peers < 64"
  shows "room_ok (oput i (p\<lparr>pt_ref := n\<rparr>) peers)"
proof -
  have c: "count_peers P (oput i (p\<lparr>pt_ref := n\<rparr>) peers) = (if P (p\<lparr>pt_ref := n\<rparr>) then 1 else 0) + count_peers P peers" for P
    unfolding count_peers_def by (rule count_oput_new [OF assms(2)])
  have "count_peers (in_room role w) (oput i (p\<lparr>pt_ref := n\<rparr>) peers) \<le> 64" for role w
    using assms(1,3) in_room_le [of p peers] unfolding c room_ok_def
    by (auto simp: in_room_def)
  moreover have "count_peers (in_discovery role u) (oput i (p\<lparr>pt_ref := n\<rparr>) peers) \<le> 64" for role u
    using assms(1,3) in_discovery_le [of p peers] unfolding c room_ok_def
    by (auto simp: in_discovery_def)
  ultimately show ?thesis by (simp add: room_ok_def)
qed

lemma bridge_inv_Join_register:
  assumes inv: "bridge_inv st" and cand: "Join_candidate env0 (br_debugEnabled st) i role bpr hello = Inr p"
  shows "bridge_inv (snd (Join_register env p st))"
proof (cases "oget (br_peers st) (pt_id p) \<noteq> None \<or> room_count p st \<ge> 64")
  case True
  then show ?thesis using inv by (auto simp: Join_register_def)
next
  case False
  note D = bridge_invD [OF inv] and J = Join_candidate_Inr [OF cand]
  let ?p = "p\<lparr>pt_ref := br_allocs st\<rparr>"
  define nxt where "nxt = st\<lparr>br_peers := oput (pt_id p) ?p (br_peers st), br_allocs := br_allocs st + 1\<rparr>"
  have other: "\<And>j q. oget (br_peers st) j = Some q \<Longrightarrow> j \<noteq> pt_id p" using False by auto
  have rooms: "room_ok (oput (pt_id p) ?p (br_peers st))"
    using D(1) False by (intro room_ok_join) (auto simp: peers_inv_def room_count_def count_peers_def)
  have new: "peer_ok (br_debugEnabled st) (br_allocs st + 1) (pt_id p) ?p"
    using J(3-5) by (auto simp: peer_ok_def)
  have old: "peer_ok (br_debugEnabled st) (br_allocs st + 1) j q" if "(j, q) \<in> set (br_peers st)" for j q
    using D(7) [OF in_set_oget [OF D(2) that]] by (simp add: peer_ok_def)
  have "peer_ok (br_debugEnabled st) (br_allocs st + 1) j q" if "(j, q) \<in> set (oput (pt_id p) ?p (br_peers st))" for j q
    using set_oput [OF D(2) that] new old by (elim disjE conjE) simp_all
  then have peers: "peers_inv nxt"
    using D(2) rooms by (simp add: nxt_def peers_inv_def case_prod_beta)
  have "bridge_inv nxt"
  proof (rule bridge_inv_shrink [OF inv peers])
    show "br_sessions nxt = filter (\<lambda>(k, s). True) (br_sessions st)"
      "br_commands nxt = filter (\<lambda>(k, c). True) (br_commands st)"
      by (simp_all add: nxt_def case_prod_beta)
    show "endpoints_ok (br_peers nxt) k s" if "oget (br_sessions st) k = Some s" for k s
      using D(8) [OF that] other by (auto simp: nxt_def endpoints_ok_def oget_put split: option.splits)
  qed
  moreover have "snd (Join_register env p st) = broadcast env (pt_workspace p)
      (send_kind env (pt_id p) ''welcome'' (JObj [(''instanceId'', JStr (pt_id p)), (''protocol'', JInt 1)]) nxt)"
    using False by (simp add: Join_register_def nxt_def Let_def)
  ultimately show ?thesis by simp
qed

text \<open>An update of a participant that keeps its place in the registry.\<close>

definition same_place :: "participant \<Rightarrow> participant \<Rightarrow> bool" where
  "same_place p q \<longleftrightarrow> pt_id p = pt_id q \<and> pt_role p = pt_role q \<and> pt_debug p = pt_debug q \<and> pt_ref p = pt_ref q
     \<and> pt_allWorkspaces p = pt_allWorkspaces q \<and> pt_workspace p = pt_workspace q \<and> pt_principal p = pt_principal q"

lemma peers_inv_update:
  assumes "peers_inv st" "oget (br_peers st) i = Some p" "same_place q p"
  shows "peers_inv (st\<lparr>br_peers := oput i q (br_peers st)\<rparr>)"
proof -
  have ow: "owf (br_peers st)" using assms(1) by (simp add: peers_inv_def)
  have "count_peers P (oput i q (br_peers st)) = count_peers P (br_peers st)" if "P q = P p" for P
    unfolding count_peers_def by (rule count_oput_same [OF ow assms(2) that])
  then have "room_ok (oput i q (br_peers st))"
    using assms(1,3) by (simp add: room_ok_def peers_inv_def in_room_def in_discovery_def same_place_def)
  moreover have "peer_ok (br_debugEnabled st) (br_allocs st) i q"
    using assms oget_in_set [OF assms(2)] by (force simp: peers_inv_def peer_ok_def same_place_def)
  then have "peer_ok (br_debugEnabled st) (br_allocs st) j x" if "(j, x) \<in> set (oput i q (br_peers st))" for j x
    using set_oput [OF ow that] assms(1) by (elim disjE conjE) (auto simp: peers_inv_def)
  ultimately show ?thesis
    using ow by (simp add: peers_inv_def case_prod_beta)
qed

lemma bridge_inv_Check_commit:
  assumes env: "order_ok env" and inv: "bridge_inv st"
  shows "bridge_inv (snd (Check_commit env i ref a st))"
proof (cases "oget (br_peers st) i")
  case None
  then show ?thesis using inv by (simp add: Check_commit_def)
next
  case (Some p)
  note D = bridge_invD [OF inv]
  obtain who role name ws where a: "a = (who, role, name, ws)" by (metis prod_cases4)
  show ?thesis
  proof (cases "pt_ref p = ref")
    case False
    then show ?thesis using inv Some by (simp add: Check_commit_def)
  next
    case True
    define q where "q = p\<lparr>pt_actor := who, pt_accessRole := role, pt_workspaceDisplayName := name, pt_workspaces := ws\<rparr>"
    define mid where "mid = st\<lparr>br_peers := oput i q (br_peers st)\<rparr>"
    define test where "test = (\<lambda>s::session. bs_configuratorID s = i \<and> \<not> canDebug q (se_workspace s))"
    define nxt where "nxt = end_all env test ''Debug access revoked'' mid"
    have f: "frame_of nxt = frame_of mid" by (simp add: nxt_def)
    have m: "br_sessions mid = br_sessions st" "br_commands mid = br_commands st" by (simp_all add: mid_def)
    have pm: "peers_inv mid"
      unfolding mid_def by (rule peers_inv_update [OF D(1) Some]) (simp add: same_place_def q_def)
    have ok: "endpoints_ok (oput i q (br_peers st)) k s"
      if s: "oget (br_sessions st) k = Some s" and t: "\<not> test s" for k s
      using D(8) [OF s] t Some by (auto simp: endpoints_ok_def test_def oget_put q_def split: option.splits)
    have "bridge_inv nxt"
    proof (rule bridge_inv_shrink [OF inv])
      show "peers_inv nxt" using pm peers_inv_frame [OF f] by simp
      show "br_sessions nxt = filter (\<lambda>(k, s). \<not> test s) (br_sessions st)"
        unfolding nxt_def m(1) [symmetric] by (rule end_all_sessions [OF env]) (simp add: m D(3))
      show "br_commands nxt =
        filter (\<lambda>(k, c). \<not> (case oget (br_sessions st) (pc_sessionID c) of None \<Rightarrow> False | Some s \<Rightarrow> test s)) (br_commands st)"
        unfolding nxt_def m [symmetric] by (rule end_all_commands [OF env]) (simp_all add: m D(3,4))
      show "endpoints_ok (br_peers nxt) k s" if "oget (br_sessions st) k = Some s" "\<not> test s" for k s
        using ok [OF that] frame_ofD(2) [OF f] by (simp add: mid_def)
    qed simp
    moreover have "snd (Check_commit env i ref a st) = nxt \<or> snd (Check_commit env i ref a st) = broadcast env (pt_workspace q) nxt"
      using Some True a by (auto simp: Check_commit_def nxt_def mid_def test_def q_def Let_def)
    ultimately show ?thesis by auto
  qed
qed

lemma bridge_inv_Check: "order_ok env \<Longrightarrow> bridge_inv st \<Longrightarrow> bridge_inv (snd (Check env i st))"
  by (auto simp: Check_def bridge_inv_Check_commit split: option.splits sum.splits)

lemma bridge_inv_Leave:
  assumes env: "order_ok env" and inv: "bridge_inv st"
  shows "bridge_inv (Leave env i st)"
proof (cases "oget (br_peers st) i")
  case None
  then show ?thesis using inv by (simp add: Leave_def)
next
  case (Some p)
  note D = bridge_invD [OF inv]
  define mid where "mid = st\<lparr>br_peers := odel i (br_peers st)\<rparr>"
  define test where "test = (\<lambda>s::session. bs_clientID s = i \<or> bs_configuratorID s = i)"
  define nxt where "nxt = end_all env test ''Connection closed'' mid"
  have f: "frame_of nxt = frame_of mid" by (simp add: nxt_def)
  have m: "br_sessions mid = br_sessions st" "br_commands mid = br_commands st" by (simp_all add: mid_def)
  have "count_peers P (odel i (br_peers st)) \<le> count_peers P (br_peers st)" for P
    unfolding count_peers_def odel_def by (rule count_filter_le)
  then have "room_ok (odel i (br_peers st))"
    using D(1) by (meson le_trans peers_inv_def room_ok_def)
  then have pm: "peers_inv mid"
    using D(1) by (auto simp: mid_def peers_inv_def odel_def owf_filter)
  have "bridge_inv nxt"
  proof (rule bridge_inv_shrink [OF inv])
    show "peers_inv nxt" using pm peers_inv_frame [OF f] by simp
    show "br_sessions nxt = filter (\<lambda>(k, s). \<not> test s) (br_sessions st)"
      unfolding nxt_def m(1) [symmetric] by (rule end_all_sessions [OF env]) (simp add: m D(3))
    show "br_commands nxt =
      filter (\<lambda>(k, c). \<not> (case oget (br_sessions st) (pc_sessionID c) of None \<Rightarrow> False | Some s \<Rightarrow> test s)) (br_commands st)"
      unfolding nxt_def m [symmetric] by (rule end_all_commands [OF env]) (simp_all add: m D(3,4))
    show "endpoints_ok (br_peers nxt) k s" if "oget (br_sessions st) k = Some s" "\<not> test s" for k s
      using D(8) [OF that(1)] that(2) frame_ofD(2) [OF f]
      by (auto simp: mid_def test_def endpoints_ok_def oget_del split: option.splits)
  qed simp
  moreover have "Leave env i st = broadcast env (pt_workspace p) nxt"
    using Some by (simp add: Leave_def nxt_def mid_def test_def Let_def)
  ultimately show ?thesis by simp
qed

end
