(* ===== verification/BridgeService.thy ===== *)
theory BridgeService
  imports BridgeInv
begin

text \<open>
  The messages of the bridge keep the invariant, and the bridge as a state machine: its steps are the
  critical sections of \<open>UseCase\<close>, in every interleaving. The sequential operations \<open>Join\<close>,
  \<open>Check\<close> and \<open>Handle\<close> are runs of this machine.
\<close>

section \<open>Messages\<close>

text \<open>A random identifier is new.\<close>

definition fresh_uuid :: "bridge_env \<Rightarrow> bridge \<Rightarrow> bool" where
  "fresh_uuid env st \<longleftrightarrow> oget (br_sessions st) (be_uuid env) = None \<and> oget (br_commands st) (be_uuid env) = None"

lemma oget_filter_None: "oget m k = None \<Longrightarrow> oget (filter P m) k = None"
  by (auto simp: oget_def map_of_eq_None_iff)

lemma fresh_uuid_filter:
  assumes "fresh_uuid env st" "br_sessions st' = filter P (br_sessions st)" "br_commands st' = filter Q (br_commands st)"
  shows "fresh_uuid env st'"
  using assms by (simp add: fresh_uuid_def oget_filter_None)

lemma fresh_uuid_expire:
  assumes "order_ok env" "bridge_inv st" "fresh_uuid env st"
  shows "fresh_uuid env (expire env st)"
  using fresh_uuid_filter [OF assms(3) expire_sessions [OF assms(1)] expire_commands [OF assms(1)]]
    bridge_invD(3,4) [OF assms(2)] by blast

lemma list_ex_client:
  "list_ex (\<lambda>s. bs_clientID s = c) (map snd m) \<longleftrightarrow> c \<in> (\<lambda>(_, s). bs_clientID s) ` set m"
  by (induction m) auto

lemma endpoints_ok_update:
  assumes "endpoints_ok peers k x" "oget peers i = Some p" "pt_role q = pt_role p" "pt_workspace q = pt_workspace p"
    and "\<And>w. canDebug q w = canDebug p w"
  shows "endpoints_ok (oput i q peers) k x"
proof -
  from assms(1) obtain c d where c: "oget peers (bs_clientID x) = Some c" "pt_role c = ''client''" "pt_workspace c = se_workspace x"
    and d: "oget peers (bs_configuratorID x) = Some d" "canDebug d (se_workspace x)" and k: "bs_sessionID x = k"
    by (auto simp: endpoints_ok_def split: option.splits)
  have "case oget (oput i q peers) (bs_clientID x) of None \<Rightarrow> False
      | Some c \<Rightarrow> pt_role c = ''client'' \<and> pt_workspace c = se_workspace x"
    using c assms(2-4) by (cases "bs_clientID x = i") (auto simp: oget_put)
  moreover have "case oget (oput i q peers) (bs_configuratorID x) of None \<Rightarrow> False | Some p \<Rightarrow> canDebug p (se_workspace x)"
    using d assms(2,5) by (cases "bs_configuratorID x = i") (auto simp: oget_put)
  ultimately show ?thesis using k by (simp add: endpoints_ok_def)
qed

lemma bridge_inv_requestSession:
  assumes inv: "bridge_inv st" and p: "oget (br_peers st) i = Some p" and fresh_uuid: "fresh_uuid env st"
  shows "bridge_inv (snd (requestSession env i p m st))"
proof (cases "snd (requestSession env i p m st) = st")
  case True
  then show ?thesis using inv by simp
next
  case False
  note D = bridge_invD [OF inv]
  from False obtain target where
      p_ok: "pt_debug p" "pt_role p = ''configurator''" and t: "oget (br_peers st) (bm_targetID m) = Some target"
    and t_ok: "pt_role target = ''client''" "pt_debug target" "canDebug p (pt_workspace target)"
    and free: "\<not> list_ex (\<lambda>s. bs_clientID s = pt_id target) (map snd (br_sessions st))"
    by (auto simp: requestSession_def split: option.splits if_splits)
  have ids: "pt_id p = i" "pt_id target = bm_targetID m"
    using D(7) [OF p] D(7) [OF t] by (auto simp: peer_ok_def)
  define s where "s = \<lparr>bs_sessionID = be_uuid env, bs_clientID = pt_id target, bs_configuratorID = pt_id p,
     se_workspace = pt_workspace target, se_requestID = bm_id m, se_active = False, se_deadline = be_now env + requestTTL\<rparr>"
  define q where "q = p\<lparr>pt_lastRequest := Some (be_now env)\<rparr>"
  define nxt where "nxt = st\<lparr>br_peers := oput i q (br_peers st), br_sessions := oput (be_uuid env) s (br_sessions st)\<rparr>"
  have none: "oget (br_sessions st) (be_uuid env) = None" using fresh_uuid by (simp add: fresh_uuid_def)
  have dbg: "canDebug q w = canDebug p w" for w by (rule canDebug_cong) (simp_all add: q_def)
  have old: "endpoints_ok (br_peers nxt) k x" if "endpoints_ok (br_peers st) k x" for k x
    using endpoints_ok_update [OF that p _ _ dbg] by (simp add: nxt_def q_def)
  have "endpoints_ok (br_peers st) (be_uuid env) s"
    using t t_ok ids p by (simp add: endpoints_ok_def s_def)
  then have new: "endpoints_ok (br_peers nxt) (be_uuid env) s" by (rule old)
  have "bridge_inv nxt"
    unfolding bridge_inv_def
  proof (intro conjI ballI allI, safe)
    have "peers_inv (st\<lparr>br_peers := oput i q (br_peers st)\<rparr>)"
      by (rule peers_inv_update [OF D(1) p]) (simp add: same_place_def q_def)
    then show "peers_inv nxt" by (simp add: peers_inv_def nxt_def)
    show "owf (br_sessions nxt)" "owf (br_commands nxt)" using D(3,4) by (simp_all add: nxt_def)
    show "endpoints_ok (br_peers nxt) k x" if "(k, x) \<in> set (br_sessions nxt)" for k x
    proof -
      from that have "(k, x) \<in> set (oput (be_uuid env) s (br_sessions st))" by (simp add: nxt_def)
      from set_oput [OF D(3) this] show ?thesis
      proof
        assume "k = be_uuid env \<and> x = s"
        then show ?thesis using new by simp
      next
        assume "k \<noteq> be_uuid env \<and> (k, x) \<in> set (br_sessions st)"
        then show ?thesis using old D(8) [OF in_set_oget [OF D(3)]] by simp
      qed
    qed
    show "one_session (br_sessions nxt)"
      using free D(5) none unfolding one_session_def nxt_def
      by (simp, intro distinct_map_oput [OF D(3)]) (simp_all add: list_ex_client s_def)
    show "command_ok (br_sessions nxt) c" if "(k, c) \<in> set (br_commands nxt)" for k c
    proof -
      have "command_ok (br_sessions st) c" using that D(9) in_set_oget [OF D(4)] by (auto simp: nxt_def)
      then show ?thesis using none by (auto simp: command_ok_def nxt_def oget_put split: option.splits)
    qed
    show "pending_count sid nxt \<le> 8" for sid using D(6) [of sid] by (simp add: pending_count_def nxt_def)
  qed
  moreover have "\<exists>k d. snd (requestSession env i p m st) = send_kind env (pt_id target) k d nxt"
    using False t by (auto simp: requestSession_def nxt_def s_def q_def Let_def split: if_splits)
  ultimately show ?thesis by auto
qed

text \<open>A session that is replaced under its key, with the same endpoints.\<close>

lemma bridge_inv_session_update:
  assumes inv: "bridge_inv st" and s: "oget (br_sessions st) sid = Some s"
    and same: "bs_sessionID s' = bs_sessionID s" "bs_clientID s' = bs_clientID s"
      "bs_configuratorID s' = bs_configuratorID s" "se_workspace s' = se_workspace s" "se_active s \<longrightarrow> se_active s'"
  shows "bridge_inv (st\<lparr>br_sessions := oput sid s' (br_sessions st)\<rparr>)"
  unfolding bridge_inv_def
proof (intro conjI ballI allI, safe)
  note D = bridge_invD [OF inv]
  let ?st = "st\<lparr>br_sessions := oput sid s' (br_sessions st)\<rparr>"
  show "peers_inv ?st" using D(1) by (simp add: peers_inv_def)
  show "owf (br_sessions ?st)" "owf (br_commands ?st)" using D(3,4) by simp_all
  show "endpoints_ok (br_peers ?st) k x" if "(k, x) \<in> set (br_sessions ?st)" for k x
  proof -
    from that have "(k, x) \<in> set (oput sid s' (br_sessions st))" by simp
    from set_oput [OF D(3) this] show ?thesis
    proof
      assume "k = sid \<and> x = s'"
      then have "endpoints_ok (br_peers st) k x = endpoints_ok (br_peers st) sid s"
        using same by (simp only: endpoints_ok_def)
      then show ?thesis using D(8) [OF s] by simp
    next
      assume "k \<noteq> sid \<and> (k, x) \<in> set (br_sessions st)"
      then show ?thesis using D(8) [OF in_set_oget [OF D(3)]] by simp
    qed
  qed
  show "one_session (br_sessions ?st)"
    using D(5) distinct_map_oput_same [OF D(3) s, of "\<lambda>(_, s). bs_clientID s"] same
    by (simp add: one_session_def)
  show "command_ok (br_sessions ?st) c" if "(k, c) \<in> set (br_commands ?st)" for k c
  proof -
    have "command_ok (br_sessions st) c" using that D(9) in_set_oget [OF D(4)] by auto
    then show ?thesis using s same by (auto simp: command_ok_def oget_put split: option.splits)
  qed
  show "pending_count x ?st \<le> 8" for x using D(6) [of x] by (simp add: pending_count_def)
qed

lemma bridge_inv_acceptSession:
  assumes "order_ok env" "bridge_inv st"
  shows "bridge_inv (snd (acceptSession env p m st))"
  using assms(2)
  by (auto simp: acceptSession_def Let_def bridge_inv_end_session [OF assms(1)] intro!: bridge_inv_session_update
      split: option.splits)

lemma bridge_inv_endSession:
  assumes "order_ok env" "bridge_inv st"
  shows "bridge_inv (snd (endSession env i m st))"
  using assms(2) by (auto simp: endSession_def bridge_inv_end_session [OF assms(1)] split: option.splits)

lemma bridge_inv_new_command:
  assumes inv: "bridge_inv st" and s: "oget (br_sessions st) (pc_sessionID c) = Some s" "se_active s"
    and new: "oget (br_commands st) cid = None" and less: "pending_count (pc_sessionID c) st < 8"
  shows "bridge_inv (st\<lparr>br_commands := oput cid c (br_commands st)\<rparr>)"
  unfolding bridge_inv_def
proof (intro conjI ballI allI, safe)
  note D = bridge_invD [OF inv]
  let ?st = "st\<lparr>br_commands := oput cid c (br_commands st)\<rparr>"
  show "peers_inv ?st" using D(1) by (simp add: peers_inv_def)
  show "owf (br_sessions ?st)" "owf (br_commands ?st)" "one_session (br_sessions ?st)" using D(3,4,5) by simp_all
  show "endpoints_ok (br_peers ?st) k x" if "(k, x) \<in> set (br_sessions ?st)" for k x
    using that D(8) [OF in_set_oget [OF D(3)]] by simp
  show "command_ok (br_sessions ?st) x" if "(k, x) \<in> set (br_commands ?st)" for k x
  proof -
    from that have "(k, x) \<in> set (oput cid c (br_commands st))" by simp
    from set_oput [OF D(4) this] show ?thesis
      using D(9) [OF in_set_oget [OF D(4)]] s by (auto simp: command_ok_def)
  qed
  show "pending_count x ?st \<le> 8" for x
    using D(6) [of x] less count_oput_new [OF new, of "\<lambda>c. pc_sessionID c = x" c]
    by (auto simp: pending_count_def simp del: filter_map)
qed

lemma bridge_inv_requestCommand:
  assumes env: "order_ok env" and inv: "bridge_inv st" and fresh_uuid: "fresh_uuid env st"
  shows "bridge_inv (snd (requestCommand env p m st))"
proof (cases "snd (requestCommand env p m st) = st")
  case True
  then show ?thesis using inv by simp
next
  case False
  note D = bridge_invD [OF inv]
  from False obtain s where s: "oget (br_sessions st) (bm_sessionID m) = Some s" "se_active s"
      "pending_count (bs_sessionID s) st < 8"
    by (auto simp: requestCommand_def split: option.splits if_splits)
  have sid: "bs_sessionID s = bm_sessionID m" using D(8) [OF s(1)] by (simp add: endpoints_ok_def)
  define nxt where "nxt = st\<lparr>br_commands := oput (be_uuid env)
     \<lparr>pc_sessionID = bs_sessionID s, pc_requestID = bm_id m, pc_deadline = be_now env + requestTTL\<rparr> (br_commands st)\<rparr>"
  have "bridge_inv nxt"
    unfolding nxt_def using s sid fresh_uuid by (intro bridge_inv_new_command [OF inv]) (auto simp: fresh_uuid_def)
  then have "bridge_inv (snd (deliver env j m' nxt))" "bridge_inv (end_session env x r (snd (deliver env j m' nxt)))" for j m' x r
    by (simp_all add: bridge_inv_end_session [OF env])
  then show ?thesis
    using False s(1) by (auto simp: requestCommand_def nxt_def Let_def case_prod_beta split: if_splits)
qed

lemma bridge_inv_forwardClientEvent:
  assumes "order_ok env" "bridge_inv st"
  shows "bridge_inv (snd (forwardClientEvent env p m st))"
  using assms(2) bridge_inv_end_session [OF assms(1)]
  by (auto simp: forwardClientEvent_def Let_def case_prod_beta split: option.splits)

lemma bridge_inv_commandResult:
  assumes "bridge_inv st"
  shows "bridge_inv (snd (commandResult env i m st))"
  using assms by (auto simp: commandResult_def bridge_inv_drop_command split: option.splits)

lemma bridge_inv_Handle_dispatch:
  assumes env: "order_ok env" and inv: "bridge_inv st" and fresh_uuid: "fresh_uuid env st"
  shows "bridge_inv (snd (Handle_dispatch env i m st))"
proof (cases "oget (br_peers st) i")
  case None
  then show ?thesis using inv by (simp add: Handle_dispatch_def)
next
  case (Some p)
  have e: "bridge_inv (expire env st)" "fresh_uuid env (expire env st)" "oget (br_peers (expire env st)) i = Some p"
    using bridge_inv_expire [OF env inv] fresh_uuid_expire [OF env inv fresh_uuid] frame_ofD(2) [OF expire_frame] Some by auto
  show ?thesis
    using Some e(1) bridge_inv_requestSession [OF e(1,3,2)] bridge_inv_acceptSession [OF env e(1)]
      bridge_inv_endSession [OF env e(1)] bridge_inv_requestCommand [OF env e(1,2)]
      bridge_inv_forwardClientEvent [OF env e(1)] bridge_inv_commandResult [OF e(1)]
    by (simp add: Handle_dispatch_def Let_def)
qed

section \<open>The bridge as a state machine\<close>

text \<open>The label names the critical section. A \<open>Check\<close> and a \<open>Join\<close> use an authorization that was
  computed earlier without the lock, so it comes from any other environment, or is arbitrary.\<close>

datatype bridge_op = OpJoin participant | OpCheck id | OpHandle id bridge_message | OpLeave id | OpSweep | OpClose id

inductive bridge_step :: "bridge_op \<Rightarrow> bridge \<Rightarrow> bridge \<Rightarrow> bool" where
  step_join: "Join_candidate env0 (br_debugEnabled st) i role bpr hello = Inr p \<Longrightarrow>
    bridge_step (OpJoin p) st (snd (Join_register env p st))"
| step_check: "order_ok env \<Longrightarrow> bridge_step (OpCheck i) st (snd (Check_commit env i ref a st))"
| step_handle: "order_ok env \<Longrightarrow> fresh_uuid env st \<Longrightarrow> bridge_step (OpHandle i m) st (snd (Handle_dispatch env i m st))"
| step_leave: "order_ok env \<Longrightarrow> bridge_step (OpLeave i) st (Leave env i st)"
| step_sweep: "order_ok env \<Longrightarrow> bridge_step OpSweep st (Sweep env st)"
| step_close: "bridge_step (OpClose i) st (close_peer i st)"

inductive bridge_served :: "bool \<Rightarrow> bridge \<Rightarrow> bool" for d where
  served_start: "bridge_served d (NewUseCase d)"
| served_step: "bridge_served d st \<Longrightarrow> bridge_step op st st' \<Longrightarrow> bridge_served d st'"

inductive_cases bridge_step_elim: "bridge_step op st st'"

lemma bridge_inv_step: "bridge_step op st st' \<Longrightarrow> bridge_inv st \<Longrightarrow> bridge_inv st'"
  by (induction rule: bridge_step.induct)
    (simp_all add: bridge_inv_Join_register bridge_inv_Check_commit bridge_inv_Handle_dispatch bridge_inv_Leave
      Sweep_def bridge_inv_expire)

lemma bridge_served_inv: "bridge_served d st \<Longrightarrow> bridge_inv st"
  by (induction rule: bridge_served.induct) (auto simp: bridge_inv_NewUseCase dest: bridge_inv_step)

section \<open>How sessions evolve\<close>

text \<open>Every section but \<open>Handle\<close> only removes sessions.\<close>

definition shrinks :: "bridge \<Rightarrow> bridge \<Rightarrow> bool" where
  "shrinks st st' \<longleftrightarrow> (\<exists>P. br_sessions st' = filter P (br_sessions st)) \<and> (\<exists>Q. br_commands st' = filter Q (br_commands st))"

lemma shrinksI: "br_sessions st' = filter P (br_sessions st) \<Longrightarrow> br_commands st' = filter Q (br_commands st) \<Longrightarrow> shrinks st st'"
  by (auto simp: shrinks_def)

lemma shrinks_refl [simp]: "shrinks st st"
  by (rule shrinksI [of _ "\<lambda>_. True" _ "\<lambda>_. True"]) simp_all

lemma shrinks_same: "br_sessions b = br_sessions a \<Longrightarrow> br_commands b = br_commands a \<Longrightarrow> shrinks a b"
  by (rule shrinksI [of _ "\<lambda>_. True" _ "\<lambda>_. True"]) simp_all

lemma shrinks_trans: "shrinks a b \<Longrightarrow> shrinks b c \<Longrightarrow> shrinks a c"
  by (auto simp: shrinks_def)

lemma shrinks_fields:
  "br_sessions a = br_sessions a' \<Longrightarrow> br_commands a = br_commands a' \<Longrightarrow> shrinks a b = shrinks a' b"
  "br_sessions b = br_sessions b' \<Longrightarrow> br_commands b = br_commands b' \<Longrightarrow> shrinks a b = shrinks a b'"
  by (simp_all add: shrinks_def)

lemma shrinks_oget:
  assumes "shrinks st st'" "owf (br_sessions st)" "oget (br_sessions st') sid = Some s"
  shows "oget (br_sessions st) sid = Some s"
proof -
  from assms(1) obtain P where "br_sessions st' = filter P (br_sessions st)" by (auto simp: shrinks_def)
  then have "(sid, s) \<in> set (br_sessions st)" using oget_in_set [OF assms(3)] by simp
  then show ?thesis by (rule in_set_oget [OF assms(2)])
qed

lemma fresh_uuid_shrinks: "fresh_uuid env st \<Longrightarrow> shrinks st st' \<Longrightarrow> fresh_uuid env st'"
  by (auto simp: shrinks_def intro: fresh_uuid_filter)

lemma shrinks_end_session:
  assumes "order_ok env" "owf (br_commands st)"
  shows "shrinks st (end_session env sid r st)"
proof (rule shrinksI)
  show "br_sessions (end_session env sid r st) = filter (\<lambda>(j, v). j \<noteq> sid) (br_sessions st)"
    by (simp add: odel_as_filter)
  show "br_commands (end_session env sid r st) =
    filter (\<lambda>(k, c). oget (br_sessions st) sid = None \<or> pc_sessionID c \<noteq> sid) (br_commands st)"
    by (auto simp: end_session_commands [OF assms] case_prod_beta)
qed

lemma shrinks_end_all:
  assumes "order_ok env" "owf (br_commands st)" "owf (br_sessions st)"
  shows "shrinks st (end_all env test r st)"
  by (rule shrinksI [OF end_all_sessions [OF assms(1,3)] end_all_commands [OF assms]])

lemma shrinks_expire:
  assumes "order_ok env" "bridge_inv st"
  shows "shrinks st (expire env st)"
  by (rule shrinksI [OF expire_sessions [OF assms(1)] expire_commands [OF assms(1)]]) (use bridge_invD(3,4) [OF assms(2)] in auto)

lemma shrinks_Join_register: "shrinks st (snd (Join_register env p st))"
  by (auto simp: Join_register_def Let_def intro: shrinks_same)

lemma shrinks_Check_commit:
  assumes "order_ok env" "bridge_inv st"
  shows "shrinks st (snd (Check_commit env i ref a st))"
proof -
  have e: "shrinks st (end_all env test r (st\<lparr>br_peers := ps\<rparr>))" for test r ps
    using shrinks_end_all [OF assms(1), of "st\<lparr>br_peers := ps\<rparr>" test r] bridge_invD(3,4) [OF assms(2)]
    by (simp add: shrinks_def)
  have b: "shrinks st (broadcast env w x) = shrinks st x" for w x by (rule shrinks_fields) simp_all
  show ?thesis
    by (auto simp: Check_commit_def Let_def case_prod_beta b intro: e split: option.splits)
qed

lemma shrinks_Check:
  assumes "order_ok env" "bridge_inv st"
  shows "shrinks st (snd (Check env i st))"
  by (auto simp: Check_def shrinks_Check_commit [OF assms] split: option.splits sum.splits)

lemma shrinks_Leave:
  assumes "order_ok env" "bridge_inv st"
  shows "shrinks st (Leave env i st)"
proof -
  have e: "shrinks st (end_all env test r (st\<lparr>br_peers := ps\<rparr>))" for test r ps
    using shrinks_end_all [OF assms(1), of "st\<lparr>br_peers := ps\<rparr>" test r] bridge_invD(3,4) [OF assms(2)]
    by (simp add: shrinks_def)
  have b: "shrinks st (broadcast env w x) = shrinks st x" for w x by (rule shrinks_fields) simp_all
  show ?thesis by (auto simp: Leave_def Let_def b intro: e split: option.splits)
qed

text \<open>A message makes no session active, except the acceptance by the client of the session.\<close>

definition activates :: "bridge \<Rightarrow> bridge \<Rightarrow> string \<Rightarrow> session \<Rightarrow> bool" where
  "activates st st' sid s \<longleftrightarrow> oget (br_sessions st') sid = Some s \<and> se_active s
     \<and> (case oget (br_sessions st) sid of None \<Rightarrow> True | Some s0 \<Rightarrow> \<not> se_active s0)"

lemma activates_shrinks: "shrinks st st' \<Longrightarrow> owf (br_sessions st) \<Longrightarrow> \<not> activates st st' sid s"
  by (auto simp: activates_def dest!: shrinks_oget)

lemma activates_send [simp]:
  "activates st (snd (deliver env i m x)) = activates st x"
  "activates st (send_kind env i k d x) = activates st x"
  "activates st (send_result env i q d r x) = activates st x"
  by (simp_all add: activates_def fun_eq_iff)

lemma activates_requestSession:
  "fresh_uuid env st \<Longrightarrow> \<not> activates st (snd (requestSession env i p m st)) sid s"
  by (auto simp: requestSession_def activates_def Let_def oget_put fresh_uuid_def split: option.splits if_splits)

lemma activates_acceptSession:
  assumes "order_ok env" "bridge_inv st" "activates st (snd (acceptSession env p m st)) sid s"
  shows "bm_accepted m \<and> bm_sessionID m = sid \<and> bs_clientID s = pt_id p
    \<and> (\<exists>s0. oget (br_sessions st) sid = Some s0 \<and> bs_clientID s0 = bs_clientID s
         \<and> bs_configuratorID s0 = bs_configuratorID s \<and> se_workspace s0 = se_workspace s)"
proof -
  have "\<not> activates st (end_session env x r st) sid s" for x r
    by (rule activates_shrinks [OF shrinks_end_session [OF assms(1)]]) (use bridge_invD(3,4) [OF assms(2)] in auto)
  then show ?thesis
    using assms(3)
    by (auto simp: acceptSession_def Let_def activates_def oget_put split: option.splits if_splits)
qed

lemma activates_other:
  assumes "order_ok env" "bridge_inv st"
  shows "\<not> activates st (snd (endSession env i m st)) sid s" (is ?fin)
    and "\<not> activates st (snd (requestCommand env p m st)) sid s" (is ?req)
    and "\<not> activates st (snd (forwardClientEvent env p m st)) sid s" (is ?fwd)
    and "\<not> activates st (snd (commandResult env i m st)) sid s" (is ?res)
proof -
  have same: "\<not> activates st x sid s" if "br_sessions x = br_sessions st" for x
    using that by (auto simp: activates_def split: option.splits)
  have del: "\<not> activates st x sid s" if "br_sessions x = odel k (br_sessions st)" for x k
    using that by (auto simp: activates_def oget_del split: option.splits if_splits)
  show ?fin by (auto simp: endSession_def same del split: option.splits)
  show ?req by (auto simp: requestCommand_def same del Let_def case_prod_beta split: option.splits)
  show ?fwd by (auto simp: forwardClientEvent_def same del Let_def case_prod_beta split: option.splits)
  show ?res by (auto simp: commandResult_def same split: option.splits)
qed

lemma activates_Handle_dispatch:
  assumes env: "order_ok env" and inv: "bridge_inv st" and fresh_uuid: "fresh_uuid env st"
    and act: "activates st (snd (Handle_dispatch env i m st)) sid s"
  shows "bm_type m = ''acceptSession'' \<and> bm_accepted m \<and> bm_sessionID m = sid \<and> bs_clientID s = i
    \<and> (\<exists>s0. oget (br_sessions st) sid = Some s0 \<and> bs_clientID s0 = bs_clientID s
         \<and> bs_configuratorID s0 = bs_configuratorID s \<and> se_workspace s0 = se_workspace s)"
proof (cases "oget (br_peers st) i")
  case None
  then show ?thesis using act activates_shrinks [OF shrinks_refl bridge_invD(3) [OF inv]]
    by (simp add: Handle_dispatch_def)
next
  case (Some p)
  let ?st = "expire env st"
  have sh: "shrinks st ?st" by (rule shrinks_expire [OF env inv])
  have ow: "owf (br_sessions st)" by (rule bridge_invD(3) [OF inv])
  have inv': "bridge_inv ?st" and fr: "fresh_uuid env ?st"
    by (rule bridge_inv_expire [OF env inv], rule fresh_uuid_expire [OF env inv fresh_uuid])
  have lift: "activates ?st x sid s" if "activates st x sid s" for x
    using that shrinks_oget [OF sh ow, of sid] by (auto simp: activates_def split: option.splits)
  have pid: "pt_id p = i" using bridge_invD(7) [OF inv Some] by (simp add: peer_ok_def)
  from act have "activates ?st (snd (Handle_dispatch env i m st)) sid s" by (rule lift)
  then have "bm_type m = ''acceptSession'' \<and> activates ?st (snd (acceptSession env p m ?st)) sid s"
    using Some activates_requestSession [OF fr] activates_other [OF env inv']
      activates_shrinks [OF shrinks_refl bridge_invD(3) [OF inv']]
    by (auto simp: Handle_dispatch_def Let_def split: if_splits)
  with activates_acceptSession [OF env inv', of p m sid s] show ?thesis
    using shrinks_oget [OF sh ow] pid by blast
qed

lemma activates_step:
  assumes "bridge_step op st st'" "bridge_inv st" "activates st st' sid s"
  shows "\<exists>m s0. op = OpHandle (bs_clientID s) m \<and> bm_type m = ''acceptSession'' \<and> bm_accepted m \<and> bm_sessionID m = sid
    \<and> oget (br_sessions st) sid = Some s0 \<and> bs_configuratorID s0 = bs_configuratorID s"
proof -
  have no: "\<not> shrinks st st'"
    using activates_shrinks [OF _ bridge_invD(3) [OF assms(2)]] assms(3) by blast
  from assms(1) show ?thesis
  proof (cases rule: bridge_step.cases)
    case (step_handle env i m)
    then show ?thesis using activates_Handle_dispatch [OF step_handle(3) assms(2) step_handle(4)] assms(3) by blast
  next
    case (step_close i)
    then show ?thesis using no by (auto intro: shrinks_same)
  qed (use no assms(2) in \<open>auto simp: Sweep_def shrinks_Join_register shrinks_Check_commit shrinks_Leave shrinks_expire\<close>)
qed

section \<open>The sequential operations are runs\<close>

lemma served_Join:
  assumes "bridge_served d st"
  shows "bridge_served d (snd (Join env i role bpr hello st))"
  using assms by (auto simp: Join_def intro: served_step step_join split: sum.splits)

lemma served_Check:
  assumes "bridge_served d st" "order_ok env"
  shows "bridge_served d (snd (Check env i st))"
  using assms by (auto simp: Check_def intro: served_step step_check split: sum.splits option.splits)

lemma served_Handle:
  assumes "bridge_served d st" "order_ok env" "fresh_uuid env st"
  shows "bridge_served d (snd (Handle env i m st))"
proof -
  let ?a = "snd (Check env i st)"
  have a: "bridge_served d ?a" by (rule served_Check [OF assms(1,2)])
  have fa: "fresh_uuid env ?a"
    by (rule fresh_uuid_shrinks [OF assms(3) shrinks_Check [OF assms(2) bridge_served_inv [OF assms(1)]]])
  let ?b = "recheck_controller env m ?a"
  have "bridge_served d ?b \<and> fresh_uuid env ?b"
  proof -
    have c: "bridge_served d (snd (Check env j ?a))" "fresh_uuid env (snd (Check env j ?a))" for j
      by (rule served_Check [OF a assms(2)],
        rule fresh_uuid_shrinks [OF fa shrinks_Check [OF assms(2) bridge_served_inv [OF a]]])
    then have l: "bridge_served d (Leave env j (snd (Check env j ?a)))" "fresh_uuid env (Leave env j (snd (Check env j ?a)))" for j
      using fresh_uuid_shrinks [OF c(2) shrinks_Leave [OF assms(2) bridge_served_inv [OF c(1)]]]
      by (auto intro: served_step step_leave assms(2))
    then have "bridge_served d (close_peer j (Leave env j (snd (Check env j ?a))))"
      "fresh_uuid env (close_peer j (Leave env j (snd (Check env j ?a))))" for j
      by (auto intro: served_step step_close simp: fresh_uuid_def)
    with a fa c show ?thesis
      by (auto simp: recheck_controller_def Let_def case_prod_beta)
  qed
  then have "bridge_served d (snd (Handle_dispatch env i m ?b))"
    by (auto intro: served_step step_handle assms(2))
  with a assms(1) show ?thesis by (simp add: Handle_def case_prod_beta)
qed

section \<open>The debug switch\<close>

lemma debug_end_session [simp]: "br_debugEnabled (end_session env sid r st) = br_debugEnabled st"
  by (rule frame_ofD(1) [OF end_session_frame])

lemma debug_end_all [simp]: "br_debugEnabled (end_all env test r st) = br_debugEnabled st"
  by (rule frame_ofD(1) [OF end_all_frame])

lemma debug_expire [simp]: "br_debugEnabled (expire env st) = br_debugEnabled st"
  by (rule frame_ofD(1) [OF expire_frame])

lemma debug_messages [simp]:
  "br_debugEnabled (snd (requestSession env i p m st)) = br_debugEnabled st"
  "br_debugEnabled (snd (acceptSession env p m st)) = br_debugEnabled st"
  "br_debugEnabled (snd (endSession env i m st)) = br_debugEnabled st"
  "br_debugEnabled (snd (requestCommand env p m st)) = br_debugEnabled st"
  "br_debugEnabled (snd (forwardClientEvent env p m st)) = br_debugEnabled st"
  "br_debugEnabled (snd (commandResult env i m st)) = br_debugEnabled st"
  by (auto simp: requestSession_def acceptSession_def endSession_def requestCommand_def forwardClientEvent_def
      commandResult_def Let_def case_prod_beta split: option.splits)

lemma debug_step: "bridge_step op st st' \<Longrightarrow> br_debugEnabled st' = br_debugEnabled st"
  by (induction rule: bridge_step.induct)
    (auto simp: Join_register_def Check_commit_def Handle_dispatch_def Leave_def Sweep_def Let_def case_prod_beta
      split: option.splits)

lemma served_debug: "bridge_served d st \<Longrightarrow> br_debugEnabled st = d"
  by (induction rule: bridge_served.induct) (auto simp: NewUseCase_def dest: debug_step)

end
