(* ===== verification/BridgeSample.thy ===== *)
theory BridgeSample
  imports BridgeService
begin

text \<open>A concrete run of the bridge: a configurator and a client of one workspace, a session, a command.\<close>

definition sample_bridge_ws :: workspace where
  "sample_bridge_ws = \<lparr>w_id = ''w1'', w_identity = ''acme'', w_displayName = ''Acme'', w_description = None,
     w_dataMode = ''live'', w_documentStructure = ''frontend'', w_startupComposition = None, w_configuration = JObj [],
     w_meta = JObj [], w_active = True, w_deletedAt = None, w_headSequence = 1, w_revision = 1,
     w_createdBy = actor_of_id ''u1'', w_updatedBy = actor_of_id ''u1''\<rparr>"

definition sample_bridge_env :: "time \<Rightarrow> string \<Rightarrow> bridge_env" where
  "sample_bridge_env now uuid = \<lparr>be_now = now, be_uuid = uuid, be_order = rev, be_send = (\<lambda>_ _ _. True),
     be_BridgeUser = (\<lambda>_ _. Inr (actor_of_id ''u1'')), be_IsPlatformAdmin = (\<lambda>_. Inr False),
     be_ListWorkspaces = (\<lambda>_ _. Inr [sample_bridge_ws]), be_GetWorkspace = (\<lambda>_. Inr (Some sample_bridge_ws)),
     be_WorkspaceRole = (\<lambda>_ _ _. Inr ''editor'')\<rparr>"

definition sample_hello :: bridge_hello where
  "sample_hello = \<lparr>bh_allWorkspaces = False, bh_protocol = 1, bh_workspaceIdentity = ''acme'', bh_label = ''tab'', bh_debug = True\<rparr>"

definition sample_bridge_principal :: bridge_principal where
  "sample_bridge_principal = \<lparr>bp_userID = ''u1'', bp_sessionID = ''b1'', bp_expiresAt = None\<rparr>"

definition sample_joined :: bridge where
  "sample_joined =
     snd (Join (sample_bridge_env 0 ''j2'') ''app'' ''client'' sample_bridge_principal sample_hello
       (snd (Join (sample_bridge_env 0 ''j1'') ''cfg'' ''configurator'' sample_bridge_principal sample_hello (NewUseCase True))))"

definition sample_ask :: bridge_message where
  "sample_ask = empty_message\<lparr>bm_type := ''requestSession'', bm_id := ''r1'', bm_targetID := ''app''\<rparr>"

definition sample_accept :: bridge_message where
  "sample_accept = empty_message\<lparr>bm_type := ''acceptSession'', bm_sessionID := ''s1'', bm_accepted := True\<rparr>"

definition sample_command :: bridge_message where
  "sample_command = empty_message\<lparr>bm_type := ''getSnapshot'', bm_id := ''q1'', bm_sessionID := ''s1''\<rparr>"

definition sample_requested :: bridge where
  "sample_requested = snd (Handle (sample_bridge_env 1 ''s1'') ''cfg'' sample_ask sample_joined)"

definition sample_accepted :: bridge where
  "sample_accepted = snd (Handle (sample_bridge_env 2 ''x1'') ''app'' sample_accept sample_requested)"

definition sample_commanded :: bridge where
  "sample_commanded = snd (Handle (sample_bridge_env 3 ''c1'') ''cfg'' sample_command sample_accepted)"

lemma sample_order_ok [simp]: "order_ok (sample_bridge_env n u)"
  by (simp add: order_ok_def sample_bridge_env_def)

lemma sample_fresh:
  "fresh_uuid (sample_bridge_env 1 ''s1'') sample_joined"
  "fresh_uuid (sample_bridge_env 2 ''x1'') sample_requested"
  "fresh_uuid (sample_bridge_env 3 ''c1'') sample_accepted"
  unfolding fresh_uuid_def by code_simp+

lemma sample_joined_served: "bridge_served True sample_joined"
  unfolding sample_joined_def by (intro served_Join served_start)

lemma sample_requested_served: "bridge_served True sample_requested"
  unfolding sample_requested_def by (intro served_Handle sample_joined_served sample_order_ok sample_fresh)

lemma sample_accepted_served: "bridge_served True sample_accepted"
  unfolding sample_accepted_def by (intro served_Handle sample_requested_served sample_order_ok sample_fresh)

lemma sample_commanded_served: "bridge_served True sample_commanded"
  unfolding sample_commanded_def by (intro served_Handle sample_accepted_served sample_order_ok sample_fresh)

definition sample_session :: session where
  "sample_session = \<lparr>bs_sessionID = ''s1'', bs_clientID = ''app'', bs_configuratorID = ''cfg'', se_workspace = ''acme'',
     se_requestID = ''r1'', se_active = True, se_deadline = 1800000000002\<rparr>"

lemma sample_session: "oget (br_sessions sample_accepted) ''s1'' = Some sample_session"
  by code_simp

lemma sample_pending: "pending_count ''s1'' sample_commanded = 1"
  by code_simp

end
