(* ===== verification/ArtifactCache.thy ===== *)
theory ArtifactCache
  imports AppErrors
begin

text \<open>
  The reader of release artifacts with its bounded LRU cache: \<open>internal/usecase/release_artifacts\<close>
  (cache.go, reader.go, flight.go). An element of \<open>container/list\<close> is its address with its value, which is never
  assigned again; the map from keys to elements is an association list. The eviction loop has no bound in the code,
  so it is a partial function, whose value \<open>None\<close> is a loop that never ends. Goroutines are the critical sections
  \<open>Read_enter\<close> and \<open>runFlight\<close>; the repository, the operation name and the load time are arguments.
\<close>

section \<open>Data\<close>

record artifact_key =
  ak_workspaceID :: string
  ak_releaseID :: string
  ak_checksum :: string

record release_artifact =
  ra_releaseID :: string
  ra_workspaceID :: string
  ra_identity :: string
  ra_checksum :: string
  ra_data :: string

text \<open>The fields of a release the reader reads.\<close>

record release_ref =
  rl_id :: string
  rl_identity :: string
  rl_checksum :: string

record cache_entry =
  ce_key :: artifact_key
  ce_artifact :: release_artifact
  ce_size :: int

record element =
  el_addr :: nat
  el_value :: cache_entry

record cache_metrics =
  cm_items :: int
  cm_bytes :: int
  cm_evictions :: nat
  cm_requests :: "(string \<times> string) list"
  cm_loads :: "(string \<times> int) list"

record cache_items =
  ca_byKey :: "(artifact_key \<times> element) list"
  ca_lru :: "element list"
  ca_bytes :: int
  ca_next :: nat
  ca_metrics :: cache_metrics

definition newCacheItems :: cache_items where
  "newCacheItems = \<lparr>ca_byKey = [], ca_lru = [], ca_bytes = 0, ca_next = 0,
     ca_metrics = \<lparr>cm_items = 0, cm_bytes = 0, cm_evictions = 0, cm_requests = [], cm_loads = []\<rparr>\<rparr>"

definition cloneArtifact :: "release_artifact \<Rightarrow> release_artifact" where
  "cloneArtifact a = a\<lparr>ra_data := [] @ ra_data a\<rparr>"

section \<open>Metrics\<close>

definition addItems :: "int \<Rightarrow> int \<Rightarrow> cache_items \<Rightarrow> cache_items" where
  "addItems items bytes c = c\<lparr>ca_metrics := (ca_metrics c)\<lparr>cm_items := cm_items (ca_metrics c) + items,
     cm_bytes := cm_bytes (ca_metrics c) + bytes\<rparr>\<rparr>"

definition recordEviction :: "cache_items \<Rightarrow> cache_items" where
  "recordEviction c = c\<lparr>ca_metrics := (ca_metrics c)\<lparr>cm_evictions := cm_evictions (ca_metrics c) + 1\<rparr>\<rparr>"

definition recordRequest :: "string \<Rightarrow> string \<Rightarrow> cache_items \<Rightarrow> cache_items" where
  "recordRequest operation outcome c =
     c\<lparr>ca_metrics := (ca_metrics c)\<lparr>cm_requests := cm_requests (ca_metrics c) @ [(operation, outcome)]\<rparr>\<rparr>"

definition recordLoad :: "string \<Rightarrow> int \<Rightarrow> cache_items \<Rightarrow> cache_items" where
  "recordLoad operation duration c =
     c\<lparr>ca_metrics := (ca_metrics c)\<lparr>cm_loads := cm_loads (ca_metrics c) @ [(operation, duration)]\<rparr>\<rparr>"

section \<open>The cache\<close>

text \<open>\<open>MoveToFront\<close> and \<open>Remove\<close> of a list do nothing with an element that is not in it.\<close>

definition move_to_front :: "element \<Rightarrow> element list \<Rightarrow> element list" where
  "move_to_front e l = (if e \<in> set l then e # filter (\<lambda>x. x \<noteq> e) l else l)"

definition cache_get :: "artifact_key \<Rightarrow> cache_items \<Rightarrow> release_artifact option \<times> cache_items" where
  "cache_get key c = (case map_of (ca_byKey c) key of
      None \<Rightarrow> (None, c)
    | Some e \<Rightarrow> (Some (cloneArtifact (ce_artifact (el_value e))), c\<lparr>ca_lru := move_to_front e (ca_lru c)\<rparr>))"

definition cache_remove :: "element option \<Rightarrow> bool \<Rightarrow> cache_items \<Rightarrow> cache_items" where
  "cache_remove element eviction c = (case element of
      None \<Rightarrow> c
    | Some e \<Rightarrow>
        let value = el_value e;
            c1 = c\<lparr>ca_byKey := filter (\<lambda>(k, _). k \<noteq> ce_key value) (ca_byKey c),
              ca_lru := filter (\<lambda>x. x \<noteq> e) (ca_lru c), ca_bytes := ca_bytes c - ce_size value\<rparr>;
            c2 = addItems (- 1) (- ce_size value) c1
        in if eviction then recordEviction c2 else c2)"

definition list_back :: "element list \<Rightarrow> element option" where
  "list_back l = (if l = [] then None else Some (last l))"

partial_function (option) evict :: "int \<Rightarrow> cache_items \<Rightarrow> cache_items option" where
  "evict maxBytes c =
     (if ca_bytes c > maxBytes then evict maxBytes (cache_remove (list_back (ca_lru c)) True c) else Some c)"

declare evict.simps [code]

definition push_entry :: "artifact_key \<Rightarrow> release_artifact \<Rightarrow> cache_items \<Rightarrow> cache_items" where
  "push_entry key artifact c =
     (let value = \<lparr>ce_key = key, ce_artifact = cloneArtifact artifact, ce_size = int (length (ra_data artifact))\<rparr>;
          e = \<lparr>el_addr = ca_next c, el_value = value\<rparr>
      in addItems 1 (ce_size value)
        (c\<lparr>ca_lru := e # ca_lru c, ca_byKey := (key, e) # filter (\<lambda>(k, _). k \<noteq> key) (ca_byKey c),
           ca_bytes := ca_bytes c + ce_size value, ca_next := ca_next c + 1\<rparr>))"

definition cache_insert :: "artifact_key \<Rightarrow> release_artifact \<Rightarrow> int \<Rightarrow> cache_items \<Rightarrow> cache_items option" where
  "cache_insert key artifact maxBytes c = evict maxBytes (push_entry key artifact c)"

definition stale_version :: "artifact_key \<Rightarrow> artifact_key \<Rightarrow> bool" where
  "stale_version key current \<longleftrightarrow> ak_workspaceID current = ak_workspaceID key \<and> ak_releaseID current = ak_releaseID key
     \<and> ak_checksum current \<noteq> ak_checksum key"

definition drop_stale :: "artifact_key \<Rightarrow> artifact_key \<times> element \<Rightarrow> cache_items \<Rightarrow> cache_items" where
  "drop_stale key entry c =
     (if stale_version key (fst entry) then cache_remove (Some (snd entry)) False c else c)"

definition removeStaleVersions :: "artifact_key \<Rightarrow> cache_items \<Rightarrow> cache_items" where
  "removeStaleVersions key c = fold (drop_stale key) (ca_byKey c) c"

section \<open>The reader\<close>

record cache_config =
  cc_enabled :: bool
  cc_maxBytes :: int
  cc_maxItemBytes :: int

definition config_Validate :: "cache_config \<Rightarrow> unit res" where
  "config_Validate cfg =
     (if \<not> cc_enabled cfg then Inr ()
      else failIf (cc_maxBytes cfg \<le> 0) (Plain ''RELEASE_ARTIFACT_CACHE_MAX_BYTES must be positive when cache is enabled'') (
        failIf (cc_maxItemBytes cfg \<le> 0) (Plain ''RELEASE_ARTIFACT_CACHE_MAX_ITEM_BYTES must be positive when cache is enabled'')
          (Inr ())))"

text \<open>A flight with the request it loads; \<open>fl_outcome\<close> is unset until \<open>done\<close> is closed.\<close>

record load_flight =
  fl_workspaceID :: string
  fl_release :: release_ref
  fl_outcome :: "release_artifact res option"

record reader =
  rd_cache :: cache_items
  rd_inflight :: "(artifact_key \<times> nat) list"
  rd_flights :: "load_flight list"

definition NewReader :: reader where
  "NewReader = \<lparr>rd_cache = newCacheItems, rd_inflight = [], rd_flights = []\<rparr>"

definition key_of :: "string \<Rightarrow> release_ref \<Rightarrow> artifact_key" where
  "key_of workspaceID release =
     \<lparr>ak_workspaceID = workspaceID, ak_releaseID = rl_id release, ak_checksum = rl_checksum release\<rparr>"

definition canStore :: "cache_config \<Rightarrow> int \<Rightarrow> bool" where
  "canStore cfg n \<longleftrightarrow> n \<le> cc_maxItemBytes cfg \<and> n \<le> cc_maxBytes cfg"

definition validateLoadedArtifact :: "release_artifact option \<Rightarrow> string \<Rightarrow> release_ref \<Rightarrow> release_artifact res" where
  "validateLoadedArtifact artifact workspaceID release = (case artifact of
      None \<Rightarrow> Inl (Internal ''release_artifact_inconsistent'')
    | Some a \<Rightarrow>
        failIf (ra_releaseID a \<noteq> rl_id release \<or> ra_workspaceID a \<noteq> workspaceID \<or> ra_identity a \<noteq> rl_identity release
            \<or> ra_checksum a \<noteq> rl_checksum release \<or> length (ra_data a) = 0)
          (Internal ''release_artifact_inconsistent'') (Inr a))"

text \<open>\<open>load\<close> with the repository's answer.\<close>

definition reader_load :: "release_artifact option res \<Rightarrow> string \<Rightarrow> release_ref \<Rightarrow> release_artifact res" where
  "reader_load answer workspaceID release = bindE answer (\<lambda>artifact. validateLoadedArtifact artifact workspaceID release)"

definition loadWithoutCache ::
    "string \<Rightarrow> int \<Rightarrow> release_artifact option res \<Rightarrow> string \<Rightarrow> release_ref \<Rightarrow> cache_items \<Rightarrow> release_artifact res \<times> cache_items" where
  "loadWithoutCache operation duration answer workspaceID release c =
     (let c1 = recordLoad operation duration c in
      case reader_load answer workspaceID release of
        Inl e \<Rightarrow> (Inl e, recordRequest operation ''error'' c1)
      | Inr a \<Rightarrow> (Inr (cloneArtifact a), recordRequest operation ''bypass'' c1))"

datatype read_answer = Hit release_artifact | Await nat | Start nat

text \<open>The critical section of \<open>Read\<close>: a hit, or the flight to wait for, which may have to be started.\<close>

definition Read_enter :: "string \<Rightarrow> string \<Rightarrow> release_ref \<Rightarrow> reader \<Rightarrow> read_answer \<times> reader" where
  "Read_enter operation workspaceID release r =
     (let key = key_of workspaceID release; (hit, c) = cache_get key (rd_cache r) in
      case hit of
        Some a \<Rightarrow> (Hit a, r\<lparr>rd_cache := recordRequest operation ''hit'' c\<rparr>)
      | None \<Rightarrow> (case map_of (rd_inflight r) key of
          Some f \<Rightarrow> (Await f, r\<lparr>rd_cache := c\<rparr>)
        | None \<Rightarrow>
            let f = length (rd_flights r) in
            (Start f, r\<lparr>rd_cache := c, rd_inflight := (key, f) # rd_inflight r,
               rd_flights := rd_flights r @ [\<lparr>fl_workspaceID = workspaceID, fl_release = release, fl_outcome = None\<rparr>]\<rparr>)))"

text \<open>The end of a flight, with the repository's answer.\<close>

definition runFlight ::
    "cache_config \<Rightarrow> string \<Rightarrow> int \<Rightarrow> release_artifact option res \<Rightarrow> nat \<Rightarrow> reader \<Rightarrow> reader option" where
  "runFlight cfg operation duration answer f r =
     (let fl = rd_flights r ! f;
          key = key_of (fl_workspaceID fl) (fl_release fl);
          outcome = reader_load answer (fl_workspaceID fl) (fl_release fl);
          c = recordLoad operation duration (rd_cache r);
          stored = (case outcome of
              Inr a \<Rightarrow>
                if canStore cfg (int (length (ra_data a)))
                then cache_insert key a (cc_maxBytes cfg) (removeStaleVersions key c)
                else Some c
            | Inl _ \<Rightarrow> Some c)
      in case stored of
          None \<Rightarrow> None
        | Some c1 \<Rightarrow> Some (r\<lparr>rd_cache := c1,
            rd_flights := (rd_flights r)[f := fl\<lparr>fl_outcome := Some (map_sum id cloneArtifact outcome)\<rparr>],
            rd_inflight := filter (\<lambda>(k, _). k \<noteq> key) (rd_inflight r)\<rparr>))"

text \<open>\<open>waitForFlight\<close> once the flight is done; before that, or when the request is cancelled, there is no answer.\<close>

definition waitForFlight :: "cache_config \<Rightarrow> string \<Rightarrow> nat \<Rightarrow> reader \<Rightarrow> (release_artifact res \<times> reader) option" where
  "waitForFlight cfg operation f r = (case fl_outcome (rd_flights r ! f) of
      None \<Rightarrow> None
    | Some (Inl e) \<Rightarrow> Some (Inl e, r\<lparr>rd_cache := recordRequest operation ''error'' (rd_cache r)\<rparr>)
    | Some (Inr a) \<Rightarrow> Some (Inr (cloneArtifact a), r\<lparr>rd_cache := recordRequest operation
        (if canStore cfg (int (length (ra_data a))) then ''miss'' else ''bypass'') (rd_cache r)\<rparr>))"

text \<open>One request from start to end, when no other request interferes and its flight, if it starts one, gets the given
  answer.\<close>

definition Read ::
    "cache_config \<Rightarrow> string \<Rightarrow> int \<Rightarrow> release_artifact option res \<Rightarrow> string \<Rightarrow> release_ref \<Rightarrow> reader
     \<Rightarrow> (release_artifact res \<times> reader) option" where
  "Read cfg operation duration answer workspaceID release r =
     (if \<not> cc_enabled cfg then
        (let (a, c) = loadWithoutCache operation duration answer workspaceID release (rd_cache r)
         in Some (a, r\<lparr>rd_cache := c\<rparr>))
      else let (ans, r1) = Read_enter operation workspaceID release r in
        (case ans of
          Hit a \<Rightarrow> Some (Inr a, r1)
        | Await f \<Rightarrow> waitForFlight cfg operation f r1
        | Start f \<Rightarrow> (case runFlight cfg operation duration answer f r1 of
            None \<Rightarrow> None
          | Some r2 \<Rightarrow> waitForFlight cfg operation f r2)))"

end
