(* ===== verification/CacheLaws.thy ===== *)
theory CacheLaws
  imports ArtifactCache
begin

text \<open>
  The laws of the artifact cache: the map and the list hold the same elements and the counters count them
  (\<open>cache_ok\<close>); eviction ends and keeps the longest prefix of the recency list that fits (\<open>fitting\<close>); the
  reader serves only artifacts of the requested version (\<open>reader_ok\<close>).
\<close>

section \<open>The invariant of the cache\<close>

definition el_key :: "element \<Rightarrow> artifact_key" where "el_key e = ce_key (el_value e)"
definition el_size :: "element \<Rightarrow> int" where "el_size e = ce_size (el_value e)"
definition total :: "element list \<Rightarrow> int" where "total l = sum_list (map el_size l)"

definition cache_ok :: "cache_items \<Rightarrow> bool" where
  "cache_ok c \<longleftrightarrow> distinct (map el_key (ca_lru c))
     \<and> distinct (map fst (ca_byKey c)) \<and> set (ca_byKey c) = (\<lambda>e. (el_key e, e)) ` set (ca_lru c)
     \<and> (\<forall>e \<in> set (ca_lru c). 0 \<le> el_size e)
     \<and> ca_bytes c = total (ca_lru c)
     \<and> cm_items (ca_metrics c) = int (length (ca_lru c)) \<and> cm_bytes (ca_metrics c) = ca_bytes c"

lemma cache_okD:
  assumes "cache_ok c"
  shows "distinct (map el_key (ca_lru c))" "distinct (ca_lru c)" "distinct (map fst (ca_byKey c))"
    "set (ca_byKey c) = (\<lambda>e. (el_key e, e)) ` set (ca_lru c)"
    "e \<in> set (ca_lru c) \<Longrightarrow> 0 \<le> el_size e" "ca_bytes c = total (ca_lru c)"
    "cm_items (ca_metrics c) = int (length (ca_lru c))" "cm_bytes (ca_metrics c) = ca_bytes c"
  using assms by (auto simp: cache_ok_def distinct_map)

lemma cache_ok_new: "cache_ok newCacheItems"
  by (simp add: cache_ok_def newCacheItems_def total_def)

lemma cache_ok_record [simp]:
  "cache_ok (recordRequest op x c) = cache_ok c" "cache_ok (recordLoad op n c) = cache_ok c"
  by (simp_all add: cache_ok_def recordRequest_def recordLoad_def)

lemma record_fields [simp]:
  "ca_lru (recordRequest op x c) = ca_lru c" "ca_lru (recordLoad op n c) = ca_lru c"
  "ca_bytes (recordRequest op x c) = ca_bytes c" "ca_bytes (recordLoad op n c) = ca_bytes c"
  "ca_byKey (recordLoad op n c) = ca_byKey c" "ca_byKey (recordRequest op x c) = ca_byKey c"
  by (simp_all add: recordRequest_def recordLoad_def)

lemma total_simps [simp]: "total [] = 0" "total (e # l) = el_size e + total l" "total (l @ m) = total l + total m"
  by (simp_all add: total_def)

lemma filter_other: "distinct l \<Longrightarrow> filter (\<lambda>x. x \<noteq> e) l = remove1 e l"
  by (induction l) (auto simp: filter_id_conv)

lemma total_remove: "distinct l \<Longrightarrow> e \<in> set l \<Longrightarrow> total (filter (\<lambda>x. x \<noteq> e) l) = total l - el_size e"
  by (simp add: filter_other total_def sum_list_map_remove1 [of e l])

lemma length_remove: "distinct l \<Longrightarrow> e \<in> set l \<Longrightarrow> int (length (filter (\<lambda>x. x \<noteq> e) l)) = int (length l) - 1"
  by (simp add: filter_other length_remove1) (metis One_nat_def Suc_pred length_pos_if_in_set of_nat_1 of_nat_diff Suc_leI)

lemma cache_lookup: "cache_ok c \<Longrightarrow> map_of (ca_byKey c) k = Some e \<longleftrightarrow> e \<in> set (ca_lru c) \<and> el_key e = k"
  using cache_okD(3,4) [of c] by (auto dest!: map_of_SomeD)

lemma cache_absent: "cache_ok c \<Longrightarrow> map_of (ca_byKey c) k = None \<longleftrightarrow> k \<notin> el_key ` set (ca_lru c)"
  using cache_okD(4) [of c] by (force simp: map_of_eq_None_iff)

lemma set_move_to_front [simp]: "set (move_to_front e l) = set l"
  by (auto simp: move_to_front_def)

lemma move_to_front_counts:
  assumes "distinct (map el_key l)"
  shows "distinct (map el_key (move_to_front e l))" "total (move_to_front e l) = total l"
    "length (move_to_front e l) = length l"
proof -
  have d: "distinct l" using assms by (simp add: distinct_map)
  have i: "inj_on el_key (set l)" using assms by (simp add: distinct_map)
  have "distinct (move_to_front e l)" using d by (simp add: move_to_front_def)
  then show "distinct (map el_key (move_to_front e l))" using i by (simp add: distinct_map)
  show "total (move_to_front e l) = total l" using total_remove [OF d, of e] by (simp add: move_to_front_def)
  show "length (move_to_front e l) = length l"
    using length_remove [OF d, of e] by (auto simp: move_to_front_def)
qed

lemma cache_ok_get:
  assumes "cache_ok c"
  shows "cache_ok (snd (cache_get k c))" "set (ca_lru (snd (cache_get k c))) = set (ca_lru c)"
    "ca_bytes (snd (cache_get k c)) = ca_bytes c"
    "fst (cache_get k c) = Some a \<Longrightarrow>
      \<exists>e \<in> set (ca_lru c). el_key e = k \<and> a = cloneArtifact (ce_artifact (el_value e))"
    "fst (cache_get k c) = None \<Longrightarrow> k \<notin> el_key ` set (ca_lru c)"
  using assms move_to_front_counts [OF cache_okD(1) [OF assms]] cache_lookup [OF assms, of k] cache_absent [OF assms, of k]
  by (auto simp: cache_get_def cache_ok_def split: option.splits)

lemma cache_remove_fields [simp]:
  "ca_lru (cache_remove (Some e) v c) = filter (\<lambda>x. x \<noteq> e) (ca_lru c)"
  "ca_byKey (cache_remove (Some e) v c) = filter (\<lambda>(k, _). k \<noteq> el_key e) (ca_byKey c)"
  "ca_bytes (cache_remove (Some e) v c) = ca_bytes c - el_size e"
  by (simp_all add: cache_remove_def Let_def addItems_def recordEviction_def el_key_def el_size_def)

lemma cache_remove_metrics [simp]:
  "cm_items (ca_metrics (cache_remove (Some e) v c)) = cm_items (ca_metrics c) - 1"
  "cm_bytes (ca_metrics (cache_remove (Some e) v c)) = cm_bytes (ca_metrics c) - el_size e"
  by (simp_all add: cache_remove_def Let_def addItems_def recordEviction_def el_size_def)

lemma cache_ok_remove:
  assumes ok: "cache_ok c" and e: "e \<in> set (ca_lru c)"
  shows "cache_ok (cache_remove (Some e) v c)"
  unfolding cache_ok_def
proof (intro conjI)
  note D = cache_okD [OF ok]
  let ?c = "cache_remove (Some e) v c"
  show "distinct (map el_key (ca_lru ?c))" "distinct (map fst (ca_byKey ?c))"
    using D(1,3) by (simp_all add: distinct_map_filter)
  have inj: "inj_on el_key (set (ca_lru c))" using D(1) by (simp add: distinct_map)
  show "set (ca_byKey ?c) = (\<lambda>e. (el_key e, e)) ` set (ca_lru ?c)"
    using D(4) inj_onD [OF inj _ _ e] by auto
  show "\<forall>e \<in> set (ca_lru ?c). 0 \<le> el_size e" using D(5) by simp
  show "ca_bytes ?c = total (ca_lru ?c)" using D(6) total_remove [OF D(2) e] by simp
  show "cm_items (ca_metrics ?c) = int (length (ca_lru ?c))" using D(7) length_remove [OF D(2) e] by simp
  show "cm_bytes (ca_metrics ?c) = ca_bytes ?c" using D(8) by simp
qed

section \<open>Eviction\<close>

text \<open>The reference: the longest prefix of the recency list whose sizes fit.\<close>

fun fitting :: "int \<Rightarrow> element list \<Rightarrow> element list" where
  "fitting b [] = []"
| "fitting b (e # l) = (if el_size e \<le> b then e # fitting (b - el_size e) l else [])"

lemma total_nonneg: "(\<And>e. e \<in> set l \<Longrightarrow> 0 \<le> el_size e) \<Longrightarrow> 0 \<le> total l"
  by (induction l) auto

lemma fitting_all: "(\<And>e. e \<in> set l \<Longrightarrow> 0 \<le> el_size e) \<Longrightarrow> total l \<le> b \<Longrightarrow> fitting b l = l"
proof (induction l arbitrary: b)
  case (Cons e l)
  have "0 \<le> total l" using Cons.prems(1) by (intro total_nonneg) simp
  with Cons show ?case by simp
qed simp

lemma fitting_last: "(\<And>e. e \<in> set (l @ [x]) \<Longrightarrow> 0 \<le> el_size e) \<Longrightarrow> b < total (l @ [x]) \<Longrightarrow> fitting b (l @ [x]) = fitting b l"
proof (induction l arbitrary: b)
  case (Cons e l)
  have "fitting (b - el_size e) (l @ [x]) = fitting (b - el_size e) l"
    using Cons.prems by (intro Cons.IH) auto
  then show ?case by simp
qed simp

lemma total_fitting: "0 \<le> b \<Longrightarrow> total (fitting b l) \<le> b"
  by (induction b l rule: fitting.induct) (auto simp: algebra_simps)

lemma set_fitting: "set (fitting b l) \<subseteq> set l"
  by (induction b l rule: fitting.induct) auto

lemma fitting_longest:
  assumes "\<And>e. e \<in> set l \<Longrightarrow> 0 \<le> el_size e" "total (take n l) \<le> b"
  shows "take n l = take n (fitting b l)"
  using assms
proof (induction b l arbitrary: n rule: fitting.induct)
  case (2 b e l)
  show ?case
  proof (cases n)
    case (Suc m)
    have "0 \<le> total (take m l)" using 2(2) by (intro total_nonneg) (auto dest: in_set_takeD)
    then have "el_size e \<le> b" using 2(3) Suc by simp
    then show ?thesis using 2 Suc by simp
  qed simp
qed simp

lemma evict_ends:
  assumes "cache_ok c" "0 \<le> b"
  shows "\<exists>c'. evict b c = Some c' \<and> cache_ok c' \<and> ca_lru c' = fitting b (ca_lru c)"
  using assms(1)
proof (induction "length (ca_lru c)" arbitrary: c rule: less_induct)
  case less
  note D = cache_okD [OF less.prems]
  show ?case
  proof (cases "ca_bytes c > b")
    case False
    then have "fitting b (ca_lru c) = ca_lru c" using D(5,6) by (intro fitting_all) auto
    then show ?thesis using False less.prems by (subst evict.simps) simp
  next
    case True
    then have "ca_lru c \<noteq> []" using D(6) assms(2) by auto
    then obtain l x where l: "ca_lru c = l @ [x]" by (metis rev_exhaust)
    let ?c = "cache_remove (Some x) True c"
    have "x \<notin> set l" using D(2) l by auto
    then have lru: "ca_lru ?c = l" using l by (auto simp: filter_id_conv)
    have "cache_ok ?c" using l by (intro cache_ok_remove [OF less.prems]) simp
    then obtain c' where c': "evict b ?c = Some c'" "cache_ok c'" "ca_lru c' = fitting b (ca_lru ?c)"
      using less.hyps [of ?c] lru l by auto
    have "fitting b (l @ [x]) = fitting b l"
      using D(5,6) True l by (intro fitting_last) auto
    with c' lru l True show ?thesis
      by (subst evict.simps) (simp add: list_back_def)
  qed
qed

lemma push_entry_lru:
  "ca_lru (push_entry key a c) = \<lparr>el_addr = ca_next c, el_value = \<lparr>ce_key = key, ce_artifact = cloneArtifact a,
     ce_size = int (length (ra_data a))\<rparr>\<rparr> # ca_lru c"
  by (simp add: push_entry_def Let_def addItems_def)

lemma cache_ok_push:
  assumes "cache_ok c" "key \<notin> el_key ` set (ca_lru c)"
  shows "cache_ok (push_entry key a c)"
proof -
  note D = cache_okD [OF assms(1)]
  have "filter (\<lambda>(k, _). k \<noteq> key) (ca_byKey c) = ca_byKey c"
    using D(4) assms(2) by (auto simp: filter_id_conv)
  moreover have "key \<notin> fst ` set (ca_byKey c)" using D(4) assms(2) by auto
  ultimately show ?thesis
    using D assms(2) by (auto simp: cache_ok_def push_entry_def Let_def addItems_def el_key_def el_size_def)
qed

section \<open>Stale versions\<close>

lemma stale_loop:
  assumes "cache_ok c" "\<forall>(k, e) \<in> set es. e \<in> set (ca_lru c) \<and> el_key e = k" "distinct (map fst es)"
  shows "cache_ok (fold (drop_stale key) es c) \<and> ca_lru (fold (drop_stale key) es c) =
    filter (\<lambda>e. \<not> (stale_version key (el_key e) \<and> el_key e \<in> fst ` set es)) (ca_lru c)"
  using assms
proof (induction es arbitrary: c)
  case (Cons x es)
  obtain k e where x: "x = (k, e)" by (cases x)
  have e: "e \<in> set (ca_lru c)" "el_key e = k" using Cons.prems(2) x by auto
  let ?c = "drop_stale key x c"
  have inj: "inj_on el_key (set (ca_lru c))" using cache_okD(1) [OF Cons.prems(1)] by (simp add: distinct_map)
  have same: "d = e" if "d \<in> set (ca_lru c)" "el_key d = k" for d
    using inj_onD [OF inj _ that(1) e(1)] that(2) e(2) by simp
  have lru: "ca_lru ?c = filter (\<lambda>d. \<not> (stale_version key (el_key d) \<and> el_key d = k)) (ca_lru c)"
  proof (cases "stale_version key k")
    case True
    then have "ca_lru ?c = filter (\<lambda>d. d \<noteq> e) (ca_lru c)" by (simp add: drop_stale_def x)
    also have "\<dots> = filter (\<lambda>d. \<not> (stale_version key (el_key d) \<and> el_key d = k)) (ca_lru c)"
      using True e(2) same by (intro filter_cong) auto
    finally show ?thesis .
  next
    case False
    then have "filter (\<lambda>d. \<not> (stale_version key (el_key d) \<and> el_key d = k)) (ca_lru c) = ca_lru c"
      by (auto simp: filter_id_conv)
    with False show ?thesis by (simp add: drop_stale_def x)
  qed
  have "cache_ok ?c" using Cons.prems(1) cache_ok_remove [OF Cons.prems(1) e(1)] by (simp add: drop_stale_def x)
  moreover have "d \<in> set (ca_lru ?c) \<and> el_key d = j" if "(j, d) \<in> set es" for j d
  proof -
    have "j \<in> fst ` set es" using that by (rule image_eqI [of _ _ "(j, d)", rotated]) simp
    then have "j \<noteq> k" using Cons.prems(3) x by auto
    moreover have "d \<in> set (ca_lru c) \<and> el_key d = j" using Cons.prems(2) that by auto
    ultimately show ?thesis unfolding lru by simp
  qed
  ultimately have "cache_ok (fold (drop_stale key) es ?c) \<and> ca_lru (fold (drop_stale key) es ?c)
      = filter (\<lambda>e. \<not> (stale_version key (el_key e) \<and> el_key e \<in> fst ` set es)) (ca_lru ?c)"
    using Cons.prems(3) by (intro Cons.IH) auto
  then show ?case unfolding lru by (auto simp: x intro!: filter_cong)
qed simp

lemma removeStaleVersions_ok:
  assumes "cache_ok c"
  shows "cache_ok (removeStaleVersions key c)"
    "ca_lru (removeStaleVersions key c) = filter (\<lambda>e. \<not> stale_version key (el_key e)) (ca_lru c)"
proof -
  note D = cache_okD [OF assms]
  have es: "\<forall>(k, e) \<in> set (ca_byKey c). e \<in> set (ca_lru c) \<and> el_key e = k" using D(4) by auto
  have "filter (\<lambda>e. \<not> (stale_version key (el_key e) \<and> el_key e \<in> fst ` set (ca_byKey c))) (ca_lru c)
      = filter (\<lambda>e. \<not> stale_version key (el_key e)) (ca_lru c)"
    using D(4) by (auto intro!: filter_cong simp: image_iff)
  then show "cache_ok (removeStaleVersions key c)"
    "ca_lru (removeStaleVersions key c) = filter (\<lambda>e. \<not> stale_version key (el_key e)) (ca_lru c)"
    using stale_loop [OF assms es D(3), of key] by (simp_all add: removeStaleVersions_def)
qed

text \<open>A new version: stale versions go, the new element comes to the front, the least recent ones are evicted.\<close>

lemma cache_insert_ok:
  assumes "cache_ok c" "key \<notin> el_key ` set (ca_lru c)" "0 \<le> b"
  shows "\<exists>c'. cache_insert key a b (removeStaleVersions key c) = Some c' \<and> cache_ok c'
    \<and> (\<exists>e. el_value e = \<lparr>ce_key = key, ce_artifact = cloneArtifact a, ce_size = int (length (ra_data a))\<rparr>
         \<and> ca_lru c' = fitting b (e # filter (\<lambda>e. \<not> stale_version key (el_key e)) (ca_lru c)))"
proof -
  note R = removeStaleVersions_ok [OF assms(1), of key]
  have "cache_ok (push_entry key a (removeStaleVersions key c))"
    using assms(2) R by (intro cache_ok_push) auto
  from evict_ends [OF this assms(3)] show ?thesis
    unfolding cache_insert_def push_entry_lru R(2) by force
qed

end
