(* ===== verification/CacheReader.thy ===== *)
theory CacheReader
  imports CacheLaws
begin

text \<open>
  The reader of release artifacts as a state machine of its critical sections, with its invariant: every cached
  artifact and every finished flight carries the artifact of its own key, and there is at most one flight for a
  key that is not cached.
\<close>

definition matches :: "artifact_key \<Rightarrow> release_artifact \<Rightarrow> bool" where
  "matches k a \<longleftrightarrow> ra_workspaceID a = ak_workspaceID k \<and> ra_releaseID a = ak_releaseID k
     \<and> ra_checksum a = ak_checksum k \<and> ra_data a \<noteq> []"

definition flight_key :: "load_flight \<Rightarrow> artifact_key" where
  "flight_key fl = key_of (fl_workspaceID fl) (fl_release fl)"

definition flight_ok :: "load_flight \<Rightarrow> bool" where
  "flight_ok fl \<longleftrightarrow> (case fl_outcome fl of Some (Inr a) \<Rightarrow> matches (flight_key fl) a | _ \<Rightarrow> True)"

definition entries_ok :: "element list \<Rightarrow> bool" where
  "entries_ok l \<longleftrightarrow> (\<forall>e \<in> set l. matches (el_key e) (ce_artifact (el_value e)))"

definition flying :: "reader \<Rightarrow> nat \<Rightarrow> bool" where
  "flying r f \<longleftrightarrow> f < length (rd_flights r) \<and> fl_outcome (rd_flights r ! f) = None"

definition inflight_ok :: "reader \<Rightarrow> bool" where
  "inflight_ok r \<longleftrightarrow> distinct (map fst (rd_inflight r))
     \<and> (\<forall>(k, f) \<in> set (rd_inflight r). flying r f \<and> flight_key (rd_flights r ! f) = k
          \<and> k \<notin> el_key ` set (ca_lru (rd_cache r)))
     \<and> (\<forall>f. flying r f \<longrightarrow> (flight_key (rd_flights r ! f), f) \<in> set (rd_inflight r))"

definition reader_ok :: "cache_config \<Rightarrow> reader \<Rightarrow> bool" where
  "reader_ok cfg r \<longleftrightarrow> cache_ok (rd_cache r) \<and> ca_bytes (rd_cache r) \<le> cc_maxBytes cfg
     \<and> entries_ok (ca_lru (rd_cache r)) \<and> inflight_ok r \<and> (\<forall>fl \<in> set (rd_flights r). flight_ok fl)"

lemma inflight_okD:
  assumes "inflight_ok r" "(k, f) \<in> set (rd_inflight r)"
  shows "flying r f" "flight_key (rd_flights r ! f) = k" "k \<notin> el_key ` set (ca_lru (rd_cache r))"
  using assms by (auto simp: inflight_ok_def)

lemma inflight_okI:
  assumes "distinct (map fst (rd_inflight r))"
    and "\<And>k f. (k, f) \<in> set (rd_inflight r) \<Longrightarrow>
      flying r f \<and> flight_key (rd_flights r ! f) = k \<and> k \<notin> el_key ` set (ca_lru (rd_cache r))"
    and "\<And>f. flying r f \<Longrightarrow> (flight_key (rd_flights r ! f), f) \<in> set (rd_inflight r)"
  shows "inflight_ok r"
  using assms by (auto simp: inflight_ok_def)

lemma matches_clone [simp]: "matches k (cloneArtifact a) = matches k a"
  by (simp add: matches_def cloneArtifact_def)

lemma reader_load_Inr: "reader_load answer ws rl = Inr a \<Longrightarrow> matches (key_of ws rl) a"
  by (auto simp: reader_load_def validateLoadedArtifact_def matches_def key_of_def res_iffs split: option.splits)

lemma reader_ok_new: "0 \<le> cc_maxBytes cfg \<Longrightarrow> reader_ok cfg NewReader"
  by (simp add: reader_ok_def NewReader_def cache_ok_new entries_ok_def inflight_ok_def flying_def)
    (simp add: newCacheItems_def)

text \<open>A change of the cache that keeps its elements.\<close>

lemma reader_ok_cache:
  assumes "reader_ok cfg r" "cache_ok c" "set (ca_lru c) = set (ca_lru (rd_cache r))" "ca_bytes c = ca_bytes (rd_cache r)"
  shows "reader_ok cfg (r\<lparr>rd_cache := c\<rparr>)"
  using assms by (auto simp: reader_ok_def entries_ok_def inflight_ok_def flying_def)

lemma reader_ok_enter:
  assumes ok: "reader_ok cfg r"
  shows "reader_ok cfg (snd (Read_enter op ws rl r))"
proof -
  let ?k = "key_of ws rl"
  obtain hit c where g: "cache_get ?k (rd_cache r) = (hit, c)" by force
  have "cache_ok (rd_cache r)" using ok by (simp add: reader_ok_def)
  note G = cache_ok_get [OF this, of ?k, unfolded g, simplified]
  have rc: "reader_ok cfg (r\<lparr>rd_cache := c\<rparr>)" by (rule reader_ok_cache [OF ok G(1-3)])
  show ?thesis
  proof (cases hit)
    case (Some a)
    have "reader_ok cfg (r\<lparr>rd_cache := recordRequest op ''hit'' c\<rparr>)"
      using G(1-3) by (intro reader_ok_cache [OF ok]) simp_all
    then show ?thesis using Some g by (simp add: Read_enter_def Let_def)
  next
    case None
    show ?thesis
    proof (cases "map_of (rd_inflight r) ?k")
      case (Some f)
      then show ?thesis using None g rc by (simp add: Read_enter_def Let_def)
    next
      case fresh: None
      let ?f = "length (rd_flights r)"
      let ?fl = "\<lparr>fl_workspaceID = ws, fl_release = rl, fl_outcome = None\<rparr>"
      let ?r = "r\<lparr>rd_cache := c, rd_inflight := (?k, ?f) # rd_inflight r, rd_flights := rd_flights r @ [?fl]\<rparr>"
      have absent: "?k \<notin> el_key ` set (ca_lru c)" using G(5,2) None by simp
      have i: "inflight_ok r" using ok by (simp add: reader_ok_def)
      have new: "?k \<notin> fst ` set (rd_inflight r)" using fresh by (simp add: map_of_eq_None_iff)
      have fly: "flying ?r g \<longleftrightarrow> flying r g \<or> g = ?f" for g
        by (auto simp: flying_def nth_append less_Suc_eq)
      have old: "rd_flights ?r ! g = rd_flights r ! g" if "flying r g" for g
        using that by (simp add: flying_def nth_append)
      have "inflight_ok ?r"
      proof (rule inflight_okI)
        show "distinct (map fst (rd_inflight ?r))" using i new by (simp add: inflight_ok_def)
        fix k g assume "(k, g) \<in> set (rd_inflight ?r)"
        then have "(k = ?k \<and> g = ?f) \<or> (k, g) \<in> set (rd_inflight r)" by auto
        then show "flying ?r g \<and> flight_key (rd_flights ?r ! g) = k \<and> k \<notin> el_key ` set (ca_lru (rd_cache ?r))"
        proof
          assume "k = ?k \<and> g = ?f"
          then show ?thesis using absent fly by (simp add: flight_key_def)
        next
          assume "(k, g) \<in> set (rd_inflight r)"
          from inflight_okD [OF i this] show ?thesis using fly old G(2) by simp
        qed
      next
        fix g assume "flying ?r g"
        then show "(flight_key (rd_flights ?r ! g), g) \<in> set (rd_inflight ?r)"
          using i old unfolding fly by (auto simp: inflight_ok_def flight_key_def)
      qed
      then have "reader_ok cfg ?r" using rc by (auto simp: reader_ok_def flight_ok_def)
      then show ?thesis using None fresh g by (simp add: Read_enter_def Let_def)
    qed
  qed
qed

text \<open>The end of a flight, with what it leaves in the cache.\<close>

lemma fitting_ok: "entries_ok l \<Longrightarrow> entries_ok (fitting b l)"
  using set_fitting by (auto simp: entries_ok_def)

lemma flight_store:
  fixes op :: string and n :: int
  assumes ok: "reader_ok cfg r" and max: "0 \<le> cc_maxBytes cfg" and fly: "flying r f" and m: "matches (flight_key (rd_flights r ! f)) a"
  defines "key \<equiv> flight_key (rd_flights r ! f)"
  defines "c \<equiv> recordLoad op n (rd_cache r)"
  shows "\<exists>c' e. cache_insert key a (cc_maxBytes cfg) (removeStaleVersions key c) = Some c' \<and> cache_ok c'
    \<and> el_value e = \<lparr>ce_key = key, ce_artifact = cloneArtifact a, ce_size = int (length (ra_data a))\<rparr>
    \<and> ca_lru c' = fitting (cc_maxBytes cfg) (e # filter (\<lambda>x. \<not> stale_version key (el_key x)) (ca_lru (rd_cache r)))
    \<and> entries_ok (ca_lru c') \<and> ca_bytes c' \<le> cc_maxBytes cfg
    \<and> set (ca_lru c') \<subseteq> insert e (set (ca_lru (rd_cache r)))"
proof -
  have cok: "cache_ok c" using ok by (simp add: reader_ok_def c_def)
  have lru: "ca_lru c = ca_lru (rd_cache r)" by (simp add: c_def)
  have "(key, f) \<in> set (rd_inflight r)" using ok fly by (simp add: reader_ok_def inflight_ok_def key_def)
  then have "key \<notin> el_key ` set (ca_lru c)" using ok unfolding lru reader_ok_def inflight_ok_def by auto
  from cache_insert_ok [OF cok this max, of a] obtain c' e where
      c': "cache_insert key a (cc_maxBytes cfg) (removeStaleVersions key c) = Some c'" "cache_ok c'"
    and e: "el_value e = \<lparr>ce_key = key, ce_artifact = cloneArtifact a, ce_size = int (length (ra_data a))\<rparr>"
    and l: "ca_lru c' = fitting (cc_maxBytes cfg) (e # filter (\<lambda>x. \<not> stale_version key (el_key x)) (ca_lru c))"
    by blast
  have "entries_ok (e # filter (\<lambda>x. \<not> stale_version key (el_key x)) (ca_lru c))"
    using ok m e unfolding lru by (auto simp: reader_ok_def entries_ok_def el_key_def key_def)
  then have "entries_ok (ca_lru c')" unfolding l by (rule fitting_ok)
  moreover have "ca_bytes c' \<le> cc_maxBytes cfg"
    unfolding cache_okD(6) [OF c'(2)] l by (rule total_fitting [OF max])
  moreover have "set (ca_lru c') \<subseteq> insert e (set (ca_lru (rd_cache r)))"
    using set_fitting [of "cc_maxBytes cfg" "e # filter (\<lambda>x. \<not> stale_version key (el_key x)) (ca_lru c)"] unfolding l lru by auto
  ultimately show ?thesis using c' e l unfolding lru by blast
qed

text \<open>Closing a flight, whatever it left in the cache.\<close>

lemma close_flight:
  assumes ok: "reader_ok cfg r" and fly: "flying r f"
    and c: "cache_ok c" "entries_ok (ca_lru c)" "ca_bytes c \<le> cc_maxBytes cfg"
      "el_key ` set (ca_lru c) \<subseteq> insert (flight_key (rd_flights r ! f)) (el_key ` set (ca_lru (rd_cache r)))"
    and out: "case out of Inr a \<Rightarrow> matches (flight_key (rd_flights r ! f)) a | Inl _ \<Rightarrow> True"
  shows "reader_ok cfg (r\<lparr>rd_cache := c, rd_flights := (rd_flights r)[f := (rd_flights r ! f)\<lparr>fl_outcome := Some out\<rparr>],
    rd_inflight := filter (\<lambda>(k, _). k \<noteq> flight_key (rd_flights r ! f)) (rd_inflight r)\<rparr>)" (is "reader_ok cfg ?r")
proof -
  let ?key = "flight_key (rd_flights r ! f)" and ?fl = "(rd_flights r ! f)\<lparr>fl_outcome := Some out\<rparr>"
  have i: "inflight_ok r" and flights: "\<forall>fl \<in> set (rd_flights r). flight_ok fl" using ok by (simp_all add: reader_ok_def)
  have fly': "flying ?r g \<longleftrightarrow> flying r g \<and> g \<noteq> f" for g
    using fly by (auto simp: flying_def nth_list_update)
  have same: "rd_flights ?r ! g = rd_flights r ! g" if "g \<noteq> f" for g using that by simp
  have own: "g = f" if "(?key, g) \<in> set (rd_inflight r)" for g
    using i fly that by (auto simp: inflight_ok_def dest: eq_key_imp_eq_value)
  have "flight_ok ?fl" using out by (simp add: flight_ok_def flight_key_def split: sum.splits)
  then have "\<forall>fl \<in> set (rd_flights ?r). flight_ok fl"
    using flights set_update_subset_insert [of "rd_flights r" f ?fl] by auto
  moreover have "inflight_ok ?r"
  proof (rule inflight_okI)
    show "distinct (map fst (rd_inflight ?r))" using i by (simp add: inflight_ok_def distinct_map_filter)
    fix k g assume "(k, g) \<in> set (rd_inflight ?r)"
    then have m: "(k, g) \<in> set (rd_inflight r)" "k \<noteq> ?key" by auto
    note I = inflight_okD [OF i m(1)]
    have gf: "g \<noteq> f" using I(2) m(2) by auto
    show "flying ?r g \<and> flight_key (rd_flights ?r ! g) = k \<and> k \<notin> el_key ` set (ca_lru (rd_cache ?r))"
      using I gf m(2) c(4) unfolding fly' same [OF gf] by auto
  next
    fix g assume "flying ?r g"
    then have g: "flying r g" "g \<noteq> f" unfolding fly' by auto
    then have "(flight_key (rd_flights r ! g), g) \<in> set (rd_inflight r)" using i by (simp add: inflight_ok_def)
    then show "(flight_key (rd_flights ?r ! g), g) \<in> set (rd_inflight ?r)" using g own by auto
  qed
  ultimately show ?thesis using c by (simp add: reader_ok_def)
qed

lemma runFlight_ends:
  assumes ok: "reader_ok cfg r" and max: "0 \<le> cc_maxBytes cfg" and fly: "flying r f"
  shows "\<exists>r'. runFlight cfg op n answer f r = Some r' \<and> reader_ok cfg r' \<and> length (rd_flights r') = length (rd_flights r)
    \<and> fl_outcome (rd_flights r' ! f) = Some (map_sum id cloneArtifact
        (reader_load answer (fl_workspaceID (rd_flights r ! f)) (fl_release (rd_flights r ! f))))
    \<and> (\<forall>a. reader_load answer (fl_workspaceID (rd_flights r ! f)) (fl_release (rd_flights r ! f)) = Inr a \<longrightarrow>
        canStore cfg (int (length (ra_data a))) \<longrightarrow>
        (\<exists>e. el_value e = \<lparr>ce_key = flight_key (rd_flights r ! f), ce_artifact = cloneArtifact a, ce_size = int (length (ra_data a))\<rparr>
          \<and> ca_lru (rd_cache r') = fitting (cc_maxBytes cfg)
              (e # filter (\<lambda>x. \<not> stale_version (flight_key (rd_flights r ! f)) (el_key x)) (ca_lru (rd_cache r)))))"
proof -
  define fl where "fl = rd_flights r ! f"
  define out where "out = reader_load answer (fl_workspaceID fl) (fl_release fl)"
  define c where "c = recordLoad op n (rd_cache r)"
  have len: "f < length (rd_flights r)" using fly by (simp add: flying_def)
  have keep: "cache_ok c" "entries_ok (ca_lru c)" "ca_bytes c \<le> cc_maxBytes cfg" "ca_lru c = ca_lru (rd_cache r)"
    using ok by (simp_all add: reader_ok_def c_def)
  have good: "case map_sum id cloneArtifact out of Inr a \<Rightarrow> matches (flight_key fl) a | Inl _ \<Rightarrow> True"
    unfolding out_def flight_key_def by (cases "reader_load answer (fl_workspaceID fl) (fl_release fl)") (auto dest: reader_load_Inr)
  note close = close_flight [OF ok fly, folded fl_def, where out = "map_sum id cloneArtifact out"]
  show ?thesis
  proof (cases "\<exists>a. out = Inr a \<and> canStore cfg (int (length (ra_data a)))")
    case True
    then obtain a where a: "out = Inr a" "canStore cfg (int (length (ra_data a)))" by blast
    have "matches (flight_key fl) a" using good a(1) by simp
    from flight_store [OF ok max fly, folded fl_def, OF this, where op = op and n = n, folded c_def] obtain c' e where
        c': "cache_insert (flight_key fl) a (cc_maxBytes cfg) (removeStaleVersions (flight_key fl) c) = Some c'"
          "cache_ok c'" "entries_ok (ca_lru c')" "ca_bytes c' \<le> cc_maxBytes cfg"
          "set (ca_lru c') \<subseteq> insert e (set (ca_lru (rd_cache r)))"
      and e: "el_value e = \<lparr>ce_key = flight_key fl, ce_artifact = cloneArtifact a, ce_size = int (length (ra_data a))\<rparr>"
        "ca_lru c' = fitting (cc_maxBytes cfg) (e # filter (\<lambda>x. \<not> stale_version (flight_key fl) (el_key x)) (ca_lru (rd_cache r)))"
      by blast
    have "el_key e = flight_key fl" using e(1) by (simp add: el_key_def)
    then have "el_key ` set (ca_lru c') \<subseteq> insert (flight_key fl) (el_key ` set (ca_lru (rd_cache r)))" using c'(5) by blast
    from close [OF c'(2-4) this good] show ?thesis
      using c'(1) a e len unfolding runFlight_def fl_def [symmetric] Let_def flight_key_def [symmetric] out_def [symmetric] c_def [symmetric]
      by (auto simp: fl_def [symmetric])
  next
    case False
    have "el_key ` set (ca_lru c) \<subseteq> insert (flight_key fl) (el_key ` set (ca_lru (rd_cache r)))" using keep(4) by auto
    from close [OF keep(1-3) this good] False show ?thesis
      using len unfolding runFlight_def fl_def [symmetric] Let_def flight_key_def [symmetric] out_def [symmetric] c_def [symmetric]
      by (auto simp: fl_def [symmetric] split: sum.splits)
  qed
qed

section \<open>The state machine\<close>

inductive reader_step :: "cache_config \<Rightarrow> reader \<Rightarrow> reader \<Rightarrow> bool" for cfg where
  step_enter: "reader_step cfg r (snd (Read_enter op ws rl r))"
| step_flight: "flying r f \<Longrightarrow> runFlight cfg op n answer f r = Some r' \<Longrightarrow> reader_step cfg r r'"
| step_wait: "waitForFlight cfg op f r = Some (a, r') \<Longrightarrow> reader_step cfg r r'"

inductive reader_served :: "cache_config \<Rightarrow> reader \<Rightarrow> bool" for cfg where
  reader_start: "reader_served cfg NewReader"
| reader_next: "reader_served cfg r \<Longrightarrow> reader_step cfg r r' \<Longrightarrow> reader_served cfg r'"

inductive_cases reader_step_elim: "reader_step cfg r r'"

lemma reader_ok_wait:
  assumes "reader_ok cfg r" "waitForFlight cfg op f r = Some (a, r')"
  shows "reader_ok cfg r'"
proof -
  obtain x where "r' = r\<lparr>rd_cache := recordRequest op x (rd_cache r)\<rparr>"
    using assms(2) by (auto simp: waitForFlight_def split: option.splits sum.splits)
  moreover have "cache_ok (rd_cache r)" using assms(1) by (simp add: reader_ok_def)
  ultimately show ?thesis using reader_ok_cache [OF assms(1)] by simp
qed

lemma reader_served_ok:
  assumes "reader_served cfg r" "0 \<le> cc_maxBytes cfg"
  shows "reader_ok cfg r"
  using assms
proof (induction rule: reader_served.induct)
  case reader_start
  then show ?case by (rule reader_ok_new)
next
  case (reader_next r r')
  from reader_next.hyps(2) have "reader_ok cfg r \<Longrightarrow> reader_ok cfg r'"
  proof (cases rule: reader_step.cases)
    case (step_flight f op n answer)
    show "reader_ok cfg r \<Longrightarrow> reader_ok cfg r'"
      using runFlight_ends [OF _ reader_next.prems step_flight(1), of op n answer] step_flight(2) by auto
  qed (auto intro: reader_ok_enter reader_ok_wait)
  with reader_next show ?case by simp
qed

lemma config_max: "config_Validate cfg = Inr () \<Longrightarrow> cc_enabled cfg \<Longrightarrow> 0 \<le> cc_maxBytes cfg"
  by (auto simp: config_Validate_def failIf_def split: if_splits)

end
