(* ===== verification/AccessGrants.thy ===== *)
theory AccessGrants
  imports Database AccessPolicy
begin

text \<open>
  The tables behind access control and their repository: \<open>access_control_repository.go\<close>,
  \<open>external_access_repository.go\<close>, \<open>user_repository.go\<close> and the membership part of
  \<open>workspaces_repository.go\<close>. A unique index is kept by an \<open>ON CONFLICT\<close> clause; a check or a foreign
  key that fails is a driver error. The workspaces do not change here. Parameters: the random identifiers, how PostgreSQL
  reads an identifier (\<open>ae_uuid_of\<close>), \<open>uuid.Parse\<close>, the hash of a list of grants, the clock.
\<close>

section \<open>Tables\<close>

record service_user =
  su_id :: id
  su_provider :: string
  su_subject :: string
  su_issuer :: string
  su_username :: string
  su_displayName :: string
  su_active :: bool
  su_system :: bool

record grant_row =
  ag_id :: id
  ag_user :: id
  ag_scope :: string
  ag_workspace :: "id option"
  ag_role :: string
  ag_createdBy :: id
  ag_updatedBy :: id
  ag_createdAt :: time
  ag_updatedAt :: time

record member_row =
  mb_workspace :: id
  mb_user :: id
  mb_role :: string
  mb_createdBy :: id

record external_state =
  ex_config :: string
  ex_token :: string
  ex_issued :: time
  ex_grants :: string

record external_row = external_state +
  ex_user :: id
  ex_synced :: time

record acc_db =
  acc_users :: "service_user list"
  acc_workspaces :: "workspace list"
  acc_grants :: "grant_row list"
  acc_members :: "member_row list"
  acc_external :: "external_row list"

record access_env =
  ae_now :: time
  ae_newid :: "id list \<Rightarrow> id"
  ae_uuid_of :: "string \<Rightarrow> id option"
  ae_uuid_Parse :: "string \<Rightarrow> bool"
  ae_grantsHash :: "grant list \<Rightarrow> string"

definition AccessRoleAdmin :: string where "AccessRoleAdmin = ''admin''"
definition AccessScopePlatform :: string where "AccessScopePlatform = ''platform''"
definition AccessScopeWorkspace :: string where "AccessScopeWorkspace = ''workspace''"
definition AccessSelectionChosen :: string where "AccessSelectionChosen = ''selected''"

lemmas access_consts [go_simps] =
  AccessRoleAdmin_def AccessScopePlatform_def AccessScopeWorkspace_def AccessSelectionChosen_def

text \<open>An identifier in a query: text that is no identifier fails the statement.\<close>

definition uuid_arg :: "access_env \<Rightarrow> string \<Rightarrow> id res" where
  "uuid_arg env s = (case ae_uuid_of env s of
      None \<Rightarrow> Inl (Plain ''invalid input syntax for type uuid'')
    | Some i \<Rightarrow> Inr i)"

definition acc_user :: "acc_db \<Rightarrow> id \<Rightarrow> service_user option" where
  "acc_user db i = find (\<lambda>u. su_id u = i) (acc_users db)"

definition human :: "service_user \<Rightarrow> bool" where
  "human u \<longleftrightarrow> su_active u \<and> \<not> su_system u"

definition is_human :: "acc_db \<Rightarrow> id \<Rightarrow> bool" where
  "is_human db i \<longleftrightarrow> list_ex (\<lambda>u. su_id u = i \<and> human u) (acc_users db)"

section \<open>Users\<close>

record upsert_user =
  uu_provider :: string
  uu_subject :: string
  uu_issuer :: string
  uu_username :: string
  uu_displayName :: string

definition user_of :: "service_user \<Rightarrow> user" where
  "user_of u = \<lparr>u_id = su_id u, u_username = su_username u, u_displayName = su_displayName u, u_active = su_active u\<rparr>"

definition same_identity :: "upsert_user \<Rightarrow> service_user \<Rightarrow> bool" where
  "same_identity input u \<longleftrightarrow> su_provider u = trim_space (uu_provider input)
     \<and> su_subject u = trim_space (uu_subject input) \<and> su_issuer u = trim_space (uu_issuer input)"

definition renamed :: "upsert_user \<Rightarrow> service_user \<Rightarrow> service_user" where
  "renamed input u = u\<lparr>
     su_username := (if trim_space (uu_username input) \<noteq> [] then trim_space (uu_username input) else su_username u),
     su_displayName := (if trim_space (uu_displayName input) \<noteq> [] then trim_space (uu_displayName input) else su_displayName u)\<rparr>"

definition UpsertCurrentUser :: "access_env \<Rightarrow> upsert_user \<Rightarrow> acc_db \<Rightarrow> user \<times> acc_db" where
  "UpsertCurrentUser env input db = (case find (same_identity input) (acc_users db) of
      Some u \<Rightarrow> (user_of (renamed input u),
        db\<lparr>acc_users := updateWhere (\<lambda>v. su_id v = su_id u) (renamed input) (acc_users db)\<rparr>)
    | None \<Rightarrow>
        let u = \<lparr>su_id = ae_newid env (map su_id (acc_users db)), su_provider = trim_space (uu_provider input),
              su_subject = trim_space (uu_subject input), su_issuer = trim_space (uu_issuer input),
              su_username = trim_space (uu_username input), su_displayName = trim_space (uu_displayName input),
              su_active = True, su_system = False\<rparr>
        in (user_of u, db\<lparr>acc_users := acc_users db @ [u]\<rparr>))"

section \<open>Counting administrators\<close>

definition platform_of :: "id \<Rightarrow> grant_row \<Rightarrow> bool" where
  "platform_of i g \<longleftrightarrow> ag_scope g = AccessScopePlatform \<and> ag_user g = i"

definition workspace_of :: "id \<Rightarrow> id \<Rightarrow> grant_row \<Rightarrow> bool" where
  "workspace_of ws i g \<longleftrightarrow> ag_scope g = AccessScopeWorkspace \<and> ag_workspace g = Some ws \<and> ag_user g = i"

definition live_admin :: "acc_db \<Rightarrow> grant_row \<Rightarrow> bool" where
  "live_admin db g \<longleftrightarrow> ag_scope g = AccessScopePlatform \<and> is_human db (ag_user g)"

definition HasPlatformAdmins :: "acc_db \<Rightarrow> bool" where
  "HasPlatformAdmins db \<longleftrightarrow> list_ex (live_admin db) (acc_grants db)"

definition CountPlatformAdmins :: "acc_db \<Rightarrow> nat" where
  "CountPlatformAdmins db = length (filter (live_admin db) (acc_grants db))"

definition IsPlatformAdmin :: "access_env \<Rightarrow> string \<Rightarrow> acc_db \<Rightarrow> bool res" where
  "IsPlatformAdmin env userID db = bindE (uuid_arg env userID) (\<lambda>i. Inr (list_ex (platform_of i) (acc_grants db)))"

definition CountHumanUsers :: "acc_db \<Rightarrow> nat" where
  "CountHumanUsers db = length (filter human (acc_users db))"

section \<open>External state\<close>

definition external_of :: "id \<Rightarrow> acc_db \<Rightarrow> external_row option" where
  "external_of i db = find (\<lambda>x. ex_user x = i) (acc_external db)"

definition GetExternalAccessState :: "access_env \<Rightarrow> string \<Rightarrow> acc_db \<Rightarrow> external_row option res" where
  "GetExternalAccessState env userID db = bindE (uuid_arg env userID) (\<lambda>i. Inr (external_of i db))"

definition HasExternalAccessHistory :: "acc_db \<Rightarrow> bool" where
  "HasExternalAccessHistory db \<longleftrightarrow> acc_external db \<noteq> []"

definition invalidateExternalAccess :: "access_env \<Rightarrow> string \<Rightarrow> acc_db \<Rightarrow> acc_db res" where
  "invalidateExternalAccess env userID db = bindE (uuid_arg env userID) (\<lambda>i.
     Inr (db\<lparr>acc_external := updateWhere (\<lambda>x. ex_user x = i \<and> ex_config x \<noteq> []) (\<lambda>x. x\<lparr>ex_config := []\<rparr>) (acc_external db)\<rparr>))"

section \<open>Grants\<close>

record access_grant_user =
  gu_id :: id
  gu_provider :: string
  gu_username :: string
  gu_displayName :: string
  gu_active :: bool

record access_grant =
  gr_id :: id
  gr_scope :: string
  gr_workspaceID :: "id option"
  gr_workspaceIdentity :: "string option"
  gr_workspaceDisplayName :: "string option"
  gr_role :: string
  gr_user :: access_grant_user
  gr_createdBy :: actor
  gr_updatedBy :: actor

definition grant_user :: "service_user \<Rightarrow> access_grant_user" where
  "grant_user u = \<lparr>gu_id = su_id u, gu_provider = su_provider u, gu_username = su_username u,
     gu_displayName = su_displayName u, gu_active = su_active u\<rparr>"

definition su_actor :: "service_user \<Rightarrow> actor" where
  "su_actor u = \<lparr>ac_id = su_id u, ac_username = su_username u, ac_displayName = su_displayName u\<rparr>"

definition acc_ws :: "acc_db \<Rightarrow> id \<Rightarrow> workspace option" where
  "acc_ws db i = find (\<lambda>w. w_id w = i) (acc_workspaces db)"

text \<open>\<open>accessGrantSelect\<close>: inner joins with the users, a left join with the workspace.\<close>

definition scanAccessGrant :: "acc_db \<Rightarrow> grant_row \<Rightarrow> access_grant option" where
  "scanAccessGrant db g = (case (acc_user db (ag_user g), acc_user db (ag_createdBy g), acc_user db (ag_updatedBy g)) of
      (Some u, Some cu, Some uu) \<Rightarrow>
        (let w = (case ag_workspace g of None \<Rightarrow> None | Some i \<Rightarrow> acc_ws db i) in
         Some \<lparr>gr_id = ag_id g, gr_scope = ag_scope g, gr_workspaceID = ag_workspace g,
           gr_workspaceIdentity = map_option w_identity w, gr_workspaceDisplayName = map_option w_displayName w,
           gr_role = ag_role g, gr_user = grant_user u, gr_createdBy = su_actor cu, gr_updatedBy = su_actor uu\<rparr>)
    | _ \<Rightarrow> None)"

definition GetAccessGrant :: "access_env \<Rightarrow> string \<Rightarrow> acc_db \<Rightarrow> access_grant res" where
  "GetAccessGrant env grantID db = bindE (uuid_arg env grantID) (\<lambda>i.
     case find (\<lambda>g. ag_id g = i) (acc_grants db) of
       None \<Rightarrow> Inl RowNotFound
     | Some g \<Rightarrow> (case scanAccessGrant db g of None \<Rightarrow> Inl RowNotFound | Some v \<Rightarrow> Inr v))"

record grant_input =
  gi_user :: id
  gi_scope :: string
  gi_workspace :: "id option"
  gi_role :: string
  gi_actor :: id

definition grant_role_ok :: "string \<Rightarrow> bool" where
  "grant_role_ok role \<longleftrightarrow> role \<in> set [''viewer'', ''editor'', ''admin'']"

text \<open>\<open>INSERT ... ON CONFLICT DO UPDATE\<close> on the grants: the row of the same subject gets the role and the
  editor, otherwise a new row is appended. The check of the role and the key of the editor may fail.\<close>

definition put_grant ::
    "access_env \<Rightarrow> (grant_row \<Rightarrow> bool) \<Rightarrow> id \<Rightarrow> string \<Rightarrow> id option \<Rightarrow> string \<Rightarrow> id \<Rightarrow> acc_db \<Rightarrow> (id \<times> acc_db) res" where
  "put_grant env same i scope ws role who db =
     failIf (\<not> grant_role_ok role) check_violation (
     failIf (acc_user db who = None) fk_violation (
     case find same (acc_grants db) of
       Some g \<Rightarrow> Inr (ag_id g, db\<lparr>acc_grants :=
         updateWhere same (\<lambda>g. g\<lparr>ag_role := role, ag_updatedBy := who, ag_updatedAt := ae_now env\<rparr>) (acc_grants db)\<rparr>)
     | None \<Rightarrow>
         let k = ae_newid env (map ag_id (acc_grants db)) in
         Inr (k, db\<lparr>acc_grants := acc_grants db @ [\<lparr>ag_id = k, ag_user = i, ag_scope = scope, ag_workspace = ws,
           ag_role = role, ag_createdBy = who, ag_updatedBy = who, ag_createdAt = ae_now env, ag_updatedAt = ae_now env\<rparr>]\<rparr>)))"

definition member_of :: "id \<Rightarrow> id \<Rightarrow> member_row \<Rightarrow> bool" where
  "member_of ws i m \<longleftrightarrow> mb_workspace m = ws \<and> mb_user m = i"

definition put_member :: "id \<Rightarrow> id \<Rightarrow> string \<Rightarrow> id \<Rightarrow> acc_db \<Rightarrow> acc_db" where
  "put_member ws i role who db =
     (if list_ex (member_of ws i) (acc_members db)
      then db\<lparr>acc_members := updateWhere (member_of ws i) (\<lambda>m. m\<lparr>mb_role := role\<rparr>) (acc_members db)\<rparr>
      else db\<lparr>acc_members := acc_members db @ [\<lparr>mb_workspace = ws, mb_user = i, mb_role = role, mb_createdBy = who\<rparr>]\<rparr>)"

definition del_member :: "id \<Rightarrow> id \<Rightarrow> acc_db \<Rightarrow> acc_db" where
  "del_member ws i db = db\<lparr>acc_members := filter (\<lambda>m. \<not> member_of ws i m) (acc_members db)\<rparr>"

definition UpsertAccessGrant :: "access_env \<Rightarrow> grant_input \<Rightarrow> acc_db \<Rightarrow> ((access_grant \<times> bool) \<times> acc_db) res" where
  "UpsertAccessGrant env input db =
     bindE (invalidateExternalAccess env (gi_user input) db) (\<lambda>db.
     bindE (uuid_arg env (gi_user input)) (\<lambda>i.
     bindE (uuid_arg env (gi_actor input)) (\<lambda>who.
     if gi_scope input = AccessScopePlatform then
       let created = \<not> list_ex (platform_of i) (acc_grants db) in
       failIf (\<not> is_human db i) RowNotFound (
       bindE (put_grant env (platform_of i) i AccessScopePlatform None AccessRoleAdmin who db) (\<lambda>(k, db).
       bindE (GetAccessGrant env k db) (\<lambda>g. Inr ((g, created), db))))
     else (case gi_workspace input of
         None \<Rightarrow> Inl (Plain ''workspace id is required'')
       | Some wid \<Rightarrow>
           bindE (uuid_arg env wid) (\<lambda>ws.
           let created = \<not> list_ex (workspace_of ws i) (acc_grants db) in
           failIf (\<not> is_human db i \<or> acc_ws db ws = None) RowNotFound (
           bindE (put_grant env (workspace_of ws i) i AccessScopeWorkspace (Some ws) (gi_role input) who db) (\<lambda>(k, db).
           let db = put_member ws i (gi_role input) who db in
           bindE (GetAccessGrant env k db) (\<lambda>g. Inr ((g, created), db)))))))))"

definition DeleteAccessGrant :: "access_env \<Rightarrow> string \<Rightarrow> acc_db \<Rightarrow> acc_db res" where
  "DeleteAccessGrant env grantID db =
     bindE (GetAccessGrant env grantID db) (\<lambda>g.
     bindE (invalidateExternalAccess env (gu_id (gr_user g)) db) (\<lambda>db.
     bindE (uuid_arg env grantID) (\<lambda>k.
     let db1 = (if gr_scope g = AccessScopeWorkspace
           then (case gr_workspaceID g of None \<Rightarrow> db | Some ws \<Rightarrow> del_member ws (gu_id (gr_user g)) db) else db) in
     failIf (\<not> list_ex (\<lambda>x. ag_id x = k) (acc_grants db1)) RowNotFound (
     Inr (db1\<lparr>acc_grants := filter (\<lambda>x. ag_id x \<noteq> k) (acc_grants db1)\<rparr>)))))"

definition put_external :: "access_env \<Rightarrow> id \<Rightarrow> external_state \<Rightarrow> acc_db \<Rightarrow> acc_db" where
  "put_external env i state db =
     (let row = \<lparr>ex_config = ex_config state, ex_token = ex_token state, ex_issued = ex_issued state,
           ex_grants = ex_grants state, ex_user = i, ex_synced = ae_now env\<rparr> in
      if list_ex (\<lambda>x. ex_user x = i) (acc_external db)
      then db\<lparr>acc_external := updateWhere (\<lambda>x. ex_user x = i) (\<lambda>_. row) (acc_external db)\<rparr>
      else db\<lparr>acc_external := acc_external db @ [row]\<rparr>)"

definition upsert_step :: "access_env \<Rightarrow> grant_input \<Rightarrow> acc_db \<Rightarrow> acc_db res" where
  "upsert_step env input db = bindE (UpsertAccessGrant env input db) (\<lambda>(_, db). Inr db)"

definition ReplaceExternalAccess :: "access_env \<Rightarrow> string \<Rightarrow> grant_input list \<Rightarrow> external_state \<Rightarrow> acc_db \<Rightarrow> acc_db res" where
  "ReplaceExternalAccess env userID grants state db =
     bindE (uuid_arg env userID) (\<lambda>i.
     let db1 = db\<lparr>acc_members := filter (\<lambda>m. mb_user m \<noteq> i) (acc_members db)\<rparr>;
         db2 = db1\<lparr>acc_grants := filter (\<lambda>g. ag_user g \<noteq> i) (acc_grants db1)\<rparr> in
     bindE (foldE (upsert_step env) grants db2) (\<lambda>db3.
     failIf (acc_user db3 i = None) fk_violation (
     Inr (put_external env i state db3))))"

section \<open>Lists\<close>

text \<open>\<open>LIKE\<close> of PostgreSQL: a percent sign matches any text, an underscore any character, a backslash quotes
  the next one.\<close>

fun like_match :: "string \<Rightarrow> string \<Rightarrow> bool" where
  "like_match [] s \<longleftrightarrow> s = []"
| "like_match (p # ps) [] \<longleftrightarrow> p = CHR ''%'' \<and> like_match ps []"
| "like_match (p # ps) (c # s) \<longleftrightarrow>
     (if p = CHR ''%'' then like_match ps (c # s) \<or> like_match (p # ps) s
      else if p = CHR ''_'' then like_match ps s
      else if p = CHR 0x5C then (case ps of [] \<Rightarrow> False | q # qs \<Rightarrow> q = c \<and> like_match qs s)
      else p = c \<and> like_match ps s)"

record access_cursor =
  cu_username :: string
  cu_id :: id

record 'a grant_page =
  pg_items :: "'a list"
  pg_next :: "access_cursor option"

text \<open>Keyset pagination: the rows after the cursor, in the order of the key, one more than asked for to see whether
  there is a next page. Text is compared in the order of its bytes.\<close>

definition access_after :: "('a \<Rightarrow> string \<times> id) \<Rightarrow> access_cursor option \<Rightarrow> 'a \<Rightarrow> bool" where
  "access_after key cursor x = (case cursor of
      None \<Rightarrow> True
    | Some c \<Rightarrow> to_lower (cu_username c) < fst (key x)
        \<or> (to_lower (cu_username c) = fst (key x) \<and> cu_id c < snd (key x)))"

definition access_sorted :: "('a \<Rightarrow> string \<times> id) \<Rightarrow> 'a list \<Rightarrow> 'a list" where
  "access_sorted key xs = sort_key (\<lambda>x. fst (key x)) (sort_key (\<lambda>x. snd (key x)) xs)"

definition access_page ::
    "('a \<Rightarrow> string \<times> id) \<Rightarrow> ('a \<Rightarrow> access_cursor) \<Rightarrow> access_cursor option \<Rightarrow> nat \<Rightarrow> 'a list \<Rightarrow> 'a grant_page" where
  "access_page key next_of cursor limit xs =
     (let items = take (limit + 1) (access_sorted key (filter (access_after key cursor) xs)) in
      if length items > limit
      then \<lparr>pg_items = take limit items, pg_next = Some (next_of (items ! (limit - 1)))\<rparr>
      else \<lparr>pg_items = items, pg_next = None\<rparr>)"

text \<open>\<open>SearchServiceUsers\<close>: active people by the prefix of their name.\<close>

definition user_key :: "access_grant_user \<Rightarrow> string \<times> id" where
  "user_key u = (to_lower (gu_username u), gu_id u)"

definition SearchServiceUsers :: "string \<Rightarrow> access_cursor option \<Rightarrow> nat \<Rightarrow> acc_db \<Rightarrow> access_grant_user grant_page" where
  "SearchServiceUsers query cursor limit db =
     access_page user_key (\<lambda>u. \<lparr>cu_username = gu_username u, cu_id = gu_id u\<rparr>) cursor limit
       (map grant_user (filter (\<lambda>u. human u
         \<and> like_match (to_lower (trim_space query) @ ''%'') (to_lower (su_username u))) (acc_users db)))"

record grant_filter =
  gf_scope :: string
  gf_workspace :: "id option"
  gf_user :: "string option"
  gf_query :: string

definition grant_listed :: "grant_filter \<Rightarrow> id option \<Rightarrow> access_grant \<Rightarrow> bool" where
  "grant_listed f user g \<longleftrightarrow> gr_scope g = gf_scope f
     \<and> (case gf_workspace f of None \<Rightarrow> True | Some ws \<Rightarrow> gr_workspaceID g = Some ws)
     \<and> (case user of None \<Rightarrow> True | Some u \<Rightarrow> gu_id (gr_user g) = u)
     \<and> (to_lower (trim_space (gf_query f)) = []
        \<or> like_match (to_lower (trim_space (gf_query f)) @ ''%'') (to_lower (gu_username (gr_user g))))"

definition grant_list_key :: "access_grant \<Rightarrow> string \<times> id" where
  "grant_list_key g = (to_lower (gu_username (gr_user g)), gr_id g)"

definition ListAccessGrants ::
    "access_env \<Rightarrow> grant_filter \<Rightarrow> access_cursor option \<Rightarrow> nat \<Rightarrow> acc_db \<Rightarrow> access_grant grant_page res" where
  "ListAccessGrants env f cursor limit db =
     bindE (case gf_user f of None \<Rightarrow> Inr None | Some u \<Rightarrow> bindE (uuid_arg env u) (\<lambda>i. Inr (Some i))) (\<lambda>user.
     Inr (access_page grant_list_key (\<lambda>g. \<lparr>cu_username = gu_username (gr_user g), cu_id = gr_id g\<rparr>) cursor limit
       (filter (grant_listed f user) (List.map_filter (scanAccessGrant db) (acc_grants db)))))"

section \<open>Workspaces and memberships\<close>

definition GetWorkspace :: "string \<Rightarrow> acc_db \<Rightarrow> workspace res" where
  "GetWorkspace identity db = (case find (\<lambda>w. w_identity w = identity \<and> w_deletedAt w = None) (acc_workspaces db) of
      None \<Rightarrow> Inl RowNotFound
    | Some w \<Rightarrow> Inr w)"

definition ListWorkspaces :: "id \<Rightarrow> bool \<Rightarrow> acc_db \<Rightarrow> workspace list" where
  "ListWorkspaces i platform db = sort_key w_identity (filter (\<lambda>w. w_deletedAt w = None
     \<and> (platform \<or> list_ex (workspace_of (w_id w) i) (acc_grants db))) (acc_workspaces db))"

definition WorkspaceRole :: "id \<Rightarrow> id \<Rightarrow> bool \<Rightarrow> acc_db \<Rightarrow> string res" where
  "WorkspaceRole ws i platform db =
     (if platform then Inr ''platform_admin''
      else case acc_ws db ws of
        None \<Rightarrow> Inl RowNotFound
      | Some w \<Rightarrow>
          if w_deletedAt w \<noteq> None then Inl RowNotFound
          else Inr (case find (workspace_of ws i) (acc_grants db) of None \<Rightarrow> [] | Some g \<Rightarrow> ag_role g))"

record membership =
  ms_workspace :: id
  ms_user :: id
  ms_role :: string
  ms_username :: string
  ms_displayName :: string

definition membership_of :: "acc_db \<Rightarrow> grant_row \<Rightarrow> membership option" where
  "membership_of db g = (case (ag_workspace g, acc_user db (ag_user g)) of
      (Some ws, Some u) \<Rightarrow> Some \<lparr>ms_workspace = ws, ms_user = ag_user g, ms_role = ag_role g,
        ms_username = su_username u, ms_displayName = su_displayName u\<rparr>
    | _ \<Rightarrow> None)"

definition repo_ListMemberships :: "id \<Rightarrow> acc_db \<Rightarrow> membership list" where
  "repo_ListMemberships ws db = sort_key ms_username (sort_key ms_user (List.map_filter (membership_of db)
     (filter (\<lambda>g. ag_scope g = AccessScopeWorkspace \<and> ag_workspace g = Some ws) (acc_grants db))))"

definition repo_PutMembership :: "access_env \<Rightarrow> id \<Rightarrow> string \<Rightarrow> string \<Rightarrow> id \<Rightarrow> acc_db \<Rightarrow> (membership \<times> acc_db) res" where
  "repo_PutMembership env ws userID role who db =
     bindE (invalidateExternalAccess env userID db) (\<lambda>db.
     bindE (uuid_arg env userID) (\<lambda>i.
     failIf (\<not> is_human db i \<or> acc_ws db ws = None) RowNotFound (
     bindE (put_grant env (workspace_of ws i) i AccessScopeWorkspace (Some ws) role who db) (\<lambda>(_, db).
     let db = put_member ws i role who db in
     case find (workspace_of ws i) (acc_grants db) of
       None \<Rightarrow> Inl RowNotFound
     | Some g \<Rightarrow> (case membership_of db g of None \<Rightarrow> Inl RowNotFound | Some v \<Rightarrow> Inr (v, db))))))"

definition repo_DeleteMembership :: "access_env \<Rightarrow> id \<Rightarrow> string \<Rightarrow> acc_db \<Rightarrow> acc_db res" where
  "repo_DeleteMembership env ws userID db =
     bindE (invalidateExternalAccess env userID db) (\<lambda>db.
     bindE (uuid_arg env userID) (\<lambda>i.
     let db1 = del_member ws i db in
     failIf (\<not> list_ex (workspace_of ws i) (acc_grants db1)) RowNotFound (
     Inr (db1\<lparr>acc_grants := filter (\<lambda>g. \<not> workspace_of ws i g) (acc_grants db1)\<rparr>))))"

end
