(* ===== verification/AccessControl.thy ===== *)
theory AccessControl
  imports AccessGrants AccessTokens
begin

text \<open>
  Access control: \<open>internal/usecase/access_control\<close> (usecase.go, external.go) and the membership commands of
  \<open>usecase/workspaces/memberships.go\<close> over the tables of theory AccessGrants. A command that fails keeps the
  tables: it runs in one transaction. The text form of a page cursor is a parameter (\<open>decode\<close>).
\<close>

section \<open>Resolving the current actor\<close>

record access_snapshot =
  sn_config :: string
  sn_token :: string
  sn_issued :: "time option"
  sn_expires :: time
  sn_grants :: "grant list"

definition external_input :: "access_env \<Rightarrow> user \<Rightarrow> grant \<Rightarrow> acc_db \<Rightarrow> grant_input res" where
  "external_input env u mapped db =
     (let g = \<lparr>gi_user = u_id u, gi_scope = g_scope mapped, gi_workspace = None, gi_role = g_role mapped, gi_actor = u_id u\<rparr> in
      if g_scope mapped = AccessScopePlatform then Inr g
      else bindE (GetWorkspace (g_workspace mapped) db) (\<lambda>w.
        failIf (\<not> w_active w) (Forbidden ''external_access_workspace_inactive'') (
        Inr (g\<lparr>gi_workspace := Some (w_id w)\<rparr>))))"

definition external_inputs :: "access_env \<Rightarrow> user \<Rightarrow> grant list \<Rightarrow> acc_db \<Rightarrow> grant_input list res" where
  "external_inputs env u mapped db =
     foldE (\<lambda>m gs. bindE (external_input env u m db) (\<lambda>g. Inr (gs @ [g]))) mapped []"

text \<open>The comparison with the previous synchronization: refuse, nothing to do (\<open>True\<close>), or replace.\<close>

definition external_decision :: "external_state \<Rightarrow> external_row option \<Rightarrow> bool res" where
  "external_decision state previous = (case previous of
      None \<Rightarrow> Inr False
    | Some p \<Rightarrow>
        failIf (ex_issued state < ex_issued p) (Forbidden ''external_access_stale'') (
        failIf (ex_config state = ex_config p \<and> ex_issued state = ex_issued p \<and> ex_token state \<noteq> ex_token p
            \<and> ex_grants state \<noteq> ex_grants p) (Forbidden ''external_access_ambiguous'') (
        Inr (ex_config state = ex_config p \<and> ex_issued state = ex_issued p \<and> ex_grants state = ex_grants p))))"

definition resolveExternalActor ::
    "access_env \<Rightarrow> policy option \<Rightarrow> upsert_user \<Rightarrow> access_snapshot option \<Rightarrow> acc_db \<Rightarrow> ((user \<times> bool) \<times> acc_db) res" where
  "resolveExternalActor env pol input snapshot db = (case snapshot of
      None \<Rightarrow> Inl (Forbidden ''external_access_invalid'')
    | Some sn \<Rightarrow> (case sn_issued sn of
        None \<Rightarrow> Inl (Forbidden ''external_access_invalid'')
      | Some issued \<Rightarrow>
          failIf (sn_config sn \<noteq> policy_Version pol \<or> uu_provider input \<noteq> Provider pol \<or> sn_token sn = []
              \<or> \<not> ae_now env < sn_expires sn) (Forbidden ''external_access_invalid'') (
          let (u, db1) = UpsertCurrentUser env input db in
          if \<not> u_active u then Inr ((u, False), db1)
          else
            failIf (\<not> ae_now env < sn_expires sn) (Forbidden ''external_access_expired'') (
            bindE (external_inputs env u (sn_grants sn) db1) (\<lambda>grants.
            let platform = list_ex (\<lambda>m. g_scope m = AccessScopePlatform) (sn_grants sn);
                state = \<lparr>ex_config = sn_config sn, ex_token = sn_token sn, ex_issued = issued,
                  ex_grants = ae_grantsHash env (sn_grants sn)\<rparr> in
            bindE (GetExternalAccessState env (u_id u) db1) (\<lambda>previous.
            bindE (external_decision state previous) (\<lambda>same.
            if same then Inr ((u, platform), db1)
            else bindE (ReplaceExternalAccess env (u_id u) grants state db1) (\<lambda>db2. Inr ((u, platform), db2)))))))))"

text \<open>The first person of an empty installation becomes the platform administrator.\<close>

definition bootstrap_allowed :: "bool \<Rightarrow> acc_db \<Rightarrow> bool" where
  "bootstrap_allowed legacyPlatformAdmin db \<longleftrightarrow>
     legacyPlatformAdmin \<or> (\<not> HasPlatformAdmins db \<and> CountHumanUsers db = 1 \<and> \<not> HasExternalAccessHistory db)"

definition resolve_bootstrap :: "access_env \<Rightarrow> upsert_user \<Rightarrow> bool \<Rightarrow> acc_db \<Rightarrow> ((user \<times> bool) \<times> acc_db) res" where
  "resolve_bootstrap env input legacyPlatformAdmin db =
     (let (u, db1) = UpsertCurrentUser env input db in
      if \<not> u_active u then Inr ((u, False), db1)
      else bindE (IsPlatformAdmin env (u_id u) db1) (\<lambda>platform.
        if platform then Inr ((u, True), db1)
        else if bootstrap_allowed legacyPlatformAdmin db1 then
          bindE (UpsertAccessGrant env \<lparr>gi_user = u_id u, gi_scope = AccessScopePlatform, gi_workspace = None,
              gi_role = AccessRoleAdmin, gi_actor = u_id u\<rparr> db1) (\<lambda>(_, db2). Inr ((u, True), db2))
        else Inr ((u, False), db1)))"

definition ResolveCurrentActor ::
    "access_env \<Rightarrow> policy option \<Rightarrow> upsert_user \<Rightarrow> bool \<Rightarrow> access_snapshot option \<Rightarrow> acc_db \<Rightarrow> ((user \<times> bool) \<times> acc_db) res" where
  "ResolveCurrentActor env pol input legacyPlatformAdmin snapshot db =
     (if External pol then resolveExternalActor env pol input snapshot db
      else if HasPlatformAdmins db \<and> \<not> legacyPlatformAdmin then
        let (u, db1) = UpsertCurrentUser env input db in
        bindE (IsPlatformAdmin env (u_id u) db1) (\<lambda>platform. Inr ((u, platform), db1))
      else resolve_bootstrap env input legacyPlatformAdmin db)"

text \<open>\<open>Management\<close>: the mode, the source and the last synchronization of the user.\<close>

definition access_Management :: "access_env \<Rightarrow> policy option \<Rightarrow> string \<Rightarrow> acc_db \<Rightarrow> ((string \<times> string) \<times> time option) res" where
  "access_Management env pol userID db =
     (if \<not> External pol then Inr (Management pol, None)
      else bindE (GetExternalAccessState env userID db) (\<lambda>state. Inr (Management pol, map_option ex_synced state)))"

section \<open>Guards\<close>

definition platformAdminRequired :: goerr where
  "platformAdminRequired = Forbidden ''platform_admin_required''"

definition validWorkspaceRole :: "string \<Rightarrow> bool" where
  "validWorkspaceRole role \<longleftrightarrow> role = ''viewer'' \<or> role = ''editor'' \<or> role = AccessRoleAdmin"

definition normalizedLimit :: "int \<Rightarrow> int \<Rightarrow> int \<Rightarrow> int" where
  "normalizedLimit v fallback maximum = (if v \<le> 0 then fallback else if v > maximum then maximum else v)"

definition requireWorkspaceAdmin :: "ctx \<Rightarrow> string \<Rightarrow> acc_db \<Rightarrow> workspace res" where
  "requireWorkspaceAdmin c identity db =
     bindE (ctx_Actor c) (\<lambda>(current, u).
     failIf (trim_space identity = []) (InvalidInput ''workspace_identity_required'') (
     bindE (notFoundAs (NotFound ''workspace_not_found'') (GetWorkspace (trim_space identity) db)) (\<lambda>w.
     bindE (WorkspaceRole (w_id w) (u_id u) (ca_platformAdmin current) db) (\<lambda>role.
     failIf (role \<noteq> AccessRoleAdmin \<and> role \<noteq> ''platform_admin'') (Forbidden ''workspace_admin_required'') (
     Inr w)))))"

definition requireGrantAdmin :: "ctx \<Rightarrow> string \<Rightarrow> acc_db \<Rightarrow> unit res" where
  "requireGrantAdmin c identity db =
     bindE (ctx_Actor c) (\<lambda>(current, u).
     if ca_platformAdmin current then Inr ()
     else bindE (requireWorkspaceAdmin c identity db) (\<lambda>_. Inr ()))"

section \<open>Queries\<close>

definition access_SearchUsers ::
    "(string \<Rightarrow> access_cursor option res) \<Rightarrow> ctx \<Rightarrow> string \<Rightarrow> string \<Rightarrow> string \<Rightarrow> int \<Rightarrow> acc_db \<Rightarrow> access_grant_user grant_page res" where
  "access_SearchUsers decode c query workspaceIdentity cursor limit db =
     (let query = trim_space query in
      failIf (rune_count query < 2) (InvalidInput ''user_query_too_short'') (
      bindE (requireGrantAdmin c workspaceIdentity db) (\<lambda>_.
      bindE (decode cursor) (\<lambda>after.
      Inr (SearchServiceUsers query after (nat (normalizedLimit limit 20 50)) db)))))"

record access_list_input =
  al_scope :: string
  al_workspace :: string
  al_user :: string
  al_query :: string
  al_cursor :: string
  al_limit :: int

text \<open>The part of \<open>List\<close> that chooses the filter: workspace and user.\<close>

definition list_scope :: "access_env \<Rightarrow> ctx \<Rightarrow> access_list_input \<Rightarrow> string \<Rightarrow> current_actor \<Rightarrow> acc_db \<Rightarrow> (id option \<times> string option) res" where
  "list_scope env c input scope current db =
     (let user = trim_space (al_user input) in
      if scope = AccessScopePlatform then
        failIf (\<not> ca_platformAdmin current) platformAdminRequired (
        if user \<noteq> [] then failIf (\<not> ae_uuid_Parse env user) (InvalidInput ''access_user_id_invalid'') (Inr (None, Some user))
        else Inr (None, None))
      else if user \<noteq> [] then
        failIf (\<not> ca_platformAdmin current) platformAdminRequired (
        failIf (\<not> ae_uuid_Parse env user) (InvalidInput ''access_user_id_invalid'') (Inr (None, Some user)))
      else bindE (requireWorkspaceAdmin c (al_workspace input) db) (\<lambda>w. Inr (Some (w_id w), None)))"

definition access_List ::
    "access_env \<Rightarrow> (string \<Rightarrow> access_cursor option res) \<Rightarrow> ctx \<Rightarrow> access_list_input \<Rightarrow> acc_db \<Rightarrow> access_grant grant_page res" where
  "access_List env decode c input db =
     (let scope = trim_space (al_scope input) in
      failIf (scope \<noteq> AccessScopePlatform \<and> scope \<noteq> AccessScopeWorkspace) (InvalidInput ''access_scope_invalid'') (
      bindE (ctx_Actor c) (\<lambda>(current, u).
      bindE (list_scope env c input scope current db) (\<lambda>(ws, user).
      bindE (decode (al_cursor input)) (\<lambda>after.
      ListAccessGrants env \<lparr>gf_scope = scope, gf_workspace = ws, gf_user = user, gf_query = al_query input\<rparr> after
        (nat (normalizedLimit (al_limit input) 50 100)) db)))))"

section \<open>Commands\<close>

record access_put_input =
  ap_user :: string
  ap_scope :: string
  ap_workspace :: string
  ap_role :: string

definition access_Put :: "access_env \<Rightarrow> policy option \<Rightarrow> ctx \<Rightarrow> access_put_input \<Rightarrow> acc_db \<Rightarrow> (access_grant \<times> acc_db) res" where
  "access_Put env pol c input db =
     bindE (RequireLocal pol) (\<lambda>_.
     bindE (ctx_Actor c) (\<lambda>(current, u).
     failIf (\<not> ae_uuid_Parse env (trim_space (ap_user input))) (InvalidInput ''access_user_id_invalid'') (
     let scope = trim_space (ap_scope input); role = trim_space (ap_role input);
         g = \<lparr>gi_user = ap_user input, gi_scope = scope, gi_workspace = None, gi_role = role, gi_actor = u_id u\<rparr> in
     bindE (if scope = AccessScopePlatform then
          failIf (\<not> ca_platformAdmin current) platformAdminRequired (
          failIf (role \<noteq> ''admin'') (InvalidInput ''platform_role_invalid'') (Inr g))
        else if scope = ''workspace'' then
          failIf (\<not> validWorkspaceRole role) (InvalidInput ''workspace_role_invalid'') (
          bindE (requireWorkspaceAdmin c (ap_workspace input) db) (\<lambda>w. Inr (g\<lparr>gi_workspace := Some (w_id w)\<rparr>)))
        else Inl (InvalidInput ''access_scope_invalid'')) (\<lambda>g.
     bindE (notFoundAs (NotFound ''access_target_not_found'') (UpsertAccessGrant env g db)) (\<lambda>((v, _), db1).
     Inr (v, db1))))))"

definition access_Delete :: "access_env \<Rightarrow> policy option \<Rightarrow> ctx \<Rightarrow> string \<Rightarrow> acc_db \<Rightarrow> acc_db res" where
  "access_Delete env pol c grantID db =
     bindE (RequireLocal pol) (\<lambda>_.
     failIf (\<not> ae_uuid_Parse env (trim_space grantID)) (InvalidInput ''access_grant_id_invalid'') (
     bindE (ctx_Actor c) (\<lambda>(current, u).
     bindE (notFoundAs (NotFound ''access_grant_not_found'') (GetAccessGrant env grantID db)) (\<lambda>g.
     bindE (if gr_scope g = AccessScopePlatform then
          failIf (\<not> ca_platformAdmin current) platformAdminRequired (
          failIf (CountPlatformAdmins db \<le> 1) (Conflict ''last_platform_admin_required'') (Inr ()))
        else (case gr_workspaceIdentity g of
            None \<Rightarrow> Inl (Internal ''access_workspace_missing'')
          | Some identity \<Rightarrow> bindE (requireWorkspaceAdmin c identity db) (\<lambda>_. Inr ()))) (\<lambda>_.
     notFoundAs (NotFound ''access_grant_not_found'') (DeleteAccessGrant env grantID db))))))"

record access_bulk_input =
  ab_user :: string
  ab_role :: string
  ab_selection :: string
  ab_workspaces :: "string list"

record bulk_result =
  bk_affected :: int
  bk_created :: int
  bk_updated :: int

text \<open>One round of the loop over the chosen workspaces.\<close>

definition bulk_step ::
    "access_env \<Rightarrow> access_bulk_input \<Rightarrow> id \<Rightarrow> workspace \<Rightarrow> bulk_result \<times> acc_db \<Rightarrow> (bulk_result \<times> acc_db) res" where
  "bulk_step env input who w st =
     (let (r, db) = st in
      bindE (notFoundAs (NotFound ''access_target_not_found'') (UpsertAccessGrant env
        \<lparr>gi_user = ab_user input, gi_scope = AccessScopeWorkspace, gi_workspace = Some (w_id w), gi_role = ab_role input,
          gi_actor = who\<rparr> db)) (\<lambda>((_, created), db1).
      Inr (r\<lparr>bk_affected := bk_affected r + 1, bk_created := bk_created r + (if created then 1 else 0),
        bk_updated := bk_updated r + (if created then 0 else 1)\<rparr>, db1)))"

definition access_Bulk :: "access_env \<Rightarrow> policy option \<Rightarrow> ctx \<Rightarrow> access_bulk_input \<Rightarrow> acc_db \<Rightarrow> (bulk_result \<times> acc_db) res" where
  "access_Bulk env pol c input db =
     bindE (RequireLocal pol) (\<lambda>_.
     bindE (ctx_Actor c) (\<lambda>(current, u).
     failIf (\<not> ca_platformAdmin current) platformAdminRequired (
     failIf (\<not> ae_uuid_Parse env (trim_space (ab_user input))) (InvalidInput ''access_user_id_invalid'') (
     failIf (\<not> validWorkspaceRole (ab_role input)) (InvalidInput ''workspace_role_invalid'') (
     let chosen = (ab_selection input = AccessSelectionChosen);
         selected = remdups (map trim_space (ab_workspaces input));
         targets = filter (\<lambda>w. w_active w \<and> (\<not> chosen \<or> w_identity w \<in> set selected)) (ListWorkspaces (u_id u) True db) in
     failIf (chosen \<and> selected = []) (InvalidInput ''workspace_selection_required'') (
     failIf (\<not> chosen \<and> ab_selection input \<noteq> ''all-active'') (InvalidInput ''workspace_selection_invalid'') (
     bindE (foldE (bulk_step env input (u_id u)) targets (\<lparr>bk_affected = 0, bk_created = 0, bk_updated = 0\<rparr>, db)) (\<lambda>(r, db1).
     failIf (chosen \<and> length (remdups (map w_identity targets)) \<noteq> length selected) (NotFound ''workspace_not_found'') (
     Inr (r, db1))))))))))"

section \<open>Memberships\<close>

definition acc_Authorize :: "ctx \<Rightarrow> string \<Rightarrow> acc_db \<Rightarrow> workspace_access res" where
  "acc_Authorize c identity db =
     Authorize (\<lambda>i. GetWorkspace i db) (\<lambda>ws i platform. WorkspaceRole ws i platform db) c identity"

definition ListMemberships :: "ctx \<Rightarrow> string \<Rightarrow> acc_db \<Rightarrow> membership list res" where
  "ListMemberships c identity db =
     bindE (acc_Authorize c identity db) (\<lambda>scope.
     failIf (\<not> CanAdmin (wa_role scope)) (Forbidden ''workspace_admin_required'') (
     Inr (repo_ListMemberships (w_id (wa_workspace scope)) db)))"

definition PutMembership ::
    "access_env \<Rightarrow> policy option \<Rightarrow> ctx \<Rightarrow> string \<Rightarrow> string \<Rightarrow> string \<Rightarrow> acc_db \<Rightarrow> (membership \<times> acc_db) res" where
  "PutMembership env pol c identity userID role db =
     bindE (RequireLocal pol) (\<lambda>_.
     bindE (ctx_Actor c) (\<lambda>(current, u).
     bindE (acc_Authorize c identity db) (\<lambda>scope.
     failIf (\<not> CanAdmin (wa_role scope)) (Forbidden ''workspace_admin_required'') (
     failIf (role \<notin> set [''viewer'', ''editor'', ''admin'']) (InvalidInput ''membership_role_invalid'') (
     MapNotFound (repo_PutMembership env (w_id (wa_workspace scope)) userID role (u_id u) db))))))"

definition DeleteMembership :: "access_env \<Rightarrow> policy option \<Rightarrow> ctx \<Rightarrow> string \<Rightarrow> string \<Rightarrow> acc_db \<Rightarrow> acc_db res" where
  "DeleteMembership env pol c identity userID db =
     bindE (RequireLocal pol) (\<lambda>_.
     bindE (acc_Authorize c identity db) (\<lambda>scope.
     failIf (\<not> CanAdmin (wa_role scope)) (Forbidden ''workspace_admin_required'') (
     MapNotFound (repo_DeleteMembership env (w_id (wa_workspace scope)) userID db))))"

end
