(* ===== verification/AccessLaws.thy ===== *)
theory AccessLaws
  imports AccessControl
begin

text \<open>
  The laws of access control. The grants are an access control list: a partial map from subjects (scope, workspace, user) to
  roles (\<open>roles\<close>). While the tables are in order (\<open>acl_ok\<close>: identifiers and subjects are unique, the membership table
  mirrors the workspace grants) each statement of the repository is one change of that map (\<open>acl_apply\<close>), and it marks the
  external state of the user it touches (\<open>acl_touched\<close>). Loops over such statements share the locale \<open>acl_writer\<close>.
\<close>

section \<open>Tables as maps\<close>

definition table_map :: "('r \<Rightarrow> 'k) \<Rightarrow> ('r \<Rightarrow> 'v) \<Rightarrow> 'r list \<Rightarrow> 'k \<rightharpoonup> 'v" where
  "table_map key val rows = map_of (map (\<lambda>r. (key r, val r)) rows)"

lemma table_map_None: "table_map key val rows k = None \<longleftrightarrow> k \<notin> key ` set rows"
  by (auto simp: table_map_def map_of_eq_None_iff image_iff)

lemma table_map_simps [simp]:
  "table_map key val [] = Map.empty"
  "table_map key val (r # rows) = (table_map key val rows)(key r \<mapsto> val r)"
  by (simp_all add: table_map_def)

lemma table_map_insert:
  "k \<notin> key ` set rows \<Longrightarrow> key new = k \<Longrightarrow> table_map key val (rows @ [new]) = (table_map key val rows)(k \<mapsto> val new)"
  by (induction rows) (auto simp: fun_eq_iff)

lemma table_map_update:
  assumes "\<And>r. key (f r) = key r" "\<And>r. val (f r) = v" "k \<in> key ` set rows"
  shows "table_map key val (updateWhere (\<lambda>r. key r = k) f rows) = (table_map key val rows)(k \<mapsto> v)"
  using assms(3)
proof (induction rows)
  case (Cons r rows)
  show ?case
  proof (cases "k \<in> key ` set rows")
    case True
    with Cons assms(1,2) show ?thesis by (cases "key r = k") (auto simp: fun_eq_iff)
  next
    case False
    with Cons.prems have "key r = k" by auto
    moreover have "updateWhere (\<lambda>r. key r = k) f rows = rows" by (rule updateWhere_none) (use False in auto)
    ultimately show ?thesis using assms(1,2) by (auto simp: fun_eq_iff)
  qed
qed simp

lemma table_map_filter: "table_map key val (filter (\<lambda>r. P (key r)) rows) = (table_map key val rows) |` {k. P k}"
  by (induction rows) (auto simp: table_map_def restrict_map_def fun_eq_iff)

lemma table_map_distinct:
  "distinct (map key rows) \<Longrightarrow> r \<in> set rows \<Longrightarrow> table_map key val rows (key r) = Some (val r)"
  by (induction rows) (auto simp: table_map_def image_iff)

section \<open>The access control list\<close>

type_synonym subject = "string \<times> id option \<times> id"
type_synonym acl = "subject \<rightharpoonup> string"

definition subject_of :: "grant_row \<Rightarrow> subject" where
  "subject_of g = (ag_scope g, ag_workspace g, ag_user g)"

definition roles :: "acc_db \<Rightarrow> acl" where
  "roles db = table_map subject_of ag_role (acc_grants db)"

definition member_roles :: "acc_db \<Rightarrow> id \<times> id \<rightharpoonup> string" where
  "member_roles db = table_map (\<lambda>m. (mb_workspace m, mb_user m)) mb_role (acc_members db)"

definition subject_formed :: "subject \<Rightarrow> bool" where
  "subject_formed s \<longleftrightarrow> (case s of (scope, ws, i) \<Rightarrow>
     scope = AccessScopePlatform \<and> ws = None \<or> scope = AccessScopeWorkspace \<and> ws \<noteq> None)"

definition grants_ok :: "(string \<Rightarrow> id option) \<Rightarrow> acc_db \<Rightarrow> bool" where
  "grants_ok U db \<longleftrightarrow> distinct (map ag_id (acc_grants db)) \<and> distinct (map subject_of (acc_grants db))
     \<and> list_all (\<lambda>g. subject_formed (subject_of g) \<and> U (ag_user g) = Some (ag_user g)) (acc_grants db)"

definition mirrored :: "acc_db \<Rightarrow> bool" where
  "mirrored db \<longleftrightarrow> member_roles db = (\<lambda>(ws, i). roles db (AccessScopeWorkspace, Some ws, i))"

definition acl_ok :: "(string \<Rightarrow> id option) \<Rightarrow> acc_db \<Rightarrow> bool" where
  "acl_ok U db \<longleftrightarrow> grants_ok U db \<and> mirrored db"

lemma subject_tests:
  "workspace_of w i g \<longleftrightarrow> subject_of g = (AccessScopeWorkspace, Some w, i)"
  "subject_formed (subject_of g) \<Longrightarrow> platform_of i g \<longleftrightarrow> subject_of g = (AccessScopePlatform, None, i)"
  by (auto simp: subject_of_def workspace_of_def platform_of_def subject_formed_def access_consts)

text \<open>What holds of the identifiers PostgreSQL makes and reads.\<close>

definition ids_law :: "access_env \<Rightarrow> bool" where
  "ids_law env \<longleftrightarrow> (\<forall>ids. ae_newid env ids \<notin> set ids \<and> ae_uuid_of env (ae_newid env ids) = Some (ae_newid env ids))
     \<and> (\<forall>s i. ae_uuid_of env s = Some i \<longrightarrow> ae_uuid_of env i = Some i)"

lemma ids_lawD:
  assumes "ids_law env"
  shows "ae_newid env ids \<notin> set ids" "ae_uuid_of env (ae_newid env ids) = Some (ae_newid env ids)"
    "ae_uuid_of env s = Some i \<Longrightarrow> ae_uuid_of env i = Some i"
  using assms by (auto simp: ids_law_def)

lemma uuid_arg_Inr [simp]: "uuid_arg env s = Inr i \<longleftrightarrow> ae_uuid_of env s = Some i"
  by (auto simp: uuid_arg_def split: option.splits)

section \<open>Users\<close>

lemma user_of_id [simp]: "u_id (user_of u) = su_id u" "u_active (user_of u) = su_active u"
  by (simp_all add: user_of_def)

lemma renamed_keeps [simp]:
  "su_id (renamed input u) = su_id u" "su_active (renamed input u) = su_active u" "su_system (renamed input u) = su_system u"
  "human (renamed input u) = human u"
  by (simp_all add: renamed_def human_def)

lemma UpsertCurrentUser_tables:
  assumes "UpsertCurrentUser env input db = (u, db')"
  shows "acc_grants db' = acc_grants db" "acc_members db' = acc_members db" "acc_external db' = acc_external db"
    "acc_workspaces db' = acc_workspaces db"
  using assms by (auto simp: UpsertCurrentUser_def Let_def split: option.splits)

lemma UpsertCurrentUser_users:
  assumes "UpsertCurrentUser env input db = (u, db')"
  shows "map (\<lambda>x. (su_id x, human x)) (acc_users db') = map (\<lambda>x. (su_id x, human x)) (acc_users db)
      \<and> u_id u \<in> su_id ` set (acc_users db)
    \<or> map (\<lambda>x. (su_id x, human x)) (acc_users db') = map (\<lambda>x. (su_id x, human x)) (acc_users db) @ [(u_id u, True)]
      \<and> u_id u = ae_newid env (map su_id (acc_users db))"
proof (cases "find (same_identity input) (acc_users db)")
  case (Some v)
  then have "v \<in> set (acc_users db)" by (auto dest: find_SomeD)
  then show ?thesis using assms Some by (auto simp: UpsertCurrentUser_def map_updateWhere)
next
  case None
  then show ?thesis using assms by (auto simp: UpsertCurrentUser_def Let_def human_def)
qed

lemma is_human_map: "is_human db i \<longleftrightarrow> (i, True) \<in> set (map (\<lambda>x. (su_id x, human x)) (acc_users db))"
  by (auto simp: is_human_def list_ex_iff)

lemma UpsertCurrentUser_human: "UpsertCurrentUser env input db = (u, db') \<Longrightarrow> is_human db i \<Longrightarrow> is_human db' i"
  using UpsertCurrentUser_users [of env input db u db'] by (auto simp: is_human_map simp del: set_map)

section \<open>Statements on grants\<close>

text \<open>The tables a statement on grants may change: grants, memberships, external states.\<close>

definition keeps_base :: "acc_db \<Rightarrow> acc_db \<Rightarrow> bool" where
  "keeps_base db db' \<longleftrightarrow> acc_users db' = acc_users db \<and> acc_workspaces db' = acc_workspaces db"

lemma keeps_base_human: "keeps_base db db' \<Longrightarrow> is_human db' = is_human db"
  by (simp add: keeps_base_def is_human_def fun_eq_iff)

lemma keeps_base_trans: "keeps_base a b \<Longrightarrow> keeps_base b c \<Longrightarrow> keeps_base a c"
  by (simp add: keeps_base_def)

lemma invalidate_tables:
  assumes "invalidateExternalAccess env i db = Inr db'"
  shows "keeps_base db db'" "acc_grants db' = acc_grants db" "acc_members db' = acc_members db"
    "map ex_user (acc_external db') = map ex_user (acc_external db)"
  using assms by (auto simp: invalidateExternalAccess_def res_iffs keeps_base_def map_updateWhere)

lemma put_grant_cases:
  assumes "put_grant env same i scope ws role who db = Inr (k, db')"
  obtains (update) g upd where "find same (acc_grants db) = Some g" "k = ag_id g"
      "db' = db\<lparr>acc_grants := updateWhere same upd (acc_grants db)\<rparr>"
      "\<And>x. ag_id (upd x) = ag_id x" "\<And>x. subject_of (upd x) = subject_of x" "\<And>x. ag_role (upd x) = role" "grant_role_ok role"
  | (insert) new where "find same (acc_grants db) = None" "k = ae_newid env (map ag_id (acc_grants db))"
      "db' = db\<lparr>acc_grants := acc_grants db @ [new]\<rparr>"
      "ag_id new = k" "subject_of new = (scope, ws, i)" "ag_role new = role" "grant_role_ok role"
proof -
  have r: "grant_role_ok role" using assms by (simp add: put_grant_def res_iffs)
  show thesis
  proof (cases "find same (acc_grants db)")
    case None
    then show thesis using assms r by (intro insert) (auto simp: put_grant_def res_iffs Let_def subject_of_def)
  next
    case (Some g)
    let ?upd = "\<lambda>g. g\<lparr>ag_role := role, ag_updatedBy := who, ag_updatedAt := ae_now env\<rparr>"
    show thesis
      by (rule update [of g ?upd]) (use assms r Some in \<open>auto simp: put_grant_def res_iffs subject_of_def\<close>)
  qed
qed

lemma put_member_tables [simp]:
  "acc_grants (put_member ws i role who db) = acc_grants db" "acc_external (put_member ws i role who db) = acc_external db"
  "acc_users (put_member ws i role who db) = acc_users db" "acc_workspaces (put_member ws i role who db) = acc_workspaces db"
  by (simp_all add: put_member_def)

lemma del_member_tables [simp]:
  "acc_grants (del_member ws i db) = acc_grants db" "acc_external (del_member ws i db) = acc_external db"
  "acc_users (del_member ws i db) = acc_users db" "acc_workspaces (del_member ws i db) = acc_workspaces db"
  by (simp_all add: del_member_def)

section \<open>One change of the list\<close>

lemma updateWhere_cong: "(\<And>x. x \<in> set xs \<Longrightarrow> p x \<longleftrightarrow> q x) \<Longrightarrow> updateWhere p f xs = updateWhere q f xs"
  by (simp add: updateWhere_def)

lemma subject_user: "ag_user g = snd (snd (subject_of g))"
  by (simp add: subject_of_def)

lemma roles_None: "roles db s = None \<longleftrightarrow> s \<notin> subject_of ` set (acc_grants db)"
  by (simp add: roles_def table_map_None)

lemma roles_has:
  "(\<And>g. g \<in> set (acc_grants db) \<Longrightarrow> same g \<longleftrightarrow> subject_of g = s) \<Longrightarrow> list_ex same (acc_grants db) \<longleftrightarrow> roles db s \<noteq> None"
  by (auto simp: roles_None list_ex_iff)

lemma put_grant_law:
  assumes put: "put_grant env same i scope ws role who db = Inr (k, db')" and ok: "grants_ok (ae_uuid_of env) db" and law: "ids_law env"
    and formed: "subject_formed (scope, ws, i)" "ae_uuid_of env i = Some i"
    and same: "\<And>g. g \<in> set (acc_grants db) \<Longrightarrow> same g \<longleftrightarrow> subject_of g = (scope, ws, i)"
  shows "grants_ok (ae_uuid_of env) db' \<and> roles db' = (roles db)((scope, ws, i) \<mapsto> role)"
  using put
proof (cases rule: put_grant_cases)
  case (update g upd)
  let ?s = "(scope, ws, i)"
  have g: "g \<in> set (acc_grants db)" "subject_of g = ?s" using update(1) same by (auto dest: find_SomeD)
  have t: "acc_grants db' = updateWhere (\<lambda>r. subject_of r = ?s) upd (acc_grants db)"
    unfolding update(3) by (simp add: updateWhere_cong [of _ same, OF same])
  have "roles db' = (roles db)(?s \<mapsto> role)"
    unfolding roles_def t by (rule table_map_update) (use update g in \<open>force+\<close>)
  with ok show ?thesis by (auto simp: grants_ok_def t map_updateWhere update(4,5) subject_user list_all_iff set_updateWhere)
next
  case (insert new)
  let ?s = "(scope, ws, i)"
  have no: "?s \<notin> subject_of ` set (acc_grants db)" using insert(1) same by (auto simp: find_None_iff)
  have "roles db' = (roles db)(?s \<mapsto> role)"
    unfolding roles_def insert(3) using table_map_insert [OF no, of new ag_role] insert by simp
  moreover have "k \<notin> ag_id ` set (acc_grants db)"
    using ids_lawD(1) [OF law, of "map ag_id (acc_grants db)"] insert(2) by simp
  ultimately show ?thesis using ok insert formed no subject_user [of new] by (auto simp: grants_ok_def)
qed

lemma put_grant_tables:
  assumes "put_grant env same i scope ws role who db = Inr (k, db')"
  shows "keeps_base db db'" "acc_members db' = acc_members db" "acc_external db' = acc_external db"
  using assms by (auto elim!: put_grant_cases simp: keeps_base_def)

lemma member_of_key: "member_of ws i = (\<lambda>m. (mb_workspace m, mb_user m) = (ws, i))"
  by (auto simp: member_of_def fun_eq_iff)

lemma put_member_law: "member_roles (put_member ws i role who db) = (member_roles db)((ws, i) \<mapsto> role)"
proof (cases "list_ex (member_of ws i) (acc_members db)")
  case True
  then have "(ws, i) \<in> (\<lambda>m. (mb_workspace m, mb_user m)) ` set (acc_members db)"
    by (auto simp: list_ex_iff member_of_def)
  then show ?thesis
    using True table_map_update [of "\<lambda>m. (mb_workspace m, mb_user m)" "\<lambda>m. m\<lparr>mb_role := role\<rparr>" mb_role role "(ws, i)" "acc_members db"]
    by (simp add: member_roles_def put_member_def member_of_key)
next
  case False
  then have "(ws, i) \<notin> (\<lambda>m. (mb_workspace m, mb_user m)) ` set (acc_members db)"
    by (auto simp: list_ex_iff member_of_def)
  then show ?thesis
    using False by (simp add: member_roles_def put_member_def table_map_insert)
qed

lemma del_member_law: "member_roles (del_member ws i db) = (member_roles db)((ws, i) := None)"
  using table_map_filter [of "\<lambda>m. (mb_workspace m, mb_user m)" mb_role "\<lambda>k. k \<noteq> (ws, i)" "acc_members db"]
  by (simp add: member_roles_def del_member_def member_of_key restrict_map_def fun_eq_iff)

lemma roles_cong: "acc_grants db' = acc_grants db \<Longrightarrow> roles db' = roles db"
  by (simp add: roles_def)

lemma member_roles_cong: "acc_members db' = acc_members db \<Longrightarrow> member_roles db' = member_roles db"
  by (simp add: member_roles_def)

lemma grants_ok_cong: "acc_grants db' = acc_grants db \<Longrightarrow> grants_ok U db' = grants_ok U db"
  by (simp add: grants_ok_def)

lemma acl_ok_cong:
  assumes "acc_grants db' = acc_grants db" "acc_members db' = acc_members db" "acl_ok U db"
  shows "grants_ok U db'" "mirrored db'"
  using assms(3) unfolding acl_ok_def mirrored_def
  by (simp_all add: grants_ok_cong [OF assms(1)] roles_cong [OF assms(1)] member_roles_cong [OF assms(2)])

section \<open>What a command touches\<close>

text \<open>Only the rights of one user change (\<open>acl_framed\<close>; the times of the stored tokens stay), and no stored state vouches
  for the rights of that user (\<open>unvouched\<close>).\<close>

definition acl_framed :: "id \<Rightarrow> acc_db \<Rightarrow> acc_db \<Rightarrow> bool" where
  "acl_framed i db db' \<longleftrightarrow> keeps_base db db'
     \<and> filter (\<lambda>x. ex_user x \<noteq> i) (acc_external db') = filter (\<lambda>x. ex_user x \<noteq> i) (acc_external db)
     \<and> map (\<lambda>x. (ex_user x, ex_issued x)) (acc_external db') = map (\<lambda>x. (ex_user x, ex_issued x)) (acc_external db)
     \<and> (\<forall>s. snd (snd s) \<noteq> i \<longrightarrow> roles db' s = roles db s)"

definition unvouched :: "id \<Rightarrow> acc_db \<Rightarrow> bool" where
  "unvouched i db \<longleftrightarrow> (\<forall>x \<in> set (acc_external db). ex_user x = i \<longrightarrow> ex_config x = [])"

definition acl_touched :: "id \<Rightarrow> acc_db \<Rightarrow> acc_db \<Rightarrow> bool" where
  "acl_touched i db db' \<longleftrightarrow> acl_framed i db db' \<and> unvouched i db'"

lemma acl_framed_refl [simp]: "acl_framed i db db"
  by (simp add: acl_framed_def keeps_base_def)

lemma acl_framed_roles: "acl_framed i db db' \<Longrightarrow> snd (snd s) \<noteq> i \<Longrightarrow> roles db' s = roles db s"
  unfolding acl_framed_def by blast

lemma acl_framed_trans: "acl_framed i a b \<Longrightarrow> acl_framed i b c \<Longrightarrow> acl_framed i a c"
  by (auto simp: acl_framed_def intro: keeps_base_trans)

lemma acl_touched_roles:
  assumes "invalidateExternalAccess env u db = Inr db1" "ae_uuid_of env u = Some i" "keeps_base db1 db'"
    "acc_external db' = acc_external db1" "\<And>s. snd (snd s) \<noteq> i \<Longrightarrow> roles db' s = roles db s"
  shows "acl_touched i db db'"
proof -
  have "acc_external db' = updateWhere (\<lambda>x. ex_user x = i \<and> ex_config x \<noteq> []) (\<lambda>x. x\<lparr>ex_config := []\<rparr>) (acc_external db)"
    using assms(1,2,4) by (auto simp: invalidateExternalAccess_def res_iffs)
  moreover have "filter (\<lambda>x. ex_user x \<noteq> i) (updateWhere (\<lambda>x. ex_user x = i \<and> ex_config x \<noteq> []) (\<lambda>x. x\<lparr>ex_config := []\<rparr>) xs)
      = filter (\<lambda>x. ex_user x \<noteq> i) xs" for xs :: "external_row list" by (induction xs) auto
  moreover have "keeps_base db db'" by (rule keeps_base_trans [OF invalidate_tables(1) [OF assms(1)] assms(3)])
  moreover have "\<forall>x \<in> set (updateWhere (\<lambda>x. ex_user x = i \<and> ex_config x \<noteq> []) (\<lambda>x. x\<lparr>ex_config := []\<rparr>) xs).
      ex_user x = i \<longrightarrow> ex_config x = []" for xs :: "external_row list" by (induction xs) auto
  ultimately show ?thesis
    using assms(5) unfolding acl_touched_def acl_framed_def unvouched_def by (simp add: map_updateWhere)
qed

definition target_of :: "access_env \<Rightarrow> grant_input \<Rightarrow> subject option" where
  "target_of env input = (case ae_uuid_of env (gi_user input) of
      None \<Rightarrow> None
    | Some i \<Rightarrow> if gi_scope input = AccessScopePlatform then Some (AccessScopePlatform, None, i)
        else (case gi_workspace input of
            None \<Rightarrow> None
          | Some wid \<Rightarrow> map_option (\<lambda>w. (AccessScopeWorkspace, Some w, i)) (ae_uuid_of env wid)))"

definition role_given :: "grant_input \<Rightarrow> string" where
  "role_given input = (if gi_scope input = AccessScopePlatform then AccessRoleAdmin else gi_role input)"

lemma scopes_differ [simp]: "AccessScopePlatform \<noteq> AccessScopeWorkspace" "AccessScopeWorkspace \<noteq> AccessScopePlatform"
  by (simp_all add: access_consts)

lemma mirrored_put:
  assumes "mirrored db" "roles db2 = (roles db)((AccessScopeWorkspace, Some ws, i) \<mapsto> role)" "acc_members db2 = acc_members db"
  shows "mirrored (put_member ws i role who db2)"
proof -
  have "roles (put_member ws i role who db2) = roles db2" by (rule roles_cong) simp
  with assms show ?thesis
    by (simp add: mirrored_def put_member_law member_roles_cong [of db2 db] fun_eq_iff)
qed

text \<open>The law of an upsert: one entry of the list is written, for a user that exists.\<close>

lemma UpsertAccessGrant_law:
  assumes run: "UpsertAccessGrant env input db = Inr ((v, created), db')" and ok: "acl_ok (ae_uuid_of env) db" and law: "ids_law env"
  shows "\<exists>s. target_of env input = Some s \<and> is_human db (snd (snd s)) \<and> acl_ok (ae_uuid_of env) db'
    \<and> roles db' = (roles db)(s \<mapsto> role_given input) \<and> acl_touched (snd (snd s)) db db' \<and> (created \<longleftrightarrow> roles db s = None)"
proof -
  from run obtain db1 i who where a: "invalidateExternalAccess env (gi_user input) db = Inr db1"
      "ae_uuid_of env (gi_user input) = Some i" "ae_uuid_of env (gi_actor input) = Some who"
    unfolding UpsertAccessGrant_def by (simp only: bindE_Inr_iff uuid_arg_Inr) blast
  note T = invalidate_tables [OF a(1)]
  note g1 = acl_ok_cong [OF T(2,3) ok] roles_cong [OF T(2)] keeps_base_human [OF T(1)]
  show ?thesis
  proof (cases "gi_scope input = AccessScopePlatform")
    case True
    let ?s = "(AccessScopePlatform, None, i)"
    obtain k db2 where p: "put_grant env (platform_of i) i AccessScopePlatform None AccessRoleAdmin who db1 = Inr (k, db')"
        "is_human db1 i" "created \<longleftrightarrow> \<not> list_ex (platform_of i) (acc_grants db1)"
      using run a True by (auto simp: UpsertAccessGrant_def res_iffs Let_def)
    have same: "platform_of i g \<longleftrightarrow> subject_of g = ?s" if "g \<in> set (acc_grants db1)" for g
      using that g1(1) by (auto simp: grants_ok_def list_all_iff subject_tests)
    have formed: "subject_formed ?s" "ae_uuid_of env i = Some i" using ids_lawD(3) [OF law a(2)] by (simp_all add: subject_formed_def)
    note L = put_grant_law [OF p(1) g1(1) law formed same]
    note U = put_grant_tables [OF p(1)]
    have "mirrored db'" using g1(2) L U(2) by (auto simp: mirrored_def member_roles_cong [of db' db1] fun_eq_iff)
    moreover have "acl_touched i db db'" by (rule acl_touched_roles [OF a(1,2) U(1,3)]) (use L g1(3) in auto)
    moreover have "created \<longleftrightarrow> roles db ?s = None" using p(3) roles_has [OF same] g1(3) by simp
    ultimately show ?thesis
      using L g1 p a True by (simp add: target_of_def role_given_def acl_ok_def)
  next
    case False
    obtain wid w where w: "gi_workspace input = Some wid" "ae_uuid_of env wid = Some w"
      using run a False by (auto simp: UpsertAccessGrant_def res_iffs Let_def split: option.splits)
    let ?s = "(AccessScopeWorkspace, Some w, i)"
    obtain k db2 where p: "put_grant env (workspace_of w i) i AccessScopeWorkspace (Some w) (gi_role input) who db1 = Inr (k, db2)"
        "is_human db1 i" "created \<longleftrightarrow> \<not> list_ex (workspace_of w i) (acc_grants db1)" "db' = put_member w i (gi_role input) who db2"
      using run a w False by (auto simp: UpsertAccessGrant_def res_iffs Let_def)
    have formed: "subject_formed ?s" "ae_uuid_of env i = Some i" using ids_lawD(3) [OF law a(2)] by (simp_all add: subject_formed_def)
    note L = put_grant_law [OF p(1) g1(1) law formed subject_tests(1)]
    note U = put_grant_tables [OF p(1)]
    have r: "roles db' = roles db2" "grants_ok (ae_uuid_of env) db' = grants_ok (ae_uuid_of env) db2" "acc_external db' = acc_external db1" "keeps_base db1 db'"
      using U by (simp_all add: p(4) roles_def grants_ok_def keeps_base_def)
    have "mirrored db'" unfolding p(4) by (rule mirrored_put [OF g1(2) _ U(2)]) (use L in simp)
    moreover have "acl_touched i db db'" by (rule acl_touched_roles [OF a(1,2) r(4,3)]) (use L r(1) g1(3) in auto)
    moreover have "created \<longleftrightarrow> roles db ?s = None" using p(3) roles_has [OF subject_tests(1)] g1(3) by simp
    ultimately show ?thesis
      using L g1 p(2) a w False r by (simp add: target_of_def role_given_def acl_ok_def)
  qed
qed

section \<open>Deletions\<close>

lemma GetAccessGrant_Inr:
  assumes "GetAccessGrant env grantID db = Inr v"
  shows "\<exists>k g. ae_uuid_of env grantID = Some k \<and> g \<in> set (acc_grants db) \<and> ag_id g = k \<and> gr_scope v = ag_scope g
    \<and> gu_id (gr_user v) = ag_user g \<and> gr_workspaceID v = ag_workspace g"
proof -
  from assms obtain k g where k: "ae_uuid_of env grantID = Some k" "find (\<lambda>g. ag_id g = k) (acc_grants db) = Some g"
      "scanAccessGrant db g = Some v"
    by (auto simp: GetAccessGrant_def res_iffs split: option.splits)
  have "acc_user db (ag_user g) = Some u \<Longrightarrow> su_id u = ag_user g" for u by (auto simp: acc_user_def dest: find_SomeD)
  with k show ?thesis
    by (auto simp: scanAccessGrant_def Let_def grant_user_def dest!: find_SomeD split: option.splits)
qed

lemma roles_filter: "acc_grants db' = filter (\<lambda>g. P (subject_of g)) (acc_grants db) \<Longrightarrow> roles db' = (roles db) |` {s. P s}"
  by (simp add: roles_def table_map_filter)

lemma grants_ok_filter: "acc_grants db' = filter P (acc_grants db) \<Longrightarrow> grants_ok U db \<Longrightarrow> grants_ok U db'"
  by (auto simp: grants_ok_def distinct_map_filter list_all_iff)

lemma restrict_one: "m |` {x. x \<noteq> s} = m(s := None)"
  by (auto simp: restrict_map_def fun_eq_iff)

lemma mirrored_del:
  assumes "mirrored db" "roles db' = (roles db)((AccessScopeWorkspace, Some ws, i) := None)"
    "acc_members db' = acc_members (del_member ws i db)"
  shows "mirrored db'"
  using assms(1,2) del_member_law [of ws i db]
  by (simp add: mirrored_def member_roles_cong [OF assms(3)] fun_eq_iff)

lemma DeleteAccessGrant_law:
  assumes run: "DeleteAccessGrant env grantID db = Inr db'" and ok: "acl_ok (ae_uuid_of env) db"
  shows "\<exists>g. g \<in> set (acc_grants db) \<and> ae_uuid_of env grantID = Some (ag_id g) \<and> acl_ok (ae_uuid_of env) db'
    \<and> roles db' = (roles db)(subject_of g := None) \<and> acl_touched (ag_user g) db db'
    \<and> acc_grants db' = filter (\<lambda>x. ag_id x \<noteq> ag_id g) (acc_grants db)"
proof -
  from run obtain v db1 k where v: "GetAccessGrant env grantID db = Inr v"
      "invalidateExternalAccess env (gu_id (gr_user v)) db = Inr db1" "ae_uuid_of env grantID = Some k"
    by (auto simp: DeleteAccessGrant_def res_iffs)
  from GetAccessGrant_Inr [OF v(1)] v(3) obtain g where g: "g \<in> set (acc_grants db)" "ag_id g = k" "gr_scope v = ag_scope g"
      "gu_id (gr_user v) = ag_user g" "gr_workspaceID v = ag_workspace g" by auto
  have u: "ae_uuid_of env (ag_user g) = Some (ag_user g)"
    using ok g(1) by (auto simp: acl_ok_def grants_ok_def list_all_iff)
  note T = invalidate_tables [OF v(2)]
  have f: "acc_grants db' = filter (\<lambda>x. ag_id x \<noteq> k) (acc_grants db)" "keeps_base db1 db'" "acc_external db' = acc_external db1"
    using run v g T by (auto simp: DeleteAccessGrant_def res_iffs Let_def keeps_base_def split: option.splits)
  have m: "acc_members db' = (if ag_scope g = AccessScopeWorkspace \<and> ag_workspace g \<noteq> None
      then acc_members (del_member (the (ag_workspace g)) (ag_user g) db) else acc_members db)"
    using run v g T(3) by (auto simp: DeleteAccessGrant_def res_iffs Let_def del_member_def split: option.splits)
  have "filter (\<lambda>x. ag_id x \<noteq> k) (acc_grants db) = filter (\<lambda>x. subject_of x \<noteq> subject_of g) (acc_grants db)"
    using ok g(1,2) by (auto simp: acl_ok_def grants_ok_def distinct_map inj_on_def intro!: filter_cong)
  then have r: "roles db' = (roles db)(subject_of g := None)"
    using roles_filter [of db' "\<lambda>s. s \<noteq> subject_of g" db] by (simp add: f(1) restrict_one)
  have ok1: "grants_ok (ae_uuid_of env) db" "mirrored db" using ok by (auto simp: acl_ok_def)
  have formed: "subject_formed (subject_of g)" using ok1(1) g(1) by (auto simp: grants_ok_def list_all_iff)
  have "mirrored db'"
  proof (cases "ag_scope g = AccessScopeWorkspace")
    case True
    with formed obtain ws where ws: "ag_workspace g = Some ws" by (auto simp: subject_formed_def subject_of_def)
    show ?thesis
      by (rule mirrored_del [OF ok1(2), of _ ws "ag_user g"]) (use r m True ws in \<open>simp_all add: subject_of_def\<close>)
  next
    case False
    then have "roles db' (AccessScopeWorkspace, x) = roles db (AccessScopeWorkspace, x)" for x by (simp add: r subject_of_def)
    with False m ok1(2) show ?thesis by (simp add: mirrored_def member_roles_cong [of db' db])
  qed
  moreover have "acl_touched (ag_user g) db db'"
    by (rule acl_touched_roles [OF v(2)]) (use u g r f in \<open>auto simp: subject_of_def\<close>)
  ultimately show ?thesis
    using g v(3) r f(1) grants_ok_filter [OF f(1) ok1(1)] by (auto simp: acl_ok_def)
qed

lemma repo_DeleteMembership_law:
  assumes run: "repo_DeleteMembership env ws userID db = Inr db'" and ok: "acl_ok (ae_uuid_of env) db"
  shows "\<exists>i. ae_uuid_of env userID = Some i \<and> acl_ok (ae_uuid_of env) db' \<and> acl_touched i db db'
    \<and> roles db' = (roles db)((AccessScopeWorkspace, Some ws, i) := None)"
proof -
  from run obtain db1 i where v: "invalidateExternalAccess env userID db = Inr db1" "ae_uuid_of env userID = Some i"
    by (auto simp: repo_DeleteMembership_def res_iffs)
  note T = invalidate_tables [OF v(1)]
  let ?s = "(AccessScopeWorkspace, Some ws, i)"
  have f: "acc_grants db' = filter (\<lambda>g. subject_of g \<noteq> ?s) (acc_grants db)" "keeps_base db1 db'"
    "acc_external db' = acc_external db1" "acc_members db' = acc_members (del_member ws i db)"
    using run v T by (auto simp: repo_DeleteMembership_def res_iffs Let_def keeps_base_def del_member_def subject_tests)
  have r: "roles db' = (roles db)(?s := None)"
    using roles_filter [OF f(1)] by (simp add: restrict_one)
  have ok1: "grants_ok (ae_uuid_of env) db" "mirrored db" using ok by (auto simp: acl_ok_def)
  have "acl_touched i db db'" by (rule acl_touched_roles [OF v f(2,3)]) (use r in auto)
  then show ?thesis
    using v(2) r mirrored_del [OF ok1(2) r f(4)] grants_ok_filter [OF f(1) ok1(1)] by (simp add: acl_ok_def)
qed

lemma repo_PutMembership_law:
  assumes run: "repo_PutMembership env ws userID role who db = Inr (v, db')" and ok: "acl_ok (ae_uuid_of env) db" and law: "ids_law env"
  shows "\<exists>i. ae_uuid_of env userID = Some i \<and> is_human db i \<and> acl_ok (ae_uuid_of env) db' \<and> acl_touched i db db'
    \<and> roles db' = (roles db)((AccessScopeWorkspace, Some ws, i) \<mapsto> role)"
proof -
  obtain db1 i where a: "invalidateExternalAccess env userID db = Inr db1" "ae_uuid_of env userID = Some i"
    using run by (auto simp: repo_PutMembership_def res_iffs)
  let ?s = "(AccessScopeWorkspace, Some ws, i)"
  obtain k db2 where p: "put_grant env (workspace_of ws i) i AccessScopeWorkspace (Some ws) role who db1 = Inr (k, db2)"
      "db' = put_member ws i role who db2" "is_human db1 i"
    using run a by (auto simp: repo_PutMembership_def res_iffs Let_def split: option.splits)
  note T = invalidate_tables [OF a(1)]
  note g1 = acl_ok_cong [OF T(2,3) ok] roles_cong [OF T(2)] keeps_base_human [OF T(1)]
  have formed: "subject_formed ?s" "ae_uuid_of env i = Some i" using ids_lawD(3) [OF law a(2)] by (simp_all add: subject_formed_def)
  note L = put_grant_law [OF p(1) g1(1) law formed subject_tests(1)]
  note U = put_grant_tables [OF p(1)]
  have r: "roles db' = roles db2" "grants_ok (ae_uuid_of env) db' = grants_ok (ae_uuid_of env) db2" "acc_external db' = acc_external db1" "keeps_base db1 db'"
    using U by (simp_all add: p(2) roles_def grants_ok_def keeps_base_def)
  have "mirrored db'" unfolding p(2) by (rule mirrored_put [OF g1(2) _ U(2)]) (use L in simp)
  moreover have "acl_touched i db db'" by (rule acl_touched_roles [OF a r(4,3)]) (use L r(1) g1(3) in auto)
  ultimately show ?thesis
    using L g1 p(3) a(2) r by (simp add: acl_ok_def)
qed

end
