(* ===== verification/AccessService.thy ===== *)
theory AccessService
  imports AccessLaws
begin

text \<open>
  The commands of access control as operations of one service (\<open>acc_op\<close>, \<open>acc_step\<close>): what each does to the access
  control list, what no sequence of them can do, and what an external policy enforces.
\<close>

section \<open>Loops of writes\<close>

text \<open>The interface of a step that writes one entry of a map behind the state: which entry, which value, which owner. A
  frame relates the states before and after, a seal marks the owner.\<close>

locale acl_writer =
  fixes ok :: "'st \<Rightarrow> bool" and view :: "'st \<Rightarrow> 'k \<Rightarrow> 'v option" and step :: "'x \<Rightarrow> 'st \<Rightarrow> 'e + 'st"
    and target :: "'x \<Rightarrow> 'k option" and given :: "'x \<Rightarrow> 'v" and owner :: "'k \<Rightarrow> 'u"
    and frame :: "'u \<Rightarrow> 'st \<Rightarrow> 'st \<Rightarrow> bool" and seal :: "'u \<Rightarrow> 'st \<Rightarrow> bool"
  assumes writes: "step x st = Inr st' \<Longrightarrow> ok st \<Longrightarrow> ok st' \<and> (\<exists>k. target x = Some k
      \<and> view st' = (view st)(k \<mapsto> given x) \<and> frame (owner k) st st' \<and> seal (owner k) st')"
    and frame_refl: "frame u st st"
    and frame_trans: "frame u a b \<Longrightarrow> frame u b c \<Longrightarrow> frame u a c"
begin

fun all_written :: "('k \<Rightarrow> 'v option) \<Rightarrow> 'x list \<Rightarrow> 'k \<Rightarrow> 'v option" where
  "all_written m [] = m"
| "all_written m (x # xs) = all_written (m(the (target x) \<mapsto> given x)) xs"

lemma loop:
  assumes "foldE step xs st = Inr st'" "ok st"
  shows "ok st' \<and> view st' = all_written (view st) xs \<and> (\<forall>x \<in> set xs. target x \<noteq> None)"
  using assms
proof (induction xs arbitrary: st)
  case (Cons x xs)
  then obtain u where u: "step x st = Inr u" "foldE step xs u = Inr st'" by (auto simp: bindE_Inr_iff)
  with writes [OF u(1) Cons.prems(2)] Cons.IH [OF u(2)] show ?case by auto
qed simp

lemma loop_frame:
  assumes "foldE step xs st = Inr st'" "ok st" "\<And>x k. x \<in> set xs \<Longrightarrow> target x = Some k \<Longrightarrow> owner k = u"
  shows "frame u st st' \<and> (xs = [] \<or> seal u st')"
  using assms
proof (induction xs arbitrary: st)
  case Nil
  then show ?case by (simp add: frame_refl)
next
  case (Cons x xs)
  then obtain m where m: "step x st = Inr m" "foldE step xs m = Inr st'" by (auto simp: bindE_Inr_iff)
  from writes [OF m(1) Cons.prems(2)] Cons.prems(3) have w: "ok m" "frame u st m" "seal u m" by force+
  have I: "frame u m st' \<and> (xs = [] \<or> seal u st')" by (rule Cons.IH [OF m(2) w(1)]) (rule Cons.prems(3), auto)
  moreover have "xs = [] \<Longrightarrow> st' = m" using m(2) by simp
  ultimately show ?case using w frame_trans by blast
qed

lemma written_outside: "k \<notin> (\<lambda>x. the (target x)) ` set xs \<Longrightarrow> all_written m xs k = m k"
  by (induction xs arbitrary: m) auto

lemma written_inside: "k \<in> (\<lambda>x. the (target x)) ` set xs \<Longrightarrow> \<exists>x \<in> set xs. the (target x) = k \<and> all_written m xs k = Some (given x)"
proof (induction xs arbitrary: m)
  case (Cons x xs)
  show ?case
  proof (cases "k \<in> (\<lambda>x. the (target x)) ` set xs")
    case True
    from Cons.IH [OF True, of "m(the (target x) \<mapsto> given x)"] show ?thesis by (simp del: fun_upd_apply)
  next
    case False
    with Cons.prems have "k = the (target x)" by auto
    with written_outside [OF False, of "m(the (target x) \<mapsto> given x)"] show ?thesis by simp
  qed
qed simp

end

text \<open>Upserts are such steps: alone, in the replacement of the grants of a user, and in the bulk command with its counters.\<close>

interpretation upserts: acl_writer "\<lambda>db. ids_law env \<and> acl_ok (ae_uuid_of env) db" roles "upsert_step env" "target_of env"
  role_given "\<lambda>s. snd (snd s)" acl_framed unvouched for env :: access_env
proof unfold_locales
  show "(ids_law env \<and> acl_ok (ae_uuid_of env) db') \<and> (\<exists>k. target_of env x = Some k \<and> roles db' = (roles db)(k \<mapsto> role_given x)
      \<and> acl_framed (snd (snd k)) db db' \<and> unvouched (snd (snd k)) db')"
    if "upsert_step env x db = Inr db'" "ids_law env \<and> acl_ok (ae_uuid_of env) db" for x db db'
  proof -
    from that(1) obtain v c where "UpsertAccessGrant env x db = Inr ((v, c), db')" by (auto simp: upsert_step_def res_iffs)
    from UpsertAccessGrant_law [OF this] that(2) show ?thesis by (auto simp: acl_touched_def)
  qed
qed (auto intro: acl_framed_trans)

definition bulk_input :: "access_bulk_input \<Rightarrow> id \<Rightarrow> workspace \<Rightarrow> grant_input" where
  "bulk_input input who w = \<lparr>gi_user = ab_user input, gi_scope = AccessScopeWorkspace, gi_workspace = Some (w_id w),
     gi_role = ab_role input, gi_actor = who\<rparr>"

interpretation bulks: acl_writer "\<lambda>(r, db). ids_law env \<and> acl_ok (ae_uuid_of env) db" "\<lambda>(r, db). roles db" "bulk_step env input who"
  "\<lambda>w. target_of env (bulk_input input who w)" "\<lambda>w. role_given (bulk_input input who w)"
  "\<lambda>s. snd (snd s)" "\<lambda>i (r, db) (r', db'). acl_framed i db db'" "\<lambda>i (r, db). unvouched i db"
  for env :: access_env and input :: access_bulk_input and who :: id
proof unfold_locales
  fix w and st st' :: "bulk_result \<times> acc_db"
  assume run: "bulk_step env input who w st = Inr st'" and ok: "case st of (r, db) \<Rightarrow> ids_law env \<and> acl_ok (ae_uuid_of env) db"
  obtain r db r' db' where st: "st = (r, db)" "st' = (r', db')" by (cases st, cases st') auto
  from run obtain v c where "UpsertAccessGrant env (bulk_input input who w) db = Inr ((v, c), db')"
    by (auto simp: st bulk_step_def res_iffs bulk_input_def notFoundAs_Inr_iff)
  from UpsertAccessGrant_law [OF this] ok show "(case st' of (r, db) \<Rightarrow> ids_law env \<and> acl_ok (ae_uuid_of env) db)
      \<and> (\<exists>k. target_of env (bulk_input input who w) = Some k
        \<and> (case st' of (r, db) \<Rightarrow> roles db) = (case st of (r, db) \<Rightarrow> roles db)(k \<mapsto> role_given (bulk_input input who w))
        \<and> (case st of (r, db) \<Rightarrow> \<lambda>(r', db'). acl_framed (snd (snd k)) db db') st'
        \<and> (case st' of (r, db) \<Rightarrow> unvouched (snd (snd k)) db))"
    by (auto simp: st acl_touched_def)
qed (auto intro: acl_framed_trans)

section \<open>The rights an external policy claims\<close>

text \<open>The rights of a user, and those a list of claimed grants stands for: the last grant of a subject counts.\<close>

definition user_rights :: "acc_db \<Rightarrow> id \<Rightarrow> string \<times> id option \<Rightarrow> string option" where
  "user_rights db i = (\<lambda>(scope, ws). roles db (scope, ws, i))"

definition claim_key :: "acc_db \<Rightarrow> grant \<Rightarrow> string \<times> id option" where
  "claim_key db g = (if g_scope g = AccessScopePlatform then (AccessScopePlatform, None)
     else (AccessScopeWorkspace, case GetWorkspace (g_workspace g) db of Inl _ \<Rightarrow> None | Inr w \<Rightarrow> Some (w_id w)))"

definition claim_role :: "grant \<Rightarrow> string" where
  "claim_role g = (if g_scope g = AccessScopePlatform then AccessRoleAdmin else g_role g)"

definition claimed :: "acc_db \<Rightarrow> grant list \<Rightarrow> string \<times> id option \<Rightarrow> string option" where
  "claimed db gs = foldl (\<lambda>m g. m(claim_key db g \<mapsto> claim_role g)) Map.empty gs"

definition ids_read :: "(string \<Rightarrow> id option) \<Rightarrow> acc_db \<Rightarrow> bool" where
  "ids_read U db \<longleftrightarrow> list_all (\<lambda>w. U (w_id w) = Some (w_id w)) (acc_workspaces db)
     \<and> list_all (\<lambda>u. U (su_id u) = Some (su_id u)) (acc_users db)"

text \<open>A stored state that names a configuration vouches for the rights of its user: its hash is that of grants that
  stand for them.\<close>

definition vouched :: "(grant list \<Rightarrow> string) \<Rightarrow> acc_db \<Rightarrow> bool" where
  "vouched H db \<longleftrightarrow> (\<forall>x \<in> set (acc_external db). ex_config x \<noteq> []
     \<longrightarrow> (\<exists>gs. ex_grants x = H gs \<and> user_rights db (ex_user x) = claimed db gs))"

definition acc_inv :: "access_env \<Rightarrow> acc_db \<Rightarrow> bool" where
  "acc_inv env db \<longleftrightarrow> acl_ok (ae_uuid_of env) db \<and> ids_read (ae_uuid_of env) db \<and> vouched (ae_grantsHash env) db"

lemma claim_key_cong: "acc_workspaces db' = acc_workspaces db \<Longrightarrow> claim_key db' = claim_key db"
  by (simp add: claim_key_def GetWorkspace_def fun_eq_iff)

lemma claimed_cong: "acc_workspaces db' = acc_workspaces db \<Longrightarrow> claimed db' gs = claimed db gs"
  unfolding claimed_def by (simp add: claim_key_cong [of db' db])

lemma acl_framed_rights: "acl_framed i db db' \<Longrightarrow> j \<noteq> i \<Longrightarrow> user_rights db' j = user_rights db j"
  by (auto simp: acl_framed_def user_rights_def fun_eq_iff)

lemma ids_read_cong: "keeps_base db db' \<Longrightarrow> ids_read U db \<Longrightarrow> ids_read U db'"
  by (simp add: ids_read_def keeps_base_def)

lemma acl_touched_inv:
  assumes "acl_touched i db db'" "acc_inv env db" "acl_ok (ae_uuid_of env) db'"
  shows "acc_inv env db'"
proof -
  have f: "acl_framed i db db'" "unvouched i db'" using assms(1) by (auto simp: acl_touched_def)
  have k: "keeps_base db db'" using f(1) by (simp add: acl_framed_def)
  have "vouched (ae_grantsHash env) db'"
    unfolding vouched_def
  proof (intro ballI impI)
    fix x assume x: "x \<in> set (acc_external db')" "ex_config x \<noteq> []"
    with f(2) have j: "ex_user x \<noteq> i" by (auto simp: unvouched_def)
    have "filter (\<lambda>x. ex_user x \<noteq> i) (acc_external db') = filter (\<lambda>x. ex_user x \<noteq> i) (acc_external db)"
      using f(1) by (simp add: acl_framed_def)
    with x(1) j have "x \<in> set (acc_external db)" by (metis (mono_tags, lifting) mem_Collect_eq set_filter)
    with assms(2) x(2) obtain gs where "ex_grants x = ae_grantsHash env gs" "user_rights db (ex_user x) = claimed db gs"
      by (auto simp: acc_inv_def vouched_def)
    with acl_framed_rights [OF f(1) j] claimed_cong [of db' db] k
    show "\<exists>gs. ex_grants x = ae_grantsHash env gs \<and> user_rights db' (ex_user x) = claimed db' gs"
      by (auto simp: keeps_base_def)
  qed
  with assms(2,3) ids_read_cong [OF k] show ?thesis by (simp add: acc_inv_def)
qed

lemma UpsertCurrentUser_inv:
  assumes "UpsertCurrentUser env input db = (u, db')" "acc_inv env db" "ids_law env"
  shows "acc_inv env db' \<and> ae_uuid_of env (u_id u) = Some (u_id u) \<and> roles db' = roles db"
proof -
  note T = UpsertCurrentUser_tables [OF assms(1)]
  have a: "acl_ok (ae_uuid_of env) db" "ids_read (ae_uuid_of env) db" "vouched (ae_grantsHash env) db"
    using assms(2) by (auto simp: acc_inv_def)
  have acl: "acl_ok (ae_uuid_of env) db'" using acl_ok_cong [OF T(1,2) a(1)] by (simp add: acl_ok_def)
  have r: "roles db' = roles db" by (rule roles_cong [OF T(1)])
  have v: "vouched (ae_grantsHash env) db'"
    using a(3) unfolding vouched_def user_rights_def by (simp add: T(3) r claimed_cong [OF T(4)])
  have ids: "fst ` set (map (\<lambda>x. (su_id x, human x)) (acc_users d)) = su_id ` set (acc_users d)" for d by (simp add: image_image)
  have "su_id ` set (acc_users db') \<subseteq> insert (u_id u) (su_id ` set (acc_users db))
      \<and> (u_id u \<in> su_id ` set (acc_users db) \<or> u_id u = ae_newid env (map su_id (acc_users db)))"
    using UpsertCurrentUser_users [OF assms(1)] ids [of db'] ids [of db] by (auto simp del: set_map) (auto simp: image_iff)
  moreover have "ae_uuid_of env x = Some x" if "x \<in> su_id ` set (acc_users db)" for x
    using that a(2) by (auto simp: ids_read_def list_all_iff)
  ultimately have "ae_uuid_of env (u_id u) = Some (u_id u) \<and> list_all (\<lambda>x. ae_uuid_of env (su_id x) = Some (su_id x)) (acc_users db')"
    using ids_lawD(2) [OF assms(3)] unfolding list_all_iff by (metis image_eqI insert_iff subset_iff)
  with a(2) acl v r show ?thesis by (simp add: acc_inv_def ids_read_def T(4))
qed

section \<open>Replacing the rights of a user\<close>

lemma put_external_rows:
  assumes "x \<in> set (acc_external (put_external env i state db))"
  shows "ex_user x \<noteq> i \<and> x \<in> set (acc_external db)
    \<or> ex_user x = i \<and> ex_config x = ex_config state \<and> ex_token x = ex_token state \<and> ex_issued x = ex_issued state
      \<and> ex_grants x = ex_grants state"
  using assms by (auto simp: put_external_def Let_def set_updateWhere list_ex_iff split: if_splits)

lemma external_of_put:
  "\<exists>x. external_of i (put_external env i state db) = Some x \<and> ex_issued x = ex_issued state \<and> ex_user x = i"
  "j \<noteq> i \<Longrightarrow> external_of j (put_external env i state db) = external_of j db"
proof -
  have u: "find (\<lambda>x. ex_user x = i) (updateWhere (\<lambda>x. ex_user x = i) (\<lambda>_. row) xs) = Some row"
    if "list_ex (\<lambda>x. ex_user x = i) xs" "ex_user row = i" for xs row using that by (induction xs) auto
  have a: "find (\<lambda>x. ex_user x = i) (xs @ [row]) = Some row"
    if "\<not> list_ex (\<lambda>x. ex_user x = i) xs" "ex_user row = i" for xs row using that by (induction xs) auto
  show "\<exists>x. external_of i (put_external env i state db) = Some x \<and> ex_issued x = ex_issued state \<and> ex_user x = i"
    by (simp add: external_of_def put_external_def Let_def u a)
  have o: "find (\<lambda>x. ex_user x = j) (xs @ [row]) = find (\<lambda>x. ex_user x = j) xs" if "ex_user row \<noteq> j" for xs row
    using that by (induction xs) auto
  show "external_of j (put_external env i state db) = external_of j db" if "j \<noteq> i"
    using that by (simp add: external_of_def put_external_def Let_def o find_updateWhere_other)
qed

lemma put_external_tables [simp]:
  "acc_grants (put_external env i state db) = acc_grants db" "acc_members (put_external env i state db) = acc_members db"
  "acc_users (put_external env i state db) = acc_users db" "acc_workspaces (put_external env i state db) = acc_workspaces db"
  by (simp_all add: put_external_def Let_def)

definition without_user :: "id \<Rightarrow> acc_db \<Rightarrow> acc_db" where
  "without_user i db = db\<lparr>acc_members := filter (\<lambda>m. mb_user m \<noteq> i) (acc_members db),
     acc_grants := filter (\<lambda>g. ag_user g \<noteq> i) (acc_grants db)\<rparr>"

lemma without_user_law:
  assumes "acl_ok U db"
  shows "acl_ok U (without_user i db) \<and> roles (without_user i db) = (roles db) |` {s. snd (snd s) \<noteq> i}
    \<and> acl_framed i db (without_user i db)"
proof -
  have g: "acc_grants (without_user i db) = filter (\<lambda>g. snd (snd (subject_of g)) \<noteq> i) (acc_grants db)"
    by (simp add: without_user_def subject_of_def)
  note r = roles_filter [OF g]
  have m: "member_roles (without_user i db) = (member_roles db) |` {k. snd k \<noteq> i}"
    using table_map_filter [of "\<lambda>m. (mb_workspace m, mb_user m)" mb_role "\<lambda>k. snd k \<noteq> i" "acc_members db"]
    by (simp add: member_roles_def without_user_def)
  have "mirrored (without_user i db)"
    using assms by (auto simp: acl_ok_def mirrored_def r m restrict_map_def fun_eq_iff)
  moreover have "acl_framed i db (without_user i db)"
    by (simp add: acl_framed_def r keeps_base_def) (simp add: without_user_def)
  ultimately show ?thesis
    using grants_ok_filter [OF g] assms r by (simp add: acl_ok_def)
qed

lemma ReplaceExternalAccess_law:
  assumes run: "ReplaceExternalAccess env i gs state db = Inr db'" and ok: "acl_ok (ae_uuid_of env) db" and law: "ids_law env"
    and i: "ae_uuid_of env i = Some i" and mine: "\<forall>g \<in> set gs. gi_user g = i"
  shows "\<exists>db3. acl_framed i db db3 \<and> db' = put_external env i state db3 \<and> acl_ok (ae_uuid_of env) db'
    \<and> roles db' = upserts.all_written env ((roles db) |` {s. snd (snd s) \<noteq> i}) gs \<and> (\<forall>g \<in> set gs. target_of env g \<noteq> None)"
proof -
  from run i obtain db3 where d: "foldE (upsert_step env) gs (without_user i db) = Inr db3" "db' = put_external env i state db3"
    by (auto simp: ReplaceExternalAccess_def res_iffs Let_def without_user_def)
  note W = without_user_law [OF ok, of i]
  have pre: "ids_law env \<and> acl_ok (ae_uuid_of env) (without_user i db)" using law W by simp
  note L = upserts.loop [OF d(1) pre]
  have "snd (snd k) = i" if "g \<in> set gs" "target_of env g = Some k" for g k
    using that mine i by (auto simp: target_of_def split: if_splits option.splits)
  from upserts.loop_frame [OF d(1) pre this] have "acl_framed i (without_user i db) db3" by simp
  with W have "acl_framed i db db3" using acl_framed_trans by blast
  moreover have "roles db' = roles db3" "acl_ok (ae_uuid_of env) db'"
    using L acl_ok_cong [of db' db3 "ae_uuid_of env"] by (auto simp: d(2) roles_def acl_ok_def)
  ultimately show ?thesis using d(2) L W by auto
qed

text \<open>The list the inputs of a snapshot write for a user is the one the snapshot claims.\<close>

lemma external_inputs_Inr:
  assumes "external_inputs env u gs db = Inr ins"
  shows "length ins = length gs \<and> (\<forall>n < length gs. external_input env u (gs ! n) db = Inr (ins ! n))"
proof -
  have "foldE (\<lambda>m gs. bindE (external_input env u m db) (\<lambda>g. Inr (gs @ [g]))) gs acc = Inr ins
      \<Longrightarrow> \<exists>new. ins = acc @ new \<and> list_all2 (\<lambda>m g. external_input env u m db = Inr g) gs new" for acc
    by (induction gs arbitrary: acc) (force simp: res_iffs)+
  from this [of "[]"] assms show ?thesis by (auto simp: external_inputs_def list_all2_conv_all_nth)
qed

lemma external_input_target:
  assumes "external_input env u m db = Inr g" "ae_uuid_of env (u_id u) = Some (u_id u)" "ids_read (ae_uuid_of env) db"
  shows "target_of env g = Some (fst (claim_key db m), snd (claim_key db m), u_id u) \<and> role_given g = claim_role m
    \<and> gi_user g = u_id u"
proof (cases "g_scope m = AccessScopePlatform")
  case True
  with assms show ?thesis by (auto simp: external_input_def target_of_def role_given_def claim_key_def claim_role_def)
next
  case False
  with assms(1) obtain w where w: "GetWorkspace (g_workspace m) db = Inr w" "gi_workspace g = Some (w_id w)"
      "gi_user g = u_id u" "gi_scope g = g_scope m" "gi_role g = g_role m"
    by (auto simp: external_input_def res_iffs)
  then have "w \<in> set (acc_workspaces db)" by (auto simp: GetWorkspace_def dest: find_SomeD split: option.splits)
  with assms(3) have "ae_uuid_of env (w_id w) = Some (w_id w)" by (auto simp: ids_read_def list_all_iff)
  with False w assms(2) show ?thesis by (simp add: target_of_def role_given_def claim_key_def claim_role_def)
qed

lemma written_claims:
  assumes "list_all2 (\<lambda>m g. target_of env g = Some (fst (claim_key db m), snd (claim_key db m), i) \<and> role_given g = claim_role m) ms gs"
  shows "(\<lambda>(scope, ws). upserts.all_written env f gs (scope, ws, i))
    = foldl (\<lambda>m g. m(claim_key db g \<mapsto> claim_role g)) (\<lambda>(scope, ws). f (scope, ws, i)) ms"
  using assms
proof (induction ms gs arbitrary: f rule: list_all2_induct)
  case (Cons m ms g gs)
  have "(\<lambda>(scope, ws). (f((fst (claim_key db m), snd (claim_key db m), i) \<mapsto> claim_role m)) (scope, ws, i))
      = (\<lambda>(scope, ws). f (scope, ws, i))(claim_key db m \<mapsto> claim_role m)"
    by (cases "claim_key db m") (auto simp: fun_eq_iff)
  with Cons show ?case by simp
qed simp

section \<open>Watermarks\<close>

text \<open>The issue time of the newest token a user has presented.\<close>

definition watermark :: "acc_db \<Rightarrow> id \<Rightarrow> time option" where
  "watermark db i = map_option ex_issued (external_of i db)"

definition advances :: "acc_db \<Rightarrow> acc_db \<Rightarrow> bool" where
  "advances db db' \<longleftrightarrow> (\<forall>i t. watermark db i = Some t \<longrightarrow> (\<exists>t'. watermark db' i = Some t' \<and> t \<le> t'))"

lemma advances_refl: "(\<And>i. watermark db' i = watermark db i) \<Longrightarrow> advances db db'"
  by (simp add: advances_def)

lemma advances_trans: "advances a b \<Longrightarrow> advances b c \<Longrightarrow> advances a c"
  unfolding advances_def by (meson order_trans)

lemma acl_framed_watermark: "acl_framed i db db' \<Longrightarrow> watermark db' j = watermark db j"
proof -
  have "map (\<lambda>x. (ex_user x, ex_issued x)) xs = map (\<lambda>x. (ex_user x, ex_issued x)) ys
      \<Longrightarrow> map_option ex_issued (find (\<lambda>x. ex_user x = j) xs) = map_option ex_issued (find (\<lambda>x. ex_user x = j) ys)"
    for xs ys :: "external_row list"
  proof (induction xs arbitrary: ys)
    case (Cons x xs)
    then obtain y zs where ys: "ys = y # zs" by (cases ys) auto
    with Cons.prems have "ex_user x = ex_user y" "ex_issued x = ex_issued y"
      "map (\<lambda>x. (ex_user x, ex_issued x)) xs = map (\<lambda>x. (ex_user x, ex_issued x)) zs" by auto
    with Cons.IH [of zs] ys show ?case by simp
  qed simp
  note same = this [of "acc_external db'" "acc_external db"]
  show "acl_framed i db db' \<Longrightarrow> watermark db' j = watermark db j"
    unfolding watermark_def external_of_def by (rule same) (simp add: acl_framed_def)
qed

section \<open>An external session\<close>

lemma external_decision_False:
  "external_decision state (Some p) = Inr False \<Longrightarrow> ex_issued p \<le> ex_issued state"
  by (auto simp: external_decision_def res_iffs)

lemma Replace_inv:
  assumes run: "ReplaceExternalAccess env i ins state db = Inr db'" and inv: "acc_inv env db" and law: "ids_law env"
    and u: "u_id u = i" "ae_uuid_of env i = Some i" and ins: "external_inputs env u ms db = Inr ins"
    and st: "ex_grants state = ae_grantsHash env ms" and newer: "case external_of i db of None \<Rightarrow> True | Some p \<Rightarrow> ex_issued p \<le> ex_issued state"
  shows "acc_inv env db' \<and> user_rights db' i = claimed db' ms \<and> advances db db' \<and> keeps_base db db'
    \<and> (\<forall>s. snd (snd s) \<noteq> i \<longrightarrow> roles db' s = roles db s)"
proof -
  have I: "acl_ok (ae_uuid_of env) db" "ids_read (ae_uuid_of env) db" "vouched (ae_grantsHash env) db"
    using inv by (auto simp: acc_inv_def)
  have u': "ae_uuid_of env (u_id u) = Some (u_id u)" using u by simp
  have L: "list_all2 (\<lambda>m g. target_of env g = Some (fst (claim_key db m), snd (claim_key db m), i) \<and> role_given g = claim_role m) ms ins"
    and mine: "\<forall>g \<in> set ins. gi_user g = i"
    using external_inputs_Inr [OF ins] external_input_target [OF _ u' I(2)] u(1)
    by (auto simp: list_all2_conv_all_nth in_set_conv_nth) metis
  from ReplaceExternalAccess_law [OF run I(1) law u(2) mine] obtain db3 where d: "acl_framed i db db3" "db' = put_external env i state db3"
      "acl_ok (ae_uuid_of env) db'" "roles db' = upserts.all_written env ((roles db) |` {s. snd (snd s) \<noteq> i}) ins" by blast
  have k: "keeps_base db db'" using d(1) by (simp add: d(2) acl_framed_def keeps_base_def)
  have w: "acc_workspaces db' = acc_workspaces db" using k by (simp add: keeps_base_def)
  have r: "user_rights db' i = claimed db' ms"
    using written_claims [OF L, of "(roles db) |` {s. snd (snd s) \<noteq> i}"]
    unfolding claimed_cong [OF w] unfolding user_rights_def d(4) claimed_def by (simp add: restrict_map_def split_def)
  have r3: "roles db' = roles db3" by (simp add: d(2) roles_def)
  have outside: "roles db' s = roles db s" if "snd (snd s) \<noteq> i" for s unfolding r3 by (rule acl_framed_roles [OF d(1) that])
  have "vouched (ae_grantsHash env) db'"
    unfolding vouched_def
  proof (intro ballI impI)
    fix x assume x: "x \<in> set (acc_external db')" "ex_config x \<noteq> []"
    from put_external_rows [OF x(1) [unfolded d(2)]]
    consider (other) "ex_user x \<noteq> i" "x \<in> set (acc_external db3)" | (mine) "ex_user x = i" "ex_grants x = ex_grants state" by blast
    then show "\<exists>gs. ex_grants x = ae_grantsHash env gs \<and> user_rights db' (ex_user x) = claimed db' gs"
    proof cases
      case other
      have "filter (\<lambda>x. ex_user x \<noteq> i) (acc_external db3) = filter (\<lambda>x. ex_user x \<noteq> i) (acc_external db)"
        using d(1) by (simp add: acl_framed_def)
      with other have "x \<in> set (acc_external db)" by (metis (mono_tags, lifting) mem_Collect_eq set_filter)
      with I(3) x(2) obtain gs where "ex_grants x = ae_grantsHash env gs" "user_rights db (ex_user x) = claimed db gs"
        by (auto simp: vouched_def)
      moreover have "user_rights db' (ex_user x) = user_rights db (ex_user x)"
        using other(1) outside by (simp add: user_rights_def fun_eq_iff)
      ultimately show ?thesis using claimed_cong [OF w] by auto
    next
      case mine
      with r st show ?thesis by auto
    qed
  qed
  with d(3) ids_read_cong [OF k I(2)] have "acc_inv env db'" by (simp add: acc_inv_def)
  moreover have "advances db db'"
    unfolding advances_def
  proof (intro allI impI)
    fix j t assume t: "watermark db j = Some t"
    show "\<exists>t'. watermark db' j = Some t' \<and> t \<le> t'"
    proof (cases "j = i")
      case True
      with external_of_put(1) [of i env state db3] newer t show ?thesis by (auto simp: d(2) watermark_def)
    next
      case False
      then have "watermark db' j = watermark db3 j" unfolding d(2) watermark_def by (simp add: external_of_put(2))
      with acl_framed_watermark [OF d(1), of j] t show ?thesis by simp
    qed
  qed
  ultimately show ?thesis using r k outside by blast
qed

lemma resolveExternalActor_law:
  assumes run: "resolveExternalActor env pol input snapshot db = Inr ((u, platform), db')" and inv: "acc_inv env db"
    and law: "ids_law env"
  shows "acc_inv env db' \<and> advances db db' \<and> (\<exists>sn db1. snapshot = Some sn \<and> UpsertCurrentUser env input db = (u, db1)
    \<and> keeps_base db1 db' \<and> roles db1 = roles db \<and> (\<forall>s. snd (snd s) \<noteq> u_id u \<longrightarrow> roles db' s = roles db s)
    \<and> (platform \<longrightarrow> list_ex (\<lambda>m. g_scope m = AccessScopePlatform) (sn_grants sn))
    \<and> (if \<not> u_active u then \<not> platform \<and> roles db' = roles db
       else (platform \<longleftrightarrow> list_ex (\<lambda>m. g_scope m = AccessScopePlatform) (sn_grants sn))
        \<and> (user_rights db' (u_id u) = claimed db' (sn_grants sn)
          \<or> roles db' = roles db \<and> (\<exists>p \<in> set (acc_external db'). ex_user p = u_id u \<and> ex_config p = policy_Version pol
              \<and> ex_grants p = ae_grantsHash env (sn_grants sn)))))"
proof -
  obtain sn issued where sn: "snapshot = Some sn" "sn_issued sn = Some issued"
    using run by (auto simp: resolveExternalActor_def split: option.splits)
  obtain u1 db1 where u1: "UpsertCurrentUser env input db = (u1, db1)" by force
  note U = UpsertCurrentUser_inv [OF u1 inv law]
  note T = UpsertCurrentUser_tables [OF u1]
  have adv: "advances db db1" by (rule advances_refl) (simp add: watermark_def external_of_def T(3))
  have guard: "sn_config sn = policy_Version pol"
    using run sn by (auto simp: resolveExternalActor_def res_iffs)
  show ?thesis
  proof (cases "u_active u1")
    case False
    with run sn u1 have "u = u1" "\<not> platform" "db' = db1" by (auto simp: resolveExternalActor_def res_iffs)
    with False U adv sn u1 show ?thesis by (auto simp: keeps_base_def)
  next
    case True
    let ?state = "\<lparr>ex_config = sn_config sn, ex_token = sn_token sn, ex_issued = issued, ex_grants = ae_grantsHash env (sn_grants sn)\<rparr>"
    let ?pf = "list_ex (\<lambda>m. g_scope m = AccessScopePlatform) (sn_grants sn)"
    obtain ins same where r: "u = u1" "platform = ?pf" "external_inputs env u1 (sn_grants sn) db1 = Inr ins"
        "external_decision ?state (external_of (u_id u1) db1) = Inr same"
        "if same then db' = db1 else ReplaceExternalAccess env (u_id u1) ins ?state db1 = Inr db'"
      using run sn u1 True U
      by (auto simp: resolveExternalActor_def res_iffs Let_def GetExternalAccessState_def split: if_splits)
    have inv1: "acc_inv env db1" "ae_uuid_of env (u_id u1) = Some (u_id u1)" "roles db1 = roles db" using U by auto
    show ?thesis
    proof (cases same)
      case True
      then obtain p where p: "external_of (u_id u1) db1 = Some p" "ex_config p = sn_config sn" "ex_grants p = ae_grantsHash env (sn_grants sn)"
        using r(4) by (cases "external_of (u_id u1) db1") (auto simp: external_decision_def res_iffs)
      then have "p \<in> set (acc_external db1)" "ex_user p = u_id u1" by (auto simp: external_of_def dest: find_SomeD)
      with True r p inv1 adv sn u1 guard \<open>u_active u1\<close> show ?thesis by (auto simp: keeps_base_def)
    next
      case False
      have newer: "case external_of (u_id u1) db1 of None \<Rightarrow> True | Some p \<Rightarrow> ex_issued p \<le> ex_issued ?state"
        using r(4) False external_decision_False [of ?state] by (cases "external_of (u_id u1) db1") auto
      have rep: "ReplaceExternalAccess env (u_id u1) ins ?state db1 = Inr db'" using r(5) False by simp
      have R: "acc_inv env db' \<and> user_rights db' (u_id u1) = claimed db' (sn_grants sn) \<and> advances db1 db' \<and> keeps_base db1 db'
          \<and> (\<forall>s. snd (snd s) \<noteq> u_id u1 \<longrightarrow> roles db' s = roles db1 s)"
        by (rule Replace_inv [OF rep inv1(1) law refl inv1(2) r(3) _ newer]) simp
      with advances_trans [OF adv] have "advances db db'" by blast
      with R r(1,2) inv1 sn u1 \<open>u_active u1\<close> show ?thesis by simp
    qed
  qed
qed

section \<open>The service\<close>

datatype acc_op =
    AoResolve upsert_user bool "access_snapshot option"
  | AoPut ctx access_put_input
  | AoDelete ctx string
  | AoBulk ctx access_bulk_input
  | AoPutMember ctx string string string
  | AoDeleteMember ctx string string

fun acc_step :: "access_env \<Rightarrow> policy option \<Rightarrow> acc_op \<Rightarrow> acc_db \<Rightarrow> acc_db res" where
  "acc_step env pol (AoResolve input legacy snapshot) db =
     bindE (ResolveCurrentActor env pol input legacy snapshot db) (\<lambda>(_, db'). Inr db')"
| "acc_step env pol (AoPut c input) db = bindE (access_Put env pol c input db) (\<lambda>(_, db'). Inr db')"
| "acc_step env pol (AoDelete c grantID) db = access_Delete env pol c grantID db"
| "acc_step env pol (AoBulk c input) db = bindE (access_Bulk env pol c input db) (\<lambda>(_, db'). Inr db')"
| "acc_step env pol (AoPutMember c identity userID role) db =
     bindE (PutMembership env pol c identity userID role db) (\<lambda>(_, db'). Inr db')"
| "acc_step env pol (AoDeleteMember c identity userID) db = DeleteMembership env pol c identity userID db"

lemma RequireLocal_Inr [simp]: "RequireLocal pol = Inr x \<longleftrightarrow> pol = None"
  by (simp add: RequireLocal_def)

definition platform_actor :: "ctx \<Rightarrow> bool" where
  "platform_actor c \<longleftrightarrow> (case ctx_Actor c of Inr (current, u) \<Rightarrow> ca_platformAdmin current | Inl _ \<Rightarrow> False)"

text \<open>What each command does to the list.\<close>

lemma access_Put_law:
  assumes "access_Put env pol c input db = Inr (v, db')" "acl_ok (ae_uuid_of env) db" "ids_law env"
  shows "pol = None \<and> (\<exists>s. acl_touched (snd (snd s)) db db' \<and> acl_ok (ae_uuid_of env) db' \<and> is_human db (snd (snd s))
    \<and> (\<exists>role. roles db' = (roles db)(s \<mapsto> role))
    \<and> ae_uuid_of env (ap_user input) = Some (snd (snd s)) \<and> (fst s = AccessScopePlatform \<longrightarrow> platform_actor c))"
proof -
  obtain current u g v c' where a: "pol = None" "ctx_Actor c = Inr (current, u)" "UpsertAccessGrant env g db = Inr ((v, c'), db')"
      "gi_user g = ap_user input" "gi_scope g = AccessScopePlatform \<longrightarrow> ca_platformAdmin current"
    using assms(1) by (auto simp: access_Put_def res_iffs Let_def split: if_splits)
  from UpsertAccessGrant_law [OF a(3) assms(2,3)] obtain s where s: "target_of env g = Some s" "is_human db (snd (snd s))"
      "acl_ok (ae_uuid_of env) db'" "roles db' = (roles db)(s \<mapsto> role_given g)" "acl_touched (snd (snd s)) db db'" by blast
  have "ae_uuid_of env (ap_user input) = Some (snd (snd s)) \<and> (fst s = AccessScopePlatform \<longrightarrow> gi_scope g = AccessScopePlatform)"
    using s(1) a(4) by (auto simp: target_of_def split: option.splits if_splits)
  moreover from this a(2,5) have "fst s = AccessScopePlatform \<longrightarrow> platform_actor c" by (auto simp: platform_actor_def)
  ultimately show ?thesis using a(1) s(2-5) by blast
qed

lemma access_Delete_law:
  assumes "access_Delete env pol c k db = Inr db'" "acl_ok (ae_uuid_of env) db"
  shows "pol = None \<and> (\<exists>g. g \<in> set (acc_grants db) \<and> acl_touched (ag_user g) db db' \<and> acl_ok (ae_uuid_of env) db'
    \<and> roles db' = (roles db)(subject_of g := None) \<and> acc_grants db' = filter (\<lambda>x. ag_id x \<noteq> ag_id g) (acc_grants db)
    \<and> (ag_scope g = AccessScopePlatform \<longrightarrow> 2 \<le> CountPlatformAdmins db))"
proof -
  from assms(1) obtain v where a: "pol = None" "GetAccessGrant env k db = Inr v" "DeleteAccessGrant env k db = Inr db'"
      "gr_scope v = AccessScopePlatform \<longrightarrow> 2 \<le> CountPlatformAdmins db"
    by (auto simp: access_Delete_def res_iffs split: if_splits option.splits)
  from DeleteAccessGrant_law [OF a(3) assms(2)] obtain g where g: "g \<in> set (acc_grants db)" "ae_uuid_of env k = Some (ag_id g)"
      "acl_ok (ae_uuid_of env) db'" "roles db' = (roles db)(subject_of g := None)" "acl_touched (ag_user g) db db'"
      "acc_grants db' = filter (\<lambda>x. ag_id x \<noteq> ag_id g) (acc_grants db)" by blast
  from GetAccessGrant_Inr [OF a(2)] g(2) obtain g' where g': "g' \<in> set (acc_grants db)" "ag_id g' = ag_id g" "gr_scope v = ag_scope g'"
    by auto
  have "g' = g" using g' g(1) assms(2) by (auto simp: acl_ok_def grants_ok_def distinct_map inj_on_def)
  with a g g' show ?thesis by auto
qed

lemma access_Bulk_law:
  assumes "access_Bulk env pol c input db = Inr (r, db')" "acl_ok (ae_uuid_of env) db" "ids_law env"
  shows "pol = None \<and> platform_actor c \<and> acl_ok (ae_uuid_of env) db' \<and> (db' = db \<or> (\<exists>i. acl_touched i db db'))
    \<and> (\<forall>s. fst s \<noteq> AccessScopeWorkspace \<longrightarrow> roles db' s = roles db s)"
proof -
  let ?z = "\<lparr>bk_affected = 0, bk_created = 0, bk_updated = 0\<rparr>"
  obtain current u targets where a: "pol = None" "ctx_Actor c = Inr (current, u)" "ca_platformAdmin current"
      "foldE (bulk_step env input (u_id u)) targets (?z, db) = Inr (r, db')"
    using assms(1) by (auto simp: access_Bulk_def res_iffs Let_def)
  have pre: "case (?z, db) of (r, db) \<Rightarrow> ids_law env \<and> acl_ok (ae_uuid_of env) db" using assms(2,3) by simp
  note L = bulks.loop [OF a(4) pre]
  let ?i = "the (ae_uuid_of env (ab_user input))"
  have t: "fst k = AccessScopeWorkspace \<and> snd (snd k) = ?i" if "target_of env (bulk_input input (u_id u) w) = Some k" for k w
    using that by (auto simp: target_of_def bulk_input_def split: option.splits)
  have "snd (snd k) = ?i" if "w \<in> set targets" "target_of env (bulk_input input (u_id u) w) = Some k" for w k
    using t [OF that(2)] by simp
  from bulks.loop_frame [OF a(4) pre this] have "acl_framed ?i db db' \<and> (targets = [] \<or> unvouched ?i db')" by simp
  moreover have "targets = [] \<Longrightarrow> db' = db" using a(4) by simp
  moreover have "roles db' s = roles db s" if "fst s \<noteq> AccessScopeWorkspace" for s
  proof -
    have "s \<notin> (\<lambda>w. the (target_of env (bulk_input input (u_id u) w))) ` set targets"
      using L t that by fastforce
    from bulks.written_outside [OF this, of "roles db"] L show ?thesis by simp
  qed
  ultimately show ?thesis using a(1-3) L by (auto simp: acl_touched_def platform_actor_def)
qed

lemma PutMembership_law:
  assumes "PutMembership env pol c identity userID role db = Inr (v, db')" "acl_ok (ae_uuid_of env) db" "ids_law env"
  shows "pol = None \<and> (\<exists>ws i. acl_touched i db db' \<and> acl_ok (ae_uuid_of env) db'
    \<and> roles db' = (roles db)((AccessScopeWorkspace, Some ws, i) \<mapsto> role))"
proof -
  obtain ws who where a: "pol = None" "repo_PutMembership env ws userID role who db = Inr (v, db')"
    using assms(1) by (auto simp: PutMembership_def res_iffs)
  from repo_PutMembership_law [OF a(2) assms(2,3)] a(1) show ?thesis by blast
qed

lemma DeleteMembership_law:
  assumes "DeleteMembership env pol c identity userID db = Inr db'" "acl_ok (ae_uuid_of env) db"
  shows "pol = None \<and> (\<exists>ws i. acl_touched i db db' \<and> acl_ok (ae_uuid_of env) db'
    \<and> roles db' = (roles db)((AccessScopeWorkspace, Some ws, i) := None))"
proof -
  obtain ws where a: "pol = None" "repo_DeleteMembership env ws userID db = Inr db'"
    using assms(1) by (auto simp: DeleteMembership_def res_iffs)
  from repo_DeleteMembership_law [OF a(2) assms(2)] a(1) show ?thesis by blast
qed

lemma Resolve_local_law:
  assumes run: "ResolveCurrentActor env None input legacy snapshot db = Inr ((u, platform), db')" and inv: "acc_inv env db"
    and law: "ids_law env"
  shows "\<exists>db1. UpsertCurrentUser env input db = (u, db1) \<and> keeps_base db1 db' \<and> acc_inv env db' \<and> advances db db'
    \<and> (roles db' = roles db \<or> bootstrap_allowed legacy db1 \<and> u_active u \<and> is_human db1 (u_id u)
        \<and> roles db' = (roles db)((AccessScopePlatform, None, u_id u) \<mapsto> AccessRoleAdmin))"
proof -
  obtain u1 db1 where u1: "UpsertCurrentUser env input db = (u1, db1)" by force
  note U = UpsertCurrentUser_inv [OF u1 inv law]
  note T = UpsertCurrentUser_tables [OF u1]
  have adv: "advances db db1" by (rule advances_refl) (simp add: watermark_def external_of_def T(3))
  let ?g = "\<lparr>gi_user = u_id u1, gi_scope = AccessScopePlatform, gi_workspace = None, gi_role = AccessRoleAdmin, gi_actor = u_id u1\<rparr>"
  have "u = u1 \<and> (db' = db1 \<or> u_active u1 \<and> bootstrap_allowed legacy db1 \<and> (\<exists>v. UpsertAccessGrant env ?g db1 = Inr (v, db')))"
    using run u1 by (auto simp: ResolveCurrentActor_def External_def resolve_bootstrap_def res_iffs split: if_splits)
  then have "u = u1" and alt: "db' = db1 \<or> u_active u1 \<and> bootstrap_allowed legacy db1 \<and> (\<exists>v. UpsertAccessGrant env ?g db1 = Inr (v, db'))"
    by auto
  from alt show ?thesis
  proof
    assume "db' = db1"
    with U adv u1 \<open>u = u1\<close> show ?thesis by (auto simp: keeps_base_def)
  next
    assume b: "u_active u1 \<and> bootstrap_allowed legacy db1 \<and> (\<exists>v. UpsertAccessGrant env ?g db1 = Inr (v, db'))"
    then obtain v c where run': "UpsertAccessGrant env ?g db1 = Inr ((v, c), db')" by auto
    have ok1: "acl_ok (ae_uuid_of env) db1" using U by (simp add: acc_inv_def)
    have t: "target_of env ?g = Some (AccessScopePlatform, None, u_id u1)" "role_given ?g = AccessRoleAdmin"
      using U by (simp_all add: target_of_def role_given_def)
    from UpsertAccessGrant_law [OF run' ok1 law] t have L: "is_human db1 (u_id u1)" "acl_ok (ae_uuid_of env) db'"
        "roles db' = (roles db1)((AccessScopePlatform, None, u_id u1) \<mapsto> AccessRoleAdmin)" "acl_touched (u_id u1) db1 db'" by auto
    have f: "acl_framed (u_id u1) db1 db'" using L(4) by (simp add: acl_touched_def)
    have "advances db1 db'" by (rule advances_refl) (rule acl_framed_watermark [OF f])
    moreover have "keeps_base db1 db'" using f by (simp add: acl_framed_def)
    moreover have "acc_inv env db'" using acl_touched_inv [OF L(4) _ L(2)] U by blast
    ultimately show ?thesis
      using L(1,3) b U u1 \<open>u = u1\<close> advances_trans [OF adv] by auto
  qed
qed

text \<open>Every command keeps the invariant and the watermarks.\<close>

lemma acl_touched_step:
  assumes "acl_touched i db db'" "acc_inv env db" "acl_ok (ae_uuid_of env) db'"
  shows "acc_inv env db' \<and> advances db db'"
  using acl_touched_inv [OF assms] advances_refl [OF acl_framed_watermark [of i db db']] assms(1) by (auto simp: acl_touched_def)

lemma acc_step_inv:
  assumes "acc_step env pol op db = Inr db'" "acc_inv env db" "ids_law env"
  shows "acc_inv env db' \<and> advances db db'"
proof -
  have ok: "acl_ok (ae_uuid_of env) db" using assms(2) by (simp add: acc_inv_def)
  note S = acl_touched_step [OF _ assms(2)]
  have same: "acc_inv env db \<and> advances db db" using assms(2) advances_refl [of db db] by simp
  show ?thesis
  proof (cases op)
    case (AoResolve input legacy snapshot)
    with assms(1) obtain u platform where r: "ResolveCurrentActor env pol input legacy snapshot db = Inr ((u, platform), db')"
      by (auto simp: res_iffs)
    show ?thesis
    proof (cases pol)
      case None
      with Resolve_local_law [OF _ assms(2,3)] r show ?thesis by blast
    next
      case (Some q)
      with r have "resolveExternalActor env pol input snapshot db = Inr ((u, platform), db')"
        by (simp add: ResolveCurrentActor_def External_def)
      from resolveExternalActor_law [OF this assms(2,3)] show ?thesis by blast
    qed
  next
    case (AoPut c input)
    with assms(1) obtain v where "access_Put env pol c input db = Inr (v, db')" by (auto simp: res_iffs)
    from access_Put_law [OF this ok assms(3)] S show ?thesis by blast
  next
    case (AoDelete c k)
    with assms(1) have "access_Delete env pol c k db = Inr db'" by simp
    from access_Delete_law [OF this ok] S show ?thesis by blast
  next
    case (AoBulk c input)
    with assms(1) obtain r where "access_Bulk env pol c input db = Inr (r, db')" by (auto simp: res_iffs)
    from access_Bulk_law [OF this ok assms(3)] S same show ?thesis by blast
  next
    case (AoPutMember c identity userID role)
    with assms(1) obtain v where "PutMembership env pol c identity userID role db = Inr (v, db')" by (auto simp: res_iffs)
    from PutMembership_law [OF this ok assms(3)] S show ?thesis by blast
  next
    case (AoDeleteMember c identity userID)
    with assms(1) have "DeleteMembership env pol c identity userID db = Inr db'" by simp
    from DeleteMembership_law [OF this ok] S show ?thesis by blast
  qed
qed

section \<open>Administrators\<close>

lemma HasPlatformAdmins_roles:
  assumes "acl_ok U db"
  shows "HasPlatformAdmins db \<longleftrightarrow> (\<exists>i. roles db (AccessScopePlatform, None, i) \<noteq> None \<and> is_human db i)"
proof -
  have "ag_scope g = AccessScopePlatform \<longleftrightarrow> subject_of g = (AccessScopePlatform, None, ag_user g)" if "g \<in> set (acc_grants db)" for g
    using that assms by (auto simp: acl_ok_def grants_ok_def list_all_iff subject_formed_def subject_of_def)
  then have "HasPlatformAdmins db \<longleftrightarrow> (\<exists>g \<in> set (acc_grants db). subject_of g = (AccessScopePlatform, None, ag_user g) \<and> is_human db (ag_user g))"
    by (auto simp: HasPlatformAdmins_def live_admin_def list_ex_iff)
  also have "\<dots> \<longleftrightarrow> (\<exists>i. roles db (AccessScopePlatform, None, i) \<noteq> None \<and> is_human db i)"
  proof -
    have "roles db (AccessScopePlatform, None, i) \<noteq> None
        \<longleftrightarrow> (\<exists>g \<in> set (acc_grants db). subject_of g = (AccessScopePlatform, None, i) \<and> ag_user g = i)" for i
      unfolding roles_None by (auto simp: image_iff subject_of_def dest: sym)
    then show ?thesis by (auto simp: subject_of_def)
  qed
  finally show ?thesis .
qed

text \<open>With two administrators, one remains when one grant goes.\<close>

lemma another_admin:
  assumes "2 \<le> length (filter p xs)" "distinct (map f xs)"
  shows "\<exists>x \<in> set xs. p x \<and> f x \<noteq> k"
proof (rule ccontr)
  assume "\<not> (\<exists>x \<in> set xs. p x \<and> f x \<noteq> k)"
  then have "set (map f (filter p xs)) \<subseteq> {k}" by auto
  moreover have "distinct (map f (filter p xs))" using assms(2) by (rule distinct_map_filter)
  ultimately have "length (map f (filter p xs)) \<le> card {k}" by (metis card_mono distinct_card finite.emptyI finite_insert)
  with assms(1) show False by simp
qed

lemma Delete_keeps_admin:
  assumes run: "access_Delete env pol c k db = Inr db'" and ok: "acl_ok (ae_uuid_of env) db" and has: "HasPlatformAdmins db"
  shows "HasPlatformAdmins db'"
proof -
  from access_Delete_law [OF run ok] obtain g where g: "g \<in> set (acc_grants db)" "acl_touched (ag_user g) db db'"
      "acc_grants db' = filter (\<lambda>x. ag_id x \<noteq> ag_id g) (acc_grants db)"
      "ag_scope g = AccessScopePlatform \<longrightarrow> 2 \<le> CountPlatformAdmins db" by blast
  have h: "live_admin db' = live_admin db"
    using keeps_base_human [of db db'] g(2) by (auto simp: live_admin_def acl_touched_def acl_framed_def fun_eq_iff)
  have d: "distinct (map ag_id (acc_grants db))" using ok by (simp add: acl_ok_def grants_ok_def)
  obtain a where a: "a \<in> set (acc_grants db)" "live_admin db a" "ag_id a \<noteq> ag_id g"
  proof (cases "ag_scope g = AccessScopePlatform")
    case True
    with g(4) another_admin [OF _ d, of "live_admin db" "ag_id g"] that show thesis by (auto simp: CountPlatformAdmins_def)
  next
    case False
    from has obtain a where a: "a \<in> set (acc_grants db)" "live_admin db a" by (auto simp: HasPlatformAdmins_def list_ex_iff)
    with False have "a \<noteq> g" by (auto simp: live_admin_def)
    with d a(1) g(1) have "ag_id a \<noteq> ag_id g" by (auto simp: distinct_map inj_on_def)
    with a that show thesis by blast
  qed
  then show ?thesis unfolding HasPlatformAdmins_def list_ex_iff g(3) h by auto
qed

lemma grows_keeps_admin:
  assumes "HasPlatformAdmins db" "acl_ok U db" "acl_ok U db'" "\<And>i. is_human db i \<Longrightarrow> is_human db' i"
    "\<And>i. roles db (AccessScopePlatform, None, i) \<noteq> None \<Longrightarrow> roles db' (AccessScopePlatform, None, i) \<noteq> None"
  shows "HasPlatformAdmins db'"
  using assms(1) unfolding HasPlatformAdmins_roles [OF assms(2)] HasPlatformAdmins_roles [OF assms(3)]
  using assms(4,5) by blast

lemma acl_touched_human: "acl_touched i db db' \<Longrightarrow> is_human db' = is_human db"
  by (simp add: acl_touched_def acl_framed_def keeps_base_human)

lemma acc_step_keeps_admin:
  assumes run: "acc_step env None op db = Inr db'" and inv: "acc_inv env db" and law: "ids_law env" and has: "HasPlatformAdmins db"
  shows "HasPlatformAdmins db'"
proof -
  have ok: "acl_ok (ae_uuid_of env) db" "acl_ok (ae_uuid_of env) db'"
    using inv acc_step_inv [OF run inv law] by (auto simp: acc_inv_def)
  note G = grows_keeps_admin [OF has ok]
  show ?thesis
  proof (cases op)
    case (AoResolve input legacy snapshot)
    with run obtain u platform where "ResolveCurrentActor env None input legacy snapshot db = Inr ((u, platform), db')"
      by (auto simp: res_iffs)
    from Resolve_local_law [OF this inv law] obtain db1 where r: "UpsertCurrentUser env input db = (u, db1)" "keeps_base db1 db'"
        "roles db' = roles db \<or> roles db' = (roles db)((AccessScopePlatform, None, u_id u) \<mapsto> AccessRoleAdmin)" by blast
    show ?thesis
      by (rule G) (use r UpsertCurrentUser_human [OF r(1)] keeps_base_human [OF r(2)] in auto)
  next
    case (AoPut c input)
    with run obtain v where "access_Put env None c input db = Inr (v, db')" by (auto simp: res_iffs)
    from access_Put_law [OF this ok(1) law] obtain s role where "acl_touched (snd (snd s)) db db'" "roles db' = (roles db)(s \<mapsto> role)" by blast
    with acl_touched_human show ?thesis by (intro G) auto
  next
    case (AoDelete c k)
    with run Delete_keeps_admin [OF _ ok(1) has] show ?thesis by simp
  next
    case (AoBulk c input)
    with run obtain r where "access_Bulk env None c input db = Inr (r, db')" by (auto simp: res_iffs)
    from access_Bulk_law [OF this ok(1) law] have b: "db' = db \<or> (\<exists>i. acl_touched i db db')"
        "\<forall>s. fst s \<noteq> AccessScopeWorkspace \<longrightarrow> roles db' s = roles db s" by blast+
    have "is_human db' = is_human db" using b(1) acl_touched_human by blast
    then show ?thesis by (intro G) (use b(2) in auto)
  next
    case (AoPutMember c identity userID role)
    with run obtain v where "PutMembership env None c identity userID role db = Inr (v, db')" by (auto simp: res_iffs)
    from PutMembership_law [OF this ok(1) law] obtain ws i where "acl_touched i db db'"
        "roles db' = (roles db)((AccessScopeWorkspace, Some ws, i) \<mapsto> role)" by blast
    with acl_touched_human show ?thesis by (intro G) auto
  next
    case (AoDeleteMember c identity userID)
    with run have "DeleteMembership env None c identity userID db = Inr db'" by simp
    from DeleteMembership_law [OF this ok(1)] obtain ws i where "acl_touched i db db'"
        "roles db' = (roles db)((AccessScopeWorkspace, Some ws, i) := None)" by blast
    with acl_touched_human show ?thesis by (intro G) auto
  qed
qed

text \<open>The claim of the platform.\<close>

lemma claimed_platform: "claimed db gs (AccessScopePlatform, None) \<noteq> None \<longleftrightarrow> list_ex (\<lambda>m. g_scope m = AccessScopePlatform) gs"
proof -
  have "foldl (\<lambda>m g. m(claim_key db g \<mapsto> claim_role g)) f gs (AccessScopePlatform, None) \<noteq> None
      \<longleftrightarrow> f (AccessScopePlatform, None) \<noteq> None \<or> list_ex (\<lambda>m. g_scope m = AccessScopePlatform) gs" for f
    by (induction gs arbitrary: f) (auto simp: claim_key_def)
  then show ?thesis by (simp add: claimed_def)
qed

section \<open>Runs\<close>

text \<open>Sequences of successful commands under a set of policies (the policy is fixed when the service starts). PostgreSQL reads
  identifiers and the service hashes grants as in \<open>base\<close>; clocks and fresh identifiers vary.\<close>

definition acc_env_of :: "access_env \<Rightarrow> access_env \<Rightarrow> bool" where
  "acc_env_of base env \<longleftrightarrow> ids_law env \<and> ae_uuid_of env = ae_uuid_of base \<and> ae_grantsHash env = ae_grantsHash base"

inductive access_served :: "access_env \<Rightarrow> policy option set \<Rightarrow> acc_db \<Rightarrow> acc_db \<Rightarrow> bool" for base P db0 where
  access_start: "access_served base P db0 db0"
| access_more: "access_served base P db0 db \<Longrightarrow> acc_env_of base env \<Longrightarrow> pol \<in> P \<Longrightarrow> acc_step env pol op db = Inr db'
    \<Longrightarrow> access_served base P db0 db'"

definition acc_fresh :: "access_env \<Rightarrow> acc_db \<Rightarrow> bool" where
  "acc_fresh base db \<longleftrightarrow> acc_grants db = [] \<and> acc_members db = [] \<and> acc_external db = [] \<and> ids_read (ae_uuid_of base) db"

lemma acc_inv_env: "acc_env_of base env \<Longrightarrow> acc_inv env db = acc_inv base db"
  by (simp add: acc_env_of_def acc_inv_def)

lemma acc_fresh_inv: "acc_fresh base db \<Longrightarrow> acc_inv base db"
  by (simp add: acc_fresh_def acc_inv_def acl_ok_def grants_ok_def mirrored_def member_roles_def roles_def vouched_def fun_eq_iff)

lemma access_served_inv: "access_served base P db0 db \<Longrightarrow> acc_inv base db0 \<Longrightarrow> acc_inv base db \<and> advances db0 db"
proof (induction rule: access_served.induct)
  case access_start
  then show ?case by (simp add: advances_refl)
next
  case (access_more db env pol op db')
  then have "ids_law env" by (simp add: acc_env_of_def)
  with access_more acc_step_inv [OF access_more.hyps(4)] acc_inv_env [OF access_more.hyps(2)] advances_trans show ?case by blast
qed

lemma access_served_keeps_admin:
  assumes "acc_inv base db" "access_served base {None} db db'" "HasPlatformAdmins db"
  shows "HasPlatformAdmins db'"
  using assms(2,1,3)
proof (induction rule: access_served.induct)
  case (access_more d env pol op d')
  then have "acc_inv env d" "ids_law env"
    using access_served_inv [OF access_more.hyps(1)] acc_inv_env [OF access_more.hyps(2)] by (auto simp: acc_env_of_def)
  with access_more acc_step_keeps_admin show ?case by blast
qed

section \<open>Origins of platform rights\<close>

definition has_platform :: "acc_db \<Rightarrow> id \<Rightarrow> bool" where
  "has_platform db i \<longleftrightarrow> list_ex (platform_of i) (acc_grants db)"

definition external_claim :: "access_env \<Rightarrow> policy option \<Rightarrow> access_snapshot option \<Rightarrow> bool" where
  "external_claim env pol snapshot \<longleftrightarrow> (case snapshot of
      None \<Rightarrow> False
    | Some sn \<Rightarrow> sn_config sn = policy_Version pol \<and> ae_now env < sn_expires sn
        \<and> list_ex (\<lambda>m. g_scope m = AccessScopePlatform) (sn_grants sn))"

lemma has_platform_roles:
  assumes "acl_ok U db"
  shows "has_platform db i \<longleftrightarrow> roles db (AccessScopePlatform, None, i) \<noteq> None"
  unfolding has_platform_def
  by (rule roles_has) (use assms in \<open>auto simp: acl_ok_def grants_ok_def list_all_iff subject_tests\<close>)

lemma external_origin:
  assumes run: "resolveExternalActor env pol input snapshot db = Inr ((u, platform), db')" and inv: "acc_inv env db" and law: "ids_law env"
    and no: "roles db (AccessScopePlatform, None, i) = None" and yes: "roles db' (AccessScopePlatform, None, i) \<noteq> None"
  shows "\<exists>db1. UpsertCurrentUser env input db = (u, db1) \<and> u_id u = i \<and> u_active u \<and> external_claim env pol snapshot"
proof -
  from resolveExternalActor_law [OF run inv law] obtain sn db1 where r: "snapshot = Some sn" "UpsertCurrentUser env input db = (u, db1)"
      "\<forall>s. snd (snd s) \<noteq> u_id u \<longrightarrow> roles db' s = roles db s"
      "if \<not> u_active u then \<not> platform \<and> roles db' = roles db
       else (platform \<longleftrightarrow> list_ex (\<lambda>m. g_scope m = AccessScopePlatform) (sn_grants sn))
        \<and> (user_rights db' (u_id u) = claimed db' (sn_grants sn) \<or> roles db' = roles db
          \<and> (\<exists>p \<in> set (acc_external db'). ex_user p = u_id u \<and> ex_config p = policy_Version pol \<and> ex_grants p = ae_grantsHash env (sn_grants sn)))"
    by blast
  have i: "u_id u = i" using r(3) no yes by (metis snd_conv)
  have ne: "roles db' \<noteq> roles db" using no yes by auto
  with r(4) have a: "u_active u" "user_rights db' i = claimed db' (sn_grants sn)" using i by (auto split: if_splits)
  have "claimed db' (sn_grants sn) (AccessScopePlatform, None) \<noteq> None"
    using yes unfolding a(2) [symmetric] user_rights_def by simp
  then have "list_ex (\<lambda>m. g_scope m = AccessScopePlatform) (sn_grants sn)" by (simp only: claimed_platform)
  moreover have "sn_config sn = policy_Version pol \<and> ae_now env < sn_expires sn"
    using run r(1) by (auto simp: resolveExternalActor_def res_iffs split: option.splits)
  ultimately show ?thesis using r(1,2) i a(1) by (simp add: external_claim_def)
qed

lemma platform_origin:
  assumes run: "acc_step env pol op db = Inr db'" and inv: "acc_inv env db" and law: "ids_law env"
    and no: "\<not> has_platform db i" and yes: "has_platform db' i"
  shows "(\<exists>input legacy snapshot u db1. op = AoResolve input legacy snapshot \<and> UpsertCurrentUser env input db = (u, db1)
      \<and> u_id u = i \<and> u_active u \<and> (if External pol then external_claim env pol snapshot else bootstrap_allowed legacy db1))
    \<or> (\<exists>c input. op = AoPut c input \<and> \<not> External pol \<and> platform_actor c \<and> ae_uuid_of env (ap_user input) = Some i)"
proof -
  have ok: "acl_ok (ae_uuid_of env) db" "acl_ok (ae_uuid_of env) db'"
    using inv acc_step_inv [OF run inv law] by (auto simp: acc_inv_def)
  have no: "roles db (AccessScopePlatform, None, i) = None" and yes: "roles db' (AccessScopePlatform, None, i) \<noteq> None"
    using no yes has_platform_roles [OF ok(1)] has_platform_roles [OF ok(2)] by auto
  show ?thesis
  proof (cases op)
    case (AoResolve input legacy snapshot)
    with run obtain u platform where r: "ResolveCurrentActor env pol input legacy snapshot db = Inr ((u, platform), db')"
      by (auto simp: res_iffs)
    show ?thesis
    proof (cases pol)
      case None
      with Resolve_local_law [OF _ inv law] r obtain db1 where "UpsertCurrentUser env input db = (u, db1)"
          "roles db' = roles db \<or> bootstrap_allowed legacy db1 \<and> u_active u
            \<and> roles db' = (roles db)((AccessScopePlatform, None, u_id u) \<mapsto> AccessRoleAdmin)" by blast
      with no yes None AoResolve show ?thesis by (auto simp: External_def split: if_splits)
    next
      case (Some q)
      with r have "resolveExternalActor env pol input snapshot db = Inr ((u, platform), db')"
        by (simp add: ResolveCurrentActor_def External_def)
      from external_origin [OF this inv law no yes] Some AoResolve show ?thesis by (auto simp: External_def)
    qed
  next
    case (AoPut c input)
    with run obtain v where "access_Put env pol c input db = Inr (v, db')" by (auto simp: res_iffs)
    from access_Put_law [OF this ok(1) law] obtain s role where s: "pol = None" "roles db' = (roles db)(s \<mapsto> role)"
        "ae_uuid_of env (ap_user input) = Some (snd (snd s))" "fst s = AccessScopePlatform \<longrightarrow> platform_actor c" by blast
    with no yes have "s = (AccessScopePlatform, None, i)" by (auto split: if_splits)
    with s AoPut show ?thesis by (simp add: External_def)
  next
    case (AoDelete c k)
    with run have "access_Delete env pol c k db = Inr db'" by simp
    from access_Delete_law [OF this ok(1)] no yes show ?thesis by (auto split: if_splits)
  next
    case (AoBulk c input)
    with run obtain r where "access_Bulk env pol c input db = Inr (r, db')" by (auto simp: res_iffs)
    from access_Bulk_law [OF this ok(1) law] no yes show ?thesis by auto
  next
    case (AoPutMember c identity userID role)
    with run obtain v where "PutMembership env pol c identity userID role db = Inr (v, db')" by (auto simp: res_iffs)
    from PutMembership_law [OF this ok(1) law] no yes show ?thesis by (auto split: if_splits)
  next
    case (AoDeleteMember c identity userID)
    with run have "DeleteMembership env pol c identity userID db = Inr db'" by simp
    from DeleteMembership_law [OF this ok(1)] no yes show ?thesis by (auto split: if_splits)
  qed
qed

section \<open>Exactness\<close>

lemma external_exact:
  assumes inv: "acc_inv env db" and law: "ids_law env" and H: "inj (ae_grantsHash env)" and v: "policy_Version pol \<noteq> []"
    and run: "resolveExternalActor env pol input snapshot db = Inr ((u, platform), db')" and act: "u_active u"
  shows "\<exists>sn. snapshot = Some sn \<and> user_rights db' (u_id u) = claimed db' (sn_grants sn) \<and> (platform \<longleftrightarrow> has_platform db' (u_id u))"
proof -
  note L = resolveExternalActor_law [OF run inv law]
  from L act obtain sn where r: "snapshot = Some sn" "platform \<longleftrightarrow> list_ex (\<lambda>m. g_scope m = AccessScopePlatform) (sn_grants sn)"
      "user_rights db' (u_id u) = claimed db' (sn_grants sn) \<or> (\<exists>p \<in> set (acc_external db'). ex_user p = u_id u
        \<and> ex_config p = policy_Version pol \<and> ex_grants p = ae_grantsHash env (sn_grants sn))"
    by (auto split: if_splits)
  have inv': "acc_inv env db'" using L by blast
  have e: "user_rights db' (u_id u) = claimed db' (sn_grants sn)"
    using r(3)
  proof
    assume "\<exists>p \<in> set (acc_external db'). ex_user p = u_id u \<and> ex_config p = policy_Version pol \<and> ex_grants p = ae_grantsHash env (sn_grants sn)"
    then obtain p where p: "p \<in> set (acc_external db')" "ex_user p = u_id u" "ex_config p \<noteq> []" "ex_grants p = ae_grantsHash env (sn_grants sn)"
      using v by auto
    have "vouched (ae_grantsHash env) db'" using inv' by (simp add: acc_inv_def)
    from this [unfolded vouched_def, rule_format, OF p(1,3)]
    obtain gs where gs: "ex_grants p = ae_grantsHash env gs" "user_rights db' (u_id u) = claimed db' gs"
      unfolding p(2) by (elim exE conjE)
    have "gs = sn_grants sn" by (rule injD [OF H]) (simp only: gs(1) [symmetric] p(4))
    with gs(2) show ?thesis by simp
  qed
  have "acl_ok (ae_uuid_of env) db'" using inv' by (simp add: acc_inv_def)
  from has_platform_roles [OF this, of "u_id u"] claimed_platform [of db' "sn_grants sn"] e [symmetric] r(1,2)
  show ?thesis by (simp add: user_rights_def)
qed

lemma external_not_older:
  assumes run: "resolveExternalActor env pol input (Some sn) db = Inr ((u, platform), db')" and inv: "acc_inv env db" and law: "ids_law env"
    and act: "u_active u" and t: "watermark db (u_id u) = Some t"
  shows "\<exists>issued. sn_issued sn = Some issued \<and> t \<le> issued"
proof -
  obtain issued where sn: "sn_issued sn = Some issued"
    using run by (auto simp: resolveExternalActor_def split: option.splits)
  obtain u1 db1 where u1: "UpsertCurrentUser env input db = (u1, db1)" by force
  note U = UpsertCurrentUser_inv [OF u1 inv law]
  have same: "u1 = u" using resolveExternalActor_law [OF run inv law] u1 by auto
  let ?state = "\<lparr>ex_config = sn_config sn, ex_token = sn_token sn, ex_issued = issued, ex_grants = ae_grantsHash env (sn_grants sn)\<rparr>"
  from run sn u1 same act U obtain b where "external_decision ?state (external_of (u_id u) db1) = Inr b"
    by (auto simp: resolveExternalActor_def res_iffs Let_def GetExternalAccessState_def)
  moreover obtain p where p: "external_of (u_id u) db1 = Some p" "ex_issued p = t"
    using t UpsertCurrentUser_tables(3) [OF u1] by (auto simp: watermark_def external_of_def)
  ultimately have "t \<le> issued" by (auto simp: external_decision_def res_iffs)
  with sn show ?thesis by simp
qed

section \<open>Rows\<close>

lemma table_map_find: "table_map key val rows k = map_option val (find (\<lambda>r. key r = k) rows)"
  by (induction rows) auto

lemma distinct_one: "distinct (map f xs) \<Longrightarrow> length (filter (\<lambda>x. f x = k) xs) \<le> 1"
  by (induction xs) (auto simp: filter_empty_conv image_iff)

lemma acl_ok_rows:
  assumes "acl_ok U db"
  shows "map_option mb_role (find (member_of ws i) (acc_members db)) = map_option ag_role (find (workspace_of ws i) (acc_grants db))
    \<and> length (filter (workspace_of ws i) (acc_grants db)) \<le> 1 \<and> length (filter (platform_of i) (acc_grants db)) \<le> 1"
proof -
  have ok: "distinct (map subject_of (acc_grants db))" "member_roles db (ws, i) = roles db (AccessScopeWorkspace, Some ws, i)"
    using assms by (auto simp: acl_ok_def grants_ok_def mirrored_def)
  have w: "workspace_of ws i = (\<lambda>g. subject_of g = (AccessScopeWorkspace, Some ws, i))" by (simp add: fun_eq_iff subject_tests)
  have "filter (platform_of i) (acc_grants db) = filter (\<lambda>g. subject_of g = (AccessScopePlatform, None, i)) (acc_grants db)"
    using assms by (intro filter_cong) (auto simp: acl_ok_def grants_ok_def list_all_iff subject_tests)
  moreover have "map_option mb_role (find (member_of ws i) (acc_members db)) = map_option ag_role (find (workspace_of ws i) (acc_grants db))"
    using ok(2) unfolding w member_of_key roles_def member_roles_def table_map_find .
  ultimately show ?thesis using distinct_one [OF ok(1)] by (simp add: w)
qed

end
