(* ===== verification/AccessSample.thy ===== *)
theory AccessSample
  imports AccessService
begin

text \<open>A concrete run of access control: a first sign-in, a second person, a grant, a token of an external provider.\<close>

section \<open>An injective hash of grants\<close>

fun sample_enc :: "string \<Rightarrow> string" where
  "sample_enc [] = ''.''"
| "sample_enc (c # s) = CHR ''x'' # c # sample_enc s"

fun sample_hash :: "grant list \<Rightarrow> string" where
  "sample_hash [] = []"
| "sample_hash (g # gs) = sample_enc (g_scope g) @ sample_enc (g_workspace g) @ sample_enc (g_role g) @ sample_hash gs"

lemma sample_enc_split: "sample_enc s @ a = sample_enc t @ b \<Longrightarrow> s = t \<and> a = b"
proof (induction s arbitrary: t)
  case Nil
  then show ?case by (cases t) auto
next
  case (Cons c s)
  then show ?case by (cases t) auto
qed

lemma sample_enc_nonempty [simp]: "sample_enc s \<noteq> []"
  by (cases s) auto

lemma sample_hash_inj: "inj sample_hash"
proof (rule injI)
  show "sample_hash gs = sample_hash hs \<Longrightarrow> gs = hs" for gs hs
  proof (induction gs arbitrary: hs)
    case Nil
    then show ?case by (cases hs) auto
  next
    case (Cons g gs)
    then obtain h hs' where h: "hs = h # hs'" by (cases hs) auto
    from Cons.prems [unfolded h sample_hash.simps]
    have 1: "g_scope g = g_scope h" and 2: "sample_enc (g_workspace g) @ sample_enc (g_role g) @ sample_hash gs
        = sample_enc (g_workspace h) @ sample_enc (g_role h) @ sample_hash hs'"
      using sample_enc_split by blast+
    from sample_enc_split [OF 2] have 3: "g_workspace g = g_workspace h"
      and 4: "sample_enc (g_role g) @ sample_hash gs = sample_enc (g_role h) @ sample_hash hs'" by auto
    from sample_enc_split [OF 4] have 5: "g_role g = g_role h" "sample_hash gs = sample_hash hs'" by auto
    from Cons.IH [OF 5(2)] 1 3 5(1) show ?case by (simp add: h)
  qed
qed

section \<open>The run\<close>

definition sample_access_env :: "time \<Rightarrow> access_env" where
  "sample_access_env now = \<lparr>ae_now = now, ae_newid = (\<lambda>ids. CHR ''n'' # concat ids), ae_uuid_of = Some,
     ae_uuid_Parse = (\<lambda>_. True), ae_grantsHash = sample_hash\<rparr>"

lemma sample_access_env_ok: "acc_env_of (sample_access_env n) (sample_access_env m)"
proof -
  have "x \<in> set ids \<Longrightarrow> length x \<le> length (concat ids)" for x :: id and ids by (induction ids) auto
  then have "CHR ''n'' # concat ids \<notin> set ids" for ids :: "id list" by fastforce
  then show ?thesis by (simp add: acc_env_of_def ids_law_def sample_access_env_def)
qed

definition sample_acc_ws :: workspace where
  "sample_acc_ws = \<lparr>w_id = ''w1'', w_identity = ''acme'', w_displayName = ''Acme'', w_description = None,
     w_dataMode = ''live'', w_documentStructure = ''frontend'', w_startupComposition = None, w_configuration = JObj [],
     w_meta = JObj [], w_active = True, w_deletedAt = None, w_headSequence = 1, w_revision = 1,
     w_createdBy = actor_of_id ''s'', w_updatedBy = actor_of_id ''s''\<rparr>"

definition sample_acc_db :: acc_db where
  "sample_acc_db = \<lparr>acc_users = [], acc_workspaces = [sample_acc_ws], acc_grants = [], acc_members = [], acc_external = []\<rparr>"

definition sample_person :: "string \<Rightarrow> upsert_user" where
  "sample_person name = \<lparr>uu_provider = ''idp'', uu_subject = name, uu_issuer = ''i'', uu_username = name, uu_displayName = name\<rparr>"

definition sample_alice :: ctx where
  "sample_alice = \<lparr>cx_actor = Some \<lparr>ca_user = Some \<lparr>u_id = ''n'', u_username = ''alice'', u_displayName = ''alice'', u_active = True\<rparr>,
     ca_platformAdmin = True\<rparr>, cx_access = None, cx_token = None, cx_batch = None, cx_now = 0\<rparr>"

text \<open>One command; a failed one keeps the tables.\<close>

definition acc_run :: "time \<Rightarrow> policy option \<Rightarrow> acc_op \<Rightarrow> acc_db \<Rightarrow> acc_db" where
  "acc_run now pol op db = (case acc_step (sample_access_env now) pol op db of Inr db' \<Rightarrow> db' | Inl _ \<Rightarrow> db)"

definition sample_acc1 :: acc_db where
  "sample_acc1 = acc_run 1 None (AoResolve (sample_person ''alice'') False None) sample_acc_db"

definition sample_acc2 :: acc_db where
  "sample_acc2 = acc_run 2 None (AoResolve (sample_person ''bob'') False None) sample_acc1"

definition sample_acc3 :: acc_db where
  "sample_acc3 = acc_run 3 None (AoPut sample_alice
     \<lparr>ap_user = ''nn'', ap_scope = ''workspace'', ap_workspace = ''acme'', ap_role = ''editor''\<rparr>) sample_acc2"

definition sample_access_policy :: "policy option" where
  "sample_access_policy = Some (NewPolicy ''idp'' ''corp'' ''v1'' [])"

definition sample_snapshot :: access_snapshot where
  "sample_snapshot = \<lparr>sn_config = ''v1'', sn_token = ''t1'', sn_issued = Some 5, sn_expires = 100,
     sn_grants = [\<lparr>g_scope = ''workspace'', g_workspace = ''acme'', g_role = ''viewer''\<rparr>]\<rparr>"

definition sample_acc4 :: acc_db where
  "sample_acc4 = acc_run 6 sample_access_policy (AoResolve (sample_person ''bob'') False (Some sample_snapshot)) sample_acc3"


lemma acc_run_served:
  assumes "access_served (sample_access_env 0) P db0 db" "pol \<in> P"
  shows "access_served (sample_access_env 0) P db0 (acc_run now pol op db)"
proof (cases "acc_step (sample_access_env now) pol op db")
  case (Inr db')
  with access_more [OF assms(1) sample_access_env_ok assms(2)] show ?thesis by (simp add: acc_run_def)
qed (simp add: acc_run_def assms(1))

lemma sample_acc_fresh: "acc_fresh (sample_access_env 0) sample_acc_db"
  unfolding acc_fresh_def ids_read_def by code_simp

lemma sample_acc_served:
  "access_served (sample_access_env 0) UNIV sample_acc_db sample_acc_db"
  "access_served (sample_access_env 0) UNIV sample_acc_db sample_acc1"
  "access_served (sample_access_env 0) {None} sample_acc1 sample_acc3"
  "access_served (sample_access_env 0) UNIV sample_acc_db sample_acc3"
  "access_served (sample_access_env 0) UNIV sample_acc_db sample_acc4"
  "access_served (sample_access_env 0) UNIV sample_acc4 sample_acc4"
  unfolding sample_acc4_def sample_acc3_def sample_acc2_def sample_acc1_def
  by (intro acc_run_served access_start UNIV_I singletonI)+

lemma sample_acc_facts:
  "HasPlatformAdmins sample_acc1"
  "list_ex (platform_of ''n'') (acc_grants sample_acc1)"
  "WorkspaceRole ''w1'' ''nn'' False sample_acc3 = Inr ''editor''"
  "map mb_role (acc_members sample_acc3) = [''editor'']"
  "WorkspaceRole ''w1'' ''nn'' False sample_acc4 = Inr ''viewer''"
  "map_option ex_issued (external_of ''nn'' sample_acc4) = Some 5"
  by code_simp+

end
