(* ===== verification/JsonText.thy ===== *)
theory JsonText
  imports JsonValue
begin

text \<open>
  The text \<open>json.Marshal\<close> writes for a value: strings with the escapes of \<open>encoding/json\<close> (control characters, the
  HTML characters, the line separators U+2028 and U+2029, a replacement for bytes that are no UTF-8), numbers by their
  literals, objects in the order of their keys.
\<close>

section \<open>Strings\<close>

text \<open>The number of bytes of the rune at the head of a string, 0 when they are no UTF-8.\<close>

definition byte_in :: "nat \<Rightarrow> nat \<Rightarrow> char \<Rightarrow> bool" where
  "byte_in lo hi c \<longleftrightarrow> lo \<le> of_char c \<and> of_char c \<le> hi"

fun rune_width :: "string \<Rightarrow> nat" where
  "rune_width [] = 0"
| "rune_width (c # s) =
     (if byte_in 0 0x7F c then 1
      else if byte_in 0xC2 0xDF c then (case s of d # _ \<Rightarrow> if byte_in 0x80 0xBF d then 2 else 0 | _ \<Rightarrow> 0)
      else if byte_in 0xE0 0xEF c then (case s of
          d # e # _ \<Rightarrow> if byte_in (if c = CHR 0xE0 then 0xA0 else 0x80) (if c = CHR 0xED then 0x9F else 0xBF) d
              \<and> byte_in 0x80 0xBF e then 3 else 0
        | _ \<Rightarrow> 0)
      else if byte_in 0xF0 0xF4 c then (case s of
          d # e # f # _ \<Rightarrow> if byte_in (if c = CHR 0xF0 then 0x90 else 0x80) (if c = CHR 0xF4 then 0x8F else 0xBF) d
              \<and> byte_in 0x80 0xBF e \<and> byte_in 0x80 0xBF f then 4 else 0
        | _ \<Rightarrow> 0)
      else 0)"

definition hex_lower :: "nat \<Rightarrow> char" where
  "hex_lower n = (if n < 10 then char_of (48 + n) else char_of (87 + n))"

definition escaped_char :: "char \<Rightarrow> string" where
  "escaped_char c =
     (if c = CHR 0x22 \<or> c = CHR 0x5C then [CHR 0x5C, c]
      else if c = CHR 0x08 then [CHR 0x5C, CHR ''b'']
      else if c = CHR 0x0C then [CHR 0x5C, CHR ''f'']
      else if c = CHR 0x0A then [CHR 0x5C, CHR ''n'']
      else if c = CHR 0x0D then [CHR 0x5C, CHR ''r'']
      else if c = CHR 0x09 then [CHR 0x5C, CHR ''t'']
      else if byte_in 0 0x1F c \<or> c = CHR ''<'' \<or> c = CHR ''>'' \<or> c = CHR 0x26
        then CHR 0x5C # ''u00'' @ [hex_lower (of_char c div 16), hex_lower (of_char c mod 16)]
      else [c])"

text \<open>The rune at the head: how many bytes it takes and what is written for it.\<close>

definition rune_text :: "string \<Rightarrow> nat \<times> string" where
  "rune_text s =
     (let n = rune_width s; r = take n s in
      if n = 0 then (1, CHR 0x5C # ''ufffd'')
      else if n = 1 then (1, escaped_char (hd s))
      else if r = [CHR 0xE2, CHR 0x80, CHR 0xA8] then (n, CHR 0x5C # ''u2028'')
      else if r = [CHR 0xE2, CHR 0x80, CHR 0xA9] then (n, CHR 0x5C # ''u2029'')
      else (n, r))"

fun escaped :: "string \<Rightarrow> string" where
  "escaped [] = []"
| "escaped (c # s) = snd (rune_text (c # s)) @ escaped (drop (fst (rune_text (c # s)) - 1) s)"

definition json_string :: "string \<Rightarrow> string" where
  "json_string s = CHR 0x22 # escaped s @ [CHR 0x22]"

section \<open>Values\<close>

fun json_text :: "json \<Rightarrow> string" where
  "json_text JNull = ''null''"
| "json_text (JBool b) = (if b then ''true'' else ''false'')"
| "json_text (JInt i) = itoa i"
| "json_text (JFloat l) = l"
| "json_text (JNumber l) = (if l = [] then ''0'' else l)"
| "json_text (JStr s) = json_string s"
| "json_text (JArr xs) = ''['' @ join_with '','' (map json_text xs) @ '']''"
| "json_text (JObj m) = CHR 0x7B # join_with '','' (map (\<lambda>kv. json_string (fst kv) @ '':'' @ json_text (snd kv)) m) @ [CHR 0x7D]"

lemma json_text_examples:
  "json_text (JObj [(''a'', JArr [JFloat ''1'', JStr ''x<y'', JNull]), (''b'', JBool True)])
     = CHR 0x7B # CHR 0x22 # ''a'' @ CHR 0x22 # '':[1,'' @ CHR 0x22 # ''x'' @ CHR 0x5C # ''u003cy'' @ CHR 0x22 # '',null],''
       @ CHR 0x22 # ''b'' @ CHR 0x22 # '':true'' @ [CHR 0x7D]"
  "json_string [CHR 0xE2, CHR 0x80, CHR 0xA8, CHR 0xFF] = CHR 0x22 # CHR 0x5C # ''u2028'' @ CHR 0x5C # ''ufffd'' @ [CHR 0x22]"
  by code_simp+

end
