(* ===== verification/DomainVersion.thy ===== *)
theory DomainVersion
  imports JsonText ConfigurationDomain "HOL-Library.Product_Lexorder"
begin

text \<open>
  The portable form of a workspace and its version: \<open>internal/domain/domainversion\<close> (canonical.go, domain_version.go).
  A bundle is edited in place by the code; here every step returns the edited part. Maps are ranged over in key order; the
  steps for different collections and items do not meet. SHA-256 (as lower-case hexadecimal) and the printed form of a
  \<open>float64\<close> are parameters. An item of a collection is a map: a null item makes the code panic. Build profiles
  and the AI catalogue pass through.
\<close>

section \<open>Bundles\<close>

type_synonym doc_map = "(string \<times> jobj list) list"

record portable_bundle =
  bn_kind :: string
  bn_schemaVersion :: int
  bn_domainVersion :: string
  bn_workspace :: "jobj option"
  bn_documents :: "doc_map option"
  bn_installedIntegrations :: "jobj list"

record canon_report =
  cr_ignoredLegacyFolders :: nat
  cr_normalizedFolderReferences :: nat
  cr_migratedLegacyActions :: nat
  cr_migratedLegacyVocabs :: nat
  cr_SFCEditingDefaultsAdded :: bool

definition docs_in :: "doc_map \<Rightarrow> string \<Rightarrow> jobj list" where
  "docs_in docs kind = orElse (oget docs kind) []"

definition stringValue :: "jobj \<Rightarrow> string \<Rightarrow> string" where
  "stringValue item key = orElse (as_str (oget item key)) []"

definition integerValue :: "jobj \<Rightarrow> string \<Rightarrow> int" where
  "integerValue item key = (case oget item key of
      Some (JFloat l) \<Rightarrow> fst (float_int l)
    | Some (JInt i) \<Rightarrow> i
    | Some (JNumber l) \<Rightarrow> fst (parse_int64 l)
    | _ \<Rightarrow> 0)"

section \<open>The workspace\<close>

definition add_collections :: "doc_map \<Rightarrow> doc_map" where
  "add_collections docs =
     fold (\<lambda>kind d. if ohas d kind then d else oput kind [] d) (CollectionConfigurations # FacetCollections) docs"

definition canonicalWorkspace :: "jobj option \<Rightarrow> jobj \<times> bool" where
  "canonicalWorkspace workspace =
     (let w = odel ''state'' (orElse workspace []);
          w = (if ohas w ''documentStructure'' then w else oput ''documentStructure'' (JStr WorkspaceDocumentStructureFrontend) w) in
      case oget w ''configuration'' of
        None \<Rightarrow> (w, False)
      | Some c0 \<Rightarrow>
          let c = RemoveLegacySSE c0; c' = EnsureSFCEditingDefaults c in
          (oput ''configuration'' c' w, json_text c \<noteq> json_text c'))"

section \<open>Legacy actions and vocabularies\<close>

definition single_quoted :: "string \<Rightarrow> string" where
  "single_quoted s = CHR 0x27 # s @ [CHR 0x27]"

definition source_lines :: "string list \<Rightarrow> string" where
  "source_lines ls = concat (map (\<lambda>l. l @ [CHR 0x0A]) ls)"

definition defaultActionSource :: string where
  "defaultActionSource = source_lines
     [''defineAction({'', ''  contract: {'', ''    input: field('' @ single_quoted ''Object'' @ ''),'',
      ''    output: field('' @ single_quoted ''Object'' @ ''),'', ''  },'', [], ''  steps: {'', ''    result: input(),'', ''  },'', [],
      ''  output: output('' @ single_quoted ''result'' @ ''),'', ''})'']"

definition canonicalAction :: "jobj \<Rightarrow> jobj \<times> bool" where
  "canonicalAction action =
     (if trim_space (stringValue action ''source'') \<noteq> [] then (action, False)
      else (odel ''output'' (odel ''input'' (odel ''definition''
        (oput ''sourceVersion'' (JFloat ''1'') (oput ''source'' (JStr defaultActionSource) action)))), True))"

definition isSourceEnvironmentName :: "string \<Rightarrow> bool" where
  "isSourceEnvironmentName v \<longleftrightarrow> v \<noteq> [] \<and> \<not> is_digit (hd v)
     \<and> list_all (\<lambda>c. c = CHR ''_'' \<or> (CHR ''A'' \<le> c \<and> c \<le> CHR ''Z'') \<or> (CHR ''a'' \<le> c \<and> c \<le> CHR ''z'') \<or> is_digit c) v"

definition legacyVocabBaseURLSource :: "string \<Rightarrow> string" where
  "legacyVocabBaseURLSource value =
     (let v = trim_space value; name = butlast (tl v) in
      if length v > 2 \<and> hd v = CHR 0x7B \<and> last v = CHR 0x7D \<and> isSourceEnvironmentName name
      then ''env('' @ json_string name @ '')'' else json_string v)"

definition vocab_auth :: "jobj \<Rightarrow> string" where
  "vocab_auth vocab =
     (let m0 = stringValue vocab ''authMode'';
          authMode = (if m0 \<noteq> ''profile'' \<and> m0 \<noteq> ''none'' then ''inherit'' else m0) in
      CHR 0x7B # '' mode: '' @ json_string authMode
        @ (if authMode = ''profile'' then '', profile: '' @ json_string (stringValue vocab ''authProfileIdentity'') else [])
        @ '' '' @ [CHR 0x7D])"

definition vocab_source :: "jobj \<Rightarrow> string" where
  "vocab_source vocab =
     (let c0 = stringValue vocab ''collectionSlug''; collection = (if c0 = [] then stringValue vocab ''identity'' else c0) in
      source_lines
       [''defineVocab({'', ''  provider: payload({'', ''    baseUrl: '' @ legacyVocabBaseURLSource (stringValue vocab ''baseApiUrl'') @ '','',
        ''    collection: '' @ json_string collection @ '','', ''    auth: '' @ vocab_auth vocab @ '','', ''  }),'', [], ''  outputs: {'',
        ''    items: output()'', ''      .from(response()),'', ''  },'', ''})''])"

definition normalizeLegacyVocabSource :: "jobj \<Rightarrow> jobj \<times> bool" where
  "normalizeLegacyVocabSource vocab =
     (if trim_space (stringValue vocab ''source'') \<noteq> [] \<or> stringValue vocab ''mode'' \<noteq> ''external_payload'' then (vocab, False)
      else (oput ''sourceVersion'' (JFloat ''1'') (oput ''source'' (JStr (vocab_source vocab)) vocab), True))"

section \<open>Folders\<close>

definition default_key :: "string \<Rightarrow> json \<Rightarrow> jobj \<Rightarrow> jobj" where
  "default_key k v m = (if ohas m k then m else oput k v m)"

definition canonicalFolder :: "jobj \<Rightarrow> jobj" where
  "canonicalFolder folder =
     (let f = default_key ''color'' JNull (default_key ''icon'' JNull (default_key ''scope'' (JStr FolderScopeCollection) folder));
          entityType = stringValue f ''entityType'';
          f = (if entityType \<noteq> [] then oput ''entityType'' (JStr (FolderEntityType entityType)) f else f) in
      if stringValue f ''parentIdentity'' = LegacyRootStreamsIdentity
      then oput ''parentIdentity'' (JStr (RootFolderIdentity CollectionStreams)) f else f)"

definition workspaceRoot :: jobj where
  "workspaceRoot = fold (\<lambda>(k, v) m. oput k v m)
     [(''identity'', JStr WorkspaceRootFolderIdentity), (''displayName'', JStr ''Workspace''), (''description'', JNull),
      (''scope'', JStr FolderScopeWorkspace), (''entityType'', JNull), (''parentIdentity'', JNull), (''isRoot'', JBool True),
      (''icon'', JNull), (''color'', JNull), (''managedBy'', JStr ManagedBySystem), (''managedById'', JNull), (''meta'', JObj []),
      (''active'', JBool True)] []"

definition folder_types :: "jobj list \<Rightarrow> (string \<times> string) list" where
  "folder_types folders = rev (map (\<lambda>f. (stringValue f ''identity'', stringValue f ''entityType'')) folders)"

definition wrong_reference :: "string \<Rightarrow> (string \<Rightarrow> string option) \<Rightarrow> string \<Rightarrow> bool" where
  "wrong_reference kind types f \<longleftrightarrow> f \<noteq> [] \<and> ((has_prefix ''root-'' f \<and> f \<noteq> RootFolderIdentity kind)
     \<or> (case types f of None \<Rightarrow> False | Some t \<Rightarrow> t \<noteq> FolderEntityType kind))"

definition normalizeFolderReference :: "string \<Rightarrow> (string \<times> string) list \<Rightarrow> jobj \<Rightarrow> jobj \<times> nat" where
  "normalizeFolderReference kind types item =
     (let f0 = stringValue item ''folderIdentity'';
          f = (if kind = ''streams'' \<and> f0 = ''root-streams'' then RootFolderIdentity kind else f0);
          (item1, n) = (if f \<noteq> f0 then (oput ''folderIdentity'' (JStr f) item, 1) else (item, 0)) in
      if f = ''no-folder'' \<or> f = ''root-bindings'' then (odel ''folderIdentity'' item1, n + 1)
      else if wrong_reference kind (map_of types) f
        then (oput ''folderIdentity'' (JStr (RootFolderIdentity kind)) item1, n + 1)
      else (item1, n))"

definition legacyFolders :: "string list" where
  "legacyFolders = [''soft-deleted'', ''no-folder'', ''root-bindings'', LegacyRootStreamsIdentity]"

text \<open>One item of the last loop: dropped (\<open>None\<close>) or kept, with the number of normalized references.\<close>

definition canonicalItem :: "(string \<times> string) list \<Rightarrow> string \<Rightarrow> jobj \<Rightarrow> jobj option \<times> nat" where
  "canonicalItem types kind item0 =
     (let item = RemoveLegacySSEFromDocument kind (odel ''state'' item0);
          item = (if kind = ''queries'' \<and> integerValue item ''sourceVersion'' = 1 then oput ''sourceVersion'' (JFloat ''2'') item else item) in
      if kind = CollectionFolders then
        (if stringValue item ''identity'' \<in> set legacyFolders then (None, 0) else (Some item, 0))
      else
        let (item, n) = normalizeFolderReference kind types item in
        if kind \<notin> set FacetCollections \<and> trim_space (stringValue item ''workspaceFolderIdentity'') = []
        then (Some (oput ''workspaceFolderIdentity'' (JStr WorkspaceRootFolderIdentity) item), n + 1)
        else (Some item, n))"

section \<open>The canonical form\<close>

text \<open>The items of one collection are edited where the collection is present.\<close>

definition edit_docs :: "string \<Rightarrow> (jobj \<Rightarrow> jobj) \<Rightarrow> doc_map \<Rightarrow> doc_map" where
  "edit_docs kind f docs = map (\<lambda>(k, items). (k, if k = kind then map f items else items)) docs"

definition merge_legacy :: "doc_map \<Rightarrow> doc_map" where
  "merge_legacy docs = (case oget docs ''componentSFCs'' of
      None \<Rightarrow> docs
    | Some legacy \<Rightarrow> odel ''componentSFCs'' (oput CollectionComponents (docs_in docs CollectionComponents @ legacy) docs))"

definition is_workspace_root :: "jobj \<Rightarrow> bool" where
  "is_workspace_root f \<longleftrightarrow> stringValue f ''identity'' = WorkspaceRootFolderIdentity"

definition add_workspace_root :: "doc_map \<Rightarrow> doc_map" where
  "add_workspace_root docs = (if list_ex is_workspace_root (docs_in docs CollectionFolders) then docs
     else oput CollectionFolders (docs_in docs CollectionFolders @ [workspaceRoot]) docs)"

definition canonical_sources :: "doc_map \<Rightarrow> doc_map" where
  "canonical_sources docs = edit_docs CollectionVocabs (fst \<circ> normalizeLegacyVocabSource)
     (edit_docs CollectionActions (fst \<circ> canonicalAction) (merge_legacy (add_collections docs)))"

definition canonical_folders :: "doc_map \<Rightarrow> doc_map" where
  "canonical_folders docs = add_workspace_root (edit_docs CollectionFolders canonicalFolder docs)"

definition canonical_items :: "doc_map \<Rightarrow> doc_map" where
  "canonical_items docs = (let types = folder_types (docs_in docs CollectionFolders) in
     map (\<lambda>(kind, items). (kind, List.map_filter (fst \<circ> canonicalItem types kind) items)) docs)"

definition canonical_documents :: "doc_map \<Rightarrow> doc_map" where
  "canonical_documents docs = canonical_items (canonical_folders (canonical_sources docs))"

definition count_if :: "('a \<Rightarrow> bool) \<Rightarrow> 'a list \<Rightarrow> nat" where
  "count_if p xs = length (filter p xs)"

definition canon_report_of :: "doc_map \<Rightarrow> bool \<Rightarrow> canon_report" where
  "canon_report_of docs added =
     (let merged = merge_legacy (add_collections docs); d = canonical_folders (canonical_sources docs);
          types = folder_types (docs_in d CollectionFolders) in
      \<lparr>cr_ignoredLegacyFolders = count_if (\<lambda>f. fst (canonicalItem types CollectionFolders f) = None) (docs_in d CollectionFolders),
       cr_normalizedFolderReferences = sum_list (map (\<lambda>(kind, items). sum_list (map (snd \<circ> canonicalItem types kind) items)) d),
       cr_migratedLegacyActions = count_if (snd \<circ> canonicalAction) (docs_in merged CollectionActions),
       cr_migratedLegacyVocabs = count_if (snd \<circ> normalizeLegacyVocabSource) (docs_in merged CollectionVocabs),
       cr_SFCEditingDefaultsAdded = added\<rparr>)"

definition CanonicalizeInPlace :: "portable_bundle \<Rightarrow> portable_bundle \<times> canon_report" where
  "CanonicalizeInPlace b =
     (let docs = orElse (bn_documents b) []; (workspace, added) = canonicalWorkspace (bn_workspace b) in
      (b\<lparr>bn_kind := (if bn_kind b = [] then ''workspace-snapshot'' else bn_kind b),
         bn_workspace := Some workspace, bn_documents := Some (canonical_documents docs)\<rparr>,
       canon_report_of docs added))"

text \<open>Printing and reading back: every number becomes a \<open>float64\<close>.\<close>

definition redecode :: "(string \<Rightarrow> string) \<Rightarrow> json \<Rightarrow> json" where
  "redecode nf v = unmarshal nf (marshal v)"

definition oredecode :: "(string \<Rightarrow> string) \<Rightarrow> jobj \<Rightarrow> jobj" where
  "oredecode nf m = map (\<lambda>(k, v). (k, redecode nf v)) m"

definition bundle_redecode :: "(string \<Rightarrow> string) \<Rightarrow> portable_bundle \<Rightarrow> portable_bundle" where
  "bundle_redecode nf b = b\<lparr>bn_workspace := map_option (oredecode nf) (bn_workspace b),
     bn_documents := map_option (map (\<lambda>(kind, items). (kind, map (oredecode nf) items))) (bn_documents b),
     bn_installedIntegrations := map (oredecode nf) (bn_installedIntegrations b)\<rparr>"

definition Canonicalize :: "(string \<Rightarrow> string) \<Rightarrow> portable_bundle \<Rightarrow> portable_bundle \<times> canon_report" where
  "Canonicalize nf b = CanonicalizeInPlace (bundle_redecode nf b)"

section \<open>The version\<close>

definition legacyPrefix :: string where "legacyPrefix = ''dv1:sha256:''"
definition currentPrefix :: string where "currentPrefix = ''dv2:sha256:''"

definition portable_keys :: "string list" where
  "portable_keys = [''displayName'', ''description'', ''dataMode'', ''documentStructure'', ''configuration'', ''meta'', ''active'']"

definition portableWorkspace :: "jobj \<Rightarrow> jobj" where
  "portableWorkspace source =
     fold (\<lambda>key result. case oget source key of None \<Rightarrow> result | Some v \<Rightarrow> oput key v result) portable_keys []"

text \<open>The order of the documents of a collection: by identity (facet documents by their facet first), then by text.\<close>

definition document_order :: "string \<Rightarrow> jobj \<Rightarrow> string \<times> string \<times> string" where
  "document_order kind item =
     (if kind = CollectionFacetDocuments then stringValue item ''facetIdentity'' else [],
      stringValue item ''identity'', json_text (JObj item))"

definition hashed_items :: "(string \<Rightarrow> string) \<Rightarrow> string \<Rightarrow> jobj list \<Rightarrow> jobj list" where
  "hashed_items nf kind items = sort_key (document_order kind) (map (odel ''state'' \<circ> oredecode nf) items)"

definition hashed_text :: "(string \<Rightarrow> string) \<Rightarrow> portable_bundle \<Rightarrow> string" where
  "hashed_text nf b =
     CHR 0x7B # join_with '',''
       [json_string ''kind'' @ '':'' @ json_string (bn_kind b),
        json_string ''schemaVersion'' @ '':'' @ itoa (bn_schemaVersion b),
        json_string ''workspace'' @ '':'' @ json_text (JObj (portableWorkspace (orElse (bn_workspace b) []))),
        json_string ''documents'' @ '':'' @ json_text (JObj (map (\<lambda>(kind, items).
          (kind, JArr (map JObj (hashed_items nf kind items)))) (orElse (bn_documents b) [])))] @ [CHR 0x7D]"

definition compute_version :: "(string \<Rightarrow> string) \<Rightarrow> (string \<Rightarrow> string) \<Rightarrow> portable_bundle \<Rightarrow> string \<Rightarrow> string" where
  "compute_version sha nf b versionPrefix = versionPrefix @ sha (hashed_text nf b)"

definition Compute :: "(string \<Rightarrow> string) \<Rightarrow> (string \<Rightarrow> string) \<Rightarrow> portable_bundle \<Rightarrow> string" where
  "Compute sha nf b = compute_version sha nf (fst (Canonicalize nf b)) currentPrefix"

definition is_hex_digit :: "char \<Rightarrow> bool" where
  "is_hex_digit c \<longleftrightarrow> is_digit c \<or> (CHR ''a'' \<le> c \<and> c \<le> CHR ''f'') \<or> (CHR ''A'' \<le> c \<and> c \<le> CHR ''F'')"

definition validateDeclaredVersion :: "string \<Rightarrow> unit res" where
  "validateDeclaredVersion v =
     (let check = (\<lambda>digest. failIf (length digest \<noteq> 64) (Plain ''invalid domain version digest length'') (
          failIf (\<not> list_all is_hex_digit digest) (Plain ''invalid domain version digest'') (Inr ()))) in
      if has_prefix legacyPrefix v then check (trim_prefix legacyPrefix v)
      else if has_prefix currentPrefix v then check (trim_prefix currentPrefix v)
      else Inl (Plain ''unsupported domain version''))"

definition IsCurrent :: "string \<Rightarrow> bool" where
  "IsCurrent v \<longleftrightarrow> has_prefix currentPrefix v \<and> validateDeclaredVersion v = Inr ()"

definition ComputeForDeclaredVersion :: "(string \<Rightarrow> string) \<Rightarrow> (string \<Rightarrow> string) \<Rightarrow> portable_bundle \<Rightarrow> string \<Rightarrow> string res" where
  "ComputeForDeclaredVersion sha nf b declared =
     bindE (validateDeclaredVersion declared) (\<lambda>_.
     if has_prefix legacyPrefix declared then Inr (compute_version sha nf b legacyPrefix)
     else if has_prefix currentPrefix declared then Inr (Compute sha nf b)
     else Inl (Plain ''unsupported domain version''))"

text \<open>\<open>Attach\<close> of a bundle that is not nil.\<close>

definition dv_Attach :: "(string \<Rightarrow> string) \<Rightarrow> (string \<Rightarrow> string) \<Rightarrow> portable_bundle \<Rightarrow> portable_bundle" where
  "dv_Attach sha nf b = (let b1 = fst (CanonicalizeInPlace b) in b1\<lparr>bn_domainVersion := Compute sha nf b1\<rparr>)"

end
