(* ===== verification/DomainLaws.thy ===== *)
theory DomainLaws
  imports DomainVersion
begin

text \<open>
  The laws of the portable form: canonicalizing is idempotent, also across printing and reading back, and the version
  depends neither on the order of the documents nor on the fields import ignores.
\<close>

section \<open>Maps whose update changes nothing\<close>

lemma oput_id: "owf m \<Longrightarrow> oget m k = Some v \<Longrightarrow> oput k v m = m"
  by (rule owf_eqI) (auto simp: oget_put)

lemma odel_id: "oget m k = None \<Longrightarrow> odel k m = m"
  by (induction m) (auto simp: odel_def oget_def split: if_splits)

lemma default_key_facts:
  "owf m \<Longrightarrow> owf (default_key k v m)"
  "oget (default_key k v m) j = (if j = k \<and> oget m k = None then Some v else oget m j)"
  "oget m k \<noteq> None \<Longrightarrow> default_key k v m = m"
  by (auto simp: default_key_def ohas_iff oget_put)

lemma stringValue_put: "stringValue (oput k v m) j = (if j = k then orElse (as_str (Some v)) [] else stringValue m j)"
  by (simp add: stringValue_def oget_put)

lemma stringValue_del: "stringValue (odel k m) j = (if j = k then [] else stringValue m j)"
  by (simp add: stringValue_def oget_del)

lemma stringValue_some: "stringValue m k \<noteq> [] \<Longrightarrow> oget m k = Some (JStr (stringValue m k))"
  by (cases "as_str (oget m k)") (auto simp: stringValue_def as_str_iff)

lemma stringValue_cong: "oget m k = oget m' k \<Longrightarrow> stringValue m k = stringValue m' k"
  by (simp add: stringValue_def)

lemma integerValue_cong: "oget m k = oget m' k \<Longrightarrow> integerValue m k = integerValue m' k"
  by (simp add: integerValue_def)

section \<open>Items\<close>

text \<open>Legacy server-sent events: a second removal finds nothing.\<close>

fun item_wf :: "jobj \<Rightarrow> bool" where
  "item_wf m \<longleftrightarrow> owf m \<and> (\<forall>c. oget m ''configuration'' = Some (JObj c) \<longrightarrow> owf c)"

declare item_wf.simps [simp del]

definition sse_free :: "string \<Rightarrow> jobj \<Rightarrow> bool" where
  "sse_free kind m \<longleftrightarrow> RemoveLegacySSEFromDocument kind m = m"

lemma remove_nested_other: "j \<noteq> key \<Longrightarrow> oget (remove_nested_sse key m) j = oget m j"
  by (auto simp: remove_nested_sse_def oget_put split: option.splits)

lemma owf_remove_nested: "owf m \<Longrightarrow> owf (remove_nested_sse key m)"
  by (auto simp: remove_nested_sse_def split: option.splits)

lemma remove_nested_fix:
  "owf m \<Longrightarrow> (\<And>n. oget m key = Some (JObj n) \<Longrightarrow> oget n ''sse'' = None) \<Longrightarrow> remove_nested_sse key m = m"
  by (auto simp: remove_nested_sse_def as_obj_iff odel_id oput_id split: option.splits)

lemma remove_nested_result: "oget (remove_nested_sse key m) key = Some (JObj n) \<Longrightarrow> oget n ''sse'' = None"
  by (auto simp: remove_nested_sse_def as_obj_iff oget_put oget_del split: option.splits if_splits)

definition clean_configuration :: "jobj \<Rightarrow> jobj" where
  "clean_configuration c = fold remove_nested_sse [''patch'', ''value''] (odel ''sse'' c)"

lemma clean_configuration_idem: "owf c \<Longrightarrow> clean_configuration (clean_configuration c) = clean_configuration c"
proof -
  assume c: "owf c"
  let ?p = "remove_nested_sse ''patch'' (odel ''sse'' c)"
  let ?d = "remove_nested_sse ''value'' ?p"
  have w: "owf ?d" "owf ?p" using c by (simp_all add: owf_remove_nested)
  have "oget ?d ''sse'' = None" by (simp add: remove_nested_other)
  moreover have "remove_nested_sse ''patch'' ?d = ?d"
    by (rule remove_nested_fix [OF w(1)]) (simp add: remove_nested_other, erule remove_nested_result)
  moreover have "remove_nested_sse ''value'' ?d = ?d"
    by (rule remove_nested_fix [OF w(1)]) (erule remove_nested_result)
  ultimately show ?thesis by (simp add: clean_configuration_def odel_id)
qed

lemma owf_clean: "owf c \<Longrightarrow> owf (clean_configuration c)"
  by (simp add: clean_configuration_def owf_remove_nested)

lemma RemoveLegacy_clean:
  "RemoveLegacySSEFromDocument kind m = (if kind \<noteq> ''facet-documents'' then m else case as_obj (oget m ''configuration'') of
      None \<Rightarrow> m | Some c \<Rightarrow> oput ''configuration'' (JObj (clean_configuration c)) m)"
  unfolding RemoveLegacySSEFromDocument_def configurationDocumentTypes_def clean_configuration_def by simp

lemma RemoveLegacy_get: "k \<noteq> ''configuration'' \<Longrightarrow> oget (RemoveLegacySSEFromDocument kind m) k = oget m k"
  by (auto simp: RemoveLegacy_clean oget_put split: option.splits)

lemma sse_free_iff:
  assumes "owf m"
  shows "sse_free kind m \<longleftrightarrow> (kind = ''facet-documents'' \<longrightarrow> (\<forall>c. oget m ''configuration'' = Some (JObj c) \<longrightarrow> clean_configuration c = c))"
proof -
  have "oput ''configuration'' (JObj c') m = m \<longleftrightarrow> c' = c" if "oget m ''configuration'' = Some (JObj c)" for c c'
    using oput_id [OF assms that] oget_put_same [of "''configuration''" "JObj c'" m] that by (metis json.inject(7) option.inject)
  then show ?thesis by (auto simp: sse_free_def RemoveLegacy_clean as_obj_iff split: option.splits)
qed

lemma sse_free_RemoveLegacy: "item_wf m \<Longrightarrow> sse_free kind (RemoveLegacySSEFromDocument kind m)"
  by (subst sse_free_iff)
    (auto simp: item_wf.simps RemoveLegacy_clean as_obj_iff clean_configuration_idem split: option.splits if_splits)

lemma sse_free_cong: "owf m \<Longrightarrow> owf m' \<Longrightarrow> oget m ''configuration'' = oget m' ''configuration'' \<Longrightarrow> sse_free kind m = sse_free kind m'"
  by (simp add: sse_free_iff)

lemma item_wf_RemoveLegacy: "item_wf m \<Longrightarrow> item_wf (RemoveLegacySSEFromDocument kind m)"
  by (auto simp: item_wf.simps RemoveLegacy_clean as_obj_iff owf_clean oget_put split: option.splits)

lemma item_wf_put: "item_wf m \<Longrightarrow> k \<noteq> ''configuration'' \<Longrightarrow> item_wf (oput k v m)"
  by (simp add: item_wf.simps oget_put)

lemma item_wf_del: "item_wf m \<Longrightarrow> item_wf (odel k m)"
  by (simp add: item_wf.simps oget_del)

text \<open>References to folders: what a normalized reference looks like, and that it stays.\<close>

definition reference_settled :: "string \<Rightarrow> (string \<Rightarrow> string option) \<Rightarrow> string \<Rightarrow> bool" where
  "reference_settled kind types f \<longleftrightarrow> f \<noteq> ''no-folder'' \<and> f \<noteq> ''root-bindings'' \<and> \<not> (kind = ''streams'' \<and> f = ''root-streams'')
     \<and> (wrong_reference kind types f \<longrightarrow> f = RootFolderIdentity kind)"

lemma root_facts:
  "RootFolderIdentity kind \<noteq> []" "RootFolderIdentity kind \<noteq> ''no-folder''" "RootFolderIdentity kind \<noteq> ''root-streams''"
  "kind \<noteq> ''bindings'' \<Longrightarrow> RootFolderIdentity kind \<noteq> ''root-bindings''"
  by (auto simp: RootFolderIdentity_def FolderEntityType_def split: if_splits)

lemma RootFolderIdentity_settled: "kind \<noteq> ''bindings'' \<Longrightarrow> reference_settled kind types (RootFolderIdentity kind)"
  by (simp add: reference_settled_def root_facts)

lemma normalize_settled:
  assumes "owf item" "reference_settled kind (map_of types) (stringValue item ''folderIdentity'')"
  shows "fst (normalizeFolderReference kind types item) = item"
proof -
  define f where "f = stringValue item ''folderIdentity''"
  have s: "f \<noteq> ''no-folder''" "f \<noteq> ''root-bindings''" "\<not> (kind = ''streams'' \<and> f = ''root-streams'')"
    "wrong_reference kind (map_of types) f \<Longrightarrow> f = RootFolderIdentity kind"
    using assms(2) by (auto simp: reference_settled_def f_def)
  have put: "oput ''folderIdentity'' (JStr (RootFolderIdentity kind)) item = item" if "f = RootFolderIdentity kind"
    using stringValue_some [of item "''folderIdentity''"] root_facts(1) [of kind] that by (intro oput_id [OF assms(1)]) (simp add: f_def)
  have "fst (normalizeFolderReference kind types item)
      = (if wrong_reference kind (map_of types) f then oput ''folderIdentity'' (JStr (RootFolderIdentity kind)) item else item)"
    unfolding normalizeFolderReference_def f_def [symmetric] Let_def if_not_P [OF s(3)] using s(1,2) by simp
  with put s(4) show ?thesis by metis
qed

lemma normalize_get: "k \<noteq> ''folderIdentity'' \<Longrightarrow> oget (fst (normalizeFolderReference kind types item)) k = oget item k"
  by (simp add: normalizeFolderReference_def Let_def oget_put oget_del)

lemma owf_normalize: "owf item \<Longrightarrow> owf (fst (normalizeFolderReference kind types item))"
  by (simp add: normalizeFolderReference_def Let_def)

lemma normalize_result:
  assumes "kind \<noteq> ''bindings''"
  shows "reference_settled kind (map_of types) (stringValue (fst (normalizeFolderReference kind types item)) ''folderIdentity'')"
proof -
  define f0 where "f0 = stringValue item ''folderIdentity''"
  define f where "f = (if kind = ''streams'' \<and> f0 = ''root-streams'' then RootFolderIdentity kind else f0)"
  define item1 where "item1 = (if f \<noteq> f0 then oput ''folderIdentity'' (JStr f) item else item)"
  have r: "fst (normalizeFolderReference kind types item) = (if f = ''no-folder'' \<or> f = ''root-bindings'' then odel ''folderIdentity'' item1
      else if wrong_reference kind (map_of types) f then oput ''folderIdentity'' (JStr (RootFolderIdentity kind)) item1 else item1)"
    unfolding normalizeFolderReference_def f0_def [symmetric] Let_def f_def [symmetric] item1_def by simp
  have i1: "stringValue item1 ''folderIdentity'' = f" by (simp add: item1_def stringValue_put f0_def [symmetric])
  have streams: "\<not> (kind = ''streams'' \<and> f = ''root-streams'')" using root_facts(3) by (auto simp: f_def)
  consider (gone) "f = ''no-folder'' \<or> f = ''root-bindings''" | (wrong) "\<not> (f = ''no-folder'' \<or> f = ''root-bindings'')" "wrong_reference kind (map_of types) f"
    | (keep) "\<not> (f = ''no-folder'' \<or> f = ''root-bindings'')" "\<not> wrong_reference kind (map_of types) f" by blast
  then show ?thesis
  proof cases
    case gone
    then have "stringValue (fst (normalizeFolderReference kind types item)) ''folderIdentity'' = []" by (simp add: r stringValue_del)
    then show ?thesis by (simp add: reference_settled_def wrong_reference_def)
  next
    case wrong
    then have "stringValue (fst (normalizeFolderReference kind types item)) ''folderIdentity'' = RootFolderIdentity kind"
      unfolding r by (simp add: stringValue_put)
    with RootFolderIdentity_settled [OF assms] show ?thesis by simp
  next
    case keep
    then have "stringValue (fst (normalizeFolderReference kind types item)) ''folderIdentity'' = f" unfolding r by (simp add: i1)
    with keep streams show ?thesis by (simp add: reference_settled_def)
  qed
qed

lemma reference_settled_mono:
  assumes "reference_settled kind types f" "\<And>t. types' f = Some t \<Longrightarrow> types f = Some t"
  shows "reference_settled kind types' f"
proof -
  have "wrong_reference kind types' f \<Longrightarrow> wrong_reference kind types f"
    using assms(2) by (cases "types' f") (auto simp: wrong_reference_def)
  with assms(1) show ?thesis unfolding reference_settled_def by blast
qed

section \<open>Settled items\<close>

text \<open>What every item of a canonical bundle satisfies; a canonical item is unchanged by every step.\<close>

definition item_settled :: "string \<Rightarrow> jobj \<Rightarrow> bool" where
  "item_settled kind m \<longleftrightarrow> item_wf m
     \<and> (kind = CollectionActions \<longrightarrow> trim_space (stringValue m ''source'') \<noteq> [])
     \<and> (kind = CollectionVocabs \<longrightarrow> trim_space (stringValue m ''source'') \<noteq> [] \<or> stringValue m ''mode'' \<noteq> ''external_payload'')
     \<and> (kind = CollectionFolders \<longrightarrow> ohas m ''scope'' \<and> ohas m ''icon'' \<and> ohas m ''color''
          \<and> FolderEntityType (stringValue m ''entityType'') = stringValue m ''entityType''
          \<and> stringValue m ''parentIdentity'' \<noteq> LegacyRootStreamsIdentity)"

lemma strip_last:
  assumes "\<not> space1 c" "\<And>a. \<not> p a c" "\<And>a b. \<not> q a b c"
  shows "s \<noteq> [] \<Longrightarrow> last s = c \<Longrightarrow> strip p q s \<noteq> []"
  using assms by (induction p q s rule: strip.induct) (auto split: if_splits)

lemma trim_space_start:
  assumes "\<not> space1 c" "\<And>a. \<not> space2 c a" "\<And>a b. \<not> space3 c a b"
  shows "trim_space (c # s) \<noteq> []"
proof -
  have "trim_left (c # s) = c # s"
    using assms by (cases s; cases "tl s") (auto simp: trim_left_def)
  moreover have "strip (\<lambda>b a. space2 a b) (\<lambda>c b a. space3 a b c) (rev s @ [c]) \<noteq> []"
    by (rule strip_last [of c]) (use assms in auto)
  ultimately show ?thesis by (simp add: trim_space_def trim_right_def)
qed

lemma trim_space_d: "trim_space (CHR ''d'' # s) \<noteq> []"
  by (rule trim_space_start) (simp_all add: space1_def space2_def space3_def)

lemma canonicalAction_settled:
  assumes "item_wf m"
  shows "item_settled CollectionActions (fst (canonicalAction m))"
proof -
  have "trim_space defaultActionSource \<noteq> []" by code_simp
  with assms show ?thesis
    by (auto simp: item_settled_def canonicalAction_def item_wf_put item_wf_del stringValue_put stringValue_del collection_defs)
qed

lemma canonicalAction_fix: "item_settled CollectionActions m \<Longrightarrow> fst (canonicalAction m) = m"
  by (simp add: item_settled_def canonicalAction_def)

lemma vocab_source_starts: "\<exists>s. vocab_source m = CHR ''d'' # s"
  by (simp add: vocab_source_def Let_def source_lines_def)

lemma normalizeVocab_settled:
  assumes "item_wf m"
  shows "item_settled CollectionVocabs (fst (normalizeLegacyVocabSource m))"
proof -
  obtain s where "vocab_source m = CHR ''d'' # s" using vocab_source_starts by blast
  then have "trim_space (vocab_source m) \<noteq> []" using trim_space_d by simp
  with assms show ?thesis
    by (auto simp: item_settled_def normalizeLegacyVocabSource_def item_wf_put stringValue_put collection_defs)
qed

lemma normalizeVocab_fix: "item_settled CollectionVocabs m \<Longrightarrow> fst (normalizeLegacyVocabSource m) = m"
  by (auto simp: item_settled_def normalizeLegacyVocabSource_def)

lemma canonicalFolder_settled:
  assumes "item_wf m"
  shows "item_settled CollectionFolders (canonicalFolder m)"
proof -
  define f1 where "f1 = default_key ''color'' JNull (default_key ''icon'' JNull (default_key ''scope'' (JStr FolderScopeCollection) m))"
  define f2 where "f2 = (if stringValue f1 ''entityType'' \<noteq> [] then oput ''entityType'' (JStr (FolderEntityType (stringValue f1 ''entityType''))) f1 else f1)"
  define f3 where "f3 = (if stringValue f2 ''parentIdentity'' = LegacyRootStreamsIdentity
    then oput ''parentIdentity'' (JStr (RootFolderIdentity CollectionStreams)) f2 else f2)"
  have c: "canonicalFolder m = f3" by (simp add: canonicalFolder_def f1_def f2_def f3_def Let_def)
  have w1: "item_wf f1" using assms by (simp add: f1_def item_wf.simps default_key_facts)
  have w3: "item_wf f3" using w1 by (simp add: f2_def f3_def item_wf_put)
  have h: "ohas f1 ''scope''" "ohas f1 ''icon''" "ohas f1 ''color''" by (simp_all add: f1_def ohas_iff default_key_facts(2))
  then have h3: "ohas f3 ''scope''" "ohas f3 ''icon''" "ohas f3 ''color''" by (simp_all add: f2_def f3_def ohas_iff oget_put)
  have e: "FolderEntityType (stringValue f3 ''entityType'') = stringValue f3 ''entityType''"
  proof -
    have "FolderEntityType [] = []" by (simp add: FolderEntityType_def)
    then have "FolderEntityType (stringValue f2 ''entityType'') = stringValue f2 ''entityType''"
      by (auto simp: f2_def stringValue_put)
    then show ?thesis by (simp add: f3_def stringValue_put)
  qed
  have "stringValue f3 ''parentIdentity'' \<noteq> LegacyRootStreamsIdentity"
    by (simp add: f3_def stringValue_put RootFolderIdentity_def FolderEntityType_def folder_const_defs collection_defs)
  with w3 h3 e show ?thesis by (simp add: c item_settled_def collection_defs)
qed

lemma canonicalFolder_fix:
  assumes "item_settled CollectionFolders m"
  shows "canonicalFolder m = m"
proof -
  have w: "owf m" and h: "ohas m ''scope''" "ohas m ''icon''" "ohas m ''color''"
    and e: "FolderEntityType (stringValue m ''entityType'') = stringValue m ''entityType''"
    and p: "stringValue m ''parentIdentity'' \<noteq> LegacyRootStreamsIdentity"
    using assms by (auto simp: item_settled_def item_wf.simps)
  have d: "default_key ''color'' JNull (default_key ''icon'' JNull (default_key ''scope'' (JStr FolderScopeCollection) m)) = m"
    using h by (simp add: default_key_def)
  have "oput ''entityType'' (JStr (stringValue m ''entityType'')) m = m" if "stringValue m ''entityType'' \<noteq> []"
    using stringValue_some [OF that] by (simp add: oput_id [OF w])
  with e p show ?thesis by (simp add: canonicalFolder_def Let_def d)
qed

lemma canonicalFolder_identity: "stringValue (canonicalFolder m) ''identity'' = stringValue m ''identity''"
  by (simp add: canonicalFolder_def Let_def stringValue_def oget_put default_key_facts(2))

lemma workspaceRoot_facts:
  "owf workspaceRoot" "oget workspaceRoot ''configuration'' = None" "ohas workspaceRoot ''scope''" "ohas workspaceRoot ''icon''"
  "ohas workspaceRoot ''color''" "stringValue workspaceRoot ''entityType'' = []" "stringValue workspaceRoot ''parentIdentity'' = []"
  "stringValue workspaceRoot ''identity'' = WorkspaceRootFolderIdentity"
  unfolding owf_def by code_simp+

lemma workspaceRoot_settled: "item_settled CollectionFolders workspaceRoot"
  by (simp add: item_settled_def item_wf.simps workspaceRoot_facts FolderEntityType_def collection_defs folder_const_defs)

text \<open>The last loop keeps what is settled, and does nothing on its own results.\<close>

lemma canonicalItem_Some:
  assumes "fst (canonicalItem types kind m) = Some m'"
  obtains (folder) "kind = CollectionFolders" "m' = odel ''state'' m" "stringValue m ''identity'' \<notin> set legacyFolders"
  | (other) item1 item2 where "kind \<noteq> CollectionFolders" "item1 = RemoveLegacySSEFromDocument kind (odel ''state'' m)"
      "item2 = (if kind = ''queries'' \<and> integerValue item1 ''sourceVersion'' = 1 then oput ''sourceVersion'' (JFloat ''2'') item1 else item1)"
      "m' = (if kind \<notin> set FacetCollections \<and> trim_space (stringValue (fst (normalizeFolderReference kind types item2)) ''workspaceFolderIdentity'') = []
        then oput ''workspaceFolderIdentity'' (JStr WorkspaceRootFolderIdentity) (fst (normalizeFolderReference kind types item2))
        else fst (normalizeFolderReference kind types item2))"
proof (cases "kind = CollectionFolders")
  case True
  with assms have "m' = odel ''state'' m" "stringValue m ''identity'' \<notin> set legacyFolders"
    by (auto simp: canonicalItem_def collection_defs stringValue_del split: if_splits)
  with True folder show thesis by blast
next
  case False
  show thesis
    by (rule other [OF False refl refl])
      (use assms False in \<open>auto simp: canonicalItem_def Let_def split: prod.splits if_splits\<close>)
qed

lemma canonicalItem_settled:
  assumes "item_settled kind m" "fst (canonicalItem types kind m) = Some m'"
  shows "item_settled kind m'"
  using assms(2)
proof (cases rule: canonicalItem_Some)
  case folder
  with assms(1) show ?thesis
    by (simp add: item_settled_def item_wf_del stringValue_del ohas_iff oget_del collection_defs)
next
  case (other item1 item2)
  have w: "item_wf m" using assms(1) by (simp add: item_settled_def)
  have w2: "item_wf item2" using w by (simp add: other(2,3) item_wf_put item_wf_del item_wf_RemoveLegacy)
  have get2: "oget item2 k = oget m k" if "k \<noteq> ''state''" "k \<noteq> ''sourceVersion''" "k \<noteq> ''configuration''" for k
    using that by (simp add: other(2,3) oget_put RemoveLegacy_get)
  let ?n = "fst (normalizeFolderReference kind types item2)"
  have wn: "item_wf ?n" using w2 owf_normalize by (simp add: item_wf.simps normalize_get)
  have "item_wf m'" using wn by (simp add: other(4) item_wf_put)
  moreover have "stringValue m' k = stringValue m k" if "k \<in> {''source'', ''mode''}" for k
  proof -
    have "oget m' k = oget m k" using that get2 [of k] by (auto simp: other(4) oget_put normalize_get)
    then show ?thesis by (rule stringValue_cong)
  qed
  ultimately show ?thesis using assms(1) other(1) by (simp add: item_settled_def)
qed

lemma canonicalItem_fix:
  assumes "item_wf m" "fst (canonicalItem types kind m) = Some m'" "kind \<noteq> ''bindings''"
    "\<And>f t. map_of types' f = Some t \<Longrightarrow> map_of types f = Some t"
  shows "fst (canonicalItem types' kind m') = Some m'"
  using assms(2)
proof (cases rule: canonicalItem_Some)
  case folder
  then have "RemoveLegacySSEFromDocument kind (odel ''state'' m') = m'" by (simp add: collection_defs odel_id oget_del)
  with folder show ?thesis by (simp add: canonicalItem_def stringValue_del collection_defs)
next
  case (other item1 item2)
  have wd: "item_wf (odel ''state'' m)" using assms(1) by (rule item_wf_del)
  have w1: "item_wf item1" using wd by (simp add: other(2) item_wf_RemoveLegacy)
  have w2: "item_wf item2" using w1 by (simp add: other(3) item_wf_put)
  let ?n = "fst (normalizeFolderReference kind types item2)"
  have wn: "item_wf ?n" using w2 owf_normalize by (simp add: item_wf.simps normalize_get)
  have w': "owf m'" using wn by (simp add: other(4) item_wf.simps)
  have get': "oget m' k = oget item2 k" if "k \<noteq> ''workspaceFolderIdentity''" "k \<noteq> ''folderIdentity''" for k
    using that by (simp add: other(4) oget_put normalize_get)
  have state: "odel ''state'' m' = m'" by (rule odel_id) (simp add: get' other(2,3) oget_put RemoveLegacy_get)
  have "sse_free kind item1" using sse_free_RemoveLegacy [OF wd] by (simp add: other(2))
  moreover have "oget m' ''configuration'' = oget item1 ''configuration''" by (simp add: get' other(3) oget_put)
  ultimately have sse: "RemoveLegacySSEFromDocument kind m' = m'"
    using sse_free_cong [OF w', of item1 kind] w1 by (simp add: sse_free_def item_wf.simps)
  have "\<not> (kind = ''queries'' \<and> integerValue item2 ''sourceVersion'' = 1)"
  proof -
    have "integerValue (oput ''sourceVersion'' (JFloat ''2'') item1) ''sourceVersion'' = 2"
      using float_int_small(2) by (simp add: integerValue_def)
    then show ?thesis by (simp add: other(3))
  qed
  then have ver: "\<not> (kind = ''queries'' \<and> integerValue m' ''sourceVersion'' = 1)"
    using integerValue_cong [OF get' [of "''sourceVersion''"]] by simp
  have f: "stringValue m' ''folderIdentity'' = stringValue ?n ''folderIdentity''" by (simp add: other(4) stringValue_put)
  have "reference_settled kind (map_of types') (stringValue m' ''folderIdentity'')"
    unfolding f by (rule reference_settled_mono [OF normalize_result [OF assms(3)]]) (rule assms(4))
  then have ref: "fst (normalizeFolderReference kind types' m') = m'" by (rule normalize_settled [OF w'])
  have ws: "\<not> (kind \<notin> set FacetCollections \<and> trim_space (stringValue m' ''workspaceFolderIdentity'') = [])"
  proof -
    have "trim_space WorkspaceRootFolderIdentity \<noteq> []" by code_simp
    then show ?thesis by (simp add: other(4) stringValue_put)
  qed
  obtain n where n: "normalizeFolderReference kind types' m' = (m', n)" using ref by (metis prod.collapse)
  show ?thesis unfolding canonicalItem_def Let_def state sse if_not_P [OF ver] n prod.case if_not_P [OF ws] using other(1) by simp
qed

section \<open>Collections\<close>

definition docs_all :: "(string \<Rightarrow> jobj \<Rightarrow> bool) \<Rightarrow> doc_map \<Rightarrow> bool" where
  "docs_all P docs \<longleftrightarrow> (\<forall>kind items m. (kind, items) \<in> set docs \<longrightarrow> m \<in> set items \<longrightarrow> P kind m)"

definition docs_wf :: "doc_map \<Rightarrow> bool" where
  "docs_wf docs \<longleftrightarrow> owf docs \<and> docs_all (\<lambda>_. item_wf) docs"

lemma set_oput_subset: "set (oput k v m) \<subseteq> insert (k, v) (set m)"
  by (induction k v m rule: oput.induct) auto

lemma docs_all_oput: "docs_all P docs \<Longrightarrow> (\<And>m. m \<in> set items \<Longrightarrow> P kind m) \<Longrightarrow> docs_all P (oput kind items docs)"
  unfolding docs_all_def using set_oput_subset [of kind items docs] by blast

lemma docs_all_odel: "docs_all P docs \<Longrightarrow> docs_all P (odel kind docs)"
  by (auto simp: docs_all_def odel_def)

lemma docs_in_all: "docs_all P docs \<Longrightarrow> m \<in> set (docs_in docs kind) \<Longrightarrow> P kind m"
  by (cases "oget docs kind") (auto simp: docs_all_def docs_in_def dest: oget_in_set)

lemma docs_all_mono: "docs_all P docs \<Longrightarrow> (\<And>kind m. P kind m \<Longrightarrow> Q kind m) \<Longrightarrow> docs_all Q docs"
  unfolding docs_all_def by blast

lemma fst_edit_docs [simp]: "map fst (edit_docs kind f docs) = map fst docs"
  by (simp add: edit_docs_def case_prod_unfold comp_def)

lemma owf_edit_docs [simp]: "owf (edit_docs kind f docs) = owf docs"
  by (simp add: owf_def)

lemma oget_edit_docs: "oget (edit_docs kind f docs) k = (if k = kind then map_option (map f) (oget docs k) else oget docs k)"
  by (induction docs) (auto simp: edit_docs_def oget_def)

lemma docs_all_edit:
  "docs_all P docs \<Longrightarrow> (\<And>m. P kind m \<Longrightarrow> Q kind (f m)) \<Longrightarrow> (\<And>k m. k \<noteq> kind \<Longrightarrow> P k m \<Longrightarrow> Q k m) \<Longrightarrow> docs_all Q (edit_docs kind f docs)"
  by (auto simp: docs_all_def edit_docs_def split: if_splits)

lemma edit_docs_id: "docs_all (\<lambda>k m. k = kind \<longrightarrow> f m = m) docs \<Longrightarrow> edit_docs kind f docs = docs"
  unfolding edit_docs_def docs_all_def by (intro map_idI) (auto intro!: map_idI)

lemma add_collections_step:
  "docs_wf docs \<Longrightarrow> docs_wf (if ohas docs kind then docs else oput kind [] docs)"
  by (auto simp: docs_wf_def intro: docs_all_oput)

lemma add_collections_wf: "docs_wf docs \<Longrightarrow> docs_wf (add_collections docs)"
  unfolding add_collections_def
  by (rule fold_invariant [where Q = "\<lambda>_. True"]) (simp_all add: add_collections_step)

lemma add_collections_keeps: "ohas docs k \<Longrightarrow> ohas (add_collections docs) k"
  by (simp add: add_collections_def FacetCollections_def ohas_iff oget_put)

lemma add_collections_has:
  "ohas (add_collections docs) CollectionConfigurations" "ohas (add_collections docs) CollectionFacets"
  "ohas (add_collections docs) CollectionFacetDocuments"
  by (auto simp: add_collections_def FacetCollections_def ohas_iff oget_put)

lemma add_collections_id:
  "ohas docs CollectionConfigurations \<Longrightarrow> ohas docs CollectionFacets \<Longrightarrow> ohas docs CollectionFacetDocuments \<Longrightarrow> add_collections docs = docs"
  by (simp add: add_collections_def FacetCollections_def)

lemma merge_legacy_wf:
  assumes "docs_wf docs"
  shows "docs_wf (merge_legacy docs)"
proof (cases "oget docs ''componentSFCs''")
  case None
  with assms show ?thesis by (simp add: merge_legacy_def)
next
  case (Some legacy)
  have all: "docs_all (\<lambda>_. item_wf) docs" and "owf docs" using assms by (auto simp: docs_wf_def)
  have "m \<in> set legacy \<Longrightarrow> item_wf m" for m using docs_in_all [OF all, of m "''componentSFCs''"] Some by (simp add: docs_in_def)
  then have "docs_all (\<lambda>_. item_wf) (oput CollectionComponents (docs_in docs CollectionComponents @ legacy) docs)"
    by (intro docs_all_oput [OF all]) (use docs_in_all [OF all] in auto)
  with Some \<open>owf docs\<close> show ?thesis by (simp add: merge_legacy_def docs_wf_def docs_all_odel)
qed

lemma merge_legacy_none: "oget (merge_legacy docs) ''componentSFCs'' = None"
  by (auto simp: merge_legacy_def split: option.splits)

lemma merge_legacy_keeps: "k \<noteq> ''componentSFCs'' \<Longrightarrow> ohas docs k \<Longrightarrow> ohas (merge_legacy docs) k"
  by (auto simp: merge_legacy_def ohas_iff oget_put split: option.splits)

definition no_bindings :: "doc_map \<Rightarrow> bool" where
  "no_bindings docs \<longleftrightarrow> oget docs ''bindings'' = None"

text \<open>After the two middle stages every item is settled.\<close>

lemma sources_settled:
  assumes "docs_wf docs"
  shows "owf (canonical_sources docs) \<and> docs_all (\<lambda>k m. k \<noteq> CollectionFolders \<longrightarrow> item_settled k m) (canonical_sources docs)
    \<and> docs_all (\<lambda>_. item_wf) (canonical_sources docs)"
proof -
  have w: "docs_wf (merge_legacy (add_collections docs))" using assms by (intro merge_legacy_wf add_collections_wf)
  let ?a = "edit_docs CollectionActions (fst \<circ> canonicalAction) (merge_legacy (add_collections docs))"
  have a: "docs_all (\<lambda>k m. item_wf m \<and> (k = CollectionActions \<longrightarrow> item_settled k m)) ?a"
    by (rule docs_all_edit [of "\<lambda>_. item_wf"])
      (use w canonicalAction_settled in \<open>auto simp: docs_wf_def item_settled_def\<close>)
  have v: "docs_all (\<lambda>k m. item_wf m \<and> (k = CollectionActions \<or> k = CollectionVocabs \<longrightarrow> item_settled k m)) (canonical_sources docs)"
    unfolding canonical_sources_def
    by (rule docs_all_edit [OF a]) (use normalizeVocab_settled in \<open>auto simp: item_settled_def collection_defs\<close>)
  have "docs_all (\<lambda>k m. k \<noteq> CollectionFolders \<longrightarrow> item_settled k m) (canonical_sources docs)"
    using v by (rule docs_all_mono) (auto simp: item_settled_def)
  moreover have "docs_all (\<lambda>_. item_wf) (canonical_sources docs)" using v by (rule docs_all_mono) simp
  moreover have "owf (canonical_sources docs)" using w by (simp add: canonical_sources_def docs_wf_def)
  ultimately show ?thesis by blast
qed

lemma folders_settled:
  assumes "owf docs" "docs_all (\<lambda>k m. k \<noteq> CollectionFolders \<longrightarrow> item_settled k m) docs" "docs_all (\<lambda>_. item_wf) docs"
  shows "owf (canonical_folders docs) \<and> docs_all item_settled (canonical_folders docs)
    \<and> list_ex is_workspace_root (docs_in (canonical_folders docs) CollectionFolders)"
proof -
  let ?e = "edit_docs CollectionFolders canonicalFolder docs"
  have both: "docs_all (\<lambda>k m. item_wf m \<and> (k \<noteq> CollectionFolders \<longrightarrow> item_settled k m)) docs"
    using assms(2,3) by (auto simp: docs_all_def)
  have e: "docs_all item_settled ?e"
    by (rule docs_all_edit [OF both]) (auto intro: canonicalFolder_settled)
  show ?thesis
  proof (cases "list_ex is_workspace_root (docs_in ?e CollectionFolders)")
    case True
    with e assms(1) show ?thesis by (simp add: canonical_folders_def add_workspace_root_def)
  next
    case False
    have "docs_all item_settled (oput CollectionFolders (docs_in ?e CollectionFolders @ [workspaceRoot]) ?e)"
      by (rule docs_all_oput [OF e]) (use docs_in_all [OF e] workspaceRoot_settled in auto)
    moreover have "is_workspace_root workspaceRoot" by (simp add: is_workspace_root_def workspaceRoot_facts)
    ultimately show ?thesis
      using False assms(1) by (simp add: canonical_folders_def add_workspace_root_def docs_in_def)
  qed
qed

section \<open>Canonicalizing twice\<close>

lemma map_filter_id: "(\<And>x. x \<in> set xs \<Longrightarrow> f x = Some x) \<Longrightarrow> List.map_filter f xs = xs"
  by (induction xs) (auto simp: List.map_filter_simps)

lemma in_map_filter: "y \<in> set (List.map_filter f xs) \<longleftrightarrow> (\<exists>x \<in> set xs. f x = Some y)"
  by (induction xs) (auto simp: List.map_filter_simps split: option.splits)

lemma oget_items:
  "oget (map (\<lambda>(kind, items). (kind, f kind items)) docs) k = map_option (f k) (oget docs k)"
  by (induction docs) (auto simp: oget_def)

lemma docs_in_items: "docs_in (canonical_items docs) k
    = List.map_filter (fst \<circ> canonicalItem (folder_types (docs_in docs CollectionFolders)) k) (docs_in docs k)"
  unfolding canonical_items_def Let_def docs_in_def [of "map _ _"] oget_items
  by (cases "oget docs k") (simp_all add: docs_in_def List.map_filter_simps)

lemma fst_canonical_items: "map fst (canonical_items docs) = map fst docs"
  by (simp add: canonical_items_def Let_def case_prod_unfold comp_def)

lemma ohas_fst: "ohas docs k \<longleftrightarrow> k \<in> set (map fst docs)"
  by (auto simp: ohas_def map_of_eq_None_iff)

lemma canonical_items_settled:
  assumes "docs_all item_settled docs"
  shows "docs_all item_settled (canonical_items docs)"
  unfolding docs_all_def
proof (intro allI impI)
  fix kind items m' assume a: "(kind, items) \<in> set (canonical_items docs)" "m' \<in> set items"
  then obtain items0 where i: "(kind, items0) \<in> set docs"
      "items = List.map_filter (fst \<circ> canonicalItem (folder_types (docs_in docs CollectionFolders)) kind) items0"
    by (auto simp: canonical_items_def Let_def)
  then obtain m where "m \<in> set items0" "fst (canonicalItem (folder_types (docs_in docs CollectionFolders)) kind m) = Some m'"
    using a(2) by (auto simp: in_map_filter)
  with i(1) assms canonicalItem_settled show "item_settled kind m'" unfolding docs_all_def by blast
qed

text \<open>The folders of the result name no type the folders before did not.\<close>

lemma canonicalItem_folders: "fst (canonicalItem types CollectionFolders m)
    = (if stringValue m ''identity'' \<in> set legacyFolders then None else Some (odel ''state'' m))"
  by (simp add: canonicalItem_def collection_defs stringValue_del)

lemma kept_folders: "List.map_filter (fst \<circ> canonicalItem types CollectionFolders) fs
    = map (odel ''state'') (filter (\<lambda>m. stringValue m ''identity'' \<notin> set legacyFolders) fs)"
  by (induction fs) (simp_all add: List.map_filter_simps canonicalItem_folders)

lemma map_of_filter_key: "map_of (filter (\<lambda>(k, v). P k) xs) k = (if P k then map_of xs k else None)"
  by (induction xs) auto

lemma kept_folder_types:
  assumes "map_of (folder_types (List.map_filter (fst \<circ> canonicalItem types CollectionFolders) fs)) f = Some t"
  shows "map_of (folder_types fs) f = Some t"
proof -
  have "folder_types (List.map_filter (fst \<circ> canonicalItem types CollectionFolders) fs)
      = filter (\<lambda>(k, v). k \<notin> set legacyFolders) (folder_types fs)"
    unfolding kept_folders by (induction fs) (simp_all add: folder_types_def stringValue_del)
  with assms show ?thesis by (simp add: map_of_filter_key split: if_splits)
qed

lemma sources_keys:
  "ohas (canonical_sources docs) k \<longleftrightarrow> ohas (merge_legacy (add_collections docs)) k"
  by (simp add: canonical_sources_def ohas_iff oget_edit_docs)

lemma folders_keys:
  "ohas (canonical_folders docs) k \<longleftrightarrow> ohas docs k \<or> (k = CollectionFolders \<and> \<not> list_ex is_workspace_root
     (docs_in (edit_docs CollectionFolders canonicalFolder docs) CollectionFolders))"
  by (auto simp: canonical_folders_def add_workspace_root_def ohas_iff oget_put oget_edit_docs)

lemma canonical_keys:
  defines "R docs \<equiv> canonical_documents docs"
  shows "ohas (R docs) CollectionConfigurations" "ohas (R docs) CollectionFacets" "ohas (R docs) CollectionFacetDocuments"
    "\<not> ohas (R docs) ''componentSFCs''" "no_bindings docs \<Longrightarrow> \<not> ohas (R docs) ''bindings''"
proof -
  have k: "ohas (R docs) k \<longleftrightarrow> ohas (canonical_folders (canonical_sources docs)) k" for k
    unfolding R_def canonical_documents_def ohas_fst fst_canonical_items ..
  show "ohas (R docs) CollectionConfigurations" "ohas (R docs) CollectionFacets" "ohas (R docs) CollectionFacetDocuments"
    using add_collections_has merge_legacy_keeps by (auto simp: k folders_keys sources_keys collection_defs)
  show "\<not> ohas (R docs) ''componentSFCs''"
    unfolding k folders_keys sources_keys using merge_legacy_none by (simp add: ohas_iff collection_defs)
  show "no_bindings docs \<Longrightarrow> \<not> ohas (R docs) ''bindings''"
    unfolding k folders_keys sources_keys
    by (auto simp: no_bindings_def ohas_iff merge_legacy_def add_collections_def FacetCollections_def
        collection_defs oget_put oget_del split: option.splits)
qed

lemma canonical_documents_idem:
  assumes wf: "docs_wf docs" and nb: "no_bindings docs"
  shows "canonical_documents (canonical_documents docs) = canonical_documents docs"
proof -
  define D where "D = canonical_folders (canonical_sources docs)"
  define R where "R = canonical_documents docs"
  have RD: "R = canonical_items D" by (simp add: R_def D_def canonical_documents_def)
  have D: "owf D" "docs_all item_settled D" "list_ex is_workspace_root (docs_in D CollectionFolders)"
    using folders_settled [of "canonical_sources docs"] sources_settled [OF wf] by (auto simp: D_def)
  have S: "docs_all item_settled R" using canonical_items_settled [OF D(2)] by (simp add: RD)
  note K = canonical_keys [of docs, folded R_def]
  have src: "canonical_sources R = R"
  proof -
    have "merge_legacy (add_collections R) = R"
      using K(1-4) by (simp add: add_collections_id merge_legacy_def ohas_iff)
    moreover have "edit_docs CollectionActions (fst \<circ> canonicalAction) R = R"
      by (rule edit_docs_id) (use S canonicalAction_fix in \<open>auto simp: docs_all_def\<close>)
    moreover have "edit_docs CollectionVocabs (fst \<circ> normalizeLegacyVocabSource) R = R"
      by (rule edit_docs_id) (use S normalizeVocab_fix in \<open>auto simp: docs_all_def\<close>)
    ultimately show ?thesis by (simp add: canonical_sources_def)
  qed
  have fld: "canonical_folders R = R"
  proof -
    have "edit_docs CollectionFolders canonicalFolder R = R"
      by (rule edit_docs_id) (use S canonicalFolder_fix in \<open>auto simp: docs_all_def\<close>)
    moreover have "list_ex is_workspace_root (docs_in R CollectionFolders)"
    proof -
      from D(3) obtain r where r: "r \<in> set (docs_in D CollectionFolders)" "is_workspace_root r" by (auto simp: list_ex_iff)
      then have "stringValue r ''identity'' \<notin> set legacyFolders"
        by (simp add: is_workspace_root_def legacyFolders_def folder_const_defs)
      moreover have "is_workspace_root (odel ''state'' r)" using r(2) by (simp add: is_workspace_root_def stringValue_del)
      ultimately show ?thesis using r(1) by (auto simp: RD docs_in_items kept_folders list_ex_iff)
    qed
    ultimately show ?thesis by (simp add: canonical_folders_def add_workspace_root_def)
  qed
  let ?t = "folder_types (docs_in D CollectionFolders)"
  let ?t' = "folder_types (docs_in R CollectionFolders)"
  have sub: "map_of ?t' f = Some t \<Longrightarrow> map_of ?t f = Some t" for f t
    by (rule kept_folder_types [of ?t]) (simp add: RD docs_in_items)
  have fix_item: "fst (canonicalItem ?t' kind m') = Some m'" if "(kind, items) \<in> set R" "m' \<in> set items" for kind items m'
  proof -
    have "ohas R kind" using that(1) by (auto simp: ohas_fst image_iff intro: bexI [of _ "(kind, items)"])
    then have nb': "kind \<noteq> ''bindings''" using K(5) [OF nb] by auto
    from that RD obtain items0 m where i: "(kind, items0) \<in> set D" "m \<in> set items0" "fst (canonicalItem ?t kind m) = Some m'"
      by (auto simp: canonical_items_def Let_def in_map_filter)
    have "item_wf m" using i(1,2) D(2) by (auto simp: docs_all_def item_settled_def)
    from canonicalItem_fix [OF this i(3) nb' sub] show ?thesis .
  qed
  have "canonical_items R = R"
    unfolding canonical_items_def Let_def
    by (intro map_idI) (use fix_item in \<open>auto intro!: map_filter_id\<close>)
  with src fld show ?thesis unfolding R_def [symmetric] by (simp add: canonical_documents_def)
qed

text \<open>The workspace: the second time nothing is left to do.\<close>

lemma EnsureSFC_RemoveLegacy: "RemoveLegacySSE (EnsureSFCEditingDefaults (RemoveLegacySSE c)) = EnsureSFCEditingDefaults (RemoveLegacySSE c)"
proof -
  have d: "oget m ''sse'' = None \<Longrightarrow> odel ''sse'' (oput ''sfcEditing'' v m) = oput ''sfcEditing'' v m" for m :: jobj and v
    by (rule odel_id) simp
  show ?thesis
    by (auto simp: RemoveLegacySSE_def EnsureSFCEditingDefaults_def configurationObject_def d [of "[]", simplified] d split: json.splits option.splits)
qed

lemma canonicalWorkspace_idem:
  assumes "owf (orElse w [])"
  shows "fst (canonicalWorkspace (Some (fst (canonicalWorkspace w)))) = fst (canonicalWorkspace w)"
proof -
  define w1 where "w1 = odel ''state'' (orElse w [])"
  define w2 where "w2 = (if ohas w1 ''documentStructure'' then w1 else oput ''documentStructure'' (JStr WorkspaceDocumentStructureFrontend) w1)"
  have o2: "owf w2" "oget w2 ''state'' = None" "ohas w2 ''documentStructure''"
    using assms by (auto simp: w1_def w2_def ohas_iff)
  have c: "fst (canonicalWorkspace w) = (case oget w2 ''configuration'' of None \<Rightarrow> w2
      | Some c0 \<Rightarrow> oput ''configuration'' (EnsureSFCEditingDefaults (RemoveLegacySSE c0)) w2)"
    by (simp add: canonicalWorkspace_def Let_def w2_def w1_def split: option.splits)
  show ?thesis
  proof (cases "oget w2 ''configuration''")
    case None
    with c have w2: "fst (canonicalWorkspace w) = w2" by simp
    show ?thesis unfolding w2 using None o2 by (simp add: canonicalWorkspace_def odel_id)
  next
    case (Some c0)
    define c1 where "c1 = EnsureSFCEditingDefaults (RemoveLegacySSE c0)"
    have w3: "fst (canonicalWorkspace w) = oput ''configuration'' c1 w2" using Some c by (simp add: c1_def)
    have "EnsureSFCEditingDefaults (RemoveLegacySSE c1) = c1"
      unfolding c1_def EnsureSFC_RemoveLegacy by (rule EnsureSFCEditingDefaults_idem)
    moreover have "odel ''state'' (oput ''configuration'' c1 w2) = oput ''configuration'' c1 w2" by (rule odel_id) (simp add: o2)
    moreover have "ohas (oput ''configuration'' c1 w2) ''documentStructure''" using o2(3) by (simp add: ohas_iff)
    moreover have "oput ''configuration'' c1 (oput ''configuration'' c1 w2) = oput ''configuration'' c1 w2"
      by (rule oput_id) (simp_all add: o2)
    ultimately show ?thesis unfolding w3 by (simp add: canonicalWorkspace_def Let_def)
  qed
qed

definition portable_bundle_wf :: "portable_bundle \<Rightarrow> bool" where
  "portable_bundle_wf b \<longleftrightarrow> owf (orElse (bn_workspace b) []) \<and> docs_wf (orElse (bn_documents b) [])
     \<and> no_bindings (orElse (bn_documents b) [])"

lemma CanonicalizeInPlace_idem:
  assumes "portable_bundle_wf b"
  shows "fst (CanonicalizeInPlace (fst (CanonicalizeInPlace b))) = fst (CanonicalizeInPlace b)"
  using assms canonicalWorkspace_idem [of "bn_workspace b"] canonical_documents_idem [of "orElse (bn_documents b) []"]
  by (simp add: portable_bundle_wf_def CanonicalizeInPlace_def Let_def case_prod_unfold)

section \<open>Printing and reading back\<close>

definition nf_law :: "(string \<Rightarrow> string) \<Rightarrow> bool" where
  "nf_law nf \<longleftrightarrow> (\<forall>l. nf (nf l) = nf l) \<and> nf ''1'' = ''1'' \<and> nf ''2'' = ''2''"

definition normal :: "(string \<Rightarrow> string) \<Rightarrow> json \<Rightarrow> bool" where
  "normal nf v \<longleftrightarrow> redecode nf v = v"

definition onormal :: "(string \<Rightarrow> string) \<Rightarrow> jobj \<Rightarrow> bool" where
  "onormal nf m \<longleftrightarrow> (\<forall>kv \<in> set m. normal nf (snd kv))"

lemma redecode_simps:
  "redecode nf (JObj m) = JObj (oredecode nf m)" "redecode nf (JStr s) = JStr s" "redecode nf JNull = JNull"
  "redecode nf (JBool b) = JBool b" "redecode nf (JArr xs) = JArr (map (redecode nf) xs)" "redecode nf (JFloat l) = JFloat (nf l)"
  by (simp_all add: redecode_def oredecode_def case_prod_unfold)

lemma redecode_idem: "nf_law nf \<Longrightarrow> redecode nf (redecode nf v) = redecode nf v"
  unfolding redecode_def
  by (induction v rule: marshal.induct) (auto simp: nf_law_def)

lemma onormal_iff: "onormal nf m \<longleftrightarrow> oredecode nf m = m"
  by (induction m) (auto simp: onormal_def oredecode_def normal_def)

lemma normal_obj: "normal nf (JObj m) = onormal nf m"
  by (simp add: normal_def redecode_simps onormal_iff)

lemma onormal_redecode: "nf_law nf \<Longrightarrow> onormal nf (oredecode nf m)"
  by (auto simp: onormal_def oredecode_def normal_def redecode_idem)

lemma onormal_oput: "onormal nf m \<Longrightarrow> normal nf v \<Longrightarrow> onormal nf (oput k v m)"
  using set_oput_subset [of k v m] by (auto simp: onormal_def)

lemma onormal_odel: "onormal nf m \<Longrightarrow> onormal nf (odel k m)"
  by (auto simp: onormal_def odel_def)

lemma onormal_get: "onormal nf m \<Longrightarrow> oget m k = Some v \<Longrightarrow> normal nf v"
  unfolding onormal_def by (metis oget_in_set snd_conv)

lemma normal_consts: "normal nf (JStr s)" "normal nf JNull" "normal nf (JBool b)"
  by (simp_all add: normal_def redecode_simps)

lemma normal_numbers: "nf_law nf \<Longrightarrow> normal nf (JFloat ''1'')" "nf_law nf \<Longrightarrow> normal nf (JFloat ''2'')"
  by (simp_all add: normal_def redecode_simps nf_law_def)

lemma oget_oredecode: "oget (oredecode nf m) k = map_option (redecode nf) (oget m k)"
  by (induction m) (auto simp: oredecode_def oget_def)

lemma owf_oredecode [simp]: "owf (oredecode nf m) = owf m"
  by (simp add: owf_def oredecode_def case_prod_unfold comp_def)

lemma redecode_JObj: "redecode nf v = JObj c' \<Longrightarrow> \<exists>c. v = JObj c \<and> c' = oredecode nf c"
  by (cases v) (auto simp: redecode_def oredecode_def case_prod_unfold)

lemma item_wf_oredecode: "item_wf m \<Longrightarrow> item_wf (oredecode nf m)"
  by (auto simp: item_wf.simps oget_oredecode dest!: redecode_JObj)

lemma stringValue_oredecode: "stringValue (oredecode nf m) k = stringValue m k"
proof -
  have "as_str (map_option (redecode nf) v) = as_str v" for v
    by (cases v rule: as_str.cases) (auto simp: redecode_def)
  then show ?thesis by (simp add: stringValue_def oget_oredecode)
qed

text \<open>Canonicalizing a normal bundle gives a normal bundle.\<close>

definition docs_normal :: "(string \<Rightarrow> string) \<Rightarrow> doc_map \<Rightarrow> bool" where
  "docs_normal nf docs \<longleftrightarrow> docs_all (\<lambda>_. onormal nf) docs"

lemmas onormal_intros = onormal_oput onormal_odel normal_consts normal_numbers

lemma normal_RemoveLegacySSE: "normal nf v \<Longrightarrow> normal nf (RemoveLegacySSE v)"
  by (auto simp: RemoveLegacySSE_def normal_obj onormal_odel split: json.splits)

lemma onormal_add_defaults:
  assumes "\<forall>(k, v) \<in> set ds. normal nf v" "onormal nf m"
  shows "onormal nf (add_defaults ds m)"
  unfolding add_defaults_def
  by (rule fold_invariant [where Q = "\<lambda>(k, v). normal nf v"]) (use assms in \<open>auto intro!: onormal_oput\<close>)

lemma normal_editing: "onormal nf defaultSFCEditingConfiguration"
  by (simp add: onormal_def defaultSFCEditingConfiguration_def normal_def redecode_def)

lemma normal_EnsureSFC: "normal nf v \<Longrightarrow> normal nf (EnsureSFCEditingDefaults v)"
proof -
  assume v: "normal nf v"
  have d: "\<forall>(k, x) \<in> set defaultSFCEditingConfiguration. normal nf x"
    using normal_editing [of nf] by (auto simp: onormal_def)
  have n: "configurationObject v = Some c \<Longrightarrow> onormal nf c" for c
    using v by (auto simp: configurationObject_def normal_obj onormal_def split: json.splits)
  have e: "configurationObject v = Some c \<Longrightarrow> as_obj (oget c ''sfcEditing'') = Some e \<Longrightarrow> onormal nf e" for c e
    using n onormal_get [of nf c "''sfcEditing''"] by (auto simp: as_obj_iff normal_obj)
  show ?thesis
    using v n e onormal_add_defaults [OF d]
    by (auto simp: EnsureSFCEditingDefaults_def normal_obj normal_editing split: option.splits intro!: onormal_oput)
qed

lemma onormal_workspace: "onormal nf (orElse w []) \<Longrightarrow> onormal nf (fst (canonicalWorkspace w))"
proof -
  assume w: "onormal nf (orElse w [])"
  define w2 where "w2 = (if ohas (odel ''state'' (orElse w [])) ''documentStructure'' then odel ''state'' (orElse w [])
    else oput ''documentStructure'' (JStr WorkspaceDocumentStructureFrontend) (odel ''state'' (orElse w [])))"
  have n: "onormal nf w2" using w by (simp add: w2_def onormal_intros)
  have "fst (canonicalWorkspace w) = (case oget w2 ''configuration'' of None \<Rightarrow> w2
      | Some c0 \<Rightarrow> oput ''configuration'' (EnsureSFCEditingDefaults (RemoveLegacySSE c0)) w2)"
    by (simp add: canonicalWorkspace_def Let_def w2_def split: option.splits)
  with n show ?thesis
    by (auto split: option.splits intro!: onormal_oput normal_EnsureSFC normal_RemoveLegacySSE dest: onormal_get)
qed

lemma onormal_canonicalAction: "nf_law nf \<Longrightarrow> onormal nf m \<Longrightarrow> onormal nf (fst (canonicalAction m))"
  by (simp add: canonicalAction_def onormal_intros)

lemma onormal_normalizeVocab: "nf_law nf \<Longrightarrow> onormal nf m \<Longrightarrow> onormal nf (fst (normalizeLegacyVocabSource m))"
  by (simp add: normalizeLegacyVocabSource_def onormal_intros)

lemma onormal_default_key: "onormal nf m \<Longrightarrow> normal nf v \<Longrightarrow> onormal nf (default_key k v m)"
  by (simp add: default_key_def onormal_oput)

lemma onormal_canonicalFolder: "onormal nf m \<Longrightarrow> onormal nf (canonicalFolder m)"
  by (simp add: canonicalFolder_def Let_def onormal_intros onormal_default_key)

lemma onormal_workspaceRoot: "onormal nf workspaceRoot"
  by (simp add: workspaceRoot_def onormal_def normal_def redecode_def)

lemma onormal_clean: "onormal nf c \<Longrightarrow> onormal nf (clean_configuration c)"
proof -
  have n: "onormal nf m \<Longrightarrow> onormal nf (remove_nested_sse k m)" for k m
    using onormal_get [of nf m k]
    by (auto simp: remove_nested_sse_def as_obj_iff normal_obj split: option.splits intro!: onormal_oput onormal_odel)
  show "onormal nf c \<Longrightarrow> onormal nf (clean_configuration c)" by (simp add: clean_configuration_def n onormal_odel)
qed

lemma onormal_RemoveLegacy: "onormal nf m \<Longrightarrow> onormal nf (RemoveLegacySSEFromDocument kind m)"
  using onormal_get [of nf m "''configuration''"]
  by (auto simp: RemoveLegacy_clean as_obj_iff normal_obj split: option.splits intro!: onormal_oput onormal_clean)

lemma onormal_normalize: "onormal nf m \<Longrightarrow> onormal nf (fst (normalizeFolderReference kind types m))"
  by (simp add: normalizeFolderReference_def Let_def onormal_intros)

lemma onormal_canonicalItem:
  assumes "nf_law nf" "onormal nf m" "fst (canonicalItem types kind m) = Some m'"
  shows "onormal nf m'"
  using assms(3)
proof (cases rule: canonicalItem_Some)
  case folder
  with assms(2) show ?thesis by (simp add: onormal_odel)
next
  case (other item1 item2)
  have "onormal nf item2" using assms(1,2) by (simp add: other(2,3) onormal_intros onormal_RemoveLegacy)
  then show ?thesis by (simp add: other(4) onormal_intros onormal_normalize)
qed

lemma docs_normal_canonical:
  assumes nf: "nf_law nf" and d: "docs_normal nf docs"
  shows "docs_normal nf (canonical_documents docs)"
proof -
  have add: "docs_normal nf d \<Longrightarrow> docs_normal nf (if ohas d k then d else oput k [] d)" for d k
    by (auto simp: docs_normal_def intro: docs_all_oput)
  have 1: "docs_normal nf (add_collections docs)"
    unfolding add_collections_def by (rule fold_invariant [where Q = "\<lambda>_. True"]) (use d add in simp_all)
  have 2: "docs_normal nf (merge_legacy d)" if "docs_normal nf d" for d
  proof (cases "oget d ''componentSFCs''")
    case (Some legacy)
    have all: "docs_all (\<lambda>_. onormal nf) d" using that by (simp add: docs_normal_def)
    have "m \<in> set legacy \<Longrightarrow> onormal nf m" for m using docs_in_all [OF all, of m "''componentSFCs''"] Some by (simp add: docs_in_def)
    then have "docs_all (\<lambda>_. onormal nf) (oput CollectionComponents (docs_in d CollectionComponents @ legacy) d)"
      by (intro docs_all_oput [OF all]) (use docs_in_all [OF all] in auto)
    with Some show ?thesis by (simp add: merge_legacy_def docs_normal_def docs_all_odel)
  qed (simp add: merge_legacy_def that)
  have edit: "docs_normal nf (edit_docs k f d)" if "docs_normal nf d" "\<And>m. onormal nf m \<Longrightarrow> onormal nf (f m)" for k f d
    using that unfolding docs_normal_def by (auto intro: docs_all_edit)
  have 3: "docs_normal nf (canonical_sources docs)"
    unfolding canonical_sources_def
    by (intro edit 2 1) (simp_all add: onormal_canonicalAction onormal_normalizeVocab nf)
  have 4: "docs_normal nf (canonical_folders (canonical_sources docs))"
  proof -
    have e: "docs_normal nf (edit_docs CollectionFolders canonicalFolder (canonical_sources docs))"
      by (rule edit [OF 3]) (rule onormal_canonicalFolder)
    then show ?thesis
      using docs_in_all [OF e [unfolded docs_normal_def]] onormal_workspaceRoot
      by (auto simp: canonical_folders_def add_workspace_root_def docs_normal_def intro!: docs_all_oput)
  qed
  show ?thesis
    unfolding canonical_documents_def docs_normal_def docs_all_def
  proof (intro allI impI)
    fix kind items m' assume "(kind, items) \<in> set (canonical_items (canonical_folders (canonical_sources docs)))" "m' \<in> set items"
    then obtain items0 m types where "(kind, items0) \<in> set (canonical_folders (canonical_sources docs))" "m \<in> set items0"
        "fst (canonicalItem types kind m) = Some m'"
      by (auto simp: canonical_items_def Let_def in_map_filter)
    with 4 onormal_canonicalItem [OF nf] show "onormal nf m'" unfolding docs_normal_def docs_all_def by blast
  qed
qed

lemma docs_all_map: "docs_all P docs \<Longrightarrow> (\<And>k m. P k m \<Longrightarrow> Q k (f m)) \<Longrightarrow> docs_all Q (map (\<lambda>(kind, items). (kind, map f items)) docs)"
  by (auto simp: docs_all_def)

lemma owf_docs_map: "owf (map (\<lambda>(kind, items). (kind, f items)) docs) = owf docs"
  by (simp add: owf_def case_prod_unfold comp_def)

lemma redecode_wf: "portable_bundle_wf b \<Longrightarrow> portable_bundle_wf (bundle_redecode nf b)"
proof -
  assume b: "portable_bundle_wf b"
  have "owf (orElse (bn_workspace (bundle_redecode nf b)) [])"
    using b by (cases "bn_workspace b") (simp_all add: portable_bundle_wf_def bundle_redecode_def)
  moreover have "docs_wf (orElse (bn_documents (bundle_redecode nf b)) []) \<and> no_bindings (orElse (bn_documents (bundle_redecode nf b)) [])"
    using b docs_all_map [of "\<lambda>_. item_wf" "orElse (bn_documents b) []" "\<lambda>_. item_wf" "oredecode nf"] item_wf_oredecode
    by (cases "bn_documents b")
      (auto simp: portable_bundle_wf_def bundle_redecode_def docs_wf_def no_bindings_def owf_docs_map
        oget_items [where f = "\<lambda>_. map (oredecode nf)"])
  ultimately show ?thesis by (simp add: portable_bundle_wf_def)
qed

lemma redecode_normal_bundle:
  assumes "\<forall>w. bn_workspace b = Some w \<longrightarrow> onormal nf w" "\<forall>d. bn_documents b = Some d \<longrightarrow> docs_normal nf d"
    "\<forall>m \<in> set (bn_installedIntegrations b). onormal nf m"
  shows "bundle_redecode nf b = b"
proof -
  have "map_option (oredecode nf) (bn_workspace b) = bn_workspace b" using assms(1) by (cases "bn_workspace b") (auto simp: onormal_iff)
  moreover have "map_option (map (\<lambda>(kind, items). (kind, map (oredecode nf) items))) (bn_documents b) = bn_documents b"
    using assms(2) by (cases "bn_documents b") (auto simp: docs_normal_def docs_all_def onormal_iff intro!: map_idI)
  moreover have "map (oredecode nf) (bn_installedIntegrations b) = bn_installedIntegrations b"
    using assms(3) by (auto simp: onormal_iff intro!: map_idI)
  ultimately show ?thesis by (simp add: bundle_redecode_def)
qed

lemma Canonicalize_normal:
  assumes "nf_law nf"
  shows "bundle_redecode nf (fst (Canonicalize nf b)) = fst (Canonicalize nf b)"
proof (rule redecode_normal_bundle)
  let ?b = "bundle_redecode nf b"
  have w: "onormal nf (orElse (bn_workspace ?b) [])"
    using onormal_redecode [OF assms] by (cases "bn_workspace b") (simp_all add: bundle_redecode_def onormal_def)
  have d: "docs_normal nf (orElse (bn_documents ?b) [])"
    using onormal_redecode [OF assms] by (cases "bn_documents b") (auto simp: bundle_redecode_def docs_normal_def docs_all_def)
  show "\<forall>w. bn_workspace (fst (Canonicalize nf b)) = Some w \<longrightarrow> onormal nf w"
    using onormal_workspace [OF w] by (simp add: Canonicalize_def CanonicalizeInPlace_def Let_def case_prod_unfold)
  show "\<forall>d. bn_documents (fst (Canonicalize nf b)) = Some d \<longrightarrow> docs_normal nf d"
    using docs_normal_canonical [OF assms d] by (simp add: Canonicalize_def CanonicalizeInPlace_def Let_def case_prod_unfold)
  show "\<forall>m \<in> set (bn_installedIntegrations (fst (Canonicalize nf b))). onormal nf m"
    using onormal_redecode [OF assms]
    by (auto simp: Canonicalize_def CanonicalizeInPlace_def Let_def case_prod_unfold bundle_redecode_def)
qed

lemma Canonicalize_idem:
  assumes "nf_law nf" "portable_bundle_wf b"
  shows "fst (Canonicalize nf (fst (Canonicalize nf b))) = fst (Canonicalize nf b)"
  using CanonicalizeInPlace_idem [OF redecode_wf [OF assms(2)], of nf] Canonicalize_normal [OF assms(1), of b]
  by (simp add: Canonicalize_def)

end
