(* ===== verification/DomainOrder.thy ===== *)
theory DomainOrder
  imports DomainLaws "HOL-Library.Multiset"
begin

text \<open>
  The version does not depend on the order in which a bundle lists the documents of a collection.
\<close>

definition docs_perm :: "doc_map \<Rightarrow> doc_map \<Rightarrow> bool" where
  "docs_perm d d' \<longleftrightarrow> list_all2 (\<lambda>x y. fst x = fst y \<and> mset (snd x) = mset (snd y)) d d'"

lemma docs_perm_Cons: "docs_perm ((k, xs) # d) d' \<longleftrightarrow> (\<exists>ys r. d' = (k, ys) # r \<and> mset xs = mset ys \<and> docs_perm d r)"
  by (auto simp: docs_perm_def list_all2_Cons1)

lemma docs_perm_Nil: "docs_perm [] d' \<longleftrightarrow> d' = []"
  by (simp add: docs_perm_def)

lemma docs_perm_refl: "docs_perm d d"
  by (simp add: docs_perm_def list_all2_refl)

lemma docs_perm_oget: "docs_perm d d' \<Longrightarrow> rel_option (\<lambda>xs ys. mset xs = mset ys) (oget d k) (oget d' k)"
proof (induction d arbitrary: d')
  case Nil
  then show ?case by (simp add: docs_perm_Nil)
next
  case (Cons x d)
  obtain a xs where x: "x = (a, xs)" by (cases x)
  from Cons.prems x obtain ys r where "d' = (a, ys) # r" "mset xs = mset ys" "docs_perm d r" by (auto simp: docs_perm_Cons)
  with Cons.IH x show ?case by (auto simp: oget_def)
qed

lemma docs_perm_in: "docs_perm d d' \<Longrightarrow> mset (docs_in d k) = mset (docs_in d' k)"
  using docs_perm_oget [of d d' k] by (auto simp: docs_in_def elim!: option.rel_cases)

lemma docs_perm_has: "docs_perm d d' \<Longrightarrow> ohas d k = ohas d' k"
  using docs_perm_oget [of d d' k] by (auto simp: ohas_iff elim: option.rel_cases)

lemma docs_perm_oput: "docs_perm d d' \<Longrightarrow> mset xs = mset ys \<Longrightarrow> docs_perm (oput k xs d) (oput k ys d')"
proof (induction d arbitrary: d')
  case Nil
  then show ?case by (simp add: docs_perm_Nil docs_perm_Cons)
next
  case (Cons x d)
  obtain a zs where x: "x = (a, zs)" by (cases x)
  from Cons.prems x obtain ws r where "d' = (a, ws) # r" "mset zs = mset ws" "docs_perm d r" by (auto simp: docs_perm_Cons)
  with Cons x show ?case by (simp add: docs_perm_Cons)
qed

lemma docs_perm_odel: "docs_perm d d' \<Longrightarrow> docs_perm (odel k d) (odel k d')"
proof (induction d arbitrary: d')
  case Nil
  then show ?case by (simp add: docs_perm_Nil odel_def)
next
  case (Cons x d)
  obtain a zs where x: "x = (a, zs)" by (cases x)
  from Cons.prems x obtain ws r where "d' = (a, ws) # r" "mset zs = mset ws" "docs_perm d r" by (auto simp: docs_perm_Cons)
  with Cons x show ?case by (auto simp: docs_perm_Cons odel_def)
qed

lemma docs_perm_items:
  "docs_perm d d' \<Longrightarrow> (\<And>k xs ys. mset xs = mset ys \<Longrightarrow> mset (f k xs) = mset (f k ys))
    \<Longrightarrow> docs_perm (map (\<lambda>(k, xs). (k, f k xs)) d) (map (\<lambda>(k, xs). (k, f k xs)) d')"
  unfolding docs_perm_def list_all2_map1 list_all2_map2 case_prod_unfold fst_conv snd_conv
  by (erule list_all2_mono) metis

lemma docs_perm_edit: "docs_perm d d' \<Longrightarrow> docs_perm (edit_docs kind f d) (edit_docs kind f d')"
  unfolding edit_docs_def by (rule docs_perm_items) auto

lemma docs_perm_default: "docs_perm d d' \<Longrightarrow> docs_perm (if ohas d k then d else oput k [] d) (if ohas d' k then d' else oput k [] d')"
  using docs_perm_has [of d d' k] by (simp add: docs_perm_oput)

lemma docs_perm_add: "docs_perm d d' \<Longrightarrow> docs_perm (add_collections d) (add_collections d')"
  unfolding add_collections_def by (simp add: FacetCollections_def docs_perm_default)

lemma docs_perm_merge: "docs_perm d d' \<Longrightarrow> docs_perm (merge_legacy d) (merge_legacy d')"
proof -
  assume p: "docs_perm d d'"
  show ?thesis
  proof (cases "oget d ''componentSFCs''")
    case None
    then have "oget d' ''componentSFCs'' = None" using docs_perm_oget [OF p, of "''componentSFCs''"] by simp
    with None p show ?thesis by (simp add: merge_legacy_def)
  next
    case (Some xs)
    then obtain ys where y: "oget d' ''componentSFCs'' = Some ys" "mset xs = mset ys"
      using docs_perm_oget [OF p, of "''componentSFCs''"] by (auto simp: option_rel_Some1)
    with Some p docs_perm_in [OF p, of CollectionComponents] show ?thesis
      by (simp add: merge_legacy_def docs_perm_odel docs_perm_oput)
  qed
qed

lemma docs_perm_sources: "docs_perm d d' \<Longrightarrow> docs_perm (canonical_sources d) (canonical_sources d')"
  by (simp add: canonical_sources_def docs_perm_edit docs_perm_merge docs_perm_add)

lemma docs_perm_folders: "docs_perm d d' \<Longrightarrow> docs_perm (canonical_folders d) (canonical_folders d')"
proof -
  assume "docs_perm d d'"
  then have e: "docs_perm (edit_docs CollectionFolders canonicalFolder d) (edit_docs CollectionFolders canonicalFolder d')"
    by (rule docs_perm_edit)
  note m = docs_perm_in [OF e, of CollectionFolders]
  have "list_ex is_workspace_root (docs_in (edit_docs CollectionFolders canonicalFolder d) CollectionFolders)
      = list_ex is_workspace_root (docs_in (edit_docs CollectionFolders canonicalFolder d') CollectionFolders)"
    using mset_eq_setD [OF m] by (simp add: list_ex_iff)
  with e m show ?thesis by (simp add: canonical_folders_def add_workspace_root_def docs_perm_oput)
qed

section \<open>Folder types\<close>

definition folder_ids :: "jobj list \<Rightarrow> string list" where
  "folder_ids fs = map (\<lambda>f. stringValue f ''identity'') fs"

lemma folder_types_perm:
  assumes "mset fs = mset fs'" "distinct (folder_ids fs)"
  shows "map_of (folder_types fs) = map_of (folder_types fs')"
proof -
  have k: "map fst (folder_types xs) = rev (folder_ids xs)" for xs
    by (simp add: folder_types_def folder_ids_def rev_map comp_def)
  have "mset (folder_ids fs) = mset (folder_ids fs')" using assms(1) by (simp add: folder_ids_def)
  with assms(2) have "distinct (folder_ids fs')" by (metis mset_eq_imp_distinct_iff)
  moreover have "set (folder_types fs) = set (folder_types fs')"
    using mset_eq_setD [OF assms(1)] by (simp add: folder_types_def)
  ultimately show ?thesis using assms(2) map_of_inject_set [of "folder_types fs" "folder_types fs'"] by (simp add: k)
qed

lemma canonicalItem_cong:
  assumes "map_of t = map_of t'"
  shows "canonicalItem t = canonicalItem t'"
proof -
  have "normalizeFolderReference kind t = normalizeFolderReference kind t'" for kind
    by (intro ext) (simp only: normalizeFolderReference_def assms)
  then show ?thesis by (intro ext) (simp only: canonicalItem_def)
qed

lemma sources_folders: "docs_in (canonical_sources docs) CollectionFolders = docs_in docs CollectionFolders"
proof -
  have "oget (add_collections docs) CollectionFolders = oget docs CollectionFolders"
    by (simp add: add_collections_def FacetCollections_def collection_defs)
  moreover have "oget (merge_legacy d) CollectionFolders = oget d CollectionFolders" for d
    by (simp add: merge_legacy_def collection_defs split: option.splits)
  ultimately show ?thesis by (simp add: canonical_sources_def docs_in_def oget_edit_docs collection_defs)
qed

lemma canonical_folder_ids:
  assumes "distinct (folder_ids (docs_in docs CollectionFolders))"
  shows "distinct (folder_ids (docs_in (canonical_folders (canonical_sources docs)) CollectionFolders))"
proof -
  let ?s = "canonical_sources docs"
  let ?e = "edit_docs CollectionFolders canonicalFolder ?s"
  have "docs_in ?e CollectionFolders = map canonicalFolder (docs_in ?s CollectionFolders)"
    by (cases "oget ?s CollectionFolders") (simp_all add: docs_in_def oget_edit_docs)
  then have e: "folder_ids (docs_in ?e CollectionFolders) = folder_ids (docs_in docs CollectionFolders)"
    by (simp add: folder_ids_def canonicalFolder_identity sources_folders)
  show ?thesis
  proof (cases "list_ex is_workspace_root (docs_in ?e CollectionFolders)")
    case True
    with assms e show ?thesis by (simp add: canonical_folders_def add_workspace_root_def)
  next
    case False
    then have "stringValue workspaceRoot ''identity'' \<notin> set (folder_ids (docs_in ?e CollectionFolders))"
      by (auto simp: folder_ids_def is_workspace_root_def list_ex_iff workspaceRoot_facts)
    with assms e False show ?thesis
      by (simp add: canonical_folders_def add_workspace_root_def docs_in_def [of "oput _ _ _"]) (simp add: folder_ids_def)
  qed
qed

lemma mset_map_filter: "mset xs = mset ys \<Longrightarrow> mset (List.map_filter f xs) = mset (List.map_filter f ys)"
  by (simp add: List.map_filter_def)

lemma docs_perm_canonical:
  assumes p: "docs_perm d d'" and dist: "distinct (folder_ids (docs_in d CollectionFolders))"
  shows "docs_perm (canonical_documents d) (canonical_documents d')"
proof -
  let ?f = "canonical_folders (canonical_sources d)"
  let ?f' = "canonical_folders (canonical_sources d')"
  have pf: "docs_perm ?f ?f'" using p by (intro docs_perm_folders docs_perm_sources)
  have "map_of (folder_types (docs_in ?f CollectionFolders)) = map_of (folder_types (docs_in ?f' CollectionFolders))"
    by (rule folder_types_perm [OF docs_perm_in [OF pf] canonical_folder_ids [OF dist]])
  from canonicalItem_cong [OF this] show ?thesis
    unfolding canonical_documents_def canonical_items_def Let_def
    by (simp only:) (rule docs_perm_items [OF pf], rule mset_map_filter)
qed

section \<open>The hashed text\<close>

lemma sort_key_perm:
  assumes "mset xs = mset ys"
  shows "map f (sort_key f xs) = map f (sort_key f ys)"
proof -
  have "mset (map f (sort_key f xs)) = mset (map f (sort_key f ys))" using assms by simp
  then show ?thesis using properties_for_sort [of "map f (sort_key f ys)" "map f (sort_key f xs)"]
    by (metis properties_for_sort sorted_sort_key)
qed

lemma hashed_items_perm:
  assumes "mset xs = mset ys"
  shows "map json_text (map JObj (hashed_items nf kind xs)) = map json_text (map JObj (hashed_items nf kind ys))"
proof -
  let ?k = "document_order kind"
  let ?x = "map (odel ''state'' \<circ> oredecode nf) xs"
  let ?y = "map (odel ''state'' \<circ> oredecode nf) ys"
  have "mset ?x = mset ?y" using assms by simp
  from sort_key_perm [OF this, of ?k]
  have "map (snd \<circ> snd) (map ?k (sort_key ?k ?x)) = map (snd \<circ> snd) (map ?k (sort_key ?k ?y))" by simp
  then show ?thesis by (simp add: hashed_items_def document_order_def comp_def)
qed

lemma hashed_documents_perm:
  "docs_perm d d' \<Longrightarrow> json_text (JObj (map (\<lambda>(kind, items). (kind, JArr (map JObj (hashed_items nf kind items)))) d))
    = json_text (JObj (map (\<lambda>(kind, items). (kind, JArr (map JObj (hashed_items nf kind items)))) d'))"
proof -
  have "docs_perm d d' \<Longrightarrow> map (\<lambda>kv. json_string (fst kv) @ '':'' @ json_text (snd kv))
        (map (\<lambda>(kind, items). (kind, JArr (map JObj (hashed_items nf kind items)))) d)
      = map (\<lambda>kv. json_string (fst kv) @ '':'' @ json_text (snd kv))
        (map (\<lambda>(kind, items). (kind, JArr (map JObj (hashed_items nf kind items)))) d')"
  proof (induction d arbitrary: d')
    case Nil
    then show ?case by (simp add: docs_perm_Nil)
  next
    case (Cons x d)
    obtain a xs where x: "x = (a, xs)" by (cases x)
    from Cons.prems x obtain ys r where "d' = (a, ys) # r" "mset xs = mset ys" "docs_perm d r" by (auto simp: docs_perm_Cons)
    with Cons.IH x hashed_items_perm [of xs ys nf a] show ?case by (simp del: map_map)
  qed
  then show "docs_perm d d' \<Longrightarrow> ?thesis" by (simp only: json_text.simps)
qed

section \<open>Bundles that import cannot tell apart\<close>

definition same_portable :: "jobj \<Rightarrow> jobj \<Rightarrow> bool" where
  "same_portable w w' \<longleftrightarrow> (\<forall>key \<in> set portable_keys. oget w key = oget w' key)"

definition bundles_agree :: "portable_bundle \<Rightarrow> portable_bundle \<Rightarrow> bool" where
  "bundles_agree b b' \<longleftrightarrow> bn_kind b = bn_kind b' \<and> bn_schemaVersion b = bn_schemaVersion b'
     \<and> same_portable (orElse (bn_workspace b) []) (orElse (bn_workspace b') [])
     \<and> docs_perm (orElse (bn_documents b) []) (orElse (bn_documents b') [])"

lemma portableWorkspace_cong:
  assumes "same_portable w w'"
  shows "portableWorkspace w = portableWorkspace w'"
  unfolding portableWorkspace_def by (rule fold_cong) (use assms in \<open>simp_all add: same_portable_def\<close>)

lemma same_portable_oput: "same_portable w w' \<Longrightarrow> same_portable (oput k v w) (oput k v w')"
  by (auto simp: same_portable_def oget_put)

lemma same_portable_canonical:
  assumes "same_portable (orElse w []) (orElse w' [])"
  shows "same_portable (fst (canonicalWorkspace w)) (fst (canonicalWorkspace w'))"
proof -
  let ?d = "\<lambda>w. if ohas w ''documentStructure'' then w else oput ''documentStructure'' (JStr WorkspaceDocumentStructureFrontend) w"
  let ?w = "?d (odel ''state'' (orElse w []))"
  let ?w' = "?d (odel ''state'' (orElse w' []))"
  have k: "''documentStructure'' \<in> set portable_keys" "''configuration'' \<in> set portable_keys" "''state'' \<notin> set portable_keys"
    by (simp_all add: portable_keys_def)
  have s: "same_portable (odel ''state'' (orElse w [])) (odel ''state'' (orElse w' []))"
    using assms by (auto simp: same_portable_def oget_del)
  then have "ohas (odel ''state'' (orElse w [])) ''documentStructure'' = ohas (odel ''state'' (orElse w' [])) ''documentStructure''"
    using k(1) unfolding ohas_iff same_portable_def by (metis (no_types))
  with s have s2: "same_portable ?w ?w'" by (simp add: same_portable_oput)
  then have c: "oget ?w ''configuration'' = oget ?w' ''configuration''" using k(2) unfolding same_portable_def by blast
  have r: "fst (canonicalWorkspace u) = (case oget (?d (odel ''state'' (orElse u []))) ''configuration'' of None \<Rightarrow> ?d (odel ''state'' (orElse u []))
      | Some c0 \<Rightarrow> oput ''configuration'' (EnsureSFCEditingDefaults (RemoveLegacySSE c0)) (?d (odel ''state'' (orElse u []))))" for u
    by (simp add: canonicalWorkspace_def Let_def split: option.splits)
  show ?thesis
    unfolding r [of w] r [of w'] c using s2 same_portable_oput by (cases "oget ?w' ''configuration''") (simp_all only: option.case)
qed

lemma hashed_text_agree:
  assumes "bundles_agree b b'"
  shows "hashed_text nf b = hashed_text nf b'"
proof -
  have "portableWorkspace (orElse (bn_workspace b) []) = portableWorkspace (orElse (bn_workspace b') [])"
    by (rule portableWorkspace_cong) (use assms in \<open>simp add: bundles_agree_def\<close>)
  moreover have "docs_perm (orElse (bn_documents b) []) (orElse (bn_documents b') [])"
    and k: "bn_kind b = bn_kind b'" "bn_schemaVersion b = bn_schemaVersion b'"
    using assms by (simp_all add: bundles_agree_def)
  ultimately show ?thesis unfolding hashed_text_def k by (simp only: hashed_documents_perm)
qed

lemma canonical_agree:
  assumes "bundles_agree b b'" "distinct (folder_ids (docs_in (orElse (bn_documents b) []) CollectionFolders))"
  shows "bundles_agree (fst (CanonicalizeInPlace b)) (fst (CanonicalizeInPlace b'))"
  using assms docs_perm_canonical same_portable_canonical
  by (simp add: bundles_agree_def CanonicalizeInPlace_def Let_def case_prod_unfold)

lemma orElse_map: "orElse (map_option f x) [] = (case x of None \<Rightarrow> [] | Some y \<Rightarrow> f y)"
  by (cases x) simp_all

lemma redecode_agree:
  assumes "bundles_agree b b'"
  shows "bundles_agree (bundle_redecode nf b) (bundle_redecode nf b')"
proof -
  let ?r = "map (\<lambda>(kind, items). (kind, map (oredecode nf) items))"
  have w: "oget (orElse (bn_workspace (bundle_redecode nf x)) []) k = map_option (redecode nf) (oget (orElse (bn_workspace x) []) k)" for x k
    by (cases "bn_workspace x") (simp_all add: bundle_redecode_def oget_oredecode)
  have d: "orElse (bn_documents (bundle_redecode nf x)) [] = ?r (orElse (bn_documents x) [])" for x
    by (cases "bn_documents x") (simp_all add: bundle_redecode_def)
  have "docs_perm (?r (orElse (bn_documents b) [])) (?r (orElse (bn_documents b') []))"
    by (rule docs_perm_items) (use assms in \<open>simp_all add: bundles_agree_def\<close>)
  moreover have "bn_kind (bundle_redecode nf x) = bn_kind x" "bn_schemaVersion (bundle_redecode nf x) = bn_schemaVersion x" for x
    by (simp_all add: bundle_redecode_def)
  ultimately show ?thesis using assms by (simp add: bundles_agree_def same_portable_def w d)
qed

lemma redecode_folder_ids:
  "folder_ids (docs_in (orElse (bn_documents (bundle_redecode nf b)) []) k) = folder_ids (docs_in (orElse (bn_documents b) []) k)"
proof (cases "bn_documents b")
  case (Some d)
  then have "docs_in (orElse (bn_documents (bundle_redecode nf b)) []) k = map (oredecode nf) (docs_in d k)"
    by (cases "oget d k") (simp_all add: bundle_redecode_def docs_in_def oget_items [where f = "\<lambda>_. map (oredecode nf)"])
  with Some show ?thesis by (simp add: folder_ids_def stringValue_oredecode)
qed (simp add: bundle_redecode_def)

lemma Compute_agree:
  assumes "bundles_agree b b'" "distinct (folder_ids (docs_in (orElse (bn_documents b) []) CollectionFolders))"
  shows "Compute sha nf b = Compute sha nf b'"
proof -
  have "bundles_agree (fst (Canonicalize nf b)) (fst (Canonicalize nf b'))"
    unfolding Canonicalize_def
    by (rule canonical_agree [OF redecode_agree [OF assms(1)]]) (use assms(2) in \<open>simp add: redecode_folder_ids\<close>)
  then show ?thesis by (simp only: Compute_def compute_version_def hashed_text_agree)
qed

section \<open>Declared versions\<close>

definition sha_law :: "(string \<Rightarrow> string) \<Rightarrow> bool" where
  "sha_law sha \<longleftrightarrow> (\<forall>t. length (sha t) = 64 \<and> list_all is_hex_digit (sha t))"

lemma has_prefix_same [simp]: "has_prefix p (p @ s)" "trim_prefix p (p @ s) = s"
  by (simp_all add: has_prefix_def trim_prefix_def)

lemma prefixes_differ: "\<not> has_prefix legacyPrefix (currentPrefix @ s)"
  by (simp add: has_prefix_def legacyPrefix_def currentPrefix_def)

lemma computed_is_valid: "sha_law sha \<Longrightarrow> validateDeclaredVersion (currentPrefix @ sha t) = Inr ()"
  by (simp add: validateDeclaredVersion_def prefixes_differ sha_law_def Let_def)

lemma Compute_version_irrelevant: "Compute sha nf (b\<lparr>bn_domainVersion := v\<rparr>) = Compute sha nf b"
  by (simp add: Compute_def Canonicalize_def CanonicalizeInPlace_def bundle_redecode_def Let_def case_prod_unfold
      compute_version_def hashed_text_def)

lemma Attach_verifies:
  assumes "sha_law sha"
  shows "IsCurrent (bn_domainVersion (dv_Attach sha nf b))
    \<and> ComputeForDeclaredVersion sha nf (dv_Attach sha nf b) (bn_domainVersion (dv_Attach sha nf b))
      = Inr (bn_domainVersion (dv_Attach sha nf b))"
proof -
  obtain t where v: "Compute sha nf (fst (CanonicalizeInPlace b)) = currentPrefix @ sha t"
    by (simp add: Compute_def compute_version_def)
  have d: "bn_domainVersion (dv_Attach sha nf b) = currentPrefix @ sha t" by (simp add: dv_Attach_def Let_def v)
  have c: "Compute sha nf (dv_Attach sha nf b) = currentPrefix @ sha t"
    by (simp add: dv_Attach_def Let_def Compute_version_irrelevant v)
  show ?thesis
    unfolding d IsCurrent_def ComputeForDeclaredVersion_def computed_is_valid [OF assms] c
    by (simp add: prefixes_differ)
qed

end
