(* ===== verification/DomainSample.thy ===== *)
theory DomainSample
  imports DomainOrder
begin

text \<open>A bundle with a folder and two types, in both orders.\<close>

definition sample_type_doc :: "string \<Rightarrow> jobj" where
  "sample_type_doc name = [(''folderIdentity'', JStr ''f1''), (''identity'', JStr name), (''state'', JStr ''draft'')]"

definition sample_type_folder :: jobj where
  "sample_type_folder = [(''entityType'', JStr ''queries''), (''identity'', JStr ''f1'')]"

definition sample_portable :: "string list \<Rightarrow> portable_bundle" where
  "sample_portable names = \<lparr>bn_kind = [], bn_schemaVersion = 2, bn_domainVersion = [],
     bn_workspace = Some [(''displayName'', JStr ''Acme''), (''state'', JNull)],
     bn_documents = Some [(''folders'', [sample_type_folder]), (''types'', map sample_type_doc names)],
     bn_installedIntegrations = []\<rparr>"

definition sample_sha :: "string \<Rightarrow> string" where
  "sample_sha s = replicate 63 (CHR ''0'') @ [hex_lower (length s mod 16)]"

lemma sample_portable_wf: "portable_bundle_wf (sample_portable names)"
  by (auto simp: portable_bundle_wf_def sample_portable_def docs_wf_def docs_all_def item_wf.simps sample_type_doc_def
      sample_type_folder_def no_bindings_def owf_def oget_def)

lemma sample_nf_law: "nf_law id"
  by (simp add: nf_law_def)

lemma sample_sha_law: "sha_law sample_sha"
proof -
  have all: "list_all (\<lambda>n. is_hex_digit (hex_lower n)) [0..<16]" by code_simp
  have h: "n < 16 \<Longrightarrow> is_hex_digit (hex_lower n)" for n :: nat
    using all by (simp add: list_all_iff)
  have "is_hex_digit (CHR ''0'')" by code_simp
  then show ?thesis using h by (simp add: sha_law_def sample_sha_def list_all_iff)
qed

lemma sample_portable_agree: "bundles_agree (sample_portable [''b'', ''a'']) (sample_portable [''a'', ''b''])"
  by (simp add: bundles_agree_def sample_portable_def same_portable_def docs_perm_def)

lemma sample_portable_folders:
  "distinct (folder_ids (docs_in (orElse (bn_documents (sample_portable names)) []) CollectionFolders))"
  by (simp add: sample_portable_def docs_in_def oget_def folder_ids_def collection_defs)

text \<open>The reference to a folder of another type is replaced, the mark \<open>state\<close> is gone.\<close>

lemma sample_portable_canonical:
  "docs_in (orElse (bn_documents (fst (Canonicalize id (sample_portable [''a''])))) []) ''types''
     = [[(''folderIdentity'', JStr ''root-types''), (''identity'', JStr ''a''), (''workspaceFolderIdentity'', JStr ''root-workspace-files'')]]"
  by code_simp

text \<open>The exception: in a collection called \<open>bindings\<close> the replaced reference is itself a legacy one, so a second pass
  changes the item again.\<close>

lemma bindings_change_twice:
  "fst (canonicalItem [] ''bindings'' [(''folderIdentity'', JStr ''root-x'')])
     = Some [(''folderIdentity'', JStr ''root-bindings''), (''workspaceFolderIdentity'', JStr ''root-workspace-files'')]
   \<and> fst (canonicalItem [] ''bindings'' [(''folderIdentity'', JStr ''root-bindings''), (''workspaceFolderIdentity'', JStr ''root-workspace-files'')])
     = Some [(''workspaceFolderIdentity'', JStr ''root-workspace-files'')]"
  by code_simp

end
