(* ===== verification/Commits.thy ===== *)
theory Commits
  imports History "HOL-Library.Product_Lexorder"
begin

text \<open>
  Commits: \<open>internal/usecase/commits\<close> over \<open>internal/repo/postgres/commits_repository.go\<close>. The state adds to the
  database the commits with their changes and integrations, and two columns of \<open>document_revisions\<close> that only commits
  write: \<open>committed_in_commit_id\<close> and \<open>contributor_user_ids\<close>, keyed by the revision. The domain version of the exported
  workspace (\<open>ExportWorkspace\<close>, \<open>ComputeRaw\<close>) and the names of access tokens are parameters. \<open>Create\<close> reads before its
  transaction begins, so it is two steps: \<open>commit_check\<close> and \<open>commit_write\<close>.
\<close>

section \<open>State\<close>

record commit =
  cm_id :: id
  cm_ws :: id
  cm_parent :: "id option"
  cm_base :: int
  cm_head :: int
  cm_message :: string
  cm_policy :: string
  cm_operation :: string
  cm_domainVersion :: string
  cm_createdBy :: id
  cm_createdAt :: time

record commit_change =
  cc_type :: string
  cc_docID :: id
  cc_identity :: string
  cc_before :: "id option"
  cc_after :: "id option"
  cc_operation :: string

record install_row =
  ir_ws :: id
  ir_identity :: string
  ir_version :: string
  ir_configuration :: json

record commit_db =
  cd_db :: db
  cd_commits :: "commit list"
  cd_changes :: "(id \<times> commit_change) list"
  cd_installed :: "install_row list"
  cd_integrations :: "(id \<times> install_row) list"
  cd_committed :: "(id \<times> id) list"
  cd_contributors :: "(id \<times> id list) list"

definition RevisionPolicyPreserve :: string where "RevisionPolicyPreserve = ''preserve''"
definition RevisionPolicySquash :: string where "RevisionPolicySquash = ''squash''"

definition committed_in :: "commit_db \<Rightarrow> revision \<Rightarrow> id option" where
  "committed_in s r = map_of (cd_committed s) (rv_id r)"

text \<open>The contributors as \<open>scanRevision\<close> reads them: the users of the column that exist, by name.\<close>

definition contributor_ids :: "commit_db \<Rightarrow> revision \<Rightarrow> id list" where
  "contributor_ids s r = map u_id (sort_key (\<lambda>u. (u_username u, u_id u))
     (filter (\<lambda>u. u_id u \<in> set (orElse (map_of (cd_contributors s) (rv_id r)) [])) (db_users (cd_db s))))"

section \<open>Reading commits\<close>

definition commits_of :: "commit_db \<Rightarrow> id \<Rightarrow> commit list" where
  "commits_of s ws = filter (\<lambda>c. cm_ws c = ws) (cd_commits s)"

definition LatestCommit :: "id \<Rightarrow> commit_db \<Rightarrow> commit res" where
  "LatestCommit ws s = (case sort_key (\<lambda>c. - cm_head c) (commits_of s ws) of
      [] \<Rightarrow> Inl RowNotFound | c # cs \<Rightarrow> Inr c)"

definition ListCommits :: "id \<Rightarrow> commit_db \<Rightarrow> commit list res" where
  "ListCommits ws s = Inr (sort_key (\<lambda>c. - cm_createdAt c) (commits_of s ws))"

definition revision_identity :: "commit_db \<Rightarrow> id option \<Rightarrow> string option" where
  "revision_identity s i = (case i of None \<Rightarrow> None
     | Some k \<Rightarrow> map_option rv_docIdentity (find (\<lambda>r. rv_id r = k) (db_revisions (cd_db s))))"

definition joined_change :: "commit_db \<Rightarrow> commit_change \<Rightarrow> commit_change" where
  "joined_change s c = c\<lparr>cc_identity := (case revision_identity s (cc_after c) of Some t \<Rightarrow> t
     | None \<Rightarrow> orElse (revision_identity s (cc_before c)) [])\<rparr>"

definition changes_of :: "commit_db \<Rightarrow> id \<Rightarrow> commit_change list" where
  "changes_of s k = sort_key (\<lambda>c. (cc_type c, cc_identity c, cc_docID c))
     (map (joined_change s \<circ> snd) (filter (\<lambda>p. fst p = k) (cd_changes s)))"

definition GetCommit :: "id \<Rightarrow> id \<Rightarrow> commit_db \<Rightarrow> (commit \<times> commit_change list) res" where
  "GetCommit ws k s = (case find (\<lambda>c. cm_id c = k) (commits_of s ws) of
      None \<Rightarrow> Inl RowNotFound | Some c \<Rightarrow> Inr (c, changes_of s k))"

definition seq_of :: "revision \<Rightarrow> int" where
  "seq_of r = orElse (rv_seq r) 0"

text \<open>\<open>workspace_sequence > base\<close> is not true of a NULL.\<close>

definition is_pending :: "commit_db \<Rightarrow> id \<Rightarrow> int \<Rightarrow> revision \<Rightarrow> bool" where
  "is_pending s ws base r \<longleftrightarrow> rv_ws r = ws \<and> (case rv_seq r of None \<Rightarrow> False | Some n \<Rightarrow> base < n) \<and> committed_in s r = None"

definition PendingRevisions :: "id \<Rightarrow> int \<Rightarrow> commit_db \<Rightarrow> revision list" where
  "PendingRevisions ws base s = sort_key seq_of (filter (is_pending s ws base) (db_revisions (cd_db s)))"

section \<open>Writing commits\<close>

definition commit_operations :: "string list" where
  "commit_operations = [''user'', ''import'', ''commit_restore'', ''release_restore'', ''bootstrap'']"

definition insert_commit :: "commit \<Rightarrow> commit_db \<Rightarrow> commit_db res" where
  "insert_commit v s =
     failIf (\<exists>c \<in> set (cd_commits s). cm_id c = cm_id v \<or> (cm_ws c = cm_ws v \<and> cm_head c = cm_head v)) unique_violation (
     failIf (cm_policy v \<notin> {RevisionPolicyPreserve, RevisionPolicySquash} \<or> cm_operation v \<notin> set commit_operations) check_violation (
     failIf (ws_of (cd_db s) (cm_ws v) = None \<or> db_user (cd_db s) (cm_createdBy v) = None
       \<or> (case cm_parent v of None \<Rightarrow> False | Some p \<Rightarrow> p \<notin> cm_id ` set (cd_commits s))) fk_violation (
     Inr (s\<lparr>cd_commits := cd_commits s @ [v]\<rparr>))))"

definition revision_exists :: "db \<Rightarrow> id option \<Rightarrow> bool" where
  "revision_exists s i \<longleftrightarrow> (case i of None \<Rightarrow> True | Some k \<Rightarrow> k \<in> rv_id ` set (db_revisions s))"

definition insert_change :: "id \<Rightarrow> commit_change \<Rightarrow> commit_db \<Rightarrow> commit_db res" where
  "insert_change k c s =
     failIf (\<exists>(j, d) \<in> set (cd_changes s). j = k \<and> cc_type d = cc_type c \<and> cc_docID d = cc_docID c) unique_violation (
     failIf (\<not> revision_exists (cd_db s) (cc_before c) \<or> \<not> revision_exists (cd_db s) (cc_after c)) fk_violation (
     Inr (s\<lparr>cd_changes := cd_changes s @ [(k, c)]\<rparr>)))"

definition insert_integrations :: "id \<Rightarrow> id \<Rightarrow> commit_db \<Rightarrow> commit_db" where
  "insert_integrations k ws s = s\<lparr>cd_integrations := cd_integrations s @
     map (\<lambda>i. (k, i)) (filter (\<lambda>i. ir_ws i = ws) (cd_installed s))\<rparr>"

type_synonym version_of = "id \<Rightarrow> int \<Rightarrow> commit_db \<Rightarrow> string res"

definition CreateCommit :: "version_of \<Rightarrow> commit \<Rightarrow> commit_change list \<Rightarrow> commit_db \<Rightarrow> ((commit \<times> commit_change list) \<times> commit_db) res" where
  "CreateCommit version v cs s =
     bindE (version (cm_ws v) (cm_head v) s) (\<lambda>dv.
     bindE (insert_commit (v\<lparr>cm_domainVersion := dv\<rparr>) s) (\<lambda>s1.
     bindE (foldE (insert_change (cm_id v)) cs (insert_integrations (cm_id v) (cm_ws v) s1)) (\<lambda>s2.
     bindE (GetCommit (cm_ws v) (cm_id v) s2) (\<lambda>r. Inr (r, s2)))))"

definition AttachRevisionsToCommit :: "id \<Rightarrow> id list \<Rightarrow> commit_db \<Rightarrow> commit_db res" where
  "AttachRevisionsToCommit k ids s =
     (if ids = [] then Inr s else
      let hit = map rv_id (filter (\<lambda>r. rv_id r \<in> set ids) (db_revisions (cd_db s))) in
      failIf (hit \<noteq> [] \<and> k \<notin> cm_id ` set (cd_commits s)) fk_violation (
      Inr (s\<lparr>cd_committed := map (\<lambda>i. (i, k)) hit @ cd_committed s\<rparr>)))"

section \<open>Squashing\<close>

definition rev_key :: "revision \<Rightarrow> string" where
  "rev_key r = rv_type r @ '':'' @ rv_docID r"

definition same_key :: "string \<Rightarrow> revision list \<Rightarrow> revision list" where
  "same_key k rs = filter (\<lambda>r. rev_key r = k) rs"

text \<open>The last committed revision of the document before the base.\<close>

definition squash_parent :: "id \<Rightarrow> int \<Rightarrow> revision \<Rightarrow> commit_db \<Rightarrow> id option" where
  "squash_parent ws base v s =
     (case sort_key (\<lambda>r. - seq_of r) (filter (\<lambda>r. (case rv_seq r of None \<Rightarrow> False | Some n \<Rightarrow> n \<le> base)
            \<and> committed_in s r \<noteq> None) (revisions_of (cd_db s) ws (rv_type v) (rv_docID v))) of
        [] \<Rightarrow> None | r # rs \<Rightarrow> Some (rv_id r))"

text \<open>Rows that others refer to cannot be deleted.\<close>

definition refers :: "id list \<Rightarrow> id option \<Rightarrow> bool" where
  "refers ids i \<longleftrightarrow> (case i of None \<Rightarrow> False | Some k \<Rightarrow> k \<in> set ids)"

definition delete_revisions :: "id list \<Rightarrow> commit_db \<Rightarrow> commit_db res" where
  "delete_revisions ids s =
     (let rest = filter (\<lambda>r. rv_id r \<notin> set ids) (db_revisions (cd_db s)) in
      failIf (list_ex (\<lambda>r. refers ids (rv_parent r) \<or> refers ids (rv_restoredFrom r)) rest
        \<or> list_ex (\<lambda>(k, c). refers ids (cc_before c) \<or> refers ids (cc_after c)) (cd_changes s)) fk_violation (
      Inr (s\<lparr>cd_db := (cd_db s)\<lparr>db_revisions := rest\<rparr>,
         cd_committed := filter (\<lambda>p. fst p \<notin> set ids) (cd_committed s),
         cd_contributors := filter (\<lambda>p. fst p \<notin> set ids) (cd_contributors s)\<rparr>)))"

text \<open>\<open>InsertRevision\<close> with its contributors. The revisions it refers to exist.\<close>

definition insert_squashed :: "revision \<Rightarrow> id list \<Rightarrow> commit_db \<Rightarrow> (revision \<times> commit_db) res" where
  "insert_squashed v contributors s =
     failIf (\<not> revision_exists (cd_db s) (rv_parent v) \<or> \<not> revision_exists (cd_db s) (rv_restoredFrom v)) fk_violation (
     bindE (InsertRevision v (cd_db s)) (\<lambda>(r, t).
     Inr (r, s\<lparr>cd_db := t, cd_contributors := (rv_id v, contributors) # cd_contributors s\<rparr>)))"

definition squash_contributors :: "commit_db \<Rightarrow> revision list \<Rightarrow> id list" where
  "squash_contributors s items = sort (remdups (concat (map (\<lambda>r. rv_createdBy r # contributor_ids s r) items)))"

definition squash_group :: "env \<Rightarrow> id \<Rightarrow> int \<Rightarrow> id \<Rightarrow> id \<Rightarrow> commit_db \<Rightarrow> revision list \<Rightarrow> string
    \<Rightarrow> revision list \<times> commit_db \<Rightarrow> (revision list \<times> commit_db) res" where
  "squash_group env ws base actor batch s0 pending key st =
     (let items = same_key key pending; lst = last items; parent = squash_parent ws base lst (snd st);
          contributors = squash_contributors s0 items in
      bindE (delete_revisions (map rv_id items) (snd st)) (\<lambda>s1.
      let (i, t) = fresh env (cd_db s1);
          v = lst\<lparr>rv_id := i, rv_operation := ''squash'', rv_parent := parent, rv_batch := batch, rv_createdBy := actor\<rparr> in
      bindE (insert_squashed v contributors (s1\<lparr>cd_db := t\<rparr>)) (\<lambda>(r, s2).
      Inr (fst st @ [r], s2))))"

definition SquashPending :: "env \<Rightarrow> id \<Rightarrow> int \<Rightarrow> id \<Rightarrow> id \<Rightarrow> commit_db \<Rightarrow> (revision list \<times> commit_db) res" where
  "SquashPending env ws base actor batch s =
     (let pending = PendingRevisions ws base s in
      foldE (squash_group env ws base actor batch s pending) (sort (remdups (map rev_key pending))) ([], s))"

section \<open>The use case\<close>

text \<open>The keys in the order of their first revisions.\<close>

definition first_keys :: "revision list \<Rightarrow> string list" where
  "first_keys rs = rev (remdups (rev (map rev_key rs)))"

definition change_of :: "revision list \<Rightarrow> commit_change" where
  "change_of items = \<lparr>cc_type = rv_type (last items), cc_docID = rv_docID (last items), cc_identity = [],
     cc_before = rv_parent (hd items), cc_after = Some (rv_id (last items)), cc_operation = rv_operation (last items)\<rparr>"

definition commit_changes :: "revision list \<Rightarrow> commit_change list" where
  "commit_changes rs = map (\<lambda>k. change_of (same_key k rs)) (first_keys rs)"

definition foreign_revision :: "user \<Rightarrow> revision \<Rightarrow> bool" where
  "foreign_revision u r \<longleftrightarrow> rv_createdBy r \<noteq> u_id u"

definition may_squash :: "workspace_access \<Rightarrow> user \<Rightarrow> revision list \<Rightarrow> bool" where
  "may_squash scope u pending \<longleftrightarrow> CanAdmin (wa_role scope) \<or> CanAdmin (wa_ownerRole scope) \<or> \<not> list_ex (foreign_revision u) pending"

record commit_plan =
  cp_user :: user
  cp_ws :: workspace
  cp_policy :: string
  cp_latest :: commit
  cp_pending :: "revision list"

definition commit_check :: "ctx \<Rightarrow> string \<Rightarrow> int \<Rightarrow> commit_db \<Rightarrow> commit_plan res" where
  "commit_check c policy0 expected s =
     bindE (CommitContext c) (\<lambda>((current, u), scope).
     let policy = (if policy0 = [] then RevisionPolicyPreserve else policy0); ws = wa_workspace scope in
     failIf (policy \<noteq> RevisionPolicyPreserve \<and> policy \<noteq> RevisionPolicySquash) (InvalidInput ''revision_policy_invalid'') (
     bindE (LatestCommit (w_id ws) s) (\<lambda>latest.
     failIf (expected \<noteq> w_headSequence ws) (Conflict ''head_sequence_conflict'') (
     let pending = PendingRevisions (w_id ws) (cm_head latest) s in
     failIf (pending = []) (Conflict ''nothing_to_commit'') (
     failIf (policy = RevisionPolicySquash \<and> \<not> may_squash scope u pending) (Forbidden ''shared_squash_requires_admin'') (
     Inr \<lparr>cp_user = u, cp_ws = ws, cp_policy = policy, cp_latest = latest, cp_pending = pending\<rparr>))))))"

definition commit_selected :: "env \<Rightarrow> ctx \<Rightarrow> commit_plan \<Rightarrow> commit_db \<Rightarrow> (revision list \<times> commit_db) res" where
  "commit_selected env c p s =
     (if cp_policy p = RevisionPolicySquash then
        bindE (CreateMutationBatch env c (Some (w_id (cp_ws p))) ''commit_squash'' (u_id (cp_user p)) (cd_db s)) (\<lambda>(batch, t).
        SquashPending env (w_id (cp_ws p)) (cm_head (cp_latest p)) (u_id (cp_user p)) batch (s\<lparr>cd_db := t\<rparr>))
      else Inr (cp_pending p, s))"

definition new_commit :: "id \<Rightarrow> ctx \<Rightarrow> commit_plan \<Rightarrow> string \<Rightarrow> commit" where
  "new_commit i c p message = \<lparr>cm_id = i, cm_ws = w_id (cp_ws p), cm_parent = Some (cm_id (cp_latest p)),
     cm_base = cm_head (cp_latest p), cm_head = w_headSequence (cp_ws p), cm_message = trim_space message,
     cm_policy = cp_policy p, cm_operation = ''user'', cm_domainVersion = [], cm_createdBy = u_id (cp_user p), cm_createdAt = cx_now c\<rparr>"

definition commit_write :: "env \<Rightarrow> version_of \<Rightarrow> ctx \<Rightarrow> commit_plan \<Rightarrow> string \<Rightarrow> commit_db \<Rightarrow> ((commit \<times> commit_change list) \<times> commit_db) res" where
  "commit_write env version c p message s =
     MapConflict (
     bindE (commit_selected env c p s) (\<lambda>(selected, s1).
     let (i, t) = fresh env (cd_db s1) in
     bindE (CreateCommit version (new_commit i c p message) (commit_changes selected) (s1\<lparr>cd_db := t\<rparr>)) (\<lambda>(created, s2).
     bindE (AttachRevisionsToCommit (cm_id (fst created)) (map rv_id selected) s2) (\<lambda>s3.
     Inr (created, s3)))))"

definition commit_Create :: "env \<Rightarrow> version_of \<Rightarrow> ctx \<Rightarrow> string \<Rightarrow> string \<Rightarrow> int \<Rightarrow> commit_db \<Rightarrow> ((commit \<times> commit_change list) \<times> commit_db) res" where
  "commit_Create env version c message policy expected s =
     bindE (commit_check c policy expected s) (\<lambda>p. commit_write env version c p message s)"

definition commit_List :: "ctx \<Rightarrow> commit_db \<Rightarrow> commit list res" where
  "commit_List c s = bindE (ctx_Access c) (\<lambda>scope. ListCommits (w_id (wa_workspace scope)) s)"

definition commit_Get :: "ctx \<Rightarrow> id \<Rightarrow> commit_db \<Rightarrow> (commit \<times> commit_change list) res" where
  "commit_Get c k s = bindE (ctx_Access c) (\<lambda>scope. MapNotFound (GetCommit (w_id (wa_workspace scope)) k s))"

section \<open>The plan\<close>

record plan_document =
  pd_collection :: string
  pd_identity :: string
  pd_displayName :: string
  pd_revisionCount :: nat
  pd_operations :: "string list"
  pd_authors :: "id list"
  pd_tokens :: "(id \<times> string) list"

record plan_result =
  pr_base :: int
  pr_head :: int
  pr_revisionCount :: nat
  pr_documentCount :: nat
  pr_contributors :: "id list"
  pr_shared :: bool
  pr_documents :: "plan_document list"

definition snapshotDisplayName :: "snapshot \<Rightarrow> string" where
  "snapshotDisplayName v = (case v of SnapDocument d \<Rightarrow> d_displayName d | SnapWorkspace w \<Rightarrow> w_displayName w
     | SnapOther j \<Rightarrow> (case j of JObj m \<Rightarrow> orElse (as_str (oget m ''displayName'')) [] | _ \<Rightarrow> []))"

definition revision_token :: "commit_db \<Rightarrow> revision \<Rightarrow> id option" where
  "revision_token s r = (case find (\<lambda>b. mb_id b = rv_batch r) (db_batches (cd_db s)) of None \<Rightarrow> None | Some b \<Rightarrow> mb_token b)"

definition add_new :: "'a \<Rightarrow> 'a list \<Rightarrow> 'a list" where
  "add_new x xs = (if x \<in> set xs then xs else xs @ [x])"

definition plan_revision :: "(id \<Rightarrow> string option) \<Rightarrow> commit_db \<Rightarrow> revision \<Rightarrow> plan_document \<Rightarrow> plan_document" where
  "plan_revision token_name s r d =
     (let name = snapshotDisplayName (rv_snapshot r) in
      d\<lparr>pd_identity := rv_docIdentity r,
        pd_displayName := (if name \<noteq> [] then name else pd_displayName d),
        pd_revisionCount := pd_revisionCount d + 1,
        pd_operations := add_new (rv_operation r) (pd_operations d),
        pd_authors := add_new (rv_createdBy r) (pd_authors d),
        pd_tokens := (case revision_token s r of None \<Rightarrow> pd_tokens d
          | Some t \<Rightarrow> if t \<in> fst ` set (pd_tokens d) then pd_tokens d else pd_tokens d @ [(t, orElse (token_name t) [])])\<rparr>)"

definition empty_plan_document :: "string \<Rightarrow> plan_document" where
  "empty_plan_document collection = \<lparr>pd_collection = collection, pd_identity = [], pd_displayName = [], pd_revisionCount = 0,
     pd_operations = [], pd_authors = [], pd_tokens = []\<rparr>"

text \<open>The list of documents and the index of the loop are one list of documents with their keys.\<close>

definition plan_step :: "(id \<Rightarrow> string option) \<Rightarrow> commit_db \<Rightarrow> revision \<Rightarrow> (string \<times> plan_document) list \<Rightarrow> (string \<times> plan_document) list" where
  "plan_step token_name s r ds =
     (let ds1 = (if rev_key r \<in> fst ` set ds then ds else ds @ [(rev_key r, empty_plan_document (rv_type r))]) in
      updateWhere (\<lambda>p. fst p = rev_key r) (\<lambda>p. (fst p, plan_revision token_name s r (snd p))) ds1)"

definition planDocuments :: "(id \<Rightarrow> string option) \<Rightarrow> commit_db \<Rightarrow> revision list \<Rightarrow> plan_document list" where
  "planDocuments token_name s pending = map snd (fold (plan_step token_name s) pending [])"

definition commit_plan_of :: "(id \<Rightarrow> string option) \<Rightarrow> ctx \<Rightarrow> bool \<Rightarrow> commit_db \<Rightarrow> plan_result res" where
  "commit_plan_of token_name c withDocuments s =
     bindE (ctx_Access c) (\<lambda>scope.
     bindE (LatestCommit (w_id (wa_workspace scope)) s) (\<lambda>latest.
     let pending = PendingRevisions (w_id (wa_workspace scope)) (cm_head latest) s;
         contributors = sort (remdups (map rv_createdBy pending)) in
     Inr \<lparr>pr_base = cm_head latest, pr_head = w_headSequence (wa_workspace scope), pr_revisionCount = length pending,
          pr_documentCount = length (remdups (map rev_key pending)), pr_contributors = contributors,
          pr_shared = (length contributors > 1),
          pr_documents = (if withDocuments then planDocuments token_name s pending else [])\<rparr>))"

end
