(* ===== verification/CommitLaws.thy ===== *)
theory CommitLaws
  imports Commits
begin

text \<open>
  The invariant of commits and the log: the commits of a workspace form a chain whose ranges of sequence numbers follow
  each other, every revision in the range of a commit is attached to it, and those after the last commit are free.
\<close>

section \<open>Steps of the log\<close>

text \<open>What a statement of a command does to the log: nothing, or one recorded revision.\<close>

inductive log_step :: "env \<Rightarrow> db \<Rightarrow> db \<Rightarrow> bool" for env where
  data: "db_revisions t = db_revisions s \<Longrightarrow> (\<And>j. head_of t j = head_of s j) \<Longrightarrow> log_step env s t"
| entry: "append_revision env c ws kind i ident n op from snap actor s = Inr (r, t) \<Longrightarrow> log_step env s t"

section \<open>The invariant\<close>

fun chained :: "commit list \<Rightarrow> bool" where
  "chained (c # d # cs) \<longleftrightarrow> cm_parent d = Some (cm_id c) \<and> cm_base d = cm_head c \<and> cm_base d < cm_head d \<and> chained (d # cs)"
| "chained cs \<longleftrightarrow> True"

definition in_range :: "commit \<Rightarrow> revision \<Rightarrow> bool" where
  "in_range c r \<longleftrightarrow> (case rv_seq r of None \<Rightarrow> False | Some n \<Rightarrow> cm_base c < n \<and> n \<le> cm_head c)"

definition after_all :: "commit list \<Rightarrow> revision \<Rightarrow> bool" where
  "after_all cs r \<longleftrightarrow> (case rv_seq r of None \<Rightarrow> False | Some n \<Rightarrow> \<forall>c \<in> set cs. cm_head c < n)"

definition log_numbered :: "db \<Rightarrow> id \<Rightarrow> bool" where
  "log_numbered s ws \<longleftrightarrow> (\<forall>r \<in> set (db_revisions s). rv_ws r = ws \<longrightarrow> rv_seq r \<noteq> None \<longrightarrow>
      (\<forall>h. head_of s ws = Some h \<longrightarrow> seq_of r \<le> h)
    \<and> (\<forall>q \<in> set (db_revisions s). rv_ws q = ws \<longrightarrow> rv_seq q = rv_seq r \<longrightarrow> q = r))"

definition commits_chained :: "commit_db \<Rightarrow> id \<Rightarrow> bool" where
  "commits_chained s ws \<longleftrightarrow> chained (commits_of s ws)
     \<and> (\<forall>c \<in> set (commits_of s ws). \<forall>h. head_of (cd_db s) ws = Some h \<longrightarrow> cm_head c \<le> h)"

definition log_attached :: "commit_db \<Rightarrow> id \<Rightarrow> bool" where
  "log_attached s ws \<longleftrightarrow> (\<forall>r \<in> set (db_revisions (cd_db s)). rv_ws r = ws \<longrightarrow>
      (\<forall>c \<in> set (commits_of s ws). in_range c r \<longrightarrow> committed_in s r = Some (cm_id c))
    \<and> (after_all (commits_of s ws) r \<longrightarrow> committed_in s r = None))"

definition commits_inv :: "commit_db \<Rightarrow> bool" where
  "commits_inv s \<longleftrightarrow> distinct (map rv_id (db_revisions (cd_db s)))
     \<and> fst ` set (cd_committed s) \<subseteq> rv_id ` set (db_revisions (cd_db s))
     \<and> snd ` set (cd_committed s) \<subseteq> cm_id ` set (cd_commits s) \<and> fst ` set (cd_changes s) \<subseteq> cm_id ` set (cd_commits s)
     \<and> (\<forall>ws. log_numbered (cd_db s) ws \<and> commits_chained s ws \<and> log_attached s ws)"

lemma commits_invD:
  assumes "commits_inv s"
  shows "distinct (map rv_id (db_revisions (cd_db s)))" "fst ` set (cd_committed s) \<subseteq> rv_id ` set (db_revisions (cd_db s))"
    "log_numbered (cd_db s) ws" "commits_chained s ws" "log_attached s ws"
    "snd ` set (cd_committed s) \<subseteq> cm_id ` set (cd_commits s)" "fst ` set (cd_changes s) \<subseteq> cm_id ` set (cd_commits s)"
  using assms by (simp_all add: commits_inv_def)

lemma log_numberedD:
  assumes "log_numbered s ws" "r \<in> set (db_revisions s)" "rv_ws r = ws" "rv_seq r = Some n"
  shows "head_of s ws = Some h \<Longrightarrow> n \<le> h" "q \<in> set (db_revisions s) \<Longrightarrow> rv_ws q = ws \<Longrightarrow> rv_seq q = Some n \<Longrightarrow> q = r"
  using assms by (auto simp: log_numbered_def seq_of_def)

lemma log_attachedD:
  assumes "log_attached s ws" "r \<in> set (db_revisions (cd_db s))" "rv_ws r = ws"
  shows "c \<in> set (commits_of s ws) \<Longrightarrow> in_range c r \<Longrightarrow> committed_in s r = Some (cm_id c)"
    "after_all (commits_of s ws) r \<Longrightarrow> committed_in s r = None"
  using assms by (auto simp: log_attached_def)

section \<open>Chains\<close>

lemma chained_last: "chained cs \<Longrightarrow> c \<in> set cs \<Longrightarrow> c = last cs \<or> cm_head c < cm_head (last cs)"
proof (induction cs arbitrary: c rule: chained.induct)
  case (1 a d cs)
  have d: "d = last (d # cs) \<or> cm_head d < cm_head (last (d # cs))" using 1 by simp
  show ?case
  proof (cases "c = a")
    case True
    have "cm_head a < cm_head d" using 1(2) by simp
    then have "cm_head a < cm_head (last (d # cs))" using d by auto
    then show ?thesis using True by simp
  next
    case False
    then have "c \<in> set (d # cs)" using 1(3) by simp
    then show ?thesis using 1(1) [of c] 1(2) by simp
  qed
qed auto

lemma chained_snoc:
  "chained (cs @ [d]) \<longleftrightarrow> chained cs \<and> (cs \<noteq> [] \<longrightarrow> cm_parent d = Some (cm_id (last cs)) \<and> cm_base d = cm_head (last cs) \<and> cm_base d < cm_head d)"
  by (induction cs rule: chained.induct) auto

lemma LatestCommit_last:
  assumes "chained (commits_of s ws)"
  shows "LatestCommit ws s = (if commits_of s ws = [] then Inl RowNotFound else Inr (last (commits_of s ws)))"
proof (cases "commits_of s ws = []")
  case False
  then obtain c cs where c: "sort_key (\<lambda>c. - cm_head c) (commits_of s ws) = c # cs"
    by (cases "sort_key (\<lambda>c. - cm_head c) (commits_of s ws)") (metis set_empty2 set_sort, blast)
  have "c \<in> set (commits_of s ws)" by (rule sort_key_hd(1) [OF c])
  moreover have "\<not> cm_head c < cm_head (last (commits_of s ws))"
    using sort_key_hd(2) [OF c, of "last (commits_of s ws)"] False by simp
  ultimately have "c = last (commits_of s ws)" using chained_last [OF assms] by blast
  then show ?thesis using c False by (simp add: LatestCommit_def)
qed (simp add: LatestCommit_def)

lemma latest_bounds:
  assumes "commits_chained s ws" "LatestCommit ws s = Inr c"
  shows "c \<in> set (commits_of s ws)" "c = last (commits_of s ws)" "d \<in> set (commits_of s ws) \<Longrightarrow> cm_head d \<le> cm_head c"
proof -
  have ch: "chained (commits_of s ws)" using assms(1) by (simp add: commits_chained_def)
  then have n: "commits_of s ws \<noteq> []" and l: "c = last (commits_of s ws)"
    using assms(2) LatestCommit_last [OF ch] by (auto split: if_splits)
  then show "c \<in> set (commits_of s ws)" "c = last (commits_of s ws)" by auto
  show "d \<in> set (commits_of s ws) \<Longrightarrow> cm_head d \<le> cm_head c" using chained_last [OF ch, of d] l by auto
qed

text \<open>The pending revisions are those after the last commit.\<close>

lemma pending_after:
  assumes "commits_inv s" "LatestCommit ws s = Inr c" "r \<in> set (db_revisions (cd_db s))" "rv_ws r = ws"
  shows "is_pending s ws (cm_head c) r \<longleftrightarrow> (\<exists>n. rv_seq r = Some n \<and> cm_head c < n)"
proof -
  note l = latest_bounds [OF commits_invD(4) [OF assms(1)] assms(2)]
  have "after_all (commits_of s ws) r" if "rv_seq r = Some n" "cm_head c < n" for n
    using that l(3) by (fastforce simp: after_all_def)
  then show ?thesis
    using log_attachedD(2) [OF commits_invD(5) [OF assms(1)] assms(3,4)] assms(4)
    by (auto simp: is_pending_def split: option.splits)
qed

section \<open>Commands keep the invariant\<close>

lemma log_step_inv:
  assumes "log_step env (cd_db s) t" "commits_inv s"
  shows "commits_inv (s\<lparr>cd_db := t\<rparr>)"
  using assms(1)
proof cases
  case data
  then show ?thesis using assms(2)
    by (simp add: commits_inv_def log_numbered_def commits_chained_def log_attached_def commits_of_def committed_in_def)
next
  case (entry c ws kind i ident n op "from" snap actor r)
  note a = append_revision_Inr [OF entry]
  have rv: "rv_ws r = ws" using a(5) by (simp add: revision_matches_def)
  obtain h where h: "head_of (cd_db s) ws = Some h" "rv_seq r = Some (h + 1)" using a(3) by force
  have id: "rv_id r \<notin> rv_id ` set (db_revisions (cd_db s))" using a(7) by (force simp: revision_clash_def)
  then have "rv_id r \<notin> fst ` set (cd_committed s)" using commits_invD(2) [OF assms(2)] by blast
  then have none: "committed_in s r = None" by (simp add: committed_in_def map_of_eq_None_iff)
  have num: "log_numbered t j" for j
  proof (cases "j = ws")
    case True
    have "rv_seq q \<noteq> Some (h + 1)" if "q \<in> set (db_revisions (cd_db s))" "rv_ws q = ws" for q
      using log_numberedD(1) [OF commits_invD(3) [OF assms(2)] that, of "h + 1" h] h(1) by auto
    moreover have "seq_of q \<le> h + 1" if "q \<in> set (db_revisions (cd_db s))" "rv_ws q = ws" "rv_seq q \<noteq> None" for q
      using log_numberedD(1) [OF commits_invD(3) [OF assms(2)] that(1,2)] that(3) h(1) by (force simp: seq_of_def)
    moreover have "p = q" if "p \<in> set (db_revisions (cd_db s))" "q \<in> set (db_revisions (cd_db s))" "rv_ws p = ws" "rv_ws q = ws"
        "rv_seq p = rv_seq q" "rv_seq q \<noteq> None" for p q
      using log_numberedD(2) [OF commits_invD(3) [OF assms(2)] that(2,4) _ that(1,3)] that(5,6) by auto
    ultimately show ?thesis using True rv h(2) a(4) [of ws] unfolding log_numbered_def a(2)
      by (auto simp: seq_of_def)
  next
    case False
    then show ?thesis using commits_invD(3) [OF assms(2), of j] rv a(4) [of j]
      by (auto simp: log_numbered_def a(2))
  qed
  have ch: "commits_chained (s\<lparr>cd_db := t\<rparr>) j" for j
    using commits_invD(4) [OF assms(2), of j] a(4) [of j] h
    by (fastforce simp: commits_chained_def commits_of_def split: if_splits)
  have at: "log_attached (s\<lparr>cd_db := t\<rparr>) j" for j
  proof -
    have "\<not> in_range c r" if "c \<in> set (commits_of s ws)" for c
      using commits_invD(4) [OF assms(2), of ws] that h by (fastforce simp: commits_chained_def in_range_def)
    then show ?thesis using commits_invD(5) [OF assms(2), of j] none rv
      by (auto simp: log_attached_def commits_of_def committed_in_def a(2))
  qed
  show ?thesis using assms(2) id num ch at by (auto simp: commits_inv_def a(2))
qed

lemma log_run_inv: "(log_step env)\<^sup>*\<^sup>* u t \<Longrightarrow> u = cd_db s \<Longrightarrow> commits_inv s \<Longrightarrow> commits_inv (s\<lparr>cd_db := t\<rparr>)"
proof (induction rule: rtranclp_induct)
  case (step t v)
  then show ?case using log_step_inv [of env "s\<lparr>cd_db := t\<rparr>" v] by simp
qed simp

end
