(* ===== verification/SquashLaws.thy ===== *)
theory SquashLaws
  imports CommitLaws
begin

text \<open>
  Squashing keeps the invariant of the commits and of every document keeps its last pending revision under a new
  identifier.
\<close>

section \<open>One document\<close>

definition cd_frame :: "commit_db \<Rightarrow> commit_db \<Rightarrow> bool" where
  "cd_frame s t \<longleftrightarrow> cd_commits t = cd_commits s \<and> cd_changes t = cd_changes s \<and> cd_installed t = cd_installed s
     \<and> cd_integrations t = cd_integrations s \<and> cd_committed t = cd_committed s \<and> same_data (cd_db s) (cd_db t)
     \<and> db_workspaces (cd_db t) = db_workspaces (cd_db s)"

lemma cd_frame_refl [simp]: "cd_frame s s" by (simp add: cd_frame_def)
lemma cd_frame_trans: "cd_frame s t \<Longrightarrow> cd_frame t u \<Longrightarrow> cd_frame s u"
  unfolding cd_frame_def same_data_def by metis

lemma cd_frame_head: "cd_frame s t \<Longrightarrow> head_of (cd_db t) = head_of (cd_db s)"
  by (rule ext, rule head_of_cong) (simp add: cd_frame_def)

lemma cd_frame_commits: "cd_frame s t \<Longrightarrow> commits_of t ws = commits_of s ws" "cd_frame s t \<Longrightarrow> committed_in t r = committed_in s r"
  by (simp_all add: cd_frame_def commits_of_def committed_in_def)

text \<open>The revision that takes the place of the last one.\<close>

definition squash_of :: "id \<Rightarrow> revision \<Rightarrow> revision \<Rightarrow> bool" where
  "squash_of actor lst v \<longleftrightarrow> rv_operation v = ''squash'' \<and> rv_createdBy v = actor \<and> rv_ws v = rv_ws lst \<and> rv_type v = rv_type lst
     \<and> rv_docID v = rv_docID lst \<and> rv_docIdentity v = rv_docIdentity lst \<and> rv_number v = rv_number lst \<and> rv_seq v = rv_seq lst
     \<and> rv_snapshot v = rv_snapshot lst \<and> rv_checksum v = rv_checksum lst \<and> rv_restoredFrom v = rv_restoredFrom lst"

lemma InsertRevision_Inr:
  "InsertRevision v s = Inr (r, t) \<longleftrightarrow> r = v \<and> t = s\<lparr>db_revisions := db_revisions s @ [v]\<rparr>
     \<and> (\<forall>q \<in> set (db_revisions s). \<not> revision_clash q v) \<and> 0 < rv_number v \<and> rv_operation v \<in> set operations
     \<and> db_user s (rv_createdBy v) \<noteq> None \<and> (\<exists>b \<in> set (db_batches s). mb_id b = rv_batch v)"
  by (auto simp: InsertRevision_def failIf_Inr_iff)

lemma distinct_ids_inj:
  "distinct (map f xs) \<Longrightarrow> x \<in> set xs \<Longrightarrow> y \<in> set xs \<Longrightarrow> f x = f y \<Longrightarrow> x = y"
  by (meson distinct_map inj_onD)

definition without :: "'a list \<Rightarrow> 'a list \<Rightarrow> 'a list" where
  "without items xs = filter (\<lambda>x. x \<notin> set items) xs"

lemma without_ids:
  assumes "distinct (map f xs)" "set items \<subseteq> set xs"
  shows "filter (\<lambda>x. f x \<notin> set (map f items)) xs = without items xs"
  unfolding without_def
  by (rule filter_cong [OF refl]) (use distinct_ids_inj [OF assms(1)] assms(2) in auto)

lemma filter_absent_keys: "fst ` set xs \<inter> set ids = {} \<Longrightarrow> filter (\<lambda>p. fst p \<notin> set ids) xs = xs"
  by (rule filter_True) auto

lemma map_of_other_keys: "i \<notin> set ids \<Longrightarrow> map_of (filter (\<lambda>p. fst p \<notin> set ids) xs) i = map_of xs i"
  by (induction xs) auto

text \<open>What one turn of the loop does.\<close>

lemma squash_group_Inr:
  assumes "squash_group env ws base actor batch s0 pending key (res, s) = Inr (res', t)"
    and inv: "commits_inv s"
    and items: "same_key key pending \<noteq> []" "set (same_key key pending) \<subseteq> set (db_revisions (cd_db s))"
      "\<And>r. r \<in> set (same_key key pending) \<Longrightarrow> committed_in s r = None"
  shows "\<exists>v. res' = res @ [v] \<and> squash_of actor (last (same_key key pending)) v \<and> cd_frame s t
     \<and> db_revisions (cd_db t) = without (same_key key pending) (db_revisions (cd_db s)) @ [v]
     \<and> rv_id v \<notin> rv_id ` set (without (same_key key pending) (db_revisions (cd_db s)))
     \<and> map_of (cd_contributors t) (rv_id v) = Some (squash_contributors s0 (same_key key pending))
     \<and> (\<forall>i. i \<notin> rv_id ` set (same_key key pending) \<longrightarrow> i \<noteq> rv_id v \<longrightarrow> map_of (cd_contributors t) i = map_of (cd_contributors s) i)"
proof -
  let ?items = "same_key key pending" and ?ids = "map rv_id (same_key key pending)"
  from assms(1) obtain s1 r s2 where
    del: "delete_revisions ?ids s = Inr s1"
    and ins: "insert_squashed ((last ?items)\<lparr>rv_id := fst (fresh env (cd_db s1)), rv_operation := ''squash'',
        rv_parent := squash_parent ws base (last ?items) s, rv_batch := batch, rv_createdBy := actor\<rparr>)
        (squash_contributors s0 ?items) (s1\<lparr>cd_db := snd (fresh env (cd_db s1))\<rparr>) = Inr (r, s2)"
    and out: "res' = res @ [r]" "t = s2"
    by (auto simp: squash_group_def Let_def res_iffs split_def)
  have keys: "fst ` set (cd_committed s) \<inter> set ?ids = {}"
    using items(3) by (force simp: committed_in_def map_of_eq_None_iff)
  have wo: "filter (\<lambda>x. rv_id x \<notin> set ?ids) (db_revisions (cd_db s)) = without ?items (db_revisions (cd_db s))"
    by (rule without_ids [OF commits_invD(1) [OF inv] items(2)])
  have s1: "s1 = s\<lparr>cd_db := (cd_db s)\<lparr>db_revisions := without ?items (db_revisions (cd_db s))\<rparr>,
      cd_contributors := filter (\<lambda>p. fst p \<notin> set ?ids) (cd_contributors s)\<rparr>"
    using del filter_absent_keys [OF keys] wo by (simp add: delete_revisions_def Let_def failIf_Inr_iff)
  have ins': "squash_of actor (last ?items) r" "\<forall>q \<in> set (db_revisions (cd_db s1)). \<not> revision_clash q r"
    "s2 = s1\<lparr>cd_db := (snd (fresh env (cd_db s1)))\<lparr>db_revisions := db_revisions (cd_db s1) @ [r]\<rparr>,
       cd_contributors := (rv_id r, squash_contributors s0 ?items) # cd_contributors s1\<rparr>"
    using ins by (auto simp: insert_squashed_def res_iffs InsertRevision_Inr squash_of_def)
  have id: "rv_id r \<notin> rv_id ` set (without ?items (db_revisions (cd_db s)))"
    using ins'(2) by (force simp: s1 revision_clash_def)
  have fr: "cd_frame s t" using ins'(3) by (simp add: out s1 cd_frame_def same_data_def fresh_def)
  have co: "map_of (filter (\<lambda>p. fst p \<notin> set ?ids) (cd_contributors s)) i = map_of (cd_contributors s) i" if "i \<notin> set ?ids" for i
    by (rule map_of_other_keys [OF that])
  show ?thesis using ins' id fr co by (intro exI [of _ r]) (auto simp: out s1)
qed

text \<open>Replacing free revisions by a copy of one of them keeps the invariant.\<close>

lemma replace_inv:
  assumes inv: "commits_inv s" and fr: "cd_frame s t"
    and items: "set items \<subseteq> set (db_revisions (cd_db s))" "\<And>r. r \<in> set items \<Longrightarrow> committed_in s r = None" "lst \<in> set items"
    and t: "db_revisions (cd_db t) = without items (db_revisions (cd_db s)) @ [v]"
    and v: "rv_ws v = rv_ws lst" "rv_seq v = rv_seq lst" "rv_id v \<notin> rv_id ` set (without items (db_revisions (cd_db s)))"
  shows "commits_inv t"
proof -
  let ?rs = "db_revisions (cd_db s)"
  have lst: "lst \<in> set ?rs" using items by auto
  have wo: "set (without items ?rs) = set ?rs - set items" by (auto simp: without_def)
  have d: "distinct (map rv_id (db_revisions (cd_db t)))"
    using commits_invD(1) [OF inv] v(3) by (simp add: t distinct_map_filter without_def)
  have keys: "fst ` set (cd_committed s) \<subseteq> rv_id ` set (without items ?rs)"
  proof
    fix k assume k: "k \<in> fst ` set (cd_committed s)"
    then obtain r where r: "r \<in> set ?rs" "rv_id r = k" using commits_invD(2) [OF inv] by auto
    then have "committed_in s r \<noteq> None" using k by (simp add: committed_in_def map_of_eq_None_iff)
    then have "r \<notin> set items" using items(2) by auto
    then show "k \<in> rv_id ` set (without items ?rs)" using r wo by auto
  qed
  have free: "committed_in s v = None" using keys v(3) by (auto simp: committed_in_def map_of_eq_None_iff)
  have num: "log_numbered (cd_db t) ws" for ws
  proof -
    have n: "log_numbered (cd_db s) ws" by (rule commits_invD(3) [OF inv])
    have "q \<in> set items" if "q \<in> set ?rs" "rv_ws q = rv_ws lst" "rv_seq q = rv_seq lst" "rv_ws lst = ws" "rv_seq lst \<noteq> None" for q
      using n lst that items(3) unfolding log_numbered_def by metis
    then show ?thesis using n lst v(1,2) cd_frame_head [OF fr] wo
      unfolding log_numbered_def t by (auto simp: seq_of_def)
  qed
  have at: "log_attached t ws" for ws
  proof -
    have a: "log_attached s ws" by (rule commits_invD(5) [OF inv])
    have "in_range c v = in_range c lst" "after_all cs v = after_all cs lst" for c cs
      by (simp_all add: in_range_def after_all_def v(2))
    moreover have "\<not> in_range c lst" if "c \<in> set (commits_of s ws)" "rv_ws lst = ws" for c
      using log_attachedD(1) [OF a lst that(2) that(1)] items(2) [OF items(3)] by auto
    ultimately show ?thesis using a free wo v(1) cd_frame_commits [OF fr]
      by (auto simp: log_attached_def t)
  qed
  have ch: "commits_chained t ws" for ws
    using commits_invD(4) [OF inv] cd_frame_head [OF fr] cd_frame_commits [OF fr] by (simp add: commits_chained_def)
  have "cd_committed t = cd_committed s" "cd_commits t = cd_commits s" "cd_changes t = cd_changes s"
    using fr by (simp_all add: cd_frame_def)
  then show ?thesis using d num at ch keys commits_invD(6,7) [OF inv] by (auto simp: commits_inv_def t)
qed

section \<open>All documents\<close>

definition squash_result :: "id \<Rightarrow> commit_db \<Rightarrow> revision list \<Rightarrow> string list \<Rightarrow> commit_db \<Rightarrow> revision list \<Rightarrow> commit_db \<Rightarrow> bool" where
  "squash_result actor s0 pending ks s new t \<longleftrightarrow> commits_inv t \<and> cd_frame s t
     \<and> db_revisions (cd_db t) = filter (\<lambda>r. \<forall>k \<in> set ks. r \<notin> set (same_key k pending)) (db_revisions (cd_db s)) @ new
     \<and> list_all2 (\<lambda>k v. squash_of actor (last (same_key k pending)) v
          \<and> map_of (cd_contributors t) (rv_id v) = Some (squash_contributors s0 (same_key k pending))) ks new
     \<and> (\<forall>i. i \<notin> rv_id ` set new \<longrightarrow> (\<forall>k \<in> set ks. i \<notin> rv_id ` set (same_key k pending)) \<longrightarrow>
          map_of (cd_contributors t) i = map_of (cd_contributors s) i)"

lemma squash_fold:
  assumes "foldE (squash_group env ws base actor batch s0 pending) ks (res, s) = Inr (res', t)" "distinct ks" "commits_inv s"
    and "distinct (map rv_id pending)"
    and "\<And>k. k \<in> set ks \<Longrightarrow> same_key k pending \<noteq> [] \<and> set (same_key k pending) \<subseteq> set (db_revisions (cd_db s))
          \<and> (\<forall>r \<in> set (same_key k pending). committed_in s r = None)"
  shows "\<exists>new. res' = res @ new \<and> squash_result actor s0 pending ks s new t"
  using assms
proof (induction ks arbitrary: res s)
  case Nil
  then show ?case by (simp add: squash_result_def)
next
  case (Cons k ks)
  from Cons.prems(1) obtain res1 s1 where
    one: "squash_group env ws base actor batch s0 pending k (res, s) = Inr (res1, s1)"
    and rest: "foldE (squash_group env ws base actor batch s0 pending) ks (res1, s1) = Inr (res', t)"
    by (auto simp: bindE_Inr_iff)
  let ?items = "same_key k pending"
  have it: "?items \<noteq> []" "set ?items \<subseteq> set (db_revisions (cd_db s))" "\<And>r. r \<in> set ?items \<Longrightarrow> committed_in s r = None"
    using Cons.prems(5) [of k] by auto
  obtain v where v: "res1 = res @ [v]" "squash_of actor (last ?items) v" and fr: "cd_frame s s1"
    and revs: "db_revisions (cd_db s1) = without ?items (db_revisions (cd_db s)) @ [v]"
    and new: "rv_id v \<notin> rv_id ` set (without ?items (db_revisions (cd_db s)))"
    and co: "map_of (cd_contributors s1) (rv_id v) = Some (squash_contributors s0 ?items)"
    and co': "\<And>i. i \<notin> rv_id ` set ?items \<Longrightarrow> i \<noteq> rv_id v \<Longrightarrow> map_of (cd_contributors s1) i = map_of (cd_contributors s) i"
    using squash_group_Inr [OF one Cons.prems(3) it] by blast
  have inv1: "commits_inv s1"
    by (rule replace_inv [OF Cons.prems(3) fr it(2,3) _ revs _ _ new])
       (use v(2) it(1) in \<open>auto simp: squash_of_def\<close>)
  have other: "set (same_key j pending) \<subseteq> set (without ?items (db_revisions (cd_db s)))" if "j \<in> set ks" for j
  proof -
    have "j \<noteq> k" using that Cons.prems(2) by auto
    then show ?thesis using Cons.prems(5) [of j] that by (auto simp: without_def same_key_def)
  qed
  obtain more where more: "res' = res1 @ more" and sq: "squash_result actor s0 pending ks s1 more t"
  proof -
    have "\<exists>new. res' = res1 @ new \<and> squash_result actor s0 pending ks s1 new t"
      by (rule Cons.IH [OF rest _ inv1 Cons.prems(4)])
         (use Cons.prems(2,5) other fr in \<open>auto simp: revs cd_frame_commits subset_iff\<close>)
    then show ?thesis using that by blast
  qed
  have vk: "rv_id v \<notin> rv_id ` set (same_key j pending)" if "j \<in> set ks" for j
    using other [OF that] new by blast
  have vr: "v \<notin> set (same_key j pending)" if "j \<in> set ks" for j using vk [OF that] by blast
  have revt: "db_revisions (cd_db t) = filter (\<lambda>r. \<forall>j \<in> set (k # ks). r \<notin> set (same_key j pending)) (db_revisions (cd_db s)) @ v # more"
    using sq vr by (simp add: squash_result_def revs without_def conj_commute)
  have "distinct (map rv_id (db_revisions (cd_db t)))" by (rule commits_invD(1)) (use sq in \<open>simp add: squash_result_def\<close>)
  then have vm: "rv_id v \<notin> rv_id ` set more" unfolding revt by (simp only: map_append list.map distinct_append distinct.simps) simp
  have cov: "map_of (cd_contributors t) (rv_id v) = Some (squash_contributors s0 ?items)"
    using sq vk vm co by (simp add: squash_result_def)
  have "squash_result actor s0 pending (k # ks) s (v # more) t"
    using sq v(2) cov co' cd_frame_trans [OF fr] revt by (auto simp: squash_result_def)
  then show ?case using more v(1) by auto
qed

end
