(* ===== verification/LogRuns.thy ===== *)
theory LogRuns
  imports CommitLaws Service
begin

text \<open>
  Every command of the service is a run of steps of the log: statements that leave the revisions and the heads of the
  workspaces alone, and recorded revisions. No invariant is needed for this, so it also holds after a squash.
\<close>

abbreviation log_run :: "env \<Rightarrow> db \<Rightarrow> db \<Rightarrow> bool" where
  "log_run env \<equiv> (log_step env)\<^sup>*\<^sup>*"

named_theorems runs \<open>statements and transactions as runs of the log\<close>

lemma log_run_trans: "log_run env s t \<Longrightarrow> log_run env t u \<Longrightarrow> log_run env s u"
  by (rule rtranclp_trans)

lemma data_run: "db_revisions t = db_revisions s \<Longrightarrow> db_workspaces t = db_workspaces s \<Longrightarrow> log_run env s t"
  by (intro r_into_rtranclp log_step.data head_of_cong)

section \<open>Statements\<close>

lemma record_run [runs]: "RecordDocument env c d op from s = Inr (r, t) \<Longrightarrow> log_run env s t"
  unfolding RecordDocument_append by (intro r_into_rtranclp log_step.entry)

lemma record_workspace_run [runs]: "RecordWorkspace env c w op s = Inr t \<Longrightarrow> log_run env s t"
  unfolding RecordWorkspace_append by (auto simp: res_iffs intro: r_into_rtranclp log_step.entry)

lemma batch_run [runs]: "BeginBatch env c ws op actor s = Inr (c1, t) \<Longrightarrow> log_run env' s t"
  using BeginBatch_Inr(2,3) by (intro data_run) auto

lemma fresh_run [runs]: "log_run env s (snd (fresh env s))"
  by (rule data_run) simp_all

lemma update_document_run [runs]:
  "UpdateDocument env now v e f s = Inr (d, t) \<Longrightarrow> d_type v \<in> set DocumentCollections \<Longrightarrow> log_run env' s t"
  by (erule UpdateDocument_Inr) (auto intro: data_run)

lemma insert_document_run [runs]:
  "InsertDocument env now v f s = Inr (d, t) \<Longrightarrow> d_type v \<in> set DocumentCollections \<Longrightarrow> log_run env' s t"
  by (erule InsertDocument_Inr) (auto intro: data_run)

lemma update_facet_run [runs]: "UpdateFacet env now v e s = Inr (d, t) \<Longrightarrow> log_run env' s t"
  by (erule UpdateFacet_Inr) (auto intro: data_run)

lemma insert_facet_run [runs]: "InsertFacet env now v s = Inr (d, t) \<Longrightarrow> log_run env' s t"
  by (auto simp: InsertFacet_def Let_def res_iffs commit_facets_Inr intro!: data_run)

lemma update_fdoc_run [runs]: "UpdateFacetDocument now v e s = Inr (d, t) \<Longrightarrow> log_run env' s t"
  by (erule UpdateFacetDocument_Inr) (auto intro: data_run)

lemma insert_fdoc_run [runs]: "InsertFacetDocument now v s = Inr (d, t) \<Longrightarrow> log_run env' s t"
  by (auto simp: InsertFacetDocument_def res_iffs commit_fdocs_Inr intro!: data_run)

text \<open>Loops.\<close>

lemma fold_run:
  assumes "foldE f xs st = Inr st'" "\<And>x st st'. x \<in> set xs \<Longrightarrow> f x st = Inr st' \<Longrightarrow> log_run env (g st) (g st')"
  shows "log_run env (g st) (g st')"
  using assms(1) by (rule foldE_invariant [where P = "\<lambda>u. log_run env (g st) (g u)"])
    (use assms(2) in \<open>auto intro: log_run_trans\<close>)

lemma record_each_run [runs]: "record_each env c ds s = Inr t \<Longrightarrow> log_run env s t"
  unfolding record_each_def by (erule fold_run [where g = "\<lambda>s. s"]) (auto simp: bindE_Inr_iff intro: runs)

lemma record_updates_run [runs]: "foldE (record_update env c) ds s = Inr t \<Longrightarrow> log_run env s t"
  by (erule fold_run [where g = "\<lambda>s. s"]) (auto simp: record_update_def bindE_Inr_iff intro: runs)

lemma move_table_run: "move_table fs ws fid pid actor now kind st = Inr st' \<Longrightarrow> log_run env (snd st) (snd st')"
  by (cases st; cases st') (auto dest!: move_table_Inr(2) intro: data_run)

lemma move_contents_run [runs]: "MoveFolderContents now ws fid pid actor s = Inr (ds, t) \<Longrightarrow> log_run env s t"
proof -
  assume "MoveFolderContents now ws fid pid actor s = Inr (ds, t)"
  then obtain f :: doc_row and m where "foldE (move_table (dr_scope f) ws fid pid actor now) DocumentCollections ([], s) = Inr (m, t)"
    by (auto simp: MoveFolderContents_def res_iffs split: option.splits)
  then show ?thesis using fold_run [of _ _ "([], s)" "(m, t)" env snd] move_table_run by fastforce
qed

lemma clear_startup_run [runs]: "clear_startup env c ws composition actor s = Inr t \<Longrightarrow> log_run env s t"
proof -
  assume "clear_startup env c ws composition actor s = Inr t"
  then obtain v s1 where cl: "ClearStartupComposition ws composition actor s = Inr (v, s1)"
    and rest: "(case v of None \<Rightarrow> Inr s1 | Some w \<Rightarrow> RecordWorkspace env c w ''update'' s1) = Inr t"
    by (auto simp: clear_startup_def res_iffs)
  have "log_run env s s1"
  proof (cases "s1 = s")
    case False
    then obtain f where s1: "s1 = update_ws ws f s" and f: "\<And>w. w_id (ws_value (f w)) = w_id (ws_value w)"
        "\<And>w. w_headSequence (ws_value (f w)) = w_headSequence (ws_value w)"
      using cl by (auto simp: ClearStartupComposition_def Let_def res_iffs split: option.splits if_splits)
    have "head_of s1 j = head_of s j" for j
      unfolding s1 head_of_def ws_of_update_ws [OF f(1)] by (simp add: option.map_comp comp_def f(2))
    then show ?thesis by (intro r_into_rtranclp log_step.data) (simp_all add: s1 update_ws_def)
  qed simp
  moreover have "log_run env s1 t" using rest by (auto split: option.splits intro: runs)
  ultimately show ?thesis by (rule log_run_trans)
qed

lemma move_folder_out_run [runs]: "move_folder_out env c ws folder pid actor s = Inr (c1, t) \<Longrightarrow> log_run env s t"
proof -
  assume "move_folder_out env c ws folder pid actor s = Inr (c1, t)"
  then obtain s1 ds s2 where "BeginBatch env c (Some ws) ''delete'' actor s = Inr (c1, s1)"
    "MoveFolderContents (cx_now c) ws folder pid actor s1 = Inr (ds, s2)" "record_each env c1 ds s2 = Inr t"
    by (auto simp: move_folder_out_def record_each_def res_iffs)
  then show ?thesis by (meson runs log_run_trans)
qed

section \<open>Commands on documents\<close>

lemma update_record_run:
  "UpdateDocument env now v e f s = Inr (d, s1) \<Longrightarrow> d_type v \<in> set DocumentCollections
   \<Longrightarrow> RecordDocument env c d op from s1 = Inr (r, t) \<Longrightarrow> log_run env s t"
  by (meson runs log_run_trans)

lemma write_move_run:
  assumes "write_move env c p st = Inr st'" "\<forall>nxt f. snd (snd p) = Some (nxt, f) \<longrightarrow> d_type nxt \<in> set DocumentCollections"
  shows "log_run env (snd st) (snd st')"
proof -
  obtain item existing change r0 s0 where pe: "p = (item, existing, change)" "st = (r0, s0)" by (cases p; cases st)
  show ?thesis
  proof (cases change)
    case None
    then show ?thesis using assms pe by auto
  next
    case (Some nf)
    obtain nxt f where nf: "nf = (nxt, f)" by (cases nf)
    from assms Some nf pe obtain updated s1 r s2 where
      up: "UpdateDocument env (cx_now c) nxt (d_revision nxt) f s0 = Inr (updated, s1)"
      and rec: "RecordDocument env c updated ''update'' None s1 = Inr (r, s2)" and st': "snd st' = s2"
      by (auto simp: write_move_def res_iffs)
    have "d_type nxt \<in> set DocumentCollections" using assms(2) pe Some nf by simp
    from update_record_run [OF up this rec] show ?thesis using pe st' by simp
  qed
qed

lemma doc_step_run: "doc_step env s t \<Longrightarrow> log_run env s t"
proof (induction rule: doc_step.induct)
  case (create c collection payload s d t)
  from doc_Create_Inr [OF create] obtain v f created s2 r where
    "InsertDocument env (cx_now c) v f (snd (fresh env s)) = Inr (created, s2)"
    "d_type v \<in> set DocumentCollections" "RecordDocument env c created ''create'' None s2 = Inr (r, t)"
    by (metis documentFromInput_fields(3))
  then show ?case by (meson runs log_run_trans)
next
  case (patch collection c identity payload e s d t)
  show ?case
  proof (rule doc_Patch_Inr [OF patch(2)], goal_cases)
    case (1 patch0 patch' cu u scope existing nxt)
    have "d_type nxt \<in> set DocumentCollections" using GetDocument_fields(1) [OF 1(6) patch(1)] patch(1) 1(10) by simp
    then show ?case using 1(12) update_record_run by auto
  qed
next
  case (delete collection c identity e s d t)
  show ?case
  proof (rule doc_Delete_Inr [OF delete(2)], goal_cases)
    case (1 cu u scope existing nxt)
    have ty: "d_type nxt \<in> set DocumentCollections" using GetDocument_fields(1) [OF 1(3) delete(1)] delete(1) 1(5) by simp
    from 1(6) show ?case
    proof (elim disjE conjE exE)
      fix folderID c1 s1 s2 s3 r
      assume mv: "if collection = CollectionFolders
           then move_folder_out env c (w_id (wa_workspace scope)) (d_id existing) folderID (u_id u) s = Inr (c1, s1)
           else c1 = c \<and> s1 = s"
        and up: "UpdateDocument env (cx_now c) nxt e (documentFolderID collection folderID) s1 = Inr (d, s2)"
        and cl: "if collection = CollectionCompositions
           then clear_startup env c1 (w_id (wa_workspace scope)) (d_id existing) (u_id u) s2 = Inr s3 else s3 = s2"
        and rec: "RecordDocument env c1 d ''delete'' None s3 = Inr (r, t)"
      have "log_run env s s1" "log_run env s2 s3" using mv cl by (auto split: if_splits intro: runs)
      then show ?thesis using up ty rec by (meson runs log_run_trans)
    qed simp
  qed
next
  case (restore collection c identity e s d t)
  show ?case
  proof (rule doc_Restore_Inr [OF restore(2)], goal_cases)
    case (1 cu u scope existing)
    have ty: "d_type existing \<in> set DocumentCollections" using GetDocument_fields(1) [OF 1(3) restore(1)] restore(1) by simp
    from 1(5) show ?case
    proof (elim disjE conjE exE)
      fix folderID nxt s1 r
      assume rf: "resolveRestoreFolders env scope (restored env collection existing (u_id u)) s = Inr (folderID, nxt)"
        and up: "UpdateDocument env (cx_now c) nxt e (documentFolderID collection folderID) s = Inr (d, s1)"
        and rec: "RecordDocument env c d ''restore'' None s1 = Inr (r, t)"
      have "d_type nxt \<in> set DocumentCollections" using resolveRestoreFolders_fields [OF rf] ty by simp
      from update_record_run [OF up this rec] show ?thesis .
    qed simp
  qed
next
  case (move c input s r t)
  show ?case
  proof (rule MoveDocuments_parts [OF move], goal_cases)
    case (1 cu u scope ps)
    show ?case
    proof (cases "list_all unchanged ps")
      case False
      with 1(4) obtain c1 s1 where b: "BeginBatch env c (Some (w_id (wa_workspace scope))) ''move'' (u_id u) s = Inr (c1, s1)"
        and wr: "foldE (write_move env c1) ps (\<lparr>mr_documents = [], mr_moved = 0\<rparr>, s1) = Inr (r, t)" by auto
      have "log_run env (snd (\<lparr>mr_documents = [], mr_moved = 0\<rparr> :: move_result, s1)) (snd (r, t))"
        using wr by (rule fold_run) (use 1(3) in \<open>auto intro: write_move_run\<close>)
      then show ?thesis using log_run_trans [OF batch_run [OF b]] by simp
    qed (use 1(4) in simp)
  qed
qed

section \<open>Commands on facets\<close>

lemma write_facet_run [runs]: "write_facet env c v e op from s = Inr (d, t) \<Longrightarrow> log_run env s t"
  by (auto simp: write_facet_def res_iffs) (meson runs log_run_trans)

lemma write_fdoc_run [runs]: "write_fdoc env c v e op from s = Inr (d, t) \<Longrightarrow> log_run env s t"
  by (auto simp: write_fdoc_def res_iffs) (meson runs log_run_trans)

lemma reorder_step_run: "reorder_step now ws actor current x st = Inr st' \<Longrightarrow> log_run env (snd st) (snd st')"
  by (cases st; cases st'; cases x)
     (auto simp: reorder_step_def Let_def res_iffs commit_facets_Inr split: option.splits if_splits intro!: data_run)

lemma reorder_run [runs]: "ReorderFacets now ws order actor s = Inr (ds, t) \<Longrightarrow> log_run env s t"
proof -
  assume ro: "ReorderFacets now ws order actor s = Inr (ds, t)"
  let ?current = "by_position (filter (\<lambda>r. fr_ws r = ws) (active_facets (db_facets s)))"
  have "t = s \<or> (\<exists>s1. db_revisions s1 = db_revisions s \<and> db_workspaces s1 = db_workspaces s
      \<and> foldE (reorder_step now ws actor ?current) (zip [0..<length order] order) ([], s1) = Inr (ds, t))"
    using ro
    by (auto simp: ReorderFacets_def Let_def res_iffs commit_facets_Inr split: if_splits
        intro!: exI [of _ "s\<lparr>db_facets := updateWhere (\<lambda>r. fr_ws r = ws \<and> fr_deletedAt r = None)
          (\<lambda>r. r\<lparr>fr_position := fr_position r + reorder_offset\<rparr>) (db_facets s)\<rparr>"])
  then show ?thesis
  proof (elim disjE exE conjE)
    fix s1 assume 2: "db_revisions s1 = db_revisions s" "db_workspaces s1 = db_workspaces s"
      "foldE (reorder_step now ws actor ?current) (zip [0..<length order] order) ([], s1) = Inr (ds, t)"
    have "log_run env (snd ([] :: document list, s1)) (snd (ds, t))"
      using 2(3) by (rule fold_run) (rule reorder_step_run)
    then show ?thesis using log_run_trans [OF data_run [OF 2(1,2)]] by simp
  qed simp
qed

lemma service_step_run: "service_step env s t \<Longrightarrow> log_run env s t"
proof (induction rule: service_step.induct)
  case (facet_create c input s d t)
  then show ?case unfolding facet_Create_def Let_def
    by (auto simp: res_iffs split_def) (meson runs log_run_trans)
next
  case (fdoc_create c facet input s d t)
  then show ?case unfolding fdoc_Create_def Let_def
    by (auto simp: res_iffs split_def) (meson runs log_run_trans)
next
  case (facet_reorder c order s ds t)
  from facet_reorder obtain cu and u :: user and scope :: workspace_access and items changed s1 c1 s2 where
    "trim_order [] order = Inr items"
    and ro: "ReorderFacets (cx_now c) (w_id (wa_workspace scope)) items (u_id u) s = Inr (changed, s1)"
    and b: "(if changed = [] then Inr (c, s1) else BeginBatch env c (Some (w_id (wa_workspace scope))) ''update'' (u_id u) s1) = Inr (c1, s2)"
    and rec: "foldE (record_update env c1) changed s2 = Inr t"
    and "ds = ListFacets (w_id (wa_workspace scope)) False t"
    unfolding facet_Reorder_def Let_def by (auto simp: res_iffs)
  have "log_run env s1 s2" using b by (auto split: if_splits intro: runs)
  then show ?case using ro rec by (meson runs log_run_trans)
next
  case (fdoc_patch c facet identity p e s d t)
  then show ?case using fdoc_Patch_cases by (blast intro: runs)
next
  case (fdoc_delete c facet identity e s d t)
  then show ?case using fdoc_Delete_cases by (blast intro: runs)
next
  case (fdoc_restore c facet identity e s d t)
  then show ?case using fdoc_Restore_cases by (blast intro: runs)
next
  case (fdoc_restore_revision c facet identity rid e s d t)
  then show ?case using fdoc_RestoreRevision_cases by (blast intro: runs)
next
  case (facet_patch c identity p e s d t)
  then show ?case unfolding facet_Patch_def Let_def by (auto simp: res_iffs split: if_splits intro: runs)
next
  case (facet_delete c identity e s d t)
  then show ?case unfolding facet_Delete_def Let_def by (auto simp: res_iffs split: if_splits intro: runs)
next
  case (facet_restore c identity e s d t)
  then show ?case unfolding facet_Restore_def Let_def by (auto simp: res_iffs split: if_splits intro: runs)
next
  case (facet_restore_revision c identity rid e s d t)
  then show ?case unfolding facet_RestoreRevision_def Let_def by (auto simp: res_iffs intro: runs)
qed (rule doc_step_run)

end
