(* ===== verification/CommitService.thy ===== *)
theory CommitService
  imports SquashLaws LogRuns
begin

text \<open>
  Creating commits between the commands of the service: the invariant, what a commit leaves behind, and the plan that
  announces it.
\<close>

section \<open>Documents of a list of revisions\<close>

lemma first_keys_set [simp]: "set (first_keys rs) = rev_key ` set rs"
  by (auto simp: first_keys_def)

lemma first_keys_distinct [simp]: "distinct (first_keys rs)"
  by (simp add: first_keys_def)

lemma same_key_iff [simp]: "r \<in> set (same_key k rs) \<longleftrightarrow> r \<in> set rs \<and> rev_key r = k"
  by (auto simp: same_key_def)

lemma same_key_nonempty: "k \<in> rev_key ` set rs \<Longrightarrow> same_key k rs \<noteq> []"
  by (auto simp: same_key_def filter_empty_conv)

lemma change_of_key:
  assumes "k \<in> rev_key ` set rs"
  shows "cc_type (change_of (same_key k rs)) @ '':'' @ cc_docID (change_of (same_key k rs)) = k"
proof -
  have "last (same_key k rs) \<in> set (same_key k rs)" by (rule last_in_set [OF same_key_nonempty [OF assms]])
  then show ?thesis by (simp add: change_of_def rev_key_def)
qed

lemma commit_changes_distinct: "distinct (map (\<lambda>c. (cc_type c, cc_docID c)) (commit_changes rs))"
proof -
  have "inj_on (\<lambda>k. (cc_type (change_of (same_key k rs)), cc_docID (change_of (same_key k rs)))) (set (first_keys rs))"
  proof (rule inj_onI)
    fix k j assume k: "k \<in> set (first_keys rs)" "j \<in> set (first_keys rs)"
      and eq: "(cc_type (change_of (same_key k rs)), cc_docID (change_of (same_key k rs)))
             = (cc_type (change_of (same_key j rs)), cc_docID (change_of (same_key j rs)))"
    show "k = j" using change_of_key [of k rs] change_of_key [of j rs] k eq by (metis Pair_inject first_keys_set)
  qed
  then show ?thesis by (simp add: commit_changes_def comp_def distinct_map)
qed

lemma sorted_last_hd:
  assumes "sorted (map f xs)" "x \<in> set xs"
  shows "f (hd xs) \<le> f x" "f x \<le> f (last xs)"
  using assms by (induction xs) auto

lemma pending_sorted: "sorted (map seq_of (same_key k (PendingRevisions ws base s)))"
  unfolding same_key_def PendingRevisions_def by (intro sorted_filter sorted_sort_key)

lemma pending_set: "set (PendingRevisions ws base s) = {r \<in> set (db_revisions (cd_db s)). is_pending s ws base r}"
  by (auto simp: PendingRevisions_def)

lemma pending_distinct: "commits_inv s \<Longrightarrow> distinct (map rv_id (PendingRevisions ws base s))"
  by (drule commits_invD(1)) (simp add: PendingRevisions_def distinct_map inj_on_def)

section \<open>Creating the commit\<close>

lemma insert_changes_Inr:
  "foldE (insert_change k) cs s = Inr t \<Longrightarrow> t = s\<lparr>cd_changes := cd_changes s @ map (\<lambda>c. (k, c)) cs\<rparr>"
proof (induction cs arbitrary: s)
  case (Cons c cs)
  from Cons.prems have "foldE (insert_change k) cs (s\<lparr>cd_changes := cd_changes s @ [(k, c)]\<rparr>) = Inr t"
    by (auto simp: insert_change_def [of k c s] res_iffs)
  from Cons.IH [OF this] show ?case by simp
qed simp

lemma find_new: "(\<And>x. x \<in> set xs \<Longrightarrow> \<not> p x) \<Longrightarrow> find p (xs @ [y]) = (if p y then Some y else None)"
  by (induction xs) auto

lemma CreateCommit_Inr:
  assumes "CreateCommit version v cs s = Inr ((c, chs), t)" and inv: "commits_inv s"
  shows "\<exists>dv. version (cm_ws v) (cm_head v) s = Inr dv \<and> c = v\<lparr>cm_domainVersion := dv\<rparr>"
    "cd_db t = cd_db s" "cd_commits t = cd_commits s @ [c]" "cd_committed t = cd_committed s" "cd_contributors t = cd_contributors s"
    "cd_changes t = cd_changes s @ map (\<lambda>d. (cm_id c, d)) cs"
    "chs = sort_key (\<lambda>d. (cc_type d, cc_identity d, cc_docID d)) (map (joined_change t) cs)"
    "cm_id c \<notin> cm_id ` set (cd_commits s)"
proof -
  from assms(1) obtain dv s1 where dv: "version (cm_ws v) (cm_head v) s = Inr dv"
    and ins: "insert_commit (v\<lparr>cm_domainVersion := dv\<rparr>) s = Inr s1"
    and ch: "foldE (insert_change (cm_id v)) cs (insert_integrations (cm_id v) (cm_ws v) s1) = Inr t"
    and get: "GetCommit (cm_ws v) (cm_id v) t = Inr (c, chs)"
    by (auto simp: CreateCommit_def bindE_Inr_iff)
  from ins have new: "cm_id v \<notin> cm_id ` set (cd_commits s)"
    and s1: "s1 = s\<lparr>cd_commits := cd_commits s @ [v\<lparr>cm_domainVersion := dv\<rparr>]\<rparr>"
    by (auto simp: insert_commit_def failIf_Inr_iff)
  have t: "t = (insert_integrations (cm_id v) (cm_ws v) s1)\<lparr>cd_changes := cd_changes s @ map (\<lambda>d. (cm_id v, d)) cs\<rparr>"
    using insert_changes_Inr [OF ch] by (simp add: insert_integrations_def s1)
  have "find (\<lambda>d. cm_id d = cm_id v) (commits_of t (cm_ws v)) = Some (v\<lparr>cm_domainVersion := dv\<rparr>)"
  proof -
    have "find (\<lambda>d. cm_id d = cm_id v) (commits_of s (cm_ws v) @ [v\<lparr>cm_domainVersion := dv\<rparr>]) = Some (v\<lparr>cm_domainVersion := dv\<rparr>)"
      by (subst find_new) (use new in \<open>auto simp: commits_of_def image_iff\<close>)
    then show ?thesis by (simp add: t s1 insert_integrations_def commits_of_def)
  qed
  then have c: "c = v\<lparr>cm_domainVersion := dv\<rparr>" and chs: "chs = changes_of t (cm_id v)" using get by (auto simp: GetCommit_def)
  show "\<exists>dv. version (cm_ws v) (cm_head v) s = Inr dv \<and> c = v\<lparr>cm_domainVersion := dv\<rparr>" using dv c by blast
  show "cd_db t = cd_db s" "cd_commits t = cd_commits s @ [c]" "cd_committed t = cd_committed s" "cd_contributors t = cd_contributors s"
    "cd_changes t = cd_changes s @ map (\<lambda>d. (cm_id c, d)) cs" "cm_id c \<notin> cm_id ` set (cd_commits s)"
    using new by (simp_all add: t s1 c insert_integrations_def)
  have "filter (\<lambda>p. fst p = cm_id v) (cd_changes s) = []"
    using commits_invD(7) [OF inv] new by (auto simp: filter_empty_conv)
  then show "chs = sort_key (\<lambda>d. (cc_type d, cc_identity d, cc_docID d)) (map (joined_change t) cs)"
    by (simp add: chs changes_of_def t insert_integrations_def s1 comp_def)
qed

lemma map_of_const: "map_of (map (\<lambda>i. (i, k)) xs) i = (if i \<in> set xs then Some k else None)"
  by (induction xs) auto

lemma attach_Inr:
  assumes "AttachRevisionsToCommit k (map rv_id selected) s = Inr t" "distinct (map rv_id (db_revisions (cd_db s)))"
    "set selected \<subseteq> set (db_revisions (cd_db s))"
  shows "cd_db t = cd_db s" "cd_commits t = cd_commits s" "cd_changes t = cd_changes s" "cd_contributors t = cd_contributors s"
    "r \<in> set (db_revisions (cd_db s)) \<Longrightarrow> committed_in t r = (if r \<in> set selected then Some k else committed_in s r)"
    "fst ` set (cd_committed t) \<subseteq> fst ` set (cd_committed s) \<union> rv_id ` set (db_revisions (cd_db s))"
    "snd ` set (cd_committed t) \<subseteq> insert k (snd ` set (cd_committed s))"
proof -
  let ?hit = "map rv_id (filter (\<lambda>r. rv_id r \<in> rv_id ` set selected) (db_revisions (cd_db s)))"
  have t: "t = (if selected = [] then s else s\<lparr>cd_committed := map (\<lambda>i. (i, k)) ?hit @ cd_committed s\<rparr>)"
    using assms(1) by (auto simp: AttachRevisionsToCommit_def Let_def failIf_Inr_iff split: if_splits)
  then show "cd_db t = cd_db s" "cd_commits t = cd_commits s" "cd_changes t = cd_changes s" "cd_contributors t = cd_contributors s"
    by auto
  show "fst ` set (cd_committed t) \<subseteq> fst ` set (cd_committed s) \<union> rv_id ` set (db_revisions (cd_db s))"
    "snd ` set (cd_committed t) \<subseteq> insert k (snd ` set (cd_committed s))" by (simp_all add: t) force+
  assume r: "r \<in> set (db_revisions (cd_db s))"
  have "rv_id r \<in> rv_id ` set selected \<longleftrightarrow> r \<in> set selected"
    using distinct_ids_inj [OF assms(2)] r assms(3) by blast
  moreover have "map_of (map (\<lambda>i. (i, k)) ?hit) (rv_id r) = (if rv_id r \<in> rv_id ` set selected then Some k else None)"
    unfolding map_of_const using r by auto
  ultimately show "committed_in t r = (if r \<in> set selected then Some k else committed_in s r)"
    by (auto simp: t committed_in_def map_add_def split: option.splits)
qed

text \<open>A commit of all pending revisions up to the head of the workspace.\<close>

lemma commit_keeps_inv:
  assumes inv: "commits_inv s" and latest: "LatestCommit ws s = Inr latest" and head: "head_of (cd_db s) ws = Some h"
    and sel: "set selected = set (PendingRevisions ws (cm_head latest) s)" "selected \<noteq> []"
    and v: "cm_ws v = ws" "cm_parent v = Some (cm_id latest)" "cm_base v = cm_head latest" "cm_head v = h"
    and cr: "CreateCommit version v cs s = Inr ((c, chs), s1)"
    and at: "AttachRevisionsToCommit (cm_id c) (map rv_id selected) s1 = Inr t"
  shows "commits_inv t" "PendingRevisions ws h t = []" "LatestCommit ws t = Inr c"
    "\<And>r. r \<in> set (db_revisions (cd_db s)) \<Longrightarrow> committed_in t r = (if r \<in> set selected then Some (cm_id c) else committed_in s r)"
    "\<And>r. r \<in> set (db_revisions (cd_db s)) \<Longrightarrow> committed_in s r \<noteq> Some (cm_id c)" "cd_db t = cd_db s"
proof -
  note cc = CreateCommit_Inr [OF cr inv]
  have c: "cm_ws c = ws" "cm_parent c = Some (cm_id latest)" "cm_base c = cm_head latest" "cm_head c = h"
    using cc(1) v by auto
  let ?rs = "db_revisions (cd_db s)"
  have selp: "set selected = {r \<in> set ?rs. is_pending s ws (cm_head latest) r}" using sel(1) pending_set by simp
  have sub: "set selected \<subseteq> set (db_revisions (cd_db s1))" using selp cc(2) by auto
  note aa = attach_Inr [OF at _ sub, unfolded cc(2), OF commits_invD(1) [OF inv]]
  have committed1: "committed_in s1 = committed_in s" by (simp add: committed_in_def cc(4) fun_eq_iff)
  show com: "committed_in t r = (if r \<in> set selected then Some (cm_id c) else committed_in s r)" if "r \<in> set ?rs" for r
    using aa(5) [OF that] committed1 by simp
  show old: "committed_in s r \<noteq> Some (cm_id c)" if "r \<in> set ?rs" for r
  proof
    assume "committed_in s r = Some (cm_id c)"
    then have "cm_id c \<in> snd ` set (cd_committed s)" by (force simp: committed_in_def dest: map_of_SomeD)
    then show False using commits_invD(6) [OF inv] cc(8) by auto
  qed
  show db: "cd_db t = cd_db s" using aa(1) by simp
  have cof: "commits_of t j = commits_of s j @ (if j = ws then [c] else [])" for j
    by (simp add: commits_of_def aa(2) cc(3) c(1))
  note lb = latest_bounds [OF commits_invD(4) [OF inv] latest]
  have num: "n \<le> h" if "r \<in> set ?rs" "rv_ws r = ws" "rv_seq r = Some n" for r n
    using log_numberedD(1) [OF commits_invD(3) [OF inv] that(1,2,3) head] .
  have sel_iff: "r \<in> set selected \<longleftrightarrow> (\<exists>n. rv_seq r = Some n \<and> cm_head latest < n)" if "r \<in> set ?rs" "rv_ws r = ws" for r
    using pending_after [OF inv latest that] that(1) selp by simp
  obtain p where p: "p \<in> set selected" using sel(2) by (cases selected) auto
  then have pw: "p \<in> set ?rs" "rv_ws p = ws" using selp by (auto simp: is_pending_def)
  then have lt: "cm_head latest < h" using sel_iff [OF pw] p num [OF pw] by force
  have ch: "commits_chained t j" for j
  proof -
    have o: "commits_chained s j" by (rule commits_invD(4) [OF inv])
    show ?thesis
    proof (cases "j = ws")
      case True
      then show ?thesis using o lb c lt head by (auto simp: commits_chained_def cof db chained_snoc)
    qed (use o in \<open>simp add: commits_chained_def cof db\<close>)
  qed
  have att: "log_attached t j" for j
    unfolding log_attached_def db
  proof (intro ballI impI)
    fix r assume r: "r \<in> set ?rs" "rv_ws r = j"
    note o = log_attachedD [OF commits_invD(5) [OF inv] r]
    show "(\<forall>d \<in> set (commits_of t j). in_range d r \<longrightarrow> committed_in t r = Some (cm_id d))
        \<and> (after_all (commits_of t j) r \<longrightarrow> committed_in t r = None)"
    proof (cases "j = ws")
      case False
      then have "r \<notin> set selected" using selp r(2) by (auto simp: is_pending_def)
      then show ?thesis using o com [OF r(1)] False cof by auto
    next
      case True
      have ns: "r \<notin> set selected" if "d \<in> set (commits_of s ws)" "in_range d r" for d
        using selp o(1) [OF _ that(2)] that(1) True by (auto simp: is_pending_def)
      have "r \<in> set selected" if "in_range c r"
        using that c sel_iff [OF r(1)] r(2) True by (auto simp: in_range_def split: option.splits)
      moreover have "\<not> after_all (commits_of t ws) r"
        using num [OF r(1)] r(2) True c(4) by (auto simp: after_all_def cof split: option.splits)
      ultimately show ?thesis using o ns com [OF r(1)] True cof by auto
    qed
  qed
  have "fst ` set (cd_committed t) \<subseteq> rv_id ` set ?rs" "snd ` set (cd_committed t) \<subseteq> cm_id ` set (cd_commits t)"
    using aa(6,7) commits_invD(2,6) [OF inv] unfolding aa(2) cc(3,4) by (simp_all, blast+)
  moreover have "fst ` set (cd_changes t) \<subseteq> cm_id ` set (cd_commits t)"
    using commits_invD(7) [OF inv] by (auto simp: aa(2,3) cc(3,6))
  ultimately show inv': "commits_inv t"
    unfolding commits_inv_def db by (intro conjI allI commits_invD(1,3) [OF inv] ch att)
  have lc: "LatestCommit ws t = Inr c"
    using LatestCommit_last [of t ws] commits_invD(4) [OF inv', of ws] by (simp add: commits_chained_def cof)
  then show "LatestCommit ws t = Inr c" .
  have "\<not> is_pending t ws h r" if "r \<in> set ?rs" for r
    using num [OF that] by (auto simp: is_pending_def split: option.splits)
  then have "set (PendingRevisions ws h t) = {}" using pending_set [of ws h t] db by auto
  then show "PendingRevisions ws h t = []" by simp
qed

section \<open>Selecting the revisions\<close>

lemma pending_data: "db_revisions d = db_revisions (cd_db s) \<Longrightarrow> PendingRevisions ws b (s\<lparr>cd_db := d\<rparr>) = PendingRevisions ws b s"
proof -
  assume d: "db_revisions d = db_revisions (cd_db s)"
  have "is_pending (s\<lparr>cd_db := d\<rparr>) = is_pending s" by (simp add: is_pending_def committed_in_def fun_eq_iff)
  then show ?thesis by (simp add: PendingRevisions_def d)
qed

lemma latest_data [simp]: "LatestCommit ws (s\<lparr>cd_db := d\<rparr>) = LatestCommit ws s"
  by (simp add: LatestCommit_def commits_of_def)

lemma data_inv:
  assumes "commits_inv s" "db_revisions d = db_revisions (cd_db s)" "db_workspaces d = db_workspaces (cd_db s)"
  shows "commits_inv (s\<lparr>cd_db := d\<rparr>)"
  by (rule log_run_inv [OF data_run [OF assms(2,3)] refl assms(1)])

lemma CreateMutationBatch_Inr:
  "CreateMutationBatch env c ws op actor s = Inr (i, t) \<Longrightarrow> db_revisions t = db_revisions s \<and> db_workspaces t = db_workspaces s"
  by (auto simp: CreateMutationBatch_def fresh_def res_iffs)

lemma SquashPending_Inr:
  assumes "SquashPending env ws base actor batch s = Inr (new, t)" and inv: "commits_inv s"
  shows "squash_result actor s (PendingRevisions ws base s) (sort (remdups (map rev_key (PendingRevisions ws base s)))) s new t"
proof -
  let ?p = "PendingRevisions ws base s"
  have fo: "foldE (squash_group env ws base actor batch s ?p) (sort (remdups (map rev_key ?p))) ([], s) = Inr (new, t)"
    using assms(1) by (simp add: SquashPending_def Let_def)
  have k: "same_key k ?p \<noteq> [] \<and> set (same_key k ?p) \<subseteq> set (db_revisions (cd_db s)) \<and> (\<forall>r \<in> set (same_key k ?p). committed_in s r = None)"
    if "k \<in> set (sort (remdups (map rev_key ?p)))" for k
    using that same_key_nonempty [of k ?p] by (auto simp: pending_set is_pending_def)
  have "\<exists>new'. new = [] @ new' \<and> squash_result actor s ?p (sort (remdups (map rev_key ?p))) s new' t"
    by (rule squash_fold [OF fo _ inv pending_distinct [OF inv]]) (use k in auto)
  then show ?thesis by simp
qed

text \<open>The squashed revisions are what is pending afterwards, one for every document.\<close>

lemma squash_keys: "list_all2 (\<lambda>k v. squash_of actor (last (same_key k p)) v \<and> Q k v) ks new \<Longrightarrow> set ks \<subseteq> rev_key ` set p
   \<Longrightarrow> map rev_key new = ks"
proof (induction ks new rule: list_all2_induct)
  case (Cons k ks v new)
  have "last (same_key k p) \<in> set (same_key k p)" using Cons.prems by (intro last_in_set same_key_nonempty) auto
  then have "rev_key v = k" using Cons(1) by (auto simp: squash_of_def rev_key_def)
  then show ?case using Cons by auto
qed simp

lemma list_all2_right: "list_all2 P ks xs \<Longrightarrow> v \<in> set xs \<Longrightarrow> \<exists>k \<in> set ks. P k v"
  by (induction rule: list_all2_induct) auto

lemma squash_pending:
  assumes sq: "squash_result actor s (PendingRevisions ws base s) (sort (remdups (map rev_key (PendingRevisions ws base s)))) s new t"
    and latest: "LatestCommit ws s = Inr c" "base = cm_head c"
  shows "set new = set (PendingRevisions ws base t)" "map rev_key new = sort (remdups (map rev_key (PendingRevisions ws base s)))"
proof -
  let ?p = "PendingRevisions ws base s"
  have inv: "commits_inv t" and fr: "cd_frame s t" and revs: "db_revisions (cd_db t)
      = filter (\<lambda>r. \<forall>k \<in> set (sort (remdups (map rev_key ?p))). r \<notin> set (same_key k ?p)) (db_revisions (cd_db s)) @ new"
    and l2: "list_all2 (\<lambda>k v. squash_of actor (last (same_key k ?p)) v
          \<and> map_of (cd_contributors t) (rv_id v) = Some (squash_contributors s (same_key k ?p))) (sort (remdups (map rev_key ?p))) new"
    using sq by (simp_all add: squash_result_def)
  show keys: "map rev_key new = sort (remdups (map rev_key ?p))" by (rule squash_keys [OF l2]) auto
  have latest': "LatestCommit ws t = Inr c" using latest(1) cd_frame_commits(1) [OF fr] by (simp add: LatestCommit_def)
  have "is_pending t ws base v" if v: "v \<in> set new" for v
  proof -
    obtain k where k: "k \<in> rev_key ` set ?p" "squash_of actor (last (same_key k ?p)) v"
      using list_all2_right [OF l2 v] by auto
    have "last (same_key k ?p) \<in> set ?p" using last_in_set [OF same_key_nonempty [OF k(1)]] by simp
    then have "rv_ws v = ws \<and> (\<exists>n. rv_seq v = Some n \<and> base < n)"
      using k(2) by (auto simp: pending_set is_pending_def squash_of_def split: option.splits)
    then show ?thesis using pending_after [OF inv latest', of v] v revs latest(2) by auto
  qed
  moreover have "\<not> is_pending t ws base r" if "r \<in> set (db_revisions (cd_db s))" "\<forall>k \<in> rev_key ` set ?p. r \<notin> set (same_key k ?p)" for r
    using that cd_frame_commits(2) [OF fr] by (auto simp: pending_set is_pending_def)
  ultimately show "set new = set (PendingRevisions ws base t)" unfolding pending_set revs by auto
qed

section \<open>The use case\<close>

definition in_sync :: "ctx \<Rightarrow> commit_db \<Rightarrow> bool" where
  "in_sync c s \<longleftrightarrow> (\<exists>scope. ctx_Access c = Inr scope
     \<and> head_of (cd_db s) (w_id (wa_workspace scope)) = Some (w_headSequence (wa_workspace scope)))"

lemma commit_check_Inr:
  assumes "commit_check c policy expected s = Inr p"
  shows "\<exists>scope. ctx_Access c = Inr scope \<and> cp_ws p = wa_workspace scope" "expected = w_headSequence (cp_ws p)"
    "LatestCommit (w_id (cp_ws p)) s = Inr (cp_latest p)"
    "cp_pending p = PendingRevisions (w_id (cp_ws p)) (cm_head (cp_latest p)) s" "cp_pending p \<noteq> []"
    "cp_policy p = (if policy = [] then RevisionPolicyPreserve else policy)"
    "cp_policy p \<in> {RevisionPolicyPreserve, RevisionPolicySquash}"
  using assms by (auto simp: commit_check_def Let_def res_iffs CommitContext_Inr_iff WriteContext_Inr_iff split: if_splits)

lemma commit_selected_Inr:
  assumes "commit_selected env c p s = Inr (selected, s1)" and inv: "commits_inv s"
    and p: "LatestCommit (w_id (cp_ws p)) s = Inr (cp_latest p)"
      "cp_pending p = PendingRevisions (w_id (cp_ws p)) (cm_head (cp_latest p)) s" "cp_pending p \<noteq> []"
  shows "commits_inv s1" "LatestCommit (w_id (cp_ws p)) s1 = Inr (cp_latest p)" "head_of (cd_db s1) = head_of (cd_db s)"
    "set selected = set (PendingRevisions (w_id (cp_ws p)) (cm_head (cp_latest p)) s1)" "selected \<noteq> []"
    "rev_key ` set selected = rev_key ` set (cp_pending p)"
    "\<And>q. q \<in> set selected \<Longrightarrow> seq_of q \<le> seq_of (last (same_key (rev_key q) selected))"
    "cp_policy p \<noteq> RevisionPolicySquash \<Longrightarrow> selected = cp_pending p \<and> s1 = s"
proof -
  let ?ws = "w_id (cp_ws p)" and ?b = "cm_head (cp_latest p)"
  have "commits_inv s1 \<and> LatestCommit ?ws s1 = Inr (cp_latest p) \<and> head_of (cd_db s1) = head_of (cd_db s)
    \<and> set selected = set (PendingRevisions ?ws ?b s1) \<and> selected \<noteq> [] \<and> rev_key ` set selected = rev_key ` set (cp_pending p)
    \<and> (\<forall>q \<in> set selected. seq_of q \<le> seq_of (last (same_key (rev_key q) selected)))
    \<and> (cp_policy p \<noteq> RevisionPolicySquash \<longrightarrow> selected = cp_pending p \<and> s1 = s)"
  proof (cases "cp_policy p = RevisionPolicySquash")
    case False
    then have "selected = PendingRevisions ?ws ?b s" "s1 = s" using assms(1) p(2) by (auto simp: commit_selected_def)
    moreover have "seq_of q \<le> seq_of (last (same_key (rev_key q) (PendingRevisions ?ws ?b s)))"
      if "q \<in> set (PendingRevisions ?ws ?b s)" for q
      using sorted_last_hd(2) [OF pending_sorted, of q] that by simp
    ultimately show ?thesis using inv p by simp
  next
    case True
    then obtain batch d where b: "CreateMutationBatch env c (Some ?ws) ''commit_squash'' (u_id (cp_user p)) (cd_db s) = Inr (batch, d)"
      and sp: "SquashPending env ?ws ?b (u_id (cp_user p)) batch (s\<lparr>cd_db := d\<rparr>) = Inr (selected, s1)"
      using assms(1) by (auto simp: commit_selected_def bindE_Inr_iff)
    have d: "db_revisions d = db_revisions (cd_db s)" "db_workspaces d = db_workspaces (cd_db s)"
      using CreateMutationBatch_Inr [OF b] by simp_all
    have sq: "squash_result (u_id (cp_user p)) (s\<lparr>cd_db := d\<rparr>) (cp_pending p) (sort (remdups (map rev_key (cp_pending p))))
        (s\<lparr>cd_db := d\<rparr>) selected s1"
      using SquashPending_Inr [OF sp data_inv [OF inv d]] by (simp add: pending_data [OF d(1)] p(2))
    then have i1: "commits_inv s1" and fr: "cd_frame (s\<lparr>cd_db := d\<rparr>) s1" by (simp_all add: squash_result_def)
    have ps: "set selected = set (PendingRevisions ?ws ?b s1)" "map rev_key selected = sort (remdups (map rev_key (cp_pending p)))"
      using squash_pending [of "u_id (cp_user p)" "s\<lparr>cd_db := d\<rparr>" ?ws ?b selected s1 "cp_latest p"] sq p(1)
      by (simp_all add: pending_data [OF d(1)] p(2))
    have keys: "rev_key ` set selected = rev_key ` set (cp_pending p)" using arg_cong [OF ps(2), of set] by simp
    have one: "q = v" if "q \<in> set selected" "v \<in> set selected" "rev_key q = rev_key v" for q v
    proof -
      have "distinct (map rev_key selected)" unfolding ps(2) by simp
      then show ?thesis using that by (rule distinct_ids_inj)
    qed
    have "seq_of q \<le> seq_of (last (same_key (rev_key q) selected))" if "q \<in> set selected" for q
    proof -
      have "last (same_key (rev_key q) selected) \<in> set (same_key (rev_key q) selected)"
        using that by (intro last_in_set same_key_nonempty) simp
      then have "last (same_key (rev_key q) selected) = q" using one [of "last (same_key (rev_key q) selected)" q] that by simp
      then show ?thesis by simp
    qed
    moreover have "LatestCommit ?ws s1 = Inr (cp_latest p)"
      using cd_frame_commits(1) [OF fr] p(1) by (simp add: LatestCommit_def commits_of_def)
    moreover have "head_of (cd_db s1) = head_of (cd_db s)"
      using cd_frame_head [OF fr] d(2) by (simp add: head_of_def ws_of_def fun_eq_iff)
    moreover have "selected \<noteq> []" using keys p(3) by auto
    ultimately show ?thesis using i1 ps(1) keys True by simp
  qed
  then show "commits_inv s1" "LatestCommit ?ws s1 = Inr (cp_latest p)" "head_of (cd_db s1) = head_of (cd_db s)"
    "set selected = set (PendingRevisions ?ws ?b s1)" "selected \<noteq> []" "rev_key ` set selected = rev_key ` set (cp_pending p)"
    "\<And>q. q \<in> set selected \<Longrightarrow> seq_of q \<le> seq_of (last (same_key (rev_key q) selected))"
    "cp_policy p \<noteq> RevisionPolicySquash \<Longrightarrow> selected = cp_pending p \<and> s1 = s" by blast+
qed

end
