(* ===== verification/Portable.thy ===== *)
theory Portable
  imports DomainVersion Facets
begin

text \<open>
  The portable documents of a workspace: \<open>internal/usecase/workspace_state/support.go\<close>. An item of a collection is a map
  decoded without \<open>UseNumber\<close>. The functions this package copies from usecase/documents (\<open>stringField\<close>,
  \<open>optionalString\<close>, \<open>defaultString\<close>, \<open>defaultBool\<close>, \<open>jsonField\<close>, \<open>validateIdentity\<close>) are those of theory
  DocContract; its \<open>commitChanges\<close> is \<open>commit_changes\<close> of theory Commits.
\<close>

section \<open>Fields\<close>

definition ps_Collections :: "string list" where
  "ps_Collections = DocumentCollections @ FacetCollections"

definition UnsupportedCollections :: "string list" where
  "UnsupportedCollections = [''legacyComponents'', ''componentsDSL'', ''componentsTable'', ''versions'', ''pages'', ''pageTemplates'',
     ''page-templates'', ''policies'']"

definition ps_readOnlyFields :: "string list" where
  "ps_readOnlyFields = [''id'', ''type'', ''revision'', ''author'', ''createdBy'', ''updatedBy'', ''createdAt'', ''updatedAt'',
     ''deletedAt'', ''created_by'', ''updated_by'', ''state'']"

definition boolField :: "jobj \<Rightarrow> string \<Rightarrow> bool" where
  "boolField input key = orElse (as_bool (oget input key)) False"

definition numberField :: "jobj \<Rightarrow> string \<Rightarrow> int \<times> bool" where
  "numberField input key = (case oget input key of
      Some (JFloat l) \<Rightarrow> float_int l
    | Some (JInt i) \<Rightarrow> (i, True)
    | Some (JNumber l) \<Rightarrow> parse_int64 l
    | _ \<Rightarrow> (0, False))"

definition integerField :: "jobj \<Rightarrow> string \<Rightarrow> int" where
  "integerField input key = fst (numberField input key)"

definition portableDocumentDeleted :: "jobj \<Rightarrow> bool" where
  "portableDocumentDeleted input = boolField input ''deleted''"

definition portableDocumentKey :: "string \<Rightarrow> jobj \<Rightarrow> string" where
  "portableDocumentKey kind input =
     (if kind = CollectionFacetDocuments then stringField input ''facetIdentity'' @ CHR 0x00 # stringField input ''identity''
      else stringField input ''identity'')"

definition storedDocumentKey :: "(string \<Rightarrow> string) \<Rightarrow> document \<Rightarrow> string" where
  "storedDocumentKey nf d =
     (if d_type d = CollectionFacetDocuments then stringField (ounmarshal nf (d_data d)) ''facetIdentity'' @ CHR 0x00 # d_identity d
      else d_identity d)"

definition replaceDocumentDataField :: "(string \<Rightarrow> string) \<Rightarrow> document \<Rightarrow> string \<Rightarrow> json \<Rightarrow> document" where
  "replaceDocumentDataField nf d key v = d\<lparr>d_data := omarshal (oput key v (ounmarshal nf (d_data d)))\<rparr>"

definition facetPosition :: "(string \<Rightarrow> string) \<Rightarrow> document \<Rightarrow> int" where
  "facetPosition nf d = integerField (ounmarshal nf (d_data d)) ''position''"

section \<open>Validation\<close>

definition validate_deleted :: "string \<Rightarrow> jobj \<Rightarrow> unit res" where
  "validate_deleted kind input = (case oget input ''deleted'' of
      None \<Rightarrow> Inr ()
    | Some v \<Rightarrow> failIf (as_bool (Some v) = None) (InvalidInput ''document_deleted_invalid'') (
        failIf (kind \<notin> set FacetCollections) (InvalidInput ''document_deleted_unsupported'') (Inr ())))"

definition facetIconPattern :: "string \<Rightarrow> bool" where
  "facetIconPattern s \<longleftrightarrow> iconTokenPattern s \<and> length s \<le> 80"

definition validate_facet_item :: "jobj \<Rightarrow> unit res" where
  "validate_facet_item input =
     failIf (stringField input ''folderIdentity'' \<noteq> []) (InvalidInput ''facet_folder_unsupported'') (
     failIf (\<not> facetIconPattern (stringField input ''icon'')) (InvalidInput ''facet_icon_invalid'') (
     failIf (\<not> colorPattern (stringField input ''color'')) (InvalidInput ''facet_color_invalid'') (
     failIf (\<not> portableDocumentDeleted input \<and> (let (position, ok) = numberField input ''position'' in \<not> ok \<or> position < 0))
       (InvalidInput ''facet_position_invalid'') (Inr ()))))"

definition validate_fdoc_item :: "jobj \<Rightarrow> unit res" where
  "validate_fdoc_item input =
     failIf (stringField input ''folderIdentity'' \<noteq> []) (InvalidInput ''facet_document_folder_unsupported'') (
     failIf (validateIdentity (stringField input ''facetIdentity'') \<noteq> Inr ()) (InvalidInput ''facet_identity_invalid'') (
     case as_obj (oget input ''configuration'') of
       None \<Rightarrow> Inl facet_configuration_invalid
     | Some configuration \<Rightarrow>
         bindE (validate_contribution configuration) (\<lambda>_. ValidateSecrets (JObj configuration))))"

definition validate_source_item :: "jobj \<Rightarrow> unit res" where
  "validate_source_item input = (case oget input ''source'' of
      None \<Rightarrow> Inr ()
    | Some source \<Rightarrow> (case as_str (Some source) of
          None \<Rightarrow> Inl (InvalidInput ''source_invalid'')
        | Some v \<Rightarrow> failIf (int (length v) > maxSourceBytes) (InvalidInput ''source_too_large'') (Inr ())))"

definition versionedSourceKinds :: "string list" where
  "versionedSourceKinds =
     [CollectionTypes, CollectionQueries, CollectionDataViews, CollectionStores, CollectionStreams, CollectionSimulations,
      CollectionUpdates, CollectionActions, CollectionFilters, CollectionComputations, CollectionCompositions, CollectionStyles,
      CollectionConfigurations]"

definition not_positive :: "jobj \<Rightarrow> string \<Rightarrow> bool" where
  "not_positive input key = (let (version, ok) = numberField input key in \<not> ok \<or> version \<le> 0)"

definition source_incomplete :: "string \<Rightarrow> jobj \<Rightarrow> bool" where
  "source_incomplete kind input \<longleftrightarrow> kind \<in> set versionedSourceKinds
     \<and> \<not> (kind = ''filters'' \<and> \<not> ohas input ''source'' \<and> \<not> snd (numberField input ''sourceVersion''))
     \<and> (\<not> ohas input ''source'' \<or> not_positive input ''sourceVersion'')"

definition source_version_one :: "jobj \<Rightarrow> bool" where
  "source_version_one input \<longleftrightarrow> hasSource input \<and> numberField input ''sourceVersion'' = (1, True)"

definition validate_vocab_item :: "jobj \<Rightarrow> unit res" where
  "validate_vocab_item input =
     (let hasVersion = snd (numberField input ''sourceVersion'');
          mode = stringField input ''mode''; authMode = stringField input ''authMode'' in
      failIf (hasSource input \<noteq> hasVersion) (InvalidInput ''vocab_source_contract_invalid'') (
      failIf (hasSource input \<and> stringField input ''source'' = []) (InvalidInput ''vocab_source_invalid'') (
      failIf (hasVersion \<and> fst (numberField input ''sourceVersion'') \<noteq> 1) (InvalidInput ''vocab_source_version_invalid'') (
      failIf (mode \<noteq> [] \<and> mode \<notin> set [''external_payload'', ''internal'']) (InvalidInput ''vocab_mode_invalid'') (
      failIf (authMode \<noteq> [] \<and> authMode \<notin> set [''inherit'', ''profile'', ''none'']) (InvalidInput ''vocab_auth_mode_invalid'') (
      Inr ()))))))"

definition validate_folder_item :: "jobj \<Rightarrow> unit res" where
  "validate_folder_item input =
     (let scope = defaultString (stringField input ''scope'') FolderScopeCollection;
          entityType = stringField input ''entityType'';
          icon = stringField input ''icon''; color = stringField input ''color'' in
      bindE (if scope = FolderScopeCollection then
          failIf (entityType \<notin> set ps_Collections \<or> entityType = CollectionFolders \<or> entityType = CollectionConfigurations)
            (InvalidInput ''folder_entity_type_invalid'') (Inr ())
        else if scope = FolderScopeWorkspace then
          failIf (entityType \<noteq> []) (InvalidInput ''folder_workspace_entity_type_invalid'') (Inr ())
        else Inl (InvalidInput ''folder_scope_invalid'')) (\<lambda>_.
      failIf (icon \<noteq> [] \<and> \<not> facetIconPattern icon) (InvalidInput ''folder_icon_invalid'') (
      failIf (color \<noteq> [] \<and> \<not> colorPattern color) (InvalidInput ''folder_color_invalid'') (
      failIf (ohas input ''isSystem'') (InvalidInput ''folder_is_system_unsupported'') (
      failIf (boolField input ''isRoot'') (InvalidInput ''folder_root_field_read_only'') (Inr ()))))))"

text \<open>The rules of one collection, in the order of the code.\<close>

definition validate_kind_item :: "string \<Rightarrow> jobj \<Rightarrow> unit res" where
  "validate_kind_item kind input =
     (let k = to_lower (trim_space (stringField input ''kind'')) in
      failIf (source_incomplete kind input) (InvalidInput ''source_contract_invalid'') (
      failIf (kind = CollectionCompositions \<and> k \<noteq> [] \<and> k \<notin> set [''library'', ''query'', ''workspace''])
        (InvalidInput ''composition_kind_invalid'') (
      failIf (kind = ''queries'' \<and> integerField input ''sourceVersion'' \<noteq> 2) (InvalidInput ''query_source_version_invalid'') (
      failIf (kind = CollectionActions \<and> trim_space (stringField input ''source'') = []) (InvalidInput ''action_source_invalid'') (
      failIf (kind = CollectionSimulations \<and> \<not> source_version_one input) (InvalidInput ''simulation_source_version_invalid'') (
      failIf (kind = CollectionConfigurations \<and> \<not> source_version_one input) (InvalidInput ''configuration_source_version_invalid'') (
      failIf (kind = CollectionConfigurations \<and> stringField input ''folderIdentity'' \<noteq> [])
        (InvalidInput ''configuration_folder_unsupported'') (
      failIf (kind = CollectionUpdates \<and> stringField input ''storeIdentity'' = []) (InvalidInput ''update_store_required'') (
      failIf (kind = CollectionComponents \<and> \<not> hasSource input) (InvalidInput ''component_source_required'') (
      failIf (kind = CollectionComponents \<and> not_positive input ''modelVersion'') (InvalidInput ''component_model_version_invalid'') (
      failIf (kind = ''computations'' \<and> not_positive input ''contractVersion'') (InvalidInput ''computation_contract_version_invalid'') (
      bindE (if kind = CollectionAuthProfiles then ValidateAuthProfile input else Inr ()) (\<lambda>_.
      bindE (if kind = CollectionVocabs then validate_vocab_item input else Inr ()) (\<lambda>_.
      if kind = CollectionFolders then validate_folder_item input else Inr ()))))))))))))))"

definition ps_validateDocument :: "string \<Rightarrow> jobj \<Rightarrow> unit res" where
  "ps_validateDocument kind input =
     bindE (validate_deleted kind input) (\<lambda>_.
     bindE (validateIdentity (stringField input ''identity'')) (\<lambda>_.
     failIf (stringField input ''displayName'' = []) (InvalidInput ''display_name_required'') (
     bindE (if kind = CollectionFacets then validate_facet_item input else Inr ()) (\<lambda>_.
     bindE (if kind = CollectionFacetDocuments then validate_fdoc_item input else Inr ()) (\<lambda>_.
     bindE (if kind \<in> set FacetCollections then ValidateSecrets (orElse (oget input ''meta'') JNull) else Inr ()) (\<lambda>_.
     failIf (defaultString (stringField input ''managedBy'') ''user'' \<notin> set [''user'', ManagedBySystem, ''integration''])
       (InvalidInput ''managed_by_invalid'') (
     bindE (validate_source_item input) (\<lambda>_.
     validate_kind_item kind input))))))))"

text \<open>The system folders at the root are part of a snapshot, though no command may create them.\<close>

definition folder_root_invalid :: goerr where
  "folder_root_invalid = InvalidInput ''folder_root_invalid''"

definition validatePortableDocument :: "string \<Rightarrow> jobj \<Rightarrow> unit res" where
  "validatePortableDocument kind input =
     (if kind \<noteq> CollectionFolders \<or> \<not> boolField input ''isRoot'' then ps_validateDocument kind input
      else
        let scope = defaultString (stringField input ''scope'') FolderScopeCollection;
            entityType = stringField input ''entityType''; identity = stringField input ''identity'' in
        failIf (stringField input ''managedBy'' \<noteq> ManagedBySystem \<or> stringField input ''parentIdentity'' \<noteq> []
            \<or> portableDocumentDeleted input) folder_root_invalid (
        bindE (if scope = FolderScopeWorkspace then
            failIf (identity \<noteq> WorkspaceRootFolderIdentity \<or> entityType \<noteq> []) folder_root_invalid (Inr ())
          else failIf (scope \<noteq> FolderScopeCollection \<or> identity \<noteq> RootFolderIdentity entityType) folder_root_invalid (Inr ())) (\<lambda>_.
        ps_validateDocument kind (odel ''isRoot'' input))))"

text \<open>The positions of the active facets; \<open>seen\<close> is the map of the code.\<close>

fun check_positions :: "int \<Rightarrow> int list \<Rightarrow> jobj list \<Rightarrow> unit res" where
  "check_positions activeCount seen [] = Inr ()"
| "check_positions activeCount seen (item # items) =
     (if portableDocumentDeleted item then check_positions activeCount seen items
      else let (position, ok) = numberField item ''position'' in
        failIf (\<not> ok \<or> position < 0 \<or> position \<ge> activeCount \<or> position \<in> set seen) (InvalidInput ''facet_positions_invalid'') (
        check_positions activeCount (position # seen) items))"

definition validateFacetPositions :: "jobj list \<Rightarrow> unit res" where
  "validateFacetPositions items =
     check_positions (int (length (filter (\<lambda>i. \<not> portableDocumentDeleted i) items))) [] items"

section \<open>Documents of items\<close>

definition portable_fields :: "string list" where
  "portable_fields = ps_readOnlyFields @ [''identity'', ''displayName'', ''description'', ''folderIdentity'',
     ''workspaceFolderIdentity'', ''managedBy'', ''managedById'', ''meta'', ''active'', ''deleted'']"

definition ps_documentFromInput :: "time \<Rightarrow> string \<Rightarrow> id \<Rightarrow> jobj \<Rightarrow> id \<Rightarrow> id \<Rightarrow> document" where
  "ps_documentFromInput now kind workspace input actorID newid =
     (let document = \<lparr>d_id = newid, d_workspaceID = workspace, d_type = kind,
          d_identity = stringField input ''identity'', d_displayName = stringField input ''displayName'',
          d_description = optionalString input ''description'',
          d_folderIdentity = optionalString input ''folderIdentity'',
          d_workspaceFolderIdentity = optionalString input ''workspaceFolderIdentity'',
          d_managedBy = defaultString (stringField input ''managedBy'') ''user'',
          d_managedByID = optionalString input ''managedById'',
          d_meta = jsonField input ''meta'' (JObj []),
          d_data = omarshal (fold odel portable_fields input),
          d_active = defaultBool input ''active'' True, d_deletedAt = None, d_revision = 1,
          d_createdBy = actor_of_id actorID, d_updatedBy = actor_of_id actorID, d_createdAt = 0, d_updatedAt = 0\<rparr> in
      if portableDocumentDeleted input then document\<lparr>d_active := False, d_deletedAt := Some now\<rparr> else document)"

text \<open>The local identity and the creation stay; a tombstone keeps the time of an earlier deletion.\<close>

definition replaceDocumentFromInput :: "time \<Rightarrow> document \<Rightarrow> jobj \<Rightarrow> id \<Rightarrow> document" where
  "replaceDocumentFromInput now existing input actorID =
     (let d = (ps_documentFromInput now (d_type existing) (d_workspaceID existing) input actorID [])\<lparr>d_id := d_id existing,
          d_revision := d_revision existing, d_createdBy := d_createdBy existing, d_createdAt := d_createdAt existing\<rparr> in
      if d_deletedAt d \<noteq> None \<and> d_deletedAt existing \<noteq> None then d\<lparr>d_deletedAt := d_deletedAt existing\<rparr> else d)"

section \<open>Normalization before an import\<close>

definition facet_counts :: "doc_map \<Rightarrow> string \<Rightarrow> int" where
  "facet_counts docs facet = int (count_if (\<lambda>d. \<not> portableDocumentDeleted d \<and> stringField d ''facetIdentity'' = facet)
     (docs_in docs CollectionFacetDocuments))"

definition stale_count :: "doc_map \<Rightarrow> jobj \<Rightarrow> bool" where
  "stale_count docs facet = (let (current, valid) = numberField facet ''documentCount'' in
     \<not> valid \<or> current \<noteq> facet_counts docs (stringField facet ''identity''))"

definition with_count :: "doc_map \<Rightarrow> jobj \<Rightarrow> jobj" where
  "with_count docs facet = (if stale_count docs facet
     then oput ''documentCount'' (JInt (facet_counts docs (stringField facet ''identity''))) facet else facet)"

definition normalizeFacetDocumentCounts :: "portable_bundle \<Rightarrow> portable_bundle \<times> nat" where
  "normalizeFacetDocumentCounts b =
     (let docs = orElse (bn_documents b) [] in
      (b\<lparr>bn_documents := map_option (edit_docs CollectionFacets (with_count docs)) (bn_documents b)\<rparr>,
       count_if (stale_count docs) (docs_in docs CollectionFacets)))"

record normalization =
  nz_ignoredIntegrations :: nat
  nz_report :: canon_report
  nz_facetDocumentCounts :: nat

definition normalizePortableBundle :: "portable_bundle \<Rightarrow> portable_bundle \<times> normalization" where
  "normalizePortableBundle b =
     (let (b1, report) = CanonicalizeInPlace b; (b2, changed) = normalizeFacetDocumentCounts b1 in
      (b2\<lparr>bn_installedIntegrations := []\<rparr>,
       \<lparr>nz_ignoredIntegrations = length (bn_installedIntegrations b1), nz_report = report, nz_facetDocumentCounts = changed\<rparr>))"

text \<open>The version of the source, then the bundle in its canonical form.\<close>

definition normalizePortableBundleForImport ::
    "(string \<Rightarrow> string) \<Rightarrow> (string \<Rightarrow> string) \<Rightarrow> portable_bundle \<Rightarrow> (string \<times> portable_bundle \<times> normalization) res" where
  "normalizePortableBundleForImport sha nf b =
     bindE (if bn_domainVersion b = [] then Inr (Compute sha nf b)
            else ComputeForDeclaredVersion sha nf b (bn_domainVersion b)) (\<lambda>v.
     Inr (v, normalizePortableBundle b))"

definition finalizeImportDomainVersion ::
    "(string \<Rightarrow> string) \<Rightarrow> (string \<Rightarrow> string) \<Rightarrow> portable_bundle \<Rightarrow> string \<Rightarrow> portable_bundle \<times> bool" where
  "finalizeImportDomainVersion sha nf b provided =
     (let (b1, report) = CanonicalizeInPlace b in
      (b1\<lparr>bn_domainVersion := (if provided \<noteq> [] then Compute sha nf b1 else [])\<rparr>, cr_SFCEditingDefaultsAdded report))"

end
