(* ===== verification/SnapshotPlan.thy ===== *)
theory SnapshotPlan
  imports Portable Commits
begin

text \<open>
  What an import or a restore will do: the ordering functions of \<open>internal/usecase/workspace_state/support.go\<close>, the relation
  check and the planning of import.go, \<open>planExactRestore\<close> of restore_apply.go, status.go. The code ranges over Go maps;
  here a map is ranged over in the order of its keys, and every result is sorted, a count or a list of messages.
\<close>

section \<open>The order of the items\<close>

definition facet_order :: "jobj \<Rightarrow> bool \<times> int \<times> string" where
  "facet_order item = (portableDocumentDeleted item,
     if portableDocumentDeleted item then 0 else integerField item ''position'', stringField item ''identity'')"

definition folder_cycle :: goerr where
  "folder_cycle = InvalidInput ''folder_cycle''"

text \<open>One folder of a pass: it is taken unless its parent still waits.\<close>

definition order_visit :: "string \<Rightarrow> jobj list \<times> (string \<times> jobj) list \<Rightarrow> jobj list \<times> (string \<times> jobj) list" where
  "order_visit identity st = (let (out, remaining) = st in
     case oget remaining identity of
       None \<Rightarrow> st
     | Some item \<Rightarrow>
         let parent = stringField item ''parentIdentity'' in
         if parent \<noteq> [] \<and> ohas remaining parent then st else (out @ [item], odel identity remaining))"

definition order_pass :: "(string \<times> jobj) list \<Rightarrow> jobj list \<times> (string \<times> jobj) list" where
  "order_pass remaining = fold order_visit (map fst remaining) ([], remaining)"

lemma length_odel: "length (odel k m) \<le> length m"
  by (simp add: odel_def)

lemma length_odel_less: "oget m k = Some v \<Longrightarrow> length (odel k m) < length m"
  unfolding odel_def by (rule length_filter_less [of "(k, v)"]) (auto dest: oget_in_set)

lemma order_visit_length:
  "length (fst (order_visit i st)) + length (snd (order_visit i st)) \<le> length (fst st) + length (snd st)"
  using length_odel_less by (cases st) (fastforce simp: order_visit_def Let_def split: option.splits)

lemma order_pass_length: "length (fst (order_pass m)) + length (snd (order_pass m)) \<le> length m"
proof -
  have "length (fst (fold order_visit ks st)) + length (snd (fold order_visit ks st)) \<le> length (fst st) + length (snd st)" for ks st
  proof (induction ks arbitrary: st)
    case (Cons k ks)
    show ?case using order_trans [OF Cons.IH order_visit_length [of k st]] by simp
  qed simp
  from this [of "map fst m" "([], m)"] show ?thesis by (simp add: order_pass_def)
qed

function order_folders :: "(string \<times> jobj) list \<Rightarrow> jobj list res" where
  "order_folders remaining =
     (if remaining = [] then Inr []
      else if fst (order_pass remaining) = [] then Inl folder_cycle
      else bindE (order_folders (snd (order_pass remaining))) (\<lambda>later. Inr (fst (order_pass remaining) @ later)))"
  by pat_completeness auto
termination
proof (relation "measure length", simp, goal_cases)
  case (1 m)
  then have "0 < length (fst (order_pass m))" by simp
  then have "length (snd (order_pass m)) < length m" using order_pass_length [of m] by linarith
  then show ?case by simp
qed

declare order_folders.simps [simp del]

definition by_identity :: "jobj list \<Rightarrow> (string \<times> jobj) list" where
  "by_identity items = fold (\<lambda>item m. oput (stringField item ''identity'') item m) items []"

definition orderPortableItems :: "string \<Rightarrow> jobj list \<Rightarrow> jobj list res" where
  "orderPortableItems kind items =
     (if kind = CollectionFacets then Inr (sort_key facet_order items)
      else if kind \<noteq> ''folders'' \<or> length items < 2 then Inr items
      else failIf (\<exists>item \<in> set items. stringField item ''identity'' = []) (InvalidInput ''identity_required'') (
        order_folders (by_identity items)))"

text \<open>The wanted order of the active facets: the incoming ones by their position, then the others.\<close>

definition facetReorderItems :: "(string \<Rightarrow> string) \<Rightarrow> portable_bundle \<Rightarrow> document list \<Rightarrow> order_item list" where
  "facetReorderItems nf b current =
     (let incoming = sort_key (\<lambda>i. integerField i ''position'')
            (filter (\<lambda>i. \<not> portableDocumentDeleted i) (docs_in (orElse (bn_documents b) []) CollectionFacets));
          byIdentity = map_of (rev (map (\<lambda>d. (d_identity d, d)) current));
          first = List.map_filter (\<lambda>i. map_option (\<lambda>d. \<lparr>oi_identity = stringField i ''identity'', oi_expected = d_revision d\<rparr>)
            (byIdentity (stringField i ''identity''))) incoming;
          extras = sort_key (\<lambda>d. (facetPosition nf d, d_identity d))
            (filter (\<lambda>d. d_identity d \<notin> set (map oi_identity first)) current) in
      first @ map (\<lambda>d. \<lparr>oi_identity = d_identity d, oi_expected = d_revision d\<rparr>) extras)"

section \<open>The relations of a snapshot\<close>

definition folder_scope :: "jobj \<Rightarrow> string" where
  "folder_scope item = defaultString (stringField item ''scope'') FolderScopeCollection"

definition available :: "doc_map \<Rightarrow> string \<Rightarrow> string \<Rightarrow> bool" where
  "available docs kind identity \<longleftrightarrow> identity \<in> set (map (\<lambda>i. stringField i ''identity'') (docs_in docs kind))"

definition last_by_identity :: "(jobj \<Rightarrow> 'v) \<Rightarrow> jobj list \<Rightarrow> string \<Rightarrow> 'v option" where
  "last_by_identity f items = map_of (rev (map (\<lambda>i. (stringField i ''identity'', f i)) items))"

definition folderScopes :: "doc_map \<Rightarrow> string \<Rightarrow> string" where
  "folderScopes docs identity = orElse (last_by_identity folder_scope (docs_in docs CollectionFolders) identity) []"

definition deletedFacets :: "doc_map \<Rightarrow> string \<Rightarrow> bool" where
  "deletedFacets docs identity = orElse (last_by_identity portableDocumentDeleted (docs_in docs CollectionFacets) identity) False"

definition relation_text :: "string \<Rightarrow> string \<Rightarrow> string \<Rightarrow> string" where
  "relation_text kind identity what = kind @ '':'' @ identity @ '': '' @ what"

definition folder_relations :: "doc_map \<Rightarrow> jobj \<Rightarrow> string list" where
  "folder_relations docs item =
     (let parent = stringField item ''parentIdentity''; rootParent = (parent = RootFolderIdentity (stringField item ''entityType'')) in
      if parent \<noteq> [] \<and> \<not> rootParent \<and> \<not> available docs CollectionFolders parent then [''parentIdentity target is missing'']
      else if parent \<noteq> [] \<and> \<not> rootParent \<and> folderScopes docs parent \<noteq> folder_scope item
        then [''parentIdentity scope does not match'']
      else [])"

definition placement_relations :: "doc_map \<Rightarrow> string \<Rightarrow> jobj \<Rightarrow> string list" where
  "placement_relations docs kind item =
     (let folder = stringField item ''folderIdentity'';
          workspaceFolder = defaultString (stringField item ''workspaceFolderIdentity'') WorkspaceRootFolderIdentity in
      (if folder \<noteq> [] \<and> folder \<noteq> RootFolderIdentity kind \<and> \<not> available docs CollectionFolders folder
       then [''folderIdentity target is missing''] else [])
      @ (if \<not> available docs CollectionFolders workspaceFolder then [''workspaceFolderIdentity target is missing'']
         else if folderScopes docs workspaceFolder \<noteq> FolderScopeWorkspace
           then [''workspaceFolderIdentity target is not a Workspace folder''] else []))"

definition fdoc_relations :: "doc_map \<Rightarrow> jobj \<Rightarrow> string list" where
  "fdoc_relations docs item =
     (let facet = stringField item ''facetIdentity'' in
      if \<not> available docs CollectionFacets facet then [''parent facet is missing'']
      else if deletedFacets docs facet \<and> \<not> portableDocumentDeleted item
        then [''active document cannot belong to a deleted facet'']
      else [])"

definition item_relations :: "doc_map \<Rightarrow> string \<Rightarrow> jobj \<Rightarrow> string list" where
  "item_relations docs kind item =
     (let identity = stringField item ''identity''; authProfile = stringField item ''authProfileIdentity'' in
      map (relation_text kind identity)
        (if kind = CollectionFolders then folder_relations docs item
         else if kind \<notin> set FacetCollections then placement_relations docs kind item else [])
      @ (if kind = CollectionFacetDocuments
         then map (relation_text kind (stringField item ''facetIdentity'' @ ''/'' @ identity)) (fdoc_relations docs item) else [])
      @ map (relation_text kind identity)
        ((if kind = CollectionUpdates \<and> \<not> available docs CollectionStores (stringField item ''storeIdentity'')
          then [''storeIdentity target is missing''] else [])
         @ (if kind = CollectionVocabs \<and> authProfile \<noteq> [] \<and> \<not> available docs CollectionAuthProfiles authProfile
            then [''authProfileIdentity target is missing''] else [])))"

definition validateSnapshotRelations :: "portable_bundle \<Rightarrow> string list" where
  "validateSnapshotRelations b =
     (let docs = orElse (bn_documents b) []; startup = stringField (orElse (bn_workspace b) []) ''startupCompositionIdentity'' in
      (if startup \<noteq> [] \<and> \<not> available docs CollectionCompositions startup
       then [''workspace: startupCompositionIdentity target is missing''] else [])
      @ concat (map (\<lambda>(kind, items). concat (map (item_relations docs kind) items)) docs))"

section \<open>Comparing with the stored documents\<close>

type_synonym 'v keyed = "(string \<times> (string \<times> 'v) list) list"

definition in_kind :: "'v keyed \<Rightarrow> string \<Rightarrow> (string \<times> 'v) list" where
  "in_kind m kind = orElse (oget m kind) []"

definition loadSnapshotDocuments :: "(string \<Rightarrow> string) \<Rightarrow> id \<Rightarrow> db \<Rightarrow> document keyed res" where
  "loadSnapshotDocuments nf ws s =
     foldE (\<lambda>kind acc. bindE (listAllDocuments ws kind True s) (\<lambda>ds.
       Inr (oput kind (fold (\<lambda>d m. oput (storedDocumentKey nf d) d m) ds []) acc))) ps_Collections []"

text \<open>\<open>snapshotDocumentIdentities\<close> and \<open>snapshotDocumentTombstones\<close>: the keys of the snapshot, with their \<open>deleted\<close>.\<close>

definition snapshot_keys :: "portable_bundle \<Rightarrow> string \<Rightarrow> (string \<times> bool) list" where
  "snapshot_keys b kind = fold (\<lambda>item m. oput (portableDocumentKey kind item) (portableDocumentDeleted item) m)
     (docs_in (orElse (bn_documents b) []) kind) []"

definition snapshotDocumentIdentities :: "portable_bundle \<Rightarrow> bool keyed" where
  "snapshotDocumentIdentities b = fold (\<lambda>kind m. oput kind (map (\<lambda>(k, v). (k, True)) (snapshot_keys b kind)) m) ps_Collections []"

definition snapshotDocumentTombstones :: "portable_bundle \<Rightarrow> bool keyed" where
  "snapshotDocumentTombstones b = fold (\<lambda>kind m. oput kind (snapshot_keys b kind) m) ps_Collections []"

definition restoreOrder :: "string list" where
  "restoreOrder =
     [CollectionFolders, CollectionFacets, CollectionFacetDocuments, CollectionNavigations, CollectionAuthProfiles,
      CollectionStores, CollectionVocabs, CollectionUpdates, CollectionTypes, CollectionConfigurations, CollectionQueries,
      CollectionDataViews, CollectionCompositions, CollectionStreams, CollectionSimulations, CollectionMocks,
      CollectionComponents, CollectionActions, CollectionFilters, CollectionConverters, CollectionComputations,
      CollectionI18nBundles, CollectionStyles]"

text \<open>The walk up the folders stops at a folder it has seen.\<close>

function depth_from :: "(string \<times> document) list \<Rightarrow> string list \<Rightarrow> document \<Rightarrow> nat" where
  "depth_from folders seen current =
     (case d_folderIdentity current of
        None \<Rightarrow> 0
      | Some parent \<Rightarrow>
          if parent = [] \<or> parent \<in> set seen then 0
          else (case oget folders parent of
              None \<Rightarrow> 0
            | Some p \<Rightarrow> Suc (depth_from folders (parent # seen) p)))"
  by pat_completeness auto
termination
proof (relation "measure (\<lambda>(folders, seen, current). card (fst ` set folders - set seen))", simp, goal_cases)
  case (1 folders seen current parent p)
  then have "parent \<in> fst ` set folders" using oget_in_set by (metis fst_conv image_iff)
  then have "card (fst ` set folders - set (parent # seen)) < card (fst ` set folders - set seen)"
    using 1 by (intro psubset_card_mono) auto
  then show ?case by simp
qed

declare depth_from.simps [simp del]

definition folderDepth :: "document \<Rightarrow> (string \<times> document) list \<Rightarrow> nat" where
  "folderDepth d folders = depth_from folders [d_identity d] d"

definition missing_in :: "document keyed \<Rightarrow> bool keyed \<Rightarrow> string \<Rightarrow> document list" where
  "missing_in existing incoming kind =
     map snd (filter (\<lambda>(k, d). \<not> ohas (in_kind incoming kind) k \<and> d_deletedAt d = None \<and> d_managedBy d \<noteq> ManagedBySystem)
       (in_kind existing kind))"

definition documentsMissingFromSnapshot :: "document keyed \<Rightarrow> bool keyed \<Rightarrow> document list" where
  "documentsMissingFromSnapshot existing incoming =
     concat (map (\<lambda>kind. sort_key d_identity (missing_in existing incoming kind))
       (filter (\<lambda>kind. kind \<noteq> CollectionFolders) (rev restoreOrder)))
     @ sort_key (\<lambda>d. (- int (folderDepth d (in_kind existing CollectionFolders)), d_identity d))
         (missing_in existing incoming CollectionFolders)"

record plan_counts =
  pc_creates :: nat
  pc_updates :: nat
  pc_restores :: nat
  pc_deletes :: nat

definition count_change :: "string \<Rightarrow> bool \<Rightarrow> document option \<Rightarrow> plan_counts \<Rightarrow> plan_counts" where
  "count_change kind tombstone existing c = (case existing of
      None \<Rightarrow> c\<lparr>pc_creates := pc_creates c + 1\<rparr>
    | Some d \<Rightarrow>
        if tombstone \<and> d_deletedAt d \<noteq> None then c\<lparr>pc_updates := pc_updates c + 1\<rparr>
        else if tombstone then
          (if kind = CollectionFacets then c\<lparr>pc_updates := pc_updates c + 1, pc_deletes := pc_deletes c + 1\<rparr>
           else c\<lparr>pc_deletes := pc_deletes c + 1\<rparr>)
        else if d_deletedAt d \<noteq> None then c\<lparr>pc_restores := pc_restores c + 1\<rparr>
        else c\<lparr>pc_updates := pc_updates c + 1\<rparr>)"

definition planSnapshotChanges :: "(string \<Rightarrow> string) \<Rightarrow> id \<Rightarrow> portable_bundle \<Rightarrow> plan_counts \<Rightarrow> db \<Rightarrow> plan_counts res" where
  "planSnapshotChanges nf ws b counts s =
     bindE (loadSnapshotDocuments nf ws s) (\<lambda>existing.
     let incoming = snapshotDocumentIdentities b; tombstones = snapshotDocumentTombstones b;
         c = fold (\<lambda>(kind, identities). fold (\<lambda>(identity, _).
               count_change kind (oget (in_kind tombstones kind) identity = Some True) (oget (in_kind existing kind) identity))
               identities) incoming counts in
     Inr (c\<lparr>pc_deletes := length (documentsMissingFromSnapshot existing incoming)\<rparr>))"

text \<open>\<open>planExactRestore\<close>: the stored documents are found under their key, the missing ones are looked for by identity.\<close>

definition exact_kind :: "(string \<Rightarrow> string) \<Rightarrow> id \<Rightarrow> portable_bundle \<Rightarrow> db \<Rightarrow> string \<Rightarrow> plan_counts \<Rightarrow> plan_counts res" where
  "exact_kind nf ws b s kind c =
     (let targets = map fst (snapshot_keys b kind) in
      bindE (ListDocuments ws kind \<lparr>f_includeDeleted = True, f_folder = None, f_active = None, f_limit = 100000, f_offset = 0\<rparr> s) (\<lambda>current.
      Inr (c\<lparr>pc_updates := pc_updates c + count_if (\<lambda>d. storedDocumentKey nf d \<in> set targets \<or> d_deletedAt d = None) current,
             pc_creates := pc_creates c + count_if (\<lambda>identity. \<not> list_ex (\<lambda>d. d_identity d = identity) current) targets\<rparr>)))"

definition planExactRestore :: "(string \<Rightarrow> string) \<Rightarrow> id \<Rightarrow> portable_bundle \<Rightarrow> db \<Rightarrow> plan_counts res" where
  "planExactRestore nf ws b s =
     foldE (exact_kind nf ws b s) restoreOrder \<lparr>pc_creates = 0, pc_updates = 0, pc_restores = 0, pc_deletes = 0\<rparr>"

end
