(* ===== verification/Restore.thy ===== *)
theory Restore
  imports SnapshotPlan Lifecycle
begin

text \<open>
  Restoring: \<open>internal/usecase/workspace_state\<close> (revision_restore.go, commit_restore.go, \<open>restoreBundle\<close> of restore_apply.go
  and the folder functions of support.go) with the statements on workspaces and their integrations of
  workspaces_repository.go. Its \<open>writeContext\<close> is \<open>ps_writeContext\<close>; \<open>recordRevision\<close>, \<open>recordWorkspaceRevision\<close> and
  \<open>mutationBatch\<close> are copies of the recorder of usecase/history (theory History). The hash \<open>sha\<close> is taken of texts here: the
  package hashes the raw JSON columns, and JSONB orders the keys of an object by their length first. The exported workspace
  (\<open>ExportWorkspace\<close>) and the identities of the installed integrations that exist are parameters.
\<close>

section \<open>Workspaces\<close>

definition getWorkspace :: "string \<Rightarrow> db \<Rightarrow> workspace res" where
  "getWorkspace identity s =
     (case find (\<lambda>w. w_identity (ws_value w) = identity \<and> w_deletedAt (ws_value w) = None) (db_workspaces s) of
        None \<Rightarrow> Inl RowNotFound
      | Some w \<Rightarrow> getWorkspaceByID (w_id (ws_value w)) s)"

definition LockWorkspaceSnapshot :: "id \<Rightarrow> db \<Rightarrow> unit res" where
  "LockWorkspaceSnapshot ws s = (if ws_of s ws = None then Inl RowNotFound else Inr ())"

definition char_count :: "string \<Rightarrow> nat" where
  "char_count s = length (filter (\<lambda>c. \<not> byte_in 0x80 0xBF c) s)"

text \<open>The startup composition a patch names: \<open>None\<close> when it is left alone.\<close>

definition startup_patch :: "jobj \<Rightarrow> id \<Rightarrow> db \<Rightarrow> id option option res" where
  "startup_patch patch ws s = (case oget patch ''startupCompositionIdentity'' of
      None \<Rightarrow> Inr None
    | Some JNull \<Rightarrow> Inr (Some None)
    | Some v \<Rightarrow>
        failIf (trimmed (Some v) = []) (Plain ''startup composition identity is invalid'') (
        bindE (resolveActiveDocumentID ws CollectionCompositions (trimmed (Some v)) s) (\<lambda>i. Inr (Some (Some i)))))"

definition patched_workspace :: "jobj \<Rightarrow> workspace \<Rightarrow> workspace" where
  "patched_workspace patch w =
     w\<lparr>w_identity := (case as_str (oget patch ''identity'') of Some v \<Rightarrow> trim_space v | None \<Rightarrow> w_identity w),
       w_displayName := orElse (as_str (oget patch ''displayName'')) (w_displayName w),
       w_description := (if ohas patch ''description'' then as_str (oget patch ''description'') else w_description w),
       w_dataMode := orElse (as_str (oget patch ''dataMode'')) (w_dataMode w),
       w_documentStructure := orElse (as_str (oget patch ''documentStructure'')) (w_documentStructure w),
       w_configuration := (case oget patch ''configuration'' of Some v \<Rightarrow> marshal v | None \<Rightarrow> w_configuration w),
       w_meta := (case oget patch ''meta'' of Some v \<Rightarrow> marshal v | None \<Rightarrow> w_meta w),
       w_active := orElse (as_bool (oget patch ''active'')) (w_active w)\<rparr>"

definition rewritten_workspace :: "workspace \<Rightarrow> id option option \<Rightarrow> id \<Rightarrow> ws_row \<Rightarrow> ws_row" where
  "rewritten_workspace v startup actor w =
     w\<lparr>ws_value := (ws_value w)\<lparr>w_identity := w_identity v, w_displayName := w_displayName v, w_description := w_description v,
         w_dataMode := w_dataMode v, w_documentStructure := w_documentStructure v, w_configuration := w_configuration v,
         w_meta := w_meta v, w_active := w_active v, w_updatedBy := actor_of_id actor,
         w_revision := w_revision (ws_value w) + 1\<rparr>,
       ws_startup := orElse startup (ws_startup w)\<rparr>"

lemma rewritten_workspace_keeps [simp]: "w_id (ws_value (rewritten_workspace v startup actor w)) = w_id (ws_value w)"
  "w_headSequence (ws_value (rewritten_workspace v startup actor w)) = w_headSequence (ws_value w)"
  by (simp_all add: rewritten_workspace_def)

definition UpdateWorkspace :: "string \<Rightarrow> jobj \<Rightarrow> int \<Rightarrow> id \<Rightarrow> db \<Rightarrow> (workspace \<times> db) res" where
  "UpdateWorkspace identity patch revision actor s =
     bindE (getWorkspace identity s) (\<lambda>current.
     bindE (startup_patch patch (w_id current) s) (\<lambda>startup.
     let v = patched_workspace patch current;
         hit = (\<lambda>w. w_id (ws_value w) = w_id current \<and> w_revision (ws_value w) = revision) in
     failIf (find hit (db_workspaces s) = None) revision_conflict_text (
     failIf (\<exists>w \<in> set (db_workspaces s). w_id (ws_value w) \<noteq> w_id current \<and> w_identity (ws_value w) = w_identity v) unique_violation (
     failIf (char_count (w_identity v) < 1 \<or> char_count (w_identity v) > 160
         \<or> \<not> IsWorkspaceDocumentStructure (w_documentStructure v)) check_violation (
     failIf (db_user s actor = None) fk_violation (
     let s1 = s\<lparr>db_workspaces := updateWhere hit (rewritten_workspace v startup actor) (db_workspaces s)\<rparr> in
     bindE (getWorkspace (w_identity v) s1) (\<lambda>w. Inr (w, s1))))))))"

text \<open>Installed integrations; \<open>known\<close> are the identities of the integrations that exist and are not deleted.\<close>

definition insert_install :: "string list \<Rightarrow> id \<Rightarrow> jobj \<Rightarrow> commit_db \<Rightarrow> commit_db res" where
  "insert_install known ws item s =
     (let identity = stringField item ''identity''; version = stringField item ''version'' in
      failIf (identity = [] \<or> version = []) (Plain ''integration identity and version are required'') (
      failIf (identity \<notin> set known) (Plain ''integration not found'') (
      failIf (\<exists>r \<in> set (cd_installed s). ir_ws r = ws \<and> ir_identity r = identity) unique_violation (
      Inr (s\<lparr>cd_installed := cd_installed s @ [\<lparr>ir_ws = ws, ir_identity = identity, ir_version = version,
        ir_configuration = jsonField item ''configuration'' JNull\<rparr>]\<rparr>)))))"

definition ReplaceWorkspaceIntegrations :: "string list \<Rightarrow> id \<Rightarrow> jobj list \<Rightarrow> commit_db \<Rightarrow> commit_db res" where
  "ReplaceWorkspaceIntegrations known ws items s =
     foldE (insert_install known ws) items (s\<lparr>cd_installed := filter (\<lambda>r. ir_ws r \<noteq> ws) (cd_installed s)\<rparr>)"

definition ListWorkspaceIntegrations :: "id \<Rightarrow> commit_db \<Rightarrow> install_row list" where
  "ListWorkspaceIntegrations ws s = sort_key ir_identity (filter (\<lambda>r. ir_ws r = ws) (cd_installed s))"

section \<open>Texts of stored columns\<close>

text \<open>JSONB orders the keys of an object by their length, then by their bytes.\<close>

fun jsonb_text :: "json \<Rightarrow> string" where
  "jsonb_text (JArr xs) = ''['' @ join_with '','' (map jsonb_text xs) @ '']''"
| "jsonb_text (JObj m) = CHR 0x7B # join_with '','' (map snd (sort_key (\<lambda>p. (length (fst p), fst p))
     (map (\<lambda>kv. (fst kv, json_string (fst kv) @ '':'' @ jsonb_text (snd kv))) m))) @ [CHR 0x7D]"
| "jsonb_text v = json_text v"

definition object_text :: "(string \<times> string) list \<Rightarrow> string" where
  "object_text kvs = CHR 0x7B # join_with '','' (map (\<lambda>(k, t). json_string k @ '':'' @ t) kvs) @ [CHR 0x7D]"

definition null_or :: "string option \<Rightarrow> string" where
  "null_or v = (case v of None \<Rightarrow> ''null'' | Some t \<Rightarrow> json_string t)"

text \<open>The data of a document that was read: a facet's is built by the repository, and so is the outer object of a facet
  document; the others come as the column has them.\<close>

definition stored_data_text :: "document \<Rightarrow> string" where
  "stored_data_text d =
     (if d_type d = CollectionFacets then json_text (JObj (d_data d))
      else if d_type d = CollectionFacetDocuments then object_text (map (\<lambda>(k, v). (k, jsonb_text v)) (d_data d))
      else jsonb_text (JObj (d_data d)))"

text \<open>\<open>checksumContent\<close>, for the texts of the metadata and the data.\<close>

definition content_text :: "string \<Rightarrow> string \<Rightarrow> document \<Rightarrow> string" where
  "content_text meta data d = object_text
     [(''active'', json_text (JBool (d_active d))), (''data'', data),
      (''deletedAt'', case d_deletedAt d of None \<Rightarrow> ''null'' | Some t \<Rightarrow> itoa t), (''description'', null_or (d_description d)),
      (''displayName'', json_string (d_displayName d)), (''folderIdentity'', null_or (d_folderIdentity d)),
      (''identity'', json_string (d_identity d)), (''managedBy'', json_string (d_managedBy d)),
      (''managedById'', null_or (d_managedByID d)), (''meta'', meta),
      (''workspaceFolderIdentity'', null_or (d_workspaceFolderIdentity d))]"

definition stored_text :: "document \<Rightarrow> string" where
  "stored_text d = content_text (jsonb_text (d_meta d)) (stored_data_text d) d"

definition built_text :: "document \<Rightarrow> string" where
  "built_text d = content_text (json_text (d_meta d)) (json_text (JObj (d_data d))) d"

section \<open>Folders\<close>

definition resolvableFolderIdentity :: "string \<Rightarrow> string \<Rightarrow> string" where
  "resolvableFolderIdentity identity entityType =
     (if identity = LegacyRootStreamsIdentity \<and> entityType = FolderEntityType CollectionStreams
      then RootFolderIdentity CollectionStreams else identity)"

definition unfoldered :: "string \<Rightarrow> bool" where
  "unfoldered kind \<longleftrightarrow> kind = CollectionConfigurations \<or> kind \<in> set FacetCollections"

definition ps_resolveFolder :: "id \<Rightarrow> string \<Rightarrow> jobj \<Rightarrow> db \<Rightarrow> id option res" where
  "ps_resolveFolder ws kind input s =
     (if unfoldered kind then Inr None
      else if kind = CollectionFolders then
        let entityType = FolderEntityType (stringField input ''entityType'') in
        ResolveFolder ws (resolvableFolderIdentity (folder_parent_identity input entityType) entityType) entityType s
      else
        let entityType = FolderEntityType kind;
            identity = defaultString (stringField input ''folderIdentity'') (RootFolderIdentity kind) in
        ResolveFolder ws (resolvableFolderIdentity identity entityType) entityType s)"

definition document_folder_identity :: "(string \<Rightarrow> string) \<Rightarrow> document \<Rightarrow> string \<times> string" where
  "document_folder_identity nf d =
     (if d_type d = CollectionFolders then
        let data = ounmarshal nf (d_data d); entityType = FolderEntityType (stringField data ''entityType'') in
        (resolvableFolderIdentity (folder_parent_identity data entityType) entityType, entityType)
      else
        let entityType = FolderEntityType (d_type d) in
        (resolvableFolderIdentity (defaultString (orElse (d_folderIdentity d) []) (RootFolderIdentity (d_type d))) entityType, entityType))"

text \<open>The folder of a deleted document may be deleted as well.\<close>

definition ps_resolveDocumentFolder :: "env \<Rightarrow> id \<Rightarrow> document \<Rightarrow> db \<Rightarrow> id option res" where
  "ps_resolveDocumentFolder env ws d s =
     (if unfoldered (d_type d) then Inr None
      else let (identity, entityType) = document_folder_identity (e_nf env) d in
        if d_deletedAt d \<noteq> None \<and> identity \<noteq> [] then
          bindE (GetDocument ws CollectionFolders identity True s) (\<lambda>folder.
          failIf (FolderEntityType (stringField (ounmarshal (e_nf env) (d_data folder)) ''entityType'') \<noteq> entityType)
            (InvalidInput ''folder_entity_type_invalid'') (Inr (Some (d_id folder))))
        else ResolveFolder ws identity entityType s)"

section \<open>One revision\<close>

definition ps_writeContext :: "ctx \<Rightarrow> ((current_actor \<times> user) \<times> workspace_access) res" where
  "ps_writeContext c =
     bindE (ctx_Actor c) (\<lambda>current.
     bindE (ctx_Access c) (\<lambda>scope.
     failIf (\<not> CanWrite (wa_role scope)) (Forbidden ''workspace_editor_required'') (Inr (current, scope))))"

definition restored_folder :: "env \<Rightarrow> id \<Rightarrow> string \<Rightarrow> document \<Rightarrow> db \<Rightarrow> (id option \<times> document) res" where
  "restored_folder env ws kind target s = (case ps_resolveDocumentFolder env ws target s of
      Inr i \<Rightarrow> Inr (i, target)
    | Inl e \<Rightarrow>
        if kind \<noteq> CollectionFolders \<and> errors_is e RowNotFound then
          let target' = target\<lparr>d_folderIdentity := Some (RootFolderIdentity (d_type target))\<rparr> in
          bindE (ps_resolveDocumentFolder env ws target' s) (\<lambda>i. Inr (i, target'))
        else Inl e)"

definition restored_target :: "(string \<Rightarrow> string) \<Rightarrow> string \<Rightarrow> id \<Rightarrow> document \<Rightarrow> document \<Rightarrow> document" where
  "restored_target nf kind actor existing d =
     d\<lparr>d_id := d_id existing, d_workspaceID := d_workspaceID existing,
       d_data := (case RemoveLegacySSEFromDocumentData nf kind (JObj (d_data d)) of JObj m \<Rightarrow> m | _ \<Rightarrow> d_data d),
       d_revision := d_revision existing, d_updatedBy := actor_of_id actor\<rparr>"

definition RestoreRevision :: "env \<Rightarrow> ctx \<Rightarrow> string \<Rightarrow> string \<Rightarrow> id \<Rightarrow> int \<Rightarrow> db \<Rightarrow> (document \<times> db) res" where
  "RestoreRevision env c kind identity revisionID expected s =
     failIf (kind \<notin> set ps_Collections) (WithDetails (InvalidInput ''collection_unsupported'') [(''collection'', JStr kind)]) (
     bindE (ps_writeContext c) (\<lambda>((current, u), scope).
     let ws = w_id (wa_workspace scope) in
     failIf (expected \<le> 0) PreconditionRequired (
     bindE (MapNotFound (GetDocument ws kind identity True s)) (\<lambda>existing.
     failIf (d_revision existing \<noteq> expected) RevisionConflict (
     failIf (kind = CollectionFolders \<and> isSystemFolder (e_nf env) existing) (Conflict ''system_folder_immutable'') (
     bindE (MapNotFound (GetRevision ws kind identity revisionID s)) (\<lambda>revision.
     case rv_snapshot revision of
       SnapDocument d \<Rightarrow>
         bindE (restored_folder env ws kind (restored_target (e_nf env) kind (u_id u) existing d) s) (\<lambda>(folderID, target).
         MapConflict (
         bindE (UpdateDocument env (cx_now c) target expected folderID s) (\<lambda>(updated, s1).
         bindE (RecordDocument env c updated ''restore'' (Some (rv_id revision)) s1) (\<lambda>(r, s2).
         Inr (updated, s2)))))
     | _ \<Rightarrow> Inl (Internal ''revision_snapshot_invalid''))))))))"

section \<open>The documents of a bundle\<close>

definition soft_deleted :: "ctx \<Rightarrow> user \<Rightarrow> document \<Rightarrow> document" where
  "soft_deleted c u d = d\<lparr>d_deletedAt := Some (cx_now c), d_active := False, d_updatedBy := actor_of_id (u_id u)\<rparr>"

text \<open>The new state of a stored document of the bundle. An active facet that the bundle deletes stays until its
  documents are done; the position of a facet is settled by the reordering.\<close>

definition replaced :: "env \<Rightarrow> ctx \<Rightarrow> user \<Rightarrow> string \<Rightarrow> document \<Rightarrow> jobj \<Rightarrow> document" where
  "replaced env c u kind d item =
     (let next0 = replaceDocumentFromInput (cx_now c) d item (u_id u);
          next1 = (if kind = CollectionFacets \<and> portableDocumentDeleted item \<and> d_deletedAt d = None
            then next0\<lparr>d_deletedAt := None, d_active := True\<rparr> else next0) in
      if kind = CollectionFacets
      then replaceDocumentDataField (e_nf env) next1 ''position''
        (JInt (if d_deletedAt d \<noteq> None then -1 else facetPosition (e_nf env) d))
      else next1)"

definition rewrite_document :: "env \<Rightarrow> ctx \<Rightarrow> document \<Rightarrow> int \<Rightarrow> id option \<Rightarrow> string \<Rightarrow> db \<Rightarrow> db res" where
  "rewrite_document env c d expected folderID operation s =
     bindE (UpdateDocument env (cx_now c) d expected folderID s) (\<lambda>(updated, s1).
     bindE (RecordDocument env c updated operation None s1) (\<lambda>(r, s2). Inr s2))"

definition restore_existing ::
    "env \<Rightarrow> (string \<Rightarrow> string) \<Rightarrow> ctx \<Rightarrow> user \<Rightarrow> id \<Rightarrow> string \<Rightarrow> (string \<times> jobj) list \<Rightarrow> document \<Rightarrow> db \<Rightarrow> db res" where
  "restore_existing env sha c u ws kind targets d s = (case oget targets (storedDocumentKey (e_nf env) d) of
      None \<Rightarrow>
        if kind = CollectionFacets \<or> (kind = CollectionFolders \<and> d_managedBy d = ManagedBySystem) \<or> d_deletedAt d \<noteq> None then Inr s
        else
          bindE (ps_resolveDocumentFolder env ws (soft_deleted c u d) s) (\<lambda>folderID.
          rewrite_document env c (soft_deleted c u d) (d_revision d) folderID ''delete'' s)
    | Some item \<Rightarrow>
        let d' = replaced env c u kind d item in
        bindE (ps_resolveDocumentFolder env ws d' s) (\<lambda>folderID.
        if sha (stored_text d) = sha (built_text d') then Inr s
        else rewrite_document env c d' (d_revision d) folderID ''restore'' s))"

definition restore_new :: "env \<Rightarrow> ctx \<Rightarrow> user \<Rightarrow> id \<Rightarrow> string \<Rightarrow> jobj \<Rightarrow> db \<Rightarrow> db res" where
  "restore_new env c u ws kind item s =
     (let (i, s0) = fresh env s;
          d0 = ps_documentFromInput (cx_now c) kind ws item (u_id u) i;
          d = (if kind = CollectionFacets \<and> d_deletedAt d0 = None
            then replaceDocumentDataField (e_nf env) d0 ''position'' (JInt (-1)) else d0) in
      bindE (ps_resolveFolder ws kind item s0) (\<lambda>folderID.
      bindE (InsertDocument env (cx_now c) d folderID s0) (\<lambda>(created, s1).
      bindE (RecordDocument env c created ''restore'' None s1) (\<lambda>(r, s2). Inr s2))))"

definition drop_facet :: "env \<Rightarrow> ctx \<Rightarrow> user \<Rightarrow> string list \<Rightarrow> document \<Rightarrow> db \<Rightarrow> db res" where
  "drop_facet env c u targets facet s =
     (if d_identity facet \<in> set targets then Inr s
      else
        bindE (UpdateFacet env (cx_now c) (soft_deleted c u facet) (d_revision facet) s) (\<lambda>(updated, s1).
        bindE (RecordDocument env c updated ''delete'' None s1) (\<lambda>(r, s2). Inr s2)))"

definition settle_facets :: "env \<Rightarrow> ctx \<Rightarrow> user \<Rightarrow> id \<Rightarrow> portable_bundle \<Rightarrow> db \<Rightarrow> db res" where
  "settle_facets env c u ws b s =
     (let targets = map (\<lambda>i. stringField i ''identity'')
            (filter (\<lambda>i. \<not> portableDocumentDeleted i) (docs_in (orElse (bn_documents b) []) CollectionFacets)) in
      bindE (foldE (drop_facet env c u targets) (ListFacets ws False s) s) (\<lambda>s1.
      bindE (ReorderFacets (cx_now c) ws (facetReorderItems (e_nf env) b (ListFacets ws False s1)) (u_id u) s1) (\<lambda>(changed, s2).
      foldE (\<lambda>d s. bindE (RecordDocument env c d ''restore'' None s) (\<lambda>(r, s'). Inr s')) changed s2)))"

definition restore_kind :: "env \<Rightarrow> (string \<Rightarrow> string) \<Rightarrow> ctx \<Rightarrow> user \<Rightarrow> id \<Rightarrow> portable_bundle \<Rightarrow> string \<Rightarrow> db \<Rightarrow> db res" where
  "restore_kind env sha c u ws b kind s =
     bindE (orderPortableItems kind (docs_in (orElse (bn_documents b) []) kind)) (\<lambda>ordered.
     let targets = fold (\<lambda>item m. oput (portableDocumentKey kind item) item m) ordered [] in
     bindE (ListDocuments ws kind \<lparr>f_includeDeleted = True, f_folder = None, f_active = None, f_limit = 100000, f_offset = 0\<rparr> s) (\<lambda>existing.
     let seen = map (storedDocumentKey (e_nf env)) existing in
     bindE (foldE (restore_existing env sha c u ws kind targets) existing s) (\<lambda>s1.
     bindE (foldE (restore_new env c u ws kind) (filter (\<lambda>item. portableDocumentKey kind item \<notin> set seen) ordered) s1) (\<lambda>s2.
     if kind = CollectionFacetDocuments then settle_facets env c u ws b s2 else Inr s2))))"

section \<open>The workspace of a bundle\<close>

definition restore_keys :: "string list" where
  "restore_keys = [''identity'', ''displayName'', ''description'', ''dataMode'', ''documentStructure'', ''configuration'', ''meta'']"

definition restore_patch :: "jobj \<Rightarrow> jobj" where
  "restore_patch source =
     (let patch = fold (\<lambda>key m. case oget source key of None \<Rightarrow> m | Some v \<Rightarrow> oput key v m) restore_keys [] in
      case oget patch ''configuration'' of None \<Rightarrow> patch | Some v \<Rightarrow> oput ''configuration'' (EnsureSFCEditingDefaults v) patch)"

definition workspace_text :: "workspace \<Rightarrow> string" where
  "workspace_text w = object_text
     [(''configuration'', jsonb_text (w_configuration w)), (''dataMode'', json_string (w_dataMode w)),
      (''description'', null_or (w_description w)), (''displayName'', json_string (w_displayName w)),
      (''documentStructure'', json_string (w_documentStructure w)), (''identity'', json_string (w_identity w)),
      (''meta'', jsonb_text (w_meta w))]"

definition installs_text :: "install_row list \<Rightarrow> string" where
  "installs_text rows = ''['' @ join_with '','' (map (\<lambda>r. object_text
     [(''configuration'', jsonb_text (ir_configuration r)), (''identity'', json_string (ir_identity r)),
      (''version'', json_string (ir_version r))]) rows) @ '']''"

text \<open>The workspace row: rewritten when the bundle differs, or else when its integrations changed.\<close>

definition restore_workspace_row ::
    "env \<Rightarrow> (string \<Rightarrow> string) \<Rightarrow> ctx \<Rightarrow> user \<Rightarrow> portable_bundle \<Rightarrow> workspace \<Rightarrow> db \<Rightarrow> ((bool \<times> workspace) \<times> db) res" where
  "restore_workspace_row env sha c u b live s =
     (let patch = restore_patch (orElse (bn_workspace b) []) in
      if patch = [] then Inr ((False, live), s)
      else bindE (getWorkspace (w_identity live) s) (\<lambda>w.
        if sha (workspace_text w) = sha (json_text (JObj patch)) then Inr ((False, live), s)
        else bindE (UpdateWorkspace (w_identity w) patch (w_revision w) (u_id u) s) (\<lambda>(updated, s1).
          bindE (RecordWorkspace env c updated ''restore'' s1) (\<lambda>s2. Inr ((True, updated), s2)))))"

definition touch_workspace :: "env \<Rightarrow> ctx \<Rightarrow> user \<Rightarrow> string \<Rightarrow> db \<Rightarrow> db res" where
  "touch_workspace env c u identity s =
     bindE (getWorkspace identity s) (\<lambda>live.
     bindE (UpdateWorkspace (w_identity live) [] (w_revision live) (u_id u) s) (\<lambda>(updated, s1).
     RecordWorkspace env c updated ''restore'' s1))"

definition restore_workspace ::
    "env \<Rightarrow> (string \<Rightarrow> string) \<Rightarrow> ctx \<Rightarrow> user \<Rightarrow> portable_bundle \<Rightarrow> bool \<Rightarrow> workspace \<Rightarrow> db \<Rightarrow> (workspace \<times> db) res" where
  "restore_workspace env sha c u b integrationsChanged live s =
     bindE (restore_workspace_row env sha c u b live s) (\<lambda>(row, s1).
     if integrationsChanged \<and> \<not> fst row then
       bindE (touch_workspace env c u (w_identity (snd row)) s1) (\<lambda>s2. Inr (snd row, s2))
     else Inr (snd row, s1))"

definition applyStartupComposition ::
    "env \<Rightarrow> ctx \<Rightarrow> workspace \<Rightarrow> portable_bundle \<Rightarrow> id \<Rightarrow> string \<Rightarrow> db \<Rightarrow> db res" where
  "applyStartupComposition env c w b actorID operation s =
     (let source = orElse (bn_workspace b) [] in
      case oget source ''startupCompositionIdentity'' of
        None \<Rightarrow> Inr s
      | Some v \<Rightarrow>
          let target = (if v = JNull then None else Some (stringField source ''startupCompositionIdentity'')) in
          if w_startupComposition w = target then Inr s
          else bindE (UpdateWorkspace (w_identity w) [(''startupCompositionIdentity'', v)] (w_revision w) actorID s) (\<lambda>(updated, s1).
            RecordWorkspace env c updated operation s1))"

section \<open>The whole bundle\<close>

definition max_sequence :: "int \<Rightarrow> revision list \<Rightarrow> int" where
  "max_sequence head rs = fold (\<lambda>r h. case rv_seq r of None \<Rightarrow> h | Some n \<Rightarrow> if n > h then n else h) rs head"

definition restore_commit :: "id \<Rightarrow> ctx \<Rightarrow> user \<Rightarrow> workspace \<Rightarrow> commit \<Rightarrow> int \<Rightarrow> string \<Rightarrow> string \<Rightarrow> commit" where
  "restore_commit i c u w latest head message operation =
     \<lparr>cm_id = i, cm_ws = w_id w, cm_parent = Some (cm_id latest), cm_base = cm_head latest, cm_head = head, cm_message = message,
      cm_policy = RevisionPolicyPreserve, cm_operation = operation, cm_domainVersion = [], cm_createdBy = u_id u, cm_createdAt = cx_now c\<rparr>"

definition close_restore ::
    "env \<Rightarrow> version_of \<Rightarrow> ctx \<Rightarrow> user \<Rightarrow> workspace \<Rightarrow> string \<Rightarrow> string \<Rightarrow> commit_db \<Rightarrow> ((commit \<times> commit_change list) \<times> commit_db) res" where
  "close_restore env version c u w message operation s =
     bindE (LatestCommit (w_id w) s) (\<lambda>latest.
     let pending = PendingRevisions (w_id w) (cm_head latest) s in
     failIf (pending = []) (Conflict ''nothing_to_restore'') (
     let (i, t) = fresh env (cd_db s) in
     bindE (CreateCommit version
         (restore_commit i c u w latest (max_sequence (w_headSequence w) pending) message operation)
         (commit_changes pending) (s\<lparr>cd_db := t\<rparr>)) (\<lambda>(created, s1).
     bindE (AttachRevisionsToCommit (cm_id (fst created)) (map rv_id pending) s1) (\<lambda>s2. Inr (created, s2)))))"

definition restoreBundle ::
    "env \<Rightarrow> (string \<Rightarrow> string) \<Rightarrow> version_of \<Rightarrow> string list \<Rightarrow> ctx \<Rightarrow> portable_bundle \<Rightarrow> int \<Rightarrow> string \<Rightarrow> string \<Rightarrow> commit_db
     \<Rightarrow> ((commit \<times> commit_change list) \<times> commit_db) res" where
  "restoreBundle env sha version known c b0 expected operation message s =
     (let b = fst (CanonicalizeInPlace b0) in
      bindE (ps_writeContext c) (\<lambda>((current, u), scope).
      failIf (\<not> CanAdmin (wa_role scope)) (Forbidden ''workspace_admin_required'') (
      let ws = w_id (wa_workspace scope) in
      MapConflict (
      bindE (LockWorkspaceSnapshot ws (cd_db s)) (\<lambda>_.
      bindE (getWorkspace (w_identity (wa_workspace scope)) (cd_db s)) (\<lambda>live.
      failIf (expected \<noteq> w_headSequence live) (Conflict ''head_sequence_conflict'') (
      bindE (BeginBatch env c (Some (w_id live)) operation (u_id u) (cd_db s)) (\<lambda>(c1, t).
      let previous = ListWorkspaceIntegrations (w_id live) s in
      bindE (ReplaceWorkspaceIntegrations known (w_id live) (bn_installedIntegrations b) (s\<lparr>cd_db := t\<rparr>)) (\<lambda>s1.
      let changed = (sha (installs_text previous) \<noteq> sha (json_text (JArr (map JObj (bn_installedIntegrations b))))) in
      bindE (restore_workspace env sha c1 u b changed live (cd_db s1)) (\<lambda>(w, t1).
      bindE (foldE (restore_kind env sha c1 u (w_id w) b) restoreOrder t1) (\<lambda>t2.
      bindE (getWorkspace (w_identity w) t2) (\<lambda>live2.
      bindE (applyStartupComposition env c1 live2 b (u_id u) ''restore'' t2) (\<lambda>t3.
      close_restore env version c1 u w message operation (s1\<lparr>cd_db := t3\<rparr>))))))))))))))"

definition PlanCommitRestore ::
    "env \<Rightarrow> (id \<Rightarrow> int \<Rightarrow> commit_db \<Rightarrow> portable_bundle res) \<Rightarrow> ctx \<Rightarrow> id \<Rightarrow> commit_db \<Rightarrow> plan_counts res" where
  "PlanCommitRestore env exported c k s =
     bindE (ctx_Access c) (\<lambda>scope.
     failIf (\<not> CanAdmin (wa_role scope)) (Forbidden ''workspace_admin_required'') (
     let ws = w_id (wa_workspace scope) in
     bindE (MapNotFound (GetCommit ws k s)) (\<lambda>(cm, chs).
     bindE (exported ws (cm_head cm) s) (\<lambda>b.
     planExactRestore (e_nf env) ws b (cd_db s)))))"

definition RestoreCommit ::
    "env \<Rightarrow> (string \<Rightarrow> string) \<Rightarrow> version_of \<Rightarrow> string list \<Rightarrow> (id \<Rightarrow> int \<Rightarrow> commit_db \<Rightarrow> portable_bundle res) \<Rightarrow> ctx \<Rightarrow> id \<Rightarrow> int \<Rightarrow> commit_db
     \<Rightarrow> ((commit \<times> commit_change list) \<times> commit_db) res" where
  "RestoreCommit env sha version known exported c k expected s =
     bindE (ctx_Access c) (\<lambda>scope.
     let ws = w_id (wa_workspace scope) in
     bindE (MapNotFound (GetCommit ws k s)) (\<lambda>(cm, chs).
     bindE (exported ws (cm_head cm) s) (\<lambda>b.
     restoreBundle env sha version known c b expected ''commit_restore'' (''Restore commit '' @ k) s)))"

end
