(* ===== verification/RestoreLaws.thy ===== *)
theory RestoreLaws
  imports CommitService Restore
begin

text \<open>
  A restore is a run of the log that ends in a commit: whatever it writes is recorded, the commit takes all that is pending,
  and the workspace has the commit as its head.
\<close>

section \<open>Statements as runs of the log\<close>

lemma getWorkspace_Inr:
  assumes "getWorkspace identity s = Inr w"
  shows "head_of s (w_id w) = Some (w_headSequence w)"
proof -
  obtain r where r: "getWorkspaceByID r s = Inr w" using assms by (auto simp: getWorkspace_def split: option.splits)
  then obtain x where x: "ws_of s r = Some x" "w_id w = w_id (ws_value x)" "w_headSequence w = w_headSequence (ws_value x)"
    by (auto simp: getWorkspaceByID_def split: option.splits)
  moreover have "w_id (ws_value x) = r" using x(1) by (auto simp: ws_of_def dest!: find_SomeD)
  ultimately show ?thesis by (simp add: head_of_def)
qed

lemma update_any_run [runs]: "UpdateDocument env now v e f s = Inr (d, t) \<Longrightarrow> log_run env' s t"
proof -
  assume up: "UpdateDocument env now v e f s = Inr (d, t)"
  show ?thesis
  proof (cases "d_type v = CollectionFacets \<or> d_type v = CollectionFacetDocuments")
    case True
    then show ?thesis using up facet_kinds_apart by (auto simp: UpdateDocument_def split: if_splits intro: runs)
  next
    case False
    then have "d_type v \<in> set DocumentCollections" using up by (auto simp: UpdateDocument_def tableFor_def bindE_Inr_iff split: if_splits)
    then show ?thesis by (rule update_document_run [OF up])
  qed
qed

lemma insert_any_run [runs]: "InsertDocument env now v f s = Inr (d, t) \<Longrightarrow> log_run env' s t"
proof -
  assume up: "InsertDocument env now v f s = Inr (d, t)"
  show ?thesis
  proof (cases "d_type v = CollectionFacets \<or> d_type v = CollectionFacetDocuments")
    case True
    then show ?thesis using up facet_kinds_apart by (auto simp: InsertDocument_def split: if_splits intro: runs)
  next
    case False
    then have "d_type v \<in> set DocumentCollections" using up by (auto simp: InsertDocument_def tableFor_def bindE_Inr_iff split: if_splits)
    then show ?thesis by (rule insert_document_run [OF up])
  qed
qed

lemma UpdateWorkspace_Inr:
  assumes "UpdateWorkspace identity patch revision actor s = Inr (w, t)"
  shows "db_revisions t = db_revisions s" "head_of t j = head_of s j" "head_of t (w_id w) = Some (w_headSequence w)"
proof -
  obtain v p f where t: "t = s\<lparr>db_workspaces := updateWhere p f (db_workspaces s)\<rparr>"
    and f: "\<And>x. w_id (ws_value (f x)) = w_id (ws_value x)" "\<And>x. w_headSequence (ws_value (f x)) = w_headSequence (ws_value x)"
    and g: "getWorkspace v t = Inr w"
    using assms by (auto simp: UpdateWorkspace_def Let_def bindE_Inr_iff failIf_Inr_iff)
  show "db_revisions t = db_revisions s" by (simp add: t)
  have "map_option (\<lambda>x. w_headSequence (ws_value x)) (find (\<lambda>x. w_id (ws_value x) = j) (updateWhere p f xs))
      = map_option (\<lambda>x. w_headSequence (ws_value x)) (find (\<lambda>x. w_id (ws_value x) = j) xs)" for xs
    by (induction xs) (auto simp: f)
  then show "head_of t j = head_of s j" by (simp add: head_of_def ws_of_def t)
  show "head_of t (w_id w) = Some (w_headSequence w)" by (rule getWorkspace_Inr [OF g])
qed

lemma update_workspace_run [runs]: "UpdateWorkspace identity patch revision actor s = Inr (w, t) \<Longrightarrow> log_run env s t"
  by (intro r_into_rtranclp log_step.data) (rule UpdateWorkspace_Inr; assumption)+

section \<open>The parts of a restore\<close>

lemma rewrite_document_run [runs]: "rewrite_document env c d e f op s = Inr t \<Longrightarrow> log_run env s t"
  by (auto simp: rewrite_document_def res_iffs) (meson runs log_run_trans)

lemma restore_existing_run [runs]: "restore_existing env sha c u ws kind targets d s = Inr t \<Longrightarrow> log_run env s t"
  by (auto simp: restore_existing_def Let_def res_iffs split: option.splits if_splits intro: runs)

lemma restore_new_run [runs]: "restore_new env c u ws kind item s = Inr t \<Longrightarrow> log_run env s t"
proof -
  assume "restore_new env c u ws kind item s = Inr t"
  then obtain d f s1 e r where "InsertDocument env (cx_now c) d f (snd (fresh env s)) = Inr (e, s1)"
    "RecordDocument env c e ''restore'' None s1 = Inr (r, t)"
    by (auto simp: restore_new_def Let_def bindE_Inr_iff split_def)
  then show ?thesis by (meson runs log_run_trans)
qed

lemma drop_facet_run [runs]: "drop_facet env c u targets facet s = Inr t \<Longrightarrow> log_run env s t"
  by (auto simp: drop_facet_def res_iffs split: if_splits) (meson runs log_run_trans)

lemma settle_facets_run [runs]: "settle_facets env c u ws b s = Inr t \<Longrightarrow> log_run env s t"
proof -
  assume "settle_facets env c u ws b s = Inr t"
  then obtain targets s1 order changed s2 where
    d: "foldE (drop_facet env c u targets) (ListFacets ws False s) s = Inr s1"
    and r: "ReorderFacets (cx_now c) ws order (u_id u) s1 = Inr (changed, s2)"
    and f: "foldE (\<lambda>d s. bindE (RecordDocument env c d ''restore'' None s) (\<lambda>(r, s'). Inr s')) changed s2 = Inr t"
    by (auto simp: settle_facets_def Let_def res_iffs)
  have "log_run env s s1" using d by (rule fold_run [where g = "\<lambda>s. s"]) (rule runs)
  moreover have "log_run env s2 t" using f by (rule fold_run [where g = "\<lambda>s. s"]) (auto simp: bindE_Inr_iff intro: runs)
  ultimately show ?thesis using r by (meson runs log_run_trans)
qed

lemma restore_kind_run [runs]: "restore_kind env sha c u ws b kind s = Inr t \<Longrightarrow> log_run env s t"
proof -
  assume "restore_kind env sha c u ws b kind s = Inr t"
  then obtain targets existing items s1 s2 where
    e: "foldE (restore_existing env sha c u ws kind targets) existing s = Inr s1"
    and n: "foldE (restore_new env c u ws kind) items s1 = Inr s2"
    and f: "(if kind = CollectionFacetDocuments then settle_facets env c u ws b s2 else Inr s2) = Inr t"
    by (auto simp: restore_kind_def Let_def bindE_Inr_iff)
  have "log_run env s s1" using e by (rule fold_run [where g = "\<lambda>s. s"]) (rule runs)
  moreover have "log_run env s1 s2" using n by (rule fold_run [where g = "\<lambda>s. s"]) (rule runs)
  moreover have "log_run env s2 t" using f by (auto split: if_splits intro: runs)
  ultimately show ?thesis by (meson log_run_trans)
qed

lemma startup_run [runs]: "applyStartupComposition env c w b a op s = Inr t \<Longrightarrow> log_run env s t"
  by (auto simp: applyStartupComposition_def Let_def res_iffs split: option.splits if_splits) (meson runs log_run_trans)+

lemma touch_workspace_run [runs]: "touch_workspace env c u identity s = Inr t \<Longrightarrow> log_run env s t"
  by (auto simp: touch_workspace_def res_iffs) (meson runs log_run_trans)

text \<open>The workspace comes from a state of the run, so its head is one the log has had.\<close>

lemma restore_workspace_run:
  assumes "restore_workspace env sha c u b ch live s = Inr (w, t)" "head_of s (w_id live) = Some (w_headSequence live)"
  shows "\<exists>m. log_run env s m \<and> head_of m (w_id w) = Some (w_headSequence w) \<and> log_run env m t"
proof -
  obtain row s1 where 1: "restore_workspace_row env sha c u b live s = Inr (row, s1)"
    and 2: "(if ch \<and> \<not> fst row then bindE (touch_workspace env c u (w_identity (snd row)) s1) (\<lambda>s2. Inr (snd row, s2))
      else Inr (snd row, s1)) = Inr (w, t)"
    using assms(1) by (auto simp: restore_workspace_def bindE_Inr_iff)
  have w: "w = snd row" "log_run env s1 t" using 2 by (auto simp: res_iffs split: if_splits intro: runs)
  have "(snd row = live \<and> s1 = s) \<or> (\<exists>i p n a m. UpdateWorkspace i p n a s = Inr (snd row, m) \<and> RecordWorkspace env c (snd row) ''restore'' m = Inr s1)"
    using 1 by (auto simp: restore_workspace_row_def Let_def res_iffs split: if_splits)
  then show ?thesis
  proof (elim disjE exE conjE)
    assume "snd row = live" "s1 = s"
    then show ?thesis using assms(2) w by blast
  next
    fix i p n a m
    assume up: "UpdateWorkspace i p n a s = Inr (snd row, m)" and rec: "RecordWorkspace env c (snd row) ''restore'' m = Inr s1"
    show ?thesis using update_workspace_run [OF up] UpdateWorkspace_Inr(3) [OF up] record_workspace_run [OF rec] w
      by (meson log_run_trans)
  qed
qed

section \<open>The head after a run\<close>

lemma log_step_head:
  assumes "log_step env s t" "head_of s ws = Some h"
  shows "set (db_revisions s) \<subseteq> set (db_revisions t) \<and> (head_of t ws = Some h
    \<or> (\<exists>r \<in> set (db_revisions t). rv_ws r = ws \<and> rv_seq r = Some (h + 1) \<and> head_of t ws = Some (h + 1)))"
  using assms
proof (induction rule: log_step.induct)
  case (entry c ws' kind i ident n op frm snap actor s r t)
  note a = append_revision_Inr [OF entry(1)]
  show ?case using a(2,3,5) a(4) [of ws] entry(2) by (cases "ws = ws'") (auto simp: revision_matches_def)
qed auto

lemma log_run_head:
  assumes "log_run env s t" "head_of s ws = Some h"
  shows "\<exists>h'. head_of t ws = Some h' \<and> h \<le> h' \<and> (h' = h \<or> (\<exists>r \<in> set (db_revisions t). rv_ws r = ws \<and> rv_seq r = Some h'))"
  using assms
proof (induction rule: rtranclp_induct)
  case (step t u)
  then obtain h' where h: "head_of t ws = Some h'" "h \<le> h'" "h' = h \<or> (\<exists>r \<in> set (db_revisions t). rv_ws r = ws \<and> rv_seq r = Some h')"
    by blast
  from log_step_head [OF step(2) h(1)] h(2,3) show ?case by fastforce
qed simp

lemma max_sequence_spec:
  "head \<le> max_sequence head rs \<and> (\<forall>r \<in> set rs. seq_of r \<le> max_sequence head rs \<or> rv_seq r = None)
   \<and> (max_sequence head rs = head \<or> (\<exists>r \<in> set rs. rv_seq r = Some (max_sequence head rs)))"
  unfolding max_sequence_def
proof (induction rs arbitrary: head)
  case (Cons r rs)
  show ?case
  proof (cases "rv_seq r")
    case (Some n)
    then show ?thesis using Cons.IH [of "if n > head then n else head"] by (auto simp: seq_of_def)
  qed (use Cons.IH [of head] in auto)
qed simp

text \<open>The sequence the commit ends at is the head of the workspace.\<close>

lemma restored_head:
  assumes inv: "commits_inv s" and run: "log_run env (cd_db s) m" "head_of m ws = Some h0" "log_run env m d"
    and latest: "LatestCommit ws s = Inr latest" and h: "head_of (cd_db s) ws = Some h"
  shows "head_of d ws = Some (max_sequence h0 (PendingRevisions ws (cm_head latest) (s\<lparr>cd_db := d\<rparr>)))"
proof -
  let ?s = "s\<lparr>cd_db := d\<rparr>" let ?p = "PendingRevisions ws (cm_head latest) ?s"
  have all: "log_run env (cd_db s) d" using run(1,3) by (rule log_run_trans)
  have inv': "commits_inv ?s" by (rule log_run_inv [OF all refl inv])
  have l: "LatestCommit ws ?s = Inr latest" using latest by simp
  have lh: "cm_head latest \<le> h"
    using latest_bounds(1) [OF commits_invD(4) [OF inv] latest] commits_invD(4) [OF inv, of ws] h by (auto simp: commits_chained_def)
  obtain hm where "head_of m ws = Some hm" "h \<le> hm" using log_run_head [OF run(1) h] by blast
  then have hh0: "h \<le> h0" using run(2) by simp
  obtain h' where h': "head_of d ws = Some h'" "h0 \<le> h'" "h' = h0 \<or> (\<exists>r \<in> set (db_revisions d). rv_ws r = ws \<and> rv_seq r = Some h')"
    using log_run_head [OF run(3,2)] by blast
  have below: "n \<le> h'" if "r \<in> set ?p" "rv_seq r = Some n" for r n
    using that log_numberedD(1) [OF commits_invD(3) [OF inv', of ws], of r n h'] h'(1)
    by (simp add: pending_set is_pending_def)
  have "h' \<le> max_sequence h0 ?p"
  proof (cases "h' = h0")
    case True
    then show ?thesis using max_sequence_spec [of h0 ?p] by simp
  next
    case False
    then obtain r where r: "r \<in> set (db_revisions d)" "rv_ws r = ws" "rv_seq r = Some h'" using h'(3) by blast
    have "cm_head latest < h'" using lh hh0 h'(2) False by linarith
    then have "r \<in> set ?p" using pending_after [OF inv' l, of r] r by (simp add: pending_set)
    then show ?thesis using max_sequence_spec [of h0 ?p] r(3) by (auto simp: seq_of_def)
  qed
  moreover have "max_sequence h0 ?p \<le> h'" using max_sequence_spec [of h0 ?p] below h'(2) by metis
  ultimately show ?thesis using h'(1) by simp
qed


section \<open>The commit of a restore\<close>

lemma close_restore_Inr:
  assumes inv: "commits_inv s" and m: "log_run env (cd_db s) m" "head_of m (w_id w) = Some (w_headSequence w)" "log_run env m d"
    and h: "head_of (cd_db s) (w_id w) = Some h"
    and cl: "close_restore env version c u w message op (s\<lparr>cd_db := d\<rparr>) = Inr ((cm, chs), t)"
  shows "commits_inv t" "LatestCommit (w_id w) t = Inr cm" "cm_ws cm = w_id w" "head_of (cd_db t) (w_id w) = Some (cm_head cm)"
    "PendingRevisions (w_id w) (cm_head cm) t = []"
    "\<exists>latest. LatestCommit (w_id w) s = Inr latest \<and> cm_parent cm = Some (cm_id latest) \<and> cm_base cm = cm_head latest
       \<and> (\<forall>r \<in> set (db_revisions (cd_db t)). committed_in t r = Some (cm_id cm) \<longleftrightarrow> rv_ws r = w_id w \<and> (\<exists>n. rv_seq r = Some n \<and> cm_base cm < n))"
    "length chs = length (remdups (map rev_key (PendingRevisions (w_id w) (cm_base cm) (s\<lparr>cd_db := d\<rparr>))))"
    "cm_operation cm = op" "cm_message cm = message" "log_run env (cd_db s) d" "db_revisions (cd_db t) = db_revisions d"
    "head_of d (w_id w) = Some (cm_head cm)"
proof -
  let ?ws = "w_id w" and ?s = "s\<lparr>cd_db := d\<rparr>"
  show run: "log_run env (cd_db s) d" using m(1,3) by (rule log_run_trans)
  have inv': "commits_inv ?s" by (rule log_run_inv [OF run refl inv])
  obtain latest created s1 where latest: "LatestCommit ?ws s = Inr latest"
    and ne: "PendingRevisions ?ws (cm_head latest) ?s \<noteq> []"
    and cr: "CreateCommit version (restore_commit (fst (fresh env d)) c u w latest
        (max_sequence (w_headSequence w) (PendingRevisions ?ws (cm_head latest) ?s)) message op)
        (commit_changes (PendingRevisions ?ws (cm_head latest) ?s)) (?s\<lparr>cd_db := snd (fresh env d)\<rparr>) = Inr (created, s1)"
    and at: "AttachRevisionsToCommit (cm_id (fst created)) (map rv_id (PendingRevisions ?ws (cm_head latest) ?s)) s1 = Inr t"
    and c: "created = (cm, chs)"
    using cl by (auto simp: close_restore_def Let_def bindE_Inr_iff failIf_Inr_iff split_def)
  let ?f = "?s\<lparr>cd_db := snd (fresh env d)\<rparr>" and ?p = "PendingRevisions ?ws (cm_head latest) ?s"
  let ?v = "restore_commit (fst (fresh env d)) c u w latest (max_sequence (w_headSequence w) ?p) message op"
  have finv: "commits_inv ?f" by (rule data_inv [OF inv']) simp_all
  have fp: "PendingRevisions ?ws (cm_head latest) ?f = ?p" by (rule pending_data) simp
  have fl: "LatestCommit ?ws ?f = Inr latest" using latest by simp
  have head: "head_of d ?ws = Some (cm_head ?v)"
    using restored_head [OF inv m(1,2,3) latest h] by (simp add: restore_commit_def)
  then have fh: "head_of (cd_db ?f) ?ws = Some (cm_head ?v)" by (simp add: head_of_def ws_of_def)
  have v: "cm_ws ?v = ?ws" "cm_parent ?v = Some (cm_id latest)" "cm_base ?v = cm_head latest" "cm_head ?v = cm_head ?v"
    by (simp_all add: restore_commit_def)
  note CC = CreateCommit_Inr [OF cr [unfolded c] finv]
  note ck = commit_keeps_inv [OF finv fl fh _ _ v(1,2,3,4) cr [unfolded c] at [unfolded c fst_conv], unfolded fp, OF refl ne]
  obtain dv where dv: "cm = ?v\<lparr>cm_domainVersion := dv\<rparr>" using CC(1) by blast
  then have cm: "cm_ws cm = ?ws" "cm_parent cm = Some (cm_id latest)" "cm_base cm = cm_head latest" "cm_head cm = cm_head ?v"
    "cm_operation cm = op" "cm_message cm = message" by (simp_all add: restore_commit_def)
  show "commits_inv t" by (rule ck(1))
  show "LatestCommit ?ws t = Inr cm" by (rule ck(3))
  show "cm_ws cm = ?ws" "cm_operation cm = op" "cm_message cm = message" using cm by simp_all
  show "head_of d ?ws = Some (cm_head cm)" unfolding cm(4) by (rule head)
  show "head_of (cd_db t) ?ws = Some (cm_head cm)" unfolding ck(6) cm(4) by (rule fh)
  show "PendingRevisions ?ws (cm_head cm) t = []" unfolding cm(4) by (rule ck(2))
  show revs: "db_revisions (cd_db t) = db_revisions d" unfolding ck(6) by simp
  have "committed_in t r = Some (cm_id cm) \<longleftrightarrow> rv_ws r = ?ws \<and> (\<exists>n. rv_seq r = Some n \<and> cm_base cm < n)"
    if r: "r \<in> set (db_revisions d)" for r
  proof -
    have "committed_in t r = Some (cm_id cm) \<longleftrightarrow> r \<in> set ?p" using ck(4,5) [of r] r by auto
    also have "\<dots> \<longleftrightarrow> rv_ws r = ?ws \<and> (\<exists>n. rv_seq r = Some n \<and> cm_base cm < n)"
      using pending_after [OF inv', of ?ws latest r] latest r cm(3) by (auto simp: pending_set is_pending_def)
    finally show ?thesis .
  qed
  then show "\<exists>latest. LatestCommit ?ws s = Inr latest \<and> cm_parent cm = Some (cm_id latest) \<and> cm_base cm = cm_head latest
       \<and> (\<forall>r \<in> set (db_revisions (cd_db t)). committed_in t r = Some (cm_id cm) \<longleftrightarrow> rv_ws r = ?ws \<and> (\<exists>n. rv_seq r = Some n \<and> cm_base cm < n))"
    unfolding revs using latest cm by blast
  have "length (first_keys rs) = length (remdups (map rev_key rs))" for rs
    by (simp add: first_keys_def length_remdups_card_conv)
  then show "length chs = length (remdups (map rev_key (PendingRevisions ?ws (cm_base cm) ?s)))"
    using CC(7) cm(3) by (simp add: commit_changes_def)
qed

section \<open>The whole restore\<close>

definition workspaces_keyed :: "db \<Rightarrow> bool" where
  "workspaces_keyed s \<longleftrightarrow> distinct (map (\<lambda>w. w_id (ws_value w)) (db_workspaces s))"

lemma find_by_id: "distinct (map f xs) \<Longrightarrow> v \<in> set xs \<Longrightarrow> find (\<lambda>r. f r = f v) xs = Some v"
  by (induction xs) force+

lemma getWorkspace_keyed:
  assumes "getWorkspace identity s = Inr w" "workspaces_keyed s"
  shows "w_identity w = identity"
proof -
  obtain x where x: "x \<in> set (db_workspaces s)" "w_identity (ws_value x) = identity" "getWorkspaceByID (w_id (ws_value x)) s = Inr w"
    using assms(1) by (auto simp: getWorkspace_def dest!: find_SomeD split: option.splits)
  have "ws_of s (w_id (ws_value x)) = Some x"
    unfolding ws_of_def by (rule find_by_id [of "\<lambda>w. w_id (ws_value w)"]) (use assms(2) x(1) in \<open>simp_all add: workspaces_keyed_def\<close>)
  then show ?thesis using x(2,3) by (auto simp: getWorkspaceByID_def split: option.splits)
qed

lemma getWorkspace_cong: "same_data s t \<Longrightarrow> db_workspaces t = db_workspaces s \<Longrightarrow> getWorkspace i t = getWorkspace i s"
proof -
  assume a: "same_data s t" "db_workspaces t = db_workspaces s"
  then have "ws_of t = ws_of s" "db_user t = db_user s" "joined_identity t = joined_identity s"
    by (simp_all add: fun_eq_iff ws_of_def db_user_def joined_identity_def row_by_id_def same_data_def split: option.splits)
  then have "getWorkspaceByID j t = getWorkspaceByID j s" for j by (simp add: getWorkspaceByID_def split: option.split)
  then show ?thesis by (simp add: getWorkspace_def a(2) split: option.split)
qed

lemma UpdateWorkspace_id:
  assumes "UpdateWorkspace identity patch revision actor s = Inr (w, t)"
  shows "\<exists>current. getWorkspace identity s = Inr current \<and> w_id w = w_id current"
proof -
  let ?v = "\<lambda>current. w_identity (patched_workspace patch current)"
  obtain current startup where c: "getWorkspace identity s = Inr current"
    and u: "\<forall>x \<in> set (db_workspaces s). w_id (ws_value x) \<noteq> w_id current \<longrightarrow> w_identity (ws_value x) \<noteq> ?v current"
    and t: "t = s\<lparr>db_workspaces := updateWhere (\<lambda>x. w_id (ws_value x) = w_id current \<and> w_revision (ws_value x) = revision)
      (rewritten_workspace (patched_workspace patch current) startup actor) (db_workspaces s)\<rparr>"
    and g: "getWorkspace (?v current) t = Inr w"
    using assms by (fastforce simp: UpdateWorkspace_def Let_def bindE_Inr_iff failIf_Inr_iff)
  obtain x where x: "x \<in> set (db_workspaces t)" "w_identity (ws_value x) = ?v current" "getWorkspaceByID (w_id (ws_value x)) t = Inr w"
    using g by (auto simp: getWorkspace_def dest!: find_SomeD split: option.splits)
  have "x \<in> set (db_workspaces s) \<or> w_id (ws_value x) = w_id current" using x(1) t by (auto simp: set_updateWhere split: if_splits)
  then have "w_id (ws_value x) = w_id current" using u x(2) by auto
  moreover have "w_id w = w_id (ws_value x)"
    using x(3) by (auto simp: getWorkspaceByID_def ws_of_def dest!: find_SomeD split: option.splits)
  ultimately show ?thesis using c by simp
qed

lemma restore_workspace_id:
  assumes "restore_workspace env sha c u b ch live s = Inr (w, t)" "getWorkspace (w_identity live) s = Inr live"
  shows "w_id w = w_id live"
proof -
  obtain row s1 where 1: "restore_workspace_row env sha c u b live s = Inr (row, s1)" "w = snd row"
    using assms(1) by (auto simp: restore_workspace_def res_iffs split: if_splits)
  then have "w = live \<or> (\<exists>w0 p n a m. getWorkspace (w_identity live) s = Inr w0 \<and> UpdateWorkspace (w_identity w0) p n a s = Inr (w, m))"
    by (auto simp: restore_workspace_row_def Let_def res_iffs split: if_splits)
  then show ?thesis using assms(2) UpdateWorkspace_id by fastforce
qed

lemma insert_install_Inr: "insert_install known ws item s = Inr t \<Longrightarrow> \<exists>rows. t = s\<lparr>cd_installed := rows\<rparr>"
  by (auto simp: insert_install_def Let_def failIf_Inr_iff)

lemma ReplaceWorkspaceIntegrations_Inr:
  assumes "ReplaceWorkspaceIntegrations known ws items s = Inr t"
  shows "\<exists>rows. t = s\<lparr>cd_installed := rows\<rparr>"
proof -
  have "foldE (insert_install known ws) items u = Inr t \<Longrightarrow> \<exists>rows. t = u\<lparr>cd_installed := rows\<rparr>" for u
    by (erule foldE_invariant [where P = "\<lambda>t. \<exists>rows. t = u\<lparr>cd_installed := rows\<rparr>"])
       (auto dest!: insert_install_Inr intro: exI [of _ "cd_installed u"])
  from this [of "s\<lparr>cd_installed := filter (\<lambda>r. ir_ws r \<noteq> ws) (cd_installed s)\<rparr>"] show ?thesis
    using assms by (fastforce simp: ReplaceWorkspaceIntegrations_def)
qed

lemma installed_data [simp]: "commits_inv (s\<lparr>cd_installed := rows\<rparr>) = commits_inv s"
  "LatestCommit ws (s\<lparr>cd_installed := rows\<rparr>) = LatestCommit ws s" "PendingRevisions ws b (s\<lparr>cd_installed := rows\<rparr>) = PendingRevisions ws b s"
  by (simp_all add: commits_inv_def commits_chained_def log_attached_def commits_of_def committed_in_def LatestCommit_def
    PendingRevisions_def is_pending_def cong: filter_cong)

lemma log_run_revisions: "log_run env s t \<Longrightarrow> set (db_revisions s) \<subseteq> set (db_revisions t)"
proof (induction rule: rtranclp_induct)
  case (step t u)
  from step(2) have "set (db_revisions t) \<subseteq> set (db_revisions u)"
  proof cases
    case (entry c ws kind i ident n op frm snap actor r)
    show ?thesis using append_revision_Inr(2) [OF entry] by auto
  qed simp
  with step.IH show ?case by blast
qed simp

text \<open>A restore that returns is a run of the log from the current head, followed by a commit of all that is pending.\<close>

lemma restoreBundle_Inr:
  assumes inv: "commits_inv s" and keyed: "workspaces_keyed (cd_db s)"
    and rb: "restoreBundle env sha version known c b expected op message s = Inr ((cm, chs), t)"
  obtains scope live latest d where
    "ctx_Access c = Inr scope" "CanAdmin (wa_role scope)" "getWorkspace (w_identity (wa_workspace scope)) (cd_db s) = Inr live"
    "cm_ws cm = w_id live" "head_of (cd_db s) (cm_ws cm) = Some expected"
    "commits_inv t" "LatestCommit (cm_ws cm) s = Inr latest" "cm_parent cm = Some (cm_id latest)" "cm_base cm = cm_head latest"
    "LatestCommit (cm_ws cm) t = Inr cm" "head_of (cd_db t) (cm_ws cm) = Some (cm_head cm)" "expected \<le> cm_head cm"
    "PendingRevisions (cm_ws cm) (cm_head cm) t = []"
    "\<And>r. r \<in> set (db_revisions (cd_db t)) \<Longrightarrow>
      committed_in t r = Some (cm_id cm) \<longleftrightarrow> rv_ws r = cm_ws cm \<and> (\<exists>n. rv_seq r = Some n \<and> cm_base cm < n)"
    "log_run env (cd_db s) d" "db_revisions (cd_db t) = db_revisions d" "cm_operation cm = op" "cm_message cm = message"
proof -
  define b1 where "b1 = fst (CanonicalizeInPlace b)"
  from rb obtain current u scope live c1 t0 s1 w t1 t2 live2 t3 where
    wc: "ps_writeContext c = Inr ((current, u), scope)" and adm: "CanAdmin (wa_role scope)"
    and live: "getWorkspace (w_identity (wa_workspace scope)) (cd_db s) = Inr live" and ex: "expected = w_headSequence live"
    and bb: "BeginBatch env c (Some (w_id live)) op (u_id u) (cd_db s) = Inr (c1, t0)"
    and ri: "ReplaceWorkspaceIntegrations known (w_id live) (bn_installedIntegrations b1) (s\<lparr>cd_db := t0\<rparr>) = Inr s1"
    and rw: "restore_workspace env sha c1 u b1 (sha (installs_text (ListWorkspaceIntegrations (w_id live) s))
        \<noteq> sha (json_text (JArr (map JObj (bn_installedIntegrations b1))))) live (cd_db s1) = Inr (w, t1)"
    and rk: "foldE (restore_kind env sha c1 u (w_id w) b1) restoreOrder t1 = Inr t2"
    and st: "applyStartupComposition env c1 live2 b1 (u_id u) ''restore'' t2 = Inr t3"
    and cl: "close_restore env version c1 u w message op (s1\<lparr>cd_db := t3\<rparr>) = Inr ((cm, chs), t)"
    unfolding restoreBundle_def Let_def b1_def [symmetric] by (auto simp: bindE_Inr_iff failIf_Inr_iff)
  note bi = BeginBatch_Inr [OF bb]
  obtain rows where rows: "s1 = s\<lparr>cd_db := t0, cd_installed := rows\<rparr>" using ReplaceWorkspaceIntegrations_Inr [OF ri] by auto
  then have s1: "cd_db s1 = t0" by simp
  have inv1: "commits_inv s1" unfolding rows using data_inv [OF inv bi(3,2)] by simp
  have gw: "getWorkspace i t0 = getWorkspace i (cd_db s)" for i by (rule getWorkspace_cong [OF bi(1,2)])
  have "w_identity live = w_identity (wa_workspace scope)" by (rule getWorkspace_keyed [OF live keyed])
  then have wid: "w_id w = w_id live" using restore_workspace_id [OF rw] live gw s1 by simp
  have hl: "head_of t0 (w_id live) = Some (w_headSequence live)"
    using getWorkspace_Inr [OF live] head_of_cong [OF bi(2)] by simp
  obtain m where m: "log_run env t0 m" "head_of m (w_id w) = Some (w_headSequence w)" "log_run env m t1"
    using restore_workspace_run [OF rw [unfolded s1] hl] by blast
  have "log_run env t1 t2" using rk by (rule fold_run [where g = "\<lambda>s. s"]) (rule restore_kind_run)
  then have "log_run env m t3" using m(3) startup_run [OF st] by (meson log_run_trans)
  note cr = close_restore_Inr [OF inv1, unfolded s1, OF m(1,2) this _ cl, unfolded wid, OF hl]
  have run: "log_run env (cd_db s) t3" using batch_run [OF bb] cr(10) by (rule log_run_trans)
  have le: "expected \<le> cm_head cm"
  proof -
    obtain h' where "head_of t3 (w_id live) = Some h'" "w_headSequence live \<le> h'" using log_run_head [OF cr(10) hl] by blast
    then show ?thesis using cr(12) ex by simp
  qed
  obtain latest where la: "LatestCommit (w_id live) s1 = Inr latest" "cm_parent cm = Some (cm_id latest)" "cm_base cm = cm_head latest"
    "\<forall>r \<in> set (db_revisions (cd_db t)). committed_in t r = Some (cm_id cm) \<longleftrightarrow> rv_ws r = w_id live \<and> (\<exists>n. rv_seq r = Some n \<and> cm_base cm < n)"
    using cr(6) by blast
  have "ctx_Access c = Inr scope" using wc by (auto simp: ps_writeContext_def bindE_Inr_iff failIf_Inr_iff)
  moreover have "LatestCommit (w_id live) s = Inr latest" using la(1) by (simp add: rows)
  ultimately show ?thesis
    using that [of scope live latest t3] adm live la(2,3,4) cr run le ex getWorkspace_Inr [OF live] by simp
qed

lemma document_case_Inr_iff: "(case x of SnapDocument d \<Rightarrow> f d | SnapWorkspace w \<Rightarrow> Inl e | SnapOther j \<Rightarrow> Inl e') = Inr v
    \<longleftrightarrow> (\<exists>d. x = SnapDocument d \<and> f d = Inr v)"
  by (cases x) auto

lemma restore_revision_run:
  assumes "RestoreRevision env c kind identity k e s = Inr (d, t)"
  shows "log_run env s t"
proof -
  obtain target folder s1 p r where "UpdateDocument env (cx_now c) target e folder s = Inr (d, s1)"
    "RecordDocument env c d ''restore'' p s1 = Inr (r, t)"
    using assms by (auto simp: RestoreRevision_def Let_def bindE_Inr_iff failIf_Inr_iff document_case_Inr_iff)
  then show ?thesis by (meson update_any_run record_run log_run_trans)
qed

end
