(* ===== verification/CommitOutcome.thy ===== *)
theory CommitOutcome
  imports RestoreLaws
begin

text \<open>
  What a commit leaves behind: it follows the last commit, takes every pending revision, and its changes name every
  touched document once, with its last revision. Commits, restores and commands in any order keep the invariant.
\<close>

section \<open>One commit\<close>

definition describes_commit :: "commit \<Rightarrow> commit_change list \<Rightarrow> commit_db \<Rightarrow> bool" where
  "describes_commit cm chs t \<longleftrightarrow> distinct (map (\<lambda>d. (cc_type d, cc_docID d)) chs)
     \<and> (\<forall>d \<in> set chs. \<exists>v \<in> set (db_revisions (cd_db t)). committed_in t v = Some (cm_id cm) \<and> cc_after d = Some (rv_id v)
          \<and> cc_type d = rv_type v \<and> cc_docID d = rv_docID v \<and> cc_identity d = rv_docIdentity v
          \<and> (\<forall>q \<in> set (db_revisions (cd_db t)). committed_in t q = Some (cm_id cm) \<longrightarrow> rev_key q = rev_key v \<longrightarrow> seq_of q \<le> seq_of v))
     \<and> (\<forall>v \<in> set (db_revisions (cd_db t)). committed_in t v = Some (cm_id cm) \<longrightarrow>
          (\<exists>d \<in> set chs. cc_type d @ '':'' @ cc_docID d = rev_key v))"

lemma joined_change_keys [simp]:
  "cc_type (joined_change s c) = cc_type c" "cc_docID (joined_change s c) = cc_docID c" "cc_after (joined_change s c) = cc_after c"
  by (simp_all add: joined_change_def)

lemma revision_identity_of:
  assumes "distinct (map rv_id (db_revisions (cd_db s)))" "v \<in> set (db_revisions (cd_db s))"
  shows "revision_identity s (Some (rv_id v)) = Some (rv_docIdentity v)"
  using find_by_id [OF assms] by (simp add: revision_identity_def)

lemma distinct_map_sort_key: "distinct (map g (sort_key f xs)) = distinct (map g xs)"
  by (simp add: distinct_map)

lemma describes_commitI:
  assumes chs: "chs = sort_key f (map (joined_change t') (commit_changes selected))"
    and t': "db_revisions (cd_db t') = db_revisions (cd_db t)" and dis: "distinct (map rv_id (db_revisions (cd_db t)))"
    and sub: "set selected \<subseteq> set (db_revisions (cd_db t))"
    and com: "\<And>r. r \<in> set (db_revisions (cd_db t)) \<Longrightarrow> committed_in t r = Some (cm_id cm) \<longleftrightarrow> r \<in> set selected"
    and last: "\<And>q. q \<in> set selected \<Longrightarrow> seq_of q \<le> seq_of (last (same_key (rev_key q) selected))"
  shows "describes_commit cm chs t"
proof -
  have d: "distinct (map (\<lambda>d. (cc_type d, cc_docID d)) chs)"
  proof -
    have "distinct (map (\<lambda>d. (cc_type d, cc_docID d)) (map (joined_change t') (commit_changes selected)))"
      using commit_changes_distinct [of selected] by (simp add: comp_def)
    then show ?thesis unfolding chs by (simp only: distinct_map_sort_key)
  qed
  have st: "set chs = (\<lambda>k. joined_change t' (change_of (same_key k selected))) ` rev_key ` set selected"
    by (simp add: chs commit_changes_def image_image)
  have one: "\<exists>v \<in> set (db_revisions (cd_db t)). committed_in t v = Some (cm_id cm) \<and> cc_after d = Some (rv_id v)
          \<and> cc_type d = rv_type v \<and> cc_docID d = rv_docID v \<and> cc_identity d = rv_docIdentity v
          \<and> (\<forall>q \<in> set (db_revisions (cd_db t)). committed_in t q = Some (cm_id cm) \<longrightarrow> rev_key q = rev_key v \<longrightarrow> seq_of q \<le> seq_of v)"
    if dd: "d \<in> set chs" for d
  proof -
    obtain k where k: "k \<in> rev_key ` set selected" "d = joined_change t' (change_of (same_key k selected))"
      using dd st by auto
    let ?v = "last (same_key k selected)"
    have "?v \<in> set (same_key k selected)" by (rule last_in_set [OF same_key_nonempty [OF k(1)]])
    then have v: "?v \<in> set selected" "rev_key ?v = k" by simp_all
    then have vr: "?v \<in> set (db_revisions (cd_db t))" using sub by auto
    have "revision_identity t' (Some (rv_id ?v)) = Some (rv_docIdentity ?v)"
      by (rule revision_identity_of) (use t' dis vr in simp_all)
    then have "cc_identity d = rv_docIdentity ?v" by (simp add: k(2) joined_change_def change_of_def)
    moreover have "seq_of q \<le> seq_of ?v" if "q \<in> set selected" "rev_key q = rev_key ?v" for q
      using last [OF that(1)] that(2) v(2) by simp
    ultimately show ?thesis using vr v com
      by (intro bexI [of _ ?v]) (auto simp: k(2) change_of_def)
  qed
  have "\<exists>d \<in> set chs. cc_type d @ '':'' @ cc_docID d = rev_key v" if "v \<in> set selected" for v
    using that change_of_key [of "rev_key v" selected] unfolding st by (intro bexI [of _ "joined_change t' (change_of (same_key (rev_key v) selected))"]) auto
  with d one com show ?thesis unfolding describes_commit_def by auto
qed

lemma commit_Create_Inr:
  assumes cr: "commit_Create env version c message policy expected s = Inr ((cm, chs), t)"
    and inv: "commits_inv s" and sync: "in_sync c s"
  obtains p selected s1 where
    "commit_check c policy expected s = Inr p" "commit_selected env c p s = Inr (selected, s1)"
    "commits_inv t" "cm_ws cm = w_id (cp_ws p)" "cm_parent cm = Some (cm_id (cp_latest p))" "cm_base cm = cm_head (cp_latest p)"
    "head_of (cd_db s) (cm_ws cm) = Some (cm_head cm)" "LatestCommit (cm_ws cm) s = Inr (cp_latest p)"
    "LatestCommit (cm_ws cm) t = Inr cm" "PendingRevisions (cm_ws cm) (cm_head cm) t = []"
    "describes_commit cm chs t" "length chs = length (remdups (map rev_key (cp_pending p)))"
    "\<And>r. r \<in> set (db_revisions (cd_db t)) \<Longrightarrow> committed_in t r = Some (cm_id cm) \<longleftrightarrow> r \<in> set selected"
    "db_revisions (cd_db t) = db_revisions (cd_db s1)" "cm_policy cm = cp_policy p"
proof -
  from cr obtain p where p: "commit_check c policy expected s = Inr p" and w: "commit_write env version c p message s = Inr ((cm, chs), t)"
    by (auto simp: commit_Create_def bindE_Inr_iff)
  note pp = commit_check_Inr [OF p]
  let ?ws = "w_id (cp_ws p)"
  have head: "head_of (cd_db s) ?ws = Some (w_headSequence (cp_ws p))" using sync pp(1) by (auto simp: in_sync_def)
  from w obtain selected s1 where sel: "commit_selected env c p s = Inr (selected, s1)"
    and rest: "(let (i, d) = fresh env (cd_db s1) in
      bindE (CreateCommit version (new_commit i c p message) (commit_changes selected) (s1\<lparr>cd_db := d\<rparr>)) (\<lambda>(created, s2).
      bindE (AttachRevisionsToCommit (cm_id (fst created)) (map rv_id selected) s2) (\<lambda>s3. Inr (created, s3)))) = Inr ((cm, chs), t)"
    by (auto simp: commit_write_def bindE_Inr_iff)
  define d where "d = snd (fresh env (cd_db s1))"
  define v where "v = new_commit (fst (fresh env (cd_db s1))) c p message"
  from rest obtain s2 where cc: "CreateCommit version v (commit_changes selected) (s1\<lparr>cd_db := d\<rparr>) = Inr ((cm, chs), s2)"
    and at: "AttachRevisionsToCommit (cm_id cm) (map rv_id selected) s2 = Inr t"
    unfolding d_def v_def by (auto simp: bindE_Inr_iff Let_def split_def)
  have v: "cm_ws v = ?ws" "cm_parent v = Some (cm_id (cp_latest p))" "cm_base v = cm_head (cp_latest p)"
    "cm_head v = w_headSequence (cp_ws p)" "cm_policy v = cp_policy p" by (simp_all add: v_def new_commit_def)
  note ss = commit_selected_Inr [OF sel inv pp(3,4,5)]
  have dr: "db_revisions d = db_revisions (cd_db s1)" "db_workspaces d = db_workspaces (cd_db s1)" by (simp_all add: d_def)
  have inv1: "commits_inv (s1\<lparr>cd_db := d\<rparr>)" by (rule data_inv [OF ss(1) dr])
  have head1: "head_of (cd_db (s1\<lparr>cd_db := d\<rparr>)) ?ws = Some (w_headSequence (cp_ws p))"
    using head ss(3) head_of_cong [OF dr(2)] by simp
  have sel1: "set selected = set (PendingRevisions ?ws (cm_head (cp_latest p)) (s1\<lparr>cd_db := d\<rparr>))"
    using ss(4) pending_data [OF dr(1)] by simp
  have latest1: "LatestCommit ?ws (s1\<lparr>cd_db := d\<rparr>) = Inr (cp_latest p)" using ss(2) by simp
  note kp = commit_keeps_inv [OF inv1 latest1 head1 sel1 ss(5) v(1,2,3,4) cc at]
  note ci = CreateCommit_Inr [OF cc inv1]
  have cm: "cm_ws cm = ?ws" "cm_parent cm = Some (cm_id (cp_latest p))" "cm_base cm = cm_head (cp_latest p)"
    "cm_head cm = w_headSequence (cp_ws p)" "cm_policy cm = cp_policy p" using ci(1) v by auto
  have revs: "db_revisions (cd_db t) = db_revisions (cd_db s1)" using kp(6) dr(1) by simp
  have com: "committed_in t r = Some (cm_id cm) \<longleftrightarrow> r \<in> set selected" if "r \<in> set (db_revisions (cd_db t))" for r
    using kp(4,5) [of r] that kp(6) by (auto split: if_splits)
  have "describes_commit cm chs t"
    by (rule describes_commitI [OF ci(7) _ commits_invD(1) [OF kp(1)] _ com ss(7)])
       (use kp(6) ci(2) sel1 pending_set in auto)
  moreover have "length chs = length (remdups (map rev_key (cp_pending p)))"
  proof -
    have "length chs = length (first_keys selected)" by (simp add: ci(7) commit_changes_def)
    also have "\<dots> = card (rev_key ` set selected)" using distinct_card [OF first_keys_distinct, of selected] by simp
    also have "\<dots> = length (remdups (map rev_key (cp_pending p)))" by (simp add: ss(6) length_remdups_card_conv)
    finally show ?thesis .
  qed
  ultimately show ?thesis
    using that [OF p sel kp(1) cm(1,2,3) _ _ _ _ _ _ com revs cm(5)] head pp(3) kp(2,3) by (simp add: cm)
qed

section \<open>Runs\<close>

inductive commit_step :: "env \<Rightarrow> version_of \<Rightarrow> commit_db \<Rightarrow> commit_db \<Rightarrow> bool" for env version where
  command: "service_step env (cd_db s) d \<Longrightarrow> commit_step env version s (s\<lparr>cd_db := d\<rparr>)"
| restore_revision: "RestoreRevision env c kind identity k e (cd_db s) = Inr (r, d) \<Longrightarrow> commit_step env version s (s\<lparr>cd_db := d\<rparr>)"
| restore: "workspaces_keyed (cd_db s) \<Longrightarrow> restoreBundle env sha version known c b expected op message s = Inr (r, t)
    \<Longrightarrow> commit_step env version s t"
| commit: "in_sync c s \<Longrightarrow> commit_Create env version c message policy expected s = Inr (r, t) \<Longrightarrow> commit_step env version s t"

inductive commit_run :: "env \<Rightarrow> version_of \<Rightarrow> commit_db \<Rightarrow> commit_db \<Rightarrow> bool" for env version s0 where
  start: "commit_run env version s0 s0"
| step: "commit_run env version s0 s \<Longrightarrow> commit_step env version s t \<Longrightarrow> commit_run env version s0 t"

lemma commit_step_inv: "commit_step env version s t \<Longrightarrow> commits_inv s \<Longrightarrow> commits_inv t"
proof (induction rule: commit_step.induct)
  case (command s d)
  then show ?case using log_run_inv [OF service_step_run refl] by blast
next
  case (restore_revision c kind identity k e s r d)
  then show ?case using log_run_inv [OF restore_revision_run refl] by blast
next
  case (restore s sha known c b expected op message r t)
  obtain cm chs where "r = (cm, chs)" by (cases r)
  with restore restoreBundle_Inr show ?case by metis
next
  case (commit c s message policy expected r t)
  obtain cm chs where "r = (cm, chs)" by (cases r)
  with commit commit_Create_Inr show ?case by metis
qed

lemma commit_run_inv: "commit_run env version s0 s \<Longrightarrow> commits_inv s0 \<Longrightarrow> commits_inv s"
  by (induction rule: commit_run.induct) (auto dest: commit_step_inv)

text \<open>A sequence number after the base of the first commit is in the range of one commit or after all of them.\<close>

lemma chained_covers:
  "chained cs \<Longrightarrow> cs \<noteq> [] \<Longrightarrow> cm_base (hd cs) < n \<Longrightarrow> n \<le> cm_head (last cs) \<Longrightarrow> \<exists>c \<in> set cs. cm_base c < n \<and> n \<le> cm_head c"
proof (induction cs rule: chained.induct)
  case (1 c d cs)
  then show ?case by (cases "n \<le> cm_head c") auto
qed auto

section \<open>The plan\<close>

lemma plan_step_counts:
  assumes "distinct (map fst ds)"
  shows "distinct (map fst (plan_step f s r ds)) \<and> set (map fst (plan_step f s r ds)) = insert (rev_key r) (set (map fst ds))
    \<and> sum_list (map (pd_revisionCount \<circ> snd) (plan_step f s r ds)) = Suc (sum_list (map (pd_revisionCount \<circ> snd) ds))"
proof -
  define ds2 where "ds2 = (if rev_key r \<in> fst ` set ds then ds else ds @ [(rev_key r, empty_plan_document (rv_type r))])"
  have d2: "distinct (map fst ds2)" "rev_key r \<in> set (map fst ds2)" "set (map fst ds2) = insert (rev_key r) (set (map fst ds))"
    "sum_list (map (pd_revisionCount \<circ> snd) ds2) = sum_list (map (pd_revisionCount \<circ> snd) ds)"
    using assms by (auto simp: ds2_def empty_plan_document_def)
  have ps: "plan_step f s r ds = updateWhere (\<lambda>p. fst p = rev_key r) (\<lambda>p. (fst p, plan_revision f s r (snd p))) ds2"
    by (simp add: plan_step_def ds2_def)
  have fst: "map fst (plan_step f s r ds) = map fst ds2" unfolding ps by (rule map_updateWhere) simp
  have "distinct (map fst xs) \<Longrightarrow> k \<in> set (map fst xs) \<Longrightarrow>
      sum_list (map (pd_revisionCount \<circ> snd) (updateWhere (\<lambda>p. fst p = k) (\<lambda>p. (fst p, plan_revision f s r (snd p))) xs))
        = Suc (sum_list (map (pd_revisionCount \<circ> snd) xs))" for k xs
  proof (induction xs)
    case (Cons x xs)
    show ?case
    proof (cases "fst x = k")
      case True
      then have "updateWhere (\<lambda>p. fst p = k) (\<lambda>p. (fst p, plan_revision f s r (snd p))) xs = xs"
        using Cons.prems(1) by (intro updateWhere_none) (auto simp: image_iff)
      then show ?thesis using True by (simp add: plan_revision_def Let_def)
    next
      case False
      then show ?thesis using Cons by auto
    qed
  qed simp
  from this [OF d2(1,2)] show ?thesis using fst d2 by (simp add: ps)
qed

lemma plan_fold_counts:
  "distinct (map fst ds) \<Longrightarrow> distinct (map fst (fold (plan_step f s) rs ds))
    \<and> set (map fst (fold (plan_step f s) rs ds)) = set (map fst ds) \<union> rev_key ` set rs
    \<and> sum_list (map (pd_revisionCount \<circ> snd) (fold (plan_step f s) rs ds)) = length rs + sum_list (map (pd_revisionCount \<circ> snd) ds)"
proof (induction rs arbitrary: ds)
  case (Cons r rs)
  note one = plan_step_counts [OF Cons.prems, of f s r]
  from Cons.IH [of "plan_step f s r ds"] one show ?case by (auto simp: comp_def)
qed simp

lemma planDocuments_counts:
  "length (planDocuments f s rs) = length (remdups (map rev_key rs))"
  "sum_list (map pd_revisionCount (planDocuments f s rs)) = length rs"
proof -
  note pf = plan_fold_counts [of "[]" f s rs, simplified]
  have "length (map fst (fold (plan_step f s) rs [])) = card (set (map fst (fold (plan_step f s) rs [])))"
    using pf by (metis distinct_card)
  then show "length (planDocuments f s rs) = length (remdups (map rev_key rs))"
    using pf by (simp add: planDocuments_def length_remdups_card_conv)
  show "sum_list (map pd_revisionCount (planDocuments f s rs)) = length rs"
    using pf by (simp add: planDocuments_def)
qed

text \<open>The plan a context gets and the commit it creates.\<close>

lemma plan_of_commit:
  assumes inv: "commits_inv s" and sync: "in_sync c s" and pl: "commit_plan_of names c True s = Inr pl"
    and p: "commit_check c policy expected s = Inr p" and sel: "commit_selected env c p s = Inr (selected, s1)"
    and "commits_inv t" and cm: "cm_ws cm = w_id (cp_ws p)" "cm_parent cm = Some (cm_id (cp_latest p))" "cm_base cm = cm_head (cp_latest p)"
    and head: "head_of (cd_db s) (cm_ws cm) = Some (cm_head cm)" and "LatestCommit (cm_ws cm) s = Inr (cp_latest p)"
    and "LatestCommit (cm_ws cm) t = Inr cm" "PendingRevisions (cm_ws cm) (cm_head cm) t = []" "describes_commit cm chs t"
    and chs: "length chs = length (remdups (map rev_key (cp_pending p)))"
    and com: "\<And>r. r \<in> set (db_revisions (cd_db t)) \<Longrightarrow> committed_in t r = Some (cm_id cm) \<longleftrightarrow> r \<in> set selected"
    and revs: "db_revisions (cd_db t) = db_revisions (cd_db s1)" and pol: "cm_policy cm = cp_policy p"
  shows "pr_base pl = cm_base cm \<and> pr_head pl = cm_head cm \<and> pr_documentCount pl = length chs \<and> length (pr_documents pl) = length chs
    \<and> sum_list (map pd_revisionCount (pr_documents pl)) = pr_revisionCount pl
    \<and> (cm_policy cm = RevisionPolicyPreserve \<longrightarrow>
        pr_revisionCount pl = length (filter (\<lambda>r. committed_in t r = Some (cm_id cm)) (db_revisions (cd_db t))))"
proof -
  note pp = commit_check_Inr [OF p]
  obtain scope where sc: "ctx_Access c = Inr scope" "cp_ws p = wa_workspace scope" using pp(1) by blast
  have pl': "pr_base pl = cm_head (cp_latest p)" "pr_head pl = w_headSequence (cp_ws p)" "pr_revisionCount pl = length (cp_pending p)"
    "pr_documentCount pl = length (remdups (map rev_key (cp_pending p)))" "pr_documents pl = planDocuments names s (cp_pending p)"
    using pl sc pp(3,4) by (auto simp: commit_plan_of_def Let_def)
  have "cm_head cm = w_headSequence (cp_ws p)" using head sync sc cm(1) by (auto simp: in_sync_def)
  moreover have "length (cp_pending p) = length (filter (\<lambda>r. committed_in t r = Some (cm_id cm)) (db_revisions (cd_db t)))"
    if "cm_policy cm = RevisionPolicyPreserve"
  proof -
    have s: "selected = cp_pending p" "s1 = s"
      using commit_selected_Inr(8) [OF sel inv pp(3,4,5)] that pol by (auto simp: RevisionPolicyPreserve_def RevisionPolicySquash_def)
    have "filter (\<lambda>r. committed_in t r = Some (cm_id cm)) (db_revisions (cd_db t))
        = filter (is_pending s (w_id (cp_ws p)) (cm_head (cp_latest p))) (db_revisions (cd_db s))"
      unfolding revs s(2) by (rule filter_cong [OF refl]) (use com revs s pp(4) pending_set in auto)
    then show ?thesis by (simp add: pp(4) PendingRevisions_def)
  qed
  ultimately show ?thesis using pl' cm(3) chs planDocuments_counts by simp
qed

end
