(* ===== verification/CommitSample.thy ===== *)
theory CommitSample
  imports CommitOutcome Sample
begin

text \<open>The concrete workspace with its bootstrap commit, a document created after it, and commits of both policies.\<close>

definition sample_commits :: commit_db where
  "sample_commits = \<lparr>cd_db = sample_db,
     cd_commits = [\<lparr>cm_id = ''c0'', cm_ws = ''w1'', cm_parent = None, cm_base = 0, cm_head = 2, cm_message = ''bootstrap'',
       cm_policy = ''preserve'', cm_operation = ''bootstrap'', cm_domainVersion = [], cm_createdBy = ''u1'', cm_createdAt = 10\<rparr>],
     cd_changes = [], cd_installed = [], cd_integrations = [], cd_committed = [(''r1'', ''c0''), (''r2'', ''c0'')], cd_contributors = []\<rparr>"

definition sample_version :: version_of where
  "sample_version ws n s = Inr ''dv''"

definition ctx_at :: "int \<Rightarrow> ctx" where
  "ctx_at n = sample_ctx\<lparr>cx_access := Some (sample_access\<lparr>wa_workspace := sample_workspace\<lparr>w_headSequence := n\<rparr>\<rparr>)\<rparr>"

lemma sample_commits_inv: "commits_inv sample_commits"
proof -
  have h: "head_of sample_db ws = (if ws = ''w1'' then Some 2 else None)" for ws
    by (simp add: head_of_def ws_of_def sample_db_def sample_workspace_def)
  have "log_numbered sample_db ws" for ws
    unfolding log_numbered_def h by (auto simp: sample_db_def sample_revision_def seq_of_def)
  moreover have "commits_chained sample_commits ws" for ws
    by (auto simp: commits_chained_def commits_of_def sample_commits_def h)
  moreover have "log_attached sample_commits ws" for ws
    by (auto simp: log_attached_def commits_of_def sample_commits_def committed_in_def after_all_def sample_db_def sample_revision_def)
  ultimately show ?thesis
    by (simp add: commits_inv_def) (simp add: sample_commits_def sample_db_def sample_revision_def)
qed

text \<open>A document is created: its revision is pending.\<close>

definition sample_uncommitted :: commit_db where
  "sample_uncommitted = sample_commits\<lparr>cd_db := sample_after\<rparr>"

lemma sample_uncommitted_run: "commit_run sample_env sample_version sample_commits sample_uncommitted"
proof -
  have "service_step sample_env (cd_db sample_commits) sample_after"
    using service_step.document [OF doc_step.create [OF sample_create]] by (simp add: sample_commits_def)
  then show ?thesis unfolding sample_uncommitted_def
    by (intro commit_run.step [OF commit_run.start] commit_step.command)
qed

lemma sample_uncommitted_inv: "commits_inv sample_uncommitted"
  by (rule commit_run_inv [OF sample_uncommitted_run sample_commits_inv])

lemma sample_in_sync: "in_sync (ctx_at 3) sample_uncommitted"
proof -
  have "head_of (cd_db sample_uncommitted) ''w1'' = Some 3" by code_simp
  then show ?thesis by (simp add: in_sync_def ctx_at_def ctx_Access_def sample_access_def sample_workspace_def)
qed

definition sample_commit :: "string \<Rightarrow> ((commit \<times> commit_change list) \<times> commit_db) res" where
  "sample_commit policy = commit_Create sample_env sample_version (ctx_at 3) '' first '' policy 3 sample_uncommitted"

lemma sample_commit_ok:
  "case sample_commit ''preserve'' of Inl e \<Rightarrow> False
   | Inr ((cm, chs), t) \<Rightarrow> cm_head cm = 3 \<and> cm_base cm = 2 \<and> cm_message cm = ''first'' \<and> map cc_identity chs = [''point'']"
  "case sample_commit ''squash'' of Inl e \<Rightarrow> False
   | Inr ((cm, chs), t) \<Rightarrow> cm_head cm = 3 \<and> map cc_operation chs = [''squash''] \<and> length (db_revisions (cd_db t)) = 3"
  by code_simp+

lemma sample_commit_Inr: "sample_commit ''preserve'' = Inr ((fst (fst (projr (sample_commit ''preserve''))), snd (fst (projr (sample_commit ''preserve'')))), snd (projr (sample_commit ''preserve'')))"
  using sample_commit_ok(1) by (cases "sample_commit ''preserve''") auto

definition sample_committed :: commit_db where
  "sample_committed = snd (projr (sample_commit ''preserve''))"

lemma sample_committed_run: "commit_run sample_env sample_version sample_commits sample_committed"
proof -
  obtain r where "commit_Create sample_env sample_version (ctx_at 3) '' first '' ''preserve'' 3 sample_uncommitted = Inr (r, sample_committed)"
    using sample_commit_Inr unfolding sample_committed_def sample_commit_def by metis
  then show ?thesis by (intro commit_run.step [OF sample_uncommitted_run] commit_step.commit [OF sample_in_sync])
qed

section \<open>A commit that is late\<close>

text \<open>Two documents are created; the request that commits has read the workspace between them, at sequence 3. The revision
  with sequence 4 is attached to a commit whose head is 3: the snapshot of the commit does not have it, and it is never
  pending again.\<close>

definition sample_body2 :: json where
  "sample_body2 = JObj [(''displayName'', JStr ''Edge''), (''identity'', JStr ''edge''),
     (''source'', JStr ''type Edge''), (''sourceVersion'', JNumber ''1'')]"

definition sample_late :: commit_db where
  "sample_late = sample_commits\<lparr>cd_db := snd (projr (doc_Create sample_env sample_ctx CollectionTypes sample_body2 sample_after))\<rparr>"

lemma late_revision_swallowed:
  "case commit_Create sample_env sample_version (ctx_at 3) ''late'' ''preserve'' 3 sample_late of Inl e \<Rightarrow> False
   | Inr ((cm, chs), t) \<Rightarrow> cm_head cm = 3 \<and> map (committed_in t) (filter (\<lambda>r. rv_seq r = Some 4) (db_revisions (cd_db t))) = [Some (cm_id cm)]
       \<and> commit_check (ctx_at 4) ''preserve'' 4 t = Inl (Conflict ''nothing_to_commit'')"
  by code_simp

section \<open>A squash that fails\<close>

text \<open>A facet was created and then restored from that first revision, and neither revision is committed. Squashing deletes both
  and inserts the last one, which still names the first as its source: the foreign key refuses it. A commit that preserves the
  revisions succeeds.\<close>

definition sample_restored :: commit_db where
  "sample_restored = sample_commits\<lparr>cd_db := (case sample_facet1 of Inl e \<Rightarrow> sample_db
     | Inr (d, s) \<Rightarrow> snd (projr (facet_RestoreRevision sample_fenv sample_ctx ''stage'' (rv_id (last (db_revisions s))) 1 s)))\<rparr>"

lemma squash_of_restored_fails:
  "commit_Create sample_fenv sample_version (ctx_at 4) ''a'' ''squash'' 4 sample_restored = Inl fk_violation"
  "\<not> isl (commit_Create sample_fenv sample_version (ctx_at 4) ''a'' ''preserve'' 4 sample_restored)"
  by code_simp+

end
