(* ===== verification/SnapshotOrder.thy ===== *)
theory SnapshotOrder
  imports SnapshotLaws FolderTree Service
begin

text \<open>
  The order of the deletions of an import, the order of the facets after it, and the rows that a validated snapshot
  writes.
\<close>

section \<open>Depths\<close>

definition parent_edges :: "(string \<times> document) list \<Rightarrow> (string \<times> string) set" where
  "parent_edges folders = {(k, p) | k d p. (k, d) \<in> set folders \<and> d_folderIdentity d = Some p \<and> p \<noteq> [] \<and> ohas folders p}"

lemma finite_parent_edges: "finite (parent_edges folders)"
  by (rule finite_subset [of _ "(\<lambda>(k, d). (k, the (d_folderIdentity d))) ` set folders"]) (force simp: parent_edges_def)+

definition keyed_by_identity :: "(string \<times> document) list \<Rightarrow> bool" where
  "keyed_by_identity folders \<longleftrightarrow> owf folders \<and> (\<forall>(k, d) \<in> set folders. d_identity d = k)"

lemma depth_from_seen:
  assumes "acyclic (parent_edges folders)" and kb: "keyed_by_identity folders"
    and "(k, d) \<in> set folders" "\<forall>x \<in> set seen. (k, x) \<notin> (parent_edges folders)\<^sup>+"
  shows "depth_from folders seen d = depth_from folders [] d"
proof -
  have "wf ((parent_edges folders)\<inverse>)" using assms(1) finite_parent_edges by (simp add: finite_acyclic_wf)
  then show ?thesis using assms(3,4)
  proof (induction k arbitrary: d seen)
    case (less k)
    show ?case
    proof (cases "\<exists>p pd. d_folderIdentity d = Some p \<and> p \<noteq> [] \<and> oget folders p = Some pd")
      case False
      then show ?thesis by (auto simp: depth_from.simps [of folders seen d] depth_from.simps [of folders "[]" d] split: option.splits)
    next
      case True
      then obtain p pd where p: "d_folderIdentity d = Some p" "p \<noteq> []" "oget folders p = Some pd" by blast
      then have e: "(k, p) \<in> parent_edges folders" using less.prems(1) unfolding parent_edges_def ohas_iff by blast
      have pin: "(p, pd) \<in> set folders" by (rule oget_in_set [OF p(3)])
      have up: "(k, x) \<in> (parent_edges folders)\<^sup>+" if "(p, x) \<in> (parent_edges folders)\<^sup>+" for x
        using e that by (rule trancl_into_trancl2)
      have "(p, p) \<notin> (parent_edges folders)\<^sup>+" using assms(1) by (simp add: acyclic_def)
      then have a: "depth_from folders (p # seen) pd = depth_from folders [] pd" "depth_from folders [p] pd = depth_from folders [] pd"
        using less.prems(2) up e by (intro less.IH [OF _ pin]; auto)+
      have "p \<notin> set seen" using less.prems(2) e by auto
      then show ?thesis using p a by (simp add: depth_from.simps [of folders seen d] depth_from.simps [of folders "[]" d])
    qed
  qed
qed

lemma folderDepth_parent:
  assumes "acyclic (parent_edges folders)" and kb: "keyed_by_identity folders"
    and "(k, d) \<in> set folders" "d_folderIdentity d = Some p" "p \<noteq> []" "oget folders p = Some pd"
  shows "folderDepth d folders = Suc (folderDepth pd folders)"
proof -
  have k: "d_identity d = k" "d_identity pd = p" using kb assms(3) oget_in_set [OF assms(6)] by (auto simp: keyed_by_identity_def)
  have e: "(k, p) \<in> parent_edges folders" using assms(3-6) unfolding parent_edges_def ohas_iff by blast
  have irr: "(x, x) \<notin> (parent_edges folders)\<^sup>+" for x using assms(1) by (simp add: acyclic_def)
  have "(p, k) \<notin> (parent_edges folders)\<^sup>+" using irr [of k] e trancl_into_trancl2 by metis
  then have "depth_from folders [p, k] pd = depth_from folders [] pd" "depth_from folders [p] pd = depth_from folders [] pd"
    using irr by (intro depth_from_seen [OF assms(1) kb oget_in_set [OF assms(6)]]; simp)+
  moreover have "p \<noteq> k" using irr e by auto
  ultimately show ?thesis using assms(4-6) by (simp add: folderDepth_def k depth_from.simps [of folders "[k]" d])
qed

section \<open>Deletions\<close>

lemma sorted_before:
  assumes "xs = sort_key f ys" "i < j" "j < length xs"
  shows "f (xs ! i) \<le> f (xs ! j)"
  using sorted_nth_mono [of "map f xs" i j] sorted_sort_key [of f ys] assms by simp

text \<open>A folder is deleted after everything that lies in it.\<close>

lemma deletions_leaves_first:
  fixes existing :: "document keyed"
  defines "folders \<equiv> in_kind existing CollectionFolders"
  assumes ac: "acyclic (parent_edges folders)" and kb: "keyed_by_identity folders"
    and out: "out = documentsMissingFromSnapshot existing incoming" "i < j" "j < length out"
    and f: "(d_identity (out ! i), out ! i) \<in> set folders" "d_type (out ! i) = CollectionFolders" "d_identity (out ! i) \<noteq> []"
    and ty: "\<And>kind k d. (k, d) \<in> set (in_kind existing kind) \<Longrightarrow> d_type d = kind"
  shows "d_folderIdentity (out ! j) \<noteq> Some (d_identity (out ! i))"
proof
  assume par: "d_folderIdentity (out ! j) = Some (d_identity (out ! i))"
  let ?key = "\<lambda>d. (- int (folderDepth d folders), d_identity d)"
  let ?docs = "concat (map (\<lambda>kind. sort_key d_identity (missing_in existing incoming kind))
       (filter (\<lambda>kind. kind \<noteq> CollectionFolders) (rev restoreOrder)))"
  let ?fs = "sort_key ?key (missing_in existing incoming CollectionFolders)"
  have o: "out = ?docs @ ?fs" using out(1) by (simp add: documentsMissingFromSnapshot_def folders_def)
  have "d_type d \<noteq> CollectionFolders" if "d \<in> set ?docs" for d using that ty by (fastforce simp: missing_in_def)
  then have "\<not> i < length ?docs" using f(2) o nth_mem [of i ?docs] by (auto simp: nth_append)
  then have i: "length ?docs \<le> i" by simp
  let ?i = "i - length ?docs" and ?j = "j - length ?docs"
  have nth: "out ! i = ?fs ! ?i" "out ! j = ?fs ! ?j" "?i < ?j" "?j < length ?fs"
    using i out(2,3) unfolding o by (auto simp: nth_append)
  have "?fs ! ?j \<in> set ?fs" using nth(4) by (rule nth_mem)
  then obtain k where jd: "(k, out ! j) \<in> set folders" unfolding nth(2) by (auto simp: missing_in_def folders_def)
  have "oget folders (d_identity (out ! i)) = Some (out ! i)" using kb f(1) by (auto simp: keyed_by_identity_def intro: in_set_oget)
  then have "folderDepth (out ! j) folders = Suc (folderDepth (out ! i) folders)"
    by (rule folderDepth_parent [OF ac kb jd par f(3)])
  moreover have "?key (out ! i) \<le> ?key (out ! j)" unfolding nth(1,2) by (rule sorted_before [OF refl nth(3,4)])
  ultimately show False by (auto simp: less_eq_prod_def)
qed

text \<open>Exactly the live documents of users that the snapshot does not have.\<close>

lemma deletions_set:
  "set (documentsMissingFromSnapshot existing incoming)
     = {d. \<exists>kind \<in> set restoreOrder. \<exists>k. (k, d) \<in> set (in_kind existing kind) \<and> \<not> ohas (in_kind incoming kind) k
          \<and> d_deletedAt d = None \<and> d_managedBy d \<noteq> ManagedBySystem}"
proof -
  have "set (documentsMissingFromSnapshot existing incoming) = (\<Union>kind \<in> set restoreOrder. set (missing_in existing incoming kind))"
  proof -
    have "CollectionFolders \<in> set restoreOrder" by (simp add: restoreOrder_def)
    then show ?thesis unfolding documentsMissingFromSnapshot_def by auto
  qed
  moreover have "d \<in> set (missing_in existing incoming kind) \<longleftrightarrow> (\<exists>k. (k, d) \<in> set (in_kind existing kind)
      \<and> \<not> ohas (in_kind incoming kind) k \<and> d_deletedAt d = None \<and> d_managedBy d \<noteq> ManagedBySystem)" for d kind
    by (force simp: missing_in_def image_iff)
  ultimately show ?thesis by blast
qed

section \<open>The stored documents\<close>

lemma index_by:
  fixes key :: "'v \<Rightarrow> string"
  shows "owf (fold (\<lambda>d m. oput (key d) d m) ds [])"
    "(k, d) \<in> set (fold (\<lambda>d m. oput (key d) d m) ds []) \<Longrightarrow> d \<in> set ds \<and> key d = k"
proof -
  have wf: "owf m \<Longrightarrow> owf (fold (\<lambda>d m. oput (key d) d m) ds m)" for m by (induction ds arbitrary: m) auto
  then show owf: "owf (fold (\<lambda>d m. oput (key d) d m) ds [])" by simp
  have get: "oget (fold (\<lambda>d m. oput (key d) d m) ds m) k = Some d \<Longrightarrow> d \<in> set ds \<and> key d = k \<or> oget m k = Some d" for m k d
    by (induction ds arbitrary: m) (force simp: oget_put split: if_splits)+
  show "d \<in> set ds \<and> key d = k" if "(k, d) \<in> set (fold (\<lambda>d m. oput (key d) d m) ds [])"
    using get [OF in_set_oget [OF owf that]] by simp
qed

lemma load_kind:
  assumes "loadSnapshotDocuments nf ws s = Inr existing"
  shows "if kind \<in> set ps_Collections
    then \<exists>ds. listAllDocuments ws kind True s = Inr ds \<and> in_kind existing kind = fold (\<lambda>d m. oput (storedDocumentKey nf d) d m) ds []
    else in_kind existing kind = []"
proof -
  let ?f = "\<lambda>kind acc. bindE (listAllDocuments ws kind True s) (\<lambda>ds.
       Inr (oput kind (fold (\<lambda>d m. oput (storedDocumentKey nf d) d m) ds []) acc))"
  have "foldE ?f ks acc = Inr r \<Longrightarrow> if kind \<in> set ks
    then \<exists>ds. listAllDocuments ws kind True s = Inr ds \<and> oget r kind = Some (fold (\<lambda>d m. oput (storedDocumentKey nf d) d m) ds [])
    else oget r kind = oget acc kind" for ks acc r
  proof (induction ks arbitrary: acc)
    case (Cons k ks)
    then obtain ds where ds: "listAllDocuments ws k True s = Inr ds"
      and fo: "foldE ?f ks (oput k (fold (\<lambda>d m. oput (storedDocumentKey nf d) d m) ds []) acc) = Inr r"
      by (auto simp: bindE_Inr_iff)
    show ?case using Cons.IH [OF fo] ds by (cases "kind \<in> set ks") (auto simp: oget_put)
  qed simp
  from this [OF assms [unfolded loadSnapshotDocuments_def]] show ?thesis by (auto simp: in_kind_def split: if_splits)
qed

lemma scan_all_mem: "d \<in> set (scan_all f rows) \<longleftrightarrow> (\<exists>r \<in> set rows. f r = Inr d)"
  by (auto simp: scan_all_def split: sum.splits) (metis Inr_inject)

lemma listAll_docs:
  assumes "listAllDocuments ws kind True s = Inr ds" "kind \<in> set DocumentCollections" "d \<in> set ds"
  obtains r where "r \<in> set (db_docs s)" "dr_kind r = kind" "dr_ws r = ws" "scanDocument s r = Inr d"
  using assms not_facet_kind [OF assms(2)] by (auto simp: listAllDocuments_def bindE_Inr_iff scan_all_mem)

lemma listAll_type:
  assumes "listAllDocuments ws kind True s = Inr ds" "d \<in> set ds"
  shows "d_type d = kind"
proof (cases "kind = CollectionFacets \<or> kind = CollectionFacetDocuments")
  case True
  then show ?thesis using assms
    by (auto simp: listAllDocuments_def ListFacets_def listAllFacetDocuments_def scan_all_mem dest!: scanFacet_Inr scanFacetDocument_Inr)
next
  case False
  then show ?thesis using assms
    by (auto simp: listAllDocuments_def bindE_Inr_iff scan_all_mem dest: scanDocument_fields(3))
qed

lemma loaded_type:
  assumes "loadSnapshotDocuments nf ws s = Inr existing" "(k, d) \<in> set (in_kind existing kind)"
  shows "d_type d = kind"
  using load_kind [OF assms(1), of kind] assms(2) index_by(2) [of k d "storedDocumentKey nf"] listAll_type
  by (auto split: if_splits)

lemma folders_plain [simp]: "CollectionFolders \<in> set DocumentCollections" "CollectionFolders \<in> set ps_Collections"
  "CollectionFolders \<noteq> CollectionFacetDocuments" "CollectionFolders \<noteq> CollectionFacets"
  by (simp_all add: ps_Collections_def DocumentCollections_def CollectionFolders_def CollectionFacetDocuments_def CollectionFacets_def)

text \<open>The stored folders form a forest under their identities too.\<close>

lemma loaded_folders:
  assumes load: "loadSnapshotDocuments nf ws s = Inr existing" and ac: "folders_acyclic s" and ok: "docs_ok s (db_docs s)"
  shows "acyclic (parent_edges (in_kind existing CollectionFolders))" "keyed_by_identity (in_kind existing CollectionFolders)"
proof -
  let ?fs = "in_kind existing CollectionFolders"
  obtain ds where ds: "listAllDocuments ws CollectionFolders True s = Inr ds"
    and fs: "?fs = fold (\<lambda>d m. oput (storedDocumentKey nf d) d m) ds []"
    using load_kind [OF load, of CollectionFolders] by auto
  have mem: "d \<in> set ds \<and> d_identity d = k" if "(k, d) \<in> set ?fs" for k d
    using index_by(2) [of k d "storedDocumentKey nf" ds] that loaded_type [OF load that] fs by (simp add: storedDocumentKey_def)
  show kb: "keyed_by_identity ?fs" using index_by(1) [of "storedDocumentKey nf" ds] mem fs by (auto simp: keyed_by_identity_def)
  have uq: "docs_unique (db_docs s)" using ok by (simp add: docs_ok_def)
  let ?id = "\<lambda>k. case row_by_identity s CollectionFolders ws k of Some r \<Rightarrow> dr_id r | None \<Rightarrow> []"
  have "parent_edges ?fs \<subseteq> inv_image (up_rel (db_docs s) ws) ?id"
  proof
    fix e assume "e \<in> parent_edges ?fs"
    then obtain k d p where e: "e = (k, p)" "(k, d) \<in> set ?fs" "d_folderIdentity d = Some p" by (auto simp: parent_edges_def)
    obtain r where r: "r \<in> set (db_docs s)" "dr_kind r = CollectionFolders" "dr_ws r = ws" "scanDocument s r = Inr d"
      using mem [OF e(2)] listAll_docs [OF ds] by auto
    note sc = scanDocument_fields [OF r(4)]
    obtain j q where q: "dr_folder r = Some j" "row_by_id s CollectionFolders ws j = Some q" "dr_identity q = p"
    proof -
      have "joined_identity s CollectionFolders ws (dr_folder r) = Some p" using sc(15) e(3) r(3) by simp
      then show ?thesis using that by (auto simp: joined_identity_def split: option.splits)
    qed
    have qm: "q \<in> set (db_docs s)" "dr_kind q = CollectionFolders" "dr_ws q = ws" "dr_id q = j"
      using q(2) by (auto simp: row_by_id_def dest!: find_SomeD)
    have "row_by_identity s CollectionFolders ws k = Some r"
      using row_by_identity_unique [OF uq r(1)] r(2,3) sc(4) mem [OF e(2)] by simp
    moreover have "row_by_identity s CollectionFolders ws p = Some q"
      using row_by_identity_unique [OF uq qm(1)] qm(2,3) q(3) by simp
    ultimately show "e \<in> inv_image (up_rel (db_docs s) ws) ?id"
      using r(1-3) q(1) qm(4) by (auto simp: e(1) up_rel_def)
  qed
  moreover have "acyclic (inv_image (up_rel (db_docs s) ws) ?id)"
  proof -
    have "wf ((up_rel (db_docs s) ws)\<inverse>)"
      by (rule finite_acyclic_wf_converse [OF up_rel_card(1)]) (use ac in \<open>simp add: folders_acyclic_def\<close>)
    then have "wf (inv_image ((up_rel (db_docs s) ws)\<inverse>) ?id)" by (rule wf_inv_image)
    then have "acyclic (inv_image ((up_rel (db_docs s) ws)\<inverse>) ?id)" by (rule wf_acyclic)
    moreover have "inv_image ((up_rel (db_docs s) ws)\<inverse>) ?id = (inv_image (up_rel (db_docs s) ws) ?id)\<inverse>"
      by (simp add: inv_image_def converse_unfold)
    ultimately show ?thesis by (simp only: acyclic_converse)
  qed
  ultimately show "acyclic (parent_edges ?fs)" using acyclic_subset by blast
qed

section \<open>The order of the facets\<close>

lemma ListFacets_live:
  assumes "facets_ok s (db_facets s)"
  shows "map d_identity (ListFacets ws False s) = map fr_identity (by_position (filter (live_in ws) (db_facets s)))"
    "(\<lambda>d. (d_identity d, d_revision d)) ` set (ListFacets ws False s)
      = (\<lambda>r. (fr_identity r, fr_revision r)) ` {r \<in> set (db_facets s). live_in ws r}"
proof -
  let ?rows = "by_position (filter (live_in ws) (db_facets s))"
  have rows: "filter (\<lambda>r. fr_ws r = ws \<and> fr_deletedAt r = None) (db_facets s) = filter (live_in ws) (db_facets s)"
    by (simp add: live_in_def [abs_def])
  have live: "fr_deletedAt r = None" if "r \<in> set ?rows" for r using that by (auto simp: by_position_def live_in_def)
  have srt: "sort_key (\<lambda>r. if fr_deletedAt r = None then 0 else 1 :: nat) xs = xs" if "\<forall>r \<in> set xs. fr_deletedAt r = None" for xs
    using that by (induction xs) (auto simp: insort_is_Cons)
  have l: "ListFacets ws False s = scan_all (scanFacet s) ?rows"
    unfolding ListFacets_def using srt [of ?rows] live by (simp add: rows)
  have ok: "facet_row_ok s r" if "r \<in> set ?rows" for r using that assms by (auto simp: by_position_def facets_ok_def)
  then show "map d_identity (ListFacets ws False s) = map fr_identity ?rows" unfolding l by (rule scan_all_facets)
  have "\<exists>d. scanFacet s r = Inr d" if "r \<in> set ?rows" for r
    using ok [OF that] by (auto simp: scanFacet_def facet_row_ok_def)
  then show "(\<lambda>d. (d_identity d, d_revision d)) ` set (ListFacets ws False s)
      = (\<lambda>r. (fr_identity r, fr_revision r)) ` {r \<in> set (db_facets s). live_in ws r}"
    unfolding l by (force simp: scan_all_mem by_position_def image_iff dest: scanFacet_Inr)
qed

lemma map_filter_mem: "x \<in> set (List.map_filter f xs) \<longleftrightarrow> (\<exists>y \<in> set xs. f y = Some x)"
  by (induction xs) (auto simp: List.map_filter_simps split: option.splits)

definition live_items :: "portable_bundle \<Rightarrow> string \<Rightarrow> jobj list" where
  "live_items b kind = filter (\<lambda>i. \<not> portableDocumentDeleted i) (docs_in (orElse (bn_documents b) []) kind)"

lemma reorder_items:
  assumes cur: "distinct (map d_identity current)" and items: "distinct (map item_id (live_items b CollectionFacets))"
  shows "\<exists>others. map oi_identity (facetReorderItems nf b current)
      = filter (\<lambda>i. i \<in> d_identity ` set current) (map item_id (sort_key (\<lambda>i. integerField i ''position'') (live_items b CollectionFacets))) @ others"
    "distinct (map oi_identity (facetReorderItems nf b current))"
    "(\<lambda>i. (oi_identity i, oi_expected i)) ` set (facetReorderItems nf b current) = (\<lambda>d. (d_identity d, d_revision d)) ` set current"
proof -
  let ?live = "live_items b CollectionFacets" and ?by = "map_of (rev (map (\<lambda>d. (d_identity d, d)) current))"
  let ?inc = "sort_key (\<lambda>i. integerField i ''position'') ?live"
  let ?item = "\<lambda>d. \<lparr>oi_identity = d_identity d, oi_expected = d_revision d\<rparr>"
  let ?first = "List.map_filter (\<lambda>i. map_option (\<lambda>d. \<lparr>oi_identity = stringField i ''identity'', oi_expected = d_revision d\<rparr>)
            (?by (stringField i ''identity''))) ?inc"
  let ?extras = "sort_key (\<lambda>d. (facetPosition nf d, d_identity d)) (filter (\<lambda>d. d_identity d \<notin> set (map oi_identity ?first)) current)"
  have fri: "facetReorderItems nf b current = ?first @ map ?item ?extras"
    unfolding facetReorderItems_def live_items_def Let_def by (rule refl)
  have by_iff: "?by k = Some d \<longleftrightarrow> d \<in> set current \<and> d_identity d = k" for k d
    by (subst map_of_eq_Some_iff) (use cur in \<open>auto simp: rev_map [symmetric] comp_def\<close>)
  have ids: "map oi_identity ?first = filter (\<lambda>i. i \<in> d_identity ` set current) (map item_id ?inc)"
  proof -
    have "(\<exists>d. ?by k = Some d) \<longleftrightarrow> k \<in> d_identity ` set current" for k unfolding by_iff by auto
    then have none: "(?by k = None) = (k \<notin> d_identity ` set current)" for k by (metis not_None_eq)
    have "map oi_identity (List.map_filter (\<lambda>i. map_option (\<lambda>d. \<lparr>oi_identity = stringField i ''identity'', oi_expected = d_revision d\<rparr>)
            (?by (stringField i ''identity''))) xs) = filter (\<lambda>i. i \<in> d_identity ` set current) (map item_id xs)" for xs
    proof (induction xs)
      case (Cons x xs)
      then show ?case using none [of "item_id x"]
        by (cases "?by (stringField x ''identity'')") (auto simp: List.map_filter_simps item_id_def)
    qed (simp add: List.map_filter_simps)
    then show ?thesis .
  qed
  show "\<exists>others. map oi_identity (facetReorderItems nf b current) = filter (\<lambda>i. i \<in> d_identity ` set current) (map item_id ?inc) @ others"
    unfolding fri using ids by simp
  have "distinct (map item_id ?inc)"   proof -
    have "mset (map item_id ?inc) = mset (map item_id ?live)" by simp
    then show ?thesis using items mset_eq_imp_distinct_iff by blast
  qed
  then have d1: "distinct (map oi_identity ?first)" unfolding ids by simp
  have d2: "distinct (map d_identity ?extras)"
  proof -
    have "mset (map d_identity ?extras) = mset (map d_identity (filter (\<lambda>d. d_identity d \<notin> set (map oi_identity ?first)) current))"
      by simp
    then show ?thesis using mset_eq_imp_distinct_iff distinct_map_filter [OF cur] by blast
  qed
  show "distinct (map oi_identity (facetReorderItems nf b current))"
  proof -
    have m: "map oi_identity (map ?item ?extras) = map d_identity ?extras" by simp
    have "set (map oi_identity ?first) \<inter> set (map d_identity ?extras) = {}"
      unfolding set_map [of d_identity] set_sort set_filter by blast
    then show ?thesis unfolding fri map_append m distinct_append using d1 d2 by blast
  qed
  have fe: "x = ?item d" if xd: "x \<in> set ?first" "d \<in> set current" "oi_identity x = d_identity d" for x d
  proof -
    obtain i e where "x = \<lparr>oi_identity = stringField i ''identity'', oi_expected = d_revision e\<rparr>" "?by (stringField i ''identity'') = Some e"
      using xd(1) unfolding map_filter_mem map_option_eq_Some by blast
    moreover have "e = d" using xd(2,3) calculation by_iff cur by (auto simp: distinct_map dest: inj_onD)
    ultimately show ?thesis using xd(3) by simp
  qed
  have fs: "oi_identity x \<in> d_identity ` set current" if "x \<in> set ?first" for x
    using arg_cong [OF ids, of set] that by auto
  show "(\<lambda>i. (oi_identity i, oi_expected i)) ` set (facetReorderItems nf b current) = (\<lambda>d. (d_identity d, d_revision d)) ` set current"
    (is "?l = ?r")
  proof
    show "?l \<subseteq> ?r" unfolding fri using fs fe by force
    show "?r \<subseteq> ?l"
    proof
      fix p assume "p \<in> ?r"
      then obtain d where d: "d \<in> set current" "p = (d_identity d, d_revision d)" by auto
      show "p \<in> ?l"
      proof (cases "d_identity d \<in> set (map oi_identity ?first)")
        case True
        then obtain x where "x \<in> set ?first" "oi_identity x = d_identity d" by auto
        then show ?thesis unfolding fri using fe [OF _ d(1)] d(2) by force
      next
        case False
        then have "?item d \<in> set (map ?item ?extras)" using d(1) by auto
        then show ?thesis unfolding fri using d(2) by force
      qed
    qed
  qed
qed

text \<open>The database accepts the wanted order, and the facets of the snapshot come first, by their positions.\<close>

lemma wanted_order_accepted:
  assumes ok: "facets_ok s (db_facets s)" and n: "length (ListFacets ws False s) \<le> 1000000" and actor: "db_user s actor \<noteq> None"
    and items: "distinct (map item_id (live_items b CollectionFacets))"
  shows "\<exists>changed t others. ReorderFacets now ws (facetReorderItems nf b (ListFacets ws False s)) actor s = Inr (changed, t)
    \<and> map d_identity (ListFacets ws False t)
      = filter (\<lambda>i. i \<in> d_identity ` set (ListFacets ws False s))
          (map item_id (sort_key (\<lambda>i. integerField i ''position'') (live_items b CollectionFacets))) @ others"
proof -
  let ?cur = "ListFacets ws False s" and ?items = "facetReorderItems nf b (ListFacets ws False s)"
  note lf = ListFacets_live [OF ok, of ws]
  have "inj_on fr_identity (set (filter (live_in ws) (db_facets s)))"
    using facet_identity_inj [OF ok] by (intro inj_onI) (auto simp: live_in_def)
  then have "distinct (map d_identity ?cur)"
    using ok unfolding lf(1) by (auto simp: by_position_def distinct_map facets_ok_def facets_unique_def)
  note ri = reorder_items [OF this items, of nf]
  have "mset (map oi_identity ?items) = mset (map d_identity ?cur)"
  proof -
    have "oi_identity ` set ?items = d_identity ` set ?cur" using arg_cong [OF ri(3), of "image fst"] by (simp add: image_image)
    then show ?thesis using ri(2) \<open>distinct (map d_identity ?cur)\<close> by (intro set_eq_iff_mset_eq_distinct [THEN iffD1]) simp_all
  qed
  then have "length ?items = length ?cur" by (metis length_map mset_eq_length)
  then have "int (length ?items) \<le> reorder_offset" using n by (simp add: reorder_offset_def)
  moreover have "(\<lambda>i. (oi_identity i, oi_expected i)) ` set ?items
      = (\<lambda>r. (fr_identity r, fr_revision r)) ` {r \<in> set (db_facets s). live_in ws r}"
    using ri(3) lf(2) by (rule trans)
  ultimately obtain changed t where t: "ReorderFacets now ws ?items actor s = Inr (changed, t)"
    using ReorderFacets_ok [OF ok _ actor ri(2)] by blast
  obtain others where "map oi_identity ?items = filter (\<lambda>i. i \<in> d_identity ` set ?cur)
      (map item_id (sort_key (\<lambda>i. integerField i ''position'') (live_items b CollectionFacets))) @ others" using ri(1) by blast
  with t ReorderFacets_listing [OF t ok] show ?thesis by (intro exI conjI) (assumption, simp only:)
qed

section \<open>The rows of a validated snapshot\<close>

lemma stringField_data: "stringField (ounmarshal nf (omarshal (fold odel ks input))) k = (if k \<in> set ks then [] else stringField input k)"
  by (simp add: stringField_def)

lemma stringField_trim [simp]: "trim_space (stringField input k) = stringField input k"
  by (simp add: stringField_def)

lemma validated_parts:
  assumes "ps_validateDocument kind input = Inr ()"
  shows "defaultString (stringField input ''managedBy'') ''user'' \<in> set [''user'', ''system'', ''integration'']"
    "stringField input ''identity'' \<noteq> []" "stringField input ''displayName'' \<noteq> []"
    "kind = CollectionFolders \<Longrightarrow> validate_folder_item input = Inr ()"
  using assms
  by (auto simp: ps_validateDocument_def validate_kind_item_def validateIdentity_def res_iffs Let_def ManagedBySystem_def)

lemma validated_portable:
  assumes "validatePortableDocument kind input = Inr ()"
  shows "\<exists>input'. ps_validateDocument kind input' = Inr () \<and> (\<forall>k. k \<noteq> ''isRoot'' \<longrightarrow> stringField input' k = stringField input k)"
  using assms by (auto simp: validatePortableDocument_def res_iffs Let_def stringField_def split: if_splits intro: exI [of _ "odel ''isRoot'' input"])

lemma validated_folder:
  assumes "validate_folder_item input = Inr ()"
  shows "folder_scope input = FolderScopeCollection \<and> stringField input ''entityType'' \<noteq> []
    \<or> folder_scope input = FolderScopeWorkspace \<and> stringField input ''entityType'' = []"
proof -
  have "[] \<notin> set ps_Collections" by code_simp
  then show ?thesis using assms
    by (auto simp: validate_folder_item_def folder_scope_def Let_def res_iffs split: if_splits)
qed

text \<open>The row of a validated item satisfies the checks of its table.\<close>

lemma validated_row:
  assumes "validatePortableDocument kind input = Inr ()"
  shows "row_check (written env (ps_documentFromInput now kind ws input actor i) folder (Some wfolder) data relation
    (new_row (ps_documentFromInput now kind ws input actor i) now))"
proof -
  define d where "d = ps_documentFromInput now kind ws input actor i"
  obtain input' where v: "ps_validateDocument kind input' = Inr ()" and eq: "\<And>k. k \<noteq> ''isRoot'' \<Longrightarrow> stringField input' k = stringField input k"
    using validated_portable [OF assms] by blast
  have d: "d_type d = kind" "d_managedBy d = defaultString (stringField input ''managedBy'') ''user''" "d_revision d = 1"
    and data: "d_data d = omarshal (fold odel portable_fields input)"
    by (simp_all add: d_def ps_documentFromInput_def Let_def)
  have f: "stringField (ounmarshal nf (d_data d)) k = stringField input k" if "k \<notin> set portable_fields" for nf k
    using that by (simp add: data stringField_data)
  have "''scope'' \<notin> set portable_fields" "''entityType'' \<notin> set portable_fields" by code_simp+
  then have f2: "stringField (ounmarshal nf (d_data d)) ''scope'' = stringField input' ''scope''"
    "stringField (ounmarshal nf (d_data d)) ''entityType'' = stringField input' ''entityType''" for nf
    by (simp_all add: f eq)
  have "kind = CollectionFolders \<Longrightarrow> folder_scope input' = FolderScopeCollection \<and> stringField input' ''entityType'' \<noteq> []
    \<or> folder_scope input' = FolderScopeWorkspace \<and> stringField input' ''entityType'' = []"
    using validated_parts(4) [OF v] validated_folder by blast
  then show ?thesis
    using validated_parts(1) [OF v] eq [of "''managedBy''"] unfolding d_def [symmetric]
    by (auto simp: row_check_def folder_check_def written_def new_row_def Let_def d f2 nullableStringValue_def folder_scope_def)
qed

end
