(* ===== verification/RestoreExact.thy ===== *)
theory RestoreExact
  imports RestoreLaws SnapshotLaws
begin

text \<open>
  What a restore does to one collection of documents: whatever the target does not name is deleted, and whatever it names is
  there as the target has it.
\<close>

section \<open>Documents that carry their item\<close>

definition carries :: "string \<Rightarrow> doc_row \<Rightarrow> jobj \<Rightarrow> bool" where
  "carries kind r item \<longleftrightarrow>
     dr_identity r = stringField item ''identity'' \<and> dr_name r = stringField item ''displayName''
   \<and> dr_desc r = optionalString item ''description'' \<and> dr_managedBy r = defaultString (stringField item ''managedBy'') ''user''
   \<and> dr_managedByID r = optionalString item ''managedById'' \<and> dr_meta r = jsonField item ''meta'' (JObj [])
   \<and> (if portableDocumentDeleted item then \<not> dr_active r \<and> dr_deletedAt r \<noteq> None
      else dr_active r = defaultBool item ''active'' True \<and> dr_deletedAt r = None)
   \<and> (kind \<notin> set [CollectionFolders, CollectionUpdates, CollectionVocabs] \<longrightarrow> dr_data r = omarshal (fold odel portable_fields item))"

text \<open>The row of a document after its turn.\<close>

definition settled :: "env \<Rightarrow> (string \<Rightarrow> string) \<Rightarrow> ctx \<Rightarrow> user \<Rightarrow> string \<Rightarrow> (string \<times> jobj) list \<Rightarrow> document \<Rightarrow> doc_row \<Rightarrow> doc_row \<Rightarrow> bool" where
  "settled env sha c u kind targets d r0 r \<longleftrightarrow> (case oget targets (dr_identity r0) of
      None \<Rightarrow> dr_deletedAt r \<noteq> None \<or> (r = r0 \<and> kind = CollectionFolders \<and> dr_managedBy r = ManagedBySystem)
    | Some item \<Rightarrow> carries kind r item \<or> (r = r0 \<and> sha (stored_text d) = sha (built_text (replaced env c u kind d item))))"

lemma written_more [simp]:
  "dr_desc (written env v f w dt rl r) = d_description v" "dr_managedBy (written env v f w dt rl r) = d_managedBy v"
  "dr_managedByID (written env v f w dt rl r) = d_managedByID v" "dr_meta (written env v f w dt rl r) = d_meta v"
  "dr_data (written env v f w dt rl r) = (if d_type v = CollectionFolders then [] else dt)"
  by (simp_all add: written_def Let_def)

lemma touched_more [simp]:
  "dr_desc (touched a now r) = dr_desc r" "dr_managedBy (touched a now r) = dr_managedBy r"
  "dr_managedByID (touched a now r) = dr_managedByID r" "dr_meta (touched a now r) = dr_meta r"
  by (simp_all add: touched_def)

lemma relation_columns_plain:
  "relation_columns env kind data resolve = Inr (rest, rel) \<Longrightarrow> kind \<noteq> CollectionUpdates \<Longrightarrow> kind \<noteq> CollectionVocabs \<Longrightarrow> rest = data"
  by (simp add: relation_columns_def)

lemma written_carries:
  assumes "d_identity v = stringField item ''identity''" "d_displayName v = stringField item ''displayName''"
    "d_description v = optionalString item ''description''" "d_managedBy v = defaultString (stringField item ''managedBy'') ''user''"
    "d_managedByID v = optionalString item ''managedById''" "d_meta v = jsonField item ''meta'' (JObj [])"
    "d_data v = omarshal (fold odel portable_fields item)"
    "if portableDocumentDeleted item then \<not> d_active v \<and> d_deletedAt v \<noteq> None
     else d_active v = defaultBool item ''active'' True \<and> d_deletedAt v = None"
    "relation_columns env kind (d_data v) resolve = Inr (data, rel)" "d_type v = kind"
  shows "carries kind (written env v f wfo data rel r) item" "carries kind (touched a now (written env v f wfo data rel r)) item"
  using assms relation_columns_plain [OF assms(9)] by (auto simp: carries_def)

lemma replaced_fields [simp]:
  assumes "kind \<noteq> CollectionFacets" "d_type d = kind"
  shows "d_type (replaced env c u kind d item) = kind" "d_workspaceID (replaced env c u kind d item) = d_workspaceID d"
    "d_id (replaced env c u kind d item) = d_id d" "d_revision (replaced env c u kind d item) = d_revision d"
    "d_identity (replaced env c u kind d item) = stringField item ''identity''"
    "d_displayName (replaced env c u kind d item) = stringField item ''displayName''"
    "d_description (replaced env c u kind d item) = optionalString item ''description''"
    "d_managedBy (replaced env c u kind d item) = defaultString (stringField item ''managedBy'') ''user''"
    "d_managedByID (replaced env c u kind d item) = optionalString item ''managedById''"
    "d_meta (replaced env c u kind d item) = jsonField item ''meta'' (JObj [])"
    "d_data (replaced env c u kind d item) = omarshal (fold odel portable_fields item)"
    "if portableDocumentDeleted item then \<not> d_active (replaced env c u kind d item) \<and> d_deletedAt (replaced env c u kind d item) \<noteq> None
     else d_active (replaced env c u kind d item) = defaultBool item ''active'' True \<and> d_deletedAt (replaced env c u kind d item) = None"
  using assms by (auto simp: replaced_def replaceDocumentFromInput_def ps_documentFromInput_def Let_def)

section \<open>One document\<close>

definition swap_row :: "doc_row \<Rightarrow> doc_row \<Rightarrow> doc_row list \<Rightarrow> doc_row list" where
  "swap_row r0 r1 = map (\<lambda>r. if r = r0 then r1 else r)"

lemma UpdateDocument_swap:
  assumes "UpdateDocument env now v e f s = Inr (d, t)" "d_type v \<in> set DocumentCollections" "docs_ok s (db_docs s)"
    "r0 \<in> set (db_docs s)" "dr_kind r0 = d_type v" "dr_id r0 = d_id v"
  shows "\<exists>wfo data rel res. relation_columns env (d_type v) (d_data v) res = Inr (data, rel)
    \<and> db_docs t = swap_row r0 (touched (ac_id (d_updatedBy v)) now (written env v f wfo data rel r0)) (db_docs s)
    \<and> docs_ok t (db_docs t)"
proof -
  from UpdateDocument_Inr [OF assms(1,2)] obtain r wfo data rel where r: "r \<in> set (db_docs s)" "addressed v e r"
    and rc: "relation_columns env (d_type v) (d_data v)
       (\<lambda>kind i. resolveUpdatedDocumentRelation (d_workspaceID v) (d_type v) (d_id v) kind i s) = Inr (data, rel)"
    and t: "t = s\<lparr>db_docs := updateWhere (addressed v e)
        (\<lambda>r. touched (ac_id (d_updatedBy v)) now (written env v f wfo data rel r)) (db_docs s)\<rparr>" and ok: "docs_ok s (db_docs t)"
    by metis
  have u: "docs_unique (db_docs s)" using assms(3) by (simp add: docs_ok_def)
  have rr: "r = r0" by (rule docs_unique_id [OF u r(1) assms(4)]) (use r(2) assms(5,6) in \<open>simp_all add: addressed_def\<close>)
  have a: "addressed v e q \<longleftrightarrow> q = r0" if "q \<in> set (db_docs s)" for q
    using docs_unique_id [OF u that assms(4)] r(2) rr by (auto simp: addressed_def)
  have "updateWhere (addressed v e) g (db_docs s) = map (\<lambda>q. if addressed v e q then g q else q) (db_docs s)" for g
    by (induction "db_docs s") (simp_all add: updateWhere_def)
  then have "db_docs t = swap_row r0 (touched (ac_id (d_updatedBy v)) now (written env v f wfo data rel r0)) (db_docs s)"
    using a by (auto simp: t swap_row_def)
  moreover have "docs_ok t (db_docs t)"
    using ok docs_ok_cong [of t s "db_docs t"] by (simp add: t ws_of_def)
  ultimately show ?thesis using rc by blast
qed

lemma InsertDocument_row:
  assumes "InsertDocument env now v f s = Inr (d, t)" "d_type v \<in> set DocumentCollections"
  shows "\<exists>wfo data rel res. relation_columns env (d_type v) (d_data v) res = Inr (data, rel)
    \<and> t = s\<lparr>db_docs := db_docs s @ [written env v f wfo data rel (new_row v now)]\<rparr> \<and> docs_ok s (db_docs t)"
proof -
  obtain wfo data rel where "relation_columns env (d_type v) (d_data v) (\<lambda>kind i. resolveActiveDocumentID (d_workspaceID v) kind i s) = Inr (data, rel)"
    "insert_doc_row (written env v f wfo data rel (new_row v now)) s = Inr t"
    using assms not_facet_kind [OF assms(2)] by (auto simp: InsertDocument_def bindE_Inr_iff)
  then show ?thesis by (auto simp: insert_doc_row_Inr)
qed

lemma record_docs:
  assumes "RecordDocument env c d op frm s = Inr (r, t)"
  shows "db_docs t = db_docs s" "docs_ok t rows = docs_ok s rows"
proof -
  note a = append_revision_Inr [OF assms [unfolded RecordDocument_append]]
  show "db_docs t = db_docs s" using a(1) by (simp add: same_data_def)
  show "docs_ok t rows = docs_ok s rows" by (rule docs_ok_cong) (use a(1,8) in \<open>simp_all add: same_data_def\<close>)
qed

lemma rewrite_document_swap:
  assumes "rewrite_document env c v e f op s = Inr t" "d_type v \<in> set DocumentCollections" "docs_ok s (db_docs s)"
    "r0 \<in> set (db_docs s)" "dr_kind r0 = d_type v" "dr_id r0 = d_id v"
  shows "\<exists>wfo data rel res. relation_columns env (d_type v) (d_data v) res = Inr (data, rel)
    \<and> db_docs t = swap_row r0 (touched (ac_id (d_updatedBy v)) (cx_now c) (written env v f wfo data rel r0)) (db_docs s)
    \<and> docs_ok t (db_docs t)"
proof -
  obtain d s1 r where up: "UpdateDocument env (cx_now c) v e f s = Inr (d, s1)" and rec: "RecordDocument env c d op None s1 = Inr (r, t)"
    using assms(1) by (auto simp: rewrite_document_def bindE_Inr_iff)
  show ?thesis using UpdateDocument_swap [OF up assms(2-6)] record_docs [OF rec] by simp
qed

definition same_slot :: "doc_row \<Rightarrow> doc_row \<Rightarrow> bool" where
  "same_slot r q \<longleftrightarrow> dr_kind q = dr_kind r \<and> dr_id q = dr_id r \<and> dr_ws q = dr_ws r"

lemma swap_row_same: "swap_row r r rows = rows"
  by (simp add: swap_row_def)

lemma restore_existing_step:
  assumes st: "restore_existing env sha c u ws kind targets d s = Inr t" and k: "kind \<in> set DocumentCollections"
    and ok: "docs_ok s (db_docs s)" and r0: "r0 \<in> set (db_docs s)" "dr_kind r0 = kind" and sc: "scanDocument s0 r0 = Inr d"
  shows "\<exists>r1. db_docs t = swap_row r0 r1 (db_docs s) \<and> docs_ok t (db_docs t) \<and> same_slot r0 r1
    \<and> settled env sha c u kind targets d r0 r1"
proof -
  note sf = scanDocument_fields [OF sc]
  have key: "storedDocumentKey (e_nf env) d = dr_identity r0"
    using not_facet_kind [OF k] sf(3,4) r0(2) by (simp add: storedDocumentKey_def)
  have kf: "kind \<noteq> CollectionFacets" and dt: "d_type d = kind" using not_facet_kind [OF k] sf(3) r0(2) by simp_all
  have stay: ?thesis if "t = s" "settled env sha c u kind targets d r0 r0"
    using that ok by (intro exI [of _ r0]) (simp add: swap_row_same same_slot_def)
  show ?thesis
  proof (cases "oget targets (dr_identity r0)")
    case None
    show ?thesis
    proof (cases "(kind = CollectionFolders \<and> d_managedBy d = ManagedBySystem) \<or> d_deletedAt d \<noteq> None")
      case True
      then have "t = s" using st None key kf by (simp add: restore_existing_def)
      then show ?thesis using stay True None sf by (auto simp: settled_def)
    next
      case False
      then obtain f where "rewrite_document env c (soft_deleted c u d) (d_revision d) f ''delete'' s = Inr t"
        using st None key kf by (auto simp: restore_existing_def bindE_Inr_iff)
      from rewrite_document_swap [OF this _ ok r0(1)] k r0(2) sf obtain wfo dt rl where
        "db_docs t = swap_row r0 (touched (u_id u) (cx_now c) (written env (soft_deleted c u d) f wfo dt rl r0)) (db_docs s)" "docs_ok t (db_docs t)"
        by (auto simp: soft_deleted_def actor_of_id_def)
      then show ?thesis using None
        by (intro exI [of _ "touched (u_id u) (cx_now c) (written env (soft_deleted c u d) f wfo dt rl r0)"])
           (simp add: same_slot_def settled_def soft_deleted_def)
    qed
  next
    case (Some item)
    let ?v = "replaced env c u kind d item"
    note rf = replaced_fields [OF kf dt, where env = env and c = c and u = u and item = item]
    show ?thesis
    proof (cases "sha (stored_text d) = sha (built_text ?v)")
      case True
      then have "t = s" using st Some key by (auto simp: restore_existing_def Let_def bindE_Inr_iff)
      then show ?thesis using stay True Some by (simp add: settled_def)
    next
      case False
      then obtain f where "rewrite_document env c ?v (d_revision d) f ''restore'' s = Inr t"
        using st Some key by (auto simp: restore_existing_def Let_def bindE_Inr_iff)
      from rewrite_document_swap [OF this _ ok r0(1)] k r0(2) sf rf(1,3) obtain wfo data rl res where
        rc: "relation_columns env kind (d_data ?v) res = Inr (data, rl)"
        and t: "db_docs t = swap_row r0 (touched (ac_id (d_updatedBy ?v)) (cx_now c) (written env ?v f wfo data rl r0)) (db_docs s)" "docs_ok t (db_docs t)"
        by auto
      have "carries kind (touched (ac_id (d_updatedBy ?v)) (cx_now c) (written env ?v f wfo data rl r0)) item"
        by (rule written_carries(2) [OF rf(5,6,7,8,9,10,11,12) rc rf(1)])
      then show ?thesis using t Some
        by (intro exI [of _ "touched (ac_id (d_updatedBy ?v)) (cx_now c) (written env ?v f wfo data rl r0)"])
           (simp add: same_slot_def settled_def)
    qed
  qed
qed

section \<open>All stored documents\<close>

text \<open>\<open>turn s0 rows\<close>: the documents whose rows are \<open>rows\<close> had their turn; the rest of the table is as it was.\<close>

lemma swap_rows_mem:
  assumes "distinct (map (\<lambda>r. (dr_kind r, dr_id r)) rows)" "same_slot r0 r1" "r0 \<in> set rows"
  shows "q \<in> set (swap_row r0 r1 rows) \<longleftrightarrow> q = r1 \<or> (q \<in> set rows \<and> \<not> (dr_kind q = dr_kind r0 \<and> dr_id q = dr_id r0))"
proof -
  have "r = r0 \<longleftrightarrow> dr_kind r = dr_kind r0 \<and> dr_id r = dr_id r0" if "r \<in> set rows" for r
    using assms(1,3) that by (auto simp: distinct_map inj_on_def)
  then show ?thesis using assms(3) by (auto simp: swap_row_def image_iff)
qed

lemma restore_existing_all:
  assumes "foldE (restore_existing env sha c u ws kind targets) ds s = Inr t" and k: "kind \<in> set DocumentCollections"
    and "docs_ok s (db_docs s)" and l: "list_all2 (\<lambda>r d. scanDocument s0 r = Inr d \<and> dr_kind r = kind) rs ds"
    and "set rs \<subseteq> set (db_docs s)" "distinct (map dr_id rs)"
  shows "docs_ok t (db_docs t)
    \<and> (\<forall>q. dr_kind q \<noteq> kind \<or> dr_id q \<notin> dr_id ` set rs \<longrightarrow> q \<in> set (db_docs t) \<longleftrightarrow> q \<in> set (db_docs s))
    \<and> (\<forall>q \<in> set (db_docs t). dr_kind q = kind \<longrightarrow> dr_id q \<in> dr_id ` set rs \<longrightarrow>
         (\<exists>r \<in> set rs. \<exists>d. scanDocument s0 r = Inr d \<and> same_slot r q \<and> settled env sha c u kind targets d r q))
    \<and> (\<forall>r \<in> set rs. \<exists>q \<in> set (db_docs t). same_slot r q \<and> (\<exists>d. scanDocument s0 r = Inr d \<and> settled env sha c u kind targets d r q))"
  using l assms(1,3,5,6)
proof (induction arbitrary: s rule: list_all2_induct)
  case (Cons r rs d ds)
  obtain s1 where s1: "restore_existing env sha c u ws kind targets d s = Inr s1"
    and f: "foldE (restore_existing env sha c u ws kind targets) ds s1 = Inr t"
    using Cons.prems(1) by (auto simp: bindE_Inr_iff)
  have r: "r \<in> set (db_docs s)" "dr_kind r = kind" "scanDocument s0 r = Inr d" using Cons by simp_all
  obtain r1 where r1: "db_docs s1 = swap_row r r1 (db_docs s)" "docs_ok s1 (db_docs s1)" "same_slot r r1"
    "settled env sha c u kind targets d r r1"
    using restore_existing_step [OF s1 k Cons.prems(2) r] by blast
  have u: "distinct (map (\<lambda>r. (dr_kind r, dr_id r)) (db_docs s))" using Cons.prems(2) by (simp add: docs_ok_def docs_unique_def)
  note m = swap_rows_mem [OF u r1(3) r(1), folded r1(1)]
  have nr: "dr_id r \<notin> dr_id ` set rs" "distinct (map dr_id rs)" using Cons.prems(4) by auto
  have sub: "set rs \<subseteq> set (db_docs s1)"
  proof
    fix x assume x: "x \<in> set rs"
    have "dr_id x \<noteq> dr_id r" using nr(1) imageI [OF x, of dr_id] by auto
    moreover have "x \<in> set (db_docs s)" using Cons.prems(3) x by auto
    ultimately show "x \<in> set (db_docs s1)" by (simp add: m)
  qed
  note ih = Cons.IH [OF f r1(2) sub nr(2)]
  have rid: "dr_id r1 = dr_id r" "dr_kind r1 = kind" using r1(3) r(2) by (simp_all add: same_slot_def)
  have "r1 \<in> set (db_docs s1)" using m by simp
  then have r1t: "r1 \<in> set (db_docs t)" using ih rid nr(1) by auto
  have a: "q \<in> set (db_docs t) \<longleftrightarrow> q \<in> set (db_docs s)" if "dr_kind q \<noteq> kind \<or> dr_id q \<notin> dr_id ` set (r # rs)" for q
    using ih that m [of q] rid r(2) by auto
  have b: "\<exists>p \<in> set (r # rs). \<exists>d. scanDocument s0 p = Inr d \<and> same_slot p q \<and> settled env sha c u kind targets d p q"
    if "q \<in> set (db_docs t)" "dr_kind q = kind" "dr_id q \<in> dr_id ` set (r # rs)" for q
  proof (cases "dr_id q \<in> dr_id ` set rs")
    case False
    then have "dr_id q = dr_id r" "q \<in> set (db_docs s1)" using that ih by auto
    then have "q = r1" using m [of q] that(2) r(2) by simp
    then show ?thesis using r1 r(3) by auto
  next
    case True
    with ih that(1,2) obtain p d' where "p \<in> set rs" "scanDocument s0 p = Inr d'" "same_slot p q" "settled env sha c u kind targets d' p q"
      by blast
    then show ?thesis by auto
  qed
  have "\<exists>q \<in> set (db_docs t). same_slot p q \<and> (\<exists>d. scanDocument s0 p = Inr d \<and> settled env sha c u kind targets d p q)"
    if "p \<in> set (r # rs)" for p
    using that ih r1t r1(3,4) r(3) by auto
  then show ?case using ih a b by blast
qed simp

section \<open>The missing documents\<close>

lemma restore_new_row:
  assumes "restore_new env c u ws kind item s = Inr t" "kind \<in> set DocumentCollections"
  shows "\<exists>r. db_docs t = db_docs s @ [r] \<and> dr_kind r = kind \<and> dr_ws r = ws \<and> carries kind r item \<and> docs_ok t (db_docs t)"
proof -
  have kf: "kind \<noteq> CollectionFacets" using not_facet_kind [OF assms(2)] by simp
  define s0 where "s0 = snd (fresh env s)"
  define v where "v = ps_documentFromInput (cx_now c) kind ws item (u_id u) (fst (fresh env s))"
  obtain f d s1 r where ins: "InsertDocument env (cx_now c) v f s0 = Inr (d, s1)" and rec: "RecordDocument env c d ''restore'' None s1 = Inr (r, t)"
    using assms(1) kf by (auto simp: restore_new_def Let_def bindE_Inr_iff split_def s0_def v_def)
  have v: "d_type v = kind" "d_workspaceID v = ws" "d_data v = omarshal (fold odel portable_fields item)"
    "d_identity v = stringField item ''identity''" "d_displayName v = stringField item ''displayName''"
    "d_description v = optionalString item ''description''" "d_managedBy v = defaultString (stringField item ''managedBy'') ''user''"
    "d_managedByID v = optionalString item ''managedById''" "d_meta v = jsonField item ''meta'' (JObj [])"
    "if portableDocumentDeleted item then \<not> d_active v \<and> d_deletedAt v \<noteq> None
     else d_active v = defaultBool item ''active'' True \<and> d_deletedAt v = None"
    by (auto simp: v_def ps_documentFromInput_def Let_def)
  from InsertDocument_row [OF ins] assms(2) v(1) obtain wfo data rl res where
    rc: "relation_columns env kind (d_data v) res = Inr (data, rl)"
    and s1: "s1 = s0\<lparr>db_docs := db_docs s0 @ [written env v f wfo data rl (new_row v (cx_now c))]\<rparr>" and ok: "docs_ok s0 (db_docs s1)"
    by auto
  have "docs_ok s1 (db_docs s1)" using ok docs_ok_cong [of s1 s0 "db_docs s1"] by (simp add: s1 ws_of_def)
  moreover have "carries kind (written env v f wfo data rl (new_row v (cx_now c))) item"
    by (rule written_carries(1) [OF v(4,5,6,7,8,9,3,10) rc v(1)])
  ultimately show ?thesis using record_docs [OF rec] v by (simp add: s1 s0_def new_row_def)
qed

lemma restore_new_all:
  assumes "foldE (restore_new env c u ws kind) items s = Inr t" "kind \<in> set DocumentCollections" "docs_ok s (db_docs s)"
  shows "\<exists>new. db_docs t = db_docs s @ new \<and> list_all2 (\<lambda>item r. dr_kind r = kind \<and> dr_ws r = ws \<and> carries kind r item) items new
    \<and> docs_ok t (db_docs t)"
  using assms(1,3)
proof (induction items arbitrary: s)
  case (Cons item items)
  obtain s1 where s1: "restore_new env c u ws kind item s = Inr s1" and f: "foldE (restore_new env c u ws kind) items s1 = Inr t"
    using Cons.prems(1) by (auto simp: bindE_Inr_iff)
  obtain r where r: "db_docs s1 = db_docs s @ [r]" "dr_kind r = kind" "dr_ws r = ws" "carries kind r item" "docs_ok s1 (db_docs s1)"
    using restore_new_row [OF s1 assms(2)] by blast
  from Cons.IH [OF f r(5)] obtain new where "db_docs t = db_docs s1 @ new" "docs_ok t (db_docs t)"
    "list_all2 (\<lambda>item r. dr_kind r = kind \<and> dr_ws r = ws \<and> carries kind r item) items new" by blast
  then show ?case using r by (intro exI [of _ "r # new"]) simp
qed simp

section \<open>One collection\<close>

definition kind_rows :: "id \<Rightarrow> string \<Rightarrow> db \<Rightarrow> doc_row set" where
  "kind_rows ws kind s = {r \<in> set (db_docs s). dr_kind r = kind \<and> dr_ws r = ws}"

text \<open>The statement that lists the collection returns all of it: every row joins, and there are no more than its limit.\<close>

definition listable :: "id \<Rightarrow> string \<Rightarrow> db \<Rightarrow> bool" where
  "listable ws kind s \<longleftrightarrow> (\<forall>r \<in> kind_rows ws kind s. \<not> isl (scanDocument s r))
     \<and> length (filter (\<lambda>r. dr_kind r = kind \<and> dr_ws r = ws) (db_docs s)) \<le> 100000"

lemma scan_all_Inr: "\<forall>r \<in> set rs. \<not> isl (f r) \<and> p r \<Longrightarrow> list_all2 (\<lambda>r d. f r = Inr d \<and> p r) rs (scan_all f rs)"
  by (induction rs) (auto simp: scan_all_def isl_def split: sum.splits)

lemma ListDocuments_all:
  assumes "ListDocuments ws kind \<lparr>f_includeDeleted = True, f_folder = None, f_active = None, f_limit = 100000, f_offset = 0\<rparr> s = Inr ds"
    "kind \<in> set DocumentCollections" "listable ws kind s" "docs_ok s (db_docs s)"
  shows "\<exists>rs. set rs = kind_rows ws kind s \<and> distinct (map dr_id rs)
    \<and> list_all2 (\<lambda>r d. scanDocument s r = Inr d \<and> dr_kind r = kind) rs ds"
proof -
  let ?f = "filter (\<lambda>r. dr_kind r = kind \<and> dr_ws r = ws) (db_docs s)" let ?rs = "sort_key dr_identity ?f"
  have all: "\<forall>r \<in> set ?rs. \<not> isl (scanDocument s r) \<and> dr_kind r = kind" using assms(3) by (simp add: listable_def kind_rows_def)
  note l2 = scan_all_Inr [OF all]
  have "length (scan_all (scanDocument s) ?rs) = length ?f" using list_all2_lengthD [OF l2] by simp
  then have "ds = scan_all (scanDocument s) ?rs"
    using assms(1,2,3) not_facet_kind [OF assms(2)] by (simp add: ListDocuments_def tableFor_def page_of_def listable_def)
  then have "list_all2 (\<lambda>r d. scanDocument s r = Inr d \<and> dr_kind r = kind) ?rs ds" using l2 by simp
  moreover have "distinct (map dr_id ?rs)"
  proof -
    have "distinct (map (\<lambda>r. (dr_kind r, dr_id r)) (db_docs s))" using assms(4) by (simp add: docs_ok_def docs_unique_def)
    then have "distinct ?f" "inj_on dr_id (set ?f)" by (auto simp: distinct_map inj_on_def)
    then show ?thesis by (simp add: distinct_map)
  qed
  ultimately show ?thesis by (intro exI [of _ ?rs]) (auto simp: kind_rows_def)
qed

lemma targets_lookup:
  assumes "distinct (map f items)"
  shows "oget (fold (\<lambda>item m. oput (f item) item m) items acc) k
    = (if k \<in> f ` set items then Some (the_inv_into (set items) f k) else oget acc k)"
  using assms
proof (induction items arbitrary: acc)
  case (Cons item items)
  have inj: "inj_on f (set (item # items))" using Cons.prems by (simp only: distinct_map)
  then have "the_inv_into (set (item # items)) f (f i) = i" if "i \<in> set (item # items)" for i using that by (rule the_inv_into_f_f)
  moreover have "the_inv_into (set items) f (f i) = i" if "i \<in> set items" for i
    using inj that by (intro the_inv_into_f_f) (simp_all add: inj_on_def)
  ultimately show ?case using Cons by (auto simp: oget_put)
qed simp

lemma list_all2_left: "list_all2 P ks xs \<Longrightarrow> k \<in> set ks \<Longrightarrow> \<exists>v \<in> set xs. P k v"
  by (induction rule: list_all2_induct) auto

lemma order_items_perm:
  assumes "orderPortableItems kind items = Inr ordered" "kind \<noteq> CollectionFacets" "distinct (map item_id items)"
  shows "set ordered = set items" "distinct (map item_id ordered)"
proof -
  have "mset ordered = mset items"
  proof (cases "kind \<noteq> ''folders'' \<or> length items < 2")
    case True
    then show ?thesis using assms(1,2) by (simp add: orderPortableItems_def)
  next
    case False
    then have k: "kind = CollectionFolders" by (simp add: CollectionFolders_def)
    have "[] \<notin> item_id ` set items"
      using assms(1,2) False by (auto simp: orderPortableItems_def failIf_Inr_iff item_id_def)
    then show ?thesis using order_items_spec [OF assms(3)] False assms(1) unfolding k by simp
  qed
  then show "set ordered = set items" "distinct (map item_id ordered)"
    using assms(3) by (metis mset_eq_setD, metis mset_map mset_eq_imp_distinct_iff)
qed

lemma restore_kind_exact:
  assumes rk: "restore_kind env sha c u ws b kind s = Inr t" and k: "kind \<in> set DocumentCollections"
    and ok: "docs_ok s (db_docs s)" and ls: "listable ws kind s"
    and items: "items = docs_in (orElse (bn_documents b) []) kind" and dis: "distinct (map item_id items)"
  shows "docs_ok t (db_docs t)
    \<and> (\<forall>r \<in> kind_rows ws kind t. dr_deletedAt r = None \<longrightarrow>
         dr_identity r \<in> item_id ` set items \<or> (kind = CollectionFolders \<and> dr_managedBy r = ManagedBySystem))
    \<and> (\<forall>item \<in> set items. \<exists>r \<in> kind_rows ws kind t. dr_identity r = item_id item \<and> (carries kind r item
         \<or> (\<exists>d. r \<in> kind_rows ws kind s \<and> scanDocument s r = Inr d
              \<and> sha (stored_text d) = sha (built_text (replaced env c u kind d item)))))
    \<and> (\<forall>r. \<not> (dr_kind r = kind \<and> dr_ws r = ws) \<longrightarrow> (r \<in> set (db_docs t) \<longleftrightarrow> r \<in> set (db_docs s)))"
proof -
  note nf = not_facet_kind [OF k]
  define targets where "targets ordered = fold (\<lambda>item m. oput (portableDocumentKey kind item) item m) ordered []" for ordered
  obtain ordered existing s1 where o: "orderPortableItems kind items = Inr ordered"
    and ex: "ListDocuments ws kind \<lparr>f_includeDeleted = True, f_folder = None, f_active = None, f_limit = 100000, f_offset = 0\<rparr> s = Inr existing"
    and f1: "foldE (restore_existing env sha c u ws kind (targets ordered)) existing s = Inr s1"
    and f2: "foldE (restore_new env c u ws kind) (filter (\<lambda>item. portableDocumentKey kind item
        \<notin> set (map (storedDocumentKey (e_nf env)) existing)) ordered) s1 = Inr t"
    using rk nf unfolding restore_kind_def Let_def items [symmetric] targets_def [symmetric] by (auto simp: bindE_Inr_iff)
  note op = order_items_perm [OF o conjunct1 [OF nf] dis]
  have pk: "portableDocumentKey kind = item_id" using nf by (simp add: fun_eq_iff portableDocumentKey_def item_id_def)
  have tg: "oget (targets ordered) j = (if j \<in> item_id ` set items then Some (the_inv_into (set ordered) item_id j) else None)" for j
    unfolding targets_def pk using targets_lookup [OF op(2), of "[]" j] op(1) by simp
  have inj: "inj_on item_id (set ordered)" using op(2) by (simp only: distinct_map)
  have tgi: "oget (targets ordered) (item_id i) = Some i" if "i \<in> set items" for i
    using tg that the_inv_into_f_f [OF inj] op(1) by simp
  obtain rs where rs: "set rs = kind_rows ws kind s" "distinct (map dr_id rs)"
    "list_all2 (\<lambda>r d. scanDocument s r = Inr d \<and> dr_kind r = kind) rs existing"
    using ListDocuments_all [OF ex k ls ok] by blast
  have sub: "set rs \<subseteq> set (db_docs s)" using rs(1) by (auto simp: kind_rows_def)
  note all = restore_existing_all [OF f1 k ok rs(3) sub rs(2)]
  obtain new where n: "db_docs t = db_docs s1 @ new" "docs_ok t (db_docs t)"
    "list_all2 (\<lambda>item r. dr_kind r = kind \<and> dr_ws r = ws \<and> carries kind r item)
       (filter (\<lambda>item. portableDocumentKey kind item \<notin> set (map (storedDocumentKey (e_nf env)) existing)) ordered) new"
    using restore_new_all [OF f2 k] all by blast
  have keys: "set (map (storedDocumentKey (e_nf env)) existing) = dr_identity ` kind_rows ws kind s"
  proof -
    have "storedDocumentKey (e_nf env) d = dr_identity r" if "scanDocument s r = Inr d" "dr_kind r = kind" for r d
      using scanDocument_fields(3,4) [OF that(1)] that(2) nf by (simp add: storedDocumentKey_def)
    with rs(3) have "map (storedDocumentKey (e_nf env)) existing = map dr_identity rs"
      by (induction rule: list_all2_induct) simp_all
    then show ?thesis using rs(1) by simp
  qed
  have new: "dr_kind r = kind \<and> dr_ws r = ws \<and> (\<exists>item \<in> set items. carries kind r item)" if "r \<in> set new" for r
    using list_all2_right [OF n(3) that] op(1) by auto
  have turn: "\<exists>r \<in> set rs. \<exists>d. scanDocument s r = Inr d \<and> same_slot r q \<and> settled env sha c u kind (targets ordered) d r q"
    if "q \<in> kind_rows ws kind s1" for q
  proof (cases "dr_id q \<in> dr_id ` set rs")
    case True
    then show ?thesis using all that by (simp add: kind_rows_def)
  next
    case False
    then have "q \<in> set (db_docs s)" using all that by (simp add: kind_rows_def)
    then have "q \<in> set rs" using that rs(1) by (simp add: kind_rows_def)
    then show ?thesis using False by simp
  qed
  have alive: "dr_identity r \<in> item_id ` set items \<or> (kind = CollectionFolders \<and> dr_managedBy r = ManagedBySystem)"
    if r: "r \<in> kind_rows ws kind t" "dr_deletedAt r = None" for r
  proof (cases "r \<in> set new")
    case True
    then show ?thesis using new by (force simp: carries_def item_id_def)
  next
    case False
    then have "r \<in> kind_rows ws kind s1" using r n(1) by (auto simp: kind_rows_def)
    then obtain r0 d where st: "settled env sha c u kind (targets ordered) d r0 r" using turn by blast
    show ?thesis
    proof (cases "dr_identity r0 \<in> item_id ` set items")
      case True
      then obtain item where i: "item \<in> set items" "dr_identity r0 = item_id item" by blast
      then have "carries kind r item \<or> r = r0" using st tgi [OF i(1)] by (auto simp: settled_def)
      then have "dr_identity r = item_id item" using i(2) by (auto simp: carries_def item_id_def)
      then show ?thesis using i(1) by auto
    qed (use st tg r(2) in \<open>auto simp: settled_def\<close>)
  qed
  have present: "\<exists>r \<in> kind_rows ws kind t. dr_identity r = item_id item \<and> (carries kind r item
      \<or> (\<exists>d. r \<in> kind_rows ws kind s \<and> scanDocument s r = Inr d \<and> sha (stored_text d) = sha (built_text (replaced env c u kind d item))))"
    if i: "item \<in> set items" for item
  proof (cases "item_id item \<in> dr_identity ` set rs")
    case True
    then obtain r where r: "r \<in> set rs" "dr_identity r = item_id item" by auto
    then obtain q d where q: "q \<in> set (db_docs s1)" "same_slot r q" "scanDocument s r = Inr d" "settled env sha c u kind (targets ordered) d r q"
      using all by blast
    have "q \<in> kind_rows ws kind t" using q(1,2) r(1) rs(1) n(1) by (auto simp: kind_rows_def same_slot_def)
    moreover have "carries kind q item \<or> (q = r \<and> sha (stored_text d) = sha (built_text (replaced env c u kind d item)))"
      using q(4) tgi [OF i] r(2) by (simp add: settled_def)
    ultimately show ?thesis using r q(3) rs(1) by (auto simp: carries_def item_id_def)
  next
    case False
    then have "item \<in> set (filter (\<lambda>item. portableDocumentKey kind item \<notin> set (map (storedDocumentKey (e_nf env)) existing)) ordered)"
      using i op(1) rs(1) keys by (simp add: pk)
    then obtain r where "r \<in> set new" "dr_kind r = kind \<and> dr_ws r = ws \<and> carries kind r item"
      using list_all2_left [OF n(3)] by blast
    then show ?thesis using n(1) by (intro bexI [of _ r]) (auto simp: kind_rows_def carries_def item_id_def)
  qed
  have frame: "r \<in> set (db_docs t) \<longleftrightarrow> r \<in> set (db_docs s)" if nk: "\<not> (dr_kind r = kind \<and> dr_ws r = ws)" for r
  proof (cases "dr_kind r = kind \<and> dr_id r \<in> dr_id ` set rs")
    case False
    then show ?thesis using all n(1) new nk by auto
  next
    case True
    then obtain q where q: "q \<in> set rs" "dr_id q = dr_id r" by auto
    then have "q \<in> set (db_docs s)" "dr_kind q = kind" "dr_ws q = ws" using rs(1) by (auto simp: kind_rows_def)
    then have "r \<notin> set (db_docs s)"
      using ok q(2) True nk docs_unique_id [of "db_docs s" q r] by (auto simp: docs_ok_def)
    moreover have "r \<notin> set (db_docs s1)"
    proof
      assume "r \<in> set (db_docs s1)"
      then obtain p where "p \<in> set rs" "same_slot p r" using all True by blast
      then show False using rs(1) nk True by (auto simp: kind_rows_def same_slot_def)
    qed
    ultimately show ?thesis using n(1) new nk by auto
  qed
  show ?thesis using n(2) alive present frame by blast
qed

end
