(* ===== verification/RestoreSample.thy ===== *)
theory RestoreSample
  imports CommitSample SnapshotOrder RestoreExact
begin

text \<open>Restores of the concrete workspace.\<close>

lemma page_of_code [code]:
  "page_of limit offset xs = (if int (length xs) \<le> limit then drop (nat offset) xs else take (nat limit) (drop (nat offset) xs))"
  by (simp add: page_of_def)

text \<open>A type that is no part of the target, in the workspace with its bootstrap commit.\<close>

definition sample_type :: doc_row where
  "sample_type = (sample_folder ''t1'' ''edge'' [] None)\<lparr>dr_kind := CollectionTypes, dr_folder := Some ''f2'', dr_wfolder := Some ''f1'',
     dr_isRoot := False, dr_managedBy := ''user''\<rparr>"

definition sample_edge :: commit_db where
  "sample_edge = sample_commits\<lparr>cd_db := sample_db\<lparr>db_docs := db_docs sample_db @ [sample_type]\<rparr>\<rparr>"

definition sample_target :: "string \<Rightarrow> portable_bundle" where
  "sample_target name = \<lparr>bn_kind = [], bn_schemaVersion = 2, bn_domainVersion = [], bn_workspace = None,
     bn_documents = Some [(''types'', [[(''displayName'', JStr name), (''identity'', JStr ''point''),
       (''source'', JStr ''type Point''), (''sourceVersion'', JNumber ''1'')]])],
     bn_installedIntegrations = []\<rparr>"

definition sample_restore :: "string \<Rightarrow> ((commit \<times> commit_change list) \<times> commit_db) res" where
  "sample_restore name = restoreBundle sample_env (\<lambda>_. []) sample_version [] sample_ctx (sample_target name) 2 ''commit_restore'' ''back'' sample_edge"

lemma sample_edge_inv: "commits_inv sample_edge" "workspaces_keyed (cd_db sample_edge)"
  unfolding sample_edge_def
  by (rule data_inv [OF sample_commits_inv]) (simp_all add: sample_commits_def workspaces_keyed_def sample_db_def)

text \<open>The document that the target does not have is deleted, the missing one is created.\<close>

lemma sample_restore_ok:
  "case sample_restore ''Dot'' of Inl e \<Rightarrow> False
   | Inr ((cm, chs), t) \<Rightarrow> cm_base cm = 2 \<and> map (\<lambda>c. (cc_identity c, cc_operation c)) chs = [(''edge'', ''delete''), (''point'', ''restore'')]
      \<and> map (\<lambda>r. (dr_identity r, dr_name r, dr_deletedAt r)) (filter (\<lambda>r. dr_kind r = CollectionTypes) (db_docs (cd_db t)))
        = [(''edge'', ''edge'', Some 50), (''point'', ''Dot'', None)]"
  by code_simp

lemma sample_restore_Inr: "\<exists>cm chs t. sample_restore ''Dot'' = Inr ((cm, chs), t)"
  using sample_restore_ok by (cases "sample_restore ''Dot''") auto

text \<open>One collection of it.\<close>

definition sample_types :: "db res" where
  "sample_types = restore_kind sample_env id sample_ctx sample_user ''w1'' (sample_target ''Dot'') CollectionTypes (cd_db sample_edge)"

lemma sample_types_ok:
  "case sample_types of Inl e \<Rightarrow> False | Inr t \<Rightarrow>
     map (\<lambda>r. (dr_identity r, dr_deletedAt r = None)) (filter (\<lambda>r. dr_kind r = CollectionTypes \<and> dr_ws r = ''w1'') (db_docs t))
     = [(''edge'', False), (''point'', True)]"
  by code_simp

lemma sample_edge_listable: "listable ''w1'' CollectionTypes (cd_db sample_edge)" "docs_ok (cd_db sample_edge) (db_docs (cd_db sample_edge))"
proof -
  have "list_all (\<lambda>r. \<not> isl (scanDocument (cd_db sample_edge) r)) (db_docs (cd_db sample_edge)) \<and> length (db_docs (cd_db sample_edge)) = 3"
    by code_simp
  then show "listable ''w1'' CollectionTypes (cd_db sample_edge)"
    using length_filter_le [of "\<lambda>r. dr_kind r = CollectionTypes \<and> dr_ws r = ''w1''" "db_docs (cd_db sample_edge)"]
    by (simp add: listable_def kind_rows_def list_all_iff)
  show "docs_ok (cd_db sample_edge) (db_docs (cd_db sample_edge))" by code_simp
qed

section \<open>Folders\<close>

definition sample_child :: "string \<Rightarrow> string \<Rightarrow> json" where
  "sample_child i parent = JObj [(''displayName'', JStr i), (''entityType'', JStr ''types''), (''identity'', JStr i), (''parentIdentity'', JStr parent)]"

definition sample_sub :: "id \<Rightarrow> string \<Rightarrow> id \<Rightarrow> doc_row" where
  "sample_sub i identity parent = (sample_folder i identity FolderScopeCollection (Some CollectionTypes))\<lparr>dr_folder := Some parent,
     dr_isRoot := False, dr_managedBy := ''user''\<rparr>"

text \<open>A folder and its subfolder: the deletion of the folder has moved the subfolder out, and the target has both. Restoring it
  succeeds when the subfolder comes after the folder in the order of identities; otherwise the subfolder has its turn first and
  its parent is still deleted.\<close>

definition sample_emptied :: "string \<Rightarrow> string \<Rightarrow> db" where
  "sample_emptied parent child = sample_db\<lparr>db_docs := db_docs sample_db @
     [(sample_sub ''d1'' parent ''f2'')\<lparr>dr_active := False, dr_deletedAt := Some 40\<rparr>, sample_sub ''d2'' child ''f2'']\<rparr>"

definition sample_folder_target :: "string \<Rightarrow> string \<Rightarrow> portable_bundle" where
  "sample_folder_target parent child = (sample_target [])\<lparr>bn_documents := Some [(CollectionFolders,
     [projr (decodeValues (sample_child parent ''root-types'')), projr (decodeValues (sample_child child parent))])]\<rparr>"

lemma restore_depends_on_names:
  "case restore_kind sample_env id sample_ctx sample_user ''w1'' (sample_folder_target ''aa'' ''zz'') CollectionFolders (sample_emptied ''aa'' ''zz'') of
     Inl e \<Rightarrow> False | Inr t \<Rightarrow> map (\<lambda>r. (dr_identity r, dr_folder r, dr_deletedAt r)) (drop 2 (db_docs t))
       = [(''aa'', Some ''f2'', None), (''zz'', Some ''d1'', None)]"
  "restore_kind sample_env id sample_ctx sample_user ''w1'' (sample_folder_target ''zz'' ''aa'') CollectionFolders (sample_emptied ''zz'' ''aa'')
     = Inl RowNotFound"
  by code_simp+

text \<open>\<open>bb\<close> was created in \<open>aa\<close>, moved out, and then \<open>aa\<close> was moved into it. Restoring the first revision of \<open>bb\<close> makes each
  the parent of the other.\<close>

definition sample_swapped :: db where
  "sample_swapped =
     (let before = sample_db\<lparr>db_docs := db_docs sample_db @ [sample_sub ''d1'' ''aa'' ''f2'', sample_sub ''d2'' ''bb'' ''d1'']\<rparr> in
      sample_db\<lparr>db_docs := db_docs sample_db @ [(sample_sub ''d1'' ''aa'' ''d2'')\<lparr>dr_revision := 2\<rparr>, (sample_sub ''d2'' ''bb'' ''f2'')\<lparr>dr_revision := 2\<rparr>],
        db_revisions := db_revisions sample_db @ [(sample_revision ''r3'' ''d2'' 0)\<lparr>rv_docIdentity := ''bb'',
          rv_snapshot := SnapDocument (projr (scanDocument before (sample_sub ''d2'' ''bb'' ''d1'')))\<rparr>]\<rparr>)"

definition sample_looped :: db where
  "sample_looped = snd (projr (RestoreRevision sample_env sample_ctx CollectionFolders ''bb'' ''r3'' 2 sample_swapped))"

lemma sample_looped_rows:
  "map (\<lambda>r. (dr_kind r, dr_id r, dr_ws r, dr_folder r)) (db_docs sample_looped)
     = [(CollectionFolders, ''f1'', ''w1'', None), (CollectionFolders, ''f2'', ''w1'', None),
        (CollectionFolders, ''d1'', ''w1'', Some ''d2''), (CollectionFolders, ''d2'', ''w1'', Some ''d1'')]"
  by code_simp

lemma restored_revision_makes_cycle: "\<not> folders_acyclic sample_looped"
proof -
  have row: "\<exists>r \<in> set (db_docs sample_looped). dr_kind r = CollectionFolders \<and> dr_id r = i \<and> dr_ws r = ''w1'' \<and> dr_folder r = Some p"
    if "(CollectionFolders, i, ''w1'', Some p) \<in> set (map (\<lambda>r. (dr_kind r, dr_id r, dr_ws r, dr_folder r)) (db_docs sample_looped))" for i p
    using that by force
  have "(''d1'', ''d2'') \<in> up_rel (db_docs sample_looped) ''w1''" "(''d2'', ''d1'') \<in> up_rel (db_docs sample_looped) ''w1''"
    using row [of "''d1''" "''d2''"] row [of "''d2''" "''d1''"] unfolding sample_looped_rows by (force simp: up_rel_def)+
  then have "(''d1'', ''d1'') \<in> (up_rel (db_docs sample_looped) ''w1'')\<^sup>+" by (meson trancl.r_into_trancl trancl.trancl_into_trancl)
  then show ?thesis by (auto simp: folders_acyclic_def acyclic_def)
qed

section \<open>Plans\<close>

text \<open>The workspace has the facets \<open>stage\<close> and \<open>team\<close> and the facet document \<open>stage/prod\<close>. The plan of a restore to exactly
  this document announces its creation, and the plan of a snapshot that only deletes it announces no deletion.\<close>

definition sample_stage :: "jobj \<Rightarrow> portable_bundle" where
  "sample_stage d = \<lparr>bn_kind = [], bn_schemaVersion = 2, bn_domainVersion = [], bn_workspace = None,
     bn_documents = Some [(CollectionFacetDocuments, [d]), (CollectionFacets, [[(''identity'', JStr ''stage'')], [(''identity'', JStr ''team'')]])],
     bn_installedIntegrations = []\<rparr>"

lemma plans_miscount:
  "case planExactRestore id ''w1'' (sample_stage [(''facetIdentity'', JStr ''stage''), (''identity'', JStr ''prod'')]) sample_facets of
     Inl e \<Rightarrow> False | Inr c \<Rightarrow> pc_creates c = 1"
  "case planSnapshotChanges id ''w1'' (sample_stage [(''deleted'', JBool True), (''facetIdentity'', JStr ''stage''), (''identity'', JStr ''prod'')])
     \<lparr>pc_creates = 0, pc_updates = 0, pc_restores = 0, pc_deletes = 0\<rparr> sample_facets of
     Inl e \<Rightarrow> False | Inr c \<Rightarrow> pc_deletes c = 0"
  by code_simp+

section \<open>Texts\<close>

text \<open>A document that comes back from the database unchanged has another text than the document that was written, when the keys of an
  object differ in length: a restore writes it again.\<close>

definition sample_meta :: document where
  "sample_meta = (fst (projr sample_created))\<lparr>d_meta := JObj [(''aa'', JBool True), (''b'', JBool True)]\<rparr>"

lemma same_document_two_texts: "stored_text sample_meta \<noteq> built_text sample_meta"
  by code_simp

end
