(* ===== verification/Spec2Isabelle.thy ===== *)
theory Spec2Isabelle
  imports Sample BridgeSample CacheReader AccessSample DomainSample CommitSample SnapshotLaws SnapshotOrder RestoreExact RestoreSample
begin

text \<open>
  Verification of the Endge backend (Go), a service that stores the documents of a visual configurator
  with optimistic locking and a revision log, and guards them with roles, personal access tokens and
  policies of an identity provider. A request passes authentication, the current user, the workspace
  authorization; a handler calls a use case; the use case runs a transaction over repositories.

  Theories, from the bottom:
  Prelude (results, loops that stop at the first error, row updates), GoText (strings and strconv as Go
  has them, on UTF-8 bytes), JsonValue (Go's \<open>any\<close>; maps as association lists with increasing keys; the locale of
  string-keyed maps), AppErrors (internal/domain/errors, internal/usecase/shared/errors.go), Entities
  (internal/domain/entities), AccessContext (usecase/shared/context.go, Authorize of usecase/workspaces/queries.go),
  AccessTokens (usecase/access_tokens and its repository), TokenRoutes (the token middleware), TokenLaws (how these
  fit together), AccessPolicy (domain/access), Validation (usecase/shared/validation.go), ConfigurationDomain
  (domain/configuration), DocContract (usecase/documents/contract.go, input.go, folders.go), Versioned (the contract of a
  store with optimistic locking, as a locale), Database (the tables and their constraints after migrations/), FacetStore
  and Store (repo/postgres: facets_repository.go, documents_repository.go, document_repository.go), History
  (usecase/history and the revision repository), Lifecycle (usecase/documents: commands.go, folders.go, queries.go),
  LogLaws and LifecycleLaws (the history invariant and its preservation), FolderTree (folders are a forest), DocMove
  (usecase/documents/move.go), Commands (the commands as one state machine), Facets (usecase/facets), FacetLaws, FacetOrder
  and FacetCommands (their invariant, reordering, every command), Service (documents and facets in one run), Sample (a
  concrete workspace).

  JsonScan (the scanner of json.Valid), Bridge (usecase/bridge: participants, debugging sessions, pending commands),
  BridgeLaws (loops over Go maps, as locales), BridgeInv (the invariant), BridgeService (messages, runs), BridgeSample.
  ArtifactCache (usecase/release_artifacts and its configuration), CacheLaws (sizes, eviction), CacheReader (shared
  flights, runs). AccessGrants (repo/postgres: access_control_repository.go, external_access_repository.go,
  user_repository.go, memberships), AccessControl (usecase/access_control, usecase/workspaces/memberships.go), AccessLaws
  (grants as a map, the effect of each statement), AccessService (commands, runs, external policies), AccessSample.

  JsonText (the text json.Marshal writes), DomainVersion (internal/domain/domainversion: the canonical form of a portable
  bundle and its version), DomainLaws (a canonical bundle is a fixed point), DomainOrder (the order of documents does not
  matter), DomainSample. Commits (usecase/commits and commits_repository.go), CommitLaws (the invariant: commits form a chain over
  the log), SquashLaws (what squashing leaves), LogRuns (commands as runs of log steps), CommitService (commands and commits in one run),
  CommitOutcome (a commit and its plan; commands, restores and commits in one run), CommitSample. Portable (usecase/workspace_state:
  support.go, the documents of a bundle), SnapshotPlan (the order of folders and facets, relations, deletions and plans of
  import.go and restore_apply.go), SnapshotLaws and SnapshotOrder (their properties), Restore (revision_restore.go,
  commit_restore.go, restoreBundle; the statements on workspaces and installed integrations), RestoreLaws (a restore is a run of
  the log that ends in a commit), RestoreExact (what it makes of a collection), RestoreSample.

  How the code is read. An error result is \<open>Inl\<close>; a failed transaction has no new database, which is its rollback.
  The database is a record of row lists and a statement fails when the table it leaves breaks a constraint. SHA-256, the
  printed form of a float64, random identifiers and the clock are parameters (record \<open>env\<close>, the field \<open>cx_now\<close> of the
  context). A JSON number is its literal; a map is ranged over in key order (the properties do not depend on it). Times are
  integers, and Go integers are \<open>int\<close>: the modelled code only counts, compares and adds one to them. Of code that holds a
  mutex, each critical section is one step, and a run interleaves the sections in any order (the bridge, the cache). The
  bridge ranges over its maps in an arbitrary order, a parameter.

  Fuel: the recursive folder query runs on \<open>Suc\<close> of the number of rows, and theory FolderTree proves that this finds every
  ancestor (property \<open>cycle_check_exact\<close>). The eviction loop of the cache has no bound in the code: it is a partial function
  with values in the options, and property \<open>flight_completes\<close> shows that it returns.

  Groups of properties. History and locking of documents; creation, patch, deletion, moves; folders; tokens; routes and
  rights; validation; facets; the bridge; the artifact cache; access control; domain versions; commits; snapshots and restores.

  Not modelled: the HTTP and MCP transport, sessions and OIDC, generated code, network clients, releases and their
  builds, the export and the handlers of an import (the exported workspace is a parameter; what an import validates, orders, plans
  and deletes is modelled), adjuncts, the AI catalogue, the WebSocket transport of the bridge. Reformatting of numbers by JSONB is
  not modelled, nor are error messages. Workspaces are created by code that is not modelled; the runs of access
  control keep the set of workspaces fixed. The hash of a restore is taken of texts: JSONB is modelled as ordering keys by
  their length first (\<open>jsonb_text\<close>), because that decides which documents a restore writes again.
\<close>

section \<open>Documents and their history\<close>

text \<open>C1. Whatever document commands are served, and in whatever order, the revision log of a document holds
  exactly the revisions 1, 2, ..., n, oldest first, where n is the revision of its row: no change is
  missing from the history and none is recorded twice.\<close>

theorem history_complete:
  assumes "reached env s0 s" "log_inv {} s0" "r \<in> set (db_docs s)" "dr_kind r \<in> set DocumentCollections"
  shows "map rv_number (revisions_of s (dr_ws r) (dr_kind r) (dr_id r)) = [1..dr_revision r]"
  by (rule log_inv_row [OF reached_inv [OF assms(1,2)] assms(3,4)])

lemma sample_reached: "reached sample_env sample_db sample_after"
  by (rule reached.step [OF reached.start doc_step.create [OF sample_create]])

theorem history_complete_witness:
  "\<exists>r \<in> set (db_docs sample_after). dr_identity r = ''point''
     \<and> map rv_number (revisions_of sample_after (dr_ws r) (dr_kind r) (dr_id r)) = [1]"
proof -
  obtain r where r: "sample_point = Some r" "dr_revision r = 1" "dr_kind r = CollectionTypes"
    using sample_point_row by (auto split: option.splits)
  have m: "r \<in> set (db_docs sample_after)" "dr_identity r = ''point''"
    using r(1) by (auto simp: sample_point_def row_by_identity_def dest: find_SomeD)
  have k: "dr_kind r \<in> set DocumentCollections" using r(3) by (simp add: DocumentCollections_def)
  show ?thesis
    using history_complete [OF sample_reached sample_log_inv m(1) k] m r(2) by auto
qed

text \<open>The sequence numbers of a workspace strictly increase along the log and never pass the head of the
  workspace, in every state the commands reach.\<close>

theorem sequences_increase:
  assumes "reached env s0 s" "log_inv {} s0" "head_of s ws = Some h"
  shows "sorted_wrt (<) (sequences s ws) \<and> (\<forall>n \<in> set (sequences s ws). n \<le> h)"
  using reached_inv [OF assms(1,2)] assms(3) by (simp add: log_inv_def log_ordered_def)

lemma sample_after_head: "head_of sample_after ''w1'' = Some 3"
  by code_simp

theorem sequences_increase_witness:
  "head_of sample_after ''w1'' = Some 3 \<and> sorted_wrt (<) (sequences sample_after ''w1'')"
  using sequences_increase [OF sample_reached sample_log_inv sample_after_head] sample_after_head by simp

text \<open>C2. Optimistic locking: of any number of writers that update the same document from the same revision, at
  most one succeeds, in whatever order they arrive.\<close>

theorem one_writer_wins:
  assumes "doc_good s" "\<forall>(v, e') \<in> set writers. doc_key (fst v) = k \<and> e' = e"
  shows "fst (run_writes (doc_write env now) writers s) \<le> 1"
  by (rule docs.at_most_one_winner [OF assms])

definition sample_doc :: document where
  "sample_doc = fst (projr sample_created)"

theorem one_writer_wins_witness:
  "fst (run_writes (doc_write sample_env 60) [((sample_doc, Some ''f2''), 1), ((sample_doc, Some ''f2''), 1)] sample_after) \<le> 1"
  by (rule one_writer_wins [where k = "doc_key sample_doc" and e = 1])
     (use sample_after_inv in \<open>simp_all add: log_inv_def\<close>)





text \<open>C4. A command that names a stale revision is refused with the revision conflict and writes nothing (a
  refused command has no new database).\<close>

theorem stale_refused:
  assumes "RejectReadOnly patch = Inr ()" "WriteContext c = Inr (cu, scope)" "0 < e"
    "GetDocument (w_id (wa_workspace scope)) collection identity True s = Inr d" "d_revision d \<noteq> e"
  shows "doc_Patch env c collection identity (JObj patch) e s = Inl RevisionConflict
    \<and> doc_Delete env c collection identity e s = Inl RevisionConflict
    \<and> doc_Restore env c collection identity e s = Inl RevisionConflict"
  using assms by (cases cu; simp add: doc_Patch_def doc_Delete_def doc_Restore_def decodeValues_def
      existing_document_def repo_Get_def Let_def)

theorem stale_refused_witness:
  "\<exists>d. GetDocument ''w1'' CollectionTypes ''point'' True sample_after = Inr d
     \<and> doc_Patch sample_env sample_ctx CollectionTypes ''point'' (JObj []) 7 sample_after = Inl RevisionConflict"
proof -
  have "\<not> isl (GetDocument ''w1'' CollectionTypes ''point'' True sample_after)
      \<and> d_revision (projr (GetDocument ''w1'' CollectionTypes ''point'' True sample_after)) = 1" by code_simp
  then obtain d where d: "GetDocument ''w1'' CollectionTypes ''point'' True sample_after = Inr d" "d_revision d = 1"
    by (cases "GetDocument ''w1'' CollectionTypes ''point'' True sample_after") auto
  have r: "RejectReadOnly [] = Inr ()" by code_simp
  have w: "w_id (wa_workspace sample_access) = ''w1''" by code_simp
  show ?thesis
    using stale_refused [OF r sample_write, of 7 CollectionTypes "''point''" sample_after d sample_env] d by (simp add: w)
qed


definition sample_deleted :: "(document \<times> db) res" where
  "sample_deleted = doc_Delete sample_env sample_ctx CollectionTypes ''point'' 1 sample_after"

lemma sample_deleted_ok: "\<not> isl sample_deleted"
  by code_simp


text \<open>A successful restore returns a document that is not deleted; unless it was live already, it is active, one
  revision further, and exactly one entry was logged.\<close>

theorem restore_outcome:
  assumes "doc_Restore env c collection identity e s = Inr (d, t)" "log_inv {} s"
    "collection \<in> set DocumentCollections"
  shows "d_deletedAt d = None \<and> ((t = s \<and> d_revision d = e) \<or>
     (d_active d \<and> d_revision d = e + 1 \<and> logs_one ''restore'' d s t))"
  by (rule doc_Restore_outcome [OF assms])

lemma sample_restored_ok: "\<not> isl (doc_Restore sample_env sample_ctx CollectionTypes ''point'' 2 (snd (projr sample_deleted)))"
  by code_simp

theorem restore_outcome_witness:
  "\<exists>d t. doc_Restore sample_env sample_ctx CollectionTypes ''point'' 2 (snd (projr sample_deleted)) = Inr (d, t)
     \<and> d_deletedAt d = None"
proof -
  obtain d t where p: "doc_Restore sample_env sample_ctx CollectionTypes ''point'' 2 (snd (projr sample_deleted)) = Inr (d, t)"
    using inr_some [OF sample_restored_ok] by blast
  obtain d0 t0 where del: "sample_deleted = Inr (d0, t0)" using inr_some [OF sample_deleted_ok] by blast
  have "log_inv {} t0"
    by (rule doc_Delete_inv [OF del [unfolded sample_deleted_def] sample_after_inv types_served])
  then have i: "log_inv {} (snd (projr sample_deleted))" unfolding del sum.sel snd_conv .
  show ?thesis using restore_outcome [OF p i] p by (simp add: DocumentCollections_def)
qed

section \<open>Folders and moves\<close>








text \<open>C8. Moving documents is all or nothing and answers in the order of the request: each requested document was
  live and at the revision the request names, the answer has one entry for it (its old state when its content
  does not change, one revision further otherwise), the counter is the number of entries written, and
  nothing at all is written when it is zero.\<close>

theorem move_outcome:
  assumes "MoveDocuments env c input s = Inr (res, t)" "log_inv {} s"
  shows "\<exists>scope u ps. WriteContext c = Inr (u, scope)
      \<and> list_all2 (prepared_ok env scope (trim_space (mv_placement input)) (trim_space (mv_folder input)) (u_id (snd u)) s)
          (map trim_item (mv_documents input)) ps
      \<and> list_all2 moved_ok ps (mr_documents res)
      \<and> mr_moved res = length (filter (\<lambda>p. \<not> unchanged p) ps)
      \<and> (mr_moved res = 0 \<longrightarrow> t = s)"
  by (rule MoveDocuments_Inr(2) [OF assms])

definition sample_move :: move_input where
  "sample_move = \<lparr>mv_documents = [\<lparr>mi_collection = '' types'', mi_identity = ''point'', mi_expected = 1\<rparr>],
     mv_folder = ''root-workspace-files'', mv_placement = ''workspace''\<rparr>"

lemma sample_move_ok: "\<not> isl (MoveDocuments sample_env sample_ctx sample_move sample_after)"
  by code_simp

theorem move_outcome_witness:
  "\<exists>res t ps. MoveDocuments sample_env sample_ctx sample_move sample_after = Inr (res, t)
     \<and> list_all2 moved_ok ps (mr_documents res) \<and> (mr_moved res = 0 \<longrightarrow> t = sample_after)"
proof -
  obtain res t where p: "MoveDocuments sample_env sample_ctx sample_move sample_after = Inr (res, t)"
    using inr_some [OF sample_move_ok] by blast
  from move_outcome [OF p sample_after_inv] obtain ps where "list_all2 moved_ok ps (mr_documents res)" "mr_moved res = 0 \<longrightarrow> t = sample_after"
    by (elim exE conjE)
  with p show ?thesis by (intro exI conjI)
qed

text \<open>The parent of a new log entry is the latest entry of the same document, and there is none exactly when the
  document has no entry yet.\<close>

theorem recorded_parent_is_latest:
  assumes "RecordDocument env c d op from s = Inr (r, t)"
  shows "case rv_parent r of None \<Rightarrow> revisions_of s (d_workspaceID d) (d_type d) (d_id d) = []
    | Some q \<Rightarrow> \<exists>p \<in> set (revisions_of s (d_workspaceID d) (d_type d) (d_id d)). rv_id p = q
        \<and> (\<forall>x \<in> set (revisions_of s (d_workspaceID d) (d_type d) (d_id d)). rv_number x \<le> rv_number p)"
  using append_revision_Inr(6) [OF assms [unfolded RecordDocument_append]] by (rule recorder_parent_spec)

definition sample_record :: "(revision \<times> db) res" where
  "sample_record = RecordDocument sample_env sample_ctx (sample_doc\<lparr>d_revision := 2\<rparr>) ''update'' None sample_after"

lemma sample_record_ok: "\<not> isl sample_record"
  by code_simp

theorem recorded_parent_is_latest_witness:
  "\<exists>r t. sample_record = Inr (r, t) \<and> (rv_parent r = None \<longrightarrow>
     revisions_of sample_after (d_workspaceID sample_doc) (d_type sample_doc) (d_id sample_doc) = [])"
proof -
  obtain r t where p: "sample_record = Inr (r, t)" using inr_some [OF sample_record_ok] by blast
  show ?thesis using recorded_parent_is_latest [OF p [unfolded sample_record_def]] p by (auto split: option.splits)
qed

section \<open>Personal access tokens\<close>


lemma sample_issued_obtain:
  obtains t secret db where "token_Create (sample_tok_env 1000) sample_ctx sample_token_input ''t1'' sample_random sample_tokens = Inr ((t, secret), db)"
    "at_expiresAt t = 5000 * second_ns" "validSecretFormat secret" "map tk_id (tdb_rows db) = [''t1'']" "map tk_hash (tdb_rows db) = [rev secret]"
  using sample_issued_ok unfolding sample_issued_def by (auto split: sum.splits prod.splits)



text \<open>C10. Revocation is permanent: once a token is revoked its secret is refused as revoked, whatever operations the
  service performs afterwards.\<close>

theorem revocation_permanent:
  assumes "tok_inv db" "token_Revoke env c i db = Inr db'" "q \<in> set (tdb_rows db)" "tk_id q = trim_space i"
    "te_sha env' secret = tk_hash q" "validSecretFormat secret"
  shows "Authenticate env' secret (fold (\<lambda>(env, op). tok_step env op) ops db') = Inl (Unauthorized ''access_token_revoked'')"
  by (rule revoked_forever [OF assms])

lemma sample_revoke_ok: "\<not> isl (token_Revoke (sample_tok_env 1500) sample_ctx ''t1'' (snd (projr sample_issued)))"
  by code_simp

theorem revocation_permanent_witness:
  "\<exists>db db' secret. token_Revoke (sample_tok_env 1500) sample_ctx ''t1'' db = Inr db' \<and> map tk_hash (tdb_rows db) = [rev secret]
     \<and> Authenticate (sample_tok_env 2000) secret (tok_step (sample_tok_env 1800) (OpAuthenticate secret) db')
        = Inl (Unauthorized ''access_token_revoked'')"
proof -
  obtain t secret db where i: "token_Create (sample_tok_env 1000) sample_ctx sample_token_input ''t1'' sample_random sample_tokens = Inr ((t, secret), db)"
    "validSecretFormat secret" "map tk_id (tdb_rows db) = [''t1'']" "map tk_hash (tdb_rows db) = [rev secret]" by (rule sample_issued_obtain)
  then obtain q where q: "q \<in> set (tdb_rows db)" "tk_id q = ''t1''" "tk_hash q = rev secret"
    by (cases "tdb_rows db") auto
  have "snd (projr sample_issued) = db" using i(1) by (simp add: sample_issued_def)
  with sample_revoke_ok obtain db' where r: "token_Revoke (sample_tok_env 1500) sample_ctx ''t1'' db = Inr db'"
    by (cases "token_Revoke (sample_tok_env 1500) sample_ctx ''t1'' db") auto
  have tr: "tk_id q = trim_space ''t1''" "te_sha (sample_tok_env 2000) secret = tk_hash q"
    using q by (simp_all add: trim_space_def trim_left_def trim_right_def space1_def space2_def sample_tok_env_def)
  from revocation_permanent [OF token_Create_inv [OF sample_tokens_inv i(1)] r q(1) tr i(2),
      of "[(sample_tok_env 1800, OpAuthenticate secret)]"] r i(4) show ?thesis
    by (intro exI [of _ db] exI [of _ db'] exI [of _ secret]) simp
qed

text \<open>The token table keeps its invariant under every sequence of issues, revocations and authentications:
  identifiers and hashes are unique, a commit or delete flag needs the write scope, every token expires after its
  creation, and it has a revocation time exactly when it has a revoking user.\<close>

theorem token_table_invariant:
  assumes "tok_inv db"
  shows "tok_inv (fold (\<lambda>(env, op). tok_step env op) ops db)"
  by (rule tok_run_inv [OF assms])

theorem token_table_invariant_witness:
  "tok_inv (fold (\<lambda>(env, op). tok_step env op)
     [(sample_tok_env 1000, OpCreate sample_ctx sample_token_input ''t1'' sample_random),
      (sample_tok_env 1500, OpRevoke sample_ctx ''t1'')] sample_tokens)"
  by (rule token_table_invariant [OF sample_tokens_inv])

text \<open>C11. Whoever authenticates holds exactly the rights of one stored token that is neither revoked nor expired, and
  authentication itself never grants the owner's platform role.\<close>

theorem authenticated_rights:
  assumes "Authenticate env secret db = Inr ((p, u), db')"
  shows "\<exists>r \<in> set (tdb_rows db). tk_hash r = te_sha env secret \<and> tk_revokedAt r = None
     \<and> te_now env < tk_expiresAt r \<and> p_tokenID p = tk_id r \<and> p_userID p = tk_user r \<and> u_id u = tk_user r
     \<and> p_workspaceID p = tk_workspace r \<and> p_scope p = tk_scope r
     \<and> p_canCommit p = tk_canCommit r \<and> p_canDelete p = tk_canDelete r \<and> \<not> p_ownerPlatformAdmin p"
  by (rule Authenticate_Inr [OF assms])

lemma sample_auth_ok: "\<not> isl (Authenticate (sample_tok_env 2000) (snd (fst (projr sample_issued))) (snd (projr sample_issued)))"
  by code_simp

theorem authenticated_rights_witness:
  "\<exists>p u db'. Authenticate (sample_tok_env 2000) (snd (fst (projr sample_issued))) (snd (projr sample_issued)) = Inr ((p, u), db')
     \<and> (\<exists>r \<in> set (tdb_rows (snd (projr sample_issued))). p_scope p = tk_scope r \<and> tk_revokedAt r = None)"
proof -
  obtain p u db' where a: "Authenticate (sample_tok_env 2000) (snd (fst (projr sample_issued))) (snd (projr sample_issued)) = Inr ((p, u), db')"
    using inr_some [OF sample_auth_ok] by fastforce
  show ?thesis using authenticated_rights [OF a] a by blast
qed

text \<open>The bounds of an issued token: a validated request has a trimmed name of 1 to 120 characters, the scope read
  or write, commit and delete flags with the write scope only, and an expiry between one minute and the maximum
  lifetime from now.\<close>

theorem token_input_bounds:
  assumes "validateCreate maxTTL now input = Inr (x, expiry)"
  shows "ti_name x = trim_space (ti_name input) \<and> ti_name x \<noteq> [] \<and> rune_count (ti_name x) \<le> 120
    \<and> rune_count (ti_description x) \<le> 1000 \<and> ti_scope x \<in> {''read'', ''write''}
    \<and> (ti_canCommit x \<or> ti_canDelete x \<longrightarrow> ti_scope x = ''write'')
    \<and> now + 60 * second_ns \<le> expiry \<and> expiry \<le> now + maxTTL"
  using assms
  by (auto simp: validateCreate_def res_iffs Let_def go_simps maxNameRunes_def maxDescription_def minimumLifetime_def
      split: option.splits if_splits)

theorem token_input_bounds_witness:
  "\<exists>x expiry. validateCreate (2592000 * second_ns) (1000 * second_ns) sample_token_input = Inr (x, expiry)
     \<and> ti_name x \<noteq> [] \<and> ti_scope x \<in> {''read'', ''write''}"
proof -
  have "\<not> isl (validateCreate (2592000 * second_ns) (1000 * second_ns) sample_token_input)" by code_simp
  then obtain x expiry where v: "validateCreate (2592000 * second_ns) (1000 * second_ns) sample_token_input = Inr (x, expiry)"
    using inr_some by blast
  from token_input_bounds [OF v] v show ?thesis by blast
qed

text \<open>No escalation through a token: a request served with a token is confined to the token's workspace as viewer or
  editor, never passes an administrative check, writes only with the write scope, and commits only when the token
  has the flag and its owner administers the workspace.\<close>

theorem token_request_confined:
  assumes "token_request env isPA basePath header method rawPath wid db = Inr (c, db')"
  shows "(\<exists>p acc. cx_token c = Some p \<and> cx_access c = Some acc \<and> w_id (wa_workspace acc) = p_workspaceID p
       \<and> wa_role acc \<in> {''viewer'', ''editor''})
    \<and> isl (AdminContext c)
    \<and> (isl (WriteContext c) \<or> (\<exists>p. cx_token c = Some p \<and> p_scope p = ''write''))
    \<and> (isl (CommitContext c) \<or>
        (\<exists>p acc. cx_token c = Some p \<and> cx_access c = Some acc \<and> p_canCommit p \<and> CanAdmin (wa_ownerRole acc)))"
  using token_request_rights [OF assms]
  by (cases "AdminContext c"; cases "WriteContext c"; cases "CommitContext c") (auto simp: AccessTokenScopeWrite_def)

definition sample_request :: "(ctx \<times> tok_db) res" where
  "sample_request = token_request (sample_tok_env 2000) (\<lambda>_. Inr True) ''/svc''
     (''Bearer '' @ snd (fst (projr sample_issued))) ''POST'' ''/svc/api/v1/types'' ''demo'' (snd (projr sample_issued))"

lemma sample_request_ok: "\<not> isl sample_request"
  by code_simp

theorem token_request_confined_witness:
  "\<exists>c db'. sample_request = Inr (c, db') \<and> isl (AdminContext c)"
proof -
  obtain c db' where r: "sample_request = Inr (c, db')" using inr_some [OF sample_request_ok] by blast
  from token_request_confined [OF r [unfolded sample_request_def]] r show ?thesis by blast
qed



text \<open>The policy cannot be dodged by spelling: a path and its variants with other letter case, a doubled slash or a
  slash at the end are normalised to the same route, and normalising is idempotent.\<close>

theorem route_spelling:
  "normalizeRoutePath (p @ ''/'') prefix = normalizeRoutePath p prefix
   \<and> normalizeRoutePath (p @ ''//'' @ q) prefix = normalizeRoutePath (p @ ''/'' @ q) prefix
   \<and> normalizeRoutePath (map lower_char p) prefix = normalizeRoutePath p prefix
   \<and> path_clean (path_clean p) = path_clean p"
proof -
  have one: "to_lower (p @ ''/'') = to_lower p @ ''/''" using to_lower_slash [of p "[]"] by (simp add: lower_char_def)
  have two: "to_lower (p @ ''/'' @ q) = to_lower p @ ''/'' @ to_lower q" using to_lower_slash [of p q] by simp
  have three: "to_lower (p @ ''//'' @ q) = to_lower p @ ''//'' @ to_lower q"
    using to_lower_slash [of p "CHR ''/'' # q"] to_lower_slash [of "[]" q] by simp
  show ?thesis
    using path_clean_trailing_slash [of "CHR ''/'' # to_lower p"]
      path_clean_double_slash [of "CHR ''/'' # to_lower p" "to_lower q"]
    by (simp add: normalizeRoutePath_def one two [simplified] three [simplified] path_clean_idem to_lower_lower_char)
qed

section \<open>External access policies\<close>

text \<open>The claims pointers round-trip: parsing the RFC 6901 spelling of any non-empty path of keys gives the keys
  back.\<close>

theorem pointer_roundtrip:
  assumes "ks \<noteq> []"
  shows "ParsePointer (concat (map (\<lambda>k. CHR ''/'' # escape k) ks)) = Some ks"
proof -
  obtain k ls where ks: "ks = k # ls" using assms by (cases ks) auto
  have sp: "split_on (CHR ''/'') (escape k @ concat (map (\<lambda>k. CHR ''/'' # escape k) ls)) = map escape (k # ls)" for k ls
  proof (induction ls arbitrary: k)
    case Nil
    then show ?case using split_on_no [OF escape_no_slash] by simp
  next
    case (Cons l ls)
    have "split_on (CHR ''/'') (escape k @ CHR ''/'' # (escape l @ concat (map (\<lambda>k. CHR ''/'' # escape k) ls)))
        = split_on (CHR ''/'') (escape k) @ split_on (CHR ''/'') (escape l @ concat (map (\<lambda>k. CHR ''/'' # escape k) ls))"
      by (rule split_on_append_sep)
    then show ?case using Cons split_on_no [OF escape_no_slash] by simp
  qed
  show ?thesis by (simp add: ParsePointer_def ks sp has_prefix_def list_all_iff comp_def)
qed

theorem pointer_roundtrip_witness:
  "ParsePointer ''/a~1b/~0'' = Some [''a/b'', [CHR 0x7E]]"
  using pointer_roundtrip [of "[''a/b'', [CHR 0x7E]]"] by simp





section \<open>Validation of documents\<close>

text \<open>C14. Secrets stay out of documents: when a body is accepted, no object of it outside the credentials has a key
  whose normalised name denotes a secret, except the boolean that tells whether a refresh token is kept.\<close>

theorem no_secret_keys:
  assumes "ValidateSecrets v = Inr ()" "exposes v m" "(k, x) \<in> set m" "forbidden_key (normalized_key k)"
  shows "normalized_key k = ''persistrefreshtoken'' \<and> (\<exists>b. x = JBool b)"
  by (rule secret_keys_rejected [OF assms])

theorem no_secret_keys_witness:
  "ValidateSecrets (JObj [(''session'', JObj [(''persistRefreshToken'', JBool True)])]) = Inr ()
   \<and> (\<exists>b. JBool True = JBool b)"
proof -
  have v: "ValidateSecrets (JObj [(''session'', JObj [(''persistRefreshToken'', JBool True)])]) = Inr ()" by code_simp
  have n: "normalized_key ''session'' \<noteq> ''credentials''" by code_simp
  have e: "exposes (JObj [(''session'', JObj [(''persistRefreshToken'', JBool True)])]) [(''persistRefreshToken'', JBool True)]"
    by (rule exposes.in_obj [OF _ n exposes.here]) simp
  have f: "forbidden_key (normalized_key ''persistRefreshToken'')" by code_simp
  show ?thesis using no_secret_keys [OF v e _ f, of "JBool True"] v by simp
qed

text \<open>A gap of that check: below an empty key the credentials of a nested object pass as if they were the top-level
  credentials of the document, since the check recognises the top level by its empty path.\<close>

theorem nested_credentials_pass:
  "ValidateSecrets (JObj [([], JObj [(''credentials'', JObj [(''password'', JStr ''s3cret'')])])]) = Inr ()
   \<and> ValidateSecrets (JObj [(''a'', JObj [(''credentials'', JObj [(''password'', JStr ''s3cret'')])])]) \<noteq> Inr ()"
  by code_simp

text \<open>The validation of authentication profiles is its contract table: a profile is accepted if and only if its keys
  are the known ones, and its configuration, credentials and session are as the row of its adapter demands.\<close>

theorem auth_profile_contract:
  "ValidateAuthProfile input = Inr () \<longleftrightarrow> auth_profile_ok input"
  by (rule ValidateAuthProfile_table)

text \<open>A patch sets exactly the data fields it names: any other field keeps its stored value, printed again from its
  decoding, and the fields of the document itself never enter the data.\<close>

theorem patch_sets_named_fields:
  assumes "owf patch"
  shows "oget (d_data (applyPatch nf d patch a)) k =
    (if k \<notin> set documentFields \<and> ohas patch k then map_option marshal (oget patch k)
     else map_option (renorm nf) (oget (d_data d) k))"
  by (rule applyPatch_data [OF assms])

theorem patch_sets_named_fields_witness:
  "oget (d_data (applyPatch id (sample_doc\<lparr>d_data := [(''kind'', JStr ''a'')]\<rparr>) [(''kind'', JStr ''b'')] ''u1'')) ''kind'' = Some (JStr ''b'')"
proof -
  have o: "owf [(''kind'', JStr ''b'')]" by (simp add: owf_def)
  have k: "''kind'' \<notin> set documentFields" by code_simp
  show ?thesis using patch_sets_named_fields [OF o, of id "sample_doc\<lparr>d_data := [(''kind'', JStr ''a'')]\<rparr>" "''u1''" "''kind''"] k
    by (simp add: ohas_def oget_def)
qed



section \<open>Configuration values\<close>

text \<open>Completing a configuration with the editing defaults is idempotent and never replaces a value that is there;
  the workspace defaults likewise fill only the keys that are missing.\<close>

theorem defaults_fill_only:
  "EnsureSFCEditingDefaults (EnsureSFCEditingDefaults v) = EnsureSFCEditingDefaults v
   \<and> (k \<noteq> ''sfcEditing'' \<longrightarrow> (\<exists>m'. EnsureWorkspaceDefaults (JObj m) = JObj m'
        \<and> oget m' k = (case oget m k of Some x \<Rightarrow> Some x | None \<Rightarrow> map_of workspaceDefaults k)))"
  using EnsureSFCEditingDefaults_idem EnsureWorkspaceDefaults_get by blast

theorem defaults_fill_only_witness:
  "\<exists>m'. EnsureWorkspaceDefaults (JObj [(''theme'', JStr ''mine'')]) = JObj m' \<and> oget m' ''theme'' = Some (JStr ''mine'')"
  using defaults_fill_only [of JNull "''theme''" "[(''theme'', JStr ''mine'')]"] by (simp add: oget_def)

text \<open>An accepted configuration keeps the keys a JavaScript client could take for a prototype out of its values, at
  both levels.\<close>

theorem safe_value_keys:
  assumes "ValidateValuesShape (JObj m) = Inr ()" "oget m ''values'' = Some (JObj vs)" "(i, c) \<in> set vs"
  shows "safeKey i \<and> (\<exists>fields. c = JObj fields \<and> (\<forall>(f, x) \<in> set fields. safeKey f))"
  by (rule ValidateValuesShape_Inr [OF assms])

theorem safe_value_keys_witness:
  "ValidateValuesShape (JObj [(''values'', JObj [(''a'', JObj [(''b'', JNull)])])]) = Inr () \<and> safeKey ''a''"
proof -
  have v: "ValidateValuesShape (JObj [(''values'', JObj [(''a'', JObj [(''b'', JNull)])])]) = Inr ()" by code_simp
  show ?thesis using safe_value_keys [OF v, of "[(''a'', JObj [(''b'', JNull)])]" "''a''" "JObj [(''b'', JNull)]"] v
    by (simp add: oget_def)
qed

section \<open>Facets\<close>

text \<open>C16. The history is complete for facets and facet documents too: whatever document and facet commands are served,
  and in whatever order, the log of each holds exactly the revisions 1, 2, ..., n up to the revision of its row.\<close>

theorem facet_history_complete:
  assumes "served env s0 s" "service_inv s0"
  shows "(\<forall>f \<in> set (db_facets s). map rv_number (revisions_of s (fr_ws f) CollectionFacets (fr_id f)) = [1..fr_revision f])
    \<and> (\<forall>d \<in> set (db_fdocs s). map rv_number (revisions_of s (fd_ws d) CollectionFacetDocuments (fd_id d)) = [1..fd_revision d])"
  using service_inv_facet service_inv_fdoc served_inv [OF assms] by blast

lemma sample_stage: "map (\<lambda>f. (fr_identity f, fr_position f, fr_revision f)) (db_facets sample_facets) = [(''stage'', 0, 1), (''team'', 1, 1)]"
  "map (\<lambda>d. (fd_identity d, fd_deletedAt d, fd_revision d)) (db_fdocs sample_facets) = [(''prod'', None, 1)]"
  by code_simp+

theorem facet_history_complete_witness:
  "\<exists>f \<in> set (db_facets sample_facets). fr_identity f = ''team''
     \<and> map rv_number (revisions_of sample_facets (fr_ws f) CollectionFacets (fr_id f)) = [1]"
proof -
  obtain f where f: "f \<in> set (db_facets sample_facets)" "fr_identity f = ''team''" "fr_revision f = 1"
  proof -
    have "(''team'', 1, 1) \<in> (\<lambda>f. (fr_identity f, fr_position f, fr_revision f)) ` set (db_facets sample_facets)"
      unfolding set_map [symmetric] sample_stage(1) by simp
    then show ?thesis using that by auto
  qed
  have "map rv_number (revisions_of sample_facets (fr_ws f) CollectionFacets (fr_id f)) = [1..fr_revision f]"
    using facet_history_complete [OF sample_served sample_service_inv] f(1) by blast
  with f show ?thesis by auto
qed

text \<open>C17. A live facet document never lies in a deleted facet, whatever commands are served: deleting a facet, moving its
  identity, restoring revisions of facets and documents included.\<close>

theorem live_documents_in_live_facets:
  assumes "served env s0 s" "service_inv s0" "d \<in> set (db_fdocs s)" "fd_deletedAt d = None"
  shows "\<exists>f \<in> set (db_facets s). fr_id f = fd_facet d \<and> fr_ws f = fd_ws d \<and> fr_deletedAt f = None"
  using served_inv [OF assms(1,2)] assms(3,4) by (simp add: service_inv_def facet_inv_def facet_good_def docs_in_live_facets_def)

theorem live_documents_in_live_facets_witness:
  "\<exists>d \<in> set (db_fdocs sample_facets). fd_identity d = ''prod'' \<and>
     (\<exists>f \<in> set (db_facets sample_facets). fr_id f = fd_facet d \<and> fr_ws f = fd_ws d \<and> fr_deletedAt f = None)"
proof -
  obtain d where d: "d \<in> set (db_fdocs sample_facets)" "fd_identity d = ''prod''" "fd_deletedAt d = None"
    using sample_stage(2) by (cases "db_fdocs sample_facets") auto
  from live_documents_in_live_facets [OF sample_served sample_service_inv d(1,3)] d(1,2) show ?thesis by blast
qed







text \<open>A patch of a facet always writes: even when it names no field, the revision moves on and an update is logged,
  because the stored content counts the documents of the facet and the new content never does. Only a hash that
  confuses the two contents could hide the difference.\<close>

theorem facet_patch_always_writes:
  assumes "facet_Patch env c identity input e s = Inr (d, t)" "service_inv s"
    "\<And>x y. e_fsha env x = e_fsha env y \<Longrightarrow> ohas (fc_data x) ''documentCount'' = ohas (fc_data y) ''documentCount''"
  shows "d_revision d = e + 1 \<and> logs_one ''update'' d s t"
  by (rule facet_Patch_Inr(3) [OF assms])

definition sample_no_patch :: facet_patch where
  "sample_no_patch = \<lparr>fpi_identity = None, fpi_displayName = None, fpi_icon = None, fpi_color = None, fpi_meta = None\<rparr>"

lemma sample_no_patch_ok: "\<not> isl (facet_Patch sample_fenv sample_ctx ''stage'' sample_no_patch 1 sample_facets)"
  by code_simp

theorem facet_patch_always_writes_witness:
  "\<exists>d t. facet_Patch sample_fenv sample_ctx ''stage'' sample_no_patch 1 sample_facets = Inr (d, t) \<and> d_revision d = 2"
proof -
  obtain d t where r: "facet_Patch sample_fenv sample_ctx ''stage'' sample_no_patch 1 sample_facets = Inr (d, t)"
    using inr_some [OF sample_no_patch_ok] by blast
  have "ohas (fc_data x) ''documentCount'' = ohas (fc_data y) ''documentCount''"
    if "e_fsha sample_fenv x = e_fsha sample_fenv y" for x y
    using that by (simp add: sample_fenv_def split: if_splits)
  from facet_patch_always_writes [OF r sample_facets_inv this] r show ?thesis by auto
qed

text \<open>A facet with live documents cannot be deleted: the command answers with a 409 that carries their number.\<close>

theorem facet_not_empty:
  assumes "WriteContext c = Inr (cu, scope)" "GetFacet (w_id (wa_workspace scope)) (trim_space identity) True s = Inr d"
    "0 < d_revision d" "d_deletedAt d = None"
    "n = CountActiveFacetDocuments (w_id (wa_workspace scope)) (d_identity d) s" "0 < n"
  shows "facet_Delete env c identity (d_revision d) s = Inl (documents_inside ''facet_not_empty'' n)
    \<and> CodeOf (documents_inside ''facet_not_empty'' n) = ''facet_not_empty''
    \<and> HTTPStatusOf (documents_inside ''facet_not_empty'' n) = 409
    \<and> DetailsOf (documents_inside ''facet_not_empty'' n) = [(''documentCount'', JInt (int n))]"
  using assms
  by (cases cu) (simp add: facet_Delete_def existing_facet_def documents_inside_def CodeOf_def HTTPStatusOf_def DetailsOf_def
      WithDetails_def Conflict_def wrap_err_def cloneDetails_def)

lemma sample_stage_full: "case GetFacet ''w1'' ''stage'' True sample_facets of
    Inr d \<Rightarrow> d_revision d = 1 \<and> d_deletedAt d = None \<and> CountActiveFacetDocuments ''w1'' (d_identity d) sample_facets = 1
  | Inl e \<Rightarrow> False"
  by code_simp

theorem facet_not_empty_witness:
  "facet_Delete sample_fenv sample_ctx ''stage'' 1 sample_facets = Inl (documents_inside ''facet_not_empty'' 1)"
proof -
  obtain d where d: "GetFacet ''w1'' ''stage'' True sample_facets = Inr d" "d_revision d = 1" "d_deletedAt d = None"
    "CountActiveFacetDocuments ''w1'' (d_identity d) sample_facets = 1"
    using sample_stage_full by (auto split: sum.splits)
  have w: "w_id (wa_workspace sample_access) = ''w1''" by code_simp
  have t: "trim_space ''stage'' = ''stage''" by code_simp
  show ?thesis
    using facet_not_empty [OF sample_write, of "''stage''" sample_facets d 1 sample_fenv] d by (simp add: w t)
qed
section \<open>The bridge\<close>

text \<open>C20. A debugging session always joins the right participants: in every state the bridge reaches, under every
  interleaving of its critical sections, the client of a session is a registered client of the session's workspace, its
  configurator is registered and, by the latest authorization the registry holds, may write to that workspace; and none
  exists when debugging is switched off.\<close>

theorem session_endpoints_authorized:
  assumes "bridge_served d st" "oget (br_sessions st) sid = Some s"
  shows "d \<and> (\<exists>c p. oget (br_peers st) (bs_clientID s) = Some c \<and> pt_role c = ''client'' \<and> pt_debug c
      \<and> pt_workspace c = se_workspace s
      \<and> oget (br_peers st) (bs_configuratorID s) = Some p \<and> canDebug p (se_workspace s))"
proof -
  note D = bridge_invD [OF bridge_served_inv [OF assms(1)]]
  from D(8) [OF assms(2)] obtain c p where c: "oget (br_peers st) (bs_clientID s) = Some c" "pt_role c = ''client''"
      "pt_workspace c = se_workspace s" and p: "oget (br_peers st) (bs_configuratorID s) = Some p" "canDebug p (se_workspace s)"
    by (auto simp: endpoints_ok_def split: option.splits)
  with D(7) [OF c(1)] served_debug [OF assms(1)] show ?thesis by (auto simp: peer_ok_def)
qed

theorem session_endpoints_authorized_witness:
  "\<exists>p. oget (br_peers sample_accepted) ''cfg'' = Some p \<and> canDebug p ''acme''"
  using session_endpoints_authorized [OF sample_accepted_served sample_session] by (auto simp: sample_session_def)

text \<open>C21. Consent: in no step of the bridge does a session become active, except when its own client answers its pending
  request with an acceptance; the controller is the one that asked.\<close>

theorem session_needs_consent:
  assumes "bridge_served d st" "bridge_step op st st'" "oget (br_sessions st') sid = Some s" "se_active s"
    and "case oget (br_sessions st) sid of None \<Rightarrow> True | Some s0 \<Rightarrow> \<not> se_active s0"
  shows "\<exists>m s0. op = OpHandle (bs_clientID s) m \<and> bm_type m = ''acceptSession'' \<and> bm_accepted m \<and> bm_sessionID m = sid
    \<and> oget (br_sessions st) sid = Some s0 \<and> bs_configuratorID s0 = bs_configuratorID s"
  using activates_step [OF assms(2) bridge_served_inv [OF assms(1)]] assms(3-5) unfolding activates_def by blast

theorem session_needs_consent_witness:
  "\<exists>m s0. OpHandle ''app'' sample_accept = OpHandle (bs_clientID sample_session) m \<and> bm_accepted m
     \<and> oget (br_sessions sample_requested) ''s1'' = Some s0 \<and> bs_configuratorID s0 = ''cfg''"
proof -
  let ?e = "sample_bridge_env 2 ''x1''"
  have s: "oget (br_sessions (snd (Handle_dispatch ?e ''app'' sample_accept sample_requested))) ''s1'' = Some sample_session"
    by code_simp
  have before: "case oget (br_sessions sample_requested) ''s1'' of None \<Rightarrow> True | Some s0 \<Rightarrow> \<not> se_active s0"
    by code_simp
  have act: "se_active sample_session" "bs_configuratorID sample_session = ''cfg''" by (simp_all add: sample_session_def)
  show ?thesis
    using session_needs_consent [OF sample_requested_served step_handle [OF sample_order_ok sample_fresh(2)] s act(1) before] act(2)
    by auto
qed


section \<open>The cache of release artifacts\<close>

text \<open>C23. Every load of an artifact ends: the eviction loop of the code has no bound of its own, but in every state the
  reader reaches, whatever requests overlap and whatever the repository answers, the flight is closed with an outcome and
  the cached bytes stay between zero and the configured maximum.\<close>

theorem flight_completes:
  assumes "reader_served cfg r" "config_Validate cfg = Inr ()" "cc_enabled cfg" "flying r f"
  shows "\<exists>r'. runFlight cfg op n answer f r = Some r' \<and> fl_outcome (rd_flights r' ! f) \<noteq> None
    \<and> 0 \<le> ca_bytes (rd_cache r') \<and> ca_bytes (rd_cache r') \<le> cc_maxBytes cfg"
proof -
  have max: "0 \<le> cc_maxBytes cfg" by (rule config_max [OF assms(2,3)])
  obtain r' where r': "runFlight cfg op n answer f r = Some r'" "reader_ok cfg r'" "fl_outcome (rd_flights r' ! f) \<noteq> None"
    using runFlight_ends [OF reader_served_ok [OF assms(1) max] max assms(4), of op n answer] by auto
  have ok: "cache_ok (rd_cache r')" using r'(2) by (simp add: reader_ok_def)
  have "0 \<le> ca_bytes (rd_cache r')"
    unfolding cache_okD(6) [OF ok] by (rule total_nonneg [OF cache_okD(5) [OF ok]])
  with r' show ?thesis by (auto simp: reader_ok_def)
qed

definition sample_cache_config :: cache_config where
  "sample_cache_config = \<lparr>cc_enabled = True, cc_maxBytes = 10, cc_maxItemBytes = 8\<rparr>"

definition sample_release :: "string \<Rightarrow> release_ref" where
  "sample_release i = \<lparr>rl_id = i, rl_identity = i, rl_checksum = ''c''\<rparr>"

definition sample_artifact :: "string \<Rightarrow> release_artifact" where
  "sample_artifact i = \<lparr>ra_releaseID = i, ra_workspaceID = ''w'', ra_identity = i, ra_checksum = ''c'', ra_data = ''123456''\<rparr>"

definition sample_fetch :: "string \<Rightarrow> reader \<Rightarrow> reader" where
  "sample_fetch i r = (let r1 = snd (Read_enter ''bundle'' ''w'' (sample_release i) r) in
     the (runFlight sample_cache_config ''bundle'' 1 (Inr (Some (sample_artifact i))) (length (rd_flights r)) r1))"

definition sample_reader :: reader where
  "sample_reader = snd (Read_enter ''bundle'' ''w'' (sample_release ''b'') (sample_fetch ''a'' NewReader))"

lemma sample_reader_served: "reader_served sample_cache_config sample_reader"
proof -
  let ?r = "snd (Read_enter ''bundle'' ''w'' (sample_release ''a'') NewReader)"
  have f: "flying ?r 0" unfolding flying_def by code_simp
  have "runFlight sample_cache_config ''bundle'' 1 (Inr (Some (sample_artifact ''a''))) 0 ?r = Some (sample_fetch ''a'' NewReader)"
    by code_simp
  from reader_next [OF reader_next [OF reader_start step_enter] step_flight [OF f this]]
  have "reader_served sample_cache_config (sample_fetch ''a'' NewReader)" .
  from reader_next [OF this step_enter] show ?thesis unfolding sample_reader_def .
qed

lemma sample_flying: "flying sample_reader 1" "config_Validate sample_cache_config = Inr ()" "cc_enabled sample_cache_config"
  unfolding flying_def by code_simp+

theorem flight_completes_witness:
  "\<exists>r'. runFlight sample_cache_config ''bundle'' 1 (Inr (Some (sample_artifact ''b''))) 1 sample_reader = Some r'
     \<and> ca_bytes (rd_cache r') \<le> 10"
  using flight_completes [OF sample_reader_served sample_flying(2,3,1), of "''bundle''" 1 "Inr (Some (sample_artifact ''b''))"]
  by (auto simp: sample_cache_config_def)

text \<open>C24. Eviction is least-recently-used, exactly: after a flight stored its artifact, the recency list is the longest
  prefix that fits the maximum of the new element followed by the old elements without stale versions of the same
  release; and the new artifact itself is never evicted.\<close>

theorem eviction_is_lru:
  assumes "reader_served cfg r" "config_Validate cfg = Inr ()" "cc_enabled cfg" "flying r f"
    and "reader_load answer (fl_workspaceID (rd_flights r ! f)) (fl_release (rd_flights r ! f)) = Inr a"
    and "canStore cfg (int (length (ra_data a)))"
  shows "\<exists>r' e rest. runFlight cfg op n answer f r = Some r' \<and> el_key e = flight_key (rd_flights r ! f)
    \<and> ce_artifact (el_value e) = cloneArtifact a
    \<and> ca_lru (rd_cache r') = e # rest
    \<and> ca_lru (rd_cache r') = fitting (cc_maxBytes cfg)
        (e # filter (\<lambda>x. \<not> stale_version (flight_key (rd_flights r ! f)) (el_key x)) (ca_lru (rd_cache r)))"
proof -
  have max: "0 \<le> cc_maxBytes cfg" by (rule config_max [OF assms(2,3)])
  from runFlight_ends [OF reader_served_ok [OF assms(1) max] max assms(4), of op n answer] assms(5,6)
  obtain r' e where r': "runFlight cfg op n answer f r = Some r'"
    and e: "el_value e = \<lparr>ce_key = flight_key (rd_flights r ! f), ce_artifact = cloneArtifact a, ce_size = int (length (ra_data a))\<rparr>"
    and l: "ca_lru (rd_cache r') = fitting (cc_maxBytes cfg)
      (e # filter (\<lambda>x. \<not> stale_version (flight_key (rd_flights r ! f)) (el_key x)) (ca_lru (rd_cache r)))"
    by blast
  have "el_size e \<le> cc_maxBytes cfg" using e assms(6) by (simp add: el_size_def canStore_def)
  with r' e l show ?thesis by (auto simp: el_key_def)
qed

theorem eviction_is_lru_witness:
  "\<exists>r' e rest. runFlight sample_cache_config ''bundle'' 1 (Inr (Some (sample_artifact ''b''))) 1 sample_reader = Some r'
     \<and> ca_lru (rd_cache r') = e # rest \<and> ce_artifact (el_value e) = cloneArtifact (sample_artifact ''b'')"
proof -
  have "reader_load (Inr (Some (sample_artifact ''b''))) (fl_workspaceID (rd_flights sample_reader ! 1))
      (fl_release (rd_flights sample_reader ! 1)) = Inr (sample_artifact ''b'')" by code_simp
  moreover have "canStore sample_cache_config (int (length (ra_data (sample_artifact ''b''))))" by code_simp
  ultimately show ?thesis
    using eviction_is_lru [OF sample_reader_served sample_flying(2,3,1), of "Inr (Some (sample_artifact ''b''))" _ "''bundle''" 1] by blast
qed


section \<open>Access control\<close>

text \<open>C26. The last administrator: under a local policy no sequence of commands (sign-ins, changes of grants and
  memberships, deletions) leaves the service without a platform administrator once there is one.\<close>

theorem last_admin_survives:
  assumes "acc_fresh base db0" "access_served base UNIV db0 db" "access_served base {None} db db'" "HasPlatformAdmins db"
  shows "HasPlatformAdmins db'"
proof -
  have "acc_inv base db" using access_served_inv [OF assms(2)] acc_fresh_inv [OF assms(1)] by blast
  then show ?thesis by (rule access_served_keeps_admin [OF _ assms(3,4)])
qed

theorem last_admin_survives_witness: "HasPlatformAdmins sample_acc3"
  using last_admin_survives [OF sample_acc_fresh sample_acc_served(2,3) sample_acc_facts(1)] .

text \<open>Where platform rights come from: a command that makes somebody a platform administrator is the sign-in of that active
  user - as the first person of an empty installation, or with a verified external token that claims the platform under
  the current policy - or a grant given by a platform administrator under a local policy.\<close>

theorem platform_rights_origin:
  assumes "acc_fresh base db0" "access_served base UNIV db0 db" "acc_env_of base env" "acc_step env pol op db = Inr db'"
    and "\<not> has_platform db i" "has_platform db' i"
  shows "(\<exists>input legacy snapshot u db1. op = AoResolve input legacy snapshot \<and> UpsertCurrentUser env input db = (u, db1)
      \<and> u_id u = i \<and> u_active u \<and> (if External pol then external_claim env pol snapshot else bootstrap_allowed legacy db1))
    \<or> (\<exists>c input. op = AoPut c input \<and> \<not> External pol \<and> platform_actor c \<and> ae_uuid_of env (ap_user input) = Some i)"
proof -
  have "acc_inv env db" "ids_law env"
    using access_served_inv [OF assms(2)] acc_fresh_inv [OF assms(1)] acc_inv_env [OF assms(3)] assms(3)
    by (auto simp: acc_env_of_def)
  then show ?thesis using platform_origin [OF assms(4)] assms(5,6) by blast
qed

theorem platform_rights_origin_witness:
  "bootstrap_allowed False (snd (UpsertCurrentUser (sample_access_env 1) (sample_person ''alice'') sample_acc_db))"
proof -
  have run: "acc_step (sample_access_env 1) None (AoResolve (sample_person ''alice'') False None) sample_acc_db = Inr sample_acc1"
    by code_simp
  have p: "\<not> has_platform sample_acc_db ''n''" "has_platform sample_acc1 ''n''"
    by (simp add: has_platform_def sample_acc_db_def) (unfold has_platform_def, rule sample_acc_facts(2))
  show ?thesis
    using platform_rights_origin [OF sample_acc_fresh sample_acc_served(1) sample_access_env_ok run p] by (auto simp: External_def)
qed

text \<open>C27. The membership table mirrors the grants: after every sequence of commands the role a member row gives a user in a
  workspace is the role of the grant, and a row exists for exactly the granted pairs; no subject has two grants.\<close>

theorem memberships_mirror_grants:
  assumes "acc_fresh base db0" "access_served base P db0 db"
  shows "map_option mb_role (find (member_of ws i) (acc_members db)) = map_option ag_role (find (workspace_of ws i) (acc_grants db))
    \<and> length (filter (workspace_of ws i) (acc_grants db)) \<le> 1 \<and> length (filter (platform_of i) (acc_grants db)) \<le> 1"
proof -
  have "acl_ok (ae_uuid_of base) db"
    using access_served_inv [OF assms(2)] acc_fresh_inv [OF assms(1)] by (simp add: acc_inv_def)
  then show ?thesis by (rule acl_ok_rows)
qed

theorem memberships_mirror_grants_witness:
  "map_option mb_role (find (member_of ''w1'' ''nn'') (acc_members sample_acc3)) = Some ''editor''"
proof -
  have "map_option ag_role (find (workspace_of ''w1'' ''nn'') (acc_grants sample_acc3)) = Some ''editor''" by code_simp
  with memberships_mirror_grants [OF sample_acc_fresh sample_acc_served(4), of "''w1''" "''nn''"] show ?thesis by simp
qed




section \<open>Domain versions\<close>

text \<open>C30. The portable form is canonical: canonicalizing a canonical bundle, also after it was printed and read back, changes
  nothing, and the version of a bundle is the version of its canonical form. (No collection is called \<open>bindings\<close>; lemma
  \<open>bindings_change_twice\<close> shows why.)\<close>

theorem canonical_form_stable:
  assumes "nf_law nf" "portable_bundle_wf b"
  shows "fst (Canonicalize nf (fst (Canonicalize nf b))) = fst (Canonicalize nf b)
    \<and> Compute sha nf (fst (Canonicalize nf b)) = Compute sha nf b"
  using Canonicalize_idem [OF assms] by (simp add: Compute_def)

theorem canonical_form_stable_witness:
  "Compute sample_sha id (fst (Canonicalize id (sample_portable [''a'']))) = Compute sample_sha id (sample_portable [''a''])"
  using canonical_form_stable [OF sample_nf_law sample_portable_wf] by blast

text \<open>C31. The version identifies what import applies: it does not depend on the order in which a bundle lists the documents of
  a collection, nor on workspace fields import ignores, installed integrations, or the declared version - when no two
  folders share an identity, since a reference is checked against the last folder of that name.\<close>

theorem version_ignores_order:
  assumes "bundles_agree b b'" "distinct (folder_ids (docs_in (orElse (bn_documents b) []) CollectionFolders))"
  shows "Compute sha nf b = Compute sha nf b'"
  by (rule Compute_agree [OF assms])

theorem version_ignores_order_witness:
  "Compute sample_sha id (sample_portable [''b'', ''a'']) = Compute sample_sha id (sample_portable [''a'', ''b''])"
  by (rule version_ignores_order [OF sample_portable_agree sample_portable_folders])

text \<open>A version an export attaches is accepted by an import: it is well-formed and current, and computing the version of the
  exported bundle for the declared version gives it back.\<close>

theorem attached_version_verifies:
  assumes "sha_law sha"
  shows "IsCurrent (bn_domainVersion (dv_Attach sha nf b))
    \<and> ComputeForDeclaredVersion sha nf (dv_Attach sha nf b) (bn_domainVersion (dv_Attach sha nf b))
      = Inr (bn_domainVersion (dv_Attach sha nf b))"
  by (rule Attach_verifies [OF assms])

theorem attached_version_verifies_witness:
  "IsCurrent (bn_domainVersion (dv_Attach sample_sha id (sample_portable [''a''])))"
  using attached_version_verifies [OF sample_sha_law] by blast
section \<open>Commits\<close>

text \<open>C32. A commit follows the last commit of its workspace, ends at the head of the workspace and leaves nothing pending; its
  changes name every document with a revision in the commit exactly once, with the identity and the identifier of its last
  revision there - provided the request saw the current head (lemma \<open>late_revision_swallowed\<close> shows what happens
  otherwise).\<close>

theorem commit_outcome:
  assumes "commits_inv s" "in_sync c s" "commit_Create env version c message policy expected s = Inr ((cm, chs), t)"
  shows "\<exists>latest. LatestCommit (cm_ws cm) s = Inr latest \<and> cm_parent cm = Some (cm_id latest) \<and> cm_base cm = cm_head latest
    \<and> head_of (cd_db s) (cm_ws cm) = Some (cm_head cm) \<and> LatestCommit (cm_ws cm) t = Inr cm
    \<and> PendingRevisions (cm_ws cm) (cm_head cm) t = [] \<and> describes_commit cm chs t"
  by (rule commit_Create_Inr [OF assms(3,1,2)]) blast

theorem commit_outcome_witness:
  "case sample_commit ''preserve'' of Inl e \<Rightarrow> False | Inr ((cm, chs), t) \<Rightarrow> PendingRevisions (cm_ws cm) (cm_head cm) t = [] \<and> describes_commit cm chs t"
proof -
  obtain cm chs t where c: "sample_commit ''preserve'' = Inr ((cm, chs), t)" using sample_commit_Inr by metis
  show ?thesis using commit_outcome [OF sample_uncommitted_inv sample_in_sync c [unfolded sample_commit_def]] c by auto
qed



text \<open>C34. Squashing keeps the last word on every document: of each document with pending revisions exactly one revision remains,
  with the number, the sequence and the snapshot of the last one and all their authors and contributors, and
  no other revision is touched.\<close>

theorem squash_keeps_last:
  assumes "commits_inv s" "SquashPending env ws base actor batch s = Inr (new, t)"
  shows "db_revisions (cd_db t) = filter (\<lambda>r. \<not> is_pending s ws base r) (db_revisions (cd_db s)) @ new
    \<and> distinct (map rev_key new) \<and> rev_key ` set new = rev_key ` {r \<in> set (db_revisions (cd_db s)). is_pending s ws base r}
    \<and> (\<forall>v \<in> set new. squash_of actor (last (same_key (rev_key v) (PendingRevisions ws base s))) v
        \<and> map_of (cd_contributors t) (rv_id v) = Some (squash_contributors s (same_key (rev_key v) (PendingRevisions ws base s))))"
proof -
  let ?p = "PendingRevisions ws base s"
  have revs: "db_revisions (cd_db t)
      = filter (\<lambda>r. \<forall>k \<in> set (sort (remdups (map rev_key ?p))). r \<notin> set (same_key k ?p)) (db_revisions (cd_db s)) @ new"
    and l2: "list_all2 (\<lambda>k v. squash_of actor (last (same_key k ?p)) v
          \<and> map_of (cd_contributors t) (rv_id v) = Some (squash_contributors s (same_key k ?p))) (sort (remdups (map rev_key ?p))) new"
    using SquashPending_Inr [OF assms(2,1)] by (simp_all add: squash_result_def)
  have keys: "map rev_key new = sort (remdups (map rev_key ?p))" by (rule squash_keys [OF l2]) auto
  have "distinct (map rev_key new)" unfolding keys by simp
  moreover have "rev_key ` set new = rev_key ` set ?p" using arg_cong [OF keys, of set] by simp
  moreover have "filter (\<lambda>r. \<forall>k \<in> set (sort (remdups (map rev_key ?p))). r \<notin> set (same_key k ?p)) (db_revisions (cd_db s))
      = filter (\<lambda>r. \<not> is_pending s ws base r) (db_revisions (cd_db s))"
    by (rule filter_cong [OF refl]) (auto simp: pending_set)
  moreover have "squash_of actor (last (same_key (rev_key v) ?p)) v
        \<and> map_of (cd_contributors t) (rv_id v) = Some (squash_contributors s (same_key (rev_key v) ?p))" if "v \<in> set new" for v
    using l2 that unfolding keys [symmetric] by (simp add: list_all2_map1 list_all2_same)
  ultimately show ?thesis using revs by (simp add: pending_set)
qed

theorem squash_keeps_last_witness:
  "case SquashPending sample_env ''w1'' 2 ''u1'' ''b0'' sample_uncommitted of Inl e \<Rightarrow> False
   | Inr (new, t) \<Rightarrow> length new = 1 \<and> distinct (map rev_key new)"
proof -
  have "case SquashPending sample_env ''w1'' 2 ''u1'' ''b0'' sample_uncommitted of Inl e \<Rightarrow> False | Inr (new, t) \<Rightarrow> length new = 1"
    by code_simp
  then obtain new t where n: "SquashPending sample_env ''w1'' 2 ''u1'' ''b0'' sample_uncommitted = Inr (new, t)" "length new = 1"
    by (auto split: sum.splits)
  show ?thesis using squash_keeps_last [OF sample_uncommitted_inv n(1)] n by simp
qed


section \<open>Snapshots and restores\<close>

text \<open>C36. A restore is guarded and complete as a transaction: it needs an administrator and the sequence the workspace is at, it
  loses no revision, and it ends in a commit that follows the last one, takes every revision since then (those that were pending
  before included), has the new head of the workspace and leaves nothing pending; the log stays partitioned by the commits.\<close>

theorem bundle_restore_outcome:
  assumes "commits_inv s" "workspaces_keyed (cd_db s)"
    "restoreBundle env sha version known c b expected op message s = Inr ((cm, chs), t)"
  shows "\<exists>scope live latest. ctx_Access c = Inr scope \<and> CanAdmin (wa_role scope)
    \<and> getWorkspace (w_identity (wa_workspace scope)) (cd_db s) = Inr live \<and> cm_ws cm = w_id live
    \<and> head_of (cd_db s) (cm_ws cm) = Some expected \<and> set (db_revisions (cd_db s)) \<subseteq> set (db_revisions (cd_db t))
    \<and> LatestCommit (cm_ws cm) s = Inr latest \<and> cm_parent cm = Some (cm_id latest) \<and> cm_base cm = cm_head latest
    \<and> LatestCommit (cm_ws cm) t = Inr cm \<and> head_of (cd_db t) (cm_ws cm) = Some (cm_head cm) \<and> expected \<le> cm_head cm
    \<and> PendingRevisions (cm_ws cm) (cm_head cm) t = []
    \<and> (\<forall>r \<in> set (db_revisions (cd_db t)). committed_in t r = Some (cm_id cm)
         \<longleftrightarrow> rv_ws r = cm_ws cm \<and> (\<exists>n. rv_seq r = Some n \<and> cm_base cm < n))
    \<and> commits_inv t"
proof (rule restoreBundle_Inr [OF assms], goal_cases)
  case (1 scope live latest d)
  have "set (db_revisions (cd_db s)) \<subseteq> set (db_revisions (cd_db t))"
    using log_run_revisions [OF 1(15)] unfolding 1(16) .
  with 1 show ?case by blast
qed

theorem bundle_restore_outcome_witness:
  "case sample_restore ''Dot'' of Inl e \<Rightarrow> False
   | Inr ((cm, chs), t) \<Rightarrow> LatestCommit (cm_ws cm) t = Inr cm \<and> PendingRevisions (cm_ws cm) (cm_head cm) t = [] \<and> 2 \<le> cm_head cm"
proof -
  obtain cm chs t where r: "sample_restore ''Dot'' = Inr ((cm, chs), t)" using sample_restore_Inr by blast
  show ?thesis using bundle_restore_outcome [OF sample_edge_inv r [unfolded sample_restore_def]] r by auto
qed













end
